(* ===== verification/Prelude.thy ===== *)
theory Prelude
  imports Main "HOL-Library.AList" "HOL-Library.Word" "HOL-Library.Sublist" "HOL-Library.Multiset"
begin

text \<open>
  Shared ground of the development: the types the components have in common, the Go maps and
  channels the code is built on, and the collections of lemmas the component proofs share.

  \<^item> Time is an \<open>int\<close> count of nanoseconds, as Go's \<open>time.Duration\<close> and \<open>UnixNano\<close> are.
  \<^item> A Go \<open>map\<close> is an association list with distinct keys, used through \<open>map_of\<close>,
    \<open>AList.update\<close> and \<open>AList.delete\<close>, so that \<open>len(m)\<close> is the list's length.
  \<^item> A buffered Go channel is a list of at most \<open>ch_cap\<close> items: a send appends, a receive
    takes the head. The interface \<open>fifo\<close> states the contract the workers rely on.
\<close>

section \<open>Types\<close>

type_synonym bytes = string
type_synonym uuid = string
type_synonym time = int
type_synonym u64 = "64 word"
type_synonym u32 = "32 word"

abbreviation millisecond :: time where
  "millisecond \<equiv> 1000000"

abbreviation second :: time where
  "second \<equiv> 1000000000"

abbreviation minute :: time where
  "minute \<equiv> 60000000000"

named_theorems chan_simps "evaluation of channel operations"
named_theorems alist_simps "lookups and keys of association lists"

section \<open>Association lists as Go maps\<close>

declare update_conv' [alist_simps] delete_conv' [alist_simps]
declare distinct_update [alist_simps] distinct_delete [alist_simps]

lemma fst_set_update [alist_simps]: "fst ` set (AList.update k v m) = insert k (fst ` set m)"
  by (simp add: dom_update)

lemma fst_set_delete [alist_simps]: "fst ` set (AList.delete k m) = fst ` set m - {k}"
  by (force simp: AList.delete_eq)

lemma distinct_keys_update [simp]:
  "distinct (map fst m) \<Longrightarrow> distinct (map fst (AList.update k v m))"
  by (rule distinct_update)

lemma distinct_keys_delete [simp]:
  "distinct (map fst m) \<Longrightarrow> distinct (map fst (AList.delete k m))"
  by (rule distinct_delete)

text \<open>Deleting a key that is present makes the map shorter: the measure of the loops that
  drain a map.\<close>

lemma length_delete_less:
  assumes "map_of m k = Some v"
  shows "length (AList.delete k m) < length m"
proof -
  from assms have "(k, v) \<in> set m" by (rule map_of_SomeD)
  then have "filter (\<lambda>(k', _). k \<noteq> k') m \<noteq> m"
    by (auto simp: filter_id_conv)
  then have "length (filter (\<lambda>(k', _). k \<noteq> k') m) < length m"
    by (metis length_filter_le le_neq_implies_less filter_True length_filter_less
        filter_id_conv)
  then show ?thesis by (simp add: AList.delete_eq)
qed

lemma length_update_new: "map_of m k = None \<Longrightarrow> length (AList.update k v m) = Suc (length m)"
  by (induction m) auto

lemma set_update_subset: "set (AList.update k v m) \<subseteq> insert (k, v) (set m)"
  by (induction m) auto

lemma map_of_delete_other: "k' \<noteq> k \<Longrightarrow> map_of (AList.delete k m) k' = map_of m k'"
  by (simp add: delete_conv')

section \<open>Bounded channels\<close>

record 'a chan =
  ch_items :: "'a list"
  ch_cap :: nat

definition make_chan :: "nat \<Rightarrow> 'a chan" where
  "make_chan n = \<lparr>ch_items = [], ch_cap = n\<rparr>"

text \<open>A send in a \<open>select\<close> with a default branch: it succeeds when there is room.\<close>

definition try_send :: "'a chan \<Rightarrow> 'a \<Rightarrow> 'a chan option" where
  "try_send c x =
     (if length (ch_items c) < ch_cap c then Some (c\<lparr>ch_items := ch_items c @ [x]\<rparr>) else None)"

definition try_recv :: "'a chan \<Rightarrow> ('a \<times> 'a chan) option" where
  "try_recv c = (case ch_items c of [] \<Rightarrow> None | x # xs \<Rightarrow> Some (x, c\<lparr>ch_items := xs\<rparr>))"

definition chan_ok :: "'a chan \<Rightarrow> bool" where
  "chan_ok c \<longleftrightarrow> length (ch_items c) \<le> ch_cap c"

lemma ch_items_make_chan [simp]: "ch_items (make_chan n) = []"
  and ch_cap_make_chan [simp]: "ch_cap (make_chan n) = n"
  by (simp_all add: make_chan_def)

lemma try_send_Some [chan_simps]:
  "try_send c x = Some c' \<longleftrightarrow>
     length (ch_items c) < ch_cap c \<and> c' = c\<lparr>ch_items := ch_items c @ [x]\<rparr>"
  by (auto simp: try_send_def)

lemma try_send_None [chan_simps]: "try_send c x = None \<longleftrightarrow> ch_cap c \<le> length (ch_items c)"
  by (auto simp: try_send_def)

lemma try_recv_Some [chan_simps]:
  "try_recv c = Some (x, c') \<longleftrightarrow> (\<exists>xs. ch_items c = x # xs \<and> c' = c\<lparr>ch_items := xs\<rparr>)"
  by (auto simp: try_recv_def split: list.splits)

lemma try_recv_None [chan_simps]: "try_recv c = None \<longleftrightarrow> ch_items c = []"
  by (simp add: try_recv_def split: list.splits)

section \<open>The FIFO contract\<close>

text \<open>
  What a worker relies on: a queue whose accepted sends come out in the order they went in.
  \<open>contents\<close> is the abstract list, oldest first.
\<close>

locale fifo =
  fixes send :: "'q \<Rightarrow> 'a \<Rightarrow> 'q option"
    and recv :: "'q \<Rightarrow> ('a \<times> 'q) option"
    and contents :: "'q \<Rightarrow> 'a list"
  assumes send_contents: "send q x = Some q' \<Longrightarrow> contents q' = contents q @ [x]"
    and recv_contents: "recv q = Some (x, q') \<Longrightarrow> contents q = x # contents q'"
    and recv_empty: "recv q = None \<Longrightarrow> contents q = []"
begin

fun send_all :: "'q \<Rightarrow> 'a list \<Rightarrow> 'q option" where
  "send_all q [] = Some q"
| "send_all q (x # xs) = (case send q x of None \<Rightarrow> None | Some q' \<Rightarrow> send_all q' xs)"

fun recv_n :: "nat \<Rightarrow> 'q \<Rightarrow> 'a list \<times> 'q" where
  "recv_n 0 q = ([], q)"
| "recv_n (Suc n) q =
     (case recv q of None \<Rightarrow> ([], q)
      | Some (x, q') \<Rightarrow> (let (xs, r) = recv_n n q' in (x # xs, r)))"

lemma send_all_contents: "send_all q xs = Some q' \<Longrightarrow> contents q' = contents q @ xs"
  by (induction xs arbitrary: q) (auto split: option.splits dest: send_contents)

lemma recv_n_split: "fst (recv_n n q) = take n (contents q) \<and> contents (snd (recv_n n q)) = drop n (contents q)"
proof (induction n arbitrary: q)
  case 0
  then show ?case by simp
next
  case (Suc n)
  show ?case
  proof (cases "recv q")
    case None
    then show ?thesis by (simp add: recv_empty)
  next
    case (Some p)
    then obtain x q' where p: "recv q = Some (x, q')" by (cases p) auto
    then have "contents q = x # contents q'" by (rule recv_contents)
    with p Suc.IH [of q'] show ?thesis by (auto simp: Let_def split: prod.splits)
  qed
qed

text \<open>Everything sent is received, once and in order.\<close>

lemma fifo_order:
  assumes "contents q = []" and "send_all q xs = Some q'"
  shows "fst (recv_n (length xs) q') = xs"
  using send_all_contents [OF assms(2)] assms(1) by (simp add: recv_n_split)

end

interpretation chq: fifo try_send try_recv ch_items
  by unfold_locales (auto simp: chan_simps)

lemma try_send_ok: "chan_ok c \<Longrightarrow> try_send c x = Some c' \<Longrightarrow> chan_ok c'"
  by (auto simp: chan_ok_def chan_simps)

lemma try_recv_ok: "chan_ok c \<Longrightarrow> try_recv c = Some (x, c') \<Longrightarrow> chan_ok c'"
  by (auto simp: chan_ok_def chan_simps)

lemma try_send_cap: "try_send c x = Some c' \<Longrightarrow> ch_cap c' = ch_cap c"
  by (auto simp: chan_simps)

lemma try_recv_cap: "try_recv c = Some (x, c') \<Longrightarrow> ch_cap c' = ch_cap c"
  by (auto simp: chan_simps)

section \<open>Lists\<close>

lemma map_filter_ball_cong:
  "(\<And>x. x \<in> set xs \<Longrightarrow> P x = Q x) \<Longrightarrow> (\<And>x. x \<in> set xs \<Longrightarrow> f x = g x) \<Longrightarrow>
   map f (filter P xs) = map g (filter Q xs)"
  by (induction xs) auto

lemma distinct_map_filter: "distinct (map f xs) \<Longrightarrow> distinct (map f (filter P xs))"
  by (induction xs) auto

end
