(* ===== verification/Go_Strings.thy ===== *)
theory Go_Strings
  imports Prelude
begin

text \<open>
  The part of Go's \<open>strings\<close>, \<open>strconv\<close> and \<open>time\<close> packages the source uses, on byte
  strings (\<open>char list\<close>): prefixes and suffixes, search, trimming, ASCII case, decimal
  integers, and the calendar layouts \<open>20060102\<close> and \<open>2006-01-02 15:04:05\<close>.
\<close>

section \<open>Prefixes, search, case\<close>

definition has_prefix :: "string \<Rightarrow> string \<Rightarrow> bool" where
  "has_prefix s p \<longleftrightarrow> take (length p) s = p"

definition has_suffix :: "string \<Rightarrow> string \<Rightarrow> bool" where
  "has_suffix s p \<longleftrightarrow> length p \<le> length s \<and> drop (length s - length p) s = p"

text \<open>\<open>strings.Index\<close>: the first position of the substring, \<open>None\<close> for -1.\<close>

fun str_index :: "string \<Rightarrow> string \<Rightarrow> nat option" where
  "str_index [] p = (if p = [] then Some 0 else None)"
| "str_index (c # cs) p =
     (if has_prefix (c # cs) p then Some 0 else map_option Suc (str_index cs p))"

definition str_contains :: "string \<Rightarrow> string \<Rightarrow> bool" where
  "str_contains s p \<longleftrightarrow> str_index s p \<noteq> None"

definition trim_prefix :: "string \<Rightarrow> string \<Rightarrow> string" where
  "trim_prefix s p = (if has_prefix s p then drop (length p) s else s)"

text \<open>Bytes of the ASCII range only: the code applies these to e-mail addresses, file
  extensions and size suffixes.\<close>

definition to_lower_char :: "char \<Rightarrow> char" where
  "to_lower_char c =
     (let n = of_char c :: nat in if 65 \<le> n \<and> n \<le> 90 then char_of (n + 32) else c)"

definition to_upper_char :: "char \<Rightarrow> char" where
  "to_upper_char c =
     (let n = of_char c :: nat in if 97 \<le> n \<and> n \<le> 122 then char_of (n - 32) else c)"

definition to_lower :: "string \<Rightarrow> string" where
  "to_lower = map to_lower_char"

definition to_upper :: "string \<Rightarrow> string" where
  "to_upper = map to_upper_char"

definition is_space_char :: "char \<Rightarrow> bool" where
  "is_space_char c \<longleftrightarrow> of_char c \<in> {9, 10, 11, 12, 13, 32 :: nat}"

definition trim_space :: "string \<Rightarrow> string" where
  "trim_space s = rev (dropWhile is_space_char (rev (dropWhile is_space_char s)))"

section \<open>Decimal integers\<close>

definition digit_char :: "nat \<Rightarrow> char" where
  "digit_char d = char_of (48 + d)"

fun nat_digits :: "nat \<Rightarrow> string" where
  "nat_digits n =
     (if n < 10 then [digit_char n] else nat_digits (n div 10) @ [digit_char (n mod 10)])"

declare nat_digits.simps [simp del]

definition itoa :: "int \<Rightarrow> string" where
  "itoa i = (if i < 0 then CHR ''-'' # nat_digits (nat (- i)) else nat_digits (nat i))"

definition is_digit :: "char \<Rightarrow> bool" where
  "is_digit c \<longleftrightarrow> 48 \<le> (of_char c :: nat) \<and> (of_char c :: nat) \<le> 57"

definition digit_val :: "char \<Rightarrow> nat" where
  "digit_val c = of_char c - 48"

definition digits_val :: "string \<Rightarrow> nat" where
  "digits_val s = foldl (\<lambda>a c. 10 * a + digit_val c) 0 s"

text \<open>\<open>strconv.ParseInt(s, 10, bits)\<close>: an optional sign, digits, and the range check.\<close>

definition parse_int :: "nat \<Rightarrow> string \<Rightarrow> int option" where
  "parse_int bits s =
     (let (neg, ds) = (case s of [] \<Rightarrow> (False, [])
                       | c # cs \<Rightarrow> if c = CHR ''-'' then (True, cs)
                                   else if c = CHR ''+'' then (False, cs) else (False, s))
      in if ds \<noteq> [] \<and> list_all is_digit ds then
           (let v = (if neg then - int (digits_val ds) else int (digits_val ds))
            in if - (2 ^ (bits - 1)) \<le> v \<and> v < 2 ^ (bits - 1) then Some v else None)
         else None)"

lemma digit_val_char [simp]: "d < 10 \<Longrightarrow> digit_val (digit_char d) = d"
  by (simp add: digit_val_def digit_char_def)

lemma is_digit_char [simp]: "d < 10 \<Longrightarrow> is_digit (digit_char d)"
  by (simp add: is_digit_def digit_char_def)

lemma nat_digits_nonempty [simp]: "nat_digits n \<noteq> []"
  by (subst nat_digits.simps) simp

lemma nat_digits_all: "list_all is_digit (nat_digits n)"
proof (induction n rule: nat_digits.induct)
  case (1 n)
  then show ?case by (subst nat_digits.simps) simp
qed

lemma digits_val_append: "digits_val (s @ [c]) = 10 * digits_val s + digit_val c"
  by (simp add: digits_val_def)

lemma digits_val_nat_digits [simp]: "digits_val (nat_digits n) = n"
proof (induction n rule: nat_digits.induct)
  case (1 n)
  show ?case
  proof (cases "n < 10")
    case True
    then show ?thesis by (subst nat_digits.simps) (simp add: digits_val_def)
  next
    case False
    with 1 show ?thesis
      by (subst nat_digits.simps) (simp add: digits_val_append)
  qed
qed

lemma length_nat_digits: "length (nat_digits n) = Suc k \<longleftrightarrow> (if k = 0 then n < 10 else 10 ^ k \<le> n \<and> n < 10 ^ Suc k)"
proof (induction n arbitrary: k rule: nat_digits.induct)
  case (1 n)
  show ?case
  proof (cases "n < 10")
    case True
    have "10 \<le> (10 :: nat) ^ k" if "k \<noteq> 0"
      using that power_increasing [of 1 k "10 :: nat"] by simp
    with True have "k \<noteq> 0 \<Longrightarrow> \<not> 10 ^ k \<le> n" by fastforce
    with True show ?thesis by (subst nat_digits.simps) simp
  next
    case False
    have split: "(10 ^ Suc j \<le> n) = (10 ^ j \<le> n div 10)" "(n < 10 ^ Suc j) = (n div 10 < 10 ^ j)"
      for j :: nat
      by (simp_all add: less_eq_div_iff_mult_less_eq div_less_iff_less_mult mult.commute)
    show ?thesis
    proof (cases k)
      case 0
      with False show ?thesis by (subst nat_digits.simps) simp
    next
      case (Suc j)
      with False 1 [of j] show ?thesis
        by (subst nat_digits.simps) (auto simp: split simp del: power_Suc)
    qed
  qed
qed

lemma parse_int_itoa:
  "- (2 ^ (bits - 1)) \<le> i \<Longrightarrow> i < 2 ^ (bits - 1) \<Longrightarrow> parse_int bits (itoa i) = Some i"
proof -
  assume b: "- (2 ^ (bits - 1)) \<le> i" "i < 2 ^ (bits - 1)"
  obtain c cs where cs: "nat_digits (nat i) = c # cs" by (cases "nat_digits (nat i)") simp_all
  then have "c \<noteq> CHR ''-''" "c \<noteq> CHR ''+''"
    using nat_digits_all [of "nat i"] by (auto simp: is_digit_def)
  with cs b show ?thesis
    using nat_digits_all [of "nat i"] nat_digits_all [of "nat (- i)"]
      digits_val_nat_digits [of "nat i"] 
    by (auto simp: parse_int_def itoa_def Let_def)
qed

section \<open>Calendar\<close>

text \<open>
  Days since 1970-01-01 to year, month and day of the proleptic Gregorian calendar, in eras of
  400 years; a time is shown in the zone of the given offset, as \<open>Format\<close> does for local times.
\<close>

definition civil_from_days :: "int \<Rightarrow> int \<times> int \<times> int" where
  "civil_from_days d =
     (let z = d + 719468; era = z div 146097; doe = z mod 146097;
          yoe = (doe - doe div 1460 + doe div 36524 - doe div 146096) div 365;
          doy = doe - (365 * yoe + yoe div 4 - yoe div 100);
          mp = (5 * doy + 2) div 153;
          day = doy - (153 * mp + 2) div 5 + 1;
          m = (if mp < 10 then mp + 3 else mp - 9)
      in (yoe + era * 400 + (if m \<le> 2 then 1 else 0), m, day))"

definition pad2 :: "int \<Rightarrow> string" where
  "pad2 n = (if n < 10 then CHR ''0'' # nat_digits (nat n) else nat_digits (nat n))"

definition pad4 :: "int \<Rightarrow> string" where
  "pad4 n = (let s = nat_digits (nat n) in replicate (4 - length s) (CHR ''0'') @ s)"

text \<open>Layout \<open>20060102\<close>.\<close>

definition format_date :: "time \<Rightarrow> time \<Rightarrow> string" where
  "format_date tz t =
     (let (y, m, d) = civil_from_days ((t + tz) div (86400 * second)) in pad4 y @ pad2 m @ pad2 d)"

text \<open>Layout \<open>2006-01-02 15:04:05\<close>.\<close>

definition format_datetime :: "time \<Rightarrow> time \<Rightarrow> string" where
  "format_datetime tz t =
     (let u = t + tz; (y, m, d) = civil_from_days (u div (86400 * second));
          s = (u mod (86400 * second)) div second
      in pad4 y @ ''-'' @ pad2 m @ ''-'' @ pad2 d @ '' '' @ pad2 (s div 3600) @ '':'' @
         pad2 ((s mod 3600) div 60) @ '':'' @ pad2 (s mod 60))"

end
