(* ===== verification/Json.thy ===== *)
theory Json
  imports Go_Strings
begin

text \<open>
  Go's \<open>encoding/json\<close> and \<open>encoding/base64\<close> as the source uses them: the syntax check and
  parse of a whole document, the printer of \<open>Marshal\<close> (with its HTML-safe escapes), and
  \<open>Unmarshal\<close> into a struct, which matches keys exactly and then without regard to ASCII case,
  lets later duplicates win, treats \<open>null\<close> as a no-op and remembers a type mismatch while it
  goes on with the other fields. Numbers keep their literal text, as the decoder does until it
  knows the field's type. Strings are byte strings in valid UTF-8 (the replacement of invalid
  bytes is not modelled).
\<close>

datatype json =
    JNull
  | JBool bool
  | JNum string
  | JStr string
  | JArr "json list"
  | JObj "(string \<times> json) list"

section \<open>Characters\<close>

abbreviation dquote :: char where "dquote \<equiv> CHR 0x22"
abbreviation bslash :: char where "bslash \<equiv> CHR 0x5C"

definition hex_val :: "char \<Rightarrow> nat option" where
  "hex_val c =
     (let n = of_char c :: nat
      in if 48 \<le> n \<and> n \<le> 57 then Some (n - 48)
         else if 97 \<le> n \<and> n \<le> 102 then Some (n - 87)
         else if 65 \<le> n \<and> n \<le> 70 then Some (n - 55) else None)"

definition hex_char :: "nat \<Rightarrow> char" where
  "hex_char d = (if d < 10 then char_of (48 + d) else char_of (87 + d))"

fun parse_hex4 :: "string \<Rightarrow> nat option" where
  "parse_hex4 (a # b # c # d # _) =
     (case (hex_val a, hex_val b, hex_val c, hex_val d) of
        (Some p, Some q, Some r, Some s) \<Rightarrow> Some (p * 4096 + q * 256 + r * 16 + s)
      | _ \<Rightarrow> None)"
| "parse_hex4 _ = None"

definition utf8_encode :: "nat \<Rightarrow> string" where
  "utf8_encode n =
     (if n < 128 then [char_of n]
      else if n < 2048 then [char_of (192 + n div 64), char_of (128 + n mod 64)]
      else if n < 65536 then
        [char_of (224 + n div 4096), char_of (128 + n div 64 mod 64), char_of (128 + n mod 64)]
      else [char_of (240 + n div 262144), char_of (128 + n div 4096 mod 64),
            char_of (128 + n div 64 mod 64), char_of (128 + n mod 64)])"

definition is_surrogate :: "nat \<Rightarrow> bool" where
  "is_surrogate n \<longleftrightarrow> 55296 \<le> n \<and> n < 57344"

text \<open>The rune after a \<open>\u\<close> escape with the value \<open>n\<close>, and whether the low half of a surrogate
  pair, in \<open>s\<close>, was used.\<close>

definition unescape_rune :: "nat \<Rightarrow> string \<Rightarrow> nat \<times> bool" where
  "unescape_rune n s =
     (if is_surrogate n then
        (case (if take 2 s = [bslash, CHR ''u''] then parse_hex4 (drop 2 s) else None) of
           Some m \<Rightarrow>
             (if n < 56320 \<and> 56320 \<le> m \<and> m < 57344
              then ((n - 55296) * 1024 + (m - 56320) + 65536, True) else (65533, False))
         | None \<Rightarrow> (65533, False))
      else (n, False))"

definition simple_escape :: "char \<Rightarrow> char option" where
  "simple_escape c =
     (if c = dquote \<or> c = bslash \<or> c = CHR ''/'' then Some c
      else if c = CHR ''b'' then Some (CHR 0x08)
      else if c = CHR ''f'' then Some (CHR 0x0C)
      else if c = CHR ''n'' then Some (CHR 0x0A)
      else if c = CHR ''r'' then Some (CHR 0x0D)
      else if c = CHR ''t'' then Some (CHR 0x09) else None)"

definition prepend :: "string \<Rightarrow> (string \<times> 'r) option \<Rightarrow> (string \<times> 'r) option" where
  "prepend p r = map_option (\<lambda>(s, x). (p @ s, x)) r"

text \<open>The rest of a string literal, after its opening quote.\<close>

function parse_str :: "string \<Rightarrow> (string \<times> string) option" where
  "parse_str [] = None"
| "parse_str (c # cs) =
     (if c = dquote then Some ([], cs)
      else if c = bslash then
        (case cs of [] \<Rightarrow> None
         | e # r \<Rightarrow>
             if e = CHR ''u'' then
               (case parse_hex4 r of None \<Rightarrow> None
                | Some n \<Rightarrow>
                    (case unescape_rune n (drop 4 r) of
                       (m, used) \<Rightarrow>
                         prepend (utf8_encode m) (parse_str (drop (if used then 10 else 4) r))))
             else (case simple_escape e of None \<Rightarrow> None
                   | Some x \<Rightarrow> prepend [x] (parse_str r)))
      else if (of_char c :: nat) < 32 then None
      else prepend [c] (parse_str cs))"
  by pat_completeness auto
termination by (relation "measure length") auto

text \<open>The printed form of a string's bytes: U+2028 and U+2029, the three bytes E2 80 A8 or
  E2 80 A9, are escaped too.\<close>

definition esc_char :: "char \<Rightarrow> string" where
  "esc_char c =
     (let n = of_char c :: nat
      in if c = dquote \<or> c = bslash then [bslash, c]
         else if n = 8 then [bslash, CHR ''b'']
         else if n = 12 then [bslash, CHR ''f'']
         else if n = 10 then [bslash, CHR ''n'']
         else if n = 13 then [bslash, CHR ''r'']
         else if n = 9 then [bslash, CHR ''t'']
         else if n < 32 \<or> n = 38 \<or> n = 60 \<or> n = 62 then
           [bslash, CHR ''u'', CHR ''0'', CHR ''0'', hex_char (n div 16), hex_char (n mod 16)]
         else [c])"

function esc_str :: "string \<Rightarrow> string" where
  "esc_str [] = []"
| "esc_str (c # cs) =
     (if c = CHR 0xE2 \<and> take 2 cs = [CHR 0x80, CHR 0xA8] then
        [bslash, CHR ''u'', CHR ''2'', CHR ''0'', CHR ''2'', CHR ''8''] @ esc_str (drop 2 cs)
      else if c = CHR 0xE2 \<and> take 2 cs = [CHR 0x80, CHR 0xA9] then
        [bslash, CHR ''u'', CHR ''2'', CHR ''0'', CHR ''2'', CHR ''9''] @ esc_str (drop 2 cs)
      else esc_char c @ esc_str cs)"
  by pat_completeness auto
termination by (relation "measure length") auto

definition print_str :: "string \<Rightarrow> string" where
  "print_str s = dquote # esc_str s @ [dquote]"

section \<open>Documents\<close>

definition is_ws :: "char \<Rightarrow> bool" where
  "is_ws c \<longleftrightarrow> c = CHR 0x20 \<or> c = CHR 0x09 \<or> c = CHR 0x0A \<or> c = CHR 0x0D"

definition skip_ws :: "string \<Rightarrow> string" where
  "skip_ws = dropWhile is_ws"

definition scan_frac :: "string \<Rightarrow> (string \<times> string) option" where
  "scan_frac s =
     (case s of c # cs \<Rightarrow>
        if c = CHR ''.'' then
          (if takeWhile is_digit cs = [] then None
           else Some (c # takeWhile is_digit cs, dropWhile is_digit cs))
        else Some ([], s)
      | [] \<Rightarrow> Some ([], []))"

definition scan_exp :: "string \<Rightarrow> (string \<times> string) option" where
  "scan_exp s =
     (case s of c # cs \<Rightarrow>
        if c = CHR ''e'' \<or> c = CHR ''E'' then
          (let (sg, ds) = (case cs of d # r \<Rightarrow>
                             if d = CHR ''+'' \<or> d = CHR ''-'' then ([d], r) else ([], cs)
                           | [] \<Rightarrow> ([], []))
           in if takeWhile is_digit ds = [] then None
              else Some (c # sg @ takeWhile is_digit ds, dropWhile is_digit ds))
        else Some ([], s)
      | [] \<Rightarrow> Some ([], []))"

definition scan_num :: "string \<Rightarrow> (string \<times> string) option" where
  "scan_num s =
     (let (sg, s1) = (case s of c # cs \<Rightarrow> if c = CHR ''-'' then ([c], cs) else ([], s)
                      | [] \<Rightarrow> ([], []));
          ip = takeWhile is_digit s1
      in if ip = [] \<or> (hd ip = CHR ''0'' \<and> 1 < length ip) then None
         else (case scan_frac (dropWhile is_digit s1) of None \<Rightarrow> None
               | Some (fr, s2) \<Rightarrow>
                   (case scan_exp s2 of None \<Rightarrow> None
                    | Some (ex, s3) \<Rightarrow> Some (sg @ ip @ fr @ ex, s3))))"

text \<open>The fuel is the length of the input plus one: every call consumes a character.\<close>

fun parse_val :: "nat \<Rightarrow> string \<Rightarrow> (json \<times> string) option"
  and parse_elems :: "nat \<Rightarrow> string \<Rightarrow> (json list \<times> string) option"
  and parse_members :: "nat \<Rightarrow> string \<Rightarrow> ((string \<times> json) list \<times> string) option" where
  "parse_val 0 s = None"
| "parse_val (Suc n) s =
     (case skip_ws s of [] \<Rightarrow> None
      | c # cs \<Rightarrow>
          if c = CHR ''{'' then
            (case skip_ws cs of [] \<Rightarrow> None
             | d # ds \<Rightarrow> if d = CHR ''}'' then Some (JObj [], ds)
                         else map_option (\<lambda>(m, r). (JObj m, r)) (parse_members n cs))
          else if c = CHR ''['' then
            (case skip_ws cs of [] \<Rightarrow> None
             | d # ds \<Rightarrow> if d = CHR '']'' then Some (JArr [], ds)
                         else map_option (\<lambda>(m, r). (JArr m, r)) (parse_elems n cs))
          else if c = dquote then map_option (\<lambda>(t, r). (JStr t, r)) (parse_str cs)
          else if c = CHR ''t'' then
            (if take 3 cs = ''rue'' then Some (JBool True, drop 3 cs) else None)
          else if c = CHR ''f'' then
            (if take 4 cs = ''alse'' then Some (JBool False, drop 4 cs) else None)
          else if c = CHR ''n'' then
            (if take 3 cs = ''ull'' then Some (JNull, drop 3 cs) else None)
          else map_option (\<lambda>(t, r). (JNum t, r)) (scan_num (c # cs)))"
| "parse_elems 0 s = None"
| "parse_elems (Suc n) s =
     (case parse_val n s of None \<Rightarrow> None
      | Some (v, r) \<Rightarrow>
          (case skip_ws r of [] \<Rightarrow> None
           | c # cs \<Rightarrow>
               if c = CHR '','' then
                 map_option (\<lambda>(vs, t). (v # vs, t)) (parse_elems n cs)
               else if c = CHR '']'' then Some ([v], cs) else None))"
| "parse_members 0 s = None"
| "parse_members (Suc n) s =
     (case skip_ws s of [] \<Rightarrow> None
      | q # r0 \<Rightarrow>
          if q \<noteq> dquote then None
          else (case parse_str r0 of None \<Rightarrow> None
                | Some (k, r1) \<Rightarrow>
                    (case skip_ws r1 of [] \<Rightarrow> None
                     | c # r2 \<Rightarrow>
                         if c \<noteq> CHR '':'' then None
                         else (case parse_val n r2 of None \<Rightarrow> None
                               | Some (v, r3) \<Rightarrow>
                                   (case skip_ws r3 of [] \<Rightarrow> None
                                    | d # r4 \<Rightarrow>
                                        if d = CHR '','' then
                                          map_option (\<lambda>(ms, t). ((k, v) # ms, t))
                                            (parse_members n r4)
                                        else if d = CHR ''}'' then Some ([(k, v)], r4)
                                        else None)))))"

definition json_parse :: "string \<Rightarrow> json option" where
  "json_parse s =
     (case parse_val (Suc (length s)) s of None \<Rightarrow> None
      | Some (j, r) \<Rightarrow> if skip_ws r = [] then Some j else None)"

fun json_print :: "json \<Rightarrow> string"
  and print_elems :: "json list \<Rightarrow> string"
  and print_members :: "(string \<times> json) list \<Rightarrow> string" where
  "json_print JNull = ''null''"
| "json_print (JBool b) = (if b then ''true'' else ''false'')"
| "json_print (JNum t) = t"
| "json_print (JStr s) = print_str s"
| "json_print (JArr xs) = CHR ''['' # print_elems xs @ '']''"
| "json_print (JObj ms) = CHR ''{'' # print_members ms @ ''}''"
| "print_elems [] = []"
| "print_elems [x] = json_print x"
| "print_elems (x # y # r) = json_print x @ '','' @ print_elems (y # r)"
| "print_members [] = []"
| "print_members [(k, v)] = print_str k @ '':'' @ json_print v"
| "print_members ((k, v) # m # r) =
     print_str k @ '':'' @ json_print v @ '','' @ print_members (m # r)"

section \<open>Unmarshal into a struct\<close>

text \<open>A field's setter gets the value and the struct and says whether the type was wrong.\<close>

type_synonym 's setter = "json \<Rightarrow> 's \<Rightarrow> 's \<times> bool"

definition find_field :: "(string \<times> 's setter) list \<Rightarrow> string \<Rightarrow> 's setter option" where
  "find_field fs k =
     (case map_of fs k of Some f \<Rightarrow> Some f
      | None \<Rightarrow> map_of (map (\<lambda>(n, f). (to_lower n, f)) fs) (to_lower k))"

fun set_members ::
  "(string \<times> 's setter) list \<Rightarrow> (string \<times> json) list \<Rightarrow> 's \<Rightarrow> bool \<Rightarrow> 's \<times> bool" where
  "set_members fs [] s e = (s, e)"
| "set_members fs ((k, v) # ms) s e =
     (case find_field fs k of None \<Rightarrow> set_members fs ms s e
      | Some f \<Rightarrow> (case f v s of (s', e') \<Rightarrow> set_members fs ms s' (e \<or> e')))"

fun unmarshal_struct :: "(string \<times> 's setter) list \<Rightarrow> json \<Rightarrow> 's \<Rightarrow> 's \<times> bool" where
  "unmarshal_struct fs (JObj ms) s = set_members fs ms s False"
| "unmarshal_struct fs JNull s = (s, False)"
| "unmarshal_struct fs _ s = (s, True)"

text \<open>\<open>json.Unmarshal\<close>: the struct after the call and whether an error is returned.\<close>

definition json_unmarshal :: "(string \<times> 's setter) list \<Rightarrow> string \<Rightarrow> 's \<Rightarrow> 's \<times> bool" where
  "json_unmarshal fs input s =
     (case json_parse input of None \<Rightarrow> (s, True) | Some j \<Rightarrow> unmarshal_struct fs j s)"

fun set_string :: "(string \<Rightarrow> 's \<Rightarrow> 's) \<Rightarrow> 's setter" where
  "set_string upd (JStr t) s = (upd t s, False)"
| "set_string upd JNull s = (s, False)"
| "set_string upd _ s = (s, True)"

text \<open>A signed integer field of the given width.\<close>

fun set_int :: "nat \<Rightarrow> (int \<Rightarrow> 's \<Rightarrow> 's) \<Rightarrow> 's setter" where
  "set_int bits upd (JNum t) s =
     (case parse_int bits t of None \<Rightarrow> (s, True) | Some i \<Rightarrow> (upd i s, False))"
| "set_int bits upd JNull s = (s, False)"
| "set_int bits upd _ s = (s, True)"

fun set_u64 :: "(u64 \<Rightarrow> 's \<Rightarrow> 's) \<Rightarrow> 's setter" where
  "set_u64 upd (JNum t) s =
     (if list_all is_digit t \<and> digits_val t < 2 ^ 64
      then (upd (of_nat (digits_val t)) s, False) else (s, True))"
| "set_u64 upd JNull s = (s, False)"
| "set_u64 upd _ s = (s, True)"

section \<open>Base64\<close>

definition b64_char :: "nat \<Rightarrow> char" where
  "b64_char v =
     (if v < 26 then char_of (65 + v) else if v < 52 then char_of (71 + v)
      else if v < 62 then char_of (v - 4) else if v = 62 then CHR ''+'' else CHR ''/'')"

definition b64_val :: "char \<Rightarrow> nat option" where
  "b64_val c =
     (let n = of_char c :: nat
      in if 65 \<le> n \<and> n \<le> 90 then Some (n - 65)
         else if 97 \<le> n \<and> n \<le> 122 then Some (n - 71)
         else if 48 \<le> n \<and> n \<le> 57 then Some (n + 4)
         else if n = 43 then Some 62 else if n = 47 then Some 63 else None)"

fun b64_encode :: "string \<Rightarrow> string" where
  "b64_encode [] = []"
| "b64_encode [a] =
     (let x = of_char a :: nat
      in [b64_char (x div 4), b64_char (x mod 4 * 16), CHR ''='', CHR ''=''])"
| "b64_encode [a, b] =
     (let x = of_char a :: nat; y = of_char b :: nat
      in [b64_char (x div 4), b64_char (x mod 4 * 16 + y div 16), b64_char (y mod 16 * 4), CHR ''=''])"
| "b64_encode (a # b # c # r) =
     (let x = of_char a :: nat; y = of_char b :: nat; z = of_char c :: nat
      in b64_char (x div 4) # b64_char (x mod 4 * 16 + y div 16) #
         b64_char (y mod 16 * 4 + z div 64) # b64_char (z mod 64) # b64_encode r)"

fun b64_groups :: "string \<Rightarrow> string option" where
  "b64_groups [] = Some []"
| "b64_groups (a # b # c # d # r) =
     (case (b64_val a, b64_val b) of
        (Some p, Some q) \<Rightarrow>
          (if d = CHR ''='' then
             (if r \<noteq> [] then None
              else if c = CHR ''='' then Some [char_of (p * 4 + q div 16)]
              else (case b64_val c of None \<Rightarrow> None
                    | Some s \<Rightarrow> Some [char_of (p * 4 + q div 16), char_of (q mod 16 * 16 + s div 4)]))
           else (case (b64_val c, b64_val d) of
                   (Some s, Some t) \<Rightarrow>
                     map_option (\<lambda>u. char_of (p * 4 + q div 16) # char_of (q mod 16 * 16 + s div 4) #
                                     char_of (s mod 4 * 64 + t) # u) (b64_groups r)
                 | _ \<Rightarrow> None))
      | _ \<Rightarrow> None)"
| "b64_groups _ = None"

text \<open>The decoder skips line breaks.\<close>

definition b64_decode :: "string \<Rightarrow> string option" where
  "b64_decode s = b64_groups (filter (\<lambda>c. c \<noteq> CHR 0x0A \<and> c \<noteq> CHR 0x0D) s)"

fun set_bytes :: "(string \<Rightarrow> 's \<Rightarrow> 's) \<Rightarrow> 's setter" where
  "set_bytes upd (JStr t) s =
     (case b64_decode t of None \<Rightarrow> (s, True) | Some b \<Rightarrow> (upd b s, False))"
| "set_bytes upd JNull s = (upd [] s, False)"
| "set_bytes upd _ s = (s, True)"

section \<open>Round trips\<close>

lemma b64_val_char: "v < 64 \<Longrightarrow> b64_val (b64_char v) = Some v"
  by (auto simp: b64_val_def b64_char_def Let_def)

lemma b64_char_neq: "v < 64 \<Longrightarrow> b64_char v \<noteq> CHR ''='' \<and> b64_char v \<noteq> CHR 0x0A \<and> b64_char v \<noteq> CHR 0x0D"
proof -
  assume "v < 64"
  then have v: "b64_val (b64_char v) = Some v" by (rule b64_val_char)
  have "b64_val (CHR ''='') = None" "b64_val (CHR 0x0A) = None" "b64_val (CHR 0x0D) = None"
    by (simp_all add: b64_val_def)
  with v show ?thesis by (intro conjI notI) simp_all
qed

lemma of_char_256: "(of_char c :: nat) < 256"
  by simp

lemma b64_bounds [simp]:
  "(of_char c :: nat) div 4 < 64" "(of_char c :: nat) div 16 < 16" "(of_char c :: nat) div 64 < 4"
  "(of_char c :: nat) mod 4 * 16 + of_char d div 16 < 64"
  "(of_char c :: nat) mod 16 * 4 + of_char d div 64 < 64"
  "(of_char c :: nat) mod 4 * 16 < 64" "(of_char c :: nat) mod 16 * 4 < 64"
  using of_char_256 [of c] of_char_256 [of d] by linarith+

lemma b64_groups_encode: "b64_groups (b64_encode s) = Some s"
  by (induction s rule: b64_encode.induct)
     (simp_all add: b64_val_char b64_char_neq Let_def)

lemma b64_encode_chars:
  "c \<in> set (b64_encode s) \<Longrightarrow> c \<noteq> CHR 0x0A \<and> c \<noteq> CHR 0x0D"
  by (induction s rule: b64_encode.induct) (auto simp: Let_def b64_char_neq)

lemma b64_roundtrip: "b64_decode (b64_encode s) = Some s"
proof -
  have "filter (\<lambda>c. c \<noteq> CHR 0x0A \<and> c \<noteq> CHR 0x0D) (b64_encode s) = b64_encode s"
    using b64_encode_chars by (auto simp: filter_id_conv)
  then show ?thesis by (simp add: b64_decode_def b64_groups_encode)
qed

lemma hex_val_char [simp]: "d < 16 \<Longrightarrow> hex_val (hex_char d) = Some d"
  by (auto simp: hex_val_def hex_char_def Let_def)

lemma prepend_Some [simp]: "prepend p (Some (s, r)) = Some (p @ s, r)"
  by (simp add: prepend_def)

lemma char_of_nat_eq: "of_char c = (n :: nat) \<Longrightarrow> c = char_of n"
  by auto

lemma char_of_lits:
  "char_of (8 :: nat) = CHR 0x08" "char_of (9 :: nat) = CHR 0x09" "char_of (10 :: nat) = CHR 0x0A"
  "char_of (12 :: nat) = CHR 0x0C" "char_of (13 :: nat) = CHR 0x0D"
  "char_of (56 :: nat) = CHR ''8''" "char_of (57 :: nat) = CHR ''9''"
  "char_of (226 :: nat) = CHR 0xE2" "char_of (128 :: nat) = CHR 0x80"
  "char_of (168 :: nat) = CHR 0xA8" "char_of (169 :: nat) = CHR 0xA9"
  by code_simp+

declare parse_str.simps(2) [simp del] esc_str.simps(2) [simp del]

lemma esc_char_u00:
  assumes "(of_char c :: nat) < 128"
  shows "parse_str ([bslash, CHR ''u'', CHR ''0'', CHR ''0'', hex_char (of_char c div 16),
            hex_char (of_char c mod 16)] @ r) = prepend [c] (parse_str r)"
proof -
  have z: "hex_val (CHR ''0'') = Some 0" by (simp add: hex_val_def)
  from assms have lt: "(of_char c :: nat) div 16 < 16" by simp
  have "\<not> is_surrogate (of_char c)" using assms by (simp add: is_surrogate_def)
  with assms lt z show ?thesis
    by (simp add: parse_str.simps(2) [of bslash] unescape_rune_def utf8_encode_def)
qed

lemma parse_esc_char: "parse_str (esc_char c @ r) = prepend [c] (parse_str r)"
proof -
  let ?n = "of_char c :: nat"
  consider "c = dquote \<or> c = bslash" | "?n = 8" | "?n = 12" | "?n = 10" | "?n = 13" | "?n = 9"
    | "c \<noteq> dquote" "c \<noteq> bslash" "?n \<notin> {8, 12, 10, 13, 9}" "?n < 32 \<or> ?n = 38 \<or> ?n = 60 \<or> ?n = 62"
    | "c \<noteq> dquote" "c \<noteq> bslash" "\<not> ?n < 32" "?n \<noteq> 38" "?n \<noteq> 60" "?n \<noteq> 62"
    by blast
  then show ?thesis
  proof cases
    case 7
    then have "esc_char c = [bslash, CHR ''u'', CHR ''0'', CHR ''0'', hex_char (?n div 16), hex_char (?n mod 16)]"
      by (auto simp: esc_char_def Let_def)
    moreover have "?n < 128" using 7 by auto
    ultimately show ?thesis using esc_char_u00 by simp
  next
    case 8
    then have "esc_char c = [c]" by (auto simp: esc_char_def Let_def)
    with 8 show ?thesis by (simp add: parse_str.simps(2) [of c])
  qed (auto dest!: char_of_nat_eq simp: esc_char_def Let_def parse_str.simps(2) [of bslash]
      simple_escape_def char_of_lits)
qed

lemma parse_esc_sep:
  "d \<in> {8, 9} \<Longrightarrow>
   parse_str ([bslash, CHR ''u'', CHR ''2'', CHR ''0'', CHR ''2'', hex_char d] @ r) =
   prepend [CHR 0xE2, CHR 0x80, char_of (160 + d)] (parse_str r)"
  by (auto simp: parse_str.simps(2) [of bslash] hex_val_def hex_char_def unescape_rune_def is_surrogate_def
      utf8_encode_def char_of_lits)

lemma parse_esc_str: "parse_str (esc_str s @ dquote # r) = Some (s, r)"
proof (induction s rule: esc_str.induct)
  case 1
  then show ?case by (simp add: parse_str.simps(2))
next
  case (2 c cs)
  show ?case
  proof (cases "c = CHR 0xE2 \<and> (take 2 cs = [CHR 0x80, CHR 0xA8] \<or> take 2 cs = [CHR 0x80, CHR 0xA9])")
    case True
    then obtain ds where ds: "cs = [CHR 0x80, CHR 0xA8] @ ds \<or> cs = [CHR 0x80, CHR 0xA9] @ ds"
      by (metis append_take_drop_id)
    then show ?thesis
    proof
      assume cs: "cs = [CHR 0x80, CHR 0xA8] @ ds"
      with True 2(1) have "parse_str (esc_str ds @ dquote # r) = Some (ds, r)" by simp
      with cs True parse_esc_sep [of 8 "esc_str ds @ dquote # r"] show ?thesis
        by (simp add: esc_str.simps(2) [of "CHR 0xE2"] hex_char_def char_of_lits)
    next
      assume cs: "cs = [CHR 0x80, CHR 0xA9] @ ds"
      with True 2(2) have "parse_str (esc_str ds @ dquote # r) = Some (ds, r)" by simp
      with cs True parse_esc_sep [of 9 "esc_str ds @ dquote # r"] show ?thesis
        by (simp add: esc_str.simps(2) [of "CHR 0xE2"] hex_char_def char_of_lits)
    qed
  next
    case False
    then have "esc_str (c # cs) = esc_char c @ esc_str cs"
      by (auto simp: esc_str.simps(2) [of c])
    with False 2 show ?thesis by (simp add: parse_esc_char)
  qed
qed

subsection \<open>Numbers\<close>

definition num_rest :: "string \<Rightarrow> bool" where
  "num_rest r \<longleftrightarrow> (case r of [] \<Rightarrow> True | c # _ \<Rightarrow> \<not> is_digit c \<and> c \<notin> {CHR ''.'', CHR ''e'', CHR ''E''})"

lemma digit_char_eq: "is_digit c \<Longrightarrow> c = CHR ''-'' \<Longrightarrow> False"
  by (simp add: is_digit_def)

lemma hd_nat_digits: "10 \<le> n \<Longrightarrow> hd (nat_digits n) \<noteq> CHR ''0''"
proof (induction n rule: nat_digits.induct)
  case (1 n)
  show ?case
  proof (cases "n div 10 < 10")
    case True
    have "hd (nat_digits (n div 10)) = digit_char (n div 10)"
      using True by (subst nat_digits.simps) simp
    moreover have "digit_char (n div 10) \<noteq> CHR ''0''"
    proof
      assume "digit_char (n div 10) = CHR ''0''"
      moreover have "digit_val (CHR ''0'') = 0" by (simp add: digit_val_def)
      ultimately have "n div 10 = 0" using digit_val_char [OF True] by simp
      with 1(2) show False by simp
    qed
    ultimately show ?thesis using 1(2) by (subst nat_digits.simps) simp
  next
    case False
    with 1 show ?thesis by (subst nat_digits.simps) simp
  qed
qed

lemma takeWhile_digits:
  "num_rest r \<Longrightarrow> takeWhile is_digit (nat_digits n @ r) = nat_digits n \<and> dropWhile is_digit (nat_digits n @ r) = r"
proof -
  assume "num_rest r"
  then have "takeWhile is_digit r = []" "dropWhile is_digit r = r"
    by (auto simp: num_rest_def split: list.splits)
  moreover have "\<And>c. c \<in> set (nat_digits n) \<Longrightarrow> is_digit c"
    using nat_digits_all [of n] by (auto simp: list_all_iff)
  ultimately show ?thesis by (simp add: takeWhile_append2 dropWhile_append2)
qed

lemma nat_digits_leading: "hd (nat_digits n) = CHR ''0'' \<Longrightarrow> \<not> 1 < length (nat_digits n)"
  using hd_nat_digits [of n] by (cases "n < 10") (auto simp: nat_digits.simps [of n])

lemma scan_rest: "num_rest r \<Longrightarrow> scan_frac r = Some ([], r) \<and> scan_exp r = Some ([], r)"
  by (auto simp: num_rest_def scan_frac_def scan_exp_def split: list.splits)

lemma scan_num_itoa: "num_rest r \<Longrightarrow> scan_num (itoa i @ r) = Some (itoa i, r)"
proof -
  assume r: "num_rest r"
  obtain c cs where cs: "nat_digits (nat i) = c # cs" by (cases "nat_digits (nat i)") simp_all
  then have "c \<noteq> CHR ''-''" using nat_digits_all [of "nat i"] digit_char_eq by auto
  then show ?thesis
    using takeWhile_digits [OF r, of "nat i"] takeWhile_digits [OF r, of "nat (- i)"] scan_rest [OF r]
      nat_digits_leading [of "nat i"] nat_digits_leading [of "nat (- i)"] cs
    by (auto simp: scan_num_def itoa_def Let_def)
qed

subsection \<open>Documents\<close>

text \<open>The numbers of a printed document are decimal integers.\<close>

fun json_ok :: "json \<Rightarrow> bool"
  and elems_ok :: "json list \<Rightarrow> bool"
  and members_ok :: "(string \<times> json) list \<Rightarrow> bool" where
  "json_ok (JNum t) \<longleftrightarrow> (case parse_int 66 t of None \<Rightarrow> False | Some i \<Rightarrow> t = itoa i)"
| "json_ok (JArr xs) \<longleftrightarrow> elems_ok xs"
| "json_ok (JObj ms) \<longleftrightarrow> members_ok ms"
| "json_ok _ \<longleftrightarrow> True"
| "elems_ok [] \<longleftrightarrow> True"
| "elems_ok (x # xs) \<longleftrightarrow> json_ok x \<and> elems_ok xs"
| "members_ok [] \<longleftrightarrow> True"
| "members_ok ((k, v) # ms) \<longleftrightarrow> json_ok v \<and> members_ok ms"

lemma itoa_head: "\<exists>c cs. itoa i = c # cs \<and> (is_digit c \<or> c = CHR ''-'')"
proof (cases "i < 0")
  case False
  obtain c cs where "nat_digits (nat i) = c # cs" by (cases "nat_digits (nat i)") simp_all
  with False show ?thesis using nat_digits_all [of "nat i"] by (auto simp: itoa_def)
qed (simp add: itoa_def)

lemma print_head:
  assumes "json_ok j"
  shows "\<exists>c cs. json_print j = c # cs \<and> \<not> is_ws c \<and> c \<noteq> CHR '']'' \<and> c \<noteq> CHR ''}''"
proof (cases j)
  case (JNum t)
  with assms obtain i where t: "t = itoa i" by (auto split: option.splits)
  obtain c cs where "itoa i = c # cs" "is_digit c \<or> c = CHR ''-''" using itoa_head by blast
  with JNum t show ?thesis by (auto simp: is_ws_def is_digit_def)
qed (auto simp: is_ws_def print_str_def)

lemma skip_ws_id [simp]: "\<not> is_ws c \<Longrightarrow> skip_ws (c # cs) = c # cs"
  by (simp add: skip_ws_def)

lemma parse_print:
  "json_ok j \<Longrightarrow> num_rest r \<Longrightarrow> length (json_print j) \<le> n \<Longrightarrow>
     parse_val n (json_print j @ r) = Some (j, r)"
  "xs \<noteq> [] \<Longrightarrow> elems_ok xs \<Longrightarrow> length (print_elems xs) < n \<Longrightarrow>
     parse_elems n (print_elems xs @ CHR '']'' # r) = Some (xs, r)"
  "ms \<noteq> [] \<Longrightarrow> members_ok ms \<Longrightarrow> length (print_members ms) < n \<Longrightarrow>
     parse_members n (print_members ms @ CHR ''}'' # r) = Some (ms, r)"
proof (induction j and xs and ms arbitrary: n r and n r and n r
       rule: json_print_print_elems_print_members.induct)
  case 1
  then show ?case by (cases n) (simp_all add: is_ws_def)
next
  case (2 b)
  then show ?case by (cases n; cases b) (simp_all add: is_ws_def)
next
  case (3 t)
  then obtain i where t: "t = itoa i" by (auto split: option.splits)
  obtain c cs where c: "itoa i = c # cs" "is_digit c \<or> c = CHR ''-''" using itoa_head by blast
  then have "c \<notin> set ''{[tfn'' \<and> c \<noteq> dquote \<and> \<not> is_ws c" by (auto simp: is_digit_def is_ws_def)
  moreover obtain m where "n = Suc m" using 3 t c by (cases n) auto
  ultimately show ?case using scan_num_itoa [OF 3(2), of i] t c by simp
next
  case (4 s)
  then obtain m where "n = Suc m" by (cases n) (auto simp: print_str_def)
  then show ?case by (simp add: print_str_def is_ws_def parse_esc_str)
next
  case (5 xs)
  then obtain m where n: "n = Suc m" by (cases n) auto
  show ?case
  proof (cases xs)
    case Nil
    then show ?thesis by (simp add: n is_ws_def)
  next
    case (Cons x r')
    obtain c cs where "print_elems xs = c # cs" "\<not> is_ws c" "c \<noteq> CHR '']''"
      using print_head [of x] 5(2) Cons by (cases r') auto
    with 5(1) [of m r] 5(2,4) Cons n show ?thesis by (simp add: is_ws_def)
  qed
next
  case (6 ms)
  then obtain m where n: "n = Suc m" by (cases n) auto
  show ?case
  proof (cases ms)
    case Nil
    then show ?thesis by (simp add: n is_ws_def)
  next
    case (Cons x r')
    obtain c cs where "print_members ms = c # cs" "\<not> is_ws c" "c \<noteq> CHR ''}''"
      using Cons by (cases x; cases r') (auto simp: print_str_def is_ws_def)
    with 6(1) [of m r] 6(2,4) Cons n show ?thesis by (simp add: is_ws_def)
  qed
next
  case 7
  then show ?case by simp
next
  case (8 x)
  then obtain m where n: "n = Suc m" by (cases n) auto
  have "num_rest (CHR '']'' # r)" by (simp add: num_rest_def is_digit_def)
  with 8(1) [of "CHR '']'' # r" m] 8(3,4) n show ?case by (simp add: is_ws_def)
next
  case (9 x y xs)
  then obtain m where n: "n = Suc m" by (cases n) auto
  have "num_rest (CHR '','' # print_elems (y # xs) @ CHR '']'' # r)" by (simp add: num_rest_def is_digit_def)
  with 9(1) [of "CHR '','' # print_elems (y # xs) @ CHR '']'' # r" m] 9(2) [of m r] 9(4,5) n
  show ?case by (simp add: is_ws_def)
next
  case 10
  then show ?case by simp
next
  case (11 k v)
  then obtain m where n: "n = Suc m" by (cases n) auto
  have "num_rest (CHR ''}'' # r)" by (simp add: num_rest_def is_digit_def)
  with 11(1) [of "CHR ''}'' # r" m] 11(3,4) n show ?case
    by (simp add: is_ws_def print_str_def parse_esc_str)
next
  case (12 k v p ps)
  then obtain m where n: "n = Suc m" by (cases n) auto
  have "num_rest (CHR '','' # print_members (p # ps) @ CHR ''}'' # r)" by (simp add: num_rest_def is_digit_def)
  with 12(1) [of "CHR '','' # print_members (p # ps) @ CHR ''}'' # r" m] 12(2) [of m r] 12(4,5) n
  show ?case by (simp add: is_ws_def print_str_def parse_esc_str)
qed

text \<open>What \<open>Marshal\<close> prints, the parser reads back.\<close>

lemma json_roundtrip: "json_ok j \<Longrightarrow> json_parse (json_print j) = Some j"
  using parse_print(1) [of j "[]" "Suc (length (json_print j))"]
  by (simp add: json_parse_def num_rest_def skip_ws_def)

lemma unmarshal_print:
  "json_ok j \<Longrightarrow> json_unmarshal fs (json_print j) s = unmarshal_struct fs j s"
  by (simp add: json_unmarshal_def json_roundtrip)

end
