(* ===== verification/Wire.thy ===== *)
theory Wire
  imports Json
begin

text \<open>
  The JSON messages of the chat path: the \<open>MessageEnvelope\<close> of \<open>chat/hybrid_router.go\<close>, the
  client's \<open>ChatMessageRequest\<close> and \<open>AVData\<close> (\<open>dto/request\<close>), and the answers
  \<open>GetMessageListRespond\<close>, \<open>GetGroupMessageListRespond\<close> and \<open>AVMessageRespond\<close>
  (\<open>dto/respond\<close>), each a record with its fields in the source's order. The field tables give
  the decoder the names of the struct tags; the encoders write the fields in order, as
  \<open>json.Marshal\<close> does. The lemmas show that an envelope and an answer survive the trip.
\<close>

section \<open>Envelope\<close>

record MessageEnvelope =
  SeqNum :: u64
  MsgID :: string
  Payload :: bytes

definition zero_envelope :: MessageEnvelope where
  "zero_envelope = \<lparr>SeqNum = 0, MsgID = [], Payload = []\<rparr>"

definition envelope_fields :: "(string \<times> MessageEnvelope setter) list" where
  "envelope_fields =
     [(''seq_num'', set_u64 (\<lambda>v e. e\<lparr>SeqNum := v\<rparr>)),
      (''msg_id'', set_string (\<lambda>v e. e\<lparr>MsgID := v\<rparr>)),
      (''payload'', set_bytes (\<lambda>v e. e\<lparr>Payload := v\<rparr>))]"

definition decode_envelope :: "bytes \<Rightarrow> MessageEnvelope \<times> bool" where
  "decode_envelope data = json_unmarshal envelope_fields data zero_envelope"

definition envelope_json :: "MessageEnvelope \<Rightarrow> json" where
  "envelope_json e =
     JObj [(''seq_num'', JNum (itoa (uint (SeqNum e)))),
           (''msg_id'', JStr (MsgID e)),
           (''payload'', JStr (b64_encode (Payload e)))]"

definition encode_envelope :: "MessageEnvelope \<Rightarrow> bytes" where
  "encode_envelope e = json_print (envelope_json e)"

text \<open>The anonymous structs that pick single fields out of a message.\<close>

definition decode_session_id :: "bytes \<Rightarrow> string \<times> bool" where
  "decode_session_id data = json_unmarshal [(''session_id'', set_string (\<lambda>v _. v))] data []"

definition decode_send_meta :: "bytes \<Rightarrow> (string \<times> string) \<times> bool" where
  "decode_send_meta data =
     json_unmarshal [(''send_id'', set_string (\<lambda>v (_, c). (v, c))),
                     (''client_msg_id'', set_string (\<lambda>v (s, _). (s, v)))] data ([], [])"

lemma json_ok_int: "- (2 ^ 65) \<le> i \<Longrightarrow> i < 2 ^ 65 \<Longrightarrow> json_ok (JNum (itoa i))"
  by (simp add: parse_int_itoa)

lemma digits_u64: "list_all is_digit (itoa (uint w)) \<and> digits_val (itoa (uint w)) = unat (w :: u64)"
  by (simp add: itoa_def nat_digits_all nat_uint_eq)

lemma uint_64 [simp]: "uint (w :: u64) < 18446744073709551616"
  using uint_bounded [of w] by simp

lemma unat_64 [simp]: "unat (w :: u64) < 18446744073709551616"
  using unsigned_less [of w, where ?'a = nat] by simp

lemma envelope_roundtrip: "decode_envelope (encode_envelope e) = (e, False)"
proof -
  have lt: "uint (SeqNum e) < 2 ^ 65" by (rule order_less_trans [OF uint_64]) simp
  have "json_ok (JNum (itoa (uint (SeqNum e))))"
    by (rule json_ok_int) (use lt in \<open>simp_all add: order_trans [OF _ uint_ge_0]\<close>)
  then have ok: "json_ok (envelope_json e)" by (simp add: envelope_json_def)
  show ?thesis
    unfolding decode_envelope_def encode_envelope_def unmarshal_print [OF ok]
    by (simp add: envelope_json_def envelope_fields_def find_field_def digits_u64 b64_roundtrip
        zero_envelope_def)
qed

section \<open>Chat requests\<close>

record ChatMessageRequest =
  SessionId :: string
  Type :: int
  Content :: string
  Url :: string
  SendId :: string
  SendName :: string
  SendAvatar :: string
  ReceiveId :: string
  FileSize :: string
  FileSizeBytes :: int
  FileType :: string
  FileName :: string
  AVdata :: string
  ClientMsgId :: string

definition zero_request :: ChatMessageRequest where
  "zero_request =
     \<lparr>SessionId = [], Type = 0, Content = [], Url = [], SendId = [], SendName = [],
      SendAvatar = [], ReceiveId = [], FileSize = [], FileSizeBytes = 0, FileType = [],
      FileName = [], AVdata = [], ClientMsgId = []\<rparr>"

definition request_fields :: "(string \<times> ChatMessageRequest setter) list" where
  "request_fields =
     [(''session_id'', set_string (\<lambda>v r. r\<lparr>SessionId := v\<rparr>)),
      (''type'', set_int 8 (\<lambda>v r. r\<lparr>Type := v\<rparr>)),
      (''content'', set_string (\<lambda>v r. r\<lparr>Content := v\<rparr>)),
      (''url'', set_string (\<lambda>v r. r\<lparr>Url := v\<rparr>)),
      (''send_id'', set_string (\<lambda>v r. r\<lparr>SendId := v\<rparr>)),
      (''send_name'', set_string (\<lambda>v r. r\<lparr>SendName := v\<rparr>)),
      (''send_avatar'', set_string (\<lambda>v r. r\<lparr>SendAvatar := v\<rparr>)),
      (''receive_id'', set_string (\<lambda>v r. r\<lparr>ReceiveId := v\<rparr>)),
      (''file_size'', set_string (\<lambda>v r. r\<lparr>FileSize := v\<rparr>)),
      (''file_size_bytes'', set_int 64 (\<lambda>v r. r\<lparr>FileSizeBytes := v\<rparr>)),
      (''file_type'', set_string (\<lambda>v r. r\<lparr>FileType := v\<rparr>)),
      (''file_name'', set_string (\<lambda>v r. r\<lparr>FileName := v\<rparr>)),
      (''av_data'', set_string (\<lambda>v r. r\<lparr>AVdata := v\<rparr>)),
      (''client_msg_id'', set_string (\<lambda>v r. r\<lparr>ClientMsgId := v\<rparr>))]"

definition decode_request :: "bytes \<Rightarrow> ChatMessageRequest \<times> bool" where
  "decode_request data = json_unmarshal request_fields data zero_request"

record AVData =
  MessageId :: string
  AVType :: string

definition decode_av_data :: "bytes \<Rightarrow> AVData \<times> bool" where
  "decode_av_data data =
     json_unmarshal [(''messageId'', set_string (\<lambda>v a. a\<lparr>MessageId := v\<rparr>)),
                     (''type'', set_string (\<lambda>v a. a\<lparr>AVType := v\<rparr>))] data
       \<lparr>MessageId = [], AVType = []\<rparr>"

section \<open>Answers\<close>

text \<open>The three answers share their fields; the last ones differ.\<close>

record MessageRespond =
  rsp_Id :: int
  rsp_SendId :: string
  rsp_SendName :: string
  rsp_SendAvatar :: string
  rsp_ReceiveId :: string
  rsp_Type :: int
  rsp_Content :: string
  rsp_Url :: string
  rsp_FileType :: string
  rsp_FileName :: string
  rsp_FileSize :: string
  rsp_FileSizeBytes :: int
  rsp_CreatedAt :: string

record GetMessageListRespond = MessageRespond +
  rsp_ReadStatus :: int

record AVMessageRespond = MessageRespond +
  rsp_AVdata :: string

definition respond_members :: "'a MessageRespond_scheme \<Rightarrow> (string \<times> json) list" where
  "respond_members m =
     [(''id'', JNum (itoa (rsp_Id m))), (''send_id'', JStr (rsp_SendId m)),
      (''send_name'', JStr (rsp_SendName m)), (''send_avatar'', JStr (rsp_SendAvatar m)),
      (''receive_id'', JStr (rsp_ReceiveId m)), (''type'', JNum (itoa (rsp_Type m))),
      (''content'', JStr (rsp_Content m)), (''url'', JStr (rsp_Url m)),
      (''file_type'', JStr (rsp_FileType m)), (''file_name'', JStr (rsp_FileName m)),
      (''file_size'', JStr (rsp_FileSize m)),
      (''file_size_bytes'', JNum (itoa (rsp_FileSizeBytes m)))]"

definition group_respond_json :: "MessageRespond \<Rightarrow> json" where
  "group_respond_json m = JObj (respond_members m @ [(''created_at'', JStr (rsp_CreatedAt m))])"

definition user_respond_json :: "GetMessageListRespond \<Rightarrow> json" where
  "user_respond_json m =
     JObj (respond_members m @
           [(''read_status'', JNum (itoa (rsp_ReadStatus m))),
            (''created_at'', JStr (rsp_CreatedAt m))])"

definition av_respond_json :: "AVMessageRespond \<Rightarrow> json" where
  "av_respond_json m =
     JObj (respond_members m @
           [(''created_at'', JStr (rsp_CreatedAt m)), (''av_data'', JStr (rsp_AVdata m))])"

end
