(* ===== verification/Metrics.thy ===== *)
theory Metrics
  imports Prelude
begin

text \<open>
  The counters of \<open>chat/metrics.go\<close>: one \<open>MessageMetrics\<close> per process, each field an atomic
  unsigned 64-bit counter that the message path increments. The operations of the other
  theories take the record and return it updated.
\<close>

record MessageMetrics =
  deliveryQueueTimeouts :: u64
  deliveryClientClosed :: u64
  deliveryStatusQueueDrops :: u64
  sessionQueueTimeouts :: u64
  processFailures :: u64
  kafkaCommitFailures :: u64
  kafkaDLQTotal :: u64
  cacheQueueDrops :: u64
  channelRouted :: u64
  kafkaRouted :: u64
  batchFlushErrors :: u64
  fanoutQueueDrops :: u64
  crossNodePublish :: u64
  crossNodePublishFailures :: u64
  crossNodeReceived :: u64
  crossNodeDedupDropped :: u64
  crossNodeLookupFailures :: u64
  sessionForwarded :: u64
  sessionForwardFailures :: u64
  sessionForwardReceived :: u64

text \<open>The zero value of \<open>var ChatMetrics\<close>.\<close>

definition zero_metrics :: MessageMetrics where
  "zero_metrics =
     \<lparr>deliveryQueueTimeouts = 0, deliveryClientClosed = 0, deliveryStatusQueueDrops = 0,
      sessionQueueTimeouts = 0, processFailures = 0, kafkaCommitFailures = 0, kafkaDLQTotal = 0,
      cacheQueueDrops = 0, channelRouted = 0, kafkaRouted = 0, batchFlushErrors = 0,
      fanoutQueueDrops = 0, crossNodePublish = 0, crossNodePublishFailures = 0,
      crossNodeReceived = 0, crossNodeDedupDropped = 0, crossNodeLookupFailures = 0,
      sessionForwarded = 0, sessionForwardFailures = 0, sessionForwardReceived = 0\<rparr>"

text \<open>\<open>Snapshot\<close>: the counters in the order of \<open>MessageMetricsSnapshot\<close>.\<close>

definition metrics_snapshot :: "MessageMetrics \<Rightarrow> (string \<times> u64) list" where
  "metrics_snapshot m =
     [(''DeliveryQueueTimeouts'', deliveryQueueTimeouts m),
      (''DeliveryClientClosed'', deliveryClientClosed m),
      (''DeliveryStatusQueueDrops'', deliveryStatusQueueDrops m),
      (''SessionQueueTimeouts'', sessionQueueTimeouts m),
      (''ProcessFailures'', processFailures m),
      (''KafkaCommitFailures'', kafkaCommitFailures m),
      (''KafkaDLQTotal'', kafkaDLQTotal m),
      (''CacheQueueDrops'', cacheQueueDrops m),
      (''ChannelRouted'', channelRouted m),
      (''KafkaRouted'', kafkaRouted m),
      (''BatchFlushErrors'', batchFlushErrors m),
      (''FanoutQueueDrops'', fanoutQueueDrops m),
      (''CrossNodePublish'', crossNodePublish m),
      (''CrossNodePublishFailures'', crossNodePublishFailures m),
      (''CrossNodeReceived'', crossNodeReceived m),
      (''CrossNodeDedupDropped'', crossNodeDedupDropped m),
      (''CrossNodeLookupFailures'', crossNodeLookupFailures m),
      (''SessionForwarded'', sessionForwarded m),
      (''SessionForwardFailures'', sessionForwardFailures m),
      (''SessionForwardReceived'', sessionForwardReceived m)]"

end
