(* ===== verification/Session_Router.thy ===== *)
theory Session_Router
  imports Wire Metrics
begin

text \<open>
  \<open>chat/session_router.go\<close>: one \<open>SessionQueue\<close> per session, with a buffered channel, the next
  sequence number it expects and a buffer of the messages that came too early, and the
  \<open>SessionRouter\<close> that creates, feeds, cleans up and closes the queues.

  The router's state holds the queues as a list whose indices are the pointers (so that a
  producer can still hold a queue that the cleanup has removed from the map \<open>sessions\<close>), the
  metrics, the processor's own state \<open>'w\<close>, and the trace of the calls to the processor and of
  the values sent on the \<open>done\<close> channels. A \<open>done\<close> channel is a number; \<open>None\<close> is the nil channel.
  The runtime's choice among the ready branches of a \<open>select\<close> is an argument.
\<close>

section \<open>Processors\<close>

datatype context_t = Background | Deadline time

datatype proc_call =
    CallEnvelope context_t string bytes bool
  | CallAndWait context_t bytes
  | CallMessage bytes

datatype outcome = POk | PErr string | PPanic string

text \<open>Which of the three interfaces the processor implements, and what a call does.\<close>

datatype proc_kind = EnvelopeProc | DurableProc | PlainProc

record 'w processor =
  proc_kind :: proc_kind
  proc_run :: "proc_call \<Rightarrow> 'w \<Rightarrow> 'w \<times> outcome"

section \<open>Queues and the router\<close>

record queuedEnvelope =
  qe_envelope :: MessageEnvelope
  qe_done :: "nat option"
  qe_ctx :: "context_t option"

abbreviation qe_seq :: "queuedEnvelope \<Rightarrow> u64" where
  "qe_seq it \<equiv> SeqNum (qe_envelope it)"

datatype sr_error =
    ParseEnvelope
  | ParseSessionId
  | SessionIdRequired
  | QueueClosed string
  | QueueStopping string
  | EnqueueTimeout string
  | WaitTimeout
  | WaitBatchTimeout
  | ProcessError string
  | WorkerPanic string

datatype sr_event =
    EvCall queuedEnvelope outcome
  | EvAck nat "sr_error option"

record SessionQueue =
  sq_sessionId :: string
  sq_queue :: "queuedEnvelope chan"
  sq_stopped :: bool
  sq_closed :: bool
  sq_lastActive :: time
  nextExpectedSeq :: u64
  sq_buffer :: "(u64 \<times> queuedEnvelope) list"
  sq_running :: bool

record 'w SessionRouter =
  sr_sessions :: "(string \<times> nat) list"
  sr_queues :: "SessionQueue list"
  sr_queueSize :: nat
  sr_stopCleanup :: bool
  sr_nextDone :: nat
  sr_metrics :: MessageMetrics
  sr_world :: 'w
  sr_trace :: "(nat \<times> sr_event) list"

definition NewSessionRouter :: "nat \<Rightarrow> MessageMetrics \<Rightarrow> 'w \<Rightarrow> 'w SessionRouter" where
  "NewSessionRouter queueSize m w =
     \<lparr>sr_sessions = [], sr_queues = [], sr_queueSize = queueSize, sr_stopCleanup = False,
      sr_nextDone = 0, sr_metrics = m, sr_world = w, sr_trace = []\<rparr>"

definition ActiveSessions :: "'w SessionRouter \<Rightarrow> nat" where
  "ActiveSessions r = length (sr_sessions r)"

section \<open>The worker\<close>

definition finishQueuedEnvelope :: "queuedEnvelope \<Rightarrow> sr_error option \<Rightarrow> sr_event list" where
  "finishQueuedEnvelope it e = (case qe_done it of None \<Rightarrow> [] | Some d \<Rightarrow> [EvAck d e])"

text \<open>The call the loop makes, chosen by the processor's interfaces and the item's channel.\<close>

definition select_call :: "proc_kind \<Rightarrow> queuedEnvelope \<Rightarrow> proc_call" where
  "select_call k it =
     (let env = qe_envelope it;
          ctx = (case qe_ctx it of None \<Rightarrow> Background | Some c \<Rightarrow> c)
      in case k of
           EnvelopeProc \<Rightarrow>
             CallEnvelope (if qe_done it = None then Background else ctx)
               (MsgID env) (Payload env) (qe_done it \<noteq> None)
         | DurableProc \<Rightarrow>
             (if qe_done it \<noteq> None then CallAndWait ctx (Payload env)
              else CallMessage (Payload env))
         | PlainProc \<Rightarrow> CallMessage (Payload env))"

text \<open>What the worker threads through: its queue, the metrics, the processor's state.\<close>

type_synonym 'w wstate = "SessionQueue \<times> MessageMetrics \<times> 'w"

function process_loop ::
  "'w processor \<Rightarrow> queuedEnvelope \<Rightarrow> 'w wstate \<Rightarrow> 'w wstate \<times> sr_event list" where
  "process_loop P it (q, m, w) =
     (case proc_run P (select_call (proc_kind P) it) w of
        (w', PErr e) \<Rightarrow>
          ((q, m\<lparr>processFailures := processFailures m + 1\<rparr>, w'),
           EvCall it (PErr e) # finishQueuedEnvelope it (Some (ProcessError e)))
      | (w', PPanic e) \<Rightarrow>
          ((q, m, w'), EvCall it (PPanic e) # finishQueuedEnvelope it (Some (WorkerPanic e)))
      | (w', POk) \<Rightarrow>
          (let n = nextExpectedSeq q + 1;
               q1 = q\<lparr>nextExpectedSeq := n\<rparr>;
               evs = EvCall it POk # finishQueuedEnvelope it None
           in case map_of (sq_buffer q) n of
                None \<Rightarrow> ((q1, m, w'), evs)
              | Some nxt \<Rightarrow>
                  (let (st, evs') =
                     process_loop P nxt (q1\<lparr>sq_buffer := AList.delete n (sq_buffer q)\<rparr>, m, w')
                   in (st, evs @ evs'))))"
  by pat_completeness auto
termination
  by (relation "measure (\<lambda>(P, it, q, m, w). length (sq_buffer q))")
     (auto dest: length_delete_less)

definition processEnvelope ::
  "'w processor \<Rightarrow> queuedEnvelope \<Rightarrow> 'w wstate \<Rightarrow> 'w wstate \<times> sr_event list" where
  "processEnvelope P it st =
     (case st of (q, m, w) \<Rightarrow>
        if nextExpectedSeq q < qe_seq it then
          ((q\<lparr>sq_buffer := AList.update (qe_seq it) it (sq_buffer q)\<rparr>, m, w), [])
        else if qe_seq it < nextExpectedSeq q then (st, finishQueuedEnvelope it None)
        else process_loop P it st)"

fun process_items ::
  "'w processor \<Rightarrow> queuedEnvelope list \<Rightarrow> 'w wstate \<Rightarrow> 'w wstate \<times> sr_event list" where
  "process_items P [] st = (st, [])"
| "process_items P (it # its) st =
     (let (st1, e1) = processEnvelope P it st; (st2, e2) = process_items P its st1
      in (st2, e1 @ e2))"

text \<open>The drain after the stop: everything still in the channel, then the worker is gone.\<close>

definition drainSessionQueue :: "'w processor \<Rightarrow> 'w wstate \<Rightarrow> 'w wstate \<times> sr_event list" where
  "drainSessionQueue P st =
     (case st of (q, m, w) \<Rightarrow>
        (case process_items P (ch_items (sq_queue q))
                (q\<lparr>sq_queue := (sq_queue q)\<lparr>ch_items := []\<rparr>\<rparr>, m, w) of
           ((q', m', w'), evs) \<Rightarrow> ((q'\<lparr>sq_running := False\<rparr>, m', w'), evs)))"

datatype select_branch = RecvBranch | StopBranch

text \<open>One round of the worker's \<open>select\<close>; \<open>None\<close> when the chosen branch is not ready.\<close>

definition processSessionQueue ::
  "'w processor \<Rightarrow> select_branch \<Rightarrow> 'w wstate \<Rightarrow> ('w wstate \<times> sr_event list) option" where
  "processSessionQueue P b st =
     (case st of (q, m, w) \<Rightarrow>
        if \<not> sq_running q then None
        else (case b of
                RecvBranch \<Rightarrow>
                  (case try_recv (sq_queue q) of None \<Rightarrow> None
                   | Some (it, c) \<Rightarrow> Some (processEnvelope P it (q\<lparr>sq_queue := c\<rparr>, m, w)))
              | StopBranch \<Rightarrow>
                  (if sq_stopped q then Some (drainSessionQueue P st) else None)))"

section \<open>Enqueueing\<close>

definition parseQueuedEnvelope ::
  "bytes \<Rightarrow> nat option \<Rightarrow> context_t \<Rightarrow> sr_error + queuedEnvelope \<times> string" where
  "parseQueuedEnvelope data d ctx =
     (case decode_envelope data of (env, err) \<Rightarrow>
        if err then Inl ParseEnvelope
        else (case decode_session_id (Payload env) of (sid, err2) \<Rightarrow>
                if err2 then Inl ParseSessionId
                else if sid = [] then Inl SessionIdRequired
                else Inr (\<lparr>qe_envelope = env, qe_done = d, qe_ctx = Some ctx\<rparr>, sid)))"

definition new_queue :: "string \<Rightarrow> nat \<Rightarrow> time \<Rightarrow> SessionQueue" where
  "new_queue sid cap now =
     \<lparr>sq_sessionId = sid, sq_queue = make_chan cap, sq_stopped = False, sq_closed = False,
      sq_lastActive = now, nextExpectedSeq = 1, sq_buffer = [], sq_running = True\<rparr>"

definition getOrCreateSessionQueue ::
  "time \<Rightarrow> string \<Rightarrow> 'w SessionRouter \<Rightarrow> nat \<times> 'w SessionRouter" where
  "getOrCreateSessionQueue now sid r =
     (case map_of (sr_sessions r) sid of
        Some p \<Rightarrow> (p, r)
      | None \<Rightarrow>
          (let p = length (sr_queues r)
           in (p, r\<lparr>sr_queues := sr_queues r @ [new_queue sid (sr_queueSize r) now],
                    sr_sessions := AList.update sid p (sr_sessions r)\<rparr>)))"

datatype enqueue_branch = SendBranch | StoppingBranch | CtxBranch

text \<open>The critical section under \<open>queue.mu\<close>: \<open>expired\<close> is whether the context is done. \<open>None\<close>
  means the chosen branch is not ready, and the producer stays blocked.\<close>

definition enqueue_select ::
  "time \<Rightarrow> bool \<Rightarrow> enqueue_branch \<Rightarrow> nat \<Rightarrow> queuedEnvelope \<Rightarrow> string \<Rightarrow> 'w SessionRouter
   \<Rightarrow> (sr_error option \<times> 'w SessionRouter) option" where
  "enqueue_select now expired b p it sid r =
     (let q = sr_queues r ! p
      in if sq_closed q then Some (Some (QueueClosed sid), r)
         else (case b of
                 SendBranch \<Rightarrow>
                   (case try_send (sq_queue q) it of None \<Rightarrow> None
                    | Some c \<Rightarrow>
                        Some (None, r\<lparr>sr_queues :=
                          (sr_queues r)[p := q\<lparr>sq_queue := c, sq_lastActive := now\<rparr>]\<rparr>))
               | StoppingBranch \<Rightarrow>
                   (if sq_stopped q then Some (Some (QueueStopping sid), r) else None)
               | CtxBranch \<Rightarrow>
                   (if expired then
                      Some (Some (EnqueueTimeout sid),
                        r\<lparr>sr_metrics := (sr_metrics r)
                             \<lparr>sessionQueueTimeouts := sessionQueueTimeouts (sr_metrics r) + 1\<rparr>\<rparr>)
                    else None)))"

definition enqueue ::
  "time \<Rightarrow> bool \<Rightarrow> enqueue_branch \<Rightarrow> context_t \<Rightarrow> bytes \<Rightarrow> nat option \<Rightarrow> 'w SessionRouter
   \<Rightarrow> (sr_error option \<times> 'w SessionRouter) option" where
  "enqueue now expired b ctx data d r =
     (case parseQueuedEnvelope data d ctx of
        Inl e \<Rightarrow> Some (Some e, r)
      | Inr (it, sid) \<Rightarrow>
          (case getOrCreateSessionQueue now sid r of
             (p, r1) \<Rightarrow> enqueue_select now expired b p it sid r1))"

text \<open>The fire-and-forget call of the channel path, with its two-second context.\<close>

definition EnqueueMessage ::
  "time \<Rightarrow> bool \<Rightarrow> enqueue_branch \<Rightarrow> bytes \<Rightarrow> 'w SessionRouter
   \<Rightarrow> (sr_error option \<times> 'w SessionRouter) option" where
  "EnqueueMessage now expired b data r =
     enqueue now expired b (Deadline (now + 2 * second)) data None r"

definition fresh_done :: "'w SessionRouter \<Rightarrow> nat \<times> 'w SessionRouter" where
  "fresh_done r = (sr_nextDone r, r\<lparr>sr_nextDone := Suc (sr_nextDone r)\<rparr>)"

text \<open>The value received from a \<open>done\<close> channel: the one sent on it, if any.\<close>

fun ack_of :: "(nat \<times> sr_event) list \<Rightarrow> nat \<Rightarrow> sr_error option option" where
  "ack_of [] d = None"
| "ack_of ((_, EvAck d' e) # evs) d = (if d' = d then Some e else ack_of evs d)"
| "ack_of ((_, EvCall _ _) # evs) d = ack_of evs d"

definition count_timeout :: "'w SessionRouter \<Rightarrow> 'w SessionRouter" where
  "count_timeout r =
     r\<lparr>sr_metrics := (sr_metrics r)
         \<lparr>sessionQueueTimeouts := sessionQueueTimeouts (sr_metrics r) + 1\<rparr>\<rparr>"

text \<open>
  \<open>EnqueueMessageAndWait\<close> and the batch form. \<open>sched\<close> is what the other goroutines do between
  the sends and until the wait ends, by an answer or by the context.
\<close>

definition EnqueueMessageAndWait ::
  "('w SessionRouter \<Rightarrow> 'w SessionRouter) \<Rightarrow> time \<Rightarrow> bool \<Rightarrow> enqueue_branch \<Rightarrow> context_t \<Rightarrow> bytes
   \<Rightarrow> 'w SessionRouter \<Rightarrow> (sr_error option \<times> 'w SessionRouter) option" where
  "EnqueueMessageAndWait sched now expired b ctx data r =
     (let (d, r0) = fresh_done r
      in case enqueue now expired b ctx data (Some d) r0 of
           None \<Rightarrow> None
         | Some (Some e, r1) \<Rightarrow> Some (Some e, r1)
         | Some (None, r1) \<Rightarrow>
             (let r2 = sched r1
              in case ack_of (sr_trace r2) d of
                   Some e \<Rightarrow> Some (e, r2)
                 | None \<Rightarrow> Some (Some WaitTimeout, count_timeout r2)))"

fun enqueue_batch ::
  "('w SessionRouter \<Rightarrow> 'w SessionRouter) \<Rightarrow> time \<Rightarrow> context_t \<Rightarrow> (bytes \<times> bool \<times> enqueue_branch) list
   \<Rightarrow> 'w SessionRouter \<Rightarrow> ((sr_error + nat list) \<times> 'w SessionRouter) option" where
  "enqueue_batch sched now ctx [] r = Some (Inr [], r)"
| "enqueue_batch sched now ctx ((data, expired, b) # rest) r =
     (let (d, r0) = fresh_done r
      in case enqueue now expired b ctx data (Some d) r0 of
           None \<Rightarrow> None
         | Some (Some e, r1) \<Rightarrow> Some (Inl e, r1)
         | Some (None, r1) \<Rightarrow>
             (case enqueue_batch sched now ctx rest (sched r1) of
                None \<Rightarrow> None
              | Some (Inl e, r2) \<Rightarrow> Some (Inl e, r2)
              | Some (Inr ds, r2) \<Rightarrow> Some (Inr (d # ds), r2)))"

fun wait_all :: "nat list \<Rightarrow> 'w SessionRouter \<Rightarrow> sr_error option \<times> 'w SessionRouter" where
  "wait_all [] r = (None, r)"
| "wait_all (d # ds) r =
     (case ack_of (sr_trace r) d of
        Some None \<Rightarrow> wait_all ds r
      | Some (Some e) \<Rightarrow> (Some e, r)
      | None \<Rightarrow> (Some WaitBatchTimeout, count_timeout r))"

definition EnqueueMessagesAndWait ::
  "('w SessionRouter \<Rightarrow> 'w SessionRouter) \<Rightarrow> time \<Rightarrow> context_t \<Rightarrow> (bytes \<times> bool \<times> enqueue_branch) list
   \<Rightarrow> 'w SessionRouter \<Rightarrow> (sr_error option \<times> 'w SessionRouter) option" where
  "EnqueueMessagesAndWait sched now ctx datas r =
     (case enqueue_batch sched now ctx datas r of
        None \<Rightarrow> None
      | Some (Inl e, r1) \<Rightarrow> Some (Some e, r1)
      | Some (Inr ds, r1) \<Rightarrow> Some (wait_all ds (sched r1)))"

section \<open>Cleanup and close\<close>

definition stopSessionQueue :: "SessionQueue \<Rightarrow> SessionQueue" where
  "stopSessionQueue q = (if sq_closed q then q else q\<lparr>sq_closed := True, sq_stopped := True\<rparr>)"

definition queue_idle :: "time \<Rightarrow> SessionQueue \<Rightarrow> bool" where
  "queue_idle now q \<longleftrightarrow>
     now - sq_lastActive q > 5 * minute \<and> ch_items (sq_queue q) = [] \<and> sq_buffer q = []"

definition stop_and_forget :: "string \<Rightarrow> nat \<Rightarrow> 'w SessionRouter \<Rightarrow> 'w SessionRouter" where
  "stop_and_forget sid p r =
     r\<lparr>sr_queues := (sr_queues r)[p := stopSessionQueue (sr_queues r ! p)],
       sr_sessions := AList.delete sid (sr_sessions r)\<rparr>"

text \<open>One tick of the cleanup, over the map in the runtime's order.\<close>

fun cleanup_sessions :: "time \<Rightarrow> (string \<times> nat) list \<Rightarrow> 'w SessionRouter \<Rightarrow> 'w SessionRouter" where
  "cleanup_sessions now [] r = r"
| "cleanup_sessions now ((sid, p) # ss) r =
     cleanup_sessions now ss
       (if queue_idle now (sr_queues r ! p) then stop_and_forget sid p r else r)"

definition cleanupIdleSessions :: "time \<Rightarrow> 'w SessionRouter \<Rightarrow> 'w SessionRouter" where
  "cleanupIdleSessions now r =
     (if sr_stopCleanup r then r else cleanup_sessions now (sr_sessions r) r)"

definition close_router :: "'w SessionRouter \<Rightarrow> 'w SessionRouter" where
  "close_router r =
     (if sr_stopCleanup r then r
      else r\<lparr>sr_stopCleanup := True,
             sr_queues := foldl (\<lambda>qs (sid, p). qs[p := stopSessionQueue (qs ! p)])
                            (sr_queues r) (sr_sessions r),
             sr_sessions := []\<rparr>)"


section \<open>The router as a transition system\<close>

text \<open>One round of the worker of queue \<open>p\<close>.\<close>

definition run_worker ::
  "'w processor \<Rightarrow> select_branch \<Rightarrow> nat \<Rightarrow> 'w SessionRouter \<Rightarrow> 'w SessionRouter option" where
  "run_worker P b p r =
     (if length (sr_queues r) \<le> p then None
      else (case processSessionQueue P b (sr_queues r ! p, sr_metrics r, sr_world r) of
              None \<Rightarrow> None
            | Some ((q, m, w), evs) \<Rightarrow>
                Some (r\<lparr>sr_queues := (sr_queues r)[p := q], sr_metrics := m, sr_world := w,
                        sr_trace := sr_trace r @ map (Pair p) evs\<rparr>)))"

text \<open>
  The goroutines: producers that have looked up their queue and not yet entered its critical
  section are \<open>pending\<close>; the cleanup has checked the queue in \<open>marked\<close> and not yet stopped it,
  and holds the router's lock meanwhile.
\<close>

record 'w sr_system =
  router :: "'w SessionRouter"
  pending :: "(nat \<times> queuedEnvelope \<times> string) list"
  marked :: "(string \<times> nat) option"

inductive sr_step :: "'w processor \<Rightarrow> 'w sr_system \<Rightarrow> 'w sr_system \<Rightarrow> bool"
  for P :: "'w processor" where
  step_lookup:
    "marked s = None \<Longrightarrow>
     d = (if wait then Some (sr_nextDone (router s)) else None) \<Longrightarrow>
     parseQueuedEnvelope data d ctx = Inr (it, sid) \<Longrightarrow>
     getOrCreateSessionQueue now sid
       (if wait then snd (fresh_done (router s)) else router s) = (p, r') \<Longrightarrow>
     sr_step P s (s\<lparr>router := r', pending := pending s @ [(p, it, sid)]\<rparr>)"
| step_select:
    "pending s = xs @ (p, it, sid) # ys \<Longrightarrow>
     enqueue_select now expired b p it sid (router s) = Some (res, r') \<Longrightarrow>
     sr_step P s (s\<lparr>router := r', pending := xs @ ys\<rparr>)"
| step_worker:
    "run_worker P b p (router s) = Some r' \<Longrightarrow> sr_step P s (s\<lparr>router := r'\<rparr>)"
| step_mark:
    "marked s = None \<Longrightarrow> \<not> sr_stopCleanup (router s) \<Longrightarrow>
     (sid, p) \<in> set (sr_sessions (router s)) \<Longrightarrow> queue_idle now (sr_queues (router s) ! p) \<Longrightarrow>
     sr_step P s (s\<lparr>marked := Some (sid, p)\<rparr>)"
| step_cleanup:
    "marked s = Some (sid, p) \<Longrightarrow>
     sr_step P s (s\<lparr>router := stop_and_forget sid p (router s), marked := None\<rparr>)"
| step_close:
    "marked s = None \<Longrightarrow> sr_step P s (s\<lparr>router := close_router (router s)\<rparr>)"

definition sr_initial :: "nat \<Rightarrow> MessageMetrics \<Rightarrow> 'w \<Rightarrow> 'w sr_system" where
  "sr_initial queueSize m w =
     \<lparr>router = NewSessionRouter queueSize m w, pending = [], marked = None\<rparr>"

end
