(* ===== verification/Session_Order.thy ===== *)
theory Session_Order
  imports Session_Router
begin

text \<open>
  What one session's worker guarantees. A trace of the worker shows the calls to the processor
  (\<open>calls_of\<close>) and the answers on the \<open>done\<close> channels (\<open>acks_of\<close>); \<open>buffer_ok\<close> is the queue's
  invariant. The lemmas follow the code from the loop (\<open>process_loop_prefix\<close>,
  \<open>process_loop_ok\<close>) over one envelope to a stream of envelopes; the properties are the order
  of delivery, its exactness for a processor that succeeds, and what a failure, a duplicate or
  an idle cleanup does to the session.
\<close>

section \<open>What a trace shows\<close>

fun calls_of :: "sr_event list \<Rightarrow> (queuedEnvelope \<times> outcome) list" where
  "calls_of [] = []"
| "calls_of (EvCall it out # evs) = (it, out) # calls_of evs"
| "calls_of (EvAck _ _ # evs) = calls_of evs"

fun acks_of :: "sr_event list \<Rightarrow> (nat \<times> sr_error option) list" where
  "acks_of [] = []"
| "acks_of (EvCall _ _ # evs) = acks_of evs"
| "acks_of (EvAck d e # evs) = (d, e) # acks_of evs"

definition ok_seqs :: "sr_event list \<Rightarrow> nat list" where
  "ok_seqs evs = map (\<lambda>(it, _). unat (qe_seq it)) (filter (\<lambda>(_, out). out = POk) (calls_of evs))"

lemma calls_of_append [simp]: "calls_of (xs @ ys) = calls_of xs @ calls_of ys"
  by (induction xs rule: calls_of.induct) auto

lemma acks_of_append [simp]: "acks_of (xs @ ys) = acks_of xs @ acks_of ys"
  by (induction xs rule: acks_of.induct) auto

lemma calls_of_finish [simp]: "calls_of (finishQueuedEnvelope it e) = []"
  by (simp add: finishQueuedEnvelope_def split: option.splits)

lemma ok_seqs_simps [simp]:
  "ok_seqs [] = []"
  "ok_seqs (xs @ ys) = ok_seqs xs @ ok_seqs ys"
  "ok_seqs (finishQueuedEnvelope it e) = []"
  "ok_seqs (EvCall it POk # evs) = unat (qe_seq it) # ok_seqs evs"
  "out \<noteq> POk \<Longrightarrow> ok_seqs (EvCall it out # evs) = ok_seqs evs"
  "ok_seqs (EvAck d e # evs) = ok_seqs evs"
  by (simp_all add: ok_seqs_def)

section \<open>The buffer\<close>

text \<open>Sequence numbers below the largest word: the counter of a session never wraps in use.\<close>

definition seq_small :: "queuedEnvelope \<Rightarrow> bool" where
  "seq_small it \<longleftrightarrow> qe_seq it \<noteq> - 1"

definition buffer_ok :: "SessionQueue \<Rightarrow> bool" where
  "buffer_ok q \<longleftrightarrow>
     distinct (map fst (sq_buffer q)) \<and>
     (\<forall>(k, it) \<in> set (sq_buffer q). k = qe_seq it \<and> nextExpectedSeq q < k \<and> seq_small it)"

definition bkeys :: "SessionQueue \<Rightarrow> nat set" where
  "bkeys q = (unat \<circ> fst) ` set (sq_buffer q)"

abbreviation next_nat :: "SessionQueue \<Rightarrow> nat" where
  "next_nat q \<equiv> unat (nextExpectedSeq q)"

lemma unat_next: "n \<noteq> - 1 \<Longrightarrow> unat (n + 1 :: u64) = Suc (unat n)"
proof -
  assume n: "n \<noteq> - 1"
  have "unat n + 1 \<noteq> 2 ^ 64"
  proof
    assume "unat n + 1 = 2 ^ 64"
    then have "unat (n + 1) = 0" by (simp add: unat_word_ariths(1))
    then have "n + 1 = 0" by (simp add: unat_eq_zero)
    with n show False by (simp add: eq_neg_iff_add_eq_0)
  qed
  moreover have "unat n < 2 ^ 64" by simp
  ultimately have "Suc (unat n) < 2 ^ 64" by linarith
  then show ?thesis by (simp add: unat_word_ariths(1))
qed

lemma map_of_bkeys: "map_of (sq_buffer q) k = None \<longleftrightarrow> unat k \<notin> bkeys q"
proof -
  have "unat k \<in> bkeys q \<longleftrightarrow> k \<in> fst ` set (sq_buffer q)"
    unfolding bkeys_def by (metis (no_types, lifting) image_comp image_iff unsigned_word_eqI)
  then show ?thesis by (simp add: map_of_eq_None_iff)
qed

lemma bkeys_delete:
  "bkeys (q\<lparr>nextExpectedSeq := n, sq_buffer := AList.delete k (sq_buffer q)\<rparr>) = bkeys q - {unat k}"
  by (auto simp: bkeys_def AList.delete_eq image_iff) (metis fst_conv unsigned_word_eqI)

lemma bkeys_update:
  "bkeys (q\<lparr>sq_buffer := AList.update k v (sq_buffer q)\<rparr>) = insert (unat k) (bkeys q)"
proof -
  have "bkeys (q\<lparr>sq_buffer := AList.update k v (sq_buffer q)\<rparr>) =
        unat ` fst ` set (AList.update k v (sq_buffer q))"
    by (simp add: bkeys_def image_comp)
  also have "\<dots> = insert (unat k) (unat ` fst ` set (sq_buffer q))"
    by (simp add: fst_set_update)
  finally show ?thesis by (simp add: bkeys_def image_comp)
qed

lemma buffer_ok_take:
  assumes ok: "buffer_ok q" and it: "map_of (sq_buffer q) (nextExpectedSeq q + 1) = Some nxt"
    and small: "nextExpectedSeq q \<noteq> - 1"
  shows "buffer_ok (q\<lparr>nextExpectedSeq := nextExpectedSeq q + 1,
                      sq_buffer := AList.delete (nextExpectedSeq q + 1) (sq_buffer q)\<rparr>)"
    and "qe_seq nxt = nextExpectedSeq q + 1" and "seq_small nxt"
proof -
  let ?n = "nextExpectedSeq q + 1"
  from it have mem: "(?n, nxt) \<in> set (sq_buffer q)" by (rule map_of_SomeD)
  with ok show "qe_seq nxt = ?n" "seq_small nxt" by (auto simp: buffer_ok_def)
  have "k \<noteq> ?n \<Longrightarrow> nextExpectedSeq q < k \<Longrightarrow> ?n < k" for k
    using unat_next [OF small]
    by (metis Suc_lessI unsigned_word_eqI word_less_nat_alt)
  with ok show "buffer_ok (q\<lparr>nextExpectedSeq := ?n, sq_buffer := AList.delete ?n (sq_buffer q)\<rparr>)"
    by (auto simp: buffer_ok_def AList.delete_eq distinct_map_filter)
qed

lemma buffer_ok_skip:
  assumes "buffer_ok q" and "map_of (sq_buffer q) (nextExpectedSeq q + 1) = None"
    and "nextExpectedSeq q \<noteq> - 1"
  shows "buffer_ok (q\<lparr>nextExpectedSeq := nextExpectedSeq q + 1\<rparr>)"
proof -
  let ?n = "nextExpectedSeq q + 1"
  have "k \<noteq> ?n \<Longrightarrow> nextExpectedSeq q < k \<Longrightarrow> ?n < k" for k
    using unat_next [OF assms(3)]
    by (metis Suc_lessI unsigned_word_eqI word_less_nat_alt)
  moreover have "?n \<notin> fst ` set (sq_buffer q)" using assms(2) by (simp add: map_of_eq_None_iff)
  ultimately show ?thesis using assms(1) by (force simp: buffer_ok_def)
qed

declare process_loop.simps [simp del]

text \<open>The loop, whatever the processor answers.\<close>

lemma process_loop_prefix:
  assumes "process_loop P it (q, m, w) = ((q', m', w'), evs)"
    and "buffer_ok q" and "qe_seq it = nextExpectedSeq q" and "seq_small it"
  shows "buffer_ok q' \<and> next_nat q \<le> next_nat q' \<and> ok_seqs evs = [next_nat q ..< next_nat q'] \<and>
         bkeys q' \<subseteq> bkeys q \<and> {Suc (next_nat q) ..< next_nat q'} \<subseteq> bkeys q"
  using assms
proof (induction P it "(q, m, w)" arbitrary: q m w q' m' w' evs rule: process_loop.induct)
  case (1 P it q m w)
  from 1(4,5) have small: "nextExpectedSeq q \<noteq> - 1" by (simp add: seq_small_def)
  let ?n = "nextExpectedSeq q + 1"
  obtain w1 out where run: "proc_run P (select_call (proc_kind P) it) w = (w1, out)" by fastforce
  show ?case
  proof (cases out)
    case POk
    show ?thesis
    proof (cases "map_of (sq_buffer q) ?n")
      case None
      then have q': "q' = q\<lparr>nextExpectedSeq := ?n\<rparr>" and evs: "ok_seqs evs = [next_nat q]"
        using 1(2,4) run POk by (auto simp: process_loop.simps Let_def)
      from q' evs buffer_ok_skip [OF 1(3) None small] unat_next [OF small] show ?thesis
        by (simp add: bkeys_def)
    next
      case (Some nxt)
      let ?q = "q\<lparr>nextExpectedSeq := ?n, sq_buffer := AList.delete ?n (sq_buffer q)\<rparr>"
      obtain evs' where rec: "process_loop P nxt (?q, m, w1) = ((q', m', w'), evs')"
        and evs: "evs = (EvCall it POk # finishQueuedEnvelope it None) @ evs'"
        using 1(2) run POk Some by (auto simp: process_loop.simps [of P it] Let_def split: prod.splits)
      note ok = buffer_ok_take [OF 1(3) Some small]
      have "buffer_ok q' \<and> next_nat ?q \<le> next_nat q' \<and> ok_seqs evs' = [next_nat ?q ..< next_nat q'] \<and>
         bkeys q' \<subseteq> bkeys ?q \<and> {Suc (next_nat ?q) ..< next_nat q'} \<subseteq> bkeys ?q"
        using 1(1) [OF run [symmetric] POk refl refl refl Some] rec ok by simp
      moreover have "{Suc (next_nat q) ..< next_nat q'} \<subseteq>
          insert (Suc (next_nat q)) {Suc (Suc (next_nat q)) ..< next_nat q'}" by auto
      moreover have "unat ?n \<in> bkeys q" using Some map_of_bkeys [of q ?n] by auto
      ultimately show ?thesis
        using unat_next [OF small] 1(4) evs
        by (auto simp: bkeys_delete upt_rec [of "next_nat q"] Suc_le_eq le_eq_less_or_eq)
    qed
  next
    case (PErr e)
    then show ?thesis using 1 run by (auto simp: process_loop.simps)
  next
    case (PPanic e)
    then show ?thesis using 1 run by (auto simp: process_loop.simps)
  qed
qed


text \<open>With a processor that always succeeds the loop goes on to the first gap.\<close>

definition always_ok :: "'w processor \<Rightarrow> bool" where
  "always_ok P \<longleftrightarrow> (\<forall>c w. snd (proc_run P c w) = POk)"

lemma process_loop_ok:
  assumes "process_loop P it (q, m, w) = ((q', m', w'), evs)" and "always_ok P"
    and "buffer_ok q" and "qe_seq it = nextExpectedSeq q" and "seq_small it"
  shows "next_nat q < next_nat q' \<and> next_nat q' \<notin> bkeys q \<and>
         bkeys q' = {k \<in> bkeys q. next_nat q' < k} \<and> list_all (\<lambda>(_, out). out = POk) (calls_of evs)"
  using assms
proof (induction P it "(q, m, w)" arbitrary: q m w q' m' w' evs rule: process_loop.induct)
  case (1 P it q m w)
  from 1(5,6) have small: "nextExpectedSeq q \<noteq> - 1" by (simp add: seq_small_def)
  let ?n = "nextExpectedSeq q + 1"
  obtain w1 where run: "proc_run P (select_call (proc_kind P) it) w = (w1, POk)"
    using 1(3) by (metis always_ok_def prod.collapse)
  have above: "k \<in> bkeys q \<Longrightarrow> next_nat q < k" for k
    using 1(4) by (auto simp: buffer_ok_def bkeys_def word_less_nat_alt)
  show ?case
  proof (cases "map_of (sq_buffer q) ?n")
    case None
    then have q': "q' = q\<lparr>nextExpectedSeq := ?n\<rparr>" and evs: "calls_of evs = [(it, POk)]"
      using 1(2) run by (auto simp: process_loop.simps Let_def)
    have "Suc (next_nat q) \<notin> bkeys q" using None map_of_bkeys [of q ?n] unat_next [OF small] by simp
    moreover have "bkeys q' = bkeys q" "next_nat q' = Suc (next_nat q)"
      using q' unat_next [OF small] by (simp_all add: bkeys_def)
    ultimately have "bkeys q' = {k \<in> bkeys q. next_nat q' < k}" "next_nat q' \<notin> bkeys q"
      using above by (auto intro: Suc_lessI)
    with evs \<open>next_nat q' = Suc (next_nat q)\<close> show ?thesis by simp
  next
    case (Some nxt)
    let ?q = "q\<lparr>nextExpectedSeq := ?n, sq_buffer := AList.delete ?n (sq_buffer q)\<rparr>"
    obtain evs' where rec: "process_loop P nxt (?q, m, w1) = ((q', m', w'), evs')"
      and evs: "evs = (EvCall it POk # finishQueuedEnvelope it None) @ evs'"
      using 1(2) run Some by (auto simp: process_loop.simps [of P it] Let_def split: prod.splits)
    note ok = buffer_ok_take [OF 1(4) Some small]
    have IH: "next_nat ?q < next_nat q' \<and> next_nat q' \<notin> bkeys ?q \<and>
       bkeys q' = {k \<in> bkeys ?q. next_nat q' < k} \<and> list_all (\<lambda>(_, out). out = POk) (calls_of evs')"
      using 1(1) [OF run [symmetric] refl refl refl refl Some] rec ok 1(3) by simp
    have n: "next_nat ?q = Suc (next_nat q)" using unat_next [OF small] by simp
    have b: "bkeys ?q = bkeys q - {Suc (next_nat q)}" using n unfolding bkeys_delete by simp
    have lt: "Suc (next_nat q) < next_nat q'" and notin: "next_nat q' \<notin> bkeys q - {Suc (next_nat q)}"
      and eq: "bkeys q' = {k \<in> bkeys q - {Suc (next_nat q)}. next_nat q' < k}"
      and calls: "list_all (\<lambda>(_, out). out = POk) (calls_of evs')"
      using IH unfolding n b by iprover+
    have "bkeys q' = {k \<in> bkeys q. next_nat q' < k}" unfolding eq using lt by auto
    moreover have "next_nat q' \<notin> bkeys q" using lt notin by auto
    ultimately show ?thesis using lt calls evs by simp
  qed
qed


section \<open>Envelopes and streams of envelopes\<close>

lemma word_seq_cases:
  obtains "nextExpectedSeq q < qe_seq it" "next_nat q < unat (qe_seq it)"
  | "qe_seq it < nextExpectedSeq q" "unat (qe_seq it) < next_nat q" "\<not> nextExpectedSeq q < qe_seq it"
  | "qe_seq it = nextExpectedSeq q"
  by (meson less_linear order_less_asym word_less_nat_alt)

lemma buffer_ok_insert:
  "buffer_ok q \<Longrightarrow> nextExpectedSeq q < qe_seq it \<Longrightarrow> seq_small it \<Longrightarrow>
   buffer_ok (q\<lparr>sq_buffer := AList.update (qe_seq it) it (sq_buffer q)\<rparr>)"
  by (auto simp: buffer_ok_def dest!: set_update_subset [THEN subsetD])

lemma processEnvelope_prefix:
  assumes "processEnvelope P it (q, m, w) = ((q', m', w'), evs)" and "buffer_ok q" and "seq_small it"
  shows "buffer_ok q' \<and> next_nat q \<le> next_nat q' \<and> ok_seqs evs = [next_nat q ..< next_nat q']"
proof (cases rule: word_seq_cases [of q it])
  case 1
  with assms buffer_ok_insert show ?thesis by (auto simp: processEnvelope_def)
next
  case 2
  with assms show ?thesis by (auto simp: processEnvelope_def)
next
  case 3
  with assms process_loop_prefix [of P it q m w q' m' w' evs] show ?thesis
    by (simp add: processEnvelope_def)
qed

lemma process_items_prefix:
  assumes "process_items P its (q, m, w) = ((q', m', w'), evs)" and "buffer_ok q"
    and "\<forall>it \<in> set its. seq_small it"
  shows "buffer_ok q' \<and> next_nat q \<le> next_nat q' \<and> ok_seqs evs = [next_nat q ..< next_nat q']"
  using assms
proof (induction its arbitrary: q m w evs)
  case (Cons it its)
  obtain q1 m1 w1 e1 where 1: "processEnvelope P it (q, m, w) = ((q1, m1, w1), e1)"
    by (metis prod.collapse)
  obtain e2 where 2: "process_items P its (q1, m1, w1) = ((q', m', w'), e2)" and "evs = e1 @ e2"
    using Cons.prems(1) 1 by (auto simp: Let_def split: prod.splits)
  with processEnvelope_prefix [OF 1 Cons.prems(2)] Cons.IH [OF 2] Cons.prems(3)
  show ?case by (auto simp: upt_add_eq_append [symmetric] dest: le_Suc_ex)
qed simp

lemma buffer_ok_new [simp]: "buffer_ok (new_queue sid cap now)"
  and bkeys_new [simp]: "bkeys (new_queue sid cap now) = {}"
  and next_new [simp]: "nextExpectedSeq (new_queue sid cap now) = 1"
  by (simp_all add: buffer_ok_def bkeys_def new_queue_def)

text \<open>Whatever the processor answers, no number above the next expected one is given to it.\<close>

lemma process_loop_below:
  assumes "process_loop P it (q, m, w) = ((q', m', w'), evs)"
    and "buffer_ok q" and "qe_seq it = nextExpectedSeq q" and "seq_small it"
  shows "\<forall>(i, out) \<in> set (calls_of evs). unat (qe_seq i) \<le> next_nat q'"
  using assms
proof (induction P it "(q, m, w)" arbitrary: q m w q' m' w' evs rule: process_loop.induct)
  case (1 P it q m w)
  from 1(4,5) have small: "nextExpectedSeq q \<noteq> - 1" by (simp add: seq_small_def)
  let ?n = "nextExpectedSeq q + 1"
  obtain w1 out where run: "proc_run P (select_call (proc_kind P) it) w = (w1, out)" by fastforce
  show ?case
  proof (cases out)
    case POk
    show ?thesis
    proof (cases "map_of (sq_buffer q) ?n")
      case None
      then have "q' = q\<lparr>nextExpectedSeq := ?n\<rparr>" "calls_of evs = [(it, POk)]"
        using 1(2) run POk by (auto simp: process_loop.simps Let_def)
      with unat_next [OF small] 1(4) show ?thesis by simp
    next
      case (Some nxt)
      let ?q = "q\<lparr>nextExpectedSeq := ?n, sq_buffer := AList.delete ?n (sq_buffer q)\<rparr>"
      obtain evs' where rec: "process_loop P nxt (?q, m, w1) = ((q', m', w'), evs')"
        and evs: "evs = (EvCall it POk # finishQueuedEnvelope it None) @ evs'"
        using 1(2) run POk Some by (auto simp: process_loop.simps [of P it] Let_def split: prod.splits)
      note ok = buffer_ok_take [OF 1(3) Some small]
      have "\<forall>(i, out) \<in> set (calls_of evs'). unat (qe_seq i) \<le> next_nat q'"
        using 1(1) [OF run [symmetric] POk refl refl refl Some] rec ok by simp
      moreover have "next_nat ?q \<le> next_nat q'" using process_loop_prefix [OF rec] ok by simp
      ultimately show ?thesis using evs 1(4) unat_next [OF small] by auto
    qed
  next
    case (PErr e)
    then show ?thesis using 1 run by (auto simp: process_loop.simps)
  next
    case (PPanic e)
    then show ?thesis using 1 run by (auto simp: process_loop.simps)
  qed
qed

lemma process_items_below:
  assumes "process_items P its (q, m, w) = ((q', m', w'), evs)" and "buffer_ok q"
    and "\<forall>it \<in> set its. seq_small it"
  shows "\<forall>(i, out) \<in> set (calls_of evs). unat (qe_seq i) \<le> next_nat q'"
  using assms
proof (induction its arbitrary: q m w evs)
  case (Cons it its)
  obtain q1 m1 w1 e1 where 1: "processEnvelope P it (q, m, w) = ((q1, m1, w1), e1)"
    by (metis prod.collapse)
  obtain e2 where 2: "process_items P its (q1, m1, w1) = ((q', m', w'), e2)" and evs: "evs = e1 @ e2"
    using Cons.prems(1) 1 by (auto simp: Let_def split: prod.splits)
  have q1: "buffer_ok q1" using processEnvelope_prefix [OF 1 Cons.prems(2)] Cons.prems(3) by simp
  have "\<forall>(i, out) \<in> set (calls_of e1). unat (qe_seq i) \<le> next_nat q1"
  proof (cases rule: word_seq_cases [of q it])
    case 3
    with 1 Cons.prems(2,3) process_loop_below [of P it q m w q1 m1 w1 e1] show ?thesis by (simp add: processEnvelope_def)
  qed (use 1 in \<open>auto simp: processEnvelope_def\<close>)
  moreover have "next_nat q1 \<le> next_nat q'" using process_items_prefix [OF 2 q1] Cons.prems(3) by simp
  ultimately show ?case using Cons.IH [OF 2 q1] Cons.prems(3) evs by fastforce
qed simp

text \<open>The state after the numbers in \<open>seen\<close> have arrived and every call succeeded.\<close>

definition caught_up :: "SessionQueue \<Rightarrow> nat set \<Rightarrow> bool" where
  "caught_up q seen \<longleftrightarrow>
     bkeys q = {k \<in> seen. next_nat q < k} \<and> {1 ..< next_nat q} \<subseteq> seen \<and> next_nat q \<notin> seen"

lemma processEnvelope_caught_up:
  assumes run: "processEnvelope P it (q, m, w) = ((q', m', w'), evs)" and ok: "always_ok P"
    and q: "buffer_ok q" and small: "seq_small it" and c: "caught_up q seen"
  shows "caught_up q' (insert (unat (qe_seq it)) seen) \<and> list_all (\<lambda>(_, out). out = POk) (calls_of evs)"
proof (cases rule: word_seq_cases [of q it])
  case 1
  with run c show ?thesis by (auto simp: processEnvelope_def caught_up_def bkeys_update)
next
  case 2
  with run c show ?thesis by (auto simp: processEnvelope_def caught_up_def)
next
  case 3
  then have run': "process_loop P it (q, m, w) = ((q', m', w'), evs)"
    using run by (simp add: processEnvelope_def)
  note loop = process_loop_ok [OF run' ok q 3 small] process_loop_prefix [OF run' q 3 small]
  have "bkeys q' = {k \<in> insert (unat (qe_seq it)) seen. next_nat q' < k}"
    using loop c 3 by (auto simp: caught_up_def)
  moreover have "{1 ..< next_nat q'} \<subseteq> {1 ..< next_nat q} \<union> {next_nat q} \<union> {Suc (next_nat q) ..< next_nat q'}"
    by auto
  then have "{1 ..< next_nat q'} \<subseteq> insert (unat (qe_seq it)) seen"
    using loop c 3 unfolding caught_up_def by fastforce
  moreover have "next_nat q' \<notin> insert (unat (qe_seq it)) seen"
    using loop c 3 by (auto simp: caught_up_def)
  ultimately show ?thesis using loop by (simp add: caught_up_def)
qed

lemma process_items_caught_up:
  assumes "process_items P its (q, m, w) = ((q', m', w'), evs)" and "always_ok P"
    and "buffer_ok q" and "\<forall>it \<in> set its. seq_small it" and "caught_up q seen"
  shows "caught_up q' (seen \<union> (unat \<circ> qe_seq) ` set its) \<and>
         list_all (\<lambda>(_, out). out = POk) (calls_of evs)"
  using assms
proof (induction its arbitrary: q m w evs seen)
  case (Cons it its)
  obtain q1 m1 w1 e1 where 1: "processEnvelope P it (q, m, w) = ((q1, m1, w1), e1)"
    by (metis prod.collapse)
  obtain e2 where 2: "process_items P its (q1, m1, w1) = ((q', m', w'), e2)" and e: "evs = e1 @ e2"
    using Cons.prems(1) 1 by (auto simp: Let_def split: prod.splits)
  have small: "seq_small it" "\<forall>it \<in> set its. seq_small it" using Cons.prems(4) by auto
  note s1 = processEnvelope_caught_up [OF 1 Cons.prems(2,3) small(1) Cons.prems(5)]
  have "buffer_ok q1" using processEnvelope_prefix [OF 1 Cons.prems(3) small(1)] by simp
  from Cons.IH [OF 2 Cons.prems(2) this small(2) conjunct1 [OF s1]] s1 e
  show ?case by simp
qed simp

text \<open>The items given to the processor are items that arrived.\<close>

lemma subset_step1:
  "A \<union> B \<subseteq> insert x C \<Longrightarrow> x \<in> S \<Longrightarrow> C \<subseteq> S \<Longrightarrow> E = insert it A \<Longrightarrow> E \<union> B \<subseteq> insert it S"
  by blast

lemma subset_step2:
  "A1 \<union> C1 \<subseteq> insert it C \<Longrightarrow> A2 \<union> D \<subseteq> I \<union> C1 \<Longrightarrow> E = A1 \<union> A2 \<Longrightarrow> E \<union> D \<subseteq> insert it I \<union> C"
  by blast

lemma process_loop_items:
  "process_loop P it (q, m, w) = ((q', m', w'), evs) \<Longrightarrow>
   fst ` set (calls_of evs) \<union> snd ` set (sq_buffer q') \<subseteq> insert it (snd ` set (sq_buffer q))"
proof (induction P it "(q, m, w)" arbitrary: q m w q' m' w' evs rule: process_loop.induct)
  case (1 P it q m w)
  let ?n = "nextExpectedSeq q + 1"
  obtain w1 out where run: "proc_run P (select_call (proc_kind P) it) w = (w1, out)" by fastforce
  show ?case
  proof (cases "out = POk \<and> map_of (sq_buffer q) ?n \<noteq> None")
    case False
    with 1(2) run show ?thesis
      by (cases out; cases "map_of (sq_buffer q) ?n") (auto simp: process_loop.simps [of P it] Let_def)
  next
    case True
    then obtain nxt where Some: "map_of (sq_buffer q) ?n = Some nxt" and out: "out = POk" by auto
    let ?q = "q\<lparr>nextExpectedSeq := ?n, sq_buffer := AList.delete ?n (sq_buffer q)\<rparr>"
    obtain evs' where rec: "process_loop P nxt (?q, m, w1) = ((q', m', w'), evs')"
      and evs: "evs = (EvCall it POk # finishQueuedEnvelope it None) @ evs'"
      using 1(2) run Some out by (auto simp: process_loop.simps [of P it] Let_def split: prod.splits)
    show ?thesis
    proof (rule subset_step1)
      show "fst ` set (calls_of evs') \<union> snd ` set (sq_buffer q') \<subseteq>
          insert nxt (snd ` set (AList.delete ?n (sq_buffer q)))"
        using 1(1) [OF run [symmetric] out refl refl refl Some] rec by simp
      show "nxt \<in> snd ` set (sq_buffer q)" using map_of_SomeD [OF Some] by force
      show "snd ` set (AList.delete ?n (sq_buffer q)) \<subseteq> snd ` set (sq_buffer q)"
        by (auto simp: AList.delete_eq)
      show "fst ` set (calls_of evs) = insert it (fst ` set (calls_of evs'))"
        using evs by simp
    qed
  qed
qed

lemma process_items_items:
  "process_items P its (q, m, w) = ((q', m', w'), evs) \<Longrightarrow>
   fst ` set (calls_of evs) \<union> snd ` set (sq_buffer q') \<subseteq> set its \<union> snd ` set (sq_buffer q)"
proof (induction its arbitrary: q m w evs)
  case (Cons it its)
  obtain q1 m1 w1 e1 where 1: "processEnvelope P it (q, m, w) = ((q1, m1, w1), e1)"
    by (metis prod.collapse)
  obtain e2 where 2: "process_items P its (q1, m1, w1) = ((q', m', w'), e2)" and e: "evs = e1 @ e2"
    using Cons.prems(1) 1 by (auto simp: Let_def split: prod.splits)
  have "fst ` set (calls_of e1) \<union> snd ` set (sq_buffer q1) \<subseteq> insert it (snd ` set (sq_buffer q))"
    using 1 process_loop_items [of P it q m w q1 m1 w1 e1]
    by (auto simp: processEnvelope_def split: if_splits dest!: set_update_subset [THEN subsetD])
  moreover have "fst ` set (calls_of evs) = fst ` set (calls_of e1) \<union> fst ` set (calls_of e2)"
    using e by (simp add: image_Un)
  ultimately show ?case unfolding list.set(2) by (rule subset_step2 [OF _ Cons.IH [OF 2]])
qed simp


lemma process_items_stuck:
  assumes "\<forall>it \<in> set its. nextExpectedSeq q < qe_seq it"
  shows "\<exists>q'. process_items P its (q, m, w) = ((q', m, w), []) \<and> nextExpectedSeq q' = nextExpectedSeq q \<and>
    bkeys q' = bkeys q \<union> (unat \<circ> qe_seq) ` set its \<and>
    (distinct (map fst (sq_buffer q)) \<longrightarrow> distinct (map fst (sq_buffer q')))"
  using assms
proof (induction its arbitrary: q)
  case (Cons it its)
  let ?q = "q\<lparr>sq_buffer := AList.update (qe_seq it) it (sq_buffer q)\<rparr>"
  have "processEnvelope P it (q, m, w) = ((?q, m, w), [])"
    using Cons.prems by (simp add: processEnvelope_def)
  with Cons.IH [of ?q] Cons.prems show ?case
    by (auto simp: bkeys_update)
qed simp

lemma length_buffer: "distinct (map fst (sq_buffer q)) \<Longrightarrow> length (sq_buffer q) = card (bkeys q)"
proof -
  assume "distinct (map fst (sq_buffer q))"
  moreover have "inj_on unat (fst ` set (sq_buffer q))" by (auto simp: inj_on_def intro: unsigned_word_eqI)
  ultimately have "card (unat ` fst ` set (sq_buffer q)) = length (map fst (sq_buffer q))"
    by (metis card_image distinct_card list.set_map)
  then show ?thesis by (simp add: bkeys_def image_comp)
qed

lemma seqs_small:
  "(unat \<circ> qe_seq) ` set its = {1..n} \<Longrightarrow> n < 2 ^ 64 - 1 \<Longrightarrow> \<forall>it \<in> set its. seq_small it"
proof
  fix it assume "(unat \<circ> qe_seq) ` set its = {1..n}" "n < 2 ^ 64 - 1" "it \<in> set its"
  then have "unat (qe_seq it) \<in> {1..n}" by (metis comp_apply imageI)
  with \<open>n < 2 ^ 64 - 1\<close> have "unat (qe_seq it) < 2 ^ 64 - 1" by simp
  then show "seq_small it" by (auto simp: seq_small_def unsigned_minus_1_eq_mask mask_eq_exp_minus_1)
qed

lemma all_ok_seqs:
  "list_all (\<lambda>(_, out). out = POk) (calls_of evs) \<Longrightarrow>
   ok_seqs evs = map (\<lambda>(it, _). unat (qe_seq it)) (calls_of evs)"
  by (auto simp: ok_seqs_def list_all_iff intro!: arg_cong [where f = "map _"] filter_True)

lemma in_order_aux:
  assumes "process_items P its (new_queue sid cap now, m, w) = ((q, m', w'), evs)"
    and "always_ok P" and "(unat \<circ> qe_seq) ` set its = {1..n}" and "n < 2 ^ 64 - 1"
  shows "map (\<lambda>(it, _). unat (qe_seq it)) (calls_of evs) = [1 ..< Suc n] \<and> sq_buffer q = [] \<and>
         next_nat q = Suc n"
proof -
  note small = seqs_small [OF assms(3,4)]
  have "caught_up (new_queue sid cap now) {}" by (simp add: caught_up_def)
  from process_items_caught_up [OF assms(1,2) buffer_ok_new small this]
  have c: "caught_up q {1..n}" and all: "list_all (\<lambda>(_, out). out = POk) (calls_of evs)"
    using assms(3) by simp_all
  from process_items_prefix [OF assms(1) buffer_ok_new small]
  have p: "1 \<le> next_nat q" "ok_seqs evs = [1 ..< next_nat q]" by simp_all
  have "next_nat q \<le> Suc n"
  proof (rule ccontr)
    assume "\<not> next_nat q \<le> Suc n"
    then have "Suc n \<in> {1 ..< next_nat q}" by simp
    with c have "Suc n \<in> {1..n}" unfolding caught_up_def by blast
    then show False by simp
  qed
  with c p(1) have n: "next_nat q = Suc n" by (auto simp: caught_up_def)
  with c have "bkeys q = {}" by (auto simp: caught_up_def)
  then have "sq_buffer q = []" by (simp add: bkeys_def)
  with n p(2) all_ok_seqs [OF all] show ?thesis by simp
qed

lemma sorted_perm_unique:
  fixes f :: "'a \<Rightarrow> nat"
  assumes "set ys \<subseteq> set xs" and "inj_on f (set xs)" and "distinct xs"
    and "map f ys = map f (sort_key f xs)"
  shows "ys = sort_key f xs"
proof (rule map_inj_on [OF assms(4)])
  show "inj_on f (set ys \<union> set (sort_key f xs))"
    using assms(1,2) by (auto intro: inj_on_subset)
qed

section \<open>Properties\<close>

text \<open>In-order, exactly-once delivery. Whatever the order in which the messages 1 to n of a
  session arrive and however often each is repeated, a processor that succeeds is called for
  1, 2, ..., n once each and in this order; afterwards the queue expects n + 1 and its buffer is
  empty.\<close>

theorem session_in_order:
  assumes "process_items P its (new_queue sid cap now, m, w) = ((q, m', w'), evs)"
    and "always_ok P" and "(unat \<circ> qe_seq) ` set its = {1..n}" and "n < 2 ^ 64 - 1"
  shows "map (\<lambda>(it, _). unat (qe_seq it)) (calls_of evs) = [1 ..< Suc n] \<and>
         sq_buffer q = [] \<and> unat (nextExpectedSeq q) = Suc n"
  by (rule in_order_aux [OF assms])

definition demo_item :: "nat \<Rightarrow> queuedEnvelope" where
  "demo_item n =
     \<lparr>qe_envelope = \<lparr>SeqNum = of_nat n, MsgID = ''M'', Payload = ''x''\<rparr>, qe_done = Some n,
      qe_ctx = Some Background\<rparr>"

text \<open>A processor that answers by the number of calls so far: the n-th call fails if the list
  says so.\<close>

definition demo_processor :: "bool list \<Rightarrow> nat processor" where
  "demo_processor fails =
     \<lparr>proc_kind = EnvelopeProc,
      proc_run = (\<lambda>_ n. (Suc n, if n < length fails \<and> fails ! n then PErr ''failed'' else POk))\<rparr>"

lemma demo_always_ok: "always_ok (demo_processor [])"
  by (simp add: always_ok_def demo_processor_def)

lemma seqs_demo:
  "(unat \<circ> qe_seq) ` set (map demo_item [3, 1, 1, 2]) = {1..3}"
  by (auto simp: demo_item_def)

theorem session_in_order_witness:
  "case process_items (demo_processor []) (map demo_item [3, 1, 1, 2])
          (new_queue ''S1'' 8 0, zero_metrics, 0) of
     ((q, m, w), evs) \<Rightarrow>
       map (\<lambda>(it, _). unat (qe_seq it)) (calls_of evs) = [1 ..< Suc 3] \<and>
       sq_buffer q = [] \<and> unat (nextExpectedSeq q) = Suc 3"
  using session_in_order [of "demo_processor []" "map demo_item [3, 1, 1, 2]" "''S1''" 8 0
      zero_metrics 0, OF _ demo_always_ok seqs_demo]
  by (simp split: prod.splits)

text \<open>Arrival order does not matter: when the numbers of the messages are distinct, the
  processor sees exactly the messages that arrived, sorted by number.\<close>

theorem session_sorts_arrivals:
  assumes "process_items P its (new_queue sid cap now, m, w) = ((q, m', w'), evs)"
    and "always_ok P" and "mset (map (unat \<circ> qe_seq) its) = mset [1 ..< Suc n]" and "n < 2 ^ 64 - 1"
  shows "map fst (calls_of evs) = sort_key (unat \<circ> qe_seq) its"
proof -
  from assms(3) have set: "(unat \<circ> qe_seq) ` set its = {1..n}"
    by (metis atLeastLessThanSuc_atLeastAtMost atLeastLessThan_upt list.set_map set_mset_mset)
  from assms(3) have dist: "distinct (map (unat \<circ> qe_seq) its)"
    by (metis distinct_upt mset_eq_imp_distinct_iff)
  have "sort (map (unat \<circ> qe_seq) its) = map (unat \<circ> qe_seq) (sort_key (unat \<circ> qe_seq) its)"
    by (rule properties_for_sort) (simp_all add: mset_map)
  moreover have "sort (map (unat \<circ> qe_seq) its) = [1 ..< Suc n]"
    by (rule properties_for_sort) (simp_all only: assms(3) sorted_upt)
  ultimately have "map (unat \<circ> qe_seq) (sort_key (unat \<circ> qe_seq) its) = [1 ..< Suc n]" by simp
  moreover have "map (unat \<circ> qe_seq) (map fst (calls_of evs)) = [1 ..< Suc n]"
    using in_order_aux [OF assms(1,2) set assms(4)] by (simp add: comp_def case_prod_beta')
  moreover have "set (map fst (calls_of evs)) \<subseteq> set its"
    using process_items_items [OF assms(1)] by (simp add: new_queue_def)
  ultimately show ?thesis
    using dist by (intro sorted_perm_unique) (auto simp: distinct_map)
qed

theorem session_sorts_arrivals_witness:
  "case process_items (demo_processor []) (map demo_item [2, 3, 1])
          (new_queue ''S1'' 8 0, zero_metrics, 0) of
     (st, evs) \<Rightarrow> map fst (calls_of evs) = sort_key (unat \<circ> qe_seq) (map demo_item [2, 3, 1])"
proof -
  have "mset (map (unat \<circ> qe_seq) (map demo_item [2, 3, 1])) = mset [1 ..< Suc 3]"
  proof -
    have "map (unat \<circ> qe_seq) (map demo_item [2, 3, 1]) = [2, 3, 1]" by (simp add: demo_item_def)
    moreover have "[1 ..< Suc 3] = [1, 2, 3]" by (simp add: upt_rec)
    ultimately show ?thesis by simp
  qed
  from session_sorts_arrivals [of "demo_processor []" "map demo_item [2, 3, 1]" "''S1''" 8 0
      zero_metrics 0, OF _ demo_always_ok this]
  show ?thesis by (simp split: prod.splits)
qed

text \<open>C9. Order under failures. Whatever the processor answers, errors and panics included, and
  whatever arrives, the messages it accepted on a session are 1, 2, ..., next - 1: each once, in
  order, without a gap.\<close>

theorem session_accepts_prefix:
  assumes "process_items P its (new_queue sid cap now, m, w) = ((q, m', w'), evs)"
    and "\<forall>it \<in> set its. seq_small it"
  shows "ok_seqs evs = [1 ..< unat (nextExpectedSeq q)]"
  using process_items_prefix [OF assms(1) buffer_ok_new assms(2)] by simp

theorem session_accepts_prefix_witness:
  "case process_items (demo_processor [False, True, False]) (map demo_item [1, 3, 2, 2])
          (new_queue ''S1'' 8 0, zero_metrics, 0) of
     ((q, m, w), evs) \<Rightarrow> ok_seqs evs = [1 ..< unat (nextExpectedSeq q)]"
  using session_accepts_prefix [of "demo_processor [False, True, False]" "map demo_item [1, 3, 2, 2]"
      "''S1''" 8 0 zero_metrics 0]
  by (auto simp: demo_item_def seq_small_def split: prod.splits)

text \<open>Head-of-line blocking. When the expected message fails and is not sent again, no later
  message of the session is ever given to the processor; each distinct later number stays in the
  buffer, which has no bound and no timeout.\<close>

theorem failed_message_blocks_session:
  assumes "qe_seq it = nextExpectedSeq q"
    and "proc_run P (select_call (proc_kind P) it) w = (w1, PErr e)"
    and "\<forall>it' \<in> set its. nextExpectedSeq q < qe_seq it'"
    and "distinct (map fst (sq_buffer q))"
  shows "case process_items P (it # its) (q, m, w) of
     ((q', m', w'), evs) \<Rightarrow>
       calls_of evs = [(it, PErr e)] \<and> nextExpectedSeq q' = nextExpectedSeq q \<and>
       processFailures m' = processFailures m + 1 \<and>
       length (sq_buffer q') = card (bkeys q \<union> (unat \<circ> qe_seq) ` set its)"
proof -
  let ?m = "m\<lparr>processFailures := processFailures m + 1\<rparr>"
  have "processEnvelope P it (q, m, w) =
      ((q, ?m, w1), EvCall it (PErr e) # finishQueuedEnvelope it (Some (ProcessError e)))"
    using assms(1,2) by (simp add: processEnvelope_def process_loop.simps)
  with process_items_stuck [OF assms(3), of P ?m w1] assms(4) show ?thesis
    by (auto simp: length_buffer)
qed

theorem failed_message_blocks_session_witness:
  "case process_items (demo_processor [True]) (demo_item 1 # map demo_item [2, 3, 4, 3])
          (new_queue ''S1'' 8 0, zero_metrics, 0) of
     ((q', m', w'), evs) \<Rightarrow>
       calls_of evs = [(demo_item 1, PErr ''failed'')] \<and>
       nextExpectedSeq q' = nextExpectedSeq (new_queue ''S1'' 8 0) \<and>
       processFailures m' = processFailures zero_metrics + 1 \<and>
       length (sq_buffer q') =
         card (bkeys (new_queue ''S1'' 8 0) \<union> (unat \<circ> qe_seq) ` set (map demo_item [2, 3, 4, 3]))"
  by (rule failed_message_blocks_session [of "demo_item 1" _ "demo_processor [True]" 0 1])
     (auto simp: demo_item_def demo_processor_def new_queue_def)

end
