(* ===== verification/Session_System.thy ===== *)
theory Session_System
  imports Session_Order
begin

text \<open>
  The session router as a concurrent system: producers, workers, the cleanup and the close as
  steps of \<open>sr_step\<close>. \<open>system_wf\<close> is the invariant of the map and the queues, \<open>dones_ok\<close> the
  conservation of the done channels (each is on its way or answered, at most once), both proved
  step by step; the properties are what every reachable system satisfies, what an answer and a
  confirmed batch mean, and what the idle cleanup does to a session that comes back.
\<close>

section \<open>Well-formed systems\<close>

definition queue_wf :: "nat \<Rightarrow> SessionQueue \<Rightarrow> bool" where
  "queue_wf cap q \<longleftrightarrow>
     sq_closed q = sq_stopped q \<and> chan_ok (sq_queue q) \<and> ch_cap (sq_queue q) = cap \<and>
     (\<not> sq_stopped q \<longrightarrow> sq_running q) \<and> (\<not> sq_running q \<longrightarrow> ch_items (sq_queue q) = [])"

definition router_wf :: "'w SessionRouter \<Rightarrow> bool" where
  "router_wf r \<longleftrightarrow>
     distinct (map fst (sr_sessions r)) \<and>
     (\<forall>(sid, p) \<in> set (sr_sessions r).
        p < length (sr_queues r) \<and> sq_sessionId (sr_queues r ! p) = sid \<and>
        \<not> sq_closed (sr_queues r ! p)) \<and>
     (\<forall>q \<in> set (sr_queues r). queue_wf (sr_queueSize r) q)"

definition system_wf :: "'w sr_system \<Rightarrow> bool" where
  "system_wf s \<longleftrightarrow>
     router_wf (router s) \<and>
     (\<forall>(p, it, sid) \<in> set (pending s).
        p < length (sr_queues (router s)) \<and> sq_sessionId (sr_queues (router s) ! p) = sid) \<and>
     (\<forall>sid p. marked s = Some (sid, p) \<longrightarrow> (sid, p) \<in> set (sr_sessions (router s)))"

text \<open>A worker changes only its queue's counter, buffer, channel and running flag.\<close>

definition same_shell :: "SessionQueue \<Rightarrow> SessionQueue \<Rightarrow> bool" where
  "same_shell q q' \<longleftrightarrow>
     sq_sessionId q' = sq_sessionId q \<and> sq_queue q' = sq_queue q \<and> sq_stopped q' = sq_stopped q \<and>
     sq_closed q' = sq_closed q \<and> sq_running q' = sq_running q"

lemma process_loop_keeps:
  "process_loop P it (q, m, w) = ((q', m', w'), evs) \<Longrightarrow> same_shell q q'"
proof (induction P it "(q, m, w)" arbitrary: q m w q' m' w' evs rule: process_loop.induct)
  case (1 P it q m w)
  let ?n = "nextExpectedSeq q + 1"
  obtain w1 out where run: "proc_run P (select_call (proc_kind P) it) w = (w1, out)" by fastforce
  show ?case
  proof (cases "out = POk \<and> map_of (sq_buffer q) ?n \<noteq> None")
    case False
    with 1(2) run show ?thesis
      by (cases out; cases "map_of (sq_buffer q) ?n")
         (auto simp: process_loop.simps [of P it] Let_def same_shell_def)
  next
    case True
    then obtain nxt where Some: "map_of (sq_buffer q) ?n = Some nxt" and out: "out = POk" by auto
    let ?q = "q\<lparr>nextExpectedSeq := ?n, sq_buffer := AList.delete ?n (sq_buffer q)\<rparr>"
    obtain evs' where rec: "process_loop P nxt (?q, m, w1) = ((q', m', w'), evs')"
      using 1(2) run Some out by (auto simp: process_loop.simps [of P it] Let_def split: prod.splits)
    from 1(1) [OF run [symmetric] out refl refl refl Some] rec have "same_shell ?q q'" by simp
    then show ?thesis by (simp add: same_shell_def)
  qed
qed

lemma processEnvelope_keeps:
  "processEnvelope P it (q, m, w) = ((q', m', w'), evs) \<Longrightarrow> same_shell q q'"
  by (cases rule: word_seq_cases [of q it])
     (auto simp: processEnvelope_def same_shell_def [of q] same_shell_def [of q'] dest: process_loop_keeps)

lemma process_items_keeps:
  "process_items P its (q, m, w) = ((q', m', w'), evs) \<Longrightarrow> same_shell q q'"
proof (induction its arbitrary: q m w evs)
  case (Cons it its)
  obtain q1 m1 w1 e1 where 1: "processEnvelope P it (q, m, w) = ((q1, m1, w1), e1)"
    by (metis prod.collapse)
  obtain e2 where 2: "process_items P its (q1, m1, w1) = ((q', m', w'), e2)"
    using Cons.prems(1) 1 by (auto simp: Let_def split: prod.splits)
  from processEnvelope_keeps [OF 1] Cons.IH [OF 2] show ?case by (simp add: same_shell_def)
qed (simp add: same_shell_def)

lemma worker_keeps:
  assumes "processSessionQueue P b (q, m, w) = Some ((q', m', w'), evs)" and "queue_wf cap q"
  shows "queue_wf cap q' \<and> sq_sessionId q' = sq_sessionId q \<and> sq_closed q' = sq_closed q"
proof (cases b)
  case RecvBranch
  then obtain it c where recv: "try_recv (sq_queue q) = Some (it, c)" and run: "sq_running q"
    and env: "processEnvelope P it (q\<lparr>sq_queue := c\<rparr>, m, w) = ((q', m', w'), evs)"
    using assms(1) by (auto simp: processSessionQueue_def split: if_splits option.splits)
  from processEnvelope_keeps [OF env] assms(2) run show ?thesis
    using try_recv_ok [OF _ recv] try_recv_cap [OF recv] by (auto simp: queue_wf_def same_shell_def)
next
  case StopBranch
  let ?q = "q\<lparr>sq_queue := (sq_queue q)\<lparr>ch_items := []\<rparr>\<rparr>"
  from StopBranch assms(1) obtain q1 where stop: "sq_stopped q"
    and its: "process_items P (ch_items (sq_queue q)) (?q, m, w) = ((q1, m', w'), evs)"
    and q': "q' = q1\<lparr>sq_running := False\<rparr>"
    by (auto simp: processSessionQueue_def drainSessionQueue_def split: if_splits prod.splits)
  from process_items_keeps [OF its] assms(2) stop q' show ?thesis
    by (auto simp: queue_wf_def chan_ok_def same_shell_def)
qed

lemma nth_update_cases: "p < length xs \<Longrightarrow> (xs[p := x]) ! i = (if i = p then x else xs ! i)"
  by auto

lemma queue_wf_new: "queue_wf cap (new_queue sid cap now)"
  by (simp add: queue_wf_def new_queue_def chan_ok_def)

lemma router_wf_create:
  assumes "router_wf r" and "map_of (sr_sessions r) sid = None"
  shows "router_wf (r\<lparr>sr_queues := sr_queues r @ [new_queue sid (sr_queueSize r) now],
           sr_sessions := AList.update sid (length (sr_queues r)) (sr_sessions r)\<rparr>)"
proof -
  have "set (AList.update sid (length (sr_queues r)) (sr_sessions r)) \<subseteq>
      insert (sid, length (sr_queues r)) (set (sr_sessions r))"
    by (rule set_update_subset)
  moreover have "sq_sessionId (new_queue sid (sr_queueSize r) now) = sid"
    "\<not> sq_closed (new_queue sid (sr_queueSize r) now)"
    by (simp_all add: new_queue_def)
  ultimately show ?thesis
    using assms unfolding router_wf_def
    by (fastforce simp: nth_append queue_wf_new split: if_splits)
qed

lemma enqueue_select_cases:
  assumes "enqueue_select now expired b p it sid r = Some (res, r')"
  obtains (sent) c where "try_send (sq_queue (sr_queues r ! p)) it = Some c"
      "\<not> sq_closed (sr_queues r ! p)" "res = None"
      "r' = r\<lparr>sr_queues := (sr_queues r)[p := (sr_queues r ! p)\<lparr>sq_queue := c, sq_lastActive := now\<rparr>]\<rparr>"
  | (refused) e where "res = Some e" "r' = r"
  | (expired) e where "res = Some e" "r' = count_timeout r"
proof (cases "sq_closed (sr_queues r ! p)")
  case True
  with assms that(2) show ?thesis by (auto simp: enqueue_select_def Let_def)
next
  case False
  show ?thesis
  proof (cases b)
    case SendBranch
    then obtain c where "try_send (sq_queue (sr_queues r ! p)) it = Some c"
      using assms False by (cases "try_send (sq_queue (sr_queues r ! p)) it") (simp_all add: enqueue_select_def)
    with SendBranch False assms show ?thesis by (intro sent) (auto simp: enqueue_select_def)
  next
    case StoppingBranch
    with assms that(2) False show ?thesis by (auto simp: enqueue_select_def Let_def split: if_splits)
  next
    case CtxBranch
    with assms that(3) [of "EnqueueTimeout sid"] False show ?thesis
      by (auto simp: enqueue_select_def Let_def count_timeout_def split: if_splits)
  qed
qed

lemma system_wf_update:
  assumes wf: "system_wf s" and p: "p < length (sr_queues (router s))"
    and q: "queue_wf (sr_queueSize (router s)) q" "sq_sessionId q = sq_sessionId (sr_queues (router s) ! p)"
      "sq_closed q = sq_closed (sr_queues (router s) ! p)"
    and r: "sr_queues r = (sr_queues (router s))[p := q]" "sr_sessions r = sr_sessions (router s)"
      "sr_queueSize r = sr_queueSize (router s)"
    and ps: "set ps \<subseteq> set (pending s)"
  shows "system_wf (s\<lparr>router := r, pending := ps\<rparr>)"
proof -
  have keep: "sq_sessionId ((sr_queues (router s))[p := q] ! i) = sq_sessionId (sr_queues (router s) ! i)"
    "sq_closed ((sr_queues (router s))[p := q] ! i) = sq_closed (sr_queues (router s) ! i)" for i
    using p q by (auto simp: nth_list_update)
  have "\<forall>q' \<in> set (sr_queues r). queue_wf (sr_queueSize (router s)) q'"
    using wf q(1) r(1) by (auto simp: system_wf_def router_wf_def dest!: set_update_subset_insert [THEN subsetD])
  with wf have "router_wf r" by (simp add: system_wf_def router_wf_def keep r)
  with wf ps show ?thesis
    by (fastforce simp: system_wf_def keep r)
qed

lemma stop_all_wf:
  assumes "\<forall>(sid, p) \<in> set ss. p < length qs" and "\<forall>q \<in> set qs. queue_wf n q"
  shows "length (foldl (\<lambda>qs (sid, p). qs[p := stopSessionQueue (qs ! p)]) qs ss) = length qs \<and>
    (\<forall>i. sq_sessionId (foldl (\<lambda>qs (sid, p). qs[p := stopSessionQueue (qs ! p)]) qs ss ! i) = sq_sessionId (qs ! i)) \<and>
    (\<forall>q \<in> set (foldl (\<lambda>qs (sid, p). qs[p := stopSessionQueue (qs ! p)]) qs ss). queue_wf n q)"
  using assms
proof (induction ss arbitrary: qs)
  case (Cons a ss)
  obtain sid p where a: "a = (sid, p)" by fastforce
  let ?qs = "qs[p := stopSessionQueue (qs ! p)]"
  have p: "p < length qs" using Cons.prems(1) a by simp
  have "queue_wf n (stopSessionQueue (qs ! p))"
    using Cons.prems(2) p by (auto simp: queue_wf_def stopSessionQueue_def)
  with Cons.prems(2) have "\<forall>q \<in> set ?qs. queue_wf n q"
    by (auto dest!: set_update_subset_insert [THEN subsetD])
  moreover have "sq_sessionId (?qs ! i) = sq_sessionId (qs ! i)" for i
    using p by (auto simp: nth_list_update stopSessionQueue_def)
  ultimately show ?case using Cons.IH [of ?qs] Cons.prems(1) a by simp
qed simp

lemma system_wf_step: "sr_step P s s' \<Longrightarrow> system_wf s \<Longrightarrow> system_wf s'"
proof (induction rule: sr_step.induct)
  case (step_lookup s d wait data ctx it sid now p r')
  let ?r = "if wait then snd (fresh_done (router s)) else router s"
  have r: "router_wf ?r" "sr_queues ?r = sr_queues (router s)" "sr_sessions ?r = sr_sessions (router s)"
    using step_lookup(5) by (auto simp: system_wf_def router_wf_def fresh_done_def)
  show ?case
  proof (cases "map_of (sr_sessions ?r) sid")
    case (Some p')
    then have "(sid, p') \<in> set (sr_sessions ?r)" by (rule map_of_SomeD)
    with Some step_lookup r show ?thesis
      by (auto simp: getOrCreateSessionQueue_def system_wf_def router_wf_def)
  next
    case None
    let ?q = "new_queue sid (sr_queueSize ?r) now" and ?p = "length (sr_queues ?r)"
    from None step_lookup(4) have p: "p = ?p" and r': "r' = ?r\<lparr>sr_queues := sr_queues ?r @ [?q],
        sr_sessions := AList.update sid ?p (sr_sessions ?r)\<rparr>"
      by (auto simp: getOrCreateSessionQueue_def Let_def)
    have "router_wf r'" unfolding r' by (rule router_wf_create [OF r(1) None])
    moreover have "sq_sessionId ?q = sid" by (simp add: new_queue_def)
    moreover have "sr_queues r' = sr_queues (router s) @ [?q]" using r' r(2) by simp
    ultimately show ?thesis
      using step_lookup(1,5) p r(2) by (auto simp: system_wf_def nth_append)
  qed
next
  case (step_select s xs p it sid ys now expired b res r')
  then have p: "p < length (sr_queues (router s))" and wf: "router_wf (router s)"
    by (auto simp: system_wf_def)
  then have q: "queue_wf (sr_queueSize (router s)) (sr_queues (router s) ! p)" by (simp add: router_wf_def)
  from step_select(2) show ?case
  proof (cases rule: enqueue_select_cases)
    case (sent c)
    have "queue_wf (sr_queueSize (router s)) ((sr_queues (router s) ! p)\<lparr>sq_queue := c, sq_lastActive := now\<rparr>)"
      using q sent try_send_ok [OF _ sent(1)] try_send_cap [OF sent(1)] by (simp add: queue_wf_def)
    from system_wf_update [OF step_select(3) p this, of r' "xs @ ys"] sent(4) step_select(1)
    show ?thesis by auto
  next
    case (refused e)
    with step_select(1,3) show ?thesis by (auto simp: system_wf_def)
  next
    case (expired e)
    with step_select(1,3) show ?thesis by (auto simp: system_wf_def router_wf_def count_timeout_def)
  qed
next
  case (step_worker b p s r')
  then obtain q' m' w' evs where p: "p < length (sr_queues (router s))"
    and run: "processSessionQueue P b (sr_queues (router s) ! p, sr_metrics (router s), sr_world (router s)) =
        Some ((q', m', w'), evs)"
    and r': "r' = (router s)\<lparr>sr_queues := (sr_queues (router s))[p := q'], sr_metrics := m', sr_world := w',
                        sr_trace := sr_trace (router s) @ map (Pair p) evs\<rparr>"
    by (auto simp: run_worker_def split: if_splits option.splits)
  have "queue_wf (sr_queueSize (router s)) (sr_queues (router s) ! p)"
    using p step_worker(2) by (auto simp: system_wf_def router_wf_def)
  from worker_keeps [OF run this] system_wf_update [OF step_worker(2) p, of q' r' "pending s"] r'
  show ?case by simp
next
  case (step_mark s sid p now)
  then show ?case by (auto simp: system_wf_def)
next
  case (step_cleanup s sid p)
  then have mem: "(sid, p) \<in> set (sr_sessions (router s))" and wf: "router_wf (router s)"
    by (auto simp: system_wf_def)
  then have p: "p < length (sr_queues (router s))" "sq_sessionId (sr_queues (router s) ! p) = sid"
    by (auto simp: router_wf_def)
  have "queue_wf (sr_queueSize (router s)) (stopSessionQueue (sr_queues (router s) ! p))"
    "sq_sessionId (stopSessionQueue (sr_queues (router s) ! p)) = sid"
    using wf p by (auto simp: router_wf_def queue_wf_def stopSessionQueue_def)
  with step_cleanup p show ?case
    by (auto simp: system_wf_def router_wf_def stop_and_forget_def nth_update_cases AList.delete_eq distinct_map_filter
        dest!: set_update_subset_insert [THEN subsetD])
next
  case (step_close s)
  let ?qs = "foldl (\<lambda>qs (sid, p). qs[p := stopSessionQueue (qs ! p)])
                (sr_queues (router s)) (sr_sessions (router s))"
  have "\<forall>(sid, p) \<in> set (sr_sessions (router s)). p < length (sr_queues (router s))"
    and "\<forall>q \<in> set (sr_queues (router s)). queue_wf (sr_queueSize (router s)) q"
    using step_close(2) by (auto simp: system_wf_def router_wf_def)
  from stop_all_wf [OF this] have qs: "length ?qs = length (sr_queues (router s))"
    "\<And>i. sq_sessionId (?qs ! i) = sq_sessionId (sr_queues (router s) ! i)"
    "\<forall>q \<in> set ?qs. queue_wf (sr_queueSize (router s)) q" by blast+
  show ?case
  proof (cases "sr_stopCleanup (router s)")
    case True
    with step_close show ?thesis by (simp add: close_router_def)
  next
    case False
    then have "close_router (router s) =
        (router s)\<lparr>sr_stopCleanup := True, sr_queues := ?qs, sr_sessions := []\<rparr>"
      by (simp add: close_router_def)
    moreover have "router_wf \<dots>" using qs by (simp add: router_wf_def)
    ultimately show ?thesis using step_close qs by (fastforce simp: system_wf_def)
  qed
qed


lemma system_wf_initial: "system_wf (sr_initial n m w)"
  by (simp add: system_wf_def router_wf_def sr_initial_def NewSessionRouter_def)

lemma system_wf_reachable: "(sr_step P)\<^sup>*\<^sup>* (sr_initial n m w) s \<Longrightarrow> system_wf s"
  by (induction rule: rtranclp_induct) (auto simp: system_wf_initial intro: system_wf_step)

section \<open>Answers on the done channels\<close>

definition done_count :: "nat \<Rightarrow> queuedEnvelope list \<Rightarrow> nat" where
  "done_count d its = length (filter (\<lambda>it. qe_done it = Some d) its)"

definition ack_count :: "nat \<Rightarrow> sr_event list \<Rightarrow> nat" where
  "ack_count d evs = length (filter (\<lambda>(d', _). d' = d) (acks_of evs))"

definition queue_dones :: "nat \<Rightarrow> SessionQueue \<Rightarrow> nat" where
  "queue_dones d q = done_count d (ch_items (sq_queue q)) + done_count d (map snd (sq_buffer q))"

definition total_dones :: "nat \<Rightarrow> 'w sr_system \<Rightarrow> nat" where
  "total_dones d s =
     done_count d (map (\<lambda>(p, it, sid). it) (pending s)) +
     sum_list (map (queue_dones d) (sr_queues (router s))) +
     ack_count d (map snd (sr_trace (router s)))"

lemma done_count_simps [simp]:
  "done_count d [] = 0"
  "done_count d (it # its) = (if qe_done it = Some d then 1 else 0) + done_count d its"
  "done_count d (xs @ ys) = done_count d xs + done_count d ys"
  by (simp_all add: done_count_def)

lemma ack_count_simps [simp]:
  "ack_count d [] = 0"
  "ack_count d (EvCall it out # evs) = ack_count d evs"
  "ack_count d (EvAck d' e # evs) = (if d' = d then 1 else 0) + ack_count d evs"
  "ack_count d (xs @ ys) = ack_count d xs + ack_count d ys"
  "ack_count d (finishQueuedEnvelope it e) = (if qe_done it = Some d then 1 else 0)"
  by (auto simp: ack_count_def finishQueuedEnvelope_def split: option.splits)

lemma done_count_update:
  "done_count d (map snd (AList.update k it m)) \<le>
   done_count d (map snd m) + (if qe_done it = Some d then 1 else 0)"
  by (induction m) auto

lemma done_count_filter: "done_count d (map snd (filter P m)) \<le> done_count d (map snd m)"
  by (induction m) auto

lemma done_count_delete:
  "map_of m k = Some it \<Longrightarrow>
   done_count d (map snd (AList.delete k m)) + (if qe_done it = Some d then 1 else 0) \<le>
   done_count d (map snd m)"
  by (induction m) (auto simp: AList.delete_eq split: if_splits intro: le_SucI done_count_filter)

lemma process_loop_dones:
  "process_loop P it (q, m, w) = ((q', m', w'), evs) \<Longrightarrow>
   ack_count d evs + done_count d (map snd (sq_buffer q')) \<le>
   (if qe_done it = Some d then 1 else 0) + done_count d (map snd (sq_buffer q))"
proof (induction P it "(q, m, w)" arbitrary: q m w q' m' w' evs rule: process_loop.induct)
  case (1 P it q m w)
  let ?n = "nextExpectedSeq q + 1"
  obtain w1 out where run: "proc_run P (select_call (proc_kind P) it) w = (w1, out)" by fastforce
  show ?case
  proof (cases "out = POk \<and> map_of (sq_buffer q) ?n \<noteq> None")
    case False
    with 1(2) run show ?thesis
      by (cases out; cases "map_of (sq_buffer q) ?n")
         (auto simp: process_loop.simps [of P it] Let_def)
  next
    case True
    then obtain nxt where Some: "map_of (sq_buffer q) ?n = Some nxt" and out: "out = POk" by auto
    let ?q = "q\<lparr>nextExpectedSeq := ?n, sq_buffer := AList.delete ?n (sq_buffer q)\<rparr>"
    obtain evs' where rec: "process_loop P nxt (?q, m, w1) = ((q', m', w'), evs')"
      and evs: "evs = (EvCall it POk # finishQueuedEnvelope it None) @ evs'"
      using 1(2) run Some out by (auto simp: process_loop.simps [of P it] Let_def split: prod.splits)
    have "ack_count d evs' + done_count d (map snd (sq_buffer q')) \<le>
        (if qe_done nxt = Some d then 1 else 0) + done_count d (map snd (sq_buffer ?q))"
      using 1(1) [OF run [symmetric] out refl refl refl Some] rec by simp
    with done_count_delete [OF Some, of d] evs show ?thesis by auto
  qed
qed

lemma processEnvelope_dones:
  assumes "processEnvelope P it (q, m, w) = ((q', m', w'), evs)"
  shows "ack_count d evs + done_count d (map snd (sq_buffer q')) \<le>
   (if qe_done it = Some d then 1 else 0) + done_count d (map snd (sq_buffer q))"
proof (cases rule: word_seq_cases [of q it])
  case 1
  with assms done_count_update [of d "qe_seq it" it "sq_buffer q"] show ?thesis
    by (auto simp: processEnvelope_def)
next
  case 2
  with assms show ?thesis by (auto simp: processEnvelope_def)
next
  case 3
  with assms have "process_loop P it (q, m, w) = ((q', m', w'), evs)" by (simp add: processEnvelope_def)
  then show ?thesis by (rule process_loop_dones)
qed

lemma process_items_dones:
  "process_items P its (q, m, w) = ((q', m', w'), evs) \<Longrightarrow>
   ack_count d evs + done_count d (map snd (sq_buffer q')) \<le>
   done_count d its + done_count d (map snd (sq_buffer q))"
proof (induction its arbitrary: q m w evs)
  case (Cons it its)
  obtain q1 m1 w1 e1 where 1: "processEnvelope P it (q, m, w) = ((q1, m1, w1), e1)"
    by (metis prod.collapse)
  obtain e2 where 2: "process_items P its (q1, m1, w1) = ((q', m', w'), e2)" and "evs = e1 @ e2"
    using Cons.prems(1) 1 by (auto simp: Let_def split: prod.splits)
  with processEnvelope_dones [OF 1, of d] Cons.IH [OF 2] show ?case by simp
qed simp

lemma worker_dones:
  assumes "processSessionQueue P b (q, m, w) = Some ((q', m', w'), evs)"
  shows "ack_count d evs + queue_dones d q' \<le> queue_dones d q"
proof (cases b)
  case RecvBranch
  then obtain it c where recv: "try_recv (sq_queue q) = Some (it, c)"
    and env: "processEnvelope P it (q\<lparr>sq_queue := c\<rparr>, m, w) = ((q', m', w'), evs)"
    using assms(1) by (auto simp: processSessionQueue_def split: if_splits option.splits)
  have "ch_items (sq_queue q) = it # ch_items c" using chq.recv_contents [OF recv] by simp
  moreover have "sq_queue q' = c" using processEnvelope_keeps [OF env] by (simp add: same_shell_def)
  ultimately show ?thesis using processEnvelope_dones [OF env, of d] by (simp add: queue_dones_def)
next
  case StopBranch
  let ?q = "q\<lparr>sq_queue := (sq_queue q)\<lparr>ch_items := []\<rparr>\<rparr>"
  from StopBranch assms(1) obtain q1 where
    its: "process_items P (ch_items (sq_queue q)) (?q, m, w) = ((q1, m', w'), evs)"
    and q': "q' = q1\<lparr>sq_running := False\<rparr>"
    by (auto simp: processSessionQueue_def drainSessionQueue_def split: if_splits prod.splits)
  have "sq_queue q1 = (sq_queue q)\<lparr>ch_items := []\<rparr>"
    using process_items_keeps [OF its] by (simp add: same_shell_def)
  with process_items_dones [OF its, of d] q' show ?thesis by (simp add: queue_dones_def)
qed

text \<open>The invariant: a channel that has been handed out occurs once in the system, on its way or
  answered; the others do not occur.\<close>

definition dones_ok :: "'w sr_system \<Rightarrow> bool" where
  "dones_ok s \<longleftrightarrow> (\<forall>d. total_dones d s \<le> (if d < sr_nextDone (router s) then 1 else 0))"

lemma sum_queues_update:
  "p < length qs \<Longrightarrow>
   sum_list (map f (qs[p := q])) + f (qs ! p) = sum_list (map f qs) + (f q :: nat)"
  by (induction qs arbitrary: p) (auto split: nat.splits simp: nth_Cons)

lemma parse_done: "parseQueuedEnvelope data d ctx = Inr (it, sid) \<Longrightarrow> qe_done it = d"
  by (auto simp: parseQueuedEnvelope_def split: prod.splits if_splits)

lemma create_dones:
  "getOrCreateSessionQueue now sid r = (p, r') \<Longrightarrow>
   sum_list (map (queue_dones d) (sr_queues r')) = sum_list (map (queue_dones d) (sr_queues r)) \<and>
   sr_trace r' = sr_trace r \<and> sr_nextDone r' = sr_nextDone r"
  by (auto simp: getOrCreateSessionQueue_def new_queue_def queue_dones_def Let_def split: option.splits)

lemma stop_dones: "queue_dones d (stopSessionQueue q) = queue_dones d q"
  by (simp add: queue_dones_def stopSessionQueue_def)

lemma map_update_same: "f q = f (qs ! p) \<Longrightarrow> map f (qs[p := q]) = map f qs"
  by (metis list_update_id map_update)

lemma stop_all_dones:
  "map (queue_dones d) (foldl (\<lambda>qs (sid, p). qs[p := stopSessionQueue (qs ! p)]) qs ss) =
   map (queue_dones d) qs"
  by (induction ss arbitrary: qs) (auto simp: map_update_same stop_dones)

lemma dones_ok_mono:
  assumes "dones_ok s" and "\<And>k. total_dones k s' \<le> total_dones k s"
    and "sr_nextDone (router s') = sr_nextDone (router s)"
  shows "dones_ok s'"
  using assms(1) unfolding dones_ok_def assms(3) by (blast intro: order_trans [OF assms(2)])

lemma dones_ok_step: "sr_step P s s' \<Longrightarrow> system_wf s \<Longrightarrow> dones_ok s \<Longrightarrow> dones_ok s'"
proof (induction rule: sr_step.induct)
  case (step_lookup s d wait data ctx it sid now p r')
  have "sum_list (map (queue_dones k) (sr_queues r')) = sum_list (map (queue_dones k) (sr_queues (router s)))"
    "sr_trace r' = sr_trace (router s)"
    "sr_nextDone r' = sr_nextDone (router s) + (if wait then 1 else 0)" for k
    using create_dones [OF step_lookup(4)] by (auto simp: fresh_done_def)
  then have tot: "total_dones k (s\<lparr>router := r', pending := pending s @ [(p, it, sid)]\<rparr>) =
      total_dones k s + (if d = Some k then 1 else 0)" for k
    using parse_done [OF step_lookup(3)] by (simp add: total_dones_def)
  have le: "total_dones k s \<le> (if k < sr_nextDone (router s) then 1 else 0)" for k
    using step_lookup(6) by (auto simp: dones_ok_def)
  have n: "sr_nextDone r' = sr_nextDone (router s) + (if wait then 1 else 0)"
    using create_dones [OF step_lookup(4)] by (auto simp: fresh_done_def)
  have "total_dones k (s\<lparr>router := r', pending := pending s @ [(p, it, sid)]\<rparr>) \<le>
      (if k < sr_nextDone r' then 1 else 0)" for k
    using tot [of k] le [of k] n step_lookup(2) by (auto split: if_splits)
  then show ?case by (simp add: dones_ok_def)
next
  case (step_select s xs p it sid ys now expired b res r')
  have p: "p < length (sr_queues (router s))"
    using step_select(1,3) by (auto simp: system_wf_def)
  from step_select(2) show ?case
  proof (cases rule: enqueue_select_cases)
    case (sent c)
    let ?q = "(sr_queues (router s) ! p)\<lparr>sq_queue := c, sq_lastActive := now\<rparr>"
    have q: "queue_dones k ?q = queue_dones k (sr_queues (router s) ! p) + done_count k [it]" for k
      using chq.send_contents [OF sent(1)] by (simp add: queue_dones_def)
    have upd: "sr_queues r' = (sr_queues (router s))[p := ?q]" using sent(4) by simp
    have "sum_list (map (queue_dones k) (sr_queues r')) =
       sum_list (map (queue_dones k) (sr_queues (router s))) + done_count k [it]" for k
      unfolding upd using sum_queues_update [OF p, of "queue_dones k" ?q] q [of k] by linarith
    then have "total_dones k (s\<lparr>router := r', pending := xs @ ys\<rparr>) = total_dones k s" for k
      using sent(4) step_select(1) by (simp add: total_dones_def)
    with step_select(4) sent(4) show ?thesis by (simp add: dones_ok_def)
  next
    case (refused e)
    have "total_dones k (s\<lparr>router := r', pending := xs @ ys\<rparr>) \<le> total_dones k s" for k
      using refused step_select(1) by (simp add: total_dones_def)
    from dones_ok_mono [OF step_select(4) this] refused show ?thesis by simp
  next
    case (expired e)
    have "total_dones k (s\<lparr>router := r', pending := xs @ ys\<rparr>) \<le> total_dones k s" for k
      using expired step_select(1) by (simp add: total_dones_def count_timeout_def)
    from dones_ok_mono [OF step_select(4) this] expired show ?thesis by (simp add: count_timeout_def)
  qed
next
  case (step_worker b p s r')
  then obtain q' m' w' evs where p: "p < length (sr_queues (router s))"
    and run: "processSessionQueue P b (sr_queues (router s) ! p, sr_metrics (router s), sr_world (router s)) =
        Some ((q', m', w'), evs)"
    and r': "r' = (router s)\<lparr>sr_queues := (sr_queues (router s))[p := q'], sr_metrics := m', sr_world := w',
                        sr_trace := sr_trace (router s) @ map (Pair p) evs\<rparr>"
    by (auto simp: run_worker_def split: if_splits option.splits)
  have "total_dones k (s\<lparr>router := r'\<rparr>) \<le> total_dones k s" for k
    using worker_dones [OF run, of k] sum_queues_update [OF p, of "queue_dones k" q'] r'
    by (simp add: total_dones_def comp_def)
  from dones_ok_mono [OF step_worker(3) this] r' show ?case by simp
next
  case (step_mark s sid p now)
  then show ?case by (simp add: dones_ok_def total_dones_def)
next
  case (step_cleanup s sid p)
  then show ?case
    by (simp add: dones_ok_def total_dones_def stop_and_forget_def map_update_same stop_dones)
next
  case (step_close s)
  then show ?case
    by (simp add: dones_ok_def total_dones_def close_router_def stop_all_dones)
qed

lemma dones_ok_reachable: "(sr_step P)\<^sup>*\<^sup>* (sr_initial n m w) s \<Longrightarrow> dones_ok s"
proof (induction rule: rtranclp_induct)
  case base
  then show ?case
    by (simp add: dones_ok_def total_dones_def sr_initial_def NewSessionRouter_def)
next
  case (step y z)
  show ?case by (rule dones_ok_step [OF step(2) system_wf_reachable [OF step(1)] step(3)])
qed


section \<open>Requests and answers\<close>

lemma parse_encoded:
  "decode_session_id (Payload e) = (sid, False) \<Longrightarrow> sid \<noteq> [] \<Longrightarrow>
   parseQueuedEnvelope (encode_envelope e) d ctx =
     Inr (\<lparr>qe_envelope = e, qe_done = d, qe_ctx = Some ctx\<rparr>, sid)"
  by (simp add: parseQueuedEnvelope_def envelope_roundtrip)

definition demo_payload :: bytes where
  "demo_payload = json_print (JObj [(''session_id'', JStr ''S1'')])"

definition demo_envelope :: "nat \<Rightarrow> MessageEnvelope" where
  "demo_envelope n = \<lparr>SeqNum = of_nat n, MsgID = ''M1'', Payload = demo_payload\<rparr>"

lemma demo_session: "decode_session_id (Payload (demo_envelope n)) = (''S1'', False)"
proof -
  have "json_ok (JObj [(''session_id'', JStr ''S1'')])" by simp
  then show ?thesis
    unfolding demo_envelope_def demo_payload_def decode_session_id_def MessageEnvelope.select_convs
      unmarshal_print [OF \<open>json_ok _\<close>]
    by (simp add: find_field_def)
qed

text \<open>A producer that waits, up to the answer: the steps of a run used in the witnesses.\<close>

definition demo_enqueued :: "nat \<Rightarrow> queuedEnvelope \<Rightarrow> nat sr_system" where
  "demo_enqueued cap it =
     \<lparr>router = (snd (fresh_done (NewSessionRouter cap zero_metrics 0)))
        \<lparr>sr_queues := [(new_queue ''S1'' cap 0)\<lparr>sq_queue := \<lparr>ch_items = [it], ch_cap = cap\<rparr>\<rparr>],
         sr_sessions := [(''S1'', 0)]\<rparr>,
      pending = [], marked = None\<rparr>"

lemma demo_run:
  assumes "0 < cap" and it: "it = \<lparr>qe_envelope = demo_envelope n, qe_done = Some 0, qe_ctx = Some Background\<rparr>"
  shows "(sr_step P)\<^sup>*\<^sup>* (sr_initial cap zero_metrics 0) (demo_enqueued cap it)"
proof -
  let ?s0 = "sr_initial cap zero_metrics (0 :: nat)"
  let ?r1 = "(snd (fresh_done (router ?s0)))
     \<lparr>sr_queues := [new_queue ''S1'' cap 0], sr_sessions := [(''S1'', 0)]\<rparr>"
  let ?s1 = "?s0\<lparr>router := ?r1, pending := pending ?s0 @ [(0, it, ''S1'')]\<rparr>"
  have "sr_step P ?s0 ?s1"
  proof (rule step_lookup [where wait = True and now = 0])
    show "parseQueuedEnvelope (encode_envelope (demo_envelope n)) (Some 0) Background = Inr (it, ''S1'')"
      unfolding it by (rule parse_encoded [OF demo_session]) simp
  qed (simp_all add: sr_initial_def NewSessionRouter_def fresh_done_def getOrCreateSessionQueue_def)
  moreover have "sr_step P ?s1 (demo_enqueued cap it)"
  proof -
    let ?r2 = "router (demo_enqueued cap it)"
    have "enqueue_select 0 False SendBranch 0 it ''S1'' (router ?s1) = Some (None, ?r2)"
      using assms(1) by (simp add: enqueue_select_def try_send_def demo_enqueued_def new_queue_def
          make_chan_def sr_initial_def NewSessionRouter_def fresh_done_def)
    then have "sr_step P ?s1 (?s1\<lparr>router := ?r2, pending := [] @ []\<rparr>)"
      by (intro step_select) (auto simp: sr_initial_def)
    then show ?thesis by (simp add: demo_enqueued_def sr_initial_def)
  qed
  ultimately show ?thesis
    by (rule converse_rtranclp_into_rtranclp [OF _ r_into_rtranclp])
qed

section \<open>Properties\<close>

text \<open>C11. Answers. In every reachable system, whatever the interleaving of producers, workers,
  cleanup and close, at most one value is ever sent on a message's done channel, so a worker
  never blocks on the channel's single slot.\<close>

theorem done_answered_at_most_once:
  assumes "(sr_step P)\<^sup>*\<^sup>* (sr_initial queueSize m w) s"
  shows "ack_count d (map snd (sr_trace (router s))) \<le> 1"
proof -
  have "total_dones d s \<le> 1" using dones_ok_reachable [OF assms] by (auto simp: dones_ok_def split: if_splits)
  then show ?thesis by (simp add: total_dones_def)
qed

theorem done_answered_at_most_once_witness:
  "let it = \<lparr>qe_envelope = demo_envelope 1, qe_done = Some 0, qe_ctx = Some Background\<rparr>;
       s = demo_enqueued 4 it
   in ch_items (sq_queue (sr_queues (router s) ! 0)) = [it] \<and>
      ack_count 0 (map snd (sr_trace (router s))) \<le> 1"
  using done_answered_at_most_once [OF demo_run [of 4 _ 1 "demo_processor []", OF _ refl], of 0]
  by (simp add: Let_def demo_enqueued_def)

text \<open>C10. Well-formed routing. In every reachable system each session of the map has one queue of
  its own that is open, with a running worker and a channel within its capacity; every producer
  in flight and the cleanup hold a queue of the session they mean.\<close>

theorem reachable_system_wf:
  assumes "(sr_step P)\<^sup>*\<^sup>* (sr_initial queueSize m w) s"
  shows "system_wf s \<and>
    (\<forall>sid p. map_of (sr_sessions (router s)) sid = Some p \<longrightarrow>
       sq_running (sr_queues (router s) ! p) \<and> \<not> sq_stopped (sr_queues (router s) ! p))"
proof -
  note wf = system_wf_reachable [OF assms]
  have "sq_running (sr_queues (router s) ! p) \<and> \<not> sq_stopped (sr_queues (router s) ! p)"
    if "map_of (sr_sessions (router s)) sid = Some p" for sid p
  proof -
    have "(sid, p) \<in> set (sr_sessions (router s))" using that by (rule map_of_SomeD)
    with wf have "p < length (sr_queues (router s))" "\<not> sq_closed (sr_queues (router s) ! p)"
      by (auto simp: system_wf_def router_wf_def)
    with wf show ?thesis by (auto simp: system_wf_def router_wf_def queue_wf_def)
  qed
  with wf show ?thesis by blast
qed

theorem reachable_system_wf_witness:
  "let it = \<lparr>qe_envelope = demo_envelope 1, qe_done = Some 0, qe_ctx = Some Background\<rparr>;
       s = demo_enqueued 4 it
   in map_of (sr_sessions (router s)) ''S1'' = Some 0 \<and> sq_running (sr_queues (router s) ! 0)"
  using reachable_system_wf [OF demo_run [of 4 _ 1 "demo_processor []", OF _ refl], THEN conjunct2,
      rule_format, of "''S1''" 0]
  by (simp add: Let_def demo_enqueued_def)


lemma process_loop_acks:
  assumes "process_loop P it (q, m, w) = ((q', m', w'), evs)"
    and "buffer_ok q" and "qe_seq it = nextExpectedSeq q" and "seq_small it" and "(d, None) \<in> set (acks_of evs)"
  shows "\<exists>x \<in> insert it (snd ` set (sq_buffer q)). qe_done x = Some d \<and> unat (qe_seq x) < next_nat q' \<and>
           next_nat q \<le> unat (qe_seq x)"
  using assms
proof (induction P it "(q, m, w)" arbitrary: q m w q' m' w' evs rule: process_loop.induct)
  case (1 P it q m w)
  from 1(4,5) have small: "nextExpectedSeq q \<noteq> - 1" by (simp add: seq_small_def)
  let ?n = "nextExpectedSeq q + 1"
  obtain w1 out where run: "proc_run P (select_call (proc_kind P) it) w = (w1, out)" by fastforce
  show ?case
  proof (cases "out = POk \<and> map_of (sq_buffer q) ?n \<noteq> None")
    case False
    show ?thesis
    proof (cases out)
      case POk
      with False have "map_of (sq_buffer q) ?n = None" by simp
      with 1(2) run POk have q': "q' = q\<lparr>nextExpectedSeq := ?n\<rparr>"
        and evs: "evs = EvCall it POk # finishQueuedEnvelope it None"
        by (auto simp: process_loop.simps [of P it] Let_def)
      from 1(6) evs have "qe_done it = Some d"
        by (auto simp: finishQueuedEnvelope_def split: option.splits)
      with q' unat_next [OF small] 1(4) show ?thesis by simp
    next
      case (PErr e)
      with 1(2,6) run show ?thesis
        by (auto simp: process_loop.simps [of P it] finishQueuedEnvelope_def split: option.splits)
    next
      case (PPanic e)
      with 1(2,6) run show ?thesis
        by (auto simp: process_loop.simps [of P it] finishQueuedEnvelope_def split: option.splits)
    qed
  next
    case True
    then obtain nxt where Some: "map_of (sq_buffer q) ?n = Some nxt" and out: "out = POk" by auto
    let ?q = "q\<lparr>nextExpectedSeq := ?n, sq_buffer := AList.delete ?n (sq_buffer q)\<rparr>"
    obtain evs' where rec: "process_loop P nxt (?q, m, w1) = ((q', m', w'), evs')"
      and evs: "evs = (EvCall it POk # finishQueuedEnvelope it None) @ evs'"
      using 1(2) run Some out by (auto simp: process_loop.simps [of P it] Let_def split: prod.splits)
    note ok = buffer_ok_take [OF 1(3) Some small]
    have lt: "next_nat ?q \<le> next_nat q'" using process_loop_prefix [OF rec] ok by simp
    have nxt: "nxt \<in> snd ` set (sq_buffer q)" using map_of_SomeD [OF Some] by force
    show ?thesis
    proof (cases "(d, None) \<in> set (acks_of evs')")
      case True
      have "\<exists>x \<in> insert nxt (snd ` set (sq_buffer ?q)). qe_done x = Some d \<and>
          unat (qe_seq x) < next_nat q' \<and> next_nat ?q \<le> unat (qe_seq x)"
        using 1(1) [OF run [symmetric] out refl refl refl Some] rec ok True by simp
      then obtain x where x: "x \<in> insert nxt (snd ` set (sq_buffer ?q))" "qe_done x = Some d"
          "unat (qe_seq x) < next_nat q'" "next_nat ?q \<le> unat (qe_seq x)" by blast
      from x(1) nxt have "x \<in> snd ` set (sq_buffer q)" by (auto simp: AList.delete_eq)
      with x unat_next [OF small] show ?thesis by auto
    next
      case False
      with 1(6) evs have "qe_done it = Some d"
        by (auto simp: finishQueuedEnvelope_def split: option.splits)
      with lt unat_next [OF small] 1(4) show ?thesis by auto
    qed
  qed
qed

lemma process_items_acks:
  assumes "process_items P its (q, m, w) = ((q', m', w'), evs)"
    and "buffer_ok q" and "\<forall>it \<in> set its. seq_small it" and "(d, None) \<in> set (acks_of evs)"
  shows "\<exists>x \<in> set its \<union> snd ` set (sq_buffer q). qe_done x = Some d \<and> unat (qe_seq x) < next_nat q'"
  using assms
proof (induction its arbitrary: q m w evs)
  case (Cons it its)
  obtain q1 m1 w1 e1 where 1: "processEnvelope P it (q, m, w) = ((q1, m1, w1), e1)"
    by (metis prod.collapse)
  obtain e2 where 2: "process_items P its (q1, m1, w1) = ((q', m', w'), e2)" and e: "evs = e1 @ e2"
    using Cons.prems(1) 1 by (auto simp: Let_def split: prod.splits)
  have small: "seq_small it" "\<forall>it \<in> set its. seq_small it" using Cons.prems(3) by auto
  note p1 = processEnvelope_prefix [OF 1 Cons.prems(2) small(1)]
  have buf: "snd ` set (sq_buffer q1) \<subseteq> insert it (snd ` set (sq_buffer q))"
    using 1 process_loop_items [of P it q m w q1 m1 w1 e1]
    by (auto simp: processEnvelope_def split: if_splits dest!: set_update_subset [THEN subsetD])
  show ?case
  proof (cases "(d, None) \<in> set (acks_of e2)")
    case True
    obtain x where "x \<in> set its \<union> snd ` set (sq_buffer q1)" "qe_done x = Some d \<and> unat (qe_seq x) < next_nat q'"
      using Cons.IH [OF 2 conjunct1 [OF p1] small(2) True] by blast
    with buf show ?thesis by (intro bexI [of _ x]) auto
  next
    case False
    with Cons.prems(4) e have d: "(d, None) \<in> set (acks_of e1)" by simp
    have le: "next_nat q1 \<le> next_nat q'"
      using process_items_prefix [OF 2 conjunct1 [OF p1] small(2)] by simp
    show ?thesis
    proof (cases rule: word_seq_cases [of q it])
      case 1
      with \<open>processEnvelope P it (q, m, w) = _\<close> d show ?thesis by (auto simp: processEnvelope_def)
    next
      case 2
      with \<open>processEnvelope P it (q, m, w) = _\<close> d le show ?thesis
        by (auto simp: processEnvelope_def finishQueuedEnvelope_def split: option.splits)
    next
      case 3
      with \<open>processEnvelope P it (q, m, w) = _\<close>
      have "process_loop P it (q, m, w) = ((q1, m1, w1), e1)" by (simp add: processEnvelope_def)
      from process_loop_acks [OF this Cons.prems(2) 3 small(1) d] obtain x where
        "x \<in> insert it (snd ` set (sq_buffer q))" "qe_done x = Some d" "unat (qe_seq x) < next_nat q1" by blast
      with le show ?thesis by (intro bexI [of _ x]) auto
    qed
  qed
qed simp

text \<open>An answer is earned. When a worker answers a done channel without an error, a message
  of that channel arrived and its number was accepted by the processor (or is 0, below every
  expected number): a Kafka record is never acknowledged on behalf of a message that failed or
  that still waits in the buffer.\<close>

theorem session_ack_is_earned:
  assumes "process_items P its (new_queue sid cap now, m, w) = ((q, m', w'), evs)"
    and "\<forall>it \<in> set its. seq_small it" and "(d, None) \<in> set (acks_of evs)"
  shows "\<exists>it \<in> set its. qe_done it = Some d \<and>
           (unat (qe_seq it) = 0 \<or> unat (qe_seq it) \<in> set (ok_seqs evs))"
proof -
  obtain x where x: "x \<in> set its" "qe_done x = Some d" "unat (qe_seq x) < next_nat q"
    using process_items_acks [OF assms(1) buffer_ok_new assms(2,3)] by (auto simp: new_queue_def)
  have "ok_seqs evs = [1 ..< next_nat q]"
    using process_items_prefix [OF assms(1) buffer_ok_new assms(2)] by simp
  with x show ?thesis by (intro bexI [of _ x]) auto
qed

theorem session_ack_is_earned_witness:
  "let its = map demo_item [2, 1]
   in case process_items (demo_processor []) its (new_queue ''S1'' 8 0, zero_metrics, 0) of
        ((q, m, w), evs) \<Rightarrow>
          (2, None) \<in> set (acks_of evs) \<and>
          (\<exists>it \<in> set its. qe_done it = Some 2 \<and>
             (unat (qe_seq it) = 0 \<or> unat (qe_seq it) \<in> set (ok_seqs evs)))"
proof -
  obtain q m w evs where run: "process_items (demo_processor []) (map demo_item [2, 1])
      (new_queue ''S1'' 8 0, zero_metrics, 0) = ((q, m, w), evs)" by (metis prod.collapse)
  have "(2, None) \<in> set (acks_of evs)"
    using run by (simp add: processEnvelope_def process_loop.simps demo_item_def demo_processor_def
        new_queue_def Let_def finishQueuedEnvelope_def select_call_def AList.delete_eq)
      (auto simp: finishQueuedEnvelope_def)
  with run session_ack_is_earned [OF run, of 2] show ?thesis
    by (auto simp: Let_def demo_item_def seq_small_def)
qed

lemma queue_idle_stop: "queue_idle now (stopSessionQueue q) = queue_idle now q"
  by (simp add: queue_idle_def stopSessionQueue_def)

lemma cleanup_keeps_idle:
  "queue_idle now (sr_queues r ! p) \<Longrightarrow> p < length (sr_queues r) \<Longrightarrow>
   queue_idle now (sr_queues (stop_and_forget sid' p' r) ! p)"
  by (cases "p = p'") (simp_all add: stop_and_forget_def queue_idle_stop)

lemma cleanup_length [simp]: "length (sr_queues (cleanup_sessions now ss r)) = length (sr_queues r)"
  by (induction ss arbitrary: r) (auto simp: stop_and_forget_def)

lemma cleanup_size [simp]: "sr_queueSize (cleanup_sessions now ss r) = sr_queueSize r"
  by (induction ss arbitrary: r) (auto simp: stop_and_forget_def)

lemma cleanup_none: "map_of (sr_sessions r) sid = None \<Longrightarrow> map_of (sr_sessions (cleanup_sessions now ss r)) sid = None"
proof (induction ss arbitrary: r)
  case (Cons a ss)
  obtain sid' p' where a: "a = (sid', p')" by fastforce
  have "map_of (sr_sessions (stop_and_forget sid' p' r)) sid = None"
    using Cons.prems by (simp add: stop_and_forget_def delete_conv')
  with Cons a show ?case by simp
qed simp

lemma cleanup_forgets:
  "(sid, p) \<in> set ss \<Longrightarrow> queue_idle now (sr_queues r ! p) \<Longrightarrow> p < length (sr_queues r) \<Longrightarrow>
   map_of (sr_sessions (cleanup_sessions now ss r)) sid = None"
proof (induction ss arbitrary: r)
  case (Cons a ss)
  obtain sid' p' where a: "a = (sid', p')" by fastforce
  show ?case
  proof (cases "a = (sid, p)")
    case True
    have "map_of (sr_sessions (stop_and_forget sid p r)) sid = None"
      by (simp add: stop_and_forget_def delete_conv')
    with True Cons.prems(2) show ?thesis by (simp add: cleanup_none)
  next
    case False
    let ?r = "if queue_idle now (sr_queues r ! p') then stop_and_forget sid' p' r else r"
    have "queue_idle now (sr_queues ?r ! p)" "p < length (sr_queues ?r)"
      using Cons.prems cleanup_keeps_idle [of now r p sid' p'] by (auto simp: stop_and_forget_def)
    moreover have "(sid, p) \<in> set ss" using Cons.prems(1) False by auto
    ultimately have "map_of (sr_sessions (cleanup_sessions now ss ?r)) sid = None"
      by (intro Cons.IH)
    with a show ?thesis by simp
  qed
qed simp

text \<open>C37. The cleanup forgets the numbering. When the cleanup removes an idle session whose next
  expected number was above 1, the next message of that session meets a new queue that expects
  number 1; every message whose number is above 1, which is all the sender's counter will ever
  give, stays in the new queue's buffer and is never processed.\<close>

theorem idle_cleanup_loses_session:
  assumes "map_of (sr_sessions r) sid = Some p" and "p < length (sr_queues r)"
    and "queue_idle now (sr_queues r ! p)" and "\<not> sr_stopCleanup r"
    and "\<forall>it \<in> set its. 1 < qe_seq it"
    and "getOrCreateSessionQueue later sid (cleanupIdleSessions now r) = (p', r')"
  shows "p' = length (sr_queues r) \<and>
    (case process_items P its (sr_queues r' ! p', sr_metrics r', sr_world r') of
       ((q, m, w), evs) \<Rightarrow> evs = [] \<and> nextExpectedSeq q = 1 \<and>
         length (sq_buffer q) = card ((unat \<circ> qe_seq) ` set its))"
proof -
  from assms(1) have "(sid, p) \<in> set (sr_sessions r)" by (rule map_of_SomeD)
  from cleanup_forgets [OF this assms(3,2)]
  have none: "map_of (sr_sessions (cleanupIdleSessions now r)) sid = None"
    and len: "length (sr_queues (cleanupIdleSessions now r)) = length (sr_queues r)"
    using assms(4) by (simp_all add: cleanupIdleSessions_def)
  with assms(6) have p': "p' = length (sr_queues r)"
    and q: "sr_queues r' ! p' = new_queue sid (sr_queueSize (cleanupIdleSessions now r)) later"
    by (auto simp: getOrCreateSessionQueue_def Let_def)
  obtain q' where "process_items P its (sr_queues r' ! p', sr_metrics r', sr_world r') =
      ((q', sr_metrics r', sr_world r'), [])" "nextExpectedSeq q' = 1"
      "bkeys q' = (unat \<circ> qe_seq) ` set its" "distinct (map fst (sq_buffer q'))"
    using process_items_stuck [of its "sr_queues r' ! p'" P "sr_metrics r'" "sr_world r'"] assms(5)
    unfolding q bkeys_new next_new by (auto simp: new_queue_def [of _ _ later])
  with p' show ?thesis by (simp add: length_buffer)
qed

definition demo_idle :: "nat SessionRouter" where
  "demo_idle =
     \<lparr>sr_sessions = [(''S1'', 0)],
      sr_queues = [(new_queue ''S1'' 4 0)\<lparr>nextExpectedSeq := 8\<rparr>],
      sr_queueSize = 4, sr_stopCleanup = False, sr_nextDone = 7, sr_metrics = zero_metrics,
      sr_world = 7, sr_trace = []\<rparr>"

theorem idle_cleanup_loses_session_witness:
  "case getOrCreateSessionQueue (7 * minute) ''S1'' (cleanupIdleSessions (6 * minute) demo_idle) of
     (p', r') \<Rightarrow> p' = 1 \<and>
       (case process_items (demo_processor []) [demo_item 8, demo_item 9]
               (sr_queues r' ! p', sr_metrics r', sr_world r') of
          ((q, m, w), evs) \<Rightarrow> evs = [] \<and> nextExpectedSeq q = 1 \<and> length (sq_buffer q) = 2)"
proof -
  obtain p' r' where g: "getOrCreateSessionQueue (7 * minute) ''S1''
      (cleanupIdleSessions (6 * minute) demo_idle) = (p', r')" by fastforce
  have c: "card ((unat \<circ> qe_seq) ` set [demo_item 8, demo_item 9]) = 2" by (simp add: demo_item_def)
  have gt: "\<forall>it \<in> set [demo_item 8, demo_item 9]. 1 < qe_seq it" by (simp add: demo_item_def)
  have st: "map_of (sr_sessions demo_idle) ''S1'' = Some 0" "0 < length (sr_queues demo_idle)"
    "queue_idle (6 * minute) (sr_queues demo_idle ! 0)" "\<not> sr_stopCleanup demo_idle"
    "length (sr_queues demo_idle) = 1"
    by (simp_all add: demo_idle_def queue_idle_def new_queue_def)
  from idle_cleanup_loses_session [OF st(1-4) gt g, of "demo_processor []"] show ?thesis
    unfolding c st(5) g by (auto simp del: process_items.simps split: prod.splits)
qed

text \<open>A batch is confirmed only when each of its messages is. If \<open>EnqueueMessagesAndWait\<close>
  returns no error, every message was enqueued with a done channel of its own and each channel
  received nil; one error, one missing answer or one message that cannot be enqueued makes it
  return an error.\<close>

lemma wait_all_None: "wait_all ds r = (None, r') \<Longrightarrow> r' = r \<and> (\<forall>d \<in> set ds. ack_of (sr_trace r) d = Some None)"
  by (induction ds) (auto split: option.splits)

lemma wait_all_Some:
  "wait_all ds r = (Some e, r') \<Longrightarrow> \<exists>d \<in> set ds. ack_of (sr_trace r) d \<noteq> Some None"
  by (induction ds) (auto split: option.splits)

lemma enqueue_batch_length:
  "enqueue_batch sched now ctx datas r = Some (Inr ds, r') \<Longrightarrow> length ds = length datas"
  by (induction datas arbitrary: r ds r' rule: list.induct)
     (auto simp: Let_def split: prod.splits option.splits sum.splits)

theorem batch_confirmed_iff:
  assumes "enqueue_batch sched now ctx datas r = Some (res, r1)"
  shows "EnqueueMessagesAndWait sched now ctx datas r = Some (None, r') \<longleftrightarrow>
    (\<exists>ds. res = Inr ds \<and> length ds = length datas \<and> r' = sched r1 \<and>
          (\<forall>d \<in> set ds. ack_of (sr_trace (sched r1)) d = Some None))"
proof (cases res)
  case (Inl e)
  with assms show ?thesis by (simp add: EnqueueMessagesAndWait_def)
next
  case (Inr ds)
  obtain e r2 where w: "wait_all ds (sched r1) = (e, r2)" by fastforce
  with Inr assms have run: "EnqueueMessagesAndWait sched now ctx datas r = Some (e, r2)"
    by (simp add: EnqueueMessagesAndWait_def)
  have len: "length ds = length datas" using assms Inr enqueue_batch_length by blast
  show ?thesis
  proof (cases e)
    case None
    with w wait_all_None [of ds "sched r1" r2] run Inr len show ?thesis by auto
  next
    case (Some x)
    with w wait_all_Some [of ds "sched r1" x r2] run Inr show ?thesis by auto
  qed
qed

definition demo_sched :: "nat SessionRouter \<Rightarrow> nat SessionRouter" where
  "demo_sched r =
     (case run_worker (demo_processor []) RecvBranch 0 r of None \<Rightarrow> r | Some r' \<Rightarrow> r')"

lemma demo_batch:
  "enqueue_batch demo_sched 0 Background [(encode_envelope (demo_envelope 1), False, SendBranch)]
     (NewSessionRouter 4 zero_metrics 0) =
   Some (Inr [0], demo_sched (router (demo_enqueued 4
      \<lparr>qe_envelope = demo_envelope 1, qe_done = Some 0, qe_ctx = Some Background\<rparr>)))"
  by (simp add: enqueue_def parse_encoded [OF demo_session] getOrCreateSessionQueue_def Let_def
      NewSessionRouter_def fresh_done_def enqueue_select_def try_send_def demo_enqueued_def
      new_queue_def make_chan_def)

theorem batch_confirmed_iff_witness:
  "\<exists>r'. EnqueueMessagesAndWait demo_sched 0 Background
          [(encode_envelope (demo_envelope 1), False, SendBranch)] (NewSessionRouter 4 zero_metrics 0) =
        Some (None, r')"
proof -
  let ?it = "\<lparr>qe_envelope = demo_envelope 1, qe_done = Some 0, qe_ctx = Some Background\<rparr>"
  have "ack_of (sr_trace (demo_sched (demo_sched (router (demo_enqueued 4 ?it))))) 0 = Some None"
    by (simp add: demo_sched_def run_worker_def processSessionQueue_def demo_enqueued_def try_recv_def
        processEnvelope_def process_loop.simps demo_processor_def demo_envelope_def new_queue_def
        NewSessionRouter_def fresh_done_def Let_def finishQueuedEnvelope_def)
  then show ?thesis
    using batch_confirmed_iff [OF demo_batch] by auto
qed

text \<open>A well-formed message is accepted. An envelope as the router encodes it, whose payload
  names a session, is appended with its number, identifier and payload to the session's channel
  when the channel has room; nothing else of the router changes but the queue's time of use.\<close>

theorem enqueue_accepts:
  assumes "router_wf r" and "map_of (sr_sessions r) sid = Some p"
    and "decode_session_id (Payload e) = (sid, False)" and "sid \<noteq> []"
    and "length (ch_items (sq_queue (sr_queues r ! p))) < sr_queueSize r"
  shows "EnqueueMessage now expired SendBranch (encode_envelope e) r =
    Some (None, r\<lparr>sr_queues := (sr_queues r)
      [p := (sr_queues r ! p)
         \<lparr>sq_queue := (sq_queue (sr_queues r ! p))
            \<lparr>ch_items := ch_items (sq_queue (sr_queues r ! p)) @
              [\<lparr>qe_envelope = e, qe_done = None, qe_ctx = Some (Deadline (now + 2 * second))\<rparr>]\<rparr>,
          sq_lastActive := now\<rparr>]\<rparr>)"
proof -
  have "(sid, p) \<in> set (sr_sessions r)" using assms(2) by (rule map_of_SomeD)
  with assms(1) have p: "p < length (sr_queues r)" and "\<not> sq_closed (sr_queues r ! p)"
    by (auto simp: router_wf_def)
  moreover have "ch_cap (sq_queue (sr_queues r ! p)) = sr_queueSize r"
    using assms(1) p by (auto simp: router_wf_def queue_wf_def)
  ultimately show ?thesis
    using assms(2,5) parse_encoded [OF assms(3,4)]
    by (simp add: EnqueueMessage_def enqueue_def getOrCreateSessionQueue_def enqueue_select_def
        try_send_def Let_def)
qed

theorem enqueue_accepts_witness:
  "\<exists>r'. EnqueueMessage 5 False SendBranch (encode_envelope (demo_envelope 8)) demo_idle = Some (None, r') \<and>
        map qe_envelope (ch_items (sq_queue (sr_queues r' ! 0))) = [demo_envelope 8]"
proof -
  have "router_wf demo_idle"
    by (simp add: router_wf_def demo_idle_def queue_wf_def new_queue_def chan_ok_def)
  from enqueue_accepts [OF this _ demo_session [of 8], of 0 5 False] show ?thesis
    by (simp add: demo_idle_def new_queue_def)
qed

end
