(* ===== verification/Backpressure.thy ===== *)
theory Backpressure
  imports Prelude
begin

text \<open>
  \<open>chat/backpressure_detector.go\<close>: the detector that watches the depth of the transmit channel
  once a second and switches the overflow mode on and off, with a hysteresis zone between its
  two thresholds. A zero \<open>time.Time\<close> is \<open>None\<close>; the depth and the clock are arguments of
  \<open>check\<close>, whose second result tells whether the end-of-overflow callback is called.
\<close>

record BackpressureDetector =
  highThreshold :: int
  lowThreshold :: int
  duration :: time
  cooldown :: time
  overflowMode :: bool
  aboveSince :: "time option"
  belowSince :: "time option"
  bd_stopped :: bool
  onOverflowEnd :: bool

definition NewBackpressureDetector :: "int \<Rightarrow> int \<Rightarrow> BackpressureDetector" where
  "NewBackpressureDetector high durationSec =
     \<lparr>highThreshold = high, lowThreshold = (let low = high * 3 div 4 in if low < 1 then 1 else low),
      duration = durationSec * second, cooldown = 10 * second, overflowMode = False,
      aboveSince = None, belowSince = None, bd_stopped = False, onOverflowEnd = False\<rparr>"

definition SetOverflowEndCallback :: "BackpressureDetector \<Rightarrow> BackpressureDetector" where
  "SetOverflowEndCallback b = b\<lparr>onOverflowEnd := True\<rparr>"

definition IsOverflow :: "BackpressureDetector \<Rightarrow> bool" where
  "IsOverflow b = overflowMode b"

definition check_high :: "time \<Rightarrow> BackpressureDetector \<Rightarrow> BackpressureDetector" where
  "check_high now b =
     (let b1 = (if aboveSince b = None then b\<lparr>aboveSince := Some now\<rparr> else b);
          b2 = (if \<not> overflowMode b1 \<and> now - the (aboveSince b1) \<ge> duration b1
                then b1\<lparr>overflowMode := True\<rparr> else b1)
      in b2\<lparr>belowSince := None\<rparr>)"

definition check_low :: "time \<Rightarrow> BackpressureDetector \<Rightarrow> BackpressureDetector \<times> bool" where
  "check_low now b =
     (let (b1, called) =
        (if overflowMode b then
           (let b1 = (if belowSince b = None then b\<lparr>belowSince := Some now\<rparr> else b)
            in if now - the (belowSince b1) \<ge> cooldown b1
               then (b1\<lparr>overflowMode := False, belowSince := None\<rparr>, onOverflowEnd b1)
               else (b1, False))
         else (b, False))
      in (b1\<lparr>aboveSince := None\<rparr>, called))"

definition check :: "time \<Rightarrow> int \<Rightarrow> BackpressureDetector \<Rightarrow> BackpressureDetector \<times> bool" where
  "check now depth b =
     (if depth > highThreshold b then (check_high now b, False)
      else if depth \<le> lowThreshold b then check_low now b
      else (b, False))"

text \<open>The detector's goroutine: one check per tick, with the depth found, until it is stopped.\<close>

fun run_ticks :: "(time \<times> int) list \<Rightarrow> BackpressureDetector \<Rightarrow> BackpressureDetector" where
  "run_ticks [] b = b"
| "run_ticks ((now, depth) # ts) b =
     run_ticks ts (if bd_stopped b then b else fst (check now depth b))"

definition stop_detector :: "BackpressureDetector \<Rightarrow> BackpressureDetector" where
  "stop_detector b = b\<lparr>bd_stopped := True\<rparr>"

section \<open>What the timers remember\<close>

definition same_params :: "BackpressureDetector \<Rightarrow> BackpressureDetector \<Rightarrow> bool" where
  "same_params b b' \<longleftrightarrow>
     highThreshold b' = highThreshold b \<and> lowThreshold b' = lowThreshold b \<and>
     duration b' = duration b \<and> cooldown b' = cooldown b \<and> onOverflowEnd b' = onOverflowEnd b \<and>
     bd_stopped b' = bd_stopped b"

lemma check_params: "same_params b (fst (check now depth b))"
  by (simp add: check_def check_high_def check_low_def same_params_def Let_def)

text \<open>The history shows a tick at \<open>t\<close> above the high threshold and none at or below the low one
  since; and symmetrically.\<close>

definition above_from :: "BackpressureDetector \<Rightarrow> (time \<times> int) list \<Rightarrow> time \<Rightarrow> bool" where
  "above_from b h t \<longleftrightarrow>
     (\<exists>h1 d h2. h = h1 @ (t, d) # h2 \<and> highThreshold b < d \<and>
        list_all (\<lambda>(_, d'). lowThreshold b < d') h2)"

definition below_from :: "BackpressureDetector \<Rightarrow> (time \<times> int) list \<Rightarrow> time \<Rightarrow> bool" where
  "below_from b h t \<longleftrightarrow>
     (\<exists>h1 d h2. h = h1 @ (t, d) # h2 \<and> d \<le> lowThreshold b \<and>
        list_all (\<lambda>(_, d'). d' \<le> highThreshold b) h2)"

definition timers_ok :: "BackpressureDetector \<Rightarrow> (time \<times> int) list \<Rightarrow> bool" where
  "timers_ok b h \<longleftrightarrow>
     lowThreshold b \<le> highThreshold b \<and>
     (\<forall>t. aboveSince b = Some t \<longrightarrow> above_from b h t) \<and>
     (\<forall>t. belowSince b = Some t \<longrightarrow> below_from b h t)"

lemma above_snoc:
  "above_from b h t \<Longrightarrow> lowThreshold b < d \<Longrightarrow> above_from b (h @ [(now, d)]) t"
proof -
  assume "above_from b h t" and d: "lowThreshold b < d"
  then obtain h1 d1 h2 where "h = h1 @ (t, d1) # h2" "highThreshold b < d1"
    "list_all (\<lambda>(_, d'). lowThreshold b < d') h2" by (auto simp: above_from_def)
  with d show ?thesis
    unfolding above_from_def by (intro exI [of _ h1] exI [of _ d1] exI [of _ "h2 @ [(now, d)]"]) simp
qed

lemma below_snoc:
  "below_from b h t \<Longrightarrow> d \<le> highThreshold b \<Longrightarrow> below_from b (h @ [(now, d)]) t"
proof -
  assume "below_from b h t" and d: "d \<le> highThreshold b"
  then obtain h1 d1 h2 where "h = h1 @ (t, d1) # h2" "d1 \<le> lowThreshold b"
    "list_all (\<lambda>(_, d'). d' \<le> highThreshold b) h2" by (auto simp: below_from_def)
  with d show ?thesis
    unfolding below_from_def by (intro exI [of _ h1] exI [of _ d1] exI [of _ "h2 @ [(now, d)]"]) simp
qed

lemma above_new: "highThreshold b < d \<Longrightarrow> above_from b (h @ [(now, d)]) now"
  unfolding above_from_def by (intro exI [of _ h] exI [of _ d] exI [of _ "[]"]) simp

lemma below_new: "d \<le> lowThreshold b \<Longrightarrow> below_from b (h @ [(now, d)]) now"
  unfolding below_from_def by (intro exI [of _ h] exI [of _ d] exI [of _ "[]"]) simp

lemma from_params:
  "same_params b b' \<Longrightarrow> above_from b' h t = above_from b h t"
  "same_params b b' \<Longrightarrow> below_from b' h t = below_from b h t"
  by (simp_all add: same_params_def above_from_def below_from_def)

lemma check_timers:
  assumes "timers_ok b h"
  shows "timers_ok (fst (check now d b)) (h @ [(now, d)])"
proof -
  note par = from_params [OF check_params [of b now d]]
  have "lowThreshold (fst (check now d b)) \<le> highThreshold (fst (check now d b))"
    using assms check_params [of b now d] by (simp add: timers_ok_def same_params_def)
  moreover have "above_from b (h @ [(now, d)]) t" if "aboveSince (fst (check now d b)) = Some t" for t
    using that assms above_new [of b d h now] above_snoc [of b h t d now]
    by (auto simp: check_def check_high_def check_low_def Let_def timers_ok_def split: if_splits)
  moreover have "below_from b (h @ [(now, d)]) t" if "belowSince (fst (check now d b)) = Some t" for t
    using that assms below_new [of d b h now] below_snoc [of b h t d now]
    by (auto simp: check_def check_high_def check_low_def Let_def timers_ok_def split: if_splits)
  ultimately show ?thesis by (simp add: timers_ok_def par)
qed

lemma run_append: "run_ticks (xs @ ys) b = run_ticks ys (run_ticks xs b)"
  by (induction xs arbitrary: b) auto

lemma run_params: "same_params b (run_ticks ts b)"
proof (induction ts rule: rev_induct)
  case Nil
  then show ?case by (simp add: same_params_def)
next
  case (snoc x xs)
  obtain now d where x: "x = (now, d)" by fastforce
  show ?case
    using snoc check_params [of "run_ticks xs b" now d] by (auto simp: run_append x same_params_def)
qed

lemma run_timers:
  assumes "timers_ok b []" and "\<not> bd_stopped b"
  shows "timers_ok (run_ticks ts b) ts"
proof (induction ts rule: rev_induct)
  case Nil
  then show ?case using assms by simp
next
  case (snoc x xs)
  obtain now d where x: "x = (now, d)" by fastforce
  have "\<not> bd_stopped (run_ticks xs b)" using run_params [of b xs] assms(2) by (simp add: same_params_def)
  with check_timers [OF snoc, of now d] show ?case by (simp add: run_append x)
qed

lemma new_timers: "1 \<le> high \<Longrightarrow> timers_ok (NewBackpressureDetector high ds) []"
  by (auto simp: timers_ok_def NewBackpressureDetector_def Let_def)

text \<open>What one check does to the mode.\<close>

lemma check_switches_on:
  "\<not> overflowMode b \<Longrightarrow> overflowMode (fst (check now d b)) \<longleftrightarrow>
     highThreshold b < d \<and>
     (\<exists>t. (aboveSince b = Some t \<or> aboveSince b = None \<and> t = now) \<and> duration b \<le> now - t)"
  by (auto simp: check_def check_high_def check_low_def Let_def)

lemma check_switches_off:
  "overflowMode b \<Longrightarrow> \<not> overflowMode (fst (check now d b)) \<longleftrightarrow>
     d \<le> highThreshold b \<and> d \<le> lowThreshold b \<and>
     (\<exists>t. (belowSince b = Some t \<or> belowSince b = None \<and> t = now) \<and> cooldown b \<le> now - t)"
  by (auto simp: check_def check_high_def check_low_def Let_def split: if_splits)

lemma check_callback:
  "snd (check now d b) \<longleftrightarrow> onOverflowEnd b \<and> overflowMode b \<and> \<not> overflowMode (fst (check now d b))"
  by (auto simp: check_def check_high_def check_low_def Let_def)

section \<open>Properties\<close>

text \<open>Overflow is earned. When a tick switches the overflow mode on, the depth is above the
  high threshold at that tick and was above it at some tick at least the window earlier, and at
  no tick in between was it at or below the low threshold.\<close>

theorem overflow_needs_window:
  assumes "1 \<le> high" and "b = run_ticks ts (NewBackpressureDetector high ds)"
    and "\<not> IsOverflow b" and "IsOverflow (run_ticks [(now, depth)] b)"
  shows "high < depth \<and>
    (\<exists>t. ds * second \<le> now - t \<and> above_from (NewBackpressureDetector high ds) (ts @ [(now, depth)]) t)"
proof -
  let ?b0 = "NewBackpressureDetector high ds"
  have par: "same_params ?b0 b" using run_params assms(2) by blast
  have ns: "\<not> bd_stopped ?b0" by (simp add: NewBackpressureDetector_def)
  then have "\<not> bd_stopped b" using par by (simp add: same_params_def)
  with assms(3,4) have on: "\<not> overflowMode b" "overflowMode (fst (check now depth b))"
    by (simp_all add: IsOverflow_def)
  then obtain t where d: "highThreshold b < depth" and t: "duration b \<le> now - t"
    "aboveSince b = Some t \<or> aboveSince b = None \<and> t = now"
    using check_switches_on by blast
  have "timers_ok b ts" using run_timers [OF new_timers [OF assms(1)] ns] assms(2) by simp
  with d t(2) have "above_from b (ts @ [(now, depth)]) t"
    using above_new [of b depth ts now] above_snoc [of b ts t depth now] by (auto simp: timers_ok_def)
  with d t(1) par from_params(1) [OF par] show ?thesis
    by (auto simp: same_params_def NewBackpressureDetector_def)
qed

theorem overflow_needs_window_witness:
  "\<exists>t. 5 * second \<le> 6 * second - t \<and>
     above_from (NewBackpressureDetector 8 5) ([(1 * second, 9)] @ [(6 * second, 9)]) t"
proof -
  let ?b = "run_ticks [(1 * second, 9)] (NewBackpressureDetector 8 5)"
  have "\<not> IsOverflow ?b" "IsOverflow (run_ticks [(6 * second, 9)] ?b)"
    by (simp_all add: IsOverflow_def check_def check_high_def NewBackpressureDetector_def)
  from overflow_needs_window [of 8 ?b "[(1 * second, 9)]" 5, OF _ refl this] show ?thesis by simp
qed

text \<open>Recovery is earned. When a tick switches the overflow mode off, the depth is at or below
  the low threshold and was so at some tick at least ten seconds earlier, and at no tick in
  between was it above the high threshold; exactly then the end-of-overflow callback runs.\<close>

theorem recovery_needs_cooldown:
  assumes "1 \<le> high" and "b = run_ticks ts (SetOverflowEndCallback (NewBackpressureDetector high ds))"
    and "IsOverflow b"
  shows "(snd (check now depth b) \<longleftrightarrow> \<not> IsOverflow (fst (check now depth b))) \<and>
    (\<not> IsOverflow (fst (check now depth b)) \<longrightarrow>
      depth \<le> lowThreshold b \<and>
      (\<exists>t. 10 * second \<le> now - t \<and>
           below_from (NewBackpressureDetector high ds) (ts @ [(now, depth)]) t))"
proof (intro conjI impI)
  let ?b0 = "SetOverflowEndCallback (NewBackpressureDetector high ds)"
  have par: "same_params ?b0 b" using run_params assms(2) by blast
  have ns: "\<not> bd_stopped ?b0" by (simp add: NewBackpressureDetector_def SetOverflowEndCallback_def)
  have cb: "onOverflowEnd b" using par by (simp add: same_params_def SetOverflowEndCallback_def)
  show "snd (check now depth b) \<longleftrightarrow> \<not> IsOverflow (fst (check now depth b))"
    using check_callback [of now depth b] cb assms(3) by (simp add: IsOverflow_def)
  assume "\<not> IsOverflow (fst (check now depth b))"
  then obtain t where d: "depth \<le> highThreshold b" "depth \<le> lowThreshold b"
    and t: "cooldown b \<le> now - t" "belowSince b = Some t \<or> belowSince b = None \<and> t = now"
    using check_switches_off [of b now depth] assms(3) unfolding IsOverflow_def by blast
  have "timers_ok ?b0 []" using new_timers [OF assms(1), of ds]
    by (simp add: timers_ok_def SetOverflowEndCallback_def NewBackpressureDetector_def)
  then have "timers_ok b ts" using run_timers [OF _ ns] assms(2) by simp
  with d t(2) have "below_from b (ts @ [(now, depth)]) t"
    using below_new [of depth b ts now] below_snoc [of b ts t depth now] by (auto simp: timers_ok_def)
  moreover have "below_from b = below_from (NewBackpressureDetector high ds)"
    using par by (intro ext) (simp add: below_from_def same_params_def SetOverflowEndCallback_def)
  moreover have "10 * second \<le> now - t"
    using t(1) par by (simp add: same_params_def SetOverflowEndCallback_def NewBackpressureDetector_def)
  ultimately show "\<exists>t. 10 * second \<le> now - t \<and>
           below_from (NewBackpressureDetector high ds) (ts @ [(now, depth)]) t" by auto
  show "depth \<le> lowThreshold b" by (rule d(2))
qed

theorem recovery_needs_cooldown_witness:
  "let b = run_ticks [(1 * second, 9), (6 * second, 9), (7 * second, 2)]
             (SetOverflowEndCallback (NewBackpressureDetector 8 5))
   in IsOverflow b \<and> snd (check (17 * second) 2 b) = (\<not> IsOverflow (fst (check (17 * second) 2 b))) \<and>
      (\<exists>t. 10 * second \<le> 17 * second - t \<and>
         below_from (NewBackpressureDetector 8 5)
           ([(1 * second, 9), (6 * second, 9), (7 * second, 2)] @ [(17 * second, 2)]) t)"
proof -
  let ?ts = "[(1 * second, 9), (6 * second, 9), (7 * second, 2)]"
  let ?b = "run_ticks ?ts (SetOverflowEndCallback (NewBackpressureDetector 8 5))"
  have on: "IsOverflow ?b" and off: "\<not> IsOverflow (fst (check (17 * second) 2 ?b))"
    by (simp_all add: IsOverflow_def check_def check_high_def check_low_def NewBackpressureDetector_def
        SetOverflowEndCallback_def)
  have "1 \<le> (8 :: int)" by simp
  note R = recovery_needs_cooldown [OF this refl on, of "17 * second" 2]
  from R off on show ?thesis unfolding Let_def by blast
qed

lemma run_high:
  "\<forall>(t, d) \<in> set ts. lowThreshold b < d \<Longrightarrow> aboveSince b = Some t0 \<Longrightarrow> \<not> bd_stopped b \<Longrightarrow>
   aboveSince (run_ticks ts b) = Some t0 \<and> (overflowMode b \<longrightarrow> overflowMode (run_ticks ts b))"
proof (induction ts arbitrary: b)
  case (Cons x ts)
  obtain t d where x: "x = (t, d)" by fastforce
  have "same_params b (fst (check t d b))" by (rule check_params)
  moreover have "aboveSince (fst (check t d b)) = Some t0"
    "overflowMode b \<Longrightarrow> overflowMode (fst (check t d b))"
    using Cons.prems(1,2) x by (simp_all add: check_def check_high_def Let_def)
  ultimately show ?case using Cons x by (auto simp: same_params_def)
qed simp

text \<open>Pressure is detected. Two ticks above the high threshold that are at least the window
  apart switch the overflow mode on, when every tick between them is above the low threshold:
  pressure that lasts is always detected, and so are two spikes with a long stretch of moderate
  load between them, since the hysteresis zone does not reset the timer.\<close>

theorem pressure_detected:
  assumes "highThreshold b < d0" and "\<forall>(t, d) \<in> set ts. lowThreshold b < d" and "highThreshold b < dn"
    and "aboveSince b = None \<or> aboveSince b = Some s0 \<and> s0 \<le> t0"
    and "duration b \<le> tn - t0" and "\<not> bd_stopped b"
  shows "IsOverflow (run_ticks ((t0, d0) # ts @ [(tn, dn)]) b)"
proof -
  let ?b1 = "fst (check t0 d0 b)"
  let ?b2 = "run_ticks ts ?b1"
  define s where "s = (case aboveSince b of None \<Rightarrow> t0 | Some s \<Rightarrow> s)"
  have s: "aboveSince ?b1 = Some s" "s \<le> t0"
    using assms(1,4) by (auto simp: check_def check_high_def Let_def s_def split: option.splits)
  have p1: "same_params b ?b1" by (rule check_params)
  have p2: "same_params ?b1 ?b2" by (rule run_params)
  have "aboveSince ?b2 = Some s"
    using run_high [of ts ?b1 s] assms(2,6) p1 s by (auto simp: same_params_def)
  moreover have "highThreshold ?b2 < dn" "duration ?b2 = duration b" "\<not> bd_stopped ?b2"
    using assms(3,6) p1 p2 by (auto simp: same_params_def)
  ultimately have "overflowMode (fst (check tn dn ?b2))"
    using s(2) assms(5) by (auto simp: check_def check_high_def Let_def)
  with \<open>\<not> bd_stopped ?b2\<close> assms(6) show ?thesis by (simp add: run_append IsOverflow_def)
qed

theorem pressure_detected_witness:
  "IsOverflow (run_ticks ((1 * second, 9) # [(2 * second, 7), (3 * second, 10)] @ [(6 * second, 9)])
     (NewBackpressureDetector 8 5))"
  by (rule pressure_detected) (simp_all add: NewBackpressureDetector_def)

end
