(* ===== verification/Hashes.thy ===== *)
theory Hashes
  imports Go_Strings
begin

text \<open>
  The hash functions of Go's standard library the source calls: CRC-32 (IEEE) for the session
  ring, FNV-1a (32 bits) for the fan-out shards, and SHA-256 with its hexadecimal form for the
  idempotency identifiers. Bytes are characters; the words are 32 bits and wrap.
\<close>

unbundle bit_operations_syntax

definition byte_val :: "char \<Rightarrow> nat" where
  "byte_val c = of_char c"

lemma byte_val_bound: "byte_val c < 256"
  unfolding byte_val_def using nat_of_char_less_256 .

section \<open>CRC-32\<close>

definition crc32_bit :: "u32 \<Rightarrow> u32" where
  "crc32_bit c = (if bit c 0 then drop_bit 1 c XOR 0xEDB88320 else drop_bit 1 c)"

definition crc32_byte :: "u32 \<Rightarrow> char \<Rightarrow> u32" where
  "crc32_byte c b = (crc32_bit ^^ 8) (c XOR of_nat (byte_val b))"

definition crc32 :: "string \<Rightarrow> u32" where
  "crc32 s = NOT (foldl crc32_byte 0xFFFFFFFF s)"

section \<open>FNV-1a\<close>

definition fnv32a :: "string \<Rightarrow> u32" where
  "fnv32a s = foldl (\<lambda>h b. (h XOR of_nat (byte_val b)) * 16777619) 2166136261 s"

section \<open>SHA-256\<close>

definition rotr :: "nat \<Rightarrow> u32 \<Rightarrow> u32" where
  "rotr n w = drop_bit n w OR push_bit (32 - n) w"

text \<open>The round constants and the initial state are the first 32 bits of the fractional parts
  of the cube roots of the first 64 primes and of the square roots of the first 8.\<close>

fun int_root :: "nat \<Rightarrow> nat \<Rightarrow> nat \<Rightarrow> nat \<Rightarrow> nat" where
  "int_root k n 0 r = r"
| "int_root k n (Suc b) r =
     int_root k n b (if (r + 2 ^ b) ^ k \<le> n then r + 2 ^ b else r)"

definition first_primes :: "nat \<Rightarrow> nat list" where
  "first_primes n = take n (filter (\<lambda>p. list_all (\<lambda>d. p mod d \<noteq> 0) [2..<p]) [2..<312])"

definition sha256_k :: "u32 list" where
  "sha256_k = map (\<lambda>p. of_nat (int_root 3 (p * 2 ^ 96) 36 0)) (first_primes 64)"

definition sha256_init :: "u32 list" where
  "sha256_init = map (\<lambda>p. of_nat (int_root 2 (p * 2 ^ 64) 36 0)) [2, 3, 5, 7, 11, 13, 17, 19]"

definition be_bytes :: "nat \<Rightarrow> nat \<Rightarrow> nat list" where
  "be_bytes k n = rev (map (\<lambda>i. (n div 256 ^ i) mod 256) [0..<k])"

definition sha256_pad :: "nat list \<Rightarrow> nat list" where
  "sha256_pad bs =
     (let n = length bs; z = (119 - n mod 64) mod 64
      in bs @ [128] @ replicate z 0 @ be_bytes 8 (8 * n))"

fun be_words :: "nat list \<Rightarrow> u32 list" where
  "be_words (a # b # c # d # r) =
     of_nat (a * 16777216 + b * 65536 + c * 256 + d) # be_words r"
| "be_words _ = []"

text \<open>The message schedule: the last sixteen words, newest first, give the next one.\<close>

fun sha256_schedule :: "nat \<Rightarrow> u32 list \<Rightarrow> u32 list" where
  "sha256_schedule 0 ws = ws"
| "sha256_schedule (Suc n) ws =
     (let w15 = ws ! 14; w2 = ws ! 1;
          s0 = rotr 7 w15 XOR rotr 18 w15 XOR drop_bit 3 w15;
          s1 = rotr 17 w2 XOR rotr 19 w2 XOR drop_bit 10 w2
      in sha256_schedule n ((ws ! 15 + s0 + ws ! 6 + s1) # ws))"

definition sha256_round :: "u32 list \<Rightarrow> u32 \<times> u32 \<Rightarrow> u32 list" where
  "sha256_round st kw =
     (let a = st ! 0; b = st ! 1; c = st ! 2; d = st ! 3; e = st ! 4; f = st ! 5; g = st ! 6;
          h = st ! 7; k = fst kw; w = snd kw;
          t1 = h + (rotr 6 e XOR rotr 11 e XOR rotr 25 e) + ((e AND f) XOR (NOT e AND g)) + k + w;
          t2 = (rotr 2 a XOR rotr 13 a XOR rotr 22 a) + ((a AND b) XOR (a AND c) XOR (b AND c))
      in [t1 + t2, a, b, c, d + t1, e, f, g])"

definition sha256_block :: "u32 list \<Rightarrow> u32 list \<Rightarrow> u32 list" where
  "sha256_block st ws =
     map2 (+) st (foldl sha256_round st (zip sha256_k (rev (sha256_schedule 48 (rev ws)))))"

fun sha256_blocks :: "nat \<Rightarrow> u32 list \<Rightarrow> u32 list \<Rightarrow> u32 list" where
  "sha256_blocks 0 st ws = st"
| "sha256_blocks (Suc n) st ws =
     sha256_blocks n (sha256_block st (take 16 ws)) (drop 16 ws)"

definition sha256_words :: "string \<Rightarrow> u32 list" where
  "sha256_words s =
     (let ws = be_words (sha256_pad (map byte_val s))
      in sha256_blocks (length ws div 16) sha256_init ws)"

definition hex_digit :: "nat \<Rightarrow> char" where
  "hex_digit d = (if d < 10 then char_of (48 + d) else char_of (87 + d))"

definition hex_byte :: "nat \<Rightarrow> string" where
  "hex_byte b = [hex_digit (b div 16), hex_digit (b mod 16)]"

definition sha256_hex :: "string \<Rightarrow> string" where
  "sha256_hex s =
     concat (map (\<lambda>w. concat (map hex_byte (be_bytes 4 (unat w)))) (sha256_words s))"

text \<open>A digest has 64 hexadecimal characters.\<close>

lemma length_be_bytes [simp]: "length (be_bytes k n) = k"
  by (simp add: be_bytes_def)

lemma length_hex_byte [simp]: "length (hex_byte b) = 2"
  by (simp add: hex_byte_def)

lemma length_sha256_rounds: "length st = 8 \<Longrightarrow> length (foldl sha256_round st kws) = 8"
  by (induction kws arbitrary: st) (simp_all add: sha256_round_def Let_def)

lemma length_sha256_block: "length st = 8 \<Longrightarrow> length (sha256_block st ws) = 8"
  by (simp add: sha256_block_def length_sha256_rounds)

lemma length_sha256_blocks: "length st = 8 \<Longrightarrow> length (sha256_blocks n st ws) = 8"
  by (induction n st ws rule: sha256_blocks.induct) (simp_all add: length_sha256_block)

lemma length_sha256_words [simp]: "length (sha256_words s) = 8"
  by (simp add: sha256_words_def Let_def length_sha256_blocks sha256_init_def)

lemma length_sha256_hex [simp]: "length (sha256_hex s) = 64"
  by (simp add: sha256_hex_def length_concat comp_def sum_list_triv)

text \<open>The byte step as eight bit steps, for evaluation.\<close>

lemma crc32_byte_bits:
  "crc32_byte c b = crc32_bit (crc32_bit (crc32_bit (crc32_bit (crc32_bit (crc32_bit (crc32_bit (crc32_bit
     (c XOR of_nat (byte_val b)))))))))"
  by (simp add: crc32_byte_def numeral_eq_Suc)

lemmas crc32_eval = crc32_def crc32_byte_bits byte_val_def crc32_bit_def

end
