(* ===== verification/Session_Ring.thy ===== *)
theory Session_Ring
  imports Hashes "HOL-Library.List_Lexorder" "HOL-Library.Char_ord"
begin

text \<open>
  \<open>chat/session_ring.go\<close>: the consistent-hash ring that gives every session a home instance.
  \<open>sort.Slice\<close> is not stable, so the sort of the ring is an argument with the contract of the
  locale \<open>hash_sort\<close>, which the stable \<open>sort_key\<close> satisfies; \<open>sort.Search\<close> is the binary
  search of the library. The specification is geometric: the home of a session owns the virtual
  node at the least clockwise distance from the session's hash.
\<close>

record ringEntry =
  re_hash :: u32
  re_instance :: string

record SessionRing =
  ring_replicas :: int
  ring_instances :: "string list"
  ring_entries :: "ringEntry list"

definition NewSessionRing :: "int \<Rightarrow> SessionRing" where
  "NewSessionRing n =
     \<lparr>ring_replicas = (if n \<le> 0 then 128 else n), ring_instances = [], ring_entries = []\<rparr>"

definition hashKey :: "string \<Rightarrow> u32" where
  "hashKey key = crc32 key"

text \<open>The loop over the instances: empty and repeated names are skipped.\<close>

fun uniq_instances :: "string list \<Rightarrow> string list \<Rightarrow> string list" where
  "uniq_instances seen [] = []"
| "uniq_instances seen (i # is) =
     (if i = [] \<or> i \<in> set seen then uniq_instances seen is
      else i # uniq_instances (i # seen) is)"

definition virtual_nodes :: "int \<Rightarrow> string \<Rightarrow> ringEntry list" where
  "virtual_nodes n inst =
     map (\<lambda>i. \<lparr>re_hash = hashKey (inst @ ''#'' @ itoa (int i)), re_instance = inst\<rparr>) [0..<nat n]"

definition SetInstances ::
  "(ringEntry list \<Rightarrow> ringEntry list) \<Rightarrow> string list \<Rightarrow> SessionRing \<Rightarrow> SessionRing" where
  "SetInstances srt insts r =
     (let uniq = sort (uniq_instances [] insts);
          ring = srt (concat (map (virtual_nodes (ring_replicas r)) uniq))
      in r\<lparr>ring_instances := uniq, ring_entries := ring\<rparr>)"

text \<open>\<open>sort.Search\<close>.\<close>

function search_loop :: "(nat \<Rightarrow> bool) \<Rightarrow> nat \<Rightarrow> nat \<Rightarrow> nat" where
  "search_loop f i j =
     (if i < j then (let h = (i + j) div 2 in if f h then search_loop f i h else search_loop f (h + 1) j)
      else i)"
  by pat_completeness auto
termination by (relation "measure (\<lambda>(f, i, j). j - i)") auto

declare search_loop.simps [simp del]

definition sort_Search :: "nat \<Rightarrow> (nat \<Rightarrow> bool) \<Rightarrow> nat" where
  "sort_Search n f = search_loop f 0 n"

definition Home :: "SessionRing \<Rightarrow> string \<Rightarrow> string" where
  "Home r sid =
     (let ring = ring_entries r
      in if ring = [] then []
         else (let idx = sort_Search (length ring) (\<lambda>i. re_hash (ring ! i) \<ge> hashKey sid);
                   idx' = (if idx = length ring then 0 else idx)
               in re_instance (ring ! idx')))"

definition Instances :: "SessionRing \<Rightarrow> string list" where
  "Instances r = ring_instances r"

section \<open>The search\<close>

lemma search_step:
  fixes i s h j :: nat
  shows "i \<le> s \<and> s \<le> h \<and> (\<forall>k < s. \<not> f k) \<and> (s < h \<longrightarrow> f s) \<Longrightarrow> f h \<Longrightarrow> h < j \<Longrightarrow>
   i \<le> s \<and> s \<le> j \<and> (\<forall>k < s. \<not> f k) \<and> (s < j \<longrightarrow> f s)"
  by (cases "s = h") auto

lemma search_step2: "(i :: nat) \<le> h \<Longrightarrow> h \<le> s \<and> R \<Longrightarrow> i \<le> s \<and> R"
  by simp

lemma search_loop_spec:
  assumes "i \<le> j" and "\<And>a b. a \<le> b \<Longrightarrow> f a \<Longrightarrow> f b" and "\<forall>k < i. \<not> f k"
  shows "i \<le> search_loop f i j \<and> search_loop f i j \<le> j \<and> (\<forall>k < search_loop f i j. \<not> f k) \<and>
         (search_loop f i j < j \<longrightarrow> f (search_loop f i j))"
  using assms
proof (induction f i j rule: search_loop.induct)
  case (1 f i j)
  let ?h = "(i + j) div 2"
  show ?case
  proof (cases "i < j")
    case False
    with 1(3,5) show ?thesis by (simp add: search_loop.simps [of f j j])
  next
    case True
    show ?thesis
    proof (cases "f ?h")
      case h: True
      have eq: "search_loop f i j = search_loop f i ?h"
        using True h by (simp add: search_loop.simps [of f i j])
      have s: "i \<le> search_loop f i ?h \<and> search_loop f i ?h \<le> ?h \<and>
          (\<forall>k < search_loop f i ?h. \<not> f k) \<and> (search_loop f i ?h < ?h \<longrightarrow> f (search_loop f i ?h))"
        by (rule 1(1) [OF True refl h _ 1(4) 1(5)]) (use True in simp)
      have "?h < j" using True by simp
      then show ?thesis unfolding eq by (rule search_step [OF s h])
    next
      case h: False
      have eq: "search_loop f i j = search_loop f (?h + 1) j"
        using True h by (simp add: search_loop.simps [of f i j] Let_def)
      have notf: "\<forall>k < ?h + 1. \<not> f k" using h 1(4) by (metis Suc_eq_plus1 less_Suc_eq_le)
      have le: "?h + 1 \<le> j" using True by simp
      have "i \<le> ?h + 1" using True by simp
      then show ?thesis unfolding eq by (rule search_step2 [OF _ 1(2) [OF True refl h le 1(4) notf]])
    qed
  qed
qed

section \<open>The sort\<close>

locale hash_sort =
  fixes srt :: "ringEntry list \<Rightarrow> ringEntry list"
  assumes srt_mset: "mset (srt xs) = mset xs"
    and srt_sorted: "sorted (map re_hash (srt xs))"
begin

lemma srt_set [simp]: "set (srt xs) = set xs"
  using srt_mset by (metis set_mset_mset)

lemma srt_Nil_iff [simp]: "srt xs = [] \<longleftrightarrow> xs = []"
  by (metis srt_set set_empty)

text \<open>The entry the search finds is the first one clockwise.\<close>

lemma ring_search:
  fixes h :: u32
  assumes "xs \<noteq> []"
  defines "idx \<equiv> sort_Search (length (srt xs)) (\<lambda>i. re_hash (srt xs ! i) \<ge> h)"
  shows "\<exists>e \<in> set xs. srt xs ! (if idx = length (srt xs) then 0 else idx) = e \<and>
    (\<forall>e' \<in> set xs. unat (re_hash e - h) \<le> unat (re_hash e' - h))"
proof -
  let ?r = "srt xs"
  let ?f = "\<lambda>i. length ?r \<le> i \<or> re_hash (?r ! i) \<ge> h"
  have mono: "re_hash (?r ! a) \<le> re_hash (?r ! b)" if "a \<le> b" "b < length ?r" for a b
    using sorted_nth_mono [OF srt_sorted, of a b xs] that by simp
  have ne: "?r \<noteq> []" using assms(1) by simp
  have loop: "search_loop (\<lambda>i. re_hash (?r ! i) \<ge> h) i j = search_loop ?f i j" if "j \<le> length ?r" for i j
    using that
  proof (induction ?f i j rule: search_loop.induct)
    case (1 i j)
    then show ?case
      by (cases "i < j"; cases "h \<le> re_hash (?r ! ((i + j) div 2))")
         (auto simp: search_loop.simps [of _ i j] Let_def)
  qed
  have fmono: "?f a \<Longrightarrow> ?f b" if "a \<le> b" for a b
    using mono [OF that] that by (cases "b < length ?r") auto
  have spec: "idx \<le> length ?r \<and> (\<forall>k < idx. \<not> ?f k) \<and> (idx < length ?r \<longrightarrow> ?f idx)"
  proof -
    have "\<forall>k < 0. \<not> ?f k" by simp
    from search_loop_spec [OF le0 [of "length ?r"] fmono this] show ?thesis
      unfolding idx_def sort_Search_def loop [OF le_refl] by (rule conjunct2)
  qed
  have dist: "unat (x - h) = (if h \<le> x then unat x - unat h else unat x + 2 ^ 32 - unat h)" for x :: u32
    using unsigned_less [of h, where ?'a = nat]
    by (simp add: unat_sub_if' word_le_nat_alt)
  show ?thesis
  proof (cases "idx = length ?r")
    case True
    have lt: "re_hash e < h" if "e \<in> set xs" for e
    proof -
      from that obtain k where "k < length ?r" "?r ! k = e" by (metis in_set_conv_nth srt_set)
      with spec True show ?thesis by auto
    qed
    have "?r ! 0 \<in> set xs" using ne by (metis length_greater_0_conv nth_mem srt_set)
    moreover have "unat (re_hash (?r ! 0) - h) \<le> unat (re_hash e' - h)" if "e' \<in> set xs" for e'
    proof -
      from that obtain k where k: "k < length ?r" "?r ! k = e'" by (metis in_set_conv_nth srt_set)
      with mono [of 0 k] have "unat (re_hash (?r ! 0)) \<le> unat (re_hash e')" by (simp add: word_le_nat_alt)
      moreover have "\<not> h \<le> re_hash (?r ! 0)" "\<not> h \<le> re_hash e'"
        using lt [OF that] lt [OF \<open>?r ! 0 \<in> set xs\<close>] by simp_all
      ultimately show ?thesis by (simp add: dist diff_le_mono)
    qed
    ultimately show ?thesis using True by auto
  next
    case False
    with spec have lt: "idx < length ?r" and ge: "h \<le> re_hash (?r ! idx)" by auto
    then have "?r ! idx \<in> set xs" by (metis nth_mem srt_set)
    moreover have "unat (re_hash (?r ! idx) - h) \<le> unat (re_hash e' - h)" if "e' \<in> set xs" for e'
    proof -
      from that obtain k where k: "k < length ?r" "?r ! k = e'" by (metis in_set_conv_nth srt_set)
      show ?thesis
      proof (cases "idx \<le> k")
        case True
        with mono [of idx k] k have "re_hash (?r ! idx) \<le> re_hash e'" by simp
        with ge show ?thesis by (simp add: dist word_le_nat_alt)
      next
        case False
        with spec have "\<not> ?f k" by simp
        with k have "re_hash e' < h" by auto
        then show ?thesis using ge unsigned_less [of "re_hash (?r ! idx)", where ?'a = nat]
            unsigned_less [of h, where ?'a = nat]
          by (simp add: dist word_le_nat_alt word_less_nat_alt)
      qed
    qed
    ultimately show ?thesis using False by auto
  qed
qed

end

interpretation ring_sort: hash_sort "sort_key re_hash"
  by unfold_locales simp_all

section \<open>Instances and homes\<close>

lemma set_uniq: "set (uniq_instances seen is) = set is - insert [] (set seen)"
  by (induction "is" arbitrary: seen) auto

lemma distinct_uniq: "distinct (uniq_instances seen is)"
  by (induction "is" arbitrary: seen) (auto simp: set_uniq)

lemma mset_uniq_cong: "set is - {[]} = set js - {[]} \<Longrightarrow> mset (uniq_instances [] is) = mset (uniq_instances [] js)"
  by (rule set_eq_iff_mset_eq_distinct [THEN iffD1, OF distinct_uniq distinct_uniq]) (simp add: set_uniq)

definition node_set :: "int \<Rightarrow> string set \<Rightarrow> ringEntry set" where
  "node_set n S = (\<Union>i \<in> S. set (virtual_nodes n i))"

lemma set_nodes:
  "set (concat (map (virtual_nodes n) (sort (uniq_instances [] insts)))) = node_set n (set insts - {[]})"
  by (simp add: node_set_def set_uniq)

lemma node_instance: "e \<in> node_set n S \<Longrightarrow> re_instance e \<in> S"
  by (auto simp: node_set_def virtual_nodes_def)

text \<open>The home by geometry: a node of the set at the least clockwise distance.\<close>

lemma home_nearest:
  assumes "hash_sort srt" and "0 < ring_replicas r" and "set insts - {[]} \<noteq> {}"
  shows "\<exists>e \<in> node_set (ring_replicas r) (set insts - {[]}).
    Home (SetInstances srt insts r) sid = re_instance e \<and>
    (\<forall>e' \<in> node_set (ring_replicas r) (set insts - {[]}).
       unat (re_hash e - hashKey sid) \<le> unat (re_hash e' - hashKey sid))"
proof -
  let ?xs = "concat (map (virtual_nodes (ring_replicas r)) (sort (uniq_instances [] insts)))"
  obtain i where "i \<in> set insts - {[]}" using assms(3) by blast
  then have "\<lparr>re_hash = hashKey (i @ ''#'' @ itoa (int 0)), re_instance = i\<rparr> \<in> set ?xs"
    unfolding set_nodes node_set_def virtual_nodes_def using assms(2)
    by (intro UN_I [of i]) (auto simp: image_iff intro!: bexI [of _ 0])
  then have ne: "?xs \<noteq> []" by (metis emptyE list.set(1))
  then have "srt ?xs \<noteq> []" using hash_sort.srt_Nil_iff [OF assms(1)] by simp
  then have "Home (SetInstances srt insts r) sid =
      re_instance (srt ?xs ! (let idx = sort_Search (length (srt ?xs)) (\<lambda>i. re_hash (srt ?xs ! i) \<ge> hashKey sid)
                              in if idx = length (srt ?xs) then 0 else idx))"
    by (simp add: Home_def SetInstances_def Let_def)
  with hash_sort.ring_search [OF assms(1) ne, of "hashKey sid"] show ?thesis
    unfolding set_nodes Let_def by auto
qed

section \<open>Properties\<close>

text \<open>C32. The home is alive. With at least one named instance, every session has a home, the home
  is one of the instances given, and it owns the virtual node nearest clockwise to the session's
  hash; without one there is none and the caller stays local.\<close>

theorem home_is_nearest_live_instance:
  assumes "hash_sort srt" and "r = SetInstances srt insts (NewSessionRing n)"
  shows "if set insts - {[]} = {} then Home r sid = []
    else (\<exists>e \<in> node_set (ring_replicas r) (set insts - {[]}).
            Home r sid = re_instance e \<and> Home r sid \<in> set insts \<and> Home r sid \<noteq> [] \<and>
            (\<forall>e' \<in> node_set (ring_replicas r) (set insts - {[]}).
               unat (re_hash e - hashKey sid) \<le> unat (re_hash e' - hashKey sid)))"
proof (cases "set insts - {[]} = {}")
  case True
  then have "set (uniq_instances [] insts) = {}" by (simp add: set_uniq)
  then have "uniq_instances [] insts = []" by simp
  then have "ring_entries r = srt []" using assms(2) by (simp add: SetInstances_def Let_def)
  then have "ring_entries r = []" using hash_sort.srt_Nil_iff [OF assms(1), of "[]"] by simp
  with True show ?thesis by (simp add: Home_def)
next
  case False
  have n: "ring_replicas r = ring_replicas (NewSessionRing n)" "0 < ring_replicas (NewSessionRing n)"
    using assms(2) by (simp_all add: SetInstances_def NewSessionRing_def Let_def)
  from home_nearest [OF assms(1) n(2) False, of sid] obtain e where
    e: "e \<in> node_set (ring_replicas r) (set insts - {[]})" "Home r sid = re_instance e"
    "\<forall>e' \<in> node_set (ring_replicas r) (set insts - {[]}).
       unat (re_hash e - hashKey sid) \<le> unat (re_hash e' - hashKey sid)"
    unfolding n(1) assms(2) [symmetric] by blast
  have "Home r sid \<in> set insts \<and> Home r sid \<noteq> []" using node_instance [OF e(1)] e(2) by simp
  with e show ?thesis unfolding if_not_P [OF False] by blast
qed

theorem home_is_nearest_live_instance_witness:
  "Home (SetInstances (sort_key re_hash) [''a'', [], ''b'', ''a''] (NewSessionRing 0)) ''S1'' \<in> {''a'', ''b''}"
  using home_is_nearest_live_instance [OF ring_sort.hash_sort_axioms refl, of "[''a'', [], ''b'', ''a'']" 0 "''S1''"]
  by (auto split: if_splits)

text \<open>Agreement. The ring depends only on the set of the named instances: two servers that
  discover the same instances, in any order and with repetitions, compute the same ring and the
  same home for every session.\<close>

theorem ring_agreement:
  assumes "set insts - {[]} = set insts' - {[]}"
  shows "SetInstances srt insts r = SetInstances srt insts' r"
proof -
  have "sort (uniq_instances [] insts) = sort (uniq_instances [] insts')"
    by (rule properties_for_sort) (simp_all add: mset_uniq_cong [OF assms])
  then show ?thesis by (simp add: SetInstances_def)
qed

theorem ring_agreement_witness:
  "SetInstances (sort_key re_hash) [''a'', ''b'', [], ''a''] (NewSessionRing 0) =
   SetInstances (sort_key re_hash) [''b'', ''a''] (NewSessionRing 0)"
  by (rule ring_agreement) auto

text \<open>Minimal remapping. When an instance leaves, and the virtual nodes have pairwise distinct
  hashes, every session whose home was another instance keeps its home.\<close>

theorem leave_keeps_other_homes:
  assumes "hash_sort srt" and "hash_sort srt'" and "0 < ring_replicas r"
    and "set insts' - {[]} = set insts - {[], gone}"
    and "inj_on re_hash (node_set (ring_replicas r) (set insts - {[]}))"
    and "Home (SetInstances srt insts r) sid \<noteq> gone" and "set insts - {[]} \<noteq> {}"
  shows "Home (SetInstances srt' insts' r) sid = Home (SetInstances srt insts r) sid"
proof -
  let ?N = "node_set (ring_replicas r) (set insts - {[]})"
    and ?N' = "node_set (ring_replicas r) (set insts' - {[]})"
  obtain e where e: "e \<in> ?N" "Home (SetInstances srt insts r) sid = re_instance e"
    and min: "\<forall>e' \<in> ?N. unat (re_hash e - hashKey sid) \<le> unat (re_hash e' - hashKey sid)"
    using home_nearest [OF assms(1,3,7)] by blast
  have sub: "?N' \<subseteq> ?N" using assms(4) by (auto simp: node_set_def)
  have "re_instance e \<in> set insts' - {[]}" using node_instance [OF e(1)] e(2) assms(4,6) by auto
  with e(1) have e': "e \<in> ?N'" by (auto simp: node_set_def virtual_nodes_def)
  then have "set insts' - {[]} \<noteq> {}" using node_instance by blast
  then obtain f where f: "f \<in> ?N'" "Home (SetInstances srt' insts' r) sid = re_instance f"
    and minf: "\<forall>e' \<in> ?N'. unat (re_hash f - hashKey sid) \<le> unat (re_hash e' - hashKey sid)"
    using home_nearest [OF assms(2,3)] by blast
  have "f \<in> ?N" using f(1) sub by (rule rev_subsetD)
  then have "unat (re_hash f - hashKey sid) = unat (re_hash e - hashKey sid)"
    using min minf e' by (meson antisym)
  then have "re_hash f = re_hash e" by (metis diff_add_cancel unsigned_word_eqI)
  then have "f = e" using assms(5) \<open>f \<in> ?N\<close> e(1) by (auto dest: inj_onD)
  with e(2) f(2) show ?thesis by simp
qed

lemma demo_hashes:
  "hashKey ''a#0'' = 774127560" "hashKey ''b#0'' = 744653201" "hashKey ''S1'' = 2173770834"
  by (simp_all add: hashKey_def crc32_eval)

lemma demo_nodes:
  "node_set 1 {''a'', ''b''} =
     {\<lparr>re_hash = 774127560, re_instance = ''a''\<rparr>, \<lparr>re_hash = 744653201, re_instance = ''b''\<rparr>}"
proof -
  have "char_of (48 :: nat) = CHR ''0''" by code_simp
  then have "itoa (int 0) = ''0''" by (simp add: itoa_def nat_digits.simps digit_char_def)
  then show ?thesis by (simp add: node_set_def virtual_nodes_def demo_hashes insert_commute)
qed

theorem leave_keeps_other_homes_witness:
  "Home (SetInstances (sort_key re_hash) [''b''] (NewSessionRing 1)) ''S1'' =
   Home (SetInstances (sort_key re_hash) [''a'', ''b''] (NewSessionRing 1)) ''S1''"
proof -
  let ?r = "NewSessionRing 1"
  have n: "ring_replicas ?r = 1" by (simp add: NewSessionRing_def)
  have S: "set [''a'', ''b''] - {[]} = {''a'', ''b''}" by auto
  have nodes: "node_set (ring_replicas ?r) (set [''a'', ''b''] - {[]}) =
      {\<lparr>re_hash = 774127560, re_instance = ''a''\<rparr>, \<lparr>re_hash = 744653201, re_instance = ''b''\<rparr>}"
    unfolding n S by (rule demo_nodes)
  have pos: "0 < ring_replicas ?r" and ne: "set [''a'', ''b''] - {[]} \<noteq> {}" using n S by simp_all
  have "Home (SetInstances (sort_key re_hash) [''a'', ''b''] ?r) ''S1'' \<noteq> ''a''"
    using home_nearest [OF ring_sort.hash_sort_axioms pos ne, of "''S1''"]
    unfolding nodes by (auto simp: demo_hashes)
  moreover have "inj_on re_hash (node_set (ring_replicas ?r) (set [''a'', ''b''] - {[]}))"
    unfolding nodes by simp
  moreover have "set [''b''] - {[]} = set [''a'', ''b''] - {[], ''a''}" by auto
  ultimately show ?thesis
    by (intro leave_keeps_other_homes [OF ring_sort.hash_sort_axioms ring_sort.hash_sort_axioms pos _ _ _ ne])
qed

end
