(* ===== verification/Effects.thy ===== *)
theory Effects
  imports Prelude
begin

text \<open>
  Sequential Go code with early returns. An \<open>act\<close> runs on the state \<open>'w\<close> it shares with the rest
  of the program and ends with a result, with an error that skips what follows, or not at all
  (\<open>None\<close>: a loop ran out of the fuel it was given). \<open>wp\<close> is total correctness: an action for
  which \<open>wp m Q E s\<close> holds does end from \<open>s\<close>, a result satisfies \<open>Q\<close> and an error \<open>E\<close>.
\<close>

type_synonym ('w, 'e, 'a) act = "'w \<Rightarrow> (('e + 'a) \<times> 'w) option"

definition ret :: "'a \<Rightarrow> ('w, 'e, 'a) act" where
  "ret a w = Some (Inr a, w)"

definition throw :: "'e \<Rightarrow> ('w, 'e, 'a) act" where
  "throw e w = Some (Inl e, w)"

definition bnd :: "('w, 'e, 'a) act \<Rightarrow> ('a \<Rightarrow> ('w, 'e, 'b) act) \<Rightarrow> ('w, 'e, 'b) act" where
  "bnd m f w =
     (case m w of
        None \<Rightarrow> None
      | Some (Inl e, w') \<Rightarrow> Some (Inl e, w')
      | Some (Inr a, w') \<Rightarrow> f a w')"

text \<open>\<open>attempt\<close> hands the outcome of an action, error or result, to the code that looks at it.\<close>

definition attempt :: "('w, 'e, 'a) act \<Rightarrow> ('e + 'a \<Rightarrow> ('w, 'f, 'b) act) \<Rightarrow> ('w, 'f, 'b) act" where
  "attempt m f w = (case m w of None \<Rightarrow> None | Some (r, w') \<Rightarrow> f r w')"

definition or_throw :: "('w, 'e, 'a) act \<Rightarrow> 'f \<Rightarrow> ('w, 'f, 'a) act" where
  "or_throw m f = attempt m (\<lambda>r. case r of Inl _ \<Rightarrow> throw f | Inr a \<Rightarrow> ret a)"

text \<open>\<open>if err != nil { zlog.Error(...) }\<close>: the error is logged and forgotten.\<close>

definition logged :: "('w, 'e, 'a) act \<Rightarrow> ('w, 'f, unit) act" where
  "logged m = attempt m (\<lambda>_. ret ())"

definition guard :: "bool \<Rightarrow> 'e \<Rightarrow> ('w, 'e, unit) act" where
  "guard b e = (if b then ret () else throw e)"

fun for_each :: "'x list \<Rightarrow> ('x \<Rightarrow> ('w, 'e, unit) act) \<Rightarrow> ('w, 'e, unit) act" where
  "for_each [] f = ret ()"
| "for_each (x # xs) f = bnd (f x) (\<lambda>_. for_each xs f)"

fun map_each :: "'x list \<Rightarrow> ('x \<Rightarrow> ('w, 'e, 'a) act) \<Rightarrow> ('w, 'e, 'a list) act" where
  "map_each [] f = ret []"
| "map_each (x # xs) f = bnd (f x) (\<lambda>a. bnd (map_each xs f) (\<lambda>as. ret (a # as)))"

text \<open>An action whose early returns are answers, too.\<close>

definition answer :: "('w, 'a, 'a) act \<Rightarrow> 'w \<Rightarrow> ('a \<times> 'w) option" where
  "answer m w = map_option (\<lambda>(r, w'). (case r of Inl a \<Rightarrow> a | Inr a \<Rightarrow> a, w')) (m w)"

section \<open>Laws\<close>

lemma bnd_ret [simp]: "bnd (ret a) f = f a" and bnd_throw [simp]: "bnd (throw e) f = throw e"
  and ret_bnd [simp]: "bnd m ret = m"
  by (auto simp: fun_eq_iff bnd_def ret_def throw_def split: option.splits sum.splits)

lemma bnd_assoc: "bnd (bnd m f) g = bnd m (\<lambda>a. bnd (f a) g)"
  by (auto simp: fun_eq_iff bnd_def split: option.splits sum.splits)

lemma guard_simps [simp]: "guard True e = ret ()" "guard False e = throw e"
  by (simp_all add: guard_def)

section \<open>Total correctness\<close>

definition wp :: "('w, 'e, 'a) act \<Rightarrow> ('a \<Rightarrow> 'w \<Rightarrow> bool) \<Rightarrow> ('e \<Rightarrow> 'w \<Rightarrow> bool) \<Rightarrow> 'w \<Rightarrow> bool" where
  "wp m Q E w =
     (case m w of None \<Rightarrow> False | Some (Inl e, w') \<Rightarrow> E e w' | Some (Inr a, w') \<Rightarrow> Q a w')"

named_theorems wp_simps "preconditions by equations"

lemma wp_ret [wp_simps]: "wp (ret a) Q E = Q a"
  and wp_throw [wp_simps]: "wp (throw e) Q E = E e"
  by (simp_all add: fun_eq_iff wp_def ret_def throw_def)

lemma wp_bnd [wp_simps]: "wp (bnd m f) Q E = wp m (\<lambda>a. wp (f a) Q E) E"
  by (simp add: fun_eq_iff wp_def bnd_def split: option.split sum.split)

lemma wp_attempt [wp_simps]:
  "wp (attempt m f) Q E = wp m (\<lambda>a. wp (f (Inr a)) Q E) (\<lambda>e. wp (f (Inl e)) Q E)"
  by (simp add: fun_eq_iff wp_def attempt_def split: option.split sum.split)

lemma wp_or_throw [wp_simps]: "wp (or_throw m e) Q E = wp m Q (\<lambda>_. E e)"
  by (simp add: or_throw_def wp_simps)

lemma wp_logged [wp_simps]: "wp (logged m) Q E = wp m (\<lambda>_. Q ()) (\<lambda>_. Q ())"
  by (simp add: logged_def wp_simps)

lemma wp_guard [wp_simps]: "wp (guard b e) Q E = (if b then Q () else E e)"
  by (simp add: guard_def wp_simps)

lemma wp_if [wp_simps]: "wp (if b then m else m') Q E = (if b then wp m Q E else wp m' Q E)"
  by simp

lemma wp_mono:
  assumes "wp m Q E w" and "\<And>a w'. Q a w' \<Longrightarrow> Q' a w'" and "\<And>e w'. E e w' \<Longrightarrow> E' e w'"
  shows "wp m Q' E' w"
  using assms by (auto simp: wp_def split: option.splits sum.splits prod.splits)

lemma wp_conj:
  "wp m Q E w \<Longrightarrow> wp m Q' E' w \<Longrightarrow> wp m (\<lambda>a w'. Q a w' \<and> Q' a w') (\<lambda>e w'. E e w' \<and> E' e w') w"
  by (auto simp: wp_def split: option.splits sum.splits prod.splits)

lemma wpI: "m w = Some (r, w') \<Longrightarrow> (case r of Inl e \<Rightarrow> E e w' | Inr a \<Rightarrow> Q a w') \<Longrightarrow> wp m Q E w"
  by (simp add: wp_def split: sum.splits)

lemma wpE:
  assumes "wp m Q E w"
  obtains (result) a w' where "m w = Some (Inr a, w')" "Q a w'"
  | (error) e w' where "m w = Some (Inl e, w')" "E e w'"
proof (cases "m w")
  case None
  with assms show thesis by (simp add: wp_def)
next
  case (Some p)
  then obtain r w' where "m w = Some (r, w')" by (cases p) auto
  with assms result error show thesis by (cases r) (auto simp: wp_def)
qed

lemma wp_seq: "wp m R X w \<Longrightarrow> (\<And>a w'. R a w' \<Longrightarrow> wp (f a) Q X w') \<Longrightarrow> wp (bnd m f) Q X w"
  unfolding wp_bnd by (rule wp_mono)

lemma wp_for_each:
  assumes "\<And>x v. x \<in> set xs \<Longrightarrow> I v \<Longrightarrow> wp (f x) (\<lambda>_. I) E v" and "I w" and "\<And>v. I v \<Longrightarrow> Q () v"
  shows "wp (for_each xs f) Q E w"
  using assms
proof (induction xs arbitrary: w)
  case Nil
  then show ?case by (simp add: wp_simps)
next
  case (Cons x xs)
  have "wp (f x) (\<lambda>_. I) E w" using Cons.prems by simp
  then have "wp (f x) (\<lambda>_. wp (for_each xs f) Q E) E w"
    by (rule wp_mono) (use Cons in auto)
  then show ?case by (simp add: wp_simps)
qed

text \<open>The loop with the part of the list that is done.\<close>

lemma wp_for_each_upto:
  assumes "\<And>ys x zs v. xs = ys @ x # zs \<Longrightarrow> I ys v \<Longrightarrow> wp (f x) (\<lambda>_. I (ys @ [x])) E v"
    and "I [] w" and "\<And>v. I xs v \<Longrightarrow> Q () v"
  shows "wp (for_each xs f) Q E w"
proof -
  have "I ys v \<Longrightarrow> xs = ys @ zs \<Longrightarrow> wp (for_each zs f) Q E v" for ys zs v
  proof (induction zs arbitrary: ys v)
    case Nil
    then show ?case using assms(3) by (simp add: wp_simps)
  next
    case (Cons z zs)
    have "wp (f z) (\<lambda>_. I (ys @ [z])) E v" using assms(1) Cons.prems by blast
    then have "wp (f z) (\<lambda>_. wp (for_each zs f) Q E) E v"
      by (rule wp_mono) (use Cons in auto)
    then show ?case by (simp add: wp_simps)
  qed
  with assms(2) show ?thesis by simp
qed

lemma wp_map_each:
  assumes "\<And>x v. x \<in> set xs \<Longrightarrow> I v \<Longrightarrow> wp (f x) (\<lambda>_. I) E v" and "I w" and "\<And>as v. I v \<Longrightarrow> Q as v"
  shows "wp (map_each xs f) Q E w"
  using assms
proof (induction xs arbitrary: w Q)
  case Nil
  then show ?case by (simp add: wp_simps)
next
  case (Cons x xs)
  have "wp (f x) (\<lambda>_. I) E w" using Cons.prems by simp
  then have "wp (f x) (\<lambda>a. wp (bnd (map_each xs f) (\<lambda>as. ret (a # as))) Q E) E w"
    by (rule wp_mono) (use Cons in \<open>auto simp: wp_simps\<close>)
  then show ?case by (simp add: wp_simps)
qed

lemma wp_answer:
  assumes "wp m Q (\<lambda>a. Q a) w"
  shows "\<exists>a w'. answer m w = Some (a, w') \<and> Q a w'"
  using assms by (auto simp: answer_def elim!: wpE)

end
