(* ===== verification/Models.thy ===== *)
theory Models
  imports Prelude
begin

text \<open>
  The tables of the database (\<open>internal/model\<close>) and the status codes (\<open>pkg/enum\<close>). Each table is
  a record with the fields of its struct; \<open>row\<close> is a row of any table. Two conventions of soft
  deletion are in use: \<open>user_info\<close>, \<open>group_info\<close> and \<open>group_member\<close> hold a time stamp that is 0
  while the row is live, the other tables a time that is absent while it is live.
\<close>

section \<open>Status codes\<close>

abbreviation (input) "contact_NORMAL \<equiv> 0 :: int"
abbreviation (input) "contact_BE_BLACK \<equiv> 1 :: int"
abbreviation (input) "contact_BLACK \<equiv> 2 :: int"
abbreviation (input) "contact_BE_DELETE \<equiv> 3 :: int"
abbreviation (input) "contact_DELETE \<equiv> 4 :: int"
abbreviation (input) "contact_SILENCE \<equiv> 5 :: int"
abbreviation (input) "contact_QUIT_GROUP \<equiv> 6 :: int"
abbreviation (input) "contact_KICK_OUT_GROUP \<equiv> 7 :: int"

abbreviation (input) "type_USER \<equiv> 0 :: int"
abbreviation (input) "type_GROUP \<equiv> 1 :: int"

abbreviation (input) "apply_PENDING \<equiv> 0 :: int"
abbreviation (input) "apply_AGREE \<equiv> 1 :: int"
abbreviation (input) "apply_REFUSE \<equiv> 2 :: int"
abbreviation (input) "apply_BLACK \<equiv> 3 :: int"

abbreviation (input) "group_NORMAL \<equiv> 0 :: int"
abbreviation (input) "group_DISABLE \<equiv> 1 :: int"
abbreviation (input) "group_DISSOLVE \<equiv> 2 :: int"

abbreviation (input) "role_MEMBER \<equiv> 0 :: int"
abbreviation (input) "role_OWNER \<equiv> 1 :: int"
abbreviation (input) "role_ADMIN \<equiv> 2 :: int"

abbreviation (input) "member_NORMAL \<equiv> 0 :: int"
abbreviation (input) "member_KICKED \<equiv> 1 :: int"
abbreviation (input) "member_QUIT \<equiv> 2 :: int"

abbreviation (input) "message_Unsent \<equiv> 0 :: int"
abbreviation (input) "message_Sent \<equiv> 1 :: int"

abbreviation (input) "type_Text \<equiv> 0 :: int"
abbreviation (input) "type_Voice \<equiv> 1 :: int"
abbreviation (input) "type_File \<equiv> 2 :: int"
abbreviation (input) "type_AudioOrVideo \<equiv> 3 :: int"

abbreviation (input) "user_NORMAL \<equiv> 0 :: int"
abbreviation (input) "user_DISABLE \<equiv> 1 :: int"

section \<open>Tables\<close>

record UserInfo =
  ui_id :: int
  ui_uuid :: uuid
  ui_nickname :: string
  ui_telephone :: string
  ui_email :: string
  ui_avatar :: string
  ui_gender :: int
  ui_signature :: string
  ui_password :: string
  ui_birthday :: string
  ui_created_at :: time
  ui_deleted_at :: int
  ui_last_online_at :: "time option"
  ui_last_offline_at :: "time option"
  ui_is_admin :: int
  ui_status :: int

record GroupInfo =
  gi_id :: int
  gi_uuid :: uuid
  gi_name :: string
  gi_notice :: string
  gi_owner_id :: uuid
  gi_add_mode :: int
  gi_avatar :: string
  gi_status :: int
  gi_created_at :: time
  gi_updated_at :: time
  gi_deleted_at :: int

record GroupMember =
  gm_id :: int
  gm_group_id :: uuid
  gm_user_id :: uuid
  gm_role :: int
  gm_status :: int
  gm_mute_until :: "time option"
  gm_joined_at :: time
  gm_created_at :: time
  gm_updated_at :: time
  gm_deleted_at :: int

record UserContact =
  uc_id :: int
  uc_user_id :: uuid
  uc_contact_id :: uuid
  uc_contact_type :: int
  uc_status :: int
  uc_created_at :: time
  uc_update_at :: time
  uc_deleted_at :: "time option"

record ContactApply =
  ca_id :: int
  ca_uuid :: uuid
  ca_user_id :: uuid
  ca_contact_id :: uuid
  ca_contact_type :: int
  ca_status :: int
  ca_message :: string
  ca_last_apply_at :: time
  ca_deleted_at :: "time option"

record Session =
  se_id :: int
  se_uuid :: uuid
  se_send_id :: uuid
  se_receive_id :: uuid
  se_receive_name :: string
  se_avatar :: string
  se_last_message :: string
  se_last_message_at :: "time option"
  se_created_at :: time
  se_deleted_at :: "time option"

record Message =
  ms_id :: int
  ms_uuid :: uuid
  ms_session_id :: uuid
  ms_type :: int
  ms_content :: string
  ms_url :: string
  ms_send_id :: uuid
  ms_send_name :: string
  ms_send_avatar :: string
  ms_receive_id :: uuid
  ms_file_type :: string
  ms_file_name :: string
  ms_file_size :: string
  ms_file_size_bytes :: int
  ms_status :: int
  ms_read_status :: int
  ms_read_at :: "time option"
  ms_created_at :: time
  ms_send_at :: "time option"
  ms_av_data :: string
  ms_deleted_at :: "time option"

record FileMetadata =
  fm_id :: int
  fm_uuid :: uuid
  fm_uploader_uuid :: uuid
  fm_server_name :: string
  fm_original_name :: string
  fm_file_type :: string
  fm_file_size :: int
  fm_is_avatar :: int
  fm_created_at :: time
  fm_deleted_at :: "time option"

datatype row =
    RUser UserInfo | RGroup GroupInfo | RMember GroupMember | RContact UserContact
  | RApply ContactApply | RSession Session | RMessage Message | RFile FileMetadata

section \<open>Keys\<close>

text \<open>The unique indexes of the models: two rows clash when an index maps them to one key. The
  indexes of the tables with a \<open>bigint\<close> stamp include it, except for the uuid of a user.\<close>

fun key_clash :: "row \<Rightarrow> row \<Rightarrow> bool" where
  "key_clash (RUser a) (RUser b) \<longleftrightarrow>
     ui_uuid a = ui_uuid b \<or> (ui_email a = ui_email b \<and> ui_deleted_at a = ui_deleted_at b)"
| "key_clash (RGroup a) (RGroup b) \<longleftrightarrow> gi_uuid a = gi_uuid b \<and> gi_deleted_at a = gi_deleted_at b"
| "key_clash (RMember a) (RMember b) \<longleftrightarrow>
     gm_group_id a = gm_group_id b \<and> gm_user_id a = gm_user_id b \<and> gm_deleted_at a = gm_deleted_at b"
| "key_clash (RContact a) (RContact b) \<longleftrightarrow> uc_user_id a = uc_user_id b \<and> uc_contact_id a = uc_contact_id b"
| "key_clash (RApply a) (RApply b) \<longleftrightarrow> ca_uuid a = ca_uuid b"
| "key_clash (RSession a) (RSession b) \<longleftrightarrow> se_uuid a = se_uuid b"
| "key_clash (RMessage a) (RMessage b) \<longleftrightarrow> ms_uuid a = ms_uuid b"
| "key_clash (RFile a) (RFile b) \<longleftrightarrow> fm_uuid a = fm_uuid b"
| "key_clash _ _ \<longleftrightarrow> False"

fun row_id :: "row \<Rightarrow> int" where
  "row_id (RUser a) = ui_id a"
| "row_id (RGroup a) = gi_id a"
| "row_id (RMember a) = gm_id a"
| "row_id (RContact a) = uc_id a"
| "row_id (RApply a) = ca_id a"
| "row_id (RSession a) = se_id a"
| "row_id (RMessage a) = ms_id a"
| "row_id (RFile a) = fm_id a"

fun set_row_id :: "int \<Rightarrow> row \<Rightarrow> row" where
  "set_row_id n (RUser a) = RUser (a\<lparr>ui_id := n\<rparr>)"
| "set_row_id n (RGroup a) = RGroup (a\<lparr>gi_id := n\<rparr>)"
| "set_row_id n (RMember a) = RMember (a\<lparr>gm_id := n\<rparr>)"
| "set_row_id n (RContact a) = RContact (a\<lparr>uc_id := n\<rparr>)"
| "set_row_id n (RApply a) = RApply (a\<lparr>ca_id := n\<rparr>)"
| "set_row_id n (RSession a) = RSession (a\<lparr>se_id := n\<rparr>)"
| "set_row_id n (RMessage a) = RMessage (a\<lparr>ms_id := n\<rparr>)"
| "set_row_id n (RFile a) = RFile (a\<lparr>fm_id := n\<rparr>)"

text \<open>A live row, by the soft-delete field of its table.\<close>

fun live_row :: "row \<Rightarrow> bool" where
  "live_row (RUser a) \<longleftrightarrow> ui_deleted_at a = 0"
| "live_row (RGroup a) \<longleftrightarrow> gi_deleted_at a = 0"
| "live_row (RMember a) \<longleftrightarrow> gm_deleted_at a = 0"
| "live_row (RContact a) \<longleftrightarrow> uc_deleted_at a = None"
| "live_row (RApply a) \<longleftrightarrow> ca_deleted_at a = None"
| "live_row (RSession a) \<longleftrightarrow> se_deleted_at a = None"
| "live_row (RMessage a) \<longleftrightarrow> ms_deleted_at a = None"
| "live_row (RFile a) \<longleftrightarrow> fm_deleted_at a = None"

fun same_table :: "row \<Rightarrow> row \<Rightarrow> bool" where
  "same_table (RUser a) (RUser b) \<longleftrightarrow> True"
| "same_table (RGroup a) (RGroup b) \<longleftrightarrow> True"
| "same_table (RMember a) (RMember b) \<longleftrightarrow> True"
| "same_table (RContact a) (RContact b) \<longleftrightarrow> True"
| "same_table (RApply a) (RApply b) \<longleftrightarrow> True"
| "same_table (RSession a) (RSession b) \<longleftrightarrow> True"
| "same_table (RMessage a) (RMessage b) \<longleftrightarrow> True"
| "same_table (RFile a) (RFile b) \<longleftrightarrow> True"
| "same_table _ _ \<longleftrightarrow> False"

text \<open>The primary key is unique, too.\<close>

definition conflict :: "row \<Rightarrow> row \<Rightarrow> bool" where
  "conflict a b \<longleftrightarrow> same_table a b \<and> row_id a = row_id b \<or> key_clash a b"

definition unique_rows :: "row list \<Rightarrow> bool" where
  "unique_rows rs \<longleftrightarrow> sorted_wrt (\<lambda>a b. \<not> conflict a b) rs"

lemma conflict_sym: "conflict a b \<longleftrightarrow> conflict b a"
  by (cases a; cases b) (auto simp: conflict_def)

lemma key_clash_set_row_id [simp]:
  "key_clash (set_row_id n a) b \<longleftrightarrow> key_clash a b" "key_clash a (set_row_id n b) \<longleftrightarrow> key_clash a b"
  by (cases a; cases b; simp)+

lemma same_table_set_row_id [simp]:
  "same_table (set_row_id n a) b \<longleftrightarrow> same_table a b" "same_table a (set_row_id n b) \<longleftrightarrow> same_table a b"
  by (cases a; cases b; simp)+

lemma unique_rowsD:
  assumes "unique_rows rs" and "a \<in> set rs" and "b \<in> set rs" and "a \<noteq> b"
  shows "\<not> conflict a b"
proof -
  have "sorted_wrt P xs \<Longrightarrow> x \<in> set xs \<Longrightarrow> y \<in> set xs \<Longrightarrow> x \<noteq> y \<Longrightarrow> P x y \<or> P y x"
    for P and xs :: "row list" and x y
    by (induction xs) auto
  from this [of _ rs a b] assms show ?thesis unfolding unique_rows_def conflict_sym [of a b]
    by (metis conflict_sym)
qed

lemma key_clash_refl [simp]: "key_clash r r"
  by (cases r) simp_all

lemma conflict_self [simp]: "conflict (set_row_id n r) r" "conflict r r"
  by (simp_all add: conflict_def)

lemma unique_rows_distinct: "unique_rows rs \<Longrightarrow> distinct rs"
  unfolding unique_rows_def by (induction rs) (auto simp: conflict_def)

lemma row_id_set_row_id [simp]: "row_id (set_row_id n r) = n"
  by (cases r) auto

lemma live_set_row_id [simp]: "live_row (set_row_id n r) = live_row r"
  by (cases r) auto

end
