(* ===== verification/Redis_Store.thy ===== *)
theory Redis_Store
  imports Go_Strings
begin

text \<open>
  \<open>service/redis/redis_service.go\<close>: the wrappers around the Redis client. The client and the
  server are not part of the repository: \<open>redis_client\<close> collects the commands the wrappers use
  as functions on an unknown state \<open>'r\<close>, each of which may fail. Their documented behaviour is
  stated by the locales \<open>redis_strings\<close>, \<open>redis_sets\<close> and \<open>redis_scan\<close> over abstract views of
  the state: the string and the set a key holds at a time, with the expiry already applied. An
  in-memory store with a schedule of faults satisfies the contracts.
\<close>

datatype 'a reply = RErr | ROk 'a

text \<open>\<open>redis.Nil\<close> is a reply of its own in the wrappers that return it.\<close>

datatype redis_error = RedisNil | RedisFault | RedisManyKeys

type_synonym 'a redis_result = "redis_error + 'a"

record XMessage =
  xm_id :: string
  xm_values :: "(string \<times> string) list"

record 'r redis_client =
  rc_set :: "string \<Rightarrow> string \<Rightarrow> time \<Rightarrow> time \<Rightarrow> 'r \<Rightarrow> unit reply \<times> 'r"
  rc_setnx :: "string \<Rightarrow> string \<Rightarrow> time \<Rightarrow> time \<Rightarrow> 'r \<Rightarrow> bool reply \<times> 'r"
  rc_get :: "string \<Rightarrow> time \<Rightarrow> 'r \<Rightarrow> string option reply \<times> 'r"
  rc_mget :: "string list \<Rightarrow> time \<Rightarrow> 'r \<Rightarrow> string option list reply \<times> 'r"
  rc_incr :: "string \<Rightarrow> time \<Rightarrow> 'r \<Rightarrow> int reply \<times> 'r"
  rc_exists :: "string \<Rightarrow> time \<Rightarrow> 'r \<Rightarrow> int reply \<times> 'r"
  rc_del :: "string list \<Rightarrow> time \<Rightarrow> 'r \<Rightarrow> int reply \<times> 'r"
  rc_expire :: "string \<Rightarrow> time \<Rightarrow> time \<Rightarrow> 'r \<Rightarrow> bool reply \<times> 'r"
  rc_sadd :: "string \<Rightarrow> string list \<Rightarrow> time \<Rightarrow> 'r \<Rightarrow> int reply \<times> 'r"
  rc_srem :: "string \<Rightarrow> string list \<Rightarrow> time \<Rightarrow> 'r \<Rightarrow> int reply \<times> 'r"
  rc_smembers :: "string \<Rightarrow> time \<Rightarrow> 'r \<Rightarrow> string list reply \<times> 'r"
  rc_scan :: "u64 \<Rightarrow> string \<Rightarrow> int \<Rightarrow> time \<Rightarrow> 'r \<Rightarrow> (string list \<times> u64) reply \<times> 'r"
  rc_xgroup :: "string \<Rightarrow> string \<Rightarrow> string \<Rightarrow> time \<Rightarrow> 'r \<Rightarrow> unit reply \<times> 'r"
  rc_xadd :: "string \<Rightarrow> (string \<times> string) list \<Rightarrow> int option \<Rightarrow> time \<Rightarrow> 'r \<Rightarrow> string reply \<times> 'r"
  rc_xread :: "string \<Rightarrow> string \<Rightarrow> string \<Rightarrow> string \<Rightarrow> int \<Rightarrow> time \<Rightarrow> time \<Rightarrow> 'r
               \<Rightarrow> XMessage list option reply \<times> 'r"
  rc_xack :: "string \<Rightarrow> string \<Rightarrow> string list \<Rightarrow> time \<Rightarrow> 'r \<Rightarrow> int reply \<times> 'r"

section \<open>The wrappers\<close>

definition void_reply :: "'a reply \<times> 'r \<Rightarrow> unit redis_result \<times> 'r" where
  "void_reply p = (case p of (RErr, s) \<Rightarrow> (Inl RedisFault, s) | (ROk _, s) \<Rightarrow> (Inr (), s))"

definition plain_reply :: "'a reply \<times> 'r \<Rightarrow> 'a redis_result \<times> 'r" where
  "plain_reply p = (case p of (RErr, s) \<Rightarrow> (Inl RedisFault, s) | (ROk a, s) \<Rightarrow> (Inr a, s))"

definition SetKeyEx :: "'r redis_client \<Rightarrow> string \<Rightarrow> string \<Rightarrow> time \<Rightarrow> time \<Rightarrow> 'r \<Rightarrow> unit redis_result \<times> 'r" where
  "SetKeyEx R key val ttl now s = void_reply (rc_set R key val ttl now s)"

definition Incr :: "'r redis_client \<Rightarrow> string \<Rightarrow> time \<Rightarrow> 'r \<Rightarrow> int redis_result \<times> 'r" where
  "Incr R key now s = plain_reply (rc_incr R key now s)"

definition SetNX :: "'r redis_client \<Rightarrow> string \<Rightarrow> string \<Rightarrow> time \<Rightarrow> time \<Rightarrow> 'r \<Rightarrow> bool redis_result \<times> 'r" where
  "SetNX R key val ttl now s = plain_reply (rc_setnx R key val ttl now s)"

definition SAdd :: "'r redis_client \<Rightarrow> string \<Rightarrow> string list \<Rightarrow> time \<Rightarrow> 'r \<Rightarrow> unit redis_result \<times> 'r" where
  "SAdd R key ms now s = void_reply (rc_sadd R key ms now s)"

definition SRem :: "'r redis_client \<Rightarrow> string \<Rightarrow> string list \<Rightarrow> time \<Rightarrow> 'r \<Rightarrow> unit redis_result \<times> 'r" where
  "SRem R key ms now s = void_reply (rc_srem R key ms now s)"

definition SMembers :: "'r redis_client \<Rightarrow> string \<Rightarrow> time \<Rightarrow> 'r \<Rightarrow> string list redis_result \<times> 'r" where
  "SMembers R key now s = plain_reply (rc_smembers R key now s)"

definition Expire :: "'r redis_client \<Rightarrow> string \<Rightarrow> time \<Rightarrow> time \<Rightarrow> 'r \<Rightarrow> unit redis_result \<times> 'r" where
  "Expire R key ttl now s = void_reply (rc_expire R key ttl now s)"

text \<open>\<open>GetKey\<close> hides the missing key behind the empty string; \<open>GetKeyNilIsErr\<close> does not.\<close>

definition GetKey :: "'r redis_client \<Rightarrow> string \<Rightarrow> time \<Rightarrow> 'r \<Rightarrow> string redis_result \<times> 'r" where
  "GetKey R key now s =
     (case rc_get R key now s of
        (RErr, s') \<Rightarrow> (Inl RedisFault, s')
      | (ROk None, s') \<Rightarrow> (Inr [], s')
      | (ROk (Some v), s') \<Rightarrow> (Inr v, s'))"

definition GetKeyNilIsErr :: "'r redis_client \<Rightarrow> string \<Rightarrow> time \<Rightarrow> 'r \<Rightarrow> string redis_result \<times> 'r" where
  "GetKeyNilIsErr R key now s =
     (case rc_get R key now s of
        (RErr, s') \<Rightarrow> (Inl RedisFault, s')
      | (ROk None, s') \<Rightarrow> (Inl RedisNil, s')
      | (ROk (Some v), s') \<Rightarrow> (Inr v, s'))"

definition MGet :: "'r redis_client \<Rightarrow> string list \<Rightarrow> time \<Rightarrow> 'r \<Rightarrow> string list redis_result \<times> 'r" where
  "MGet R keys now s =
     (if keys = [] then (Inr [], s)
      else (case rc_mget R keys now s of
              (RErr, s') \<Rightarrow> (Inl RedisFault, s')
            | (ROk vs, s') \<Rightarrow>
                (Inr (map (\<lambda>v. case v of None \<Rightarrow> [] | Some t \<Rightarrow> t) vs), s')))"

definition DelKeyIfExists :: "'r redis_client \<Rightarrow> string \<Rightarrow> time \<Rightarrow> 'r \<Rightarrow> unit redis_result \<times> 'r" where
  "DelKeyIfExists R key now s =
     (case rc_exists R key now s of
        (RErr, s') \<Rightarrow> (Inl RedisFault, s')
      | (ROk n, s') \<Rightarrow> (if n = 1 then void_reply (rc_del R [key] now s') else (Inr (), s')))"

text \<open>The SCAN loop; the fuel bounds the number of round trips (\<open>None\<close>: not done yet).\<close>

fun scan_loop ::
  "'r redis_client \<Rightarrow> nat \<Rightarrow> u64 \<Rightarrow> string \<Rightarrow> int \<Rightarrow> string list \<Rightarrow> time \<Rightarrow> 'r
   \<Rightarrow> (string list reply \<times> 'r) option" where
  "scan_loop R 0 cursor pat cnt keys now s = None"
| "scan_loop R (Suc n) cursor pat cnt keys now s =
     (case rc_scan R cursor pat cnt now s of
        (RErr, s') \<Rightarrow> Some (RErr, s')
      | (ROk (ks, c), s') \<Rightarrow>
          if c = 0 then Some (ROk (keys @ ks), s')
          else scan_loop R n c pat cnt (keys @ ks) now s')"

definition ScanKeys ::
  "'r redis_client \<Rightarrow> nat \<Rightarrow> string \<Rightarrow> time \<Rightarrow> 'r \<Rightarrow> (string list redis_result \<times> 'r) option" where
  "ScanKeys R fuel pfx now s =
     map_option plain_reply (scan_loop R fuel 0 (pfx @ ''*'') 100 [] now s)"

definition one_key :: "string list reply \<times> 'r \<Rightarrow> string redis_result \<times> 'r" where
  "one_key p =
     (case p of
        (RErr, s) \<Rightarrow> (Inl RedisFault, s)
      | (ROk [], s) \<Rightarrow> (Inl RedisNil, s)
      | (ROk [k], s) \<Rightarrow> (Inr k, s)
      | (ROk (_ # _ # _), s) \<Rightarrow> (Inl RedisManyKeys, s))"

definition GetKeyWithPrefixNilIsErr ::
  "'r redis_client \<Rightarrow> nat \<Rightarrow> string \<Rightarrow> time \<Rightarrow> 'r \<Rightarrow> (string redis_result \<times> 'r) option" where
  "GetKeyWithPrefixNilIsErr R fuel pfx now s =
     map_option one_key (scan_loop R fuel 0 (pfx @ ''*'') 100 [] now s)"

definition GetKeyWithSuffixNilIsErr ::
  "'r redis_client \<Rightarrow> nat \<Rightarrow> string \<Rightarrow> time \<Rightarrow> 'r \<Rightarrow> (string redis_result \<times> 'r) option" where
  "GetKeyWithSuffixNilIsErr R fuel sfx now s =
     map_option one_key (scan_loop R fuel 0 (''*'' @ sfx) 100 [] now s)"

text \<open>Scanning and deleting page by page.\<close>

fun del_loop ::
  "'r redis_client \<Rightarrow> nat \<Rightarrow> u64 \<Rightarrow> string \<Rightarrow> int \<Rightarrow> time \<Rightarrow> 'r \<Rightarrow> (unit redis_result \<times> 'r) option" where
  "del_loop R 0 cursor pat cnt now s = None"
| "del_loop R (Suc n) cursor pat cnt now s =
     (case rc_scan R cursor pat cnt now s of
        (RErr, s1) \<Rightarrow> Some (Inl RedisFault, s1)
      | (ROk (ks, c), s1) \<Rightarrow>
          (case (if ks = [] then (ROk 0, s1) else rc_del R ks now s1) of
             (RErr, s2) \<Rightarrow> Some (Inl RedisFault, s2)
           | (ROk _, s2) \<Rightarrow>
               if c = 0 then Some (Inr (), s2) else del_loop R n c pat cnt now s2))"

definition DelKeysWithPattern ::
  "'r redis_client \<Rightarrow> nat \<Rightarrow> string \<Rightarrow> time \<Rightarrow> 'r \<Rightarrow> (unit redis_result \<times> 'r) option" where
  "DelKeysWithPattern R fuel pat now s = del_loop R fuel 0 pat 100 now s"

definition DelKeysWithPrefix ::
  "'r redis_client \<Rightarrow> nat \<Rightarrow> string \<Rightarrow> time \<Rightarrow> 'r \<Rightarrow> (unit redis_result \<times> 'r) option" where
  "DelKeysWithPrefix R fuel pfx now s = del_loop R fuel 0 (pfx @ ''*'') 100 now s"

definition DelKeysWithSuffix ::
  "'r redis_client \<Rightarrow> nat \<Rightarrow> string \<Rightarrow> time \<Rightarrow> 'r \<Rightarrow> (unit redis_result \<times> 'r) option" where
  "DelKeysWithSuffix R fuel sfx now s = del_loop R fuel 0 (''*'' @ sfx) 100 now s"

definition DeleteAllRedisKeys ::
  "'r redis_client \<Rightarrow> nat \<Rightarrow> time \<Rightarrow> 'r \<Rightarrow> (unit redis_result \<times> 'r) option" where
  "DeleteAllRedisKeys R fuel now s = del_loop R fuel 0 ''*'' 0 now s"

definition XGroupCreateMkStream ::
  "'r redis_client \<Rightarrow> string \<Rightarrow> string \<Rightarrow> time \<Rightarrow> 'r \<Rightarrow> unit redis_result \<times> 'r" where
  "XGroupCreateMkStream R stream grp now s = void_reply (rc_xgroup R stream grp ''$'' now s)"

definition XAddMessage ::
  "'r redis_client \<Rightarrow> string \<Rightarrow> string \<Rightarrow> string \<Rightarrow> int \<Rightarrow> time \<Rightarrow> 'r \<Rightarrow> unit redis_result \<times> 'r" where
  "XAddMessage R stream key val maxLen now s =
     void_reply (rc_xadd R stream [(key, val)] (if maxLen > 0 then Some maxLen else None) now s)"

definition XReadGroupMessages ::
  "'r redis_client \<Rightarrow> string \<Rightarrow> string \<Rightarrow> string \<Rightarrow> string \<Rightarrow> int \<Rightarrow> time \<Rightarrow> time \<Rightarrow> 'r
   \<Rightarrow> XMessage list redis_result \<times> 'r" where
  "XReadGroupMessages R stream grp consumer sid cnt block now s =
     (case rc_xread R stream grp consumer sid cnt block now s of
        (RErr, s') \<Rightarrow> (Inl RedisFault, s')
      | (ROk None, s') \<Rightarrow> (Inr [], s')
      | (ROk (Some ms), s') \<Rightarrow> (Inr ms, s'))"

definition XAck ::
  "'r redis_client \<Rightarrow> string \<Rightarrow> string \<Rightarrow> string list \<Rightarrow> time \<Rightarrow> 'r \<Rightarrow> unit redis_result \<times> 'r" where
  "XAck R stream grp ids now s =
     (if ids = [] then (Inr (), s) else void_reply (rc_xack R stream grp ids now s))"

section \<open>The contract of the string commands\<close>

text \<open>
  \<open>str_at s t k\<close> is the string of key \<open>k\<close> in state \<open>s\<close>, read at time \<open>t\<close>. A failed write may or
  may not have happened, so nothing is said of its key; reads do not change the state.
\<close>

locale redis_strings =
  fixes R :: "'r redis_client" and str_at :: "'r \<Rightarrow> time \<Rightarrow> string \<Rightarrow> string option"
  assumes get_ok: "rc_get R k now s = (ROk ov, s') \<Longrightarrow> ov = str_at s now k \<and> s' = s"
    and get_err: "rc_get R k now s = (RErr, s') \<Longrightarrow> s' = s"
    and mget_ok: "rc_mget R ks now s = (ROk vs, s') \<Longrightarrow> vs = map (str_at s now) ks \<and> s' = s"
    and mget_err: "rc_mget R ks now s = (RErr, s') \<Longrightarrow> s' = s"
    and set_ok: "rc_set R k v ttl now s = (ROk u, s') \<Longrightarrow> 0 < ttl \<Longrightarrow> now \<le> t \<Longrightarrow>
      str_at s' t k' = (if k' = k then (if t < now + ttl then Some v else None) else str_at s t k')"
    and set_err: "rc_set R k v ttl now s = (RErr, s') \<Longrightarrow> k' \<noteq> k \<Longrightarrow> now \<le> t \<Longrightarrow> str_at s' t k' = str_at s t k'"
    and set_err_key: "rc_set R k v ttl now s = (RErr, s') \<Longrightarrow> 0 < ttl \<Longrightarrow> now \<le> t \<Longrightarrow>
      str_at s' t k = str_at s t k \<or> str_at s' t k = (if t < now + ttl then Some v else None)"
    and exists_ok: "rc_exists R k now s = (ROk n, s') \<Longrightarrow> s' = s \<and> (str_at s now k \<noteq> None \<longrightarrow> n = 1)"
    and exists_err: "rc_exists R k now s = (RErr, s') \<Longrightarrow> s' = s"
    and del_ok: "rc_del R ks now s = (ROk n, s') \<Longrightarrow> now \<le> t \<Longrightarrow>
      str_at s' t k = (if k \<in> set ks then None else str_at s t k)"
    and del_err: "rc_del R ks now s = (RErr, s') \<Longrightarrow> k \<notin> set ks \<Longrightarrow> now \<le> t \<Longrightarrow> str_at s' t k = str_at s t k"
    and expired: "str_at s t k = None \<Longrightarrow> t \<le> t' \<Longrightarrow> str_at s t' k = None"
begin

lemma SetKeyEx_ok:
  "SetKeyEx R k v ttl now s = (Inr u, s') \<Longrightarrow> 0 < ttl \<Longrightarrow> now \<le> t \<Longrightarrow>
   str_at s' t k' = (if k' = k then (if t < now + ttl then Some v else None) else str_at s t k')"
  by (cases "rc_set R k v ttl now s"; cases "fst (rc_set R k v ttl now s)")
     (auto simp: SetKeyEx_def void_reply_def set_ok)

lemma SetKeyEx_other:
  "SetKeyEx R k v ttl now s = (res, s') \<Longrightarrow> 0 < ttl \<Longrightarrow> k' \<noteq> k \<Longrightarrow> now \<le> t \<Longrightarrow> str_at s' t k' = str_at s t k'"
  by (cases "rc_set R k v ttl now s"; cases "fst (rc_set R k v ttl now s)")
     (auto simp: SetKeyEx_def void_reply_def set_ok set_err)

lemma SetKeyEx_err:
  "SetKeyEx R k v ttl now s = (Inl e, s') \<Longrightarrow> 0 < ttl \<Longrightarrow> now \<le> t \<Longrightarrow> e = RedisFault \<and>
   (str_at s' t k = str_at s t k \<or> str_at s' t k = (if t < now + ttl then Some v else None))"
  by (cases "rc_set R k v ttl now s"; cases "fst (rc_set R k v ttl now s)")
     (auto simp: SetKeyEx_def void_reply_def dest: set_err_key)

lemma GetKeyNilIsErr_cases:
  "GetKeyNilIsErr R k now s = (res, s') \<Longrightarrow>
   s' = s \<and> (res = Inl RedisFault \<or>
     res = (case str_at s now k of None \<Rightarrow> Inl RedisNil | Some v \<Rightarrow> Inr v))"
  by (cases "rc_get R k now s"; cases "fst (rc_get R k now s)")
     (auto simp: GetKeyNilIsErr_def dest: get_ok get_err split: option.splits)

lemma GetKey_cases:
  "GetKey R k now s = (res, s') \<Longrightarrow>
   s' = s \<and> (res = Inl RedisFault \<or> res = Inr (case str_at s now k of None \<Rightarrow> [] | Some v \<Rightarrow> v))"
  by (cases "rc_get R k now s"; cases "fst (rc_get R k now s)")
     (auto simp: GetKey_def dest: get_ok get_err split: option.splits)

lemma MGet_cases:
  "MGet R ks now s = (res, s') \<Longrightarrow>
   s' = s \<and> (res = Inl RedisFault \<or>
     res = Inr (map (\<lambda>k. case str_at s now k of None \<Rightarrow> [] | Some v \<Rightarrow> v) ks))"
  by (cases "rc_mget R ks now s"; cases "fst (rc_mget R ks now s)")
     (auto simp: MGet_def comp_def dest: mget_ok mget_err split: if_splits)

lemma DelKeyIfExists_ok:
  assumes "DelKeyIfExists R k now s = (Inr u, s')" and "now \<le> t"
  shows "str_at s' t k' = (if k' = k then None else str_at s t k')"
proof -
  obtain n s1 where ex: "rc_exists R k now s = (ROk n, s1)"
    using assms(1) by (cases "rc_exists R k now s"; cases "fst (rc_exists R k now s)")
      (auto simp: DelKeyIfExists_def)
  note e = exists_ok [OF ex]
  show ?thesis
  proof (cases "n = 1")
    case True
    with assms(1) ex e obtain m where "rc_del R [k] now s = (ROk m, s')"
      by (cases "rc_del R [k] now s"; cases "fst (rc_del R [k] now s)")
         (auto simp: DelKeyIfExists_def void_reply_def)
    from del_ok [OF this assms(2)] show ?thesis by simp
  next
    case False
    with e have "str_at s now k = None" "s1 = s" by auto
    with assms ex False expired [of s now k t] show ?thesis by (auto simp: DelKeyIfExists_def)
  qed
qed

lemma DelKeyIfExists_other:
  assumes "DelKeyIfExists R k now s = (res, s')" and "now \<le> t" and "k' \<noteq> k"
  shows "str_at s' t k' = str_at s t k'"
proof -
  obtain rep s1 where ex: "rc_exists R k now s = (rep, s1)" by fastforce
  have s1: "s1 = s" using ex exists_ok exists_err by (cases rep) blast+
  obtain rep2 s2 where del: "rc_del R [k] now s = (rep2, s2)" by fastforce
  have "str_at s2 t k' = str_at s t k'"
    using del del_ok [of "[k]" now s] del_err [of "[k]" now s] assms(2,3) by (cases rep2) auto
  with assms(1) ex s1 del show ?thesis
    by (auto simp: DelKeyIfExists_def void_reply_def split: reply.splits if_splits)
qed

end

section \<open>The contract of the set commands\<close>

locale redis_sets =
  fixes R :: "'r redis_client" and set_at :: "'r \<Rightarrow> time \<Rightarrow> string \<Rightarrow> string set"
  assumes smembers_ok: "rc_smembers R k now s = (ROk ms, s') \<Longrightarrow> set ms = set_at s now k \<and> s' = s"
    and smembers_err: "rc_smembers R k now s = (RErr, s') \<Longrightarrow> s' = s"
    and sadd_ok: "rc_sadd R k ms now s = (ROk n, s') \<Longrightarrow> set_at s now k = {} \<Longrightarrow> now \<le> t \<Longrightarrow>
      set_at s' t k = set ms"
    and sadd_other: "rc_sadd R k ms now s = (irep, s') \<Longrightarrow> k' \<noteq> k \<Longrightarrow> now \<le> t \<Longrightarrow> set_at s' t k' = set_at s t k'"
    and expire_ok: "rc_expire R k ttl now s = (ROk b, s') \<Longrightarrow> 0 < ttl \<Longrightarrow> now \<le> t \<Longrightarrow>
      set_at s' t k = (if t < now + ttl then set_at s now k else {})"
    and expire_other: "rc_expire R k ttl now s = (brep, s') \<Longrightarrow> k' \<noteq> k \<Longrightarrow> now \<le> t \<Longrightarrow> set_at s' t k' = set_at s t k'"
    and expire_err: "rc_expire R k ttl now s = (RErr, s') \<Longrightarrow> now \<le> t \<Longrightarrow> set_at s' t k \<subseteq> set_at s now k"
    and sdel_ok: "rc_del R ks now s = (ROk n, s') \<Longrightarrow> now \<le> t \<Longrightarrow>
      set_at s' t k = (if k \<in> set ks then {} else set_at s t k)"
    and sexists_ok: "rc_exists R k now s = (ROk n, s') \<Longrightarrow> s' = s \<and> (set_at s now k \<noteq> {} \<longrightarrow> n = 1)"
    and set_shrinks: "t \<le> t' \<Longrightarrow> set_at s t' k \<subseteq> set_at s t k"
begin

lemma SMembers_cases:
  "SMembers R k now s = (res, s') \<Longrightarrow>
   s' = s \<and> (res = Inl RedisFault \<or> (\<exists>ms. res = Inr ms \<and> set ms = set_at s now k))"
  by (cases "rc_smembers R k now s"; cases "fst (rc_smembers R k now s)")
     (auto simp: SMembers_def plain_reply_def dest: smembers_ok smembers_err)

lemma DelSet_ok:
  assumes "DelKeyIfExists R k now s = (Inr u, s')" and "now \<le> t"
  shows "set_at s' t k = {}"
proof -
  obtain n s1 where ex: "rc_exists R k now s = (ROk n, s1)"
    using assms(1) by (cases "rc_exists R k now s"; cases "fst (rc_exists R k now s)")
      (auto simp: DelKeyIfExists_def)
  note e = sexists_ok [OF ex]
  show ?thesis
  proof (cases "n = 1")
    case True
    with assms(1) ex e obtain m where "rc_del R [k] now s = (ROk m, s')"
      by (cases "rc_del R [k] now s"; cases "fst (rc_del R [k] now s)")
         (auto simp: DelKeyIfExists_def void_reply_def)
    from sdel_ok [OF this assms(2)] show ?thesis by simp
  next
    case False
    with e have "set_at s now k = {}" "s1 = s" by auto
    with assms ex False set_shrinks [of now t s k] show ?thesis by (auto simp: DelKeyIfExists_def)
  qed
qed

end

section \<open>The contract of the iteration\<close>

text \<open>
  A full iteration with SCAN ends: \<open>pages c\<close> bounds the round trips after the cursor \<open>c\<close>.
\<close>

locale redis_scan =
  fixes R :: "'r redis_client" and pages :: "u64 \<Rightarrow> nat"
  assumes scan_next: "rc_scan R c pat cnt now s = (ROk (ks, c'), s') \<Longrightarrow> c' \<noteq> 0 \<Longrightarrow> pages c' < pages c"
begin

lemma del_loop_returns: "pages c < n \<Longrightarrow> \<exists>p. del_loop R n c pat cnt now s = Some p"
proof (induction n arbitrary: c s)
  case 0
  then show ?case by simp
next
  case (Suc n)
  then show ?case
    by (auto split: prod.splits reply.splits if_splits dest!: scan_next)
qed

lemma scan_loop_returns: "pages c < n \<Longrightarrow> \<exists>p. scan_loop R n c pat cnt keys now s = Some p"
proof (induction n arbitrary: c s keys)
  case 0
  then show ?case by simp
next
  case (Suc n)
  then show ?case
    by (auto split: prod.splits reply.splits if_splits dest!: scan_next)
qed

end

text \<open>Counters: \<open>cnt_at\<close> is the number under a key and its time of expiry, 0 for a missing key, and
  \<open>None\<close> for a key that holds something else. INCR keeps the expiry, EXPIRE sets it.\<close>

locale redis_counters =
  fixes R :: "'r redis_client" and cnt_at :: "'r \<Rightarrow> time \<Rightarrow> string \<Rightarrow> (int \<times> time option) option"
  assumes incr_ok: "rc_incr R k now s = (ROk n, s') \<Longrightarrow> cnt_at s now k = Some (i, e) \<Longrightarrow>
      n = i + 1 \<and> cnt_at s' now k = Some (n, e)"
    and cexpire_ok: "rc_expire R k ttl now s = (ROk b, s') \<Longrightarrow> cnt_at s now k = Some (i, e) \<Longrightarrow> i \<noteq> 0 \<Longrightarrow> 0 < ttl \<Longrightarrow>
      cnt_at s' now k = Some (i, Some (now + ttl))"
    and cexpire_err: "rc_expire R k ttl now s = (RErr, s') \<Longrightarrow> cnt_at s' now k = cnt_at s now k"
    and cnt_later: "cnt_at s t k = Some (i, e) \<Longrightarrow> t \<le> t' \<Longrightarrow>
      (case e of None \<Rightarrow> True | Some x \<Rightarrow> t' < x) \<Longrightarrow> cnt_at s t' k = Some (i, e)"

end
