(* ===== verification/Database.thy ===== *)
theory Database
  imports Effects Models Redis_Store
begin

text \<open>
  The data access of the services: GORM statements over MySQL. Neither is part of the repository:
  a \<open>db\<close> collects the statements the code issues, on an unknown state \<open>'d\<close>, and the locale
  \<open>database\<close> states what is documented of them over the list of rows the state stands for. The
  statements of GORM's interface the services use (\<open>First\<close>, \<open>Find\<close>, \<open>Count\<close>, \<open>Updates\<close>,
  \<open>Create\<close>, \<open>Save\<close>, with and without \<open>Unscoped\<close>) are built from them, once for all tables.
\<close>

section \<open>Statements\<close>

text \<open>The errors the services tell apart, with the sentinel of \<open>group_member_service.go\<close>.\<close>

datatype go_error = NotFound | Duplicate | DbFault | ErrMemberKicked

record 'd db =
  db_select :: "(row \<Rightarrow> bool) \<Rightarrow> 'd \<Rightarrow> (go_error + row list) \<times> 'd"
  db_update :: "(row \<Rightarrow> bool) \<Rightarrow> (row \<Rightarrow> row) \<Rightarrow> 'd \<Rightarrow> (go_error + nat) \<times> 'd"
  db_insert :: "row \<Rightarrow> 'd \<Rightarrow> (go_error + row) \<times> 'd"
  db_upsert :: "row \<Rightarrow> 'd \<Rightarrow> (go_error + unit) \<times> 'd"
  db_insert_ignore :: "row list \<Rightarrow> 'd \<Rightarrow> (go_error + unit) \<times> 'd"
  db_begin :: "'d \<Rightarrow> bool \<times> 'd"
  db_commit :: "'d \<Rightarrow> 'd \<Rightarrow> bool \<times> 'd"
  db_rollback :: "'d \<Rightarrow> 'd \<Rightarrow> 'd"

text \<open>A service runs on the two stores; one reading of the clock serves a whole call. \<open>st_logouts\<close>
  collects the users whose connection the services asked \<open>chat.ClientLogout\<close> to close.\<close>

record ('d, 'r) stores =
  st_db :: 'd
  st_redis :: 'r
  st_logouts :: "uuid list"

record ('d, 'r) env =
  e_db :: "'d db"
  e_redis :: "'r redis_client"
  e_fuel :: nat
  e_now :: time

type_synonym ('d, 'r, 'e, 'a) svc = "(('d, 'r) stores, 'e, 'a) act"

definition on_db :: "('d \<Rightarrow> (go_error + 'a) \<times> 'd) \<Rightarrow> ('d, 'r, go_error, 'a) svc" where
  "on_db f w = (case f (st_db w) of (r, d) \<Rightarrow> Some (r, w\<lparr>st_db := d\<rparr>))"

definition on_redis :: "('r \<Rightarrow> 'a redis_result \<times> 'r) \<Rightarrow> ('d, 'r, redis_error, 'a) svc" where
  "on_redis f w = (case f (st_redis w) of (r, s) \<Rightarrow> Some (r, w\<lparr>st_redis := s\<rparr>))"

text \<open>The wrappers with a SCAN loop.\<close>

definition on_scan :: "('r \<Rightarrow> ('a redis_result \<times> 'r) option) \<Rightarrow> ('d, 'r, redis_error, 'a) svc" where
  "on_scan f w = map_option (\<lambda>(r, s). (r, w\<lparr>st_redis := s\<rparr>)) (f (st_redis w))"

text \<open>\<open>dao.GormDB.Transaction\<close>: rolled back when the body returns an error.\<close>

definition transaction :: "('d, 'r) env \<Rightarrow> ('d, 'r, go_error, 'a) svc \<Rightarrow> ('d, 'r, go_error, 'a) svc" where
  "transaction E body w =
     (case db_begin (e_db E) (st_db w) of
        (False, d) \<Rightarrow> Some (Inl DbFault, w\<lparr>st_db := d\<rparr>)
      | (True, d) \<Rightarrow>
          (case body (w\<lparr>st_db := d\<rparr>) of
             None \<Rightarrow> None
           | Some (Inl e, w') \<Rightarrow> Some (Inl e, w'\<lparr>st_db := db_rollback (e_db E) d (st_db w')\<rparr>)
           | Some (Inr a, w') \<Rightarrow>
               (case db_commit (e_db E) d (st_db w') of
                  (True, d') \<Rightarrow> Some (Inr a, w'\<lparr>st_db := d'\<rparr>)
                | (False, d') \<Rightarrow> Some (Inl DbFault, w'\<lparr>st_db := d'\<rparr>))))"

section \<open>Tables\<close>

record 't table =
  tb_row :: "'t \<Rightarrow> row"
  tb_of :: "row \<Rightarrow> 't option"

definition users :: "UserInfo table" where
  "users = \<lparr>tb_row = RUser, tb_of = (\<lambda>r. case r of RUser a \<Rightarrow> Some a | _ \<Rightarrow> None)\<rparr>"
definition groups :: "GroupInfo table" where
  "groups = \<lparr>tb_row = RGroup, tb_of = (\<lambda>r. case r of RGroup a \<Rightarrow> Some a | _ \<Rightarrow> None)\<rparr>"
definition members :: "GroupMember table" where
  "members = \<lparr>tb_row = RMember, tb_of = (\<lambda>r. case r of RMember a \<Rightarrow> Some a | _ \<Rightarrow> None)\<rparr>"
definition contacts :: "UserContact table" where
  "contacts = \<lparr>tb_row = RContact, tb_of = (\<lambda>r. case r of RContact a \<Rightarrow> Some a | _ \<Rightarrow> None)\<rparr>"
definition applies :: "ContactApply table" where
  "applies = \<lparr>tb_row = RApply, tb_of = (\<lambda>r. case r of RApply a \<Rightarrow> Some a | _ \<Rightarrow> None)\<rparr>"
definition sessions :: "Session table" where
  "sessions = \<lparr>tb_row = RSession, tb_of = (\<lambda>r. case r of RSession a \<Rightarrow> Some a | _ \<Rightarrow> None)\<rparr>"
definition messages :: "Message table" where
  "messages = \<lparr>tb_row = RMessage, tb_of = (\<lambda>r. case r of RMessage a \<Rightarrow> Some a | _ \<Rightarrow> None)\<rparr>"
definition files :: "FileMetadata table" where
  "files = \<lparr>tb_row = RFile, tb_of = (\<lambda>r. case r of RFile a \<Rightarrow> Some a | _ \<Rightarrow> None)\<rparr>"

locale table =
  fixes T :: "'t table"
  assumes of_row [simp]: "tb_of T (tb_row T x) = Some x"
    and row_of: "tb_of T r = Some x \<Longrightarrow> r = tb_row T x"
    and set_id: "\<exists>y. set_row_id i (tb_row T x) = tb_row T y"
    and same_rows [simp]: "same_table (tb_row T x) (tb_row T y)"
begin

lemma of_eq_Some: "tb_of T r = Some x \<longleftrightarrow> r = tb_row T x"
  by (auto dest: row_of)

lemma row_inj [simp]: "tb_row T x = tb_row T y \<longleftrightarrow> x = y"
  by (metis of_row option.inject)

end

interpretation users: table users by unfold_locales (auto simp: users_def split: row.splits)
interpretation groups: table groups by unfold_locales (auto simp: groups_def split: row.splits)
interpretation members: table members by unfold_locales (auto simp: members_def split: row.splits)
interpretation contacts: table contacts by unfold_locales (auto simp: contacts_def split: row.splits)
interpretation applies: table applies by unfold_locales (auto simp: applies_def split: row.splits)
interpretation sessions: table sessions by unfold_locales (auto simp: sessions_def split: row.splits)
interpretation messages: table messages by unfold_locales (auto simp: messages_def split: row.splits)
interpretation files: table files by unfold_locales (auto simp: files_def split: row.splits)

lemma tb_row_simps [simp]:
  "tb_row users = RUser" "tb_row groups = RGroup" "tb_row members = RMember" "tb_row contacts = RContact"
  "tb_row applies = RApply" "tb_row sessions = RSession" "tb_row messages = RMessage" "tb_row files = RFile"
  by (simp_all add: users_def groups_def members_def contacts_def applies_def sessions_def
      messages_def files_def)

section \<open>GORM's interface\<close>

text \<open>A condition on a table as one on rows; GORM adds the soft-delete scope.\<close>

definition scoped :: "'t table \<Rightarrow> ('t \<Rightarrow> bool) \<Rightarrow> row \<Rightarrow> bool" where
  "scoped T P r \<longleftrightarrow> live_row r \<and> (case tb_of T r of Some x \<Rightarrow> P x | None \<Rightarrow> False)"

definition unscoped :: "'t table \<Rightarrow> ('t \<Rightarrow> bool) \<Rightarrow> row \<Rightarrow> bool" where
  "unscoped T P r \<longleftrightarrow> (case tb_of T r of Some x \<Rightarrow> P x | None \<Rightarrow> False)"

definition on_row :: "'t table \<Rightarrow> ('t \<Rightarrow> 't) \<Rightarrow> row \<Rightarrow> row" where
  "on_row T f r = (case tb_of T r of Some x \<Rightarrow> tb_row T (f x) | None \<Rightarrow> r)"

context table
begin

lemma scoped_iff: "scoped T P r \<longleftrightarrow> (\<exists>x. r = tb_row T x \<and> live_row (tb_row T x) \<and> P x)"
  by (auto simp: scoped_def of_eq_Some split: option.splits)

lemma unscoped_iff: "unscoped T P r \<longleftrightarrow> (\<exists>x. r = tb_row T x \<and> P x)"
  by (auto simp: unscoped_def of_eq_Some split: option.splits)

lemma on_row_row: "on_row T f (tb_row T x) = tb_row T (f x)"
  by (simp add: on_row_def)

lemma on_row_eq: "on_row T f r = tb_row T y \<longleftrightarrow> (\<exists>x. r = tb_row T x \<and> f x = y) \<or> (tb_of T r = None \<and> r = tb_row T y)"
  by (auto simp: on_row_def of_eq_Some split: option.splits)

end

lemma set_map_filter_of:
  assumes "table T"
  shows "x \<in> set (List.map_filter (tb_of T) rs) \<longleftrightarrow> tb_row T x \<in> set rs"
proof -
  show ?thesis
    by (induction rs)
       (auto simp: List.map_filter_simps table.of_eq_Some [OF assms] table.of_row [OF assms]
         table.row_inj [OF assms] split: option.splits)
qed

definition select :: "('d, 'r) env \<Rightarrow> (row \<Rightarrow> bool) \<Rightarrow> ('d, 'r, go_error, row list) svc" where
  "select E P = on_db (db_select (e_db E) P)"

definition update :: "('d, 'r) env \<Rightarrow> (row \<Rightarrow> bool) \<Rightarrow> (row \<Rightarrow> row) \<Rightarrow> ('d, 'r, go_error, nat) svc" where
  "update E P f = on_db (db_update (e_db E) P f)"

definition Find :: "('d, 'r) env \<Rightarrow> 't table \<Rightarrow> ('t \<Rightarrow> bool) \<Rightarrow> ('d, 'r, go_error, 't list) svc" where
  "Find E T P = bnd (select E (scoped T P)) (\<lambda>rs. ret (List.map_filter (tb_of T) rs))"

definition FindUnscoped :: "('d, 'r) env \<Rightarrow> 't table \<Rightarrow> ('t \<Rightarrow> bool) \<Rightarrow> ('d, 'r, go_error, 't list) svc" where
  "FindUnscoped E T P = bnd (select E (unscoped T P)) (\<lambda>rs. ret (List.map_filter (tb_of T) rs))"

text \<open>\<open>First\<close> takes the row with the least primary key, \<open>Order("id DESC").First\<close> the greatest.\<close>

definition First :: "('d, 'r) env \<Rightarrow> 't table \<Rightarrow> ('t \<Rightarrow> bool) \<Rightarrow> ('d, 'r, go_error, 't) svc" where
  "First E T P = bnd (Find E T P) (\<lambda>xs.
     case sort_key (\<lambda>x. row_id (tb_row T x)) xs of [] \<Rightarrow> throw NotFound | x # _ \<Rightarrow> ret x)"

definition LastUnscoped :: "('d, 'r) env \<Rightarrow> 't table \<Rightarrow> ('t \<Rightarrow> bool) \<Rightarrow> ('d, 'r, go_error, 't) svc" where
  "LastUnscoped E T P = bnd (FindUnscoped E T P) (\<lambda>xs.
     case sort_key (\<lambda>x. - row_id (tb_row T x)) xs of [] \<Rightarrow> throw NotFound | x # _ \<Rightarrow> ret x)"

definition Last :: "('d, 'r) env \<Rightarrow> 't table \<Rightarrow> ('t \<Rightarrow> bool) \<Rightarrow> ('d, 'r, go_error, 't) svc" where
  "Last E T P = bnd (Find E T P) (\<lambda>xs.
     case sort_key (\<lambda>x. - row_id (tb_row T x)) xs of [] \<Rightarrow> throw NotFound | x # _ \<Rightarrow> ret x)"

text \<open>\<open>Find\<close> into a struct: no row leaves the zero value and is no error.\<close>

definition FindOne :: "('d, 'r) env \<Rightarrow> 't table \<Rightarrow> ('t \<Rightarrow> bool) \<Rightarrow> 't \<Rightarrow> ('d, 'r, go_error, 't) svc" where
  "FindOne E T P z = bnd (Find E T P) (\<lambda>xs. ret (case xs of [] \<Rightarrow> z | x # _ \<Rightarrow> x))"

definition Count :: "('d, 'r) env \<Rightarrow> 't table \<Rightarrow> ('t \<Rightarrow> bool) \<Rightarrow> ('d, 'r, go_error, nat) svc" where
  "Count E T P = bnd (Find E T P) (\<lambda>xs. ret (length xs))"

definition Updates :: "('d, 'r) env \<Rightarrow> 't table \<Rightarrow> ('t \<Rightarrow> bool) \<Rightarrow> ('t \<Rightarrow> 't) \<Rightarrow> ('d, 'r, go_error, unit) svc" where
  "Updates E T P f = bnd (update E (scoped T P) (on_row T f)) (\<lambda>_. ret ())"

definition UpdatesUnscoped ::
  "('d, 'r) env \<Rightarrow> 't table \<Rightarrow> ('t \<Rightarrow> bool) \<Rightarrow> ('t \<Rightarrow> 't) \<Rightarrow> ('d, 'r, go_error, unit) svc" where
  "UpdatesUnscoped E T P f = bnd (update E (unscoped T P) (on_row T f)) (\<lambda>_. ret ())"

text \<open>\<open>Model(&x)\<close> with a loaded record: the statement is about its primary key.\<close>

definition UpdatesRow :: "('d, 'r) env \<Rightarrow> 't table \<Rightarrow> 't \<Rightarrow> ('t \<Rightarrow> 't) \<Rightarrow> ('d, 'r, go_error, unit) svc" where
  "UpdatesRow E T x f = Updates E T (\<lambda>y. row_id (tb_row T y) = row_id (tb_row T x)) f"

definition Create :: "('d, 'r) env \<Rightarrow> 't table \<Rightarrow> 't \<Rightarrow> ('d, 'r, go_error, 't) svc" where
  "Create E T x = bnd (on_db (db_insert (e_db E) (tb_row T x)))
     (\<lambda>r. ret (case tb_of T r of Some y \<Rightarrow> y | None \<Rightarrow> x))"

text \<open>\<open>Save\<close> inserts a record without primary key; else it updates all columns by primary key,
  and when no row was there it falls back to an insert that updates on a conflict.\<close>

definition Save :: "('d, 'r) env \<Rightarrow> 't table \<Rightarrow> 't \<Rightarrow> ('d, 'r, go_error, unit) svc" where
  "Save E T x =
     (if row_id (tb_row T x) = 0 then bnd (Create E T x) (\<lambda>_. ret ())
      else bnd (update E (scoped T (\<lambda>y. row_id (tb_row T y) = row_id (tb_row T x))) (on_row T (\<lambda>_. x)))
        (\<lambda>n. if n = 0 then on_db (db_upsert (e_db E) (tb_row T x)) else ret ()))"

section \<open>The contract of the database\<close>

text \<open>\<open>ON DUPLICATE KEY DO NOTHING\<close>: the rows that clash with none before them are added.\<close>

fun add_new :: "row list \<Rightarrow> row list \<Rightarrow> row list" where
  "add_new R [] = R"
| "add_new R (r # rs) = add_new (if \<exists>x \<in> set R. key_clash x r then R else R @ [r]) rs"

text \<open>A database whose reads do not fail: assumed only where a claim needs it.\<close>

definition reads_ok :: "('d, 'r) env \<Rightarrow> bool" where
  "reads_ok E \<longleftrightarrow> (\<forall>P d. \<exists>rs d'. db_select (e_db E) P d = (Inr rs, d'))"

text \<open>The number that an update answers lies between that of the rows it changes, which is what MySQL counts unless the
  client asks for the rows it finds, and that of the rows it finds. Strings are compared by their bytes, and a statement or
  transaction that answers an error has changed nothing.\<close>

locale database =
  fixes E :: "('d, 'r) env" and rows :: "'d \<Rightarrow> row list"
  assumes select_ok: "db_select (e_db E) P d = (Inr rs, d') \<Longrightarrow> mset rs = mset (filter P (rows d)) \<and> rows d' = rows d"
    and select_err: "db_select (e_db E) P d = (Inl e, d') \<Longrightarrow> rows d' = rows d \<and> e = DbFault"
    and update_ok: "db_update (e_db E) P f d = (Inr n, d') \<Longrightarrow>
      rows d' = map (\<lambda>r. if P r then f r else r) (rows d) \<and>
      length (filter (\<lambda>r. P r \<and> f r \<noteq> r) (rows d)) \<le> n \<and> n \<le> length (filter P (rows d))"
    and update_unique: "db_update (e_db E) P f d = (Inr n, d') \<Longrightarrow> unique_rows (rows d) \<Longrightarrow> unique_rows (rows d')"
    and update_err: "db_update (e_db E) P f d = (Inl e, d') \<Longrightarrow> rows d' = rows d \<and> e \<in> {DbFault, Duplicate}"
    and insert_ok: "db_insert (e_db E) r d = (Inr r', d') \<Longrightarrow>
      (\<exists>i. i \<noteq> 0 \<and> r' = set_row_id i r) \<and> rows d' = rows d @ [r'] \<and> (\<forall>x \<in> set (rows d). \<not> conflict x r')"
    and insert_err: "db_insert (e_db E) r d = (Inl e, d') \<Longrightarrow> rows d' = rows d \<and> e \<in> {DbFault, Duplicate}"
    and upsert_ok: "db_upsert (e_db E) r d = (Inr u, d') \<Longrightarrow>
      filter (\<lambda>x. \<not> conflict x r) (rows d') = filter (\<lambda>x. \<not> conflict x r) (rows d) \<and>
      (unique_rows (rows d) \<longrightarrow> unique_rows (rows d'))"
    and upsert_same: "db_upsert (e_db E) r d = (Inr u, d') \<Longrightarrow> r \<in> set (rows d) \<Longrightarrow> rows d' = rows d"
    and upsert_err: "db_upsert (e_db E) r d = (Inl e, d') \<Longrightarrow> rows d' = rows d \<and> e \<in> {DbFault, Duplicate}"
    and ignore_ok: "db_insert_ignore (e_db E) rs d = (Inr u, d') \<Longrightarrow>
      map (set_row_id 0) (rows d') = add_new (map (set_row_id 0) (rows d)) (map (set_row_id 0) rs)"
    and ignore_err: "db_insert_ignore (e_db E) rs d = (Inl e, d') \<Longrightarrow> rows d' = rows d"
    and begin_rows: "db_begin (e_db E) d = (b, d') \<Longrightarrow> rows d' = rows d"
    and commit_ok: "db_commit (e_db E) d0 d = (True, d') \<Longrightarrow> rows d' = rows d"
    and commit_err: "db_commit (e_db E) d0 d = (False, d') \<Longrightarrow> rows d' = rows d0"
    and rollback_rows: "rows (db_rollback (e_db E) d0 d) = rows d0"
begin

text \<open>Two states with the same rows and the same cache; what a read leaves behind.\<close>

definition same :: "('d, 'r) stores \<Rightarrow> ('d, 'r) stores \<Rightarrow> bool" where
  "same w w' \<longleftrightarrow> rows (st_db w') = rows (st_db w) \<and> st_redis w' = st_redis w \<and> st_logouts w' = st_logouts w"

lemma same_refl [simp]: "same w w"
  by (simp add: same_def)

lemma wp_on_db:
  assumes "\<And>a d. f (st_db w) = (Inr a, d) \<Longrightarrow> Q a (w\<lparr>st_db := d\<rparr>)"
    and "\<And>e d. f (st_db w) = (Inl e, d) \<Longrightarrow> X e (w\<lparr>st_db := d\<rparr>)"
  shows "wp (on_db f) Q X w"
  using assms by (cases "f (st_db w)"; cases "fst (f (st_db w))") (auto simp: wp_def on_db_def)

lemma wp_select:
  assumes "\<And>rs w'. same w w' \<Longrightarrow> mset rs = mset (filter P (rows (st_db w))) \<Longrightarrow> Q rs w'"
    and "\<And>w'. same w w' \<Longrightarrow> \<not> reads_ok E \<Longrightarrow> X DbFault w'"
  shows "wp (select E P) Q X w"
  unfolding select_def
proof (rule wp_on_db)
  fix e d
  assume *: "db_select (e_db E) P (st_db w) = (Inl e, d)"
  then have "\<not> reads_ok E" unfolding reads_ok_def by (metis Inl_Inr_False prod.inject)
  with select_err [OF *] show "X e (w\<lparr>st_db := d\<rparr>)" by (auto simp: same_def intro!: assms(2))
qed (auto simp: same_def intro!: assms(1) dest: select_ok)

lemma wp_update:
  assumes "\<And>n w'. rows (st_db w') = map (\<lambda>r. if P r then f r else r) (rows (st_db w)) \<Longrightarrow>
      st_redis w' = st_redis w \<Longrightarrow> st_logouts w' = st_logouts w \<Longrightarrow>
      length (filter (\<lambda>r. P r \<and> f r \<noteq> r) (rows (st_db w))) \<le> n \<Longrightarrow> n \<le> length (filter P (rows (st_db w))) \<Longrightarrow>
      (unique_rows (rows (st_db w)) \<Longrightarrow> unique_rows (rows (st_db w'))) \<Longrightarrow> Q n w'"
    and "\<And>e w'. same w w' \<Longrightarrow> e \<in> {DbFault, Duplicate} \<Longrightarrow> X e w'"
  shows "wp (update E P f) Q X w"
  unfolding update_def
  by (rule wp_on_db; rule assms) (auto simp: same_def dest: update_ok update_err update_unique)

lemma wp_Find:
  assumes "table T"
    and "\<And>xs w'. same w w' \<Longrightarrow>
      (\<And>x. x \<in> set xs \<longleftrightarrow> tb_row T x \<in> set (rows (st_db w)) \<and> live_row (tb_row T x) \<and> P x) \<Longrightarrow> Q xs w'"
    and "\<And>w'. same w w' \<Longrightarrow> \<not> reads_ok E \<Longrightarrow> X DbFault w'"
  shows "wp (Find E T P) Q X w"
  unfolding Find_def wp_simps
proof (rule wp_select)
  fix rs w'
  assume w': "same w w'" and rs: "mset rs = mset (filter (scoped T P) (rows (st_db w)))"
  have "set rs = set (filter (scoped T P) (rows (st_db w)))" using rs by (metis set_mset_mset)
  then show "Q (List.map_filter (tb_of T) rs) w'"
    using assms(1) by (intro assms(2) w')
      (auto simp: set_map_filter_of scoped_def table.of_row)
qed (rule assms)

lemma wp_Find_mset:
  assumes "table T"
    and "\<And>xs w'. same w w' \<Longrightarrow> mset (map (tb_row T) xs) = mset (filter (scoped T P) (rows (st_db w))) \<Longrightarrow> Q xs w'"
    and "\<And>w'. same w w' \<Longrightarrow> \<not> reads_ok E \<Longrightarrow> X DbFault w'"
  shows "wp (Find E T P) Q X w"
  unfolding Find_def wp_simps
proof (rule wp_select)
  fix rs w'
  assume w': "same w w'" and rs: "mset rs = mset (filter (scoped T P) (rows (st_db w)))"
  then have "set rs = set (filter (scoped T P) (rows (st_db w)))" by (metis set_mset_mset)
  then have "\<forall>r \<in> set rs. \<exists>x. r = tb_row T x" using table.scoped_iff [OF assms(1), of P] by auto
  then have "map (tb_row T) (List.map_filter (tb_of T) rs) = rs"
    by (induction rs) (auto simp: List.map_filter_simps table.of_row [OF assms(1)])
  then show "Q (List.map_filter (tb_of T) rs) w'" using rs by (intro assms(2) w') simp
qed (rule assms(3))

lemma wp_FindUnscoped:
  assumes "table T"
    and "\<And>xs w'. same w w' \<Longrightarrow> (\<And>x. x \<in> set xs \<longleftrightarrow> tb_row T x \<in> set (rows (st_db w)) \<and> P x) \<Longrightarrow> Q xs w'"
    and "\<And>w'. same w w' \<Longrightarrow> \<not> reads_ok E \<Longrightarrow> X DbFault w'"
  shows "wp (FindUnscoped E T P) Q X w"
  unfolding FindUnscoped_def wp_simps
proof (rule wp_select)
  fix rs w'
  assume w': "same w w'" and rs: "mset rs = mset (filter (unscoped T P) (rows (st_db w)))"
  have "set rs = set (filter (unscoped T P) (rows (st_db w)))" using rs by (metis set_mset_mset)
  then show "Q (List.map_filter (tb_of T) rs) w'"
    using assms(1) by (intro assms(2) w')
      (auto simp: set_map_filter_of unscoped_def table.of_row)
qed (rule assms)

lemma wp_FindOne:
  assumes "table T"
    and "\<And>x w'. same w w' \<Longrightarrow> tb_row T x \<in> set (rows (st_db w)) \<Longrightarrow> live_row (tb_row T x) \<Longrightarrow> P x \<Longrightarrow> Q x w'"
    and "\<And>w'. same w w' \<Longrightarrow> (\<And>x. tb_row T x \<in> set (rows (st_db w)) \<Longrightarrow> live_row (tb_row T x) \<Longrightarrow> \<not> P x) \<Longrightarrow> Q z w'"
    and "\<And>w'. same w w' \<Longrightarrow> \<not> reads_ok E \<Longrightarrow> X DbFault w'"
  shows "wp (FindOne E T P z) Q X w"
  unfolding FindOne_def wp_simps
proof (rule wp_Find [OF assms(1)])
  fix xs w'
  assume w': "same w w'"
    and xs: "\<And>x. x \<in> set xs \<longleftrightarrow> tb_row T x \<in> set (rows (st_db w)) \<and> live_row (tb_row T x) \<and> P x"
  show "Q (case xs of [] \<Rightarrow> z | x # _ \<Rightarrow> x) w'"
  proof (cases xs)
    case Nil
    then show ?thesis using xs by (auto intro!: assms(3) [OF w'])
  next
    case (Cons x ys)
    then show ?thesis using xs [of x] by (auto intro!: assms(2) [OF w'])
  qed
qed (rule assms(4))

text \<open>The least row of a list by a key: \<open>First\<close> and its variants.\<close>

lemma sort_key_head:
  assumes "\<And>x. x \<in> set xs \<Longrightarrow> (\<And>y. y \<in> set xs \<Longrightarrow> k x \<le> k y) \<Longrightarrow> Q x" and "xs = [] \<Longrightarrow> N"
  shows "case sort_key k xs of [] \<Rightarrow> N | x # _ \<Rightarrow> Q x"
proof (cases "sort_key k xs")
  case Nil
  then show ?thesis using assms(2) by (metis length_0_conv length_sort list.simps(4))
next
  case (Cons x ys)
  have "set xs = insert x (set ys)" using Cons by (metis list.simps(15) set_sort)
  moreover have "sorted (map k (x # ys))" using Cons by (metis sorted_sort_key)
  ultimately show ?thesis using Cons assms(1) [of x] by auto
qed

lemma wp_case_list:
  "wp (case xs of [] \<Rightarrow> m | x # ys \<Rightarrow> f x ys) Q X w =
   (case xs of [] \<Rightarrow> wp m Q X w | x # ys \<Rightarrow> wp (f x ys) Q X w)"
  by (simp split: list.split)

lemma wp_First:
  assumes "table T"
    and "\<And>x w'. same w w' \<Longrightarrow> tb_row T x \<in> set (rows (st_db w)) \<Longrightarrow> live_row (tb_row T x) \<Longrightarrow> P x \<Longrightarrow> Q x w'"
    and "\<And>w'. same w w' \<Longrightarrow> (\<And>x. tb_row T x \<in> set (rows (st_db w)) \<Longrightarrow> live_row (tb_row T x) \<Longrightarrow> \<not> P x) \<Longrightarrow> X NotFound w'"
    and "\<And>w'. same w w' \<Longrightarrow> \<not> reads_ok E \<Longrightarrow> X DbFault w'"
  shows "wp (First E T P) Q X w"
  unfolding First_def wp_simps
proof (rule wp_Find [OF assms(1)])
  fix xs w'
  assume w': "same w w'"
    and xs: "\<And>x. x \<in> set xs \<longleftrightarrow> tb_row T x \<in> set (rows (st_db w)) \<and> live_row (tb_row T x) \<and> P x"
  show "wp (case sort_key (\<lambda>x. row_id (tb_row T x)) xs of [] \<Rightarrow> throw NotFound | x # _ \<Rightarrow> ret x) Q X w'"
    unfolding wp_case_list wp_simps
    by (rule sort_key_head) (use xs in \<open>auto intro!: assms(2,3) [OF w']\<close>)
qed (rule assms(4))

lemma wp_LastUnscoped:
  assumes "table T"
    and "\<And>x w'. same w w' \<Longrightarrow> tb_row T x \<in> set (rows (st_db w)) \<Longrightarrow> P x \<Longrightarrow>
      (\<And>y. tb_row T y \<in> set (rows (st_db w)) \<Longrightarrow> P y \<Longrightarrow> row_id (tb_row T y) \<le> row_id (tb_row T x)) \<Longrightarrow> Q x w'"
    and "\<And>w'. same w w' \<Longrightarrow> (\<And>x. tb_row T x \<in> set (rows (st_db w)) \<Longrightarrow> \<not> P x) \<Longrightarrow> X NotFound w'"
    and "\<And>w'. same w w' \<Longrightarrow> \<not> reads_ok E \<Longrightarrow> X DbFault w'"
  shows "wp (LastUnscoped E T P) Q X w"
  unfolding LastUnscoped_def wp_simps
proof (rule wp_FindUnscoped [OF assms(1)])
  fix xs w'
  assume w': "same w w'" and xs: "\<And>x. x \<in> set xs \<longleftrightarrow> tb_row T x \<in> set (rows (st_db w)) \<and> P x"
  show "wp (case sort_key (\<lambda>x. - row_id (tb_row T x)) xs of [] \<Rightarrow> throw NotFound | x # _ \<Rightarrow> ret x) Q X w'"
    unfolding wp_case_list wp_simps
    by (rule sort_key_head) (use xs in \<open>auto intro!: assms(2,3) [OF w']\<close>)
qed (rule assms(4))

lemma wp_Last:
  assumes "table T"
    and "\<And>x w'. same w w' \<Longrightarrow> tb_row T x \<in> set (rows (st_db w)) \<Longrightarrow> live_row (tb_row T x) \<Longrightarrow> P x \<Longrightarrow> Q x w'"
    and "\<And>w'. same w w' \<Longrightarrow> (\<And>x. tb_row T x \<in> set (rows (st_db w)) \<Longrightarrow> live_row (tb_row T x) \<Longrightarrow> \<not> P x) \<Longrightarrow> X NotFound w'"
    and "\<And>w'. same w w' \<Longrightarrow> \<not> reads_ok E \<Longrightarrow> X DbFault w'"
  shows "wp (Last E T P) Q X w"
  unfolding Last_def wp_simps
proof (rule wp_Find [OF assms(1)])
  fix xs w'
  assume w': "same w w'"
    and xs: "\<And>x. x \<in> set xs \<longleftrightarrow> tb_row T x \<in> set (rows (st_db w)) \<and> live_row (tb_row T x) \<and> P x"
  show "wp (case sort_key (\<lambda>x. - row_id (tb_row T x)) xs of [] \<Rightarrow> throw NotFound | x # _ \<Rightarrow> ret x) Q X w'"
    unfolding wp_case_list wp_simps
    by (rule sort_key_head) (use xs in \<open>auto intro!: assms(2,3) [OF w']\<close>)
qed (rule assms(4))

lemma length_map_filter_of:
  assumes "table T"
  shows "length (List.map_filter (tb_of T) rs) = length (filter (\<lambda>r. tb_of T r \<noteq> None) rs)"
  by (induction rs) (auto simp: List.map_filter_simps split: option.splits)

lemma wp_Count:
  assumes "table T"
    and "\<And>n w'. same w w' \<Longrightarrow> n = length (filter (scoped T P) (rows (st_db w))) \<Longrightarrow> Q n w'"
    and "\<And>w'. same w w' \<Longrightarrow> \<not> reads_ok E \<Longrightarrow> X DbFault w'"
  shows "wp (Count E T P) Q X w"
  unfolding Count_def Find_def bnd_assoc wp_simps
proof (rule wp_select)
  fix rs w'
  assume w': "same w w'" and rs: "mset rs = mset (filter (scoped T P) (rows (st_db w)))"
  have "set rs = set (filter (scoped T P) (rows (st_db w)))" using rs by (metis set_mset_mset)
  then have "r \<in> set rs \<Longrightarrow> tb_of T r \<noteq> None" for r
    by (auto simp: scoped_def split: option.splits)
  then have "filter (\<lambda>r. tb_of T r \<noteq> None) rs = rs" by (rule filter_True [OF ballI])
  moreover have "length rs = length (filter (scoped T P) (rows (st_db w)))"
    using rs by (metis size_mset)
  ultimately show "Q (length (List.map_filter (tb_of T) rs)) w'"
    by (intro assms(2) w') (simp add: length_map_filter_of [OF assms(1)])
qed (rule assms(3))

text \<open>The writing statements. \<open>changed\<close> is the state after an update of the rows that meet \<open>P\<close>.\<close>

definition changed ::
  "(row \<Rightarrow> bool) \<Rightarrow> (row \<Rightarrow> row) \<Rightarrow> ('d, 'r) stores \<Rightarrow> ('d, 'r) stores \<Rightarrow> bool" where
  "changed P f w w' \<longleftrightarrow>
     rows (st_db w') = map (\<lambda>r. if P r then f r else r) (rows (st_db w)) \<and> st_redis w' = st_redis w \<and>
     st_logouts w' = st_logouts w \<and>
     (unique_rows (rows (st_db w)) \<longrightarrow> unique_rows (rows (st_db w')))"

definition added :: "row \<Rightarrow> ('d, 'r) stores \<Rightarrow> ('d, 'r) stores \<Rightarrow> bool" where
  "added r w w' \<longleftrightarrow>
     rows (st_db w') = rows (st_db w) @ [r] \<and> st_redis w' = st_redis w \<and> st_logouts w' = st_logouts w \<and>
     (\<forall>x \<in> set (rows (st_db w)). \<not> conflict x r) \<and>
     (unique_rows (rows (st_db w)) \<longrightarrow> unique_rows (rows (st_db w')))"

lemma wp_Updates:
  assumes "\<And>w'. changed (scoped T P) (on_row T f) w w' \<Longrightarrow> Q () w'"
    and "\<And>e w'. same w w' \<Longrightarrow> e \<in> {DbFault, Duplicate} \<Longrightarrow> X e w'"
  shows "wp (Updates E T P f) Q X w"
  unfolding Updates_def wp_simps
  by (rule wp_update) (auto simp: changed_def intro!: assms)

lemma wp_UpdatesUnscoped:
  assumes "\<And>w'. changed (unscoped T P) (on_row T f) w w' \<Longrightarrow> Q () w'"
    and "\<And>e w'. same w w' \<Longrightarrow> e \<in> {DbFault, Duplicate} \<Longrightarrow> X e w'"
  shows "wp (UpdatesUnscoped E T P f) Q X w"
  unfolding UpdatesUnscoped_def wp_simps
  by (rule wp_update) (auto simp: changed_def intro!: assms)

lemma wp_UpdatesRow:
  assumes "\<And>w'. changed (scoped T (\<lambda>y. row_id (tb_row T y) = row_id (tb_row T x))) (on_row T f) w w' \<Longrightarrow> Q () w'"
    and "\<And>e w'. same w w' \<Longrightarrow> e \<in> {DbFault, Duplicate} \<Longrightarrow> X e w'"
  shows "wp (UpdatesRow E T x f) Q X w"
  unfolding UpdatesRow_def by (rule wp_Updates) (rule assms; assumption)+

lemma unique_rows_snoc:
  "unique_rows rs \<Longrightarrow> \<forall>x \<in> set rs. \<not> conflict x r \<Longrightarrow> unique_rows (rs @ [r])"
  by (simp add: unique_rows_def sorted_wrt_append)

lemma wp_Create:
  assumes T: "table T"
    and Q: "\<And>y i w'. tb_row T y = set_row_id i (tb_row T x) \<Longrightarrow> i \<noteq> 0 \<Longrightarrow> added (tb_row T y) w w' \<Longrightarrow> Q y w'"
    and X: "\<And>e w'. same w w' \<Longrightarrow> e \<in> {DbFault, Duplicate} \<Longrightarrow> X e w'"
  shows "wp (Create E T x) Q X w"
  unfolding Create_def wp_simps
proof (rule wp_on_db)
  fix r d
  assume *: "db_insert (e_db E) (tb_row T x) (st_db w) = (Inr r, d)"
  from insert_ok [OF *] obtain i where i: "i \<noteq> 0" "r = set_row_id i (tb_row T x)" by blast
  moreover from table.set_id [OF T, of i x] obtain y where y: "set_row_id i (tb_row T x) = tb_row T y" by blast
  moreover have "added r w (w\<lparr>st_db := d\<rparr>)"
    using insert_ok [OF *] by (auto simp: added_def intro: unique_rows_snoc)
  ultimately show "Q (case tb_of T r of None \<Rightarrow> x | Some y \<Rightarrow> y) (w\<lparr>st_db := d\<rparr>)"
    using Q [of y i] by (simp add: table.of_row [OF T])
next
  fix e d
  assume "db_insert (e_db E) (tb_row T x) (st_db w) = (Inl e, d)"
  from insert_err [OF this] show "X e (w\<lparr>st_db := d\<rparr>)" by (auto intro!: X simp: same_def)
qed

text \<open>Saving a record whose live row is in the table.\<close>

lemma wp_Save:
  assumes T: "table T" and x0: "tb_row T x0 \<in> set (rows (st_db w))" "live_row (tb_row T x0)"
      "row_id (tb_row T x0) = row_id (tb_row T x)" and id: "row_id (tb_row T x) \<noteq> 0"
    and Q: "\<And>w'. changed (scoped T (\<lambda>y. row_id (tb_row T y) = row_id (tb_row T x))) (on_row T (\<lambda>_. x)) w w' \<Longrightarrow> Q () w'"
    and X: "\<And>e w'. same w w' \<Longrightarrow> e \<in> {DbFault, Duplicate} \<Longrightarrow> X e w'"
  shows "wp (Save E T x) Q X w"
  unfolding Save_def if_not_P [OF id] wp_bnd
proof (rule wp_update)
  let ?P = "scoped T (\<lambda>y. row_id (tb_row T y) = row_id (tb_row T x))"
  fix n and w' :: "('d, 'r) stores"
  assume *: "rows (st_db w') = map (\<lambda>r. if ?P r then on_row T (\<lambda>_. x) r else r) (rows (st_db w))"
    "st_redis w' = st_redis w" "st_logouts w' = st_logouts w" "length (filter (\<lambda>r. ?P r \<and> on_row T (\<lambda>_. x) r \<noteq> r) (rows (st_db w))) \<le> n"
    "unique_rows (rows (st_db w)) \<Longrightarrow> unique_rows (rows (st_db w'))"
  have ch: "changed ?P (on_row T (\<lambda>_. x)) w w'" using * by (simp add: changed_def)
  have upsert: "wp (on_db (db_upsert (e_db E) (tb_row T x))) Q X w'" if "n = 0"
  proof -
    have idle: "on_row T (\<lambda>_. x) r = r" if "r \<in> set (rows (st_db w))" "?P r" for r
      using *(4) \<open>n = 0\<close> that by (auto simp: filter_empty_conv)
    then have rows: "rows (st_db w') = rows (st_db w)" unfolding *(1) by (intro map_idI) simp
    have "?P (tb_row T x0)" using x0 by (simp add: scoped_def table.of_row [OF T])
    with idle [OF x0(1)] have "tb_row T x \<in> set (rows (st_db w'))" using x0(1) rows by (simp add: table.on_row_row [OF T])
    show ?thesis
    proof (rule wp_on_db)
      fix u d assume "db_upsert (e_db E) (tb_row T x) (st_db w') = (Inr u, d)"
      then have "rows d = rows (st_db w')" by (rule upsert_same) fact
      with ch rows have "changed ?P (on_row T (\<lambda>_. x)) w (w'\<lparr>st_db := d\<rparr>)" by (simp add: changed_def)
      then show "Q u (w'\<lparr>st_db := d\<rparr>)" using Q by simp
    next
      fix e d assume "db_upsert (e_db E) (tb_row T x) (st_db w') = (Inl e, d)"
      from upsert_err [OF this] rows *(2,3) show "X e (w'\<lparr>st_db := d\<rparr>)" by (intro X) (auto simp: same_def)
    qed
  qed
  show "wp (if n = 0 then on_db (db_upsert (e_db E) (tb_row T x)) else ret ()) Q X w'"
    using upsert ch by (simp add: wp_ret Q)
qed (rule X)

lemma wp_transaction:
  assumes body: "\<And>w1. same w w1 \<Longrightarrow>
      wp body (\<lambda>a w2. (\<forall>w'. same w2 w' \<longrightarrow> Q a w') \<and>
                      (\<forall>w'. rows (st_db w') = rows (st_db w) \<and> st_redis w' = st_redis w2 \<longrightarrow> X DbFault w'))
              (\<lambda>e w2. \<forall>w'. rows (st_db w') = rows (st_db w) \<and> st_redis w' = st_redis w2 \<longrightarrow> X e w') w1"
    and beg: "\<And>w'. same w w' \<Longrightarrow> X DbFault w'"
  shows "wp (transaction E body) Q X w"
proof (cases "db_begin (e_db E) (st_db w)")
  case (Pair b d)
  note d = begin_rows [OF Pair]
  show ?thesis
  proof (cases b)
    case False
    with Pair d show ?thesis by (auto simp: wp_def transaction_def same_def intro!: beg)
  next
    case True
    have "same w (w\<lparr>st_db := d\<rparr>)" using d by (simp add: same_def)
    from body [OF this] show ?thesis
    proof (cases rule: wpE)
      case (result a w2)
      show ?thesis
      proof (cases "db_commit (e_db E) d (st_db w2)")
        case (Pair c d')
        then show ?thesis using result True \<open>db_begin (e_db E) (st_db w) = (b, d)\<close> d
            commit_ok [of d "st_db w2" d'] commit_err [of d "st_db w2" d']
          by (cases c) (auto simp: wp_def transaction_def same_def)
      qed
    next
      case (error e w2)
      with True Pair d rollback_rows [of d "st_db w2"] show ?thesis
        by (auto simp: wp_def transaction_def)
    qed
  qed
qed

section \<open>Frames\<close>

text \<open>\<open>frame P\<close>: only rows that meet \<open>P\<close> may have changed, come or gone.\<close>

definition frame :: "(row \<Rightarrow> bool) \<Rightarrow> ('d, 'r) stores \<Rightarrow> ('d, 'r) stores \<Rightarrow> bool" where
  "frame P w w' \<longleftrightarrow> filter (\<lambda>r. \<not> P r) (rows (st_db w')) = filter (\<lambda>r. \<not> P r) (rows (st_db w))"

lemma frame_refl [simp]: "frame P w w"
  by (simp add: frame_def)

lemma frame_trans: "frame P w w' \<Longrightarrow> frame P w' w'' \<Longrightarrow> frame P w w''"
  by (simp add: frame_def)

lemma frame_same: "same w w' \<Longrightarrow> frame P w w'"
  by (simp add: frame_def same_def)

lemma frame_changed:
  assumes "changed Q f w w'" and "\<And>r. r \<in> set (rows (st_db w)) \<Longrightarrow> Q r \<Longrightarrow> P r \<and> P (f r)"
  shows "frame P w w'"
proof -
  have "(\<And>r. r \<in> set rs \<Longrightarrow> Q r \<Longrightarrow> P r \<and> P (f r)) \<Longrightarrow>
      filter (\<lambda>r. \<not> P r) (map (\<lambda>r. if Q r then f r else r) rs) = filter (\<lambda>r. \<not> P r) rs" for rs
    by (induction rs) auto
  from this [OF assms(2)] assms(1) show ?thesis by (simp add: frame_def changed_def)
qed

lemma frame_table:
  assumes ch: "changed P (on_row T f) w w'" and T: "table T"
    and P: "\<And>x. P (tb_row T x) \<Longrightarrow> C (tb_row T x) \<and> C (tb_row T (f x))" "\<And>r. P r \<Longrightarrow> \<exists>x. r = tb_row T x"
  shows "frame C w w'"
proof (rule frame_changed [OF ch])
  fix r
  assume "P r"
  with P(2) obtain x where "r = tb_row T x" by blast
  with P(1) [of x] \<open>P r\<close> show "C r \<and> C (on_row T f r)" by (simp add: table.on_row_row [OF T])
qed

lemma frame_added: "added r w w' \<Longrightarrow> P r \<Longrightarrow> frame P w w'"
  by (simp add: frame_def added_def)

lemma frame_mono:
  assumes "frame P w w'" and "\<And>r. P r \<Longrightarrow> P' r"
  shows "frame P' w w'"
proof -
  have *: "filter (\<lambda>r. \<not> P' r) rs = filter (\<lambda>r. \<not> P' r) (filter (\<lambda>r. \<not> P r) rs)" for rs
    using assms(2) by (induction rs) auto
  from assms(1) show ?thesis
    by (simp only: frame_def * [of "rows (st_db w')"] * [of "rows (st_db w)"])
qed

lemma frame_rows: "frame P w w' \<Longrightarrow> \<not> P r \<Longrightarrow> r \<in> set (rows (st_db w')) \<longleftrightarrow> r \<in> set (rows (st_db w))"
  unfolding frame_def by (metis (mono_tags, lifting) filter_set mem_Collect_eq set_filter)

lemma changed_rows:
  "changed P f w w' \<Longrightarrow>
   r \<in> set (rows (st_db w')) \<longleftrightarrow> (\<exists>r0 \<in> set (rows (st_db w)). r = (if P r0 then f r0 else r0))"
  by (auto simp: changed_def)

lemma changed_table:
  assumes T: "table T" and ch: "changed P (on_row T f) w w'"
  shows "tb_row T x \<in> set (rows (st_db w')) \<longleftrightarrow>
    (\<exists>x0. tb_row T x0 \<in> set (rows (st_db w)) \<and> x = (if P (tb_row T x0) then f x0 else x0))"
proof
  assume "tb_row T x \<in> set (rows (st_db w'))"
  then obtain r where r: "r \<in> set (rows (st_db w))" "tb_row T x = (if P r then on_row T f r else r)"
    unfolding changed_rows [OF ch] by blast
  show "\<exists>x0. tb_row T x0 \<in> set (rows (st_db w)) \<and> x = (if P (tb_row T x0) then f x0 else x0)"
  proof (cases "tb_of T r")
    case None
    with r(2) have "r = tb_row T x" by (simp add: on_row_def split: if_splits)
    with None show ?thesis by (simp add: table.of_row [OF T])
  next
    case (Some x0)
    then have "r = tb_row T x0" by (rule table.row_of [OF T])
    with r show ?thesis
      by (intro exI [of _ x0]) (simp add: table.on_row_row [OF T] table.row_inj [OF T] split: if_splits)
  qed
next
  assume "\<exists>x0. tb_row T x0 \<in> set (rows (st_db w)) \<and> x = (if P (tb_row T x0) then f x0 else x0)"
  then obtain x0 where x0: "tb_row T x0 \<in> set (rows (st_db w))" "x = (if P (tb_row T x0) then f x0 else x0)" by blast
  show "tb_row T x \<in> set (rows (st_db w'))"
    unfolding changed_rows [OF ch] by (rule bexI [OF _ x0(1)]) (simp add: x0(2) table.on_row_row [OF T])
qed

lemma changed_image:
  assumes "table T" and "changed P (on_row T f) w w'" and "tb_row T x \<in> set (rows (st_db w))"
  shows "tb_row T (if P (tb_row T x) then f x else x) \<in> set (rows (st_db w'))"
  using assms(3) unfolding changed_table [OF assms(1,2)] by blast

text \<open>Saving a record replaces the one row with its primary key.\<close>

lemma changed_saved:
  assumes T: "table T" and ch: "changed (scoped T (\<lambda>y. row_id (tb_row T y) = row_id (tb_row T x))) (on_row T (\<lambda>_. x)) w w'"
    and uniq: "unique_rows (rows (st_db w))"
    and x0: "tb_row T x0 \<in> set (rows (st_db w))" "live_row (tb_row T x0)" "row_id (tb_row T x0) = row_id (tb_row T x)"
  shows "tb_row T y \<in> set (rows (st_db w')) \<longleftrightarrow>
    y = x \<or> (tb_row T y \<in> set (rows (st_db w)) \<and> row_id (tb_row T y) \<noteq> row_id (tb_row T x))"
proof -
  have only: "y0 = x0" if "tb_row T y0 \<in> set (rows (st_db w))" "row_id (tb_row T y0) = row_id (tb_row T x)" for y0
    using unique_rowsD [OF uniq that(1) x0(1)] that(2) x0(3) table.same_rows [OF T]
    by (auto simp: conflict_def table.row_inj [OF T])
  have "scoped T (\<lambda>y. row_id (tb_row T y) = row_id (tb_row T x)) (tb_row T y0) \<longleftrightarrow> row_id (tb_row T y0) = row_id (tb_row T x)"
    if "tb_row T y0 \<in> set (rows (st_db w))" for y0
    using only [OF that] x0(2) by (auto simp: scoped_def table.of_row [OF T])
  then show ?thesis
    unfolding changed_table [OF T ch] using x0(1,3) by (auto split: if_splits)
qed

text \<open>The rows of another table stay.\<close>

lemma changed_other:
  assumes "changed P (on_row T f) w w'" and "\<And>r. P r \<Longrightarrow> \<exists>x. r = tb_row T x"
    and "\<And>x. r \<noteq> tb_row T x" and "table T"
  shows "r \<in> set (rows (st_db w')) \<longleftrightarrow> r \<in> set (rows (st_db w))"
proof -
  have "r = (if P r0 then on_row T f r0 else r0) \<longleftrightarrow> r = r0" for r0
  proof (cases "P r0")
    case True
    with assms(2) obtain x where "r0 = tb_row T x" by blast
    with True assms(3) show ?thesis by (simp add: table.on_row_row [OF assms(4)])
  qed simp
  then show ?thesis unfolding changed_rows [OF assms(1)] by simp
qed

lemma added_rows: "added r w w' \<Longrightarrow> x \<in> set (rows (st_db w')) \<longleftrightarrow> x = r \<or> x \<in> set (rows (st_db w))"
  by (auto simp: added_def)

lemma same_rows: "same w w' \<Longrightarrow> rows (st_db w') = rows (st_db w)"
  by (simp add: same_def)

lemma same_trans: "same w w' \<Longrightarrow> same w' w'' \<Longrightarrow> same w w''"
  by (simp add: same_def)

end

text \<open>Conditions and changes on the rows of a table, evaluated.\<close>

lemmas table_simps = scoped_def unscoped_def on_row_def users_def groups_def members_def contacts_def
  applies_def sessions_def messages_def files_def

end
