(* ===== verification/Service_Base.thy ===== *)
theory Service_Base
  imports Database
begin

text \<open>
  What the services share: answers, the cache commands as actions, and the backend they rely on:
  a database and a cache, each with its contract. The messages of the answers are paraphrased;
  \<open>constants.SYSTEM_ERROR\<close> is \<open>SystemError\<close>. \<open>Panicked\<close> stands for an index out of range, which
  the framework's recovery turns into status 500.
\<close>

datatype msg = SystemError | Msg string | Panicked

type_synonym answer = "msg \<times> int"

text \<open>An answer with data: message, data, code.\<close>

type_synonym 'a data_answer = "msg \<times> 'a \<times> int"

definition system_error :: answer where
  "system_error = (SystemError, -1)"

section \<open>Cache commands\<close>

definition DelPattern :: "('d, 'r) env \<Rightarrow> string \<Rightarrow> ('d, 'r, redis_error, unit) svc" where
  "DelPattern E k = on_scan (DelKeysWithPattern (e_redis E) (e_fuel E) k (e_now E))"

definition DelPrefix :: "('d, 'r) env \<Rightarrow> string \<Rightarrow> ('d, 'r, redis_error, unit) svc" where
  "DelPrefix E k = on_scan (DelKeysWithPrefix (e_redis E) (e_fuel E) k (e_now E))"

definition DelIfExists :: "('d, 'r) env \<Rightarrow> string \<Rightarrow> ('d, 'r, redis_error, unit) svc" where
  "DelIfExists E k = on_redis (DelKeyIfExists (e_redis E) k (e_now E))"

definition GetCache :: "('d, 'r) env \<Rightarrow> string \<Rightarrow> ('d, 'r, redis_error, string) svc" where
  "GetCache E k = on_redis (GetKeyNilIsErr (e_redis E) k (e_now E))"

definition SetCache :: "('d, 'r) env \<Rightarrow> string \<Rightarrow> string \<Rightarrow> time \<Rightarrow> ('d, 'r, redis_error, unit) svc" where
  "SetCache E k v ttl = on_redis (SetKeyEx (e_redis E) k v ttl (e_now E))"

text \<open>\<open>time.Minute * constants.REDIS_TIMEOUT\<close>\<close>

abbreviation redis_timeout :: time where
  "redis_timeout \<equiv> 60000000000"

text \<open>A cache whose deletions do not fail: assumed only where a claim needs it.\<close>

definition deletes_ok :: "('d, 'r) env \<Rightarrow> bool" where
  "deletes_ok E \<longleftrightarrow> (\<forall>k now s. \<exists>s'. DelKeyIfExists (e_redis E) k now s = (Inr (), s'))"

section \<open>The backend\<close>

locale backend =
  database E rows + redis_strings "e_redis E" str_at + redis_sets "e_redis E" set_at +
  redis_scan "e_redis E" pages
  for E :: "('d, 'r) env" and rows :: "'d \<Rightarrow> row list" and str_at set_at pages +
  assumes fuel: "pages 0 < e_fuel E"
begin

lemma wp_on_redis:
  assumes "\<And>a s. f (st_redis w) = (Inr a, s) \<Longrightarrow> Q a (w\<lparr>st_redis := s\<rparr>)"
    and "\<And>e s. f (st_redis w) = (Inl e, s) \<Longrightarrow> X e (w\<lparr>st_redis := s\<rparr>)"
  shows "wp (on_redis f) Q X w"
  using assms by (cases "f (st_redis w)"; cases "fst (f (st_redis w))") (auto simp: wp_def on_redis_def)

text \<open>A cache command leaves the database alone and ends.\<close>

definition same_db :: "('d, 'r) stores \<Rightarrow> ('d, 'r) stores \<Rightarrow> bool" where
  "same_db w w' \<longleftrightarrow> st_db w' = st_db w \<and> st_logouts w' = st_logouts w"

lemma wp_scan:
  assumes "\<exists>p. f (st_redis w) = Some p"
    and "\<And>a w'. same_db w w' \<Longrightarrow> Q a w'" and "\<And>e w'. same_db w w' \<Longrightarrow> X e w'"
  shows "wp (on_scan f) Q X w"
  using assms by (auto simp: wp_def on_scan_def same_db_def split: sum.split)

lemma wp_DelPattern:
  "(\<And>a w'. same_db w w' \<Longrightarrow> Q a w') \<Longrightarrow> (\<And>e w'. same_db w w' \<Longrightarrow> X e w') \<Longrightarrow> wp (DelPattern E k) Q X w"
  unfolding DelPattern_def DelKeysWithPattern_def
  by (rule wp_scan) (rule del_loop_returns [OF fuel] | assumption)+

lemma wp_DelPrefix:
  "(\<And>a w'. same_db w w' \<Longrightarrow> Q a w') \<Longrightarrow> (\<And>e w'. same_db w w' \<Longrightarrow> X e w') \<Longrightarrow> wp (DelPrefix E k) Q X w"
  unfolding DelPrefix_def DelKeysWithPrefix_def
  by (rule wp_scan) (rule del_loop_returns [OF fuel] | assumption)+

lemma wp_cache:
  "(\<And>a w'. same_db w w' \<Longrightarrow> Q a w') \<Longrightarrow> (\<And>e w'. same_db w w' \<Longrightarrow> X e w') \<Longrightarrow> wp (on_redis f) Q X w"
  by (rule wp_on_redis) (auto simp: same_db_def)

lemma wp_DelIfExists:
  assumes "deletes_ok E"
    and "\<And>w'. st_db w' = st_db w \<Longrightarrow> st_logouts w' = st_logouts w \<Longrightarrow> (\<And>t k'. e_now E \<le> t \<Longrightarrow>
      str_at (st_redis w') t k' = (if k' = k then None else str_at (st_redis w) t k')) \<Longrightarrow> Q () w'"
  shows "wp (DelIfExists E k) Q X w"
  unfolding DelIfExists_def
proof (rule wp_on_redis)
  fix u s
  assume "DelKeyIfExists (e_redis E) k (e_now E) (st_redis w) = (Inr u, s)"
  from DelKeyIfExists_ok [OF this] have "Q () (w\<lparr>st_redis := s\<rparr>)" by (intro assms(2)) simp_all
  then show "Q u (w\<lparr>st_redis := s\<rparr>)" by simp
next
  fix e s
  assume "DelKeyIfExists (e_redis E) k (e_now E) (st_redis w) = (Inl e, s)"
  moreover obtain s' where "DelKeyIfExists (e_redis E) k (e_now E) (st_redis w) = (Inr (), s')"
    using assms(1) unfolding deletes_ok_def by blast
  ultimately show "X e (w\<lparr>st_redis := s\<rparr>)" by simp
qed

text \<open>Reading a string from the cache.\<close>

lemma wp_GetCache:
  assumes "\<And>v. str_at (st_redis w) (e_now E) k = Some v \<Longrightarrow> Q v w"
    and "str_at (st_redis w) (e_now E) k = None \<Longrightarrow> X RedisNil w" and "X RedisFault w"
  shows "wp (GetCache E k) Q X w"
  unfolding GetCache_def
proof (rule wp_on_redis)
  fix v s
  assume "GetKeyNilIsErr (e_redis E) k (e_now E) (st_redis w) = (Inr v, s)"
  from GetKeyNilIsErr_cases [OF this] have "s = st_redis w" "str_at (st_redis w) (e_now E) k = Some v"
    by (auto split: option.splits)
  then show "Q v (w\<lparr>st_redis := s\<rparr>)" using assms(1) by simp
next
  fix e s
  assume "GetKeyNilIsErr (e_redis E) k (e_now E) (st_redis w) = (Inl e, s)"
  from GetKeyNilIsErr_cases [OF this] show "X e (w\<lparr>st_redis := s\<rparr>)"
    using assms(2,3) by (auto split: option.splits)
qed

lemma wp_SetCache:
  assumes "0 < ttl"
    and "\<And>w'. st_db w' = st_db w \<Longrightarrow> (\<And>t k'. e_now E \<le> t \<Longrightarrow> str_at (st_redis w') t k' =
      (if k' = k then (if t < e_now E + ttl then Some v else None) else str_at (st_redis w) t k')) \<Longrightarrow> Q () w'"
    and "\<And>w'. st_db w' = st_db w \<Longrightarrow> (\<And>t. e_now E \<le> t \<Longrightarrow> str_at (st_redis w') t k = str_at (st_redis w) t k \<or>
      str_at (st_redis w') t k = (if t < e_now E + ttl then Some v else None)) \<Longrightarrow> X RedisFault w'"
  shows "wp (SetCache E k v ttl) Q X w"
  unfolding SetCache_def
proof (rule wp_on_redis)
  fix u s
  assume "SetKeyEx (e_redis E) k v ttl (e_now E) (st_redis w) = (Inr u, s)"
  from SetKeyEx_ok [OF this assms(1)] have "Q () (w\<lparr>st_redis := s\<rparr>)" by (intro assms(2)) simp_all
  then show "Q u (w\<lparr>st_redis := s\<rparr>)" by simp
next
  fix e s
  assume "SetKeyEx (e_redis E) k v ttl (e_now E) (st_redis w) = (Inl e, s)"
  note err = SetKeyEx_err [OF this assms(1)]
  have "e = RedisFault" using err [of "e_now E"] by simp
  moreover have "X RedisFault (w\<lparr>st_redis := s\<rparr>)" by (rule assms(3)) (use err in simp_all)
  ultimately show "X e (w\<lparr>st_redis := s\<rparr>)" by simp
qed

text \<open>Invalidations at the end of a service: whatever they do, the rows stay.\<close>

definition on_rows :: "(row list \<Rightarrow> bool) \<Rightarrow> ('d, 'r) stores \<Rightarrow> bool" where
  "on_rows P w \<longleftrightarrow> P (rows (st_db w))"

lemma wp_logged_DelPattern: "on_rows P w \<Longrightarrow> wp (logged (DelPattern E k)) (\<lambda>_. on_rows P) X w"
  unfolding wp_simps by (rule wp_DelPattern) (auto simp: same_db_def on_rows_def)

lemma wp_logged_DelPrefix: "on_rows P w \<Longrightarrow> wp (logged (DelPrefix E k)) (\<lambda>_. on_rows P) X w"
  unfolding wp_simps by (rule wp_DelPrefix) (auto simp: same_db_def on_rows_def)

lemma wp_logged_redis: "on_rows P w \<Longrightarrow> wp (logged (on_redis f)) (\<lambda>_. on_rows P) X w"
  unfolding wp_simps by (rule wp_cache) (auto simp: same_db_def on_rows_def)

end

text \<open>The contracts do not depend on the clock.\<close>

lemma backend_now:
  assumes "backend E rows str_at set_at pages"
  shows "backend (E\<lparr>e_now := t\<rparr>) rows str_at set_at pages"
proof -
  have e: "e_db (E\<lparr>e_now := t\<rparr>) = e_db E" "e_redis (E\<lparr>e_now := t\<rparr>) = e_redis E"
    "e_fuel (E\<lparr>e_now := t\<rparr>) = e_fuel E" by simp_all
  show ?thesis using assms unfolding backend_def database_def backend_axioms_def e .
qed

end
