(* ===== verification/Codecs.thy ===== *)
theory Codecs
  imports Wire Service_Base
begin

text \<open>
  The answers of the services that are kept as JSON in the cache (\<open>dto/respond\<close>), and the shape
  their services share: read the cache, else read the database and fill the cache. A slice that
  is still \<open>nil\<close> is written as \<open>null\<close> and read back as \<open>nil\<close>. \<open>codec\<close> is the contract of an
  element type: what is written is read back. It carries over to lists and to the cache.
\<close>

section \<open>Lists of structs\<close>

definition list_json :: "('s \<Rightarrow> json) \<Rightarrow> 's list \<Rightarrow> json" where
  "list_json enc xs = (if xs = [] then JNull else JArr (map enc xs))"

definition marshal_list :: "('s \<Rightarrow> json) \<Rightarrow> 's list \<Rightarrow> string" where
  "marshal_list enc xs = json_print (list_json enc xs)"

text \<open>An element of a wrong type leaves what could be read; the error is only logged.\<close>

fun unmarshal_elems :: "(string \<times> 's setter) list \<Rightarrow> 's \<Rightarrow> json \<Rightarrow> 's list" where
  "unmarshal_elems fs z (JArr js) = map (\<lambda>j. fst (unmarshal_struct fs j z)) js"
| "unmarshal_elems fs z _ = []"

definition unmarshal_list :: "(string \<times> 's setter) list \<Rightarrow> 's \<Rightarrow> string \<Rightarrow> 's list" where
  "unmarshal_list fs z s = (case json_parse s of None \<Rightarrow> [] | Some j \<Rightarrow> unmarshal_elems fs z j)"

locale codec =
  fixes enc :: "'s \<Rightarrow> json" and fs :: "(string \<times> 's setter) list" and z :: 's and ok :: "'s \<Rightarrow> bool"
  assumes enc_ok: "ok x \<Longrightarrow> json_ok (enc x)"
    and enc_back: "ok x \<Longrightarrow> unmarshal_struct fs (enc x) z = (x, False)"
begin

lemma list_roundtrip:
  assumes "\<forall>x \<in> set xs. ok x"
  shows "unmarshal_list fs z (marshal_list enc xs) = xs"
proof -
  have "elems_ok (map enc xs)" using assms by (induction xs) (auto simp: enc_ok)
  then have ok: "json_ok (list_json enc xs)" by (simp add: list_json_def)
  have "map (\<lambda>j. fst (unmarshal_struct fs j z)) (map enc xs) = xs"
    using assms by (induction xs) (auto simp: enc_back)
  then show ?thesis
    unfolding unmarshal_list_def marshal_list_def json_roundtrip [OF ok] by (auto simp: list_json_def)
qed

end

section \<open>The cached answers\<close>

text \<open>\<open>LoadMyGroupRespond\<close> and \<open>LoadMyJoinedGroupRespond\<close> have the same fields and tags.\<close>

record LoadMyGroupRespond =
  lg_GroupId :: string
  lg_GroupName :: string
  lg_Avatar :: string

definition my_group_json :: "LoadMyGroupRespond \<Rightarrow> json" where
  "my_group_json g = JObj [(''group_id'', JStr (lg_GroupId g)), (''group_name'', JStr (lg_GroupName g)),
     (''avatar'', JStr (lg_Avatar g))]"

definition my_group_fields :: "(string \<times> LoadMyGroupRespond setter) list" where
  "my_group_fields = [(''group_id'', set_string (\<lambda>v g. g\<lparr>lg_GroupId := v\<rparr>)),
     (''group_name'', set_string (\<lambda>v g. g\<lparr>lg_GroupName := v\<rparr>)),
     (''avatar'', set_string (\<lambda>v g. g\<lparr>lg_Avatar := v\<rparr>))]"

definition zero_my_group :: LoadMyGroupRespond where
  "zero_my_group = \<lparr>lg_GroupId = [], lg_GroupName = [], lg_Avatar = []\<rparr>"

record MyUserListRespond =
  mu_UserId :: string
  mu_UserName :: string
  mu_Avatar :: string

definition my_user_json :: "MyUserListRespond \<Rightarrow> json" where
  "my_user_json u = JObj [(''user_id'', JStr (mu_UserId u)), (''user_name'', JStr (mu_UserName u)),
     (''avatar'', JStr (mu_Avatar u))]"

definition my_user_fields :: "(string \<times> MyUserListRespond setter) list" where
  "my_user_fields = [(''user_id'', set_string (\<lambda>v u. u\<lparr>mu_UserId := v\<rparr>)),
     (''user_name'', set_string (\<lambda>v u. u\<lparr>mu_UserName := v\<rparr>)),
     (''avatar'', set_string (\<lambda>v u. u\<lparr>mu_Avatar := v\<rparr>))]"

definition zero_my_user :: MyUserListRespond where
  "zero_my_user = \<lparr>mu_UserId = [], mu_UserName = [], mu_Avatar = []\<rparr>"

record UserSessionListRespond =
  us_SessionId :: string
  us_Avatar :: string
  us_UserId :: string
  us_Username :: string

definition user_session_json :: "UserSessionListRespond \<Rightarrow> json" where
  "user_session_json u = JObj [(''session_id'', JStr (us_SessionId u)), (''avatar'', JStr (us_Avatar u)),
     (''user_id'', JStr (us_UserId u)), (''user_name'', JStr (us_Username u))]"

definition user_session_fields :: "(string \<times> UserSessionListRespond setter) list" where
  "user_session_fields = [(''session_id'', set_string (\<lambda>v u. u\<lparr>us_SessionId := v\<rparr>)),
     (''avatar'', set_string (\<lambda>v u. u\<lparr>us_Avatar := v\<rparr>)),
     (''user_id'', set_string (\<lambda>v u. u\<lparr>us_UserId := v\<rparr>)),
     (''user_name'', set_string (\<lambda>v u. u\<lparr>us_Username := v\<rparr>))]"

definition zero_user_session :: UserSessionListRespond where
  "zero_user_session = \<lparr>us_SessionId = [], us_Avatar = [], us_UserId = [], us_Username = []\<rparr>"

record GroupSessionListRespond =
  gs_SessionId :: string
  gs_GroupName :: string
  gs_GroupId :: string
  gs_Avatar :: string

definition group_session_json :: "GroupSessionListRespond \<Rightarrow> json" where
  "group_session_json g = JObj [(''session_id'', JStr (gs_SessionId g)), (''group_name'', JStr (gs_GroupName g)),
     (''group_id'', JStr (gs_GroupId g)), (''avatar'', JStr (gs_Avatar g))]"

definition group_session_fields :: "(string \<times> GroupSessionListRespond setter) list" where
  "group_session_fields = [(''session_id'', set_string (\<lambda>v g. g\<lparr>gs_SessionId := v\<rparr>)),
     (''group_name'', set_string (\<lambda>v g. g\<lparr>gs_GroupName := v\<rparr>)),
     (''group_id'', set_string (\<lambda>v g. g\<lparr>gs_GroupId := v\<rparr>)),
     (''avatar'', set_string (\<lambda>v g. g\<lparr>gs_Avatar := v\<rparr>))]"

definition zero_group_session :: GroupSessionListRespond where
  "zero_group_session = \<lparr>gs_SessionId = [], gs_GroupName = [], gs_GroupId = [], gs_Avatar = []\<rparr>"

record GetGroupMemberListRespond =
  gl_UserId :: string
  gl_Nickname :: string
  gl_Avatar :: string
  gl_Role :: int

definition member_list_json :: "GetGroupMemberListRespond \<Rightarrow> json" where
  "member_list_json m = JObj [(''user_id'', JStr (gl_UserId m)), (''nickname'', JStr (gl_Nickname m)),
     (''avatar'', JStr (gl_Avatar m)), (''role'', JNum (itoa (gl_Role m)))]"

definition member_list_fields :: "(string \<times> GetGroupMemberListRespond setter) list" where
  "member_list_fields = [(''user_id'', set_string (\<lambda>v m. m\<lparr>gl_UserId := v\<rparr>)),
     (''nickname'', set_string (\<lambda>v m. m\<lparr>gl_Nickname := v\<rparr>)),
     (''avatar'', set_string (\<lambda>v m. m\<lparr>gl_Avatar := v\<rparr>)),
     (''role'', set_int 8 (\<lambda>v m. m\<lparr>gl_Role := v\<rparr>))]"

definition zero_member_list :: GetGroupMemberListRespond where
  "zero_member_list = \<lparr>gl_UserId = [], gl_Nickname = [], gl_Avatar = [], gl_Role = 0\<rparr>"

definition int8 :: "int \<Rightarrow> bool" where
  "int8 i \<longleftrightarrow> -128 \<le> i \<and> i < 128"

lemma parse_int8: "int8 i \<Longrightarrow> parse_int 8 (itoa i) = Some i"
  by (rule parse_int_itoa) (simp_all add: int8_def)

lemma json_ok_int8: "int8 i \<Longrightarrow> json_ok (JNum (itoa i))"
  by (rule json_ok_int) (simp_all add: int8_def)

interpretation my_group: codec my_group_json my_group_fields zero_my_group "\<lambda>_. True"
  by unfold_locales
     (simp_all add: my_group_json_def my_group_fields_def zero_my_group_def find_field_def)

interpretation my_user: codec my_user_json my_user_fields zero_my_user "\<lambda>_. True"
  by unfold_locales
     (simp_all add: my_user_json_def my_user_fields_def zero_my_user_def find_field_def)

interpretation user_session: codec user_session_json user_session_fields zero_user_session "\<lambda>_. True"
  by unfold_locales
     (simp_all add: user_session_json_def user_session_fields_def zero_user_session_def find_field_def)

interpretation group_session: codec group_session_json group_session_fields zero_group_session "\<lambda>_. True"
  by unfold_locales
     (simp_all add: group_session_json_def group_session_fields_def zero_group_session_def find_field_def)

interpretation member_list: codec member_list_json member_list_fields zero_member_list "\<lambda>m. int8 (gl_Role m)"
proof
  fix m :: GetGroupMemberListRespond
  assume "int8 (gl_Role m)"
  then show "json_ok (member_list_json m)" using json_ok_int8 [of "gl_Role m"]
    by (simp add: member_list_json_def)
  show "unmarshal_struct member_list_fields (member_list_json m) zero_member_list = (m, False)"
    using \<open>int8 (gl_Role m)\<close>
    by (simp add: member_list_json_def member_list_fields_def zero_member_list_def find_field_def parse_int8)
qed

section \<open>Reading through the cache\<close>

text \<open>
  \<open>cached_list\<close> is the frame of the services with a cached list: a hit is decoded, a miss runs
  \<open>load\<close> and writes what it returns, another error of the cache ends with the system error.
\<close>

definition cached_list ::
  "('d, 'r) env \<Rightarrow> string \<Rightarrow> ('s \<Rightarrow> json) \<Rightarrow> (string \<times> 's setter) list \<Rightarrow> 's \<Rightarrow> msg \<Rightarrow>
   ('d, 'r, 's list data_answer, 's list) svc \<Rightarrow> ('d, 'r, 's list data_answer, 's list data_answer) svc" where
  "cached_list E key enc fs z done load = attempt (GetCache E key) (\<lambda>r. case r of
       Inr s \<Rightarrow> ret (done, unmarshal_list fs z s, 0)
     | Inl RedisNil \<Rightarrow>
         bnd load (\<lambda>xs.
         bnd (logged (SetCache E key (marshal_list enc xs) redis_timeout)) (\<lambda>_.
         ret (done, xs, 0)))
     | Inl _ \<Rightarrow> throw (SystemError, [], -1))"

end
