(* ===== verification/Group_Member.thy ===== *)
theory Group_Member
  imports Codecs
begin

text \<open>
  \<open>service/gorm/group_member_service.go\<close> and \<open>service/chat/group_member_query.go\<close>: the rows that
  say who belongs to a group, and the set kept in the cache for the delivery of messages. A user
  has at most one row per group: joining again revives it, except after a removal by the owner.
\<close>

section \<open>The table\<close>

definition GetActiveGroupMemberIDs :: "('d, 'r) env \<Rightarrow> uuid \<Rightarrow> ('d, 'r, go_error, uuid list) svc" where
  "GetActiveGroupMemberIDs E groupID =
     bnd (Find E members (\<lambda>m. gm_group_id m = groupID \<and> gm_status m = member_NORMAL))
       (\<lambda>ms. ret (map gm_user_id ms))"

definition new_member :: "uuid \<Rightarrow> uuid \<Rightarrow> int \<Rightarrow> time \<Rightarrow> GroupMember" where
  "new_member groupID userID role now =
     \<lparr>gm_id = 0, gm_group_id = groupID, gm_user_id = userID, gm_role = role, gm_status = member_NORMAL,
      gm_mute_until = None, gm_joined_at = now, gm_created_at = now, gm_updated_at = now, gm_deleted_at = 0\<rparr>"

definition addMember :: "('d, 'r) env \<Rightarrow> uuid \<Rightarrow> uuid \<Rightarrow> int \<Rightarrow> ('d, 'r, go_error, unit) svc" where
  "addMember E groupID userID role =
     bnd (Count E members (\<lambda>m. gm_group_id m = groupID \<and> gm_user_id m = userID)) (\<lambda>active.
     if 0 < active then
       Updates E members (\<lambda>m. gm_group_id m = groupID \<and> gm_user_id m = userID)
         (\<lambda>m. m\<lparr>gm_status := member_NORMAL, gm_role := role, gm_joined_at := e_now E, gm_updated_at := e_now E\<rparr>)
     else
       attempt (LastUnscoped E members
         (\<lambda>m. gm_group_id m = groupID \<and> gm_user_id m = userID \<and> gm_deleted_at m \<noteq> 0)) (\<lambda>r. case r of
           Inr history \<Rightarrow>
             if gm_status history = member_KICKED then throw ErrMemberKicked
             else UpdatesUnscoped E members (\<lambda>m. gm_id m = gm_id history)
               (\<lambda>m. m\<lparr>gm_status := member_NORMAL, gm_role := role, gm_deleted_at := 0,
                      gm_joined_at := e_now E, gm_updated_at := e_now E\<rparr>)
         | Inl _ \<Rightarrow> bnd (Create E members (new_member groupID userID role (e_now E))) (\<lambda>_. ret ())))"

definition updateMemberStatus :: "('d, 'r) env \<Rightarrow> uuid \<Rightarrow> uuid \<Rightarrow> int \<Rightarrow> ('d, 'r, go_error, unit) svc" where
  "updateMemberStatus E groupID userID status =
     Updates E members (\<lambda>m. gm_group_id m = groupID \<and> gm_user_id m = userID)
       (\<lambda>m. m\<lparr>gm_status := status, gm_deleted_at := e_now E, gm_updated_at := e_now E\<rparr>)"

definition CountActiveMembers :: "('d, 'r) env \<Rightarrow> uuid \<Rightarrow> ('d, 'r, go_error, nat) svc" where
  "CountActiveMembers E groupID =
     Count E members (\<lambda>m. gm_group_id m = groupID \<and> gm_status m = member_NORMAL)"

section \<open>The set for the delivery\<close>

definition group_member_set_key :: "uuid \<Rightarrow> string" where
  "group_member_set_key groupID = ''group_member_set_'' @ groupID"

definition groupMemberSetTTL :: time where
  "groupMemberSetTTL = 10 * minute"

definition rebuild_member_set :: "('d, 'r) env \<Rightarrow> uuid \<Rightarrow> uuid list \<Rightarrow> ('d, 'r, go_error, unit) svc" where
  "rebuild_member_set E groupID ids =
     (let key = group_member_set_key groupID in
      if ids \<noteq> [] then
        attempt (on_redis (SAdd (e_redis E) key ids (e_now E))) (\<lambda>r. case r of
            Inl _ \<Rightarrow> ret ()
          | Inr _ \<Rightarrow> logged (on_redis (Expire (e_redis E) key groupMemberSetTTL (e_now E))))
      else ret ())"

definition chat_getActiveGroupMemberIDs :: "('d, 'r) env \<Rightarrow> uuid \<Rightarrow> ('d, 'r, go_error, uuid list) svc" where
  "chat_getActiveGroupMemberIDs E groupID =
     attempt (on_redis (SMembers (e_redis E) (group_member_set_key groupID) (e_now E))) (\<lambda>r.
       case r of
         Inr (m # ms) \<Rightarrow> ret (m # ms)
       | _ \<Rightarrow>
           bnd (GetActiveGroupMemberIDs E groupID) (\<lambda>ids.
           bnd (rebuild_member_set E groupID ids) (\<lambda>_. ret ids)))"

definition DelGroupMemberSet :: "('d, 'r) env \<Rightarrow> uuid \<Rightarrow> ('d, 'r, 'e, unit) svc" where
  "DelGroupMemberSet E groupID = logged (DelIfExists E (group_member_set_key groupID))"

section \<open>Membership\<close>

definition is_member :: "row list \<Rightarrow> uuid \<Rightarrow> uuid \<Rightarrow> bool" where
  "is_member rs g u \<longleftrightarrow> (\<exists>m. RMember m \<in> set rs \<and> gm_group_id m = g \<and> gm_user_id m = u \<and>
     gm_deleted_at m = 0 \<and> gm_status m = member_NORMAL)"

text \<open>A user has at most one row per group, live or not.\<close>

definition one_row :: "row list \<Rightarrow> bool" where
  "one_row rs \<longleftrightarrow> (\<forall>m m'. RMember m \<in> set rs \<longrightarrow> RMember m' \<in> set rs \<longrightarrow>
     gm_group_id m = gm_group_id m' \<longrightarrow> gm_user_id m = gm_user_id m' \<longrightarrow> m = m')"

definition removed :: "row list \<Rightarrow> uuid \<Rightarrow> uuid \<Rightarrow> bool" where
  "removed rs g u \<longleftrightarrow> (\<exists>m. RMember m \<in> set rs \<and> gm_group_id m = g \<and> gm_user_id m = u \<and>
     gm_deleted_at m \<noteq> 0 \<and> gm_status m = member_KICKED)"

text \<open>On a concrete list.\<close>

lemma is_member_eval [simp]:
  "\<not> is_member [] g u"
  "is_member (r # rs) g u \<longleftrightarrow>
     (case r of RMember m \<Rightarrow> gm_group_id m = g \<and> gm_user_id m = u \<and> gm_deleted_at m = 0 \<and> gm_status m = member_NORMAL
      | _ \<Rightarrow> False) \<or> is_member rs g u"
  by (auto simp: is_member_def split: row.splits)

lemma removed_eval [simp]:
  "\<not> removed [] g u"
  "removed (r # rs) g u \<longleftrightarrow>
     (case r of RMember m \<Rightarrow> gm_group_id m = g \<and> gm_user_id m = u \<and> gm_deleted_at m \<noteq> 0 \<and> gm_status m = member_KICKED
      | _ \<Rightarrow> False) \<or> removed rs g u"
  by (auto simp: removed_def split: row.splits)

lemma one_row_distinct:
  assumes "distinct (map (\<lambda>m. (gm_group_id m, gm_user_id m)) (List.map_filter (tb_of members) rs))"
  shows "one_row rs"
proof -
  have in_ms: "m \<in> set (List.map_filter (tb_of members) rs)" if "RMember m \<in> set rs" for m
    using set_map_filter_of [OF members.table_axioms, of m rs] that by simp
  show ?thesis
    unfolding one_row_def
  proof (intro allI impI)
    fix m m'
    assume "RMember m \<in> set rs" "RMember m' \<in> set rs" "gm_group_id m = gm_group_id m'" "gm_user_id m = gm_user_id m'"
    with assms in_ms [of m] in_ms [of m'] show "m = m'"
      unfolding distinct_map by (auto dest: inj_onD)
  qed
qed

definition member_row :: "uuid \<Rightarrow> uuid \<Rightarrow> row \<Rightarrow> bool" where
  "member_row g u r \<longleftrightarrow> (case r of RMember m \<Rightarrow> gm_group_id m = g \<and> gm_user_id m = u | _ \<Rightarrow> False)"

context database
begin

lemma one_rowD:
  "one_row rs \<Longrightarrow> RMember m \<in> set rs \<Longrightarrow> RMember m' \<in> set rs \<Longrightarrow>
   gm_group_id m' = gm_group_id m \<Longrightarrow> gm_user_id m' = gm_user_id m \<Longrightarrow> m' = m"
  unfolding one_row_def by blast

text \<open>The owner's removal is final as long as reads of the database do not fail.\<close>

lemma wp_addMember_removed:
  assumes "one_row (rows (st_db w))" and "removed (rows (st_db w)) g u" and "reads_ok E"
    and "\<And>w'. same w w' \<Longrightarrow> X ErrMemberKicked w'"
  shows "wp (addMember E g u role) Q X w"
proof -
  obtain m where m: "RMember m \<in> set (rows (st_db w))" "gm_group_id m = g" "gm_user_id m = u"
      "gm_deleted_at m \<noteq> 0" "gm_status m = member_KICKED"
    using assms(2) by (auto simp: removed_def)
  have uniq: "m' = m" if "RMember m' \<in> set (rows (st_db w))" "gm_group_id m' = g" "gm_user_id m' = u" for m'
    by (rule one_rowD [OF assms(1) m(1)]) (use m that in simp_all)
  have dead: "filter (scoped members (\<lambda>m. gm_group_id m = g \<and> gm_user_id m = u)) (rows (st_db w)) = []"
    unfolding filter_empty_conv
  proof
    fix r
    assume r: "r \<in> set (rows (st_db w))"
    show "\<not> scoped members (\<lambda>m. gm_group_id m = g \<and> gm_user_id m = u) r"
      by (cases r) (use r uniq m(4) in \<open>auto simp: table_simps\<close>)
  qed
  show ?thesis
    unfolding addMember_def wp_simps
  proof (rule wp_Count [OF members.table_axioms], goal_cases)
    case (1 n w1)
    note w1 = 1(1)
    have [simp]: "n = 0" using 1(2) dead by simp
    have "wp (LastUnscoped E members (\<lambda>m. gm_group_id m = g \<and> gm_user_id m = u \<and> gm_deleted_at m \<noteq> 0))
            (\<lambda>h w2. h = m \<and> same w w2) (\<lambda>_ _. False) w1"
    proof (rule wp_LastUnscoped [OF members.table_axioms])
      fix x w2
      assume "same w1 w2" "tb_row members x \<in> set (rows (st_db w1))"
        "gm_group_id x = g \<and> gm_user_id x = u \<and> gm_deleted_at x \<noteq> 0"
      then show "x = m \<and> same w w2"
        using uniq [of x] same_trans [OF w1] by (simp add: same_rows [OF w1])
    next
      assume "\<And>x. tb_row members x \<in> set (rows (st_db w1)) \<Longrightarrow>
        \<not> (gm_group_id x = g \<and> gm_user_id x = u \<and> gm_deleted_at x \<noteq> 0)"
      from this [of m] show False using m by (simp add: same_rows [OF w1])
    qed (use assms(3) in simp)
    then show ?case
      by (auto simp: wp_simps m elim!: wp_mono intro: assms(4))
  qed (use assms(3) in simp)
qed

text \<open>The members after a change of the members, and after a new row.\<close>

lemma changed_members:
  assumes "changed P (on_row members f) w w'"
  shows "RMember m \<in> set (rows (st_db w')) \<longleftrightarrow>
    (\<exists>m0. RMember m0 \<in> set (rows (st_db w)) \<and> m = (if P (RMember m0) then f m0 else m0))"
  using changed_table [OF members.table_axioms assms] by simp

lemma one_row_changed:
  assumes "changed P (on_row members f) w w'" and "one_row (rows (st_db w))"
    and "\<And>m. gm_group_id (f m) = gm_group_id m \<and> gm_user_id (f m) = gm_user_id m"
  shows "one_row (rows (st_db w'))"
  unfolding one_row_def changed_members [OF assms(1)]
proof (intro allI impI, elim exE conjE)
  fix m m' m0 m0'
  assume "RMember m0 \<in> set (rows (st_db w))" "m = (if P (RMember m0) then f m0 else m0)"
    "RMember m0' \<in> set (rows (st_db w))" "m' = (if P (RMember m0') then f m0' else m0')"
    "gm_group_id m = gm_group_id m'" "gm_user_id m = gm_user_id m'"
  moreover from this assms(3) have "gm_group_id m0 = gm_group_id m0'" "gm_user_id m0 = gm_user_id m0'"
    by (metis (full_types))+
  ultimately show "m = m'" using one_rowD [OF assms(2), of m0' m0] by simp
qed

lemma one_row_added:
  assumes "added (RMember m) w w'" and "one_row (rows (st_db w))"
    and "\<And>m'. RMember m' \<in> set (rows (st_db w)) \<Longrightarrow> \<not> (gm_group_id m' = gm_group_id m \<and> gm_user_id m' = gm_user_id m)"
  shows "one_row (rows (st_db w'))"
  unfolding one_row_def added_rows [OF assms(1)]
proof (intro allI impI)
  fix a b
  assume ab: "RMember a = RMember m \<or> RMember a \<in> set (rows (st_db w))"
    "RMember b = RMember m \<or> RMember b \<in> set (rows (st_db w))"
    "gm_group_id a = gm_group_id b" "gm_user_id a = gm_user_id b"
  show "a = b"
    using ab assms(3) [of a] assms(3) [of b] one_rowD [OF assms(2), of b a] by fastforce
qed

text \<open>What adding a member achieves.\<close>

definition joined :: "uuid \<Rightarrow> uuid \<Rightarrow> int \<Rightarrow> ('d, 'r) stores \<Rightarrow> ('d, 'r) stores \<Rightarrow> bool" where
  "joined g u role w w' \<longleftrightarrow>
     frame (member_row g u) w w' \<and> st_redis w' = st_redis w \<and> one_row (rows (st_db w')) \<and>
     (unique_rows (rows (st_db w)) \<longrightarrow> unique_rows (rows (st_db w'))) \<and>
     (\<exists>m. RMember m \<in> set (rows (st_db w')) \<and> gm_group_id m = g \<and> gm_user_id m = u \<and>
          gm_deleted_at m = 0 \<and> gm_status m = member_NORMAL \<and> gm_role m = role)"

lemma joined_same: "same w w1 \<Longrightarrow> joined g u role w1 w2 \<Longrightarrow> joined g u role w w2"
  unfolding joined_def same_def frame_def by simp

lemma joined_updated:
  assumes ch: "changed P (on_row members f) w w'" and one: "one_row (rows (st_db w))"
    and m: "RMember m \<in> set (rows (st_db w))" "P (RMember m)" "gm_group_id m = g" "gm_user_id m = u"
    and P: "\<And>m. RMember m \<in> set (rows (st_db w)) \<Longrightarrow> P (RMember m) \<Longrightarrow> gm_group_id m = g \<and> gm_user_id m = u"
      "\<And>r. P r \<Longrightarrow> \<exists>m. r = RMember m"
    and f: "\<And>m. gm_group_id (f m) = gm_group_id m \<and> gm_user_id (f m) = gm_user_id m"
    and fm: "gm_deleted_at (f m) = 0" "gm_status (f m) = member_NORMAL" "gm_role (f m) = role"
  shows "joined g u role w w'"
proof -
  have "frame (member_row g u) w w'"
  proof (rule frame_changed [OF ch])
    fix r
    assume r: "r \<in> set (rows (st_db w))" "P r"
    with P(2) obtain m' where "r = RMember m'" by blast
    with r P(1) [of m'] f [of m'] show "member_row g u r \<and> member_row g u (on_row members f r)"
      by (simp add: member_row_def table_simps)
  qed
  moreover have "RMember (f m) \<in> set (rows (st_db w'))"
    unfolding changed_members [OF ch] using m(1,2) by (intro exI [of _ m]) simp
  ultimately show ?thesis
    using one_row_changed [OF ch one f] fm f m(3,4) ch unfolding joined_def changed_def by auto
qed

lemma joined_added:
  assumes ad: "added (RMember y) w w'" and one: "one_row (rows (st_db w))"
    and no: "\<And>m. RMember m \<in> set (rows (st_db w)) \<Longrightarrow> \<not> (gm_group_id m = g \<and> gm_user_id m = u)"
    and y: "gm_group_id y = g" "gm_user_id y = u" "gm_deleted_at y = 0" "gm_status y = member_NORMAL" "gm_role y = role"
  shows "joined g u role w w'"
proof -
  have "one_row (rows (st_db w'))" by (rule one_row_added [OF ad one]) (use no y in simp)
  moreover have "frame (member_row g u) w w'" by (rule frame_added [OF ad]) (simp add: member_row_def y)
  moreover have "RMember y \<in> set (rows (st_db w'))" unfolding added_rows [OF ad] by simp
  moreover have "st_redis w' = st_redis w" "unique_rows (rows (st_db w)) \<longrightarrow> unique_rows (rows (st_db w'))"
    using ad unfolding added_def by blast+
  ultimately show ?thesis unfolding joined_def using y by blast
qed

lemma wp_addMember:
  assumes one: "one_row (rows (st_db w))" and uniq: "unique_rows (rows (st_db w))" and reads: "reads_ok E"
    and Q: "\<And>w'. joined g u role w w' \<Longrightarrow> Q () w'"
    and X: "\<And>e w'. same w w' \<Longrightarrow> e \<noteq> NotFound \<Longrightarrow> (e = ErrMemberKicked \<longleftrightarrow> removed (rows (st_db w)) g u) \<Longrightarrow> X e w'"
  shows "wp (addMember E g u role) Q X w"
proof (cases "removed (rows (st_db w)) g u")
  case True
  show ?thesis
    by (rule wp_addMember_removed [OF one True reads]) (use True in \<open>auto intro: X\<close>)
next
  case not_removed: False
  have X': "X e w'" if "same w1 w'" "same w w1" "e \<in> {DbFault, Duplicate}" for e w1 w'
    using that not_removed same_trans [of w w1 w'] by (intro X) auto
  show ?thesis
    unfolding addMember_def wp_simps
  proof (rule wp_Count [OF members.table_axioms], goal_cases)
    case (1 n w1)
    note w1 = 1(1) and rw = same_rows [OF 1(1)]
    let ?P = "\<lambda>m. gm_group_id m = g \<and> gm_user_id m = u"
    have one1: "one_row (rows (st_db w1))" using one rw by simp
    show ?case
    proof (cases "0 < n")
      case True
      then obtain r where r: "r \<in> set (rows (st_db w1))" "scoped members ?P r"
        unfolding 1(2) rw length_greater_0_conv filter_empty_conv by auto
      then obtain m where m: "r = RMember m" "?P m" "gm_deleted_at m = 0"
        unfolding members.scoped_iff by auto
      have "wp (Updates E members ?P
          (\<lambda>m. m\<lparr>gm_status := member_NORMAL, gm_role := role, gm_joined_at := e_now E, gm_updated_at := e_now E\<rparr>))
          Q X w1"
      proof (rule wp_Updates)
        fix w2
        assume ch: "changed (scoped members ?P) (on_row members (\<lambda>m. m\<lparr>gm_status := member_NORMAL,
          gm_role := role, gm_joined_at := e_now E, gm_updated_at := e_now E\<rparr>)) w1 w2"
        have "joined g u role w1 w2"
          by (rule joined_updated [OF ch one1, of m]) (use m r in \<open>auto simp: members.scoped_iff\<close>)
        then show "Q () w2" by (intro Q joined_same [OF w1])
      qed (use X' w1 in blast)
      with True show ?thesis by (simp add: wp_simps)
    next
      case False
      let ?H = "\<lambda>m. gm_group_id m = g \<and> gm_user_id m = u \<and> gm_deleted_at m \<noteq> 0"
      have live: "\<not> scoped members ?P r" if "r \<in> set (rows (st_db w1))" for r
        using False that unfolding 1(2) rw length_greater_0_conv filter_empty_conv by auto
      have ids: "m' = m" if "RMember m \<in> set (rows (st_db w1))" "RMember m' \<in> set (rows (st_db w1))"
          "gm_id m' = gm_id m" for m m'
        using unique_rowsD [of "rows (st_db w1)" "RMember m'" "RMember m"] uniq that rw
        by (auto simp: conflict_def)
      have found: "wp (if gm_status h = member_KICKED then throw ErrMemberKicked
          else UpdatesUnscoped E members (\<lambda>m. gm_id m = gm_id h)
            (\<lambda>m. m\<lparr>gm_status := member_NORMAL, gm_role := role, gm_deleted_at := 0,
                   gm_joined_at := e_now E, gm_updated_at := e_now E\<rparr>)) Q X w2"
        if w2: "same w1 w2" and h: "RMember h \<in> set (rows (st_db w1))" "?H h" for h w2
      proof -
        have st: "gm_status h \<noteq> member_KICKED"
          using not_removed h unfolding removed_def rw by blast
        have rw2: "rows (st_db w2) = rows (st_db w1)" by (rule same_rows [OF w2])
        have "wp (UpdatesUnscoped E members (\<lambda>m. gm_id m = gm_id h)
            (\<lambda>m. m\<lparr>gm_status := member_NORMAL, gm_role := role, gm_deleted_at := 0,
                   gm_joined_at := e_now E, gm_updated_at := e_now E\<rparr>)) Q X w2"
        proof (rule wp_UpdatesUnscoped)
          fix w3
          assume ch: "changed (unscoped members (\<lambda>m. gm_id m = gm_id h))
            (on_row members (\<lambda>m. m\<lparr>gm_status := member_NORMAL, gm_role := role, gm_deleted_at := 0,
                   gm_joined_at := e_now E, gm_updated_at := e_now E\<rparr>)) w2 w3"
          have "joined g u role w2 w3"
            by (rule joined_updated [OF ch, of h])
               (use h one1 ids [OF h(1)] rw2 in \<open>auto simp: members.unscoped_iff\<close>)
          then show "Q () w3" by (intro Q joined_same [OF w1] joined_same [OF w2])
        qed (use X' same_trans [OF w1 w2] in blast)
        with st show ?thesis by simp
      qed
      have fresh: "wp (Create E members (new_member g u role (e_now E))) (\<lambda>_. Q ()) X w2"
        if w2: "same w1 w2" and none: "\<And>m. RMember m \<in> set (rows (st_db w1)) \<Longrightarrow> \<not> ?H m" for w2
      proof (rule wp_Create [OF members.table_axioms])
        fix y i w3
        assume y: "tb_row members y = set_row_id i (tb_row members (new_member g u role (e_now E)))"
          and ad: "added (tb_row members y) w2 w3"
        have rw2: "rows (st_db w2) = rows (st_db w1)" by (rule same_rows [OF w2])
        have yy: "y = new_member g u role (e_now E)\<lparr>gm_id := i\<rparr>" using y by simp
        have no: "\<not> (gm_group_id m = g \<and> gm_user_id m = u)" if "RMember m \<in> set (rows (st_db w2))" for m
          using that none [of m] live [of "RMember m"] unfolding members.scoped_iff rw2 by auto
        have "joined g u role w2 w3"
          by (rule joined_added [of y]) (use ad one1 no rw2 in \<open>simp_all add: yy new_member_def\<close>)
        then show "Q () w3" by (intro Q joined_same [OF w1] joined_same [OF w2])
      qed (rule X' [OF _ same_trans [OF w1 w2]])
      have "wp (attempt (LastUnscoped E members ?H) (\<lambda>r. case r of
           Inr history \<Rightarrow>
             if gm_status history = member_KICKED then throw ErrMemberKicked
             else UpdatesUnscoped E members (\<lambda>m. gm_id m = gm_id history)
               (\<lambda>m. m\<lparr>gm_status := member_NORMAL, gm_role := role, gm_deleted_at := 0,
                      gm_joined_at := e_now E, gm_updated_at := e_now E\<rparr>)
         | Inl _ \<Rightarrow> bnd (Create E members (new_member g u role (e_now E))) (\<lambda>_. ret ()))) Q X w1"
        unfolding wp_attempt
        by (rule wp_LastUnscoped [OF members.table_axioms])
           (use found fresh reads in \<open>simp_all add: wp_simps\<close>)
      with False show ?thesis by (simp add: wp_attempt)
    qed
  qed (use reads in simp)
qed

end

end
