(* ===== verification/Group_Service.thy ===== *)
theory Group_Service
  imports Group_Member
begin

text \<open>
  \<open>service/gorm/group_info_service.go\<close>: creating, changing, leaving and dissolving groups. Each
  function is the whole service call: guards and early returns as answers, the statements in the
  code's order, the transaction where there is one, and the cache invalidations that follow it.
  A returned error of a cache command is only logged. The generated suffixes of the uuids are
  arguments.
\<close>

section \<open>Requests and answers\<close>

record CreateGroupRequest =
  cg_OwnerId :: uuid
  cg_Name :: string
  cg_Notice :: string
  cg_AddMode :: int
  cg_Avatar :: string

record UpdateGroupInfoRequest =
  ug_OwnerId :: uuid
  ug_Uuid :: uuid
  ug_Name :: string
  ug_Avatar :: string
  ug_AddMode :: int
  ug_Notice :: string

record RemoveGroupMembersRequest =
  rg_GroupId :: uuid
  rg_OwnerId :: uuid
  rg_UuidList :: "uuid list"

record GetGroupInfoRespond =
  gg_Uuid :: string
  gg_Name :: string
  gg_Notice :: string
  gg_MemberCnt :: int
  gg_OwnerId :: string
  gg_AddMode :: int
  gg_Status :: int
  gg_Avatar :: string
  gg_IsDeleted :: bool

record GetGroupListRespond =
  gk_Uuid :: string
  gk_Name :: string
  gk_OwnerId :: string
  gk_Status :: int
  gk_IsDeleted :: bool

fun set_bool :: "(bool \<Rightarrow> 's \<Rightarrow> 's) \<Rightarrow> 's setter" where
  "set_bool upd (JBool b) s = (upd b s, False)"
| "set_bool upd JNull s = (s, False)"
| "set_bool upd _ s = (s, True)"

definition group_info_fields :: "(string \<times> GetGroupInfoRespond setter) list" where
  "group_info_fields =
     [(''uuid'', set_string (\<lambda>v g. g\<lparr>gg_Uuid := v\<rparr>)), (''name'', set_string (\<lambda>v g. g\<lparr>gg_Name := v\<rparr>)),
      (''notice'', set_string (\<lambda>v g. g\<lparr>gg_Notice := v\<rparr>)), (''member_cnt'', set_int 64 (\<lambda>v g. g\<lparr>gg_MemberCnt := v\<rparr>)),
      (''owner_id'', set_string (\<lambda>v g. g\<lparr>gg_OwnerId := v\<rparr>)), (''add_mode'', set_int 8 (\<lambda>v g. g\<lparr>gg_AddMode := v\<rparr>)),
      (''status'', set_int 8 (\<lambda>v g. g\<lparr>gg_Status := v\<rparr>)), (''avatar'', set_string (\<lambda>v g. g\<lparr>gg_Avatar := v\<rparr>)),
      (''is_deleted'', set_bool (\<lambda>v g. g\<lparr>gg_IsDeleted := v\<rparr>))]"

definition zero_group_info :: GetGroupInfoRespond where
  "zero_group_info = \<lparr>gg_Uuid = [], gg_Name = [], gg_Notice = [], gg_MemberCnt = 0, gg_OwnerId = [],
     gg_AddMode = 0, gg_Status = 0, gg_Avatar = [], gg_IsDeleted = False\<rparr>"

text \<open>Decoding into a pointer: \<open>null\<close> and a syntax error leave it \<open>nil\<close>.\<close>

definition unmarshal_ptr :: "(string \<times> 's setter) list \<Rightarrow> 's \<Rightarrow> string \<Rightarrow> 's option" where
  "unmarshal_ptr fs z s =
     (case json_parse s of None \<Rightarrow> None | Some JNull \<Rightarrow> None | Some j \<Rightarrow> Some (fst (unmarshal_struct fs j z)))"

section \<open>Creating a group\<close>

definition new_contact :: "uuid \<Rightarrow> uuid \<Rightarrow> int \<Rightarrow> time \<Rightarrow> UserContact" where
  "new_contact userId contactId ctype now =
     \<lparr>uc_id = 0, uc_user_id = userId, uc_contact_id = contactId, uc_contact_type = ctype,
      uc_status = contact_NORMAL, uc_created_at = now, uc_update_at = now, uc_deleted_at = None\<rparr>"

text \<open>The column default of an avatar that is left empty (\<open>model.GroupInfo\<close>, \<open>model.UserInfo\<close>).\<close>

definition default_avatar :: string where
  "default_avatar = ''https://cube.elemecdn.com/0/88/03b0d39583f48206768a7534e55bcpng.png''"

definition new_group :: "CreateGroupRequest \<Rightarrow> string \<Rightarrow> time \<Rightarrow> GroupInfo" where
  "new_group req rnd now =
     \<lparr>gi_id = 0, gi_uuid = ''G'' @ rnd, gi_name = cg_Name req, gi_notice = cg_Notice req,
      gi_owner_id = cg_OwnerId req, gi_add_mode = cg_AddMode req, gi_avatar = (if cg_Avatar req = [] then default_avatar else cg_Avatar req),
      gi_status = group_NORMAL, gi_created_at = now, gi_updated_at = now, gi_deleted_at = 0\<rparr>"

definition CreateGroup ::
  "('d, 'r) env \<Rightarrow> CreateGroupRequest \<Rightarrow> string \<Rightarrow> ('d, 'r, answer, answer) svc" where
  "CreateGroup E req rnd =
     (let group = new_group req rnd (e_now E) in
      bnd (or_throw (transaction E (
        bnd (Create E groups group) (\<lambda>_.
        bnd (addMember E (gi_uuid group) (cg_OwnerId req) role_OWNER) (\<lambda>_.
        bnd (Create E contacts (new_contact (cg_OwnerId req) (gi_uuid group) type_GROUP (e_now E))) (\<lambda>_.
        ret ()))))) system_error) (\<lambda>_.
      bnd (logged (DelPattern E (''contact_mygroup_list_'' @ cg_OwnerId req))) (\<lambda>_.
      bnd (DelGroupMemberSet E (gi_uuid group)) (\<lambda>_.
      ret (Msg ''created'', 0)))))"

section \<open>Reading\<close>

definition my_group_respond :: "GroupInfo \<Rightarrow> LoadMyGroupRespond" where
  "my_group_respond g = \<lparr>lg_GroupId = gi_uuid g, lg_GroupName = gi_name g, lg_Avatar = gi_avatar g\<rparr>"

definition LoadMyGroup ::
  "('d, 'r) env \<Rightarrow> uuid \<Rightarrow>
   ('d, 'r, LoadMyGroupRespond list data_answer, LoadMyGroupRespond list data_answer) svc" where
  "LoadMyGroup E ownerId =
     cached_list E (''contact_mygroup_list_'' @ ownerId) my_group_json my_group_fields zero_my_group (Msg ''loaded'')
       (bnd (or_throw (Find E groups (\<lambda>g. gi_owner_id g = ownerId)) (SystemError, [], -1)) (\<lambda>gs.
        ret (map my_group_respond (sort_key (\<lambda>g. - gi_created_at g) gs))))"

definition group_info_respond :: "GroupInfo \<Rightarrow> nat \<Rightarrow> GetGroupInfoRespond" where
  "group_info_respond g cnt =
     \<lparr>gg_Uuid = gi_uuid g, gg_Name = gi_name g, gg_Notice = gi_notice g, gg_MemberCnt = int cnt,
      gg_OwnerId = gi_owner_id g, gg_AddMode = gi_add_mode g, gg_Status = gi_status g,
      gg_Avatar = gi_avatar g, gg_IsDeleted = (gi_deleted_at g \<noteq> 0)\<rparr>"

definition GetGroupInfo ::
  "('d, 'r) env \<Rightarrow> uuid \<Rightarrow>
   ('d, 'r, GetGroupInfoRespond option data_answer, GetGroupInfoRespond option data_answer) svc" where
  "GetGroupInfo E groupId =
     attempt (GetCache E (''group_info_'' @ groupId)) (\<lambda>r. case r of
       Inr s \<Rightarrow> ret (Msg ''loaded'', unmarshal_ptr group_info_fields zero_group_info s, 0)
     | Inl RedisNil \<Rightarrow>
         bnd (or_throw (First E groups (\<lambda>g. gi_uuid g = groupId)) (SystemError, None, -1)) (\<lambda>group.
         bnd (or_throw (CountActiveMembers E (gi_uuid group)) (SystemError, None, -1)) (\<lambda>cnt.
         ret (Msg ''loaded'', Some (group_info_respond group cnt), 0)))
     | Inl _ \<Rightarrow> throw (SystemError, None, -1))"

definition group_list_respond :: "GroupInfo \<Rightarrow> GetGroupListRespond" where
  "group_list_respond g =
     \<lparr>gk_Uuid = gi_uuid g, gk_Name = gi_name g, gk_OwnerId = gi_owner_id g, gk_Status = gi_status g,
      gk_IsDeleted = (gi_deleted_at g \<noteq> 0)\<rparr>"

definition GetGroupInfoList ::
  "('d, 'r) env \<Rightarrow> ('d, 'r, GetGroupListRespond list data_answer, GetGroupListRespond list data_answer) svc" where
  "GetGroupInfoList E =
     bnd (or_throw (FindUnscoped E groups (\<lambda>_. True)) (SystemError, [], -1)) (\<lambda>gs.
     ret (Msg ''loaded'', map group_list_respond gs, 0))"

definition CheckGroupAddMode :: "('d, 'r) env \<Rightarrow> uuid \<Rightarrow> ('d, 'r, int data_answer, int data_answer) svc" where
  "CheckGroupAddMode E groupId =
     attempt (GetCache E (''group_info_'' @ groupId)) (\<lambda>r. case r of
       Inr s \<Rightarrow> ret (Msg ''add mode'', gg_AddMode (fst (json_unmarshal group_info_fields s zero_group_info)), 0)
     | Inl RedisNil \<Rightarrow>
         bnd (or_throw (First E groups (\<lambda>g. gi_uuid g = groupId)) (SystemError, -1, -1)) (\<lambda>group.
         ret (Msg ''add mode'', gi_add_mode group, 0))
     | Inl _ \<Rightarrow> throw (SystemError, -1, -1))"

text \<open>The join of \<open>group_member\<close> and \<open>user_info\<close> is one statement; \<open>Table\<close> has no soft-delete
  scope, the condition on \<open>gm.deleted_at\<close> is written out.\<close>

definition member_join :: "uuid \<Rightarrow> row list \<Rightarrow> GetGroupMemberListRespond list" where
  "member_join groupId rs =
     (let ms = filter (\<lambda>m. gm_group_id m = groupId \<and> gm_status m = member_NORMAL \<and> gm_deleted_at m = 0)
                 (List.map_filter (tb_of members) rs);
          us = List.map_filter (tb_of users) rs;
          sorted_ms = sort_key (\<lambda>m. - gm_role m) (sort_key gm_joined_at ms)
      in concat (map (\<lambda>m. map (\<lambda>u. \<lparr>gl_UserId = gm_user_id m, gl_Nickname = ui_nickname u,
                                    gl_Avatar = ui_avatar u, gl_Role = gm_role m\<rparr>)
                   (filter (\<lambda>u. ui_uuid u = gm_user_id m) us)) sorted_ms))"

definition GetGroupMemberList ::
  "('d, 'r) env \<Rightarrow> uuid \<Rightarrow>
   ('d, 'r, GetGroupMemberListRespond list data_answer, GetGroupMemberListRespond list data_answer) svc" where
  "GetGroupMemberList E groupId =
     cached_list E (''group_memberlist_'' @ groupId) member_list_json member_list_fields zero_member_list
       (Msg ''loaded'')
       (bnd (or_throw (First E groups (\<lambda>g. gi_uuid g = groupId)) (SystemError, [], -1)) (\<lambda>_.
        bnd (or_throw (select E (\<lambda>r. case r of RMember _ \<Rightarrow> True | RUser _ \<Rightarrow> True | _ \<Rightarrow> False))
          (SystemError, [], -1)) (\<lambda>rs.
        ret (member_join groupId rs))))"

section \<open>Leaving, dissolving, deleting\<close>

definition LeaveGroup :: "('d, 'r) env \<Rightarrow> uuid \<Rightarrow> uuid \<Rightarrow> ('d, 'r, answer, answer) svc" where
  "LeaveGroup E userId groupId =
     (let deletedAt = Some (e_now E) in
      bnd (or_throw (First E groups (\<lambda>g. gi_uuid g = groupId)) system_error) (\<lambda>group.
      bnd (guard (gi_owner_id group \<noteq> userId) (Msg ''the owner cannot leave'', -2)) (\<lambda>_.
      bnd (or_throw (transaction E (
        bnd (Updates E members (\<lambda>m. gm_group_id m = groupId \<and> gm_user_id m = userId)
          (\<lambda>m. m\<lparr>gm_status := member_QUIT, gm_deleted_at := e_now E, gm_updated_at := e_now E\<rparr>)) (\<lambda>_.
        bnd (Updates E sessions (\<lambda>s. se_send_id s = userId \<and> se_receive_id s = groupId)
          (\<lambda>s. s\<lparr>se_deleted_at := deletedAt\<rparr>)) (\<lambda>_.
        bnd (Updates E contacts (\<lambda>c. uc_user_id c = userId \<and> uc_contact_id c = groupId)
          (\<lambda>c. c\<lparr>uc_deleted_at := deletedAt, uc_status := contact_QUIT_GROUP\<rparr>)) (\<lambda>_.
        Updates E applies (\<lambda>a. ca_contact_id a = groupId \<and> ca_user_id a = userId)
          (\<lambda>a. a\<lparr>ca_deleted_at := deletedAt\<rparr>)))))) system_error) (\<lambda>_.
      bnd (logged (DelPattern E (''group_session_list_'' @ userId))) (\<lambda>_.
      bnd (logged (DelPattern E (''group_memberlist_'' @ groupId))) (\<lambda>_.
      bnd (logged (DelPattern E (''my_joined_group_list_'' @ userId))) (\<lambda>_.
      bnd (DelGroupMemberSet E groupId) (\<lambda>_.
      ret (Msg ''left'', 0)))))))))"

text \<open>The rows that refer to a group, deleted one statement after the other, without a
  transaction. A failed read of the applications ends with code 0.\<close>

definition delete_sessions_of :: "('d, 'r) env \<Rightarrow> uuid \<Rightarrow> ('d, 'r, answer, unit) svc" where
  "delete_sessions_of E groupId =
     bnd (or_throw (Find E sessions (\<lambda>s. se_receive_id s = groupId)) system_error) (\<lambda>ss.
     for_each ss (\<lambda>s. or_throw (UpdatesRow E sessions s (\<lambda>s. s\<lparr>se_deleted_at := Some (e_now E)\<rparr>)) system_error))"

definition delete_contacts_of :: "('d, 'r) env \<Rightarrow> uuid \<Rightarrow> ('d, 'r, answer, unit) svc" where
  "delete_contacts_of E groupId =
     bnd (or_throw (Find E contacts (\<lambda>c. uc_contact_id c = groupId)) system_error) (\<lambda>cs.
     for_each cs (\<lambda>c. or_throw (UpdatesRow E contacts c (\<lambda>c. c\<lparr>uc_deleted_at := Some (e_now E)\<rparr>)) system_error))"

definition delete_applies_of :: "('d, 'r) env \<Rightarrow> uuid \<Rightarrow> ('d, 'r, answer, unit) svc" where
  "delete_applies_of E groupId =
     attempt (Find E applies (\<lambda>a. ca_contact_id a = groupId)) (\<lambda>r. case r of
         Inl e \<Rightarrow> throw (if e \<noteq> NotFound then (Msg ''no applications to delete'', 0) else system_error)
       | Inr as \<Rightarrow>
           for_each as (\<lambda>a. or_throw (UpdatesRow E applies a (\<lambda>a. a\<lparr>ca_deleted_at := Some (e_now E)\<rparr>)) system_error))"

definition DismissGroup :: "('d, 'r) env \<Rightarrow> uuid \<Rightarrow> uuid \<Rightarrow> ('d, 'r, answer, answer) svc" where
  "DismissGroup E ownerId groupId =
     bnd (or_throw (First E groups (\<lambda>g. gi_uuid g = groupId)) system_error) (\<lambda>group.
     bnd (guard (gi_owner_id group = ownerId) (Msg ''not the owner'', -2)) (\<lambda>_.
     bnd (or_throw (Updates E groups (\<lambda>g. gi_uuid g = groupId)
       (\<lambda>g. g\<lparr>gi_deleted_at := e_now E, gi_updated_at := e_now E\<rparr>)) system_error) (\<lambda>_.
     bnd (or_throw (Updates E members (\<lambda>m. gm_group_id m = groupId)
       (\<lambda>m. m\<lparr>gm_deleted_at := e_now E, gm_updated_at := e_now E\<rparr>)) system_error) (\<lambda>_.
     bnd (delete_sessions_of E groupId) (\<lambda>_.
     bnd (delete_contacts_of E groupId) (\<lambda>_.
     bnd (delete_applies_of E groupId) (\<lambda>_.
     bnd (logged (DelPattern E (''contact_mygroup_list_'' @ ownerId))) (\<lambda>_.
     bnd (logged (DelPattern E (''group_session_list_'' @ ownerId))) (\<lambda>_.
     bnd (logged (DelPrefix E ''my_joined_group_list'')) (\<lambda>_.
     bnd (logged (DelPattern E (''group_memberlist_'' @ groupId))) (\<lambda>_.
     bnd (DelGroupMemberSet E groupId) (\<lambda>_.
     ret (Msg ''dissolved'', 0)))))))))))))"

definition delete_group :: "('d, 'r) env \<Rightarrow> uuid \<Rightarrow> ('d, 'r, answer, unit) svc" where
  "delete_group E groupId =
     bnd (or_throw (Updates E groups (\<lambda>g. gi_uuid g = groupId)
       (\<lambda>g. g\<lparr>gi_deleted_at := e_now E, gi_updated_at := e_now E\<rparr>)) system_error) (\<lambda>_.
     bnd (or_throw (Updates E members (\<lambda>m. gm_group_id m = groupId)
       (\<lambda>m. m\<lparr>gm_deleted_at := e_now E, gm_updated_at := e_now E\<rparr>)) system_error) (\<lambda>_.
     bnd (delete_sessions_of E groupId) (\<lambda>_.
     bnd (delete_contacts_of E groupId) (\<lambda>_.
     delete_applies_of E groupId))))"

definition DeleteGroups :: "('d, 'r) env \<Rightarrow> uuid list \<Rightarrow> ('d, 'r, answer, answer) svc" where
  "DeleteGroups E uuidList =
     bnd (for_each uuidList (delete_group E)) (\<lambda>_.
     bnd (logged (DelPrefix E ''contact_mygroup_list'')) (\<lambda>_.
     bnd (logged (DelPrefix E ''group_session_list'')) (\<lambda>_.
     bnd (logged (DelPrefix E ''group_session_list'')) (\<lambda>_.
     bnd (logged (DelPrefix E ''group_memberlist_'')) (\<lambda>_.
     bnd (logged (DelPrefix E ''group_member_set_'')) (\<lambda>_.
     ret (Msg ''deleted'', 0)))))))"

section \<open>Entering, removing, changing\<close>

definition EnterGroupDirectly :: "('d, 'r) env \<Rightarrow> uuid \<Rightarrow> uuid \<Rightarrow> ('d, 'r, answer, answer) svc" where
  "EnterGroupDirectly E ownerId contactId =
     bnd (or_throw (First E groups (\<lambda>g. gi_uuid g = ownerId)) system_error) (\<lambda>group.
     bnd (guard (gi_add_mode group = 0) (Msg ''needs an application'', -2)) (\<lambda>_.
     bnd (attempt (transaction E (
         bnd (addMember E ownerId contactId role_MEMBER) (\<lambda>_.
         attempt (bnd (FindUnscoped E contacts (\<lambda>c. uc_user_id c = contactId \<and> uc_contact_id c = ownerId))
             (\<lambda>cs. case sort_key uc_id cs of [] \<Rightarrow> throw NotFound | c # _ \<Rightarrow> ret c)) (\<lambda>r. case r of
           Inr c \<Rightarrow>
             bnd (UpdatesUnscoped E contacts (\<lambda>c'. uc_id c' = uc_id c) (\<lambda>c'. c'\<lparr>uc_deleted_at := None\<rparr>)) (\<lambda>_.
             UpdatesRow E contacts c (\<lambda>c'. c'\<lparr>uc_status := contact_NORMAL, uc_update_at := e_now E\<rparr>))
         | Inl _ \<Rightarrow>
             bnd (Create E contacts (new_contact contactId ownerId type_GROUP (e_now E))) (\<lambda>_. ret ())))))
       (\<lambda>r. case r of
          Inr _ \<Rightarrow> ret ()
        | Inl e \<Rightarrow> throw (if e = ErrMemberKicked then (Msg ''removed by the owner'', -2) else system_error))) (\<lambda>_.
     bnd (logged (DelPattern E (''group_session_list_'' @ contactId))) (\<lambda>_.
     bnd (logged (DelPattern E (''group_memberlist_'' @ ownerId))) (\<lambda>_.
     bnd (logged (DelPattern E (''my_joined_group_list_'' @ contactId))) (\<lambda>_.
     bnd (DelGroupMemberSet E ownerId) (\<lambda>_.
     ret (Msg ''entered'', 0))))))))"

definition SetGroupsStatus :: "('d, 'r) env \<Rightarrow> uuid list \<Rightarrow> int \<Rightarrow> ('d, 'r, answer, answer) svc" where
  "SetGroupsStatus E uuidList status =
     bnd (for_each uuidList (\<lambda>uuid.
       bnd (or_throw (Updates E groups (\<lambda>g. gi_uuid g = uuid)
         (\<lambda>g. g\<lparr>gi_status := status, gi_updated_at := e_now E\<rparr>)) system_error) (\<lambda>_.
       if status = group_DISABLE then delete_sessions_of E uuid else ret ()))) (\<lambda>_.
     ret (Msg ''status set'', 0))"

definition group_changes :: "UpdateGroupInfoRequest \<Rightarrow> GroupInfo \<Rightarrow> GroupInfo" where
  "group_changes req g =
     (let g1 = (if ug_Name req \<noteq> [] then g\<lparr>gi_name := ug_Name req\<rparr> else g);
          g2 = (if ug_AddMode req \<noteq> -1 then g1\<lparr>gi_add_mode := ug_AddMode req\<rparr> else g1);
          g3 = (if ug_Notice req \<noteq> [] then g2\<lparr>gi_notice := ug_Notice req\<rparr> else g2)
      in if ug_Avatar req \<noteq> [] then g3\<lparr>gi_avatar := ug_Avatar req\<rparr> else g3)"

definition UpdateGroupInfo :: "('d, 'r) env \<Rightarrow> UpdateGroupInfoRequest \<Rightarrow> ('d, 'r, answer, answer) svc" where
  "UpdateGroupInfo E req =
     bnd (or_throw (First E groups (\<lambda>g. gi_uuid g = ug_Uuid req)) system_error) (\<lambda>g.
     bnd (guard (gi_owner_id g = ug_OwnerId req) (Msg ''not the owner'', -2)) (\<lambda>_.
     let group = group_changes req g in
     bnd (or_throw (Save E groups (group\<lparr>gi_updated_at := e_now E\<rparr>)) system_error) (\<lambda>_.
     bnd (or_throw (Find E sessions (\<lambda>s. se_receive_id s = ug_Uuid req)) system_error) (\<lambda>ss.
     bnd (for_each ss (\<lambda>s. or_throw
       (Save E sessions (s\<lparr>se_receive_name := gi_name group, se_avatar := gi_avatar group\<rparr>)) system_error)) (\<lambda>_.
     ret (Msg ''updated'', 0))))))"

definition remove_member :: "('d, 'r) env \<Rightarrow> uuid \<Rightarrow> uuid \<Rightarrow> ('d, 'r, go_error, unit) svc" where
  "remove_member E groupId uuid =
     (let deletedAt = Some (e_now E) in
      bnd (Updates E members (\<lambda>m. gm_group_id m = groupId \<and> gm_user_id m = uuid)
        (\<lambda>m. m\<lparr>gm_status := member_KICKED, gm_deleted_at := e_now E, gm_updated_at := e_now E\<rparr>)) (\<lambda>_.
      bnd (Updates E sessions (\<lambda>s. se_send_id s = uuid \<and> se_receive_id s = groupId)
        (\<lambda>s. s\<lparr>se_deleted_at := deletedAt\<rparr>)) (\<lambda>_.
      bnd (Updates E contacts (\<lambda>c. uc_user_id c = uuid \<and> uc_contact_id c = groupId)
        (\<lambda>c. c\<lparr>uc_deleted_at := deletedAt\<rparr>)) (\<lambda>_.
      Updates E applies (\<lambda>a. ca_user_id a = uuid \<and> ca_contact_id a = groupId)
        (\<lambda>a. a\<lparr>ca_deleted_at := deletedAt\<rparr>)))))"

definition RemoveGroupMembers ::
  "('d, 'r) env \<Rightarrow> RemoveGroupMembersRequest \<Rightarrow> ('d, 'r, answer, answer) svc" where
  "RemoveGroupMembers E req =
     bnd (or_throw (First E groups (\<lambda>g. gi_uuid g = rg_GroupId req)) system_error) (\<lambda>group.
     bnd (guard (gi_owner_id group = rg_OwnerId req) (Msg ''not the owner'', -2)) (\<lambda>_.
     bnd (guard (rg_OwnerId req \<notin> set (rg_UuidList req)) (Msg ''the owner stays'', -2)) (\<lambda>_.
     bnd (or_throw (transaction E (for_each (rg_UuidList req) (remove_member E (rg_GroupId req)))) system_error) (\<lambda>_.
     bnd (logged (DelPrefix E ''group_session_list'')) (\<lambda>_.
     bnd (logged (DelPrefix E ''my_joined_group_list'')) (\<lambda>_.
     bnd (logged (DelPattern E (''group_memberlist_'' @ rg_GroupId req))) (\<lambda>_.
     bnd (DelGroupMemberSet E (rg_GroupId req)) (\<lambda>_.
     ret (Msg ''removed'', 0)))))))))"

end
