(* ===== verification/Contact_Service.thy ===== *)
theory Contact_Service
  imports Group_Service
begin

text \<open>
  \<open>service/gorm/user_contact_service.go\<close> and \<open>service/chat/contact_black.go\<close>: contacts between
  users and with groups, applications, and blocking, with the cache that the delivery of
  messages asks whether a sender is blocked.
\<close>

section \<open>Blocking\<close>

definition contactBlackKey :: "uuid \<Rightarrow> uuid \<Rightarrow> string" where
  "contactBlackKey a b = ''contact_black_'' @ a @ ''_'' @ b"

definition contactBlackCacheTTL :: time where
  "contactBlackCacheTTL = 60 * second"

text \<open>No answer of the database counts as "not blocked", and is remembered.\<close>

definition IsBlocked :: "('d, 'r) env \<Rightarrow> uuid \<Rightarrow> uuid \<Rightarrow> ('d, 'r, 'e, bool) svc" where
  "IsBlocked E sendId receiveId =
     (let key = contactBlackKey sendId receiveId;
          remember = (\<lambda>v. logged (SetCache E key v contactBlackCacheTTL));
          lookup = attempt (First E contacts (\<lambda>c. uc_user_id c = sendId \<and> uc_contact_id c = receiveId)) (\<lambda>r.
            case r of
              Inl _ \<Rightarrow> bnd (remember ''0'') (\<lambda>_. ret False)
            | Inr c \<Rightarrow>
                let blocked = (uc_status c = contact_BLACK \<or> uc_status c = contact_BE_BLACK) in
                bnd (remember (if blocked then ''1'' else ''0'')) (\<lambda>_. ret blocked))
      in attempt (on_redis (GetKey (e_redis E) key (e_now E))) (\<lambda>r. case r of
           Inr cached \<Rightarrow> if cached \<noteq> [] then ret (cached = ''1'') else lookup
         | Inl _ \<Rightarrow> lookup))"

definition InvalidateContactBlack :: "('d, 'r) env \<Rightarrow> uuid \<Rightarrow> uuid \<Rightarrow> ('d, 'r, 'e, unit) svc" where
  "InvalidateContactBlack E a b =
     bnd (logged (DelIfExists E (contactBlackKey a b))) (\<lambda>_.
     logged (DelIfExists E (contactBlackKey b a)))"

definition BlackContact :: "('d, 'r) env \<Rightarrow> uuid \<Rightarrow> uuid \<Rightarrow> ('d, 'r, answer, answer) svc" where
  "BlackContact E ownerId contactId =
     bnd (or_throw (Updates E contacts (\<lambda>c. uc_user_id c = ownerId \<and> uc_contact_id c = contactId)
       (\<lambda>c. c\<lparr>uc_status := contact_BLACK, uc_update_at := e_now E\<rparr>)) system_error) (\<lambda>_.
     bnd (or_throw (Updates E contacts (\<lambda>c. uc_user_id c = contactId \<and> uc_contact_id c = ownerId)
       (\<lambda>c. c\<lparr>uc_status := contact_BE_BLACK, uc_update_at := e_now E\<rparr>)) system_error) (\<lambda>_.
     bnd (InvalidateContactBlack E ownerId contactId) (\<lambda>_.
     bnd (or_throw (Updates E sessions (\<lambda>s. se_send_id s = ownerId \<and> se_receive_id s = contactId)
       (\<lambda>s. s\<lparr>se_deleted_at := Some (e_now E)\<rparr>)) system_error) (\<lambda>_.
     ret (Msg ''blocked'', 0)))))"

definition CancelBlackContact :: "('d, 'r) env \<Rightarrow> uuid \<Rightarrow> uuid \<Rightarrow> ('d, 'r, answer, answer) svc" where
  "CancelBlackContact E ownerId contactId =
     bnd (or_throw (First E contacts (\<lambda>c. uc_user_id c = ownerId \<and> uc_contact_id c = contactId)) system_error) (\<lambda>black.
     bnd (guard (uc_status black = contact_BLACK) (Msg ''not blocked'', -2)) (\<lambda>_.
     bnd (or_throw (First E contacts (\<lambda>c. uc_user_id c = contactId \<and> uc_contact_id c = ownerId)) system_error) (\<lambda>beBlack.
     bnd (guard (uc_status beBlack = contact_BE_BLACK) (Msg ''was not blocked'', -2)) (\<lambda>_.
     bnd (or_throw (Save E contacts (black\<lparr>uc_status := contact_NORMAL\<rparr>)) system_error) (\<lambda>_.
     bnd (or_throw (Save E contacts (beBlack\<lparr>uc_status := contact_NORMAL\<rparr>)) system_error) (\<lambda>_.
     bnd (InvalidateContactBlack E ownerId contactId) (\<lambda>_.
     ret (Msg ''unblocked'', 0))))))))"

section \<open>Lists and details\<close>

definition my_user_respond :: "UserInfo \<Rightarrow> MyUserListRespond" where
  "my_user_respond u = \<lparr>mu_UserId = ui_uuid u, mu_UserName = ui_nickname u, mu_Avatar = ui_avatar u\<rparr>"

text \<open>A fault of the cache leaves the empty string, which decodes to an empty list.\<close>

definition GetUserList ::
  "('d, 'r) env \<Rightarrow> uuid \<Rightarrow> ('d, 'r, MyUserListRespond list data_answer, MyUserListRespond list data_answer) svc" where
  "GetUserList E ownerId =
     attempt (GetCache E (''contact_user_list_'' @ ownerId)) (\<lambda>r. case r of
       Inl RedisNil \<Rightarrow>
         bnd (attempt (Find E contacts (\<lambda>c. uc_user_id c = ownerId \<and> uc_status c \<noteq> contact_DELETE)) (\<lambda>r. case r of
             Inl e \<Rightarrow> throw (if e = NotFound then (Msg ''no contacts'', [], 0) else (SystemError, [], -1))
           | Inr cs \<Rightarrow> ret (sort_key (\<lambda>c. - uc_created_at c) cs))) (\<lambda>cs.
         bnd (map_each (filter (\<lambda>c. uc_contact_type c = type_USER) cs) (\<lambda>c.
           or_throw (First E users (\<lambda>u. ui_uuid u = uc_contact_id c)) (SystemError, [], -1))) (\<lambda>us.
         let rsp = map my_user_respond us in
         bnd (logged (SetCache E (''contact_user_list_'' @ ownerId) (marshal_list my_user_json rsp) redis_timeout)) (\<lambda>_.
         ret (Msg ''loaded'', rsp, 0))))
     | Inl _ \<Rightarrow> ret (Msg ''loaded'', unmarshal_list my_user_fields zero_my_user [], 0)
     | Inr s \<Rightarrow> ret (Msg ''loaded'', unmarshal_list my_user_fields zero_my_user s, 0))"

text \<open>\<open>contact.ContactId[0]\<close>, for a string that is not empty.\<close>

definition starts_with :: "char \<Rightarrow> string \<Rightarrow> bool" where
  "starts_with c s = (case s of [] \<Rightarrow> False | d # _ \<Rightarrow> d = c)"

definition LoadMyJoinedGroup ::
  "('d, 'r) env \<Rightarrow> uuid \<Rightarrow>
   ('d, 'r, LoadMyGroupRespond list data_answer, LoadMyGroupRespond list data_answer) svc" where
  "LoadMyJoinedGroup E ownerId =
     cached_list E (''my_joined_group_list_'' @ ownerId) my_group_json my_group_fields zero_my_group (Msg ''loaded'')
       (bnd (attempt (Find E contacts (\<lambda>c. uc_user_id c = ownerId \<and> uc_status c \<noteq> contact_QUIT_GROUP \<and>
            uc_status c \<noteq> contact_KICK_OUT_GROUP)) (\<lambda>r. case r of
             Inl e \<Rightarrow> throw (if e = NotFound then (Msg ''no groups'', [], 0) else (SystemError, [], -1))
           | Inr cs \<Rightarrow> ret (sort_key (\<lambda>c. - uc_created_at c) cs))) (\<lambda>cs.
        bnd (map_each cs (\<lambda>c.
          if uc_contact_id c = [] then throw (Panicked, [], 500)
          else if starts_with (CHR ''G'') (uc_contact_id c) then
            bnd (or_throw (First E groups (\<lambda>g. gi_uuid g = uc_contact_id c)) (SystemError, [], -1))
              (\<lambda>g. ret (if gi_owner_id g \<noteq> ownerId then [g] else []))
          else ret [])) (\<lambda>gs.
        ret (map my_group_respond (concat gs)))))"

record GetContactInfoRespond =
  ci_ContactId :: string
  ci_ContactName :: string
  ci_ContactAvatar :: string
  ci_ContactPhone :: string
  ci_ContactEmail :: string
  ci_ContactGender :: int
  ci_ContactSignature :: string
  ci_ContactBirthday :: string
  ci_ContactNotice :: string
  ci_ContactMemberCnt :: int
  ci_ContactOwnerId :: string
  ci_ContactAddMode :: int

definition zero_contact_info :: GetContactInfoRespond where
  "zero_contact_info = \<lparr>ci_ContactId = [], ci_ContactName = [], ci_ContactAvatar = [], ci_ContactPhone = [],
     ci_ContactEmail = [], ci_ContactGender = 0, ci_ContactSignature = [], ci_ContactBirthday = [],
     ci_ContactNotice = [], ci_ContactMemberCnt = 0, ci_ContactOwnerId = [], ci_ContactAddMode = 0\<rparr>"

definition GetContactInfo ::
  "('d, 'r) env \<Rightarrow> uuid \<Rightarrow> ('d, 'r, GetContactInfoRespond data_answer, GetContactInfoRespond data_answer) svc" where
  "GetContactInfo E contactId =
     (if contactId = [] then throw (Panicked, zero_contact_info, 500)
      else if starts_with (CHR ''G'') contactId then
        bnd (or_throw (First E groups (\<lambda>g. gi_uuid g = contactId)) (SystemError, zero_contact_info, -1)) (\<lambda>g.
        bnd (guard (gi_status g \<noteq> group_DISABLE) (Msg ''group disabled'', zero_contact_info, -2)) (\<lambda>_.
        bnd (or_throw (CountActiveMembers E (gi_uuid g)) (SystemError, zero_contact_info, -1)) (\<lambda>cnt.
        ret (Msg ''loaded'', zero_contact_info\<lparr>ci_ContactId := gi_uuid g, ci_ContactName := gi_name g,
          ci_ContactAvatar := gi_avatar g, ci_ContactNotice := gi_notice g, ci_ContactAddMode := gi_add_mode g,
          ci_ContactMemberCnt := int cnt, ci_ContactOwnerId := gi_owner_id g\<rparr>, 0))))
      else
        bnd (or_throw (First E users (\<lambda>u. ui_uuid u = contactId)) (SystemError, zero_contact_info, -1)) (\<lambda>u.
        bnd (guard (ui_status u \<noteq> user_DISABLE) (Msg ''user disabled'', zero_contact_info, -2)) (\<lambda>_.
        ret (Msg ''loaded'', zero_contact_info\<lparr>ci_ContactId := ui_uuid u, ci_ContactName := ui_nickname u,
          ci_ContactAvatar := ui_avatar u, ci_ContactBirthday := ui_birthday u, ci_ContactEmail := ui_email u,
          ci_ContactPhone := ui_telephone u, ci_ContactGender := ui_gender u,
          ci_ContactSignature := ui_signature u\<rparr>, 0))))"

section \<open>Applications\<close>

record ApplyContactRequest =
  ap_OwnerId :: uuid
  ap_ContactId :: uuid
  ap_Message :: string

definition new_apply :: "ApplyContactRequest \<Rightarrow> string \<Rightarrow> int \<Rightarrow> time \<Rightarrow> ContactApply" where
  "new_apply req rnd ctype now =
     \<lparr>ca_id = 0, ca_uuid = ''A'' @ rnd, ca_user_id = ap_OwnerId req, ca_contact_id = ap_ContactId req,
      ca_contact_type = ctype, ca_status = apply_PENDING, ca_message = ap_Message req,
      ca_last_apply_at = now, ca_deleted_at = None\<rparr>"

text \<open>The application of the pair, created when there is none.\<close>

definition find_or_new_apply ::
  "('d, 'r) env \<Rightarrow> ApplyContactRequest \<Rightarrow> string \<Rightarrow> int \<Rightarrow> ('d, 'r, answer, ContactApply) svc" where
  "find_or_new_apply E req rnd ctype =
     attempt (First E applies (\<lambda>a. ca_user_id a = ap_OwnerId req \<and> ca_contact_id a = ap_ContactId req)) (\<lambda>r.
       case r of
         Inr a \<Rightarrow> ret a
       | Inl e \<Rightarrow>
           if e = NotFound then or_throw (Create E applies (new_apply req rnd ctype (e_now E))) system_error
           else throw system_error)"

definition not_found_or :: "('d, 'r, go_error, 'a) svc \<Rightarrow> answer \<Rightarrow> ('d, 'r, answer, 'a) svc" where
  "not_found_or m missing = attempt m (\<lambda>r. case r of
     Inr a \<Rightarrow> ret a | Inl e \<Rightarrow> throw (if e = NotFound then missing else system_error))"

definition ApplyContact ::
  "('d, 'r) env \<Rightarrow> ApplyContactRequest \<Rightarrow> string \<Rightarrow> ('d, 'r, answer, answer) svc" where
  "ApplyContact E req rnd =
     (if ap_ContactId req = [] then throw (Panicked, 500)
      else if starts_with (CHR ''U'') (ap_ContactId req) then
        bnd (not_found_or (First E users (\<lambda>u. ui_uuid u = ap_ContactId req)) (Msg ''no such user'', -2)) (\<lambda>user.
        bnd (guard (ui_status user \<noteq> user_DISABLE) (Msg ''user disabled'', -2)) (\<lambda>_.
        bnd (find_or_new_apply E req rnd type_USER) (\<lambda>a.
        bnd (guard (ca_status a \<noteq> apply_BLACK) (Msg ''blocked by the other side'', -2)) (\<lambda>_.
        bnd (or_throw (Save E applies (a\<lparr>ca_last_apply_at := e_now E, ca_status := apply_PENDING\<rparr>)) system_error) (\<lambda>_.
        ret (Msg ''applied'', 0))))))
      else if starts_with (CHR ''G'') (ap_ContactId req) then
        bnd (not_found_or (First E groups (\<lambda>g. gi_uuid g = ap_ContactId req)) (Msg ''no such group'', -2)) (\<lambda>group.
        bnd (guard (gi_status group \<noteq> group_DISABLE) (Msg ''group disabled'', -2)) (\<lambda>_.
        bnd (find_or_new_apply E req rnd type_GROUP) (\<lambda>a.
        bnd (or_throw (Save E applies (a\<lparr>ca_last_apply_at := e_now E\<rparr>)) system_error) (\<lambda>_.
        ret (Msg ''applied'', 0)))))
      else throw (Msg ''no such user or group'', -2))"

record NewContactListRespond =
  nc_ContactId :: string
  nc_ContactName :: string
  nc_ContactAvatar :: string
  nc_Message :: string

definition new_contact_respond :: "ContactApply \<Rightarrow> UserInfo \<Rightarrow> NewContactListRespond" where
  "new_contact_respond a u =
     \<lparr>nc_ContactId = ui_uuid u, nc_ContactName = ui_nickname u, nc_ContactAvatar = ui_avatar u,
      nc_Message = ''reason: '' @ (if ca_message a = [] then ''none'' else ca_message a)\<rparr>"

definition pending_applies ::
  "('d, 'r) env \<Rightarrow> uuid \<Rightarrow>
   ('d, 'r, NewContactListRespond list data_answer, NewContactListRespond list data_answer) svc" where
  "pending_applies E target =
     bnd (attempt (Find E applies (\<lambda>a. ca_contact_id a = target \<and> ca_status a = apply_PENDING)) (\<lambda>r. case r of
         Inr as \<Rightarrow> ret as
       | Inl e \<Rightarrow> throw (if e = NotFound then (Msg ''nobody applied'', [], 0) else (SystemError, [], -1)))) (\<lambda>as.
     bnd (map_each as (\<lambda>a.
       bnd (or_throw (First E users (\<lambda>u. ui_uuid u = ca_user_id a)) (SystemError, [], -1)) (\<lambda>u.
       ret (new_contact_respond a u)))) (\<lambda>rsp.
     ret (Msg ''loaded'', rsp, 0)))"

definition GetNewContactList ::
  "('d, 'r) env \<Rightarrow> uuid \<Rightarrow>
   ('d, 'r, NewContactListRespond list data_answer, NewContactListRespond list data_answer) svc" where
  "GetNewContactList E ownerId = pending_applies E ownerId"

definition GetAddGroupList ::
  "('d, 'r) env \<Rightarrow> uuid \<Rightarrow> uuid \<Rightarrow>
   ('d, 'r, NewContactListRespond list data_answer, NewContactListRespond list data_answer) svc" where
  "GetAddGroupList E ownerId groupId =
     bnd (or_throw (First E groups (\<lambda>g. gi_uuid g = groupId)) (SystemError, [], -1)) (\<lambda>group.
     bnd (guard (gi_owner_id group = ownerId) (Msg ''not the owner'', [], -2)) (\<lambda>_.
     pending_applies E groupId))"

definition restoreOrCreateContact ::
  "('d, 'r) env \<Rightarrow> uuid \<Rightarrow> uuid \<Rightarrow> int \<Rightarrow> ('d, 'r, go_error, unit) svc" where
  "restoreOrCreateContact E userId contactId ctype =
     bnd (Count E contacts (\<lambda>c. uc_user_id c = userId \<and> uc_contact_id c = contactId)) (\<lambda>active.
     if 0 < active then
       Updates E contacts (\<lambda>c. uc_user_id c = userId \<and> uc_contact_id c = contactId)
         (\<lambda>c. c\<lparr>uc_status := contact_NORMAL, uc_update_at := e_now E\<rparr>)
     else
       attempt (LastUnscoped E contacts
         (\<lambda>c. uc_user_id c = userId \<and> uc_contact_id c = contactId \<and> uc_deleted_at c \<noteq> None)) (\<lambda>r. case r of
           Inr history \<Rightarrow>
             UpdatesUnscoped E contacts (\<lambda>c. uc_id c = uc_id history)
               (\<lambda>c. c\<lparr>uc_deleted_at := None, uc_status := contact_NORMAL, uc_update_at := e_now E\<rparr>)
         | Inl _ \<Rightarrow> bnd (Create E contacts (new_contact userId contactId ctype (e_now E))) (\<lambda>_. ret ())))"

definition zero_user :: UserInfo where
  "zero_user = \<lparr>ui_id = 0, ui_uuid = [], ui_nickname = [], ui_telephone = [], ui_email = [], ui_avatar = [],
     ui_gender = 0, ui_signature = [], ui_password = [], ui_birthday = [], ui_created_at = 0, ui_deleted_at = 0,
     ui_last_online_at = None, ui_last_offline_at = None, ui_is_admin = 0, ui_status = 0\<rparr>"

text \<open>A failed read of the user is logged and leaves the zero value, which is not disabled.\<close>

definition PassContactApply :: "('d, 'r) env \<Rightarrow> uuid \<Rightarrow> uuid \<Rightarrow> ('d, 'r, answer, answer) svc" where
  "PassContactApply E ownerId contactId =
     bnd (or_throw (First E applies (\<lambda>a. ca_contact_id a = ownerId \<and> ca_user_id a = contactId)) system_error) (\<lambda>a.
     if ca_contact_type a = type_USER then
       bnd (attempt (FindOne E users (\<lambda>u. ui_uuid u = contactId) zero_user)
         (\<lambda>r. ret (case r of Inr u \<Rightarrow> u | Inl _ \<Rightarrow> zero_user))) (\<lambda>user.
       bnd (guard (ui_status user \<noteq> user_DISABLE) (Msg ''user disabled'', -2)) (\<lambda>_.
       bnd (or_throw (transaction E (
         bnd (UpdatesRow E applies a (\<lambda>a. a\<lparr>ca_status := apply_AGREE\<rparr>)) (\<lambda>_.
         for_each [(ownerId, contactId), (contactId, ownerId)] (\<lambda>(u, c).
           restoreOrCreateContact E u c type_USER)))) system_error) (\<lambda>_.
       bnd (logged (DelPattern E (''contact_user_list_'' @ ownerId))) (\<lambda>_.
       bnd (logged (DelPattern E (''contact_user_list_'' @ contactId))) (\<lambda>_.
       ret (Msg ''contact added'', 0))))))
     else
       bnd (attempt (transaction E (
         bnd (UpdatesRow E applies a (\<lambda>a. a\<lparr>ca_status := apply_AGREE\<rparr>)) (\<lambda>_.
         bnd (addMember E ownerId contactId role_MEMBER) (\<lambda>_.
         restoreOrCreateContact E contactId ownerId type_GROUP))))
         (\<lambda>r. case r of
            Inr _ \<Rightarrow> ret ()
          | Inl e \<Rightarrow> throw (if e = ErrMemberKicked then (Msg ''removed by the owner'', -2) else system_error))) (\<lambda>_.
       bnd (logged (DelPattern E (''my_joined_group_list_'' @ contactId))) (\<lambda>_.
       bnd (logged (DelPattern E (''group_memberlist_'' @ ownerId))) (\<lambda>_.
       bnd (DelGroupMemberSet E ownerId) (\<lambda>_.
       ret (Msg ''member added'', 0))))))"

definition set_apply_status :: "('d, 'r) env \<Rightarrow> uuid \<Rightarrow> uuid \<Rightarrow> int \<Rightarrow> ('d, 'r, answer, unit) svc" where
  "set_apply_status E ownerId contactId status =
     bnd (or_throw (First E applies (\<lambda>a. ca_contact_id a = ownerId \<and> ca_user_id a = contactId)) system_error) (\<lambda>a.
     or_throw (Save E applies (a\<lparr>ca_status := status\<rparr>)) system_error)"

definition RefuseContactApply :: "('d, 'r) env \<Rightarrow> uuid \<Rightarrow> uuid \<Rightarrow> ('d, 'r, answer, answer) svc" where
  "RefuseContactApply E ownerId contactId =
     bnd (set_apply_status E ownerId contactId apply_REFUSE) (\<lambda>_.
     if ownerId = [] then throw (Panicked, 500)
     else if starts_with (CHR ''U'') ownerId then ret (Msg ''contact refused'', 0)
     else ret (Msg ''member refused'', 0))"

definition BlackApply :: "('d, 'r) env \<Rightarrow> uuid \<Rightarrow> uuid \<Rightarrow> ('d, 'r, answer, answer) svc" where
  "BlackApply E ownerId contactId =
     bnd (set_apply_status E ownerId contactId apply_BLACK) (\<lambda>_. ret (Msg ''application blocked'', 0))"

section \<open>Deleting a contact\<close>

definition DeleteContact :: "('d, 'r) env \<Rightarrow> uuid \<Rightarrow> uuid \<Rightarrow> ('d, 'r, answer, answer) svc" where
  "DeleteContact E ownerId contactId =
     (let deletedAt = Some (e_now E);
          pair = (\<lambda>u v c. uc_user_id c = u \<and> uc_contact_id c = v) in
      bnd (or_throw (Updates E contacts (pair ownerId contactId)
        (\<lambda>c. c\<lparr>uc_deleted_at := deletedAt, uc_status := contact_DELETE\<rparr>)) system_error) (\<lambda>_.
      bnd (or_throw (Updates E contacts (pair contactId ownerId)
        (\<lambda>c. c\<lparr>uc_deleted_at := deletedAt, uc_status := contact_BE_DELETE\<rparr>)) system_error) (\<lambda>_.
      bnd (or_throw (Updates E sessions (\<lambda>s. se_send_id s = ownerId \<and> se_receive_id s = contactId)
        (\<lambda>s. s\<lparr>se_deleted_at := deletedAt\<rparr>)) system_error) (\<lambda>_.
      bnd (or_throw (Updates E sessions (\<lambda>s. se_send_id s = contactId \<and> se_receive_id s = ownerId)
        (\<lambda>s. s\<lparr>se_deleted_at := deletedAt\<rparr>)) system_error) (\<lambda>_.
      bnd (or_throw (Updates E applies (\<lambda>a. ca_contact_id a = ownerId \<and> ca_user_id a = contactId)
        (\<lambda>a. a\<lparr>ca_deleted_at := deletedAt\<rparr>)) system_error) (\<lambda>_.
      bnd (or_throw (Updates E applies (\<lambda>a. ca_contact_id a = contactId \<and> ca_user_id a = ownerId)
        (\<lambda>a. a\<lparr>ca_deleted_at := deletedAt\<rparr>)) system_error) (\<lambda>_.
      bnd (logged (DelPattern E (''contact_user_list_'' @ ownerId))) (\<lambda>_.
      bnd (InvalidateContactBlack E ownerId contactId) (\<lambda>_.
      ret (Msg ''contact deleted'', 0))))))))))"

end
