(* ===== verification/Redis_Memory.thy ===== *)
theory Redis_Memory
  imports Redis_Store
begin

text \<open>
  An in-memory store that keeps the contracts of \<open>Redis_Store\<close>: keys with a string or a set and
  an optional time of expiry, streams with one consumer group, and a schedule of faults, one
  per command (\<open>True\<close>: the command fails before it has an effect). It instantiates the client
  in the witnesses.
\<close>

datatype rvalue = RStr string | RSet "string list"

record stream_state =
  ss_entries :: "XMessage list"
  ss_delivered :: nat
  ss_pending :: "string list"

record mem_redis =
  mr_data :: "(string \<times> rvalue \<times> time option) list"
  mr_streams :: "(string \<times> stream_state) list"
  mr_faults :: "bool list"

definition mem_empty :: mem_redis where
  "mem_empty = \<lparr>mr_data = [], mr_streams = [], mr_faults = []\<rparr>"

definition live :: "time \<Rightarrow> time option \<Rightarrow> bool" where
  "live t e = (case e of None \<Rightarrow> True | Some x \<Rightarrow> t < x)"

definition mem_get :: "mem_redis \<Rightarrow> time \<Rightarrow> string \<Rightarrow> rvalue option" where
  "mem_get s t k =
     (case map_of (mr_data s) k of
        Some (v, e) \<Rightarrow> if live t e then Some v else None | None \<Rightarrow> None)"

definition mem_str :: "mem_redis \<Rightarrow> time \<Rightarrow> string \<Rightarrow> string option" where
  "mem_str s t k = (case mem_get s t k of Some (RStr v) \<Rightarrow> Some v | _ \<Rightarrow> None)"

definition mem_set :: "mem_redis \<Rightarrow> time \<Rightarrow> string \<Rightarrow> string set" where
  "mem_set s t k = (case mem_get s t k of Some (RSet v) \<Rightarrow> set v | _ \<Rightarrow> {})"

text \<open>A command runs unless the schedule says it fails.\<close>

definition faulty :: "(mem_redis \<Rightarrow> 'a reply \<times> mem_redis) \<Rightarrow> mem_redis \<Rightarrow> 'a reply \<times> mem_redis" where
  "faulty f s =
     (case mr_faults s of
        [] \<Rightarrow> f s
      | x # xs \<Rightarrow> if x then (RErr, s\<lparr>mr_faults := xs\<rparr>) else f (s\<lparr>mr_faults := xs\<rparr>))"

definition put :: "string \<Rightarrow> rvalue \<Rightarrow> time option \<Rightarrow> mem_redis \<Rightarrow> mem_redis" where
  "put k v e s = s\<lparr>mr_data := AList.update k (v, e) (mr_data s)\<rparr>"

definition mem_del :: "string list \<Rightarrow> mem_redis \<Rightarrow> mem_redis" where
  "mem_del ks s = s\<lparr>mr_data := filter (\<lambda>(k, _). k \<notin> set ks) (mr_data s)\<rparr>"

definition m_get :: "string \<Rightarrow> time \<Rightarrow> mem_redis \<Rightarrow> string option reply" where
  "m_get k now s =
     (case mem_get s now k of None \<Rightarrow> ROk None | Some (RStr v) \<Rightarrow> ROk (Some v) | Some (RSet _) \<Rightarrow> RErr)"

definition glob_match :: "string \<Rightarrow> string \<Rightarrow> bool" where
  "glob_match pat k =
     (if pat \<noteq> [] \<and> last pat = CHR ''*'' then has_prefix k (butlast pat)
      else if pat \<noteq> [] \<and> hd pat = CHR ''*'' then has_suffix k (tl pat) else k = pat)"

text \<open>Reads fail without a change of the state; their schedule is the writes' own.\<close>

definition faulty_if :: "bool \<Rightarrow> (mem_redis \<Rightarrow> 'a reply \<times> mem_redis) \<Rightarrow> mem_redis \<Rightarrow> 'a reply \<times> mem_redis" where
  "faulty_if rf f = (if rf then faulty f else f)"

definition mem_client_of :: "bool \<Rightarrow> mem_redis redis_client" where
  "mem_client_of rf =
     \<lparr>rc_set = (\<lambda>k v ttl now. faulty_if rf (\<lambda>s. (ROk (), put k (RStr v) (if ttl = 0 then None else Some (now + ttl)) s))),
      rc_setnx = (\<lambda>k v ttl now. faulty_if rf (\<lambda>s.
        if mem_get s now k = None then (ROk True, put k (RStr v) (if ttl = 0 then None else Some (now + ttl)) s)
        else (ROk False, s))),
      rc_get = (\<lambda>k now s. (m_get k now s, s)),
      rc_mget = (\<lambda>ks now s. (ROk (map (mem_str s now) ks), s)),
      rc_incr = (\<lambda>k now. faulty_if rf (\<lambda>s.
        (case mem_get s now k of
           None \<Rightarrow> (ROk 1, put k (RStr ''1'') None s)
         | Some (RStr v) \<Rightarrow>
             (case parse_int 64 v of None \<Rightarrow> (RErr, s)
              | Some i \<Rightarrow> if i = 2 ^ 63 - 1 then (RErr, s) else (ROk (i + 1), put k (RStr (itoa (i + 1))) (snd (the (map_of (mr_data s) k))) s))
         | Some (RSet _) \<Rightarrow> (RErr, s)))),
      rc_exists = (\<lambda>k now s. (ROk (if mem_get s now k = None then 0 else 1), s)),
      rc_del = (\<lambda>ks now. faulty_if rf (\<lambda>s.
        (ROk (int (length (filter (\<lambda>k. mem_get s now k \<noteq> None) ks))),
         mem_del ks s))),
      rc_expire = (\<lambda>k ttl now. faulty_if rf (\<lambda>s.
        (case mem_get s now k of None \<Rightarrow> (ROk False, s)
         | Some v \<Rightarrow> (ROk True, put k v (Some (now + ttl)) s)))),
      rc_sadd = (\<lambda>k ms now. faulty_if rf (\<lambda>s.
        (case mem_get s now k of
           None \<Rightarrow> (ROk (int (length (remdups ms))), put k (RSet (remdups ms)) None s)
         | Some (RSet v) \<Rightarrow> (ROk (int (length ms)), put k (RSet (remdups (v @ ms))) None s)
         | Some (RStr _) \<Rightarrow> (RErr, s)))),
      rc_srem = (\<lambda>k ms now. faulty_if rf (\<lambda>s.
        (case mem_get s now k of
           Some (RSet v) \<Rightarrow>
             (ROk (int (length ms)), put k (RSet (filter (\<lambda>x. x \<notin> set ms) v)) (snd (the (map_of (mr_data s) k))) s)
         | _ \<Rightarrow> (ROk 0, s)))),
      rc_smembers = (\<lambda>k now s.
        (case mem_get s now k of None \<Rightarrow> (ROk [], s) | Some (RSet v) \<Rightarrow> (ROk v, s) | Some (RStr _) \<Rightarrow> (RErr, s))),
      rc_scan = (\<lambda>cursor pat cnt now s.
        (ROk (filter (\<lambda>k. glob_match pat k \<and> mem_get s now k \<noteq> None) (map fst (mr_data s)), 0), s)),
      rc_xgroup = (\<lambda>stream grp start now. faulty_if rf (\<lambda>s.
        if map_of (mr_streams s) stream = None then
          (ROk (), s\<lparr>mr_streams := AList.update stream \<lparr>ss_entries = [], ss_delivered = 0, ss_pending = []\<rparr> (mr_streams s)\<rparr>)
        else (RErr, s))),
      rc_xadd = (\<lambda>stream vals maxlen now. faulty_if rf (\<lambda>s.
        (let st = (case map_of (mr_streams s) stream of Some st \<Rightarrow> st
                   | None \<Rightarrow> \<lparr>ss_entries = [], ss_delivered = 0, ss_pending = []\<rparr>);
             xid = itoa (int (length (ss_entries st)) + 1)
         in (ROk xid, s\<lparr>mr_streams := AList.update stream
               (st\<lparr>ss_entries := ss_entries st @ [\<lparr>xm_id = xid, xm_values = vals\<rparr>]\<rparr>) (mr_streams s)\<rparr>)))),
      rc_xread = (\<lambda>stream grp consumer sid cnt block now. faulty_if rf (\<lambda>s.
        (case map_of (mr_streams s) stream of None \<Rightarrow> (RErr, s)
         | Some st \<Rightarrow>
             if sid = ''>'' then
               (let ms = take (nat cnt) (drop (ss_delivered st) (ss_entries st))
                in if ms = [] then (ROk None, s)
                   else (ROk (Some ms), s\<lparr>mr_streams := AList.update stream
                     (st\<lparr>ss_delivered := ss_delivered st + length ms,
                         ss_pending := ss_pending st @ map xm_id ms\<rparr>) (mr_streams s)\<rparr>))
             else (ROk (Some (take (nat cnt) (filter (\<lambda>m. xm_id m \<in> set (ss_pending st)) (ss_entries st)))), s)))),
      rc_xack = (\<lambda>stream grp ids now. faulty_if rf (\<lambda>s.
        (case map_of (mr_streams s) stream of None \<Rightarrow> (ROk 0, s)
         | Some st \<Rightarrow> (ROk (int (length ids)), s\<lparr>mr_streams := AList.update stream
             (st\<lparr>ss_pending := filter (\<lambda>i. i \<notin> set ids) (ss_pending st)\<rparr>) (mr_streams s)\<rparr>))))\<rparr>"

abbreviation "mem_client \<equiv> mem_client_of True"

section \<open>The contracts\<close>

lemma faulty_cases:
  assumes "faulty f s = (rep, s')"
  obtains (fault) xs where "rep = RErr" "s' = s\<lparr>mr_faults := xs\<rparr>"
  | (run) xs where "f (s\<lparr>mr_faults := xs\<rparr>) = (rep, s')"
  using assms
proof (cases "mr_faults s")
  case Nil
  then have "s\<lparr>mr_faults := []\<rparr> = s" by (cases s) simp
  with assms Nil that(2) [of "[]"] show thesis by (simp add: faulty_def)
next
  case (Cons x xs)
  with assms that show thesis by (auto simp: faulty_def split: if_splits)
qed

lemma faulty_if_cases:
  assumes "faulty_if rf f s = (rep, s')"
  obtains (fault) xs where "rep = RErr" "s' = s\<lparr>mr_faults := xs\<rparr>"
  | (run) xs where "f (s\<lparr>mr_faults := xs\<rparr>) = (rep, s')"
proof (cases rf)
  case True
  with assms show thesis by (auto simp: faulty_if_def elim!: faulty_cases intro: that)
next
  case False
  with assms that(2) [of "mr_faults s"] show thesis by (simp add: faulty_if_def)
qed

lemma views_faults [simp]:
  "mem_get (s\<lparr>mr_faults := xs\<rparr>) = mem_get s"
  "mem_str (s\<lparr>mr_faults := xs\<rparr>) = mem_str s" "mem_set (s\<lparr>mr_faults := xs\<rparr>) = mem_set s"
  by (simp_all add: fun_eq_iff mem_get_def mem_str_def mem_set_def)

lemma mem_get_put:
  "mem_get (put k v e s) t k' = (if k' = k then (if live t e then Some v else None) else mem_get s t k')"
  by (simp add: mem_get_def put_def update_conv')

lemma mem_get_del:
  "mem_get (mem_del ks s) t k = (if k \<in> set ks then None else mem_get s t k)"
proof -
  have "map_of (filter (\<lambda>(k, _). k \<notin> set ks) m) k = (if k \<in> set ks then None else map_of m k)"
    for m :: "(string \<times> rvalue \<times> time option) list"
    by (induction m) auto
  then show ?thesis by (simp add: mem_get_def mem_del_def)
qed

lemma mem_get_mono: "mem_get s t k = None \<Longrightarrow> t \<le> t' \<Longrightarrow> mem_get s t' k = None"
  by (auto simp: mem_get_def live_def split: option.splits if_splits)

lemma mem_get_later: "mem_get s t' k = Some v \<Longrightarrow> t \<le> t' \<Longrightarrow> mem_get s t k = Some v"
  by (auto simp: mem_get_def live_def split: option.splits if_splits)

lemma live_Some [simp]: "live t (Some x) = (t < x)" and live_None [simp]: "live t None"
  by (simp_all add: live_def)

interpretation mem_strings: redis_strings "mem_client_of rf" mem_str
proof
  fix k v ttl now s u s' t k'
  assume "rc_set (mem_client_of rf) k v ttl now s = (ROk u, s')" "0 < ttl" "now \<le> (t :: time)"
  then show "mem_str s' t k' = (if k' = k then if t < now + ttl then Some v else None else mem_str s t k')"
    by (auto simp: mem_client_of_def mem_str_def mem_get_put elim!: faulty_if_cases)
next
  fix k v ttl now s s' k' t
  assume "rc_set (mem_client_of rf) k v ttl now s = (RErr, s')" "k' \<noteq> k" "now \<le> (t :: time)"
  then show "mem_str s' t k' = mem_str s t k'"
    by (auto simp: mem_client_of_def elim!: faulty_if_cases)
next
  fix k v ttl now s s' t
  assume "rc_set (mem_client_of rf) k v ttl now s = (RErr, s')" "0 < ttl" "now \<le> (t :: time)"
  then show "mem_str s' t k = mem_str s t k \<or> mem_str s' t k = (if t < now + ttl then Some v else None)"
    by (auto simp: mem_client_of_def elim!: faulty_if_cases)
next
  fix ks now s n s' t k
  assume "rc_del (mem_client_of rf) ks now s = (ROk n, s')" "now \<le> (t :: time)"
  then show "mem_str s' t k = (if k \<in> set ks then None else mem_str s t k)"
    by (auto simp: mem_client_of_def mem_str_def mem_get_del elim!: faulty_if_cases)
next
  fix ks now s s' k t
  assume "rc_del (mem_client_of rf) ks now s = (RErr, s')" "k \<notin> set ks" "now \<le> (t :: time)"
  then show "mem_str s' t k = mem_str s t k"
    by (auto simp: mem_client_of_def elim!: faulty_if_cases)
next
  fix s t k t'
  assume "mem_str s t k = None" "t \<le> (t' :: time)"
  then show "mem_str s t' k = None"
    using mem_get_later [of s t' k _ t] by (auto simp: mem_str_def split: option.splits rvalue.splits)
qed (auto simp: mem_client_of_def m_get_def mem_str_def split: option.splits rvalue.splits if_splits)

interpretation mem_sets: redis_sets "mem_client_of rf" mem_set
proof
  fix k ms now s n s' t
  assume "rc_sadd (mem_client_of rf) k ms now s = (ROk n, s')" "mem_set s now k = {}" "now \<le> (t :: time)"
  then show "mem_set s' t k = set ms"
    by (auto simp: mem_client_of_def mem_set_def mem_get_put elim!: faulty_if_cases
        split: option.splits rvalue.splits)
next
  fix k ms now s rep s' k' t
  assume "rc_sadd (mem_client_of rf) k ms now s = (rep, s')" "k' \<noteq> k" "now \<le> (t :: time)"
  then show "mem_set s' t k' = mem_set s t k'"
    by (auto simp: mem_client_of_def mem_set_def mem_get_put elim!: faulty_if_cases
        split: option.splits rvalue.splits)
next
  fix k ttl now s b s' t
  assume "rc_expire (mem_client_of rf) k ttl now s = (ROk b, s')" "0 < ttl" "now \<le> (t :: time)"
  then show "mem_set s' t k = (if t < now + ttl then mem_set s now k else {})"
    by (auto simp: mem_client_of_def mem_set_def mem_get_put elim!: faulty_if_cases
        split: option.splits rvalue.splits if_splits)
       (use mem_get_mono [of s now k t] in auto)
next
  fix k ttl now s rep s' k' t
  assume "rc_expire (mem_client_of rf) k ttl now s = (rep, s')" "k' \<noteq> k" "now \<le> (t :: time)"
  then show "mem_set s' t k' = mem_set s t k'"
    by (auto simp: mem_client_of_def mem_set_def mem_get_put elim!: faulty_if_cases
        split: option.splits rvalue.splits)
next
  fix k ttl now s s' t
  assume "rc_expire (mem_client_of rf) k ttl now s = (RErr, s')" "now \<le> (t :: time)"
  then have "mem_set s' t k = mem_set s t k"
    by (auto simp: mem_client_of_def mem_set_def elim!: faulty_if_cases split: option.splits)
  then show "mem_set s' t k \<subseteq> mem_set s now k"
    using mem_get_later [of s t k _ now] \<open>now \<le> t\<close>
    by (auto simp: mem_set_def split: option.splits rvalue.splits)
next
  fix ks now s n s' t k
  assume "rc_del (mem_client_of rf) ks now s = (ROk n, s')" "now \<le> (t :: time)"
  then show "mem_set s' t k = (if k \<in> set ks then {} else mem_set s t k)"
    by (auto simp: mem_client_of_def mem_set_def mem_get_del elim!: faulty_if_cases)
next
  fix s t t' k
  assume "t \<le> (t' :: time)"
  then show "mem_set s t' k \<subseteq> mem_set s t k"
    using mem_get_later [of s t' k _ t] by (auto simp: mem_set_def split: option.splits rvalue.splits)
qed (auto simp: mem_client_of_def mem_set_def split: option.splits rvalue.splits if_splits)

text \<open>The store answers a SCAN with one page.\<close>

interpretation mem_scan: redis_scan "mem_client_of rf" "\<lambda>_. 0"
  by unfold_locales (simp add: mem_client_of_def)

definition mem_cnt :: "mem_redis \<Rightarrow> time \<Rightarrow> string \<Rightarrow> (int \<times> time option) option" where
  "mem_cnt s t k =
     (case mem_get s t k of
        None \<Rightarrow> Some (0, None)
      | Some (RSet _) \<Rightarrow> None
      | Some (RStr v) \<Rightarrow> map_option (\<lambda>i. (i, snd (the (map_of (mr_data s) k)))) (parse_int 64 v))"

lemma parse_int64_bounds: "parse_int 64 v = Some i \<Longrightarrow> - (2 ^ 63) \<le> i \<and> i < 2 ^ 63"
  by (auto simp: parse_int_def Let_def split: if_splits prod.splits)

lemma parse_int_one: "parse_int 64 ''1'' = Some 1"
  by (simp add: parse_int_def is_digit_def digits_val_def digit_val_def)

lemma map_of_put [simp]: "map_of (mr_data (put k v e s)) k = Some (v, e)"
  by (simp add: put_def update_conv')

interpretation mem_counters: redis_counters "mem_client_of rf" mem_cnt
proof
  fix k now s n s' i e
  assume inc: "rc_incr (mem_client_of rf) k now s = (ROk n, s')" and c: "mem_cnt s now k = Some (i, e)"
  show "n = i + 1 \<and> mem_cnt s' now k = Some (n, e)"
  proof (cases "mem_get s now k")
    case None
    with inc c show ?thesis
      by (auto simp: mem_client_of_def mem_cnt_def mem_get_put parse_int_one elim!: faulty_if_cases)
  next
    case (Some v)
    then obtain t where v: "v = RStr t" "parse_int 64 t = Some i" "e = snd (the (map_of (mr_data s) k))"
      using c by (auto simp: mem_cnt_def split: rvalue.splits)
    have live: "live now e" using Some v(3) by (auto simp: mem_get_def split: option.splits if_splits)
    have "i \<noteq> 2 ^ 63 - 1 \<Longrightarrow> parse_int 64 (itoa (i + 1)) = Some (i + 1)"
      using parse_int64_bounds [OF v(2)] by (intro parse_int_itoa) auto
    with inc Some v live show ?thesis
      by (auto simp: mem_client_of_def mem_cnt_def mem_get_put split: if_splits elim!: faulty_if_cases)
  qed
next
  fix k ttl now s b s' i e
  assume "rc_expire (mem_client_of rf) k ttl now s = (ROk b, s')" "mem_cnt s now k = Some (i, e)" "i \<noteq> 0" "0 < (ttl :: time)"
  then show "mem_cnt s' now k = Some (i, Some (now + ttl))"
    by (auto simp: mem_client_of_def mem_cnt_def mem_get_put
        split: option.splits rvalue.splits if_splits elim!: faulty_if_cases)
next
  fix k ttl now s s'
  assume "rc_expire (mem_client_of rf) k ttl now s = (RErr, s')"
  then show "mem_cnt s' now k = mem_cnt s now k"
    by (auto simp: mem_client_of_def mem_cnt_def split: option.splits rvalue.splits elim!: faulty_if_cases)
next
  fix s t k i e t'
  assume c: "mem_cnt s t k = Some (i, e)" "t \<le> t'" "case e of None \<Rightarrow> True | Some x \<Rightarrow> t' < x"
  show "mem_cnt s t' k = Some (i, e)"
  proof (cases "mem_get s t k")
    case None
    with c mem_get_mono [OF None c(2)] show ?thesis by (simp add: mem_cnt_def)
  next
    case (Some v)
    then have "mem_get s t' k = Some v"
      using c by (auto simp: mem_cnt_def mem_get_def live_def split: option.splits rvalue.splits if_splits)
    with Some c show ?thesis by (auto simp: mem_cnt_def split: rvalue.splits)
  qed
qed

end
