(* ===== verification/Database_Memory.thy ===== *)
theory Database_Memory
  imports Service_Base Redis_Memory
begin

text \<open>
  A database in memory that keeps the contract \<open>database\<close>: the list of rows, the next primary
  key, and a schedule of faults, one per statement. With \<open>Redis_Memory\<close> it makes the
  \<open>backend\<close> the witnesses run on.
\<close>

record mem_db =
  md_rows :: "row list"
  md_next :: int
  md_faults :: "bool list"

definition db_faulty :: "(mem_db \<Rightarrow> (go_error + 'a) \<times> mem_db) \<Rightarrow> mem_db \<Rightarrow> (go_error + 'a) \<times> mem_db" where
  "db_faulty f d =
     (case md_faults d of
        [] \<Rightarrow> f d
      | x # xs \<Rightarrow> if x then (Inl DbFault, d\<lparr>md_faults := xs\<rparr>) else f (d\<lparr>md_faults := xs\<rparr>))"

definition mem_update :: "(row \<Rightarrow> bool) \<Rightarrow> (row \<Rightarrow> row) \<Rightarrow> mem_db \<Rightarrow> (go_error + nat) \<times> mem_db" where
  "mem_update P f d =
     (let rs = map (\<lambda>r. if P r then f r else r) (md_rows d)
      in if unique_rows rs \<or> \<not> unique_rows (md_rows d)
         then (Inr (length (filter (\<lambda>r. P r \<and> f r \<noteq> r) (md_rows d))), d\<lparr>md_rows := rs\<rparr>)
         else (Inl Duplicate, d))"

definition mem_insert :: "row \<Rightarrow> mem_db \<Rightarrow> (go_error + row) \<times> mem_db" where
  "mem_insert r d =
     (let r' = set_row_id (if row_id r = 0 then md_next d else row_id r) r
      in if row_id r' = 0 \<or> list_ex (\<lambda>x. conflict x r') (md_rows d) then (Inl Duplicate, d)
         else (Inr r', d\<lparr>md_rows := md_rows d @ [r'], md_next := max (md_next d) (row_id r') + 1\<rparr>))"

definition mem_upsert :: "row \<Rightarrow> mem_db \<Rightarrow> (go_error + unit) \<times> mem_db" where
  "mem_upsert r d =
     (if r \<in> set (md_rows d) then (Inr (), d)
      else case List.find (\<lambda>x. conflict x r) (md_rows d) of
        None \<Rightarrow> (case mem_insert r d of (Inl e, d') \<Rightarrow> (Inl e, d') | (Inr _, d') \<Rightarrow> (Inr (), d'))
      | Some c \<Rightarrow> (case mem_update (\<lambda>x. x = c) (\<lambda>_. set_row_id (row_id c) r) d of
            (Inl e, d') \<Rightarrow> (Inl e, d') | (Inr _, d') \<Rightarrow> (Inr (), d')))"

fun ins_new :: "row list \<Rightarrow> mem_db \<Rightarrow> mem_db" where
  "ins_new [] d = d"
| "ins_new (r # rs) d =
     ins_new rs (if list_ex (\<lambda>x. key_clash x r) (md_rows d) then d
       else d\<lparr>md_rows := md_rows d @ [set_row_id (md_next d) r], md_next := md_next d + 1\<rparr>)"

text \<open>With \<open>rf\<close> reads follow the schedule of faults, too; else they never fail.\<close>

definition mem_read :: "bool \<Rightarrow> (row \<Rightarrow> bool) \<Rightarrow> mem_db \<Rightarrow> (go_error + row list) \<times> mem_db" where
  "mem_read rf P = (if rf then db_faulty (\<lambda>d. (Inr (filter P (md_rows d)), d))
     else (\<lambda>d. (Inr (filter P (md_rows d)), d)))"

definition mem_database :: "bool \<Rightarrow> mem_db db" where
  "mem_database rf =
     \<lparr>db_select = mem_read rf,
      db_update = (\<lambda>P f. db_faulty (mem_update P f)),
      db_insert = (\<lambda>r. db_faulty (mem_insert r)),
      db_upsert = (\<lambda>r. db_faulty (mem_upsert r)),
      db_insert_ignore = (\<lambda>rs. db_faulty (\<lambda>d. (Inr (), ins_new rs d))),
      db_begin = (\<lambda>d. (True, d)),
      db_commit = (\<lambda>d0 d. (True, d)),
      db_rollback = (\<lambda>d0 d. d\<lparr>md_rows := md_rows d0\<rparr>)\<rparr>"

lemma db_faulty_cases:
  assumes "db_faulty f d = (rep, d')"
  obtains (fault) xs where "rep = Inl DbFault" "d' = d\<lparr>md_faults := xs\<rparr>"
  | (run) xs where "f (d\<lparr>md_faults := xs\<rparr>) = (rep, d')"
  using assms
proof (cases "md_faults d")
  case Nil
  then have "d\<lparr>md_faults := []\<rparr> = d" by (cases d) simp
  with assms Nil that(2) [of "[]"] show thesis by (simp add: db_faulty_def)
next
  case (Cons x xs)
  with assms that show thesis by (auto simp: db_faulty_def split: if_splits)
qed

lemma set_row_id_id [simp]: "set_row_id (row_id r) r = r"
  by (cases r) auto

lemma set_row_id_twice [simp]: "set_row_id n (set_row_id m r) = set_row_id n r"
  by (cases r) auto

lemma ins_new_add_new:
  "map (set_row_id 0) (md_rows (ins_new rs d)) =
   add_new (map (set_row_id 0) (md_rows d)) (map (set_row_id 0) rs)"
  by (induction rs arbitrary: d) (auto simp: list_ex_iff)

lemma mem_upsert_ok:
  assumes "mem_upsert r d = (Inr u, d')"
  shows "filter (\<lambda>x. \<not> conflict x r) (md_rows d') = filter (\<lambda>x. \<not> conflict x r) (md_rows d) \<and>
    (unique_rows (md_rows d) \<longrightarrow> unique_rows (md_rows d'))"
proof (cases "List.find (\<lambda>x. conflict x r) (md_rows d)")
  case None
  with assms show ?thesis
    by (auto simp: mem_upsert_def mem_insert_def Let_def list_ex_iff unique_rows_def sorted_wrt_append
        split: if_splits)
next
  case (Some c)
  then have c: "conflict c r" by (auto simp: find_Some_iff)
  have "filter (\<lambda>x. \<not> conflict x r) (map (\<lambda>x. if x = c then set_row_id (row_id c) r else x) rs) =
      filter (\<lambda>x. \<not> conflict x r) rs" for rs
    using c by (induction rs) auto
  with Some assms show ?thesis
    by (auto simp: mem_upsert_def mem_update_def Let_def split: if_splits)
qed

lemma mem_upsert_err: "mem_upsert r d = (Inl e, d') \<Longrightarrow> md_rows d' = md_rows d \<and> e = Duplicate"
  by (auto simp: mem_upsert_def mem_update_def mem_insert_def Let_def split: option.splits if_splits prod.splits sum.splits)

lemma filter_fewer: "length (filter (\<lambda>x. P x \<and> Q x) xs) \<le> length (filter P xs)"
  by (induction xs) auto

definition mem_env_of :: "bool \<Rightarrow> time \<Rightarrow> (mem_db, mem_redis) env" where
  "mem_env_of rf now = \<lparr>e_db = mem_database rf, e_redis = mem_client_of rf, e_fuel = 1, e_now = now\<rparr>"

abbreviation "mem_env \<equiv> mem_env_of True"
abbreviation "mem_env_reads \<equiv> mem_env_of False"

lemma mem_env_simps [simp]:
  "e_db (mem_env_of rf now) = mem_database rf" "e_redis (mem_env_of rf now) = mem_client_of rf"
  "e_fuel (mem_env_of rf now) = 1" "e_now (mem_env_of rf now) = now"
  by (simp_all add: mem_env_of_def)

interpretation mem_rows: database "mem_env_of rf now" md_rows
proof
  fix P f d n d'
  assume "db_update (e_db (mem_env_of rf now)) P f d = (Inr n, d')" "unique_rows (md_rows d)"
  then show "unique_rows (md_rows d')"
    by (auto simp: mem_database_def mem_read_def mem_update_def Let_def split: if_splits elim!: db_faulty_cases)
next
  fix r d u d'
  assume "db_upsert (e_db (mem_env_of rf now)) r d = (Inr u, d')" "r \<in> set (md_rows d)"
  then show "md_rows d' = md_rows d"
    by (auto simp: mem_database_def mem_upsert_def elim!: db_faulty_cases)
next
  fix r d r' d'
  assume ins: "db_insert (e_db (mem_env_of rf now)) r d = (Inr r', d')"
  then show "(\<exists>i. i \<noteq> 0 \<and> r' = set_row_id i r) \<and> md_rows d' = md_rows d @ [r'] \<and> (\<forall>x\<in>set (md_rows d). \<not> conflict x r')"
  proof (intro conjI)
    have "row_id r' \<noteq> 0 \<and> r' = set_row_id (row_id r') r"
      using ins by (auto simp: mem_database_def mem_read_def mem_insert_def Let_def split: if_splits elim!: db_faulty_cases)
    then show "\<exists>i. i \<noteq> 0 \<and> r' = set_row_id i r" by blast
  qed (use ins in \<open>auto simp: mem_database_def mem_read_def mem_insert_def Let_def list_ex_iff
         split: if_splits elim!: db_faulty_cases\<close>)
next
  fix r d u d'
  assume "db_upsert (e_db (mem_env_of rf now)) r d = (Inr u, d')"
  then show "filter (\<lambda>x. \<not> conflict x r) (md_rows d') = filter (\<lambda>x. \<not> conflict x r) (md_rows d) \<and>
      (unique_rows (md_rows d) \<longrightarrow> unique_rows (md_rows d'))"
    by (auto simp: mem_database_def elim!: db_faulty_cases dest!: mem_upsert_ok)
next
  fix rs d u d'
  assume "db_insert_ignore (e_db (mem_env_of rf now)) rs d = (Inr u, d')"
  then show "map (set_row_id 0) (md_rows d') = add_new (map (set_row_id 0) (md_rows d)) (map (set_row_id 0) rs)"
    by (auto simp: mem_database_def mem_read_def ins_new_add_new elim!: db_faulty_cases)
qed (auto simp: mem_database_def mem_read_def mem_update_def mem_insert_def Let_def split: if_splits elim!: db_faulty_cases dest!: mem_upsert_err intro: filter_fewer)

interpretation mem_backend: backend "mem_env_of rf now" md_rows mem_str mem_set "\<lambda>_. 0"
  by (intro backend.intro backend_axioms.intro mem_rows.database_axioms)
     (simp_all add: mem_strings.redis_strings_axioms mem_sets.redis_sets_axioms mem_scan.redis_scan_axioms)

lemma mem_backend: "backend (mem_env_of rf now) md_rows mem_str mem_set (\<lambda>_. 0)"
  by (rule mem_backend.backend_axioms)

lemma reads_ok_mem: "reads_ok (mem_env_reads now)"
  by (simp add: reads_ok_def mem_database_def mem_read_def)

lemma deletes_ok_mem: "deletes_ok (mem_env_reads now)"
  unfolding deletes_ok_def
  by (auto simp: DelKeyIfExists_def void_reply_def mem_client_of_def faulty_if_def split: option.split)

section \<open>A small population\<close>

text \<open>The users \<open>U1\<close> and \<open>U2\<close>, contacts of each other, and the group \<open>G1\<close> of \<open>U1\<close> with both as
  members, at time 5.\<close>

definition demo_user :: "int \<Rightarrow> uuid \<Rightarrow> UserInfo" where
  "demo_user n u = \<lparr>ui_id = n, ui_uuid = u, ui_nickname = u, ui_telephone = [], ui_email = u @ ''@x.y'',
     ui_avatar = ''a'', ui_gender = 0, ui_signature = [], ui_password = ''pw'', ui_birthday = [],
     ui_created_at = 1, ui_deleted_at = 0, ui_last_online_at = None, ui_last_offline_at = None,
     ui_is_admin = 0, ui_status = 0\<rparr>"

definition demo_group :: GroupInfo where
  "demo_group = \<lparr>gi_id = 3, gi_uuid = ''G1'', gi_name = ''g'', gi_notice = [], gi_owner_id = ''U1'',
     gi_add_mode = 0, gi_avatar = ''a'', gi_status = 0, gi_created_at = 1, gi_updated_at = 1, gi_deleted_at = 0\<rparr>"

definition demo_member :: "int \<Rightarrow> uuid \<Rightarrow> int \<Rightarrow> GroupMember" where
  "demo_member n u role = \<lparr>gm_id = n, gm_group_id = ''G1'', gm_user_id = u, gm_role = role, gm_status = 0,
     gm_mute_until = None, gm_joined_at = 1, gm_created_at = 1, gm_updated_at = 1, gm_deleted_at = 0\<rparr>"

definition demo_contact :: "int \<Rightarrow> uuid \<Rightarrow> uuid \<Rightarrow> UserContact" where
  "demo_contact n u v = \<lparr>uc_id = n, uc_user_id = u, uc_contact_id = v, uc_contact_type = 0, uc_status = 0,
     uc_created_at = 1, uc_update_at = 1, uc_deleted_at = None\<rparr>"

definition demo_rows :: "row list" where
  "demo_rows = [RUser (demo_user 1 ''U1''), RUser (demo_user 2 ''U2''), RGroup demo_group,
     RMember (demo_member 4 ''U1'' 1), RMember (demo_member 5 ''U2'' 0),
     RContact (demo_contact 6 ''U1'' ''U2''), RContact (demo_contact 7 ''U2'' ''U1'')]"

definition demo :: "(mem_db, mem_redis) stores" where
  "demo = \<lparr>st_db = \<lparr>md_rows = demo_rows, md_next = 8, md_faults = []\<rparr>, st_redis = mem_empty, st_logouts = []\<rparr>"

lemmas demo_defs = demo_def demo_rows_def demo_user_def demo_group_def demo_member_def demo_contact_def mem_empty_def

text \<open>Evaluating a service on the population.\<close>

lemmas run_defs = answer_def bnd_def ret_def throw_def attempt_def or_throw_def logged_def guard_def
  on_db_def on_redis_def on_scan_def transaction_def system_error_def
  Find_def FindUnscoped_def First_def LastUnscoped_def Last_def FindOne_def Count_def Updates_def UpdatesUnscoped_def
  UpdatesRow_def Create_def Save_def select_def update_def mem_database_def mem_read_def db_faulty_def
  mem_update_def mem_insert_def mem_upsert_def unique_rows_def conflict_def scoped_def unscoped_def on_row_def
  users_def groups_def members_def contacts_def applies_def sessions_def messages_def files_def
  DelPattern_def DelPrefix_def DelIfExists_def GetCache_def SetCache_def
  DelKeysWithPattern_def DelKeysWithPrefix_def DelKeyIfExists_def SetKeyEx_def GetKeyNilIsErr_def GetKey_def
  void_reply_def plain_reply_def
  mem_client_of_def faulty_if_def faulty_def m_get_def mem_get_def mem_del_def put_def live_def glob_match_def Let_def

end
