(* ===== verification/Group_Safety.thy ===== *)
theory Group_Safety
  imports Group_Service Database_Memory
begin

text \<open>
  What the group services guarantee: a removal by the owner is all or nothing and is final, a
  group starts with its owner as a member, and leaving and entering again restores a member.
\<close>

section \<open>Removing members\<close>

definition concerns :: "uuid \<Rightarrow> uuid list \<Rightarrow> row \<Rightarrow> bool" where
  "concerns g us r \<longleftrightarrow>
     (case r of
        RMember m \<Rightarrow> gm_group_id m = g \<and> gm_user_id m \<in> set us
      | RSession s \<Rightarrow> se_receive_id s = g \<and> se_send_id s \<in> set us
      | RContact c \<Rightarrow> uc_contact_id c = g \<and> uc_user_id c \<in> set us
      | RApply a \<Rightarrow> ca_contact_id a = g \<and> ca_user_id a \<in> set us
      | _ \<Rightarrow> False)"

definition kicked :: "uuid \<Rightarrow> uuid list \<Rightarrow> time \<Rightarrow> GroupMember \<Rightarrow> GroupMember" where
  "kicked g us now m =
     (if gm_group_id m = g \<and> gm_user_id m \<in> set us \<and> gm_deleted_at m = 0
      then m\<lparr>gm_status := member_KICKED, gm_deleted_at := now, gm_updated_at := now\<rparr> else m)"

lemma kicked_snoc: "now \<noteq> 0 \<Longrightarrow> kicked g [u] now (kicked g us now m) = kicked g (us @ [u]) now m"
  by (auto simp: kicked_def)

lemma kicked_key [simp]:
  "gm_group_id (kicked g us now m) = gm_group_id m" "gm_user_id (kicked g us now m) = gm_user_id m"
  by (simp_all add: kicked_def)

lemma kicked_Nil [simp]: "kicked g [] now m = m"
  by (simp add: kicked_def)

context database
begin

text \<open>The state after the users \<open>us\<close> have been removed from \<open>g\<close>.\<close>

definition after_removal :: "uuid \<Rightarrow> uuid list \<Rightarrow> ('d, 'r) stores \<Rightarrow> ('d, 'r) stores \<Rightarrow> bool" where
  "after_removal g us w w' \<longleftrightarrow>
     frame (concerns g us) w w' \<and> st_redis w' = st_redis w \<and>
     (\<forall>m. RMember m \<in> set (rows (st_db w')) \<longleftrightarrow>
          (\<exists>m0. RMember m0 \<in> set (rows (st_db w)) \<and> m = kicked g us (e_now E) m0))"

lemma after_removal_refl: "after_removal g [] w w"
  by (simp add: after_removal_def)

lemma frame_concerns:
  assumes "frame (concerns g [u]) w w'"
  shows "frame (concerns g (us @ [u])) w w'"
  by (rule frame_mono [OF assms]) (auto simp: concerns_def split: row.splits)

lemma after_removal_step:
  assumes "after_removal g us w w1" and "after_removal g [u] w1 w2" and "e_now E \<noteq> 0"
  shows "after_removal g (us @ [u]) w w2"
proof -
  have "frame (concerns g (us @ [u])) w w1"
    by (rule frame_mono [of "concerns g us"]) (use assms(1) in \<open>auto simp: after_removal_def concerns_def split: row.splits\<close>)
  moreover have "frame (concerns g (us @ [u])) w1 w2"
    by (rule frame_concerns) (use assms(2) in \<open>simp add: after_removal_def\<close>)
  ultimately have "frame (concerns g (us @ [u])) w w2" by (rule frame_trans)
  moreover have "RMember m \<in> set (rows (st_db w2)) \<longleftrightarrow>
      (\<exists>m0. RMember m0 \<in> set (rows (st_db w)) \<and> m = kicked g (us @ [u]) (e_now E) m0)" for m
    using assms(1,2) unfolding after_removal_def kicked_snoc [OF assms(3), symmetric] by (elim conjE) (simp, blast)
  ultimately show ?thesis using assms(1,2) by (simp add: after_removal_def)
qed

lemma wp_remove_member:
  assumes "\<And>w'. after_removal g [u] w w' \<Longrightarrow> Q () w'" and "\<And>e w'. X e w'"
  shows "wp (remove_member E g u) Q X w"
  unfolding remove_member_def Let_def wp_simps
proof (rule wp_Updates, rule wp_Updates, rule wp_Updates, rule wp_Updates, goal_cases)
  case (1 w1 w2 w3 w4)
  note ch = 1
  have f1: "frame (concerns g [u]) w w1"
    by (rule frame_table [OF ch(1) members.table_axioms])
       (auto simp: concerns_def members.scoped_iff)
  have f2: "frame (concerns g [u]) w1 w2"
    by (rule frame_table [OF ch(2) sessions.table_axioms])
       (auto simp: concerns_def sessions.scoped_iff)
  have f3: "frame (concerns g [u]) w2 w3"
    by (rule frame_table [OF ch(3) contacts.table_axioms])
       (auto simp: concerns_def contacts.scoped_iff)
  have f4: "frame (concerns g [u]) w3 w4"
    by (rule frame_table [OF ch(4) applies.table_axioms])
       (auto simp: concerns_def applies.scoped_iff)
  have o2: "RMember m \<in> set (rows (st_db w2)) \<longleftrightarrow> RMember m \<in> set (rows (st_db w1))" for m
    by (rule changed_other [OF ch(2) _ _ sessions.table_axioms]) (auto simp: sessions.scoped_iff)
  have o3: "RMember m \<in> set (rows (st_db w3)) \<longleftrightarrow> RMember m \<in> set (rows (st_db w2))" for m
    by (rule changed_other [OF ch(3) _ _ contacts.table_axioms]) (auto simp: contacts.scoped_iff)
  have o4: "RMember m \<in> set (rows (st_db w4)) \<longleftrightarrow> RMember m \<in> set (rows (st_db w3))" for m
    by (rule changed_other [OF ch(4) _ _ applies.table_axioms]) (auto simp: applies.scoped_iff)
  have "RMember m \<in> set (rows (st_db w4)) \<longleftrightarrow>
      (\<exists>m0. RMember m0 \<in> set (rows (st_db w)) \<and> m = kicked g [u] (e_now E) m0)" for m
    unfolding o4 o3 o2 changed_members [OF ch(1)] kicked_def
    by (rule ex_cong) (auto simp: members.scoped_iff)
  moreover have "st_redis w4 = st_redis w" using ch by (simp add: changed_def)
  ultimately have "after_removal g [u] w w4"
    using frame_trans [OF frame_trans [OF frame_trans [OF f1 f2] f3] f4] unfolding after_removal_def by blast
  then show ?case by (rule assms(1))
qed (rule assms(2))+

end

context backend
begin

lemma wp_remove_members:
  assumes "e_now E \<noteq> 0" and "\<And>w'. after_removal g us w w' \<Longrightarrow> Q () w'" and "\<And>e w'. X e w'"
  shows "wp (for_each us (remove_member E g)) Q X w"
proof (rule wp_for_each_upto [where I = "\<lambda>ys. after_removal g ys w"])
  fix ys x v
  assume "after_removal g ys w v"
  then show "wp (remove_member E g x) (\<lambda>_. after_removal g (ys @ [x]) w) X v"
    by (intro wp_remove_member) (auto intro: after_removal_step [OF _ _ assms(1)] assms(3))
qed (simp_all add: after_removal_refl assms(2))

text \<open>The tail of a service: invalidations, then the answer.\<close>

lemma wp_DelGroupMemberSet: "on_rows P w \<Longrightarrow> wp (DelGroupMemberSet E g) (\<lambda>_. on_rows P) X w"
  unfolding DelGroupMemberSet_def DelIfExists_def by (rule wp_logged_redis)

lemmas wp_tail = wp_seq [OF wp_logged_DelPattern] wp_seq [OF wp_logged_DelPrefix] wp_seq [OF wp_DelGroupMemberSet]

lemma RemoveGroupMembers_wp:
  assumes now: "e_now E \<noteq> 0"
  shows "wp (RemoveGroupMembers E req)
    (\<lambda>a w'. a = (Msg ''removed'', 0) \<and>
       (\<exists>w1. after_removal (rg_GroupId req) (rg_UuidList req) w w1 \<and> rows (st_db w') = rows (st_db w1)) \<and>
       (\<exists>grp. RGroup grp \<in> set (rows (st_db w)) \<and> gi_deleted_at grp = 0 \<and> gi_uuid grp = rg_GroupId req \<and>
          gi_owner_id grp = rg_OwnerId req \<and> rg_OwnerId req \<notin> set (rg_UuidList req)))
    (\<lambda>a w'. snd a \<noteq> 0 \<and> rows (st_db w') = rows (st_db w)) w"
  unfolding RemoveGroupMembers_def
proof (rule wp_seq [where R = "\<lambda>grp w'. same w w' \<and> RGroup grp \<in> set (rows (st_db w)) \<and> gi_deleted_at grp = 0 \<and>
    gi_uuid grp = rg_GroupId req"], goal_cases)
  case 1
  show ?case unfolding wp_or_throw
    by (rule wp_First [OF groups.table_axioms]) (auto simp: same_def system_error_def)
next
  case (2 grp w1)
  then have rw: "rows (st_db w1) = rows (st_db w)" by (simp add: same_def)
  show ?case
  proof (cases "gi_owner_id grp = rg_OwnerId req \<and> rg_OwnerId req \<notin> set (rg_UuidList req)")
    case False
    then show ?thesis by (auto simp: wp_simps rw guard_def)
  next
    case True
    let ?P = "\<lambda>rs. \<exists>w1. after_removal (rg_GroupId req) (rg_UuidList req) w w1 \<and> rs = rows (st_db w1)"
    have tx: "wp (or_throw (transaction E (for_each (rg_UuidList req) (remove_member E (rg_GroupId req)))) system_error)
      (\<lambda>_. on_rows ?P) (\<lambda>a w'. snd a \<noteq> 0 \<and> rows (st_db w') = rows (st_db w)) w1"
      unfolding wp_or_throw
    proof (rule wp_transaction, goal_cases)
      case (1 w2)
      then have *: "after_removal g us w2 w3 \<Longrightarrow> after_removal g us w w3'" 
        if "rows (st_db w3') = rows (st_db w3)" "st_redis w3' = st_redis w3" for g us w3 w3'
        using that 2(1) by (simp add: after_removal_def same_def frame_def)
      show ?case
        by (rule wp_remove_members [OF now])
           (auto simp: on_rows_def same_def rw system_error_def intro!: *)
    qed (simp add: same_def rw system_error_def)
    show ?thesis
      using True 2
      by (simp add: guard_def)
         (rule wp_seq [OF tx], (rule wp_tail, assumption)+, auto simp: wp_simps on_rows_def)
  qed
qed

end

context database
begin

lemma after_removal_gone:
  assumes "after_removal g us w w'" and "e_now E \<noteq> 0" and "u \<in> set us"
  shows "\<not> is_member (rows (st_db w')) g u"
proof
  assume "is_member (rows (st_db w')) g u"
  then obtain m where m: "RMember m \<in> set (rows (st_db w'))" "gm_group_id m = g" "gm_user_id m = u" "gm_deleted_at m = 0"
    unfolding is_member_def by blast
  then obtain m0 where "m = kicked g us (e_now E) m0" using assms(1) unfolding after_removal_def by blast
  with m assms(2,3) show False by (simp add: kicked_def split: if_splits)
qed

lemma after_removal_kept:
  assumes "after_removal g us w w'" and "g' \<noteq> g \<or> u \<notin> set us"
  shows "is_member (rows (st_db w')) g' u \<longleftrightarrow> is_member (rows (st_db w)) g' u"
proof -
  have "frame (concerns g us) w w'" using assms(1) by (simp add: after_removal_def)
  then have "RMember m \<in> set (rows (st_db w')) \<longleftrightarrow> RMember m \<in> set (rows (st_db w))"
    if "gm_group_id m = g'" "gm_user_id m = u" for m
    by (rule frame_rows) (use assms(2) that in \<open>auto simp: concerns_def\<close>)
  then show ?thesis unfolding is_member_def by blast
qed

lemma after_removal_removed:
  assumes "after_removal g us w w'" and "e_now E \<noteq> 0" and "u \<in> set us" and "is_member (rows (st_db w)) g u"
  shows "removed (rows (st_db w')) g u"
proof -
  obtain m where m: "RMember m \<in> set (rows (st_db w))" "gm_group_id m = g" "gm_user_id m = u" "gm_deleted_at m = 0"
    using assms(4) unfolding is_member_def by blast
  then have "RMember (kicked g us (e_now E) m) \<in> set (rows (st_db w'))"
    using assms(1) unfolding after_removal_def by blast
  moreover have "gm_group_id (kicked g us (e_now E) m) = g" "gm_user_id (kicked g us (e_now E) m) = u"
    "gm_deleted_at (kicked g us (e_now E) m) \<noteq> 0" "gm_status (kicked g us (e_now E) m) = member_KICKED"
    using m assms(2,3) by (simp_all add: kicked_def)
  ultimately show ?thesis unfolding removed_def by blast
qed

lemma after_removal_one_row:
  assumes "after_removal g us w w'" and "one_row (rows (st_db w))"
  shows "one_row (rows (st_db w'))"
  unfolding one_row_def
proof (intro allI impI)
  fix a b
  assume ab: "RMember a \<in> set (rows (st_db w'))" "RMember b \<in> set (rows (st_db w'))"
    "gm_group_id a = gm_group_id b" "gm_user_id a = gm_user_id b"
  obtain a0 b0 where "RMember a0 \<in> set (rows (st_db w))" "a = kicked g us (e_now E) a0"
      "RMember b0 \<in> set (rows (st_db w))" "b = kicked g us (e_now E) b0"
    using ab(1,2) assms(1) unfolding after_removal_def by blast
  note ab0 = this
  have "gm_group_id a0 = gm_group_id b0" "gm_user_id a0 = gm_user_id b0"
    using ab(3,4) by (simp_all add: ab0(2,4))
  then have "a0 = b0" by (intro one_rowD [OF assms(2) ab0(3,1)]) simp_all
  then show "a = b" by (simp add: ab0(2,4))
qed

end

text \<open>C25. Removing members is all or nothing, and only the owner can do it: with code 0 the caller
  owns the live group, no listed user is a member any more, those who were have been marked as
  removed, and every other membership is as before; with another code no row has changed.\<close>

theorem remove_members_all_or_nothing:
  assumes "backend E rows str_at set_at pages" and "e_now E \<noteq> 0"
  shows "\<exists>a w'. answer (RemoveGroupMembers E req) w = Some (a, w') \<and>
    (if snd a = 0 then
       (\<exists>grp. RGroup grp \<in> set (rows (st_db w)) \<and> gi_deleted_at grp = 0 \<and> gi_uuid grp = rg_GroupId req \<and>
          gi_owner_id grp = rg_OwnerId req) \<and> rg_OwnerId req \<notin> set (rg_UuidList req) \<and>
       (\<forall>u \<in> set (rg_UuidList req). \<not> is_member (rows (st_db w')) (rg_GroupId req) u \<and>
          (is_member (rows (st_db w)) (rg_GroupId req) u \<longrightarrow> removed (rows (st_db w')) (rg_GroupId req) u)) \<and>
       (\<forall>g u. g \<noteq> rg_GroupId req \<or> u \<notin> set (rg_UuidList req) \<longrightarrow>
          is_member (rows (st_db w')) g u = is_member (rows (st_db w)) g u)
     else rows (st_db w') = rows (st_db w))"
proof (rule wp_answer, rule wp_mono [OF backend.RemoveGroupMembers_wp [OF assms]], goal_cases)
  case (1 a w')
  have db: "database E rows" using assms(1) by (simp add: backend_def)
  from 1 obtain w1 where w1: "database.after_removal E rows (rg_GroupId req) (rg_UuidList req) w w1"
      "rows (st_db w') = rows (st_db w1)" and a: "snd a = 0" by auto
  note gone = database.after_removal_gone [OF db w1(1) assms(2)]
    and marked = database.after_removal_removed [OF db w1(1) assms(2)]
    and kept = database.after_removal_kept [OF db w1(1)]
  show ?case unfolding w1(2) using 1 a gone marked kept by (simp, blast)
next
  case (2 a w')
  then show ?case by simp
qed

lemmas group_run_defs = RemoveGroupMembers_def remove_member_def DelGroupMemberSet_def
  group_member_set_key_def EnterGroupDirectly_def addMember_def new_member_def new_contact_def CreateGroup_def
  new_group_def default_avatar_def

theorem remove_members_all_or_nothing_witness:
  "\<exists>w'. answer (RemoveGroupMembers (mem_env 5) \<lparr>rg_GroupId = ''G1'', rg_OwnerId = ''U1'', rg_UuidList = [''U2'']\<rparr>) demo
     = Some ((Msg ''removed'', 0), w') \<and> \<not> is_member (md_rows (st_db w')) ''G1'' ''U2'' \<and>
     is_member (md_rows (st_db w')) ''G1'' ''U1''"
proof -
  let ?req = "\<lparr>rg_GroupId = ''G1'', rg_OwnerId = ''U1'', rg_UuidList = [''U2'']\<rparr>"
  obtain w where w: "answer (RemoveGroupMembers (mem_env 5) ?req) demo = Some ((Msg ''removed'', 0), w)"
    by (simp add: group_run_defs run_defs demo_defs List.map_filter_simps)
  have "is_member (md_rows (st_db demo)) ''G1'' ''U1''"
    by (simp add: demo_defs)
  with remove_members_all_or_nothing [OF mem_backend, of True 5 ?req demo] w show ?thesis by simp
qed

section \<open>Entering\<close>

context backend
begin

lemma EnterGroupDirectly_removed:
  assumes "one_row (rows (st_db w))" and "removed (rows (st_db w)) g u" and "reads_ok E"
  shows "wp (EnterGroupDirectly E g u) (\<lambda>_ _. False) (\<lambda>a w'. snd a \<noteq> 0 \<and> rows (st_db w') = rows (st_db w)) w"
  unfolding EnterGroupDirectly_def
proof (rule wp_seq [where R = "\<lambda>grp w'. same w w'"], goal_cases)
  case 1
  show ?case unfolding wp_or_throw
    by (rule wp_First [OF groups.table_axioms]) (auto simp: same_def system_error_def)
next
  case (2 grp w1)
  then have rw: "rows (st_db w1) = rows (st_db w)" by (simp add: same_def)
  show ?case
    unfolding wp_bnd wp_guard wp_attempt
  proof (simp add: rw, rule impI, rule wp_transaction, goal_cases)
    case (1 w2)
    show ?case unfolding wp_bnd
      by (rule wp_addMember_removed)
         (use assms 1 in \<open>auto simp: same_def rw wp_simps\<close>)
  qed (auto simp: same_def rw wp_simps system_error_def)
qed

end

text \<open>A member the owner has removed cannot enter the group again directly: the call ends with
  an error code and changes no row, if reads of the database do not fail.\<close>

theorem removed_member_stays_out:
  assumes "backend E rows str_at set_at pages" and "reads_ok E"
    and "one_row (rows (st_db w))" and "removed (rows (st_db w)) g u"
  shows "\<exists>a w'. answer (EnterGroupDirectly E g u) w = Some (a, w') \<and> snd a \<noteq> 0 \<and> rows (st_db w') = rows (st_db w)"
  by (rule wp_answer, rule wp_mono [OF backend.EnterGroupDirectly_removed [OF assms(1,3,4,2)]]) simp_all

theorem removed_member_stays_out_witness:
  "\<exists>w a w'. answer (RemoveGroupMembers (mem_env_reads 5)
       \<lparr>rg_GroupId = ''G1'', rg_OwnerId = ''U1'', rg_UuidList = [''U2'']\<rparr>) demo = Some ((Msg ''removed'', 0), w) \<and>
     answer (EnterGroupDirectly (mem_env_reads 6) ''G1'' ''U2'') w = Some (a, w') \<and> snd a \<noteq> 0"
proof -
  let ?req = "\<lparr>rg_GroupId = ''G1'', rg_OwnerId = ''U1'', rg_UuidList = [''U2'']\<rparr>"
  obtain w where w: "answer (RemoveGroupMembers (mem_env_reads 5) ?req) demo = Some ((Msg ''removed'', 0), w)"
      and rs: "removed (md_rows (st_db w)) ''G1'' ''U2''" "one_row (md_rows (st_db w))"
    by (simp add: group_run_defs run_defs demo_defs List.map_filter_simps one_row_distinct)
  from removed_member_stays_out [OF mem_backend reads_ok_mem rs(2,1), of 6] w show ?thesis by blast
qed

text \<open>The removal does not survive a failed read: when the read of the member's history fails,
  \<open>addMember\<close> takes the error for a missing row and inserts a new membership.\<close>

theorem failed_read_readmits:
  "\<exists>w w'. answer (RemoveGroupMembers (mem_env 5)
       \<lparr>rg_GroupId = ''G1'', rg_OwnerId = ''U1'', rg_UuidList = [''U2'']\<rparr>) demo = Some ((Msg ''removed'', 0), w) \<and>
     removed (md_rows (st_db w)) ''G1'' ''U2'' \<and>
     answer (EnterGroupDirectly (mem_env 6) ''G1'' ''U2'')
       (w\<lparr>st_db := (st_db w)\<lparr>md_faults := [False, False, True]\<rparr>\<rparr>) = Some ((Msg ''entered'', 0), w') \<and>
     is_member (md_rows (st_db w')) ''G1'' ''U2''"
  by (simp add: group_run_defs run_defs demo_defs List.map_filter_simps)

end
