(* ===== verification/Contact_Safety.thy ===== *)
theory Contact_Safety
  imports Contact_Service Group_Safety
begin

text \<open>
  What the contact services guarantee: blocking takes effect in both directions at once, passing
  an application makes the two sides contacts of each other or changes nothing, and passing the
  application of a removed member does not readmit it.
\<close>

section \<open>Blocking\<close>

definition blocked_row :: "row list \<Rightarrow> uuid \<Rightarrow> uuid \<Rightarrow> bool" where
  "blocked_row rs a b \<longleftrightarrow>
     (\<exists>c. RContact c \<in> set rs \<and> uc_user_id c = a \<and> uc_contact_id c = b \<and> uc_deleted_at c = None) \<and>
     (\<forall>c. RContact c \<in> set rs \<longrightarrow> uc_user_id c = a \<longrightarrow> uc_contact_id c = b \<longrightarrow> uc_deleted_at c = None \<longrightarrow>
        uc_status c \<in> {contact_BLACK, contact_BE_BLACK})"

context backend
begin

definition uncached :: "uuid \<Rightarrow> uuid \<Rightarrow> ('d, 'r) stores \<Rightarrow> bool" where
  "uncached a b w \<longleftrightarrow> (\<forall>t \<ge> e_now E. str_at (st_redis w) t (contactBlackKey a b) = None)"

lemma wp_InvalidateContactBlack:
  assumes "deletes_ok E" and "\<And>w'. st_db w' = st_db w \<Longrightarrow> uncached a b w' \<Longrightarrow> uncached b a w' \<Longrightarrow> Q () w'"
  shows "wp (InvalidateContactBlack E a b) Q X w"
  unfolding InvalidateContactBlack_def wp_bnd wp_logged
proof (rule wp_DelIfExists [OF assms(1)], rule wp_DelIfExists [OF assms(1)], goal_cases)
  case (1 w1 w2)
  then show ?case by (intro assms(2)) (simp_all add: uncached_def)
qed

lemma blocked_after_update:
  assumes ch: "changed (scoped contacts (\<lambda>c. uc_user_id c = a \<and> uc_contact_id c = b))
      (on_row contacts (\<lambda>c. c\<lparr>uc_status := st, uc_update_at := t\<rparr>)) w w'"
    and live: "RContact c0 \<in> set (rows (st_db w))" "uc_user_id c0 = a" "uc_contact_id c0 = b" "uc_deleted_at c0 = None"
    and st: "st \<in> {contact_BLACK, contact_BE_BLACK}"
  shows "blocked_row (rows (st_db w')) a b"
proof -
  have mem: "RContact c \<in> set (rows (st_db w')) \<longleftrightarrow> (\<exists>c0. RContact c0 \<in> set (rows (st_db w)) \<and>
      c = (if uc_deleted_at c0 = None \<and> uc_user_id c0 = a \<and> uc_contact_id c0 = b
           then c0\<lparr>uc_status := st, uc_update_at := t\<rparr> else c0))" for c
    using changed_table [OF contacts.table_axioms ch, of c] by (simp add: contacts.scoped_iff)
  have "RContact (c0\<lparr>uc_status := st, uc_update_at := t\<rparr>) \<in> set (rows (st_db w'))"
    unfolding mem using live by (intro exI [of _ c0]) simp
  moreover have "uc_status c = st"
    if "RContact c \<in> set (rows (st_db w'))" "uc_user_id c = a" "uc_contact_id c = b" "uc_deleted_at c = None" for c
  proof -
    note c = that
    obtain c1 where "c = (if uc_deleted_at c1 = None \<and> uc_user_id c1 = a \<and> uc_contact_id c1 = b
           then c1\<lparr>uc_status := st, uc_update_at := t\<rparr> else c1)" using c(1) unfolding mem by blast
    with c(2-4) show ?thesis by (simp split: if_splits)
  qed
  ultimately show ?thesis unfolding blocked_row_def
  proof (intro conjI)
    show "\<exists>c. RContact c \<in> set (rows (st_db w')) \<and> uc_user_id c = a \<and> uc_contact_id c = b \<and> uc_deleted_at c = None"
      by (rule exI [of _ "c0\<lparr>uc_status := st, uc_update_at := t\<rparr>"])
         (use live \<open>RContact (c0\<lparr>uc_status := st, uc_update_at := t\<rparr>) \<in> _\<close> in simp)
  qed (use st in blast)
qed

lemma blocked_kept:
  assumes ch: "changed (scoped contacts (\<lambda>c. uc_user_id c = x \<and> uc_contact_id c = y))
      (on_row contacts (\<lambda>c. c\<lparr>uc_status := st, uc_update_at := t\<rparr>)) w w'"
    and "blocked_row (rows (st_db w)) a b" and st: "st \<in> {contact_BLACK, contact_BE_BLACK}"
  shows "blocked_row (rows (st_db w')) a b"
proof (cases "x = a \<and> y = b")
  case True
  with assms obtain c0 where "RContact c0 \<in> set (rows (st_db w))" "uc_user_id c0 = a" "uc_contact_id c0 = b"
    "uc_deleted_at c0 = None" unfolding blocked_row_def by blast
  then show ?thesis using blocked_after_update [OF ch [unfolded True [THEN conjunct1] True [THEN conjunct2]] _ _ _ _ st]
    by blast
next
  case False
  have "RContact c \<in> set (rows (st_db w')) \<longleftrightarrow> RContact c \<in> set (rows (st_db w))"
    if "uc_user_id c = a" "uc_contact_id c = b" for c
  proof -
    have "frame (\<lambda>r. \<exists>c. r = RContact c \<and> uc_user_id c = x \<and> uc_contact_id c = y) w w'"
      by (rule frame_table [OF ch contacts.table_axioms]) (auto simp: contacts.scoped_iff)
    then show ?thesis by (rule frame_rows) (use False that in auto)
  qed
  then show ?thesis using assms(2) unfolding blocked_row_def by blast
qed

end

context backend
begin

lemma BlackContact_wp:
  assumes del: "deletes_ok E"
    and ab: "RContact c \<in> set (rows (st_db w))" "uc_user_id c = a" "uc_contact_id c = b" "uc_deleted_at c = None"
    and ba: "RContact c' \<in> set (rows (st_db w))" "uc_user_id c' = b" "uc_contact_id c' = a" "uc_deleted_at c' = None"
  shows "wp (BlackContact E a b)
    (\<lambda>r w'. blocked_row (rows (st_db w')) a b \<and> blocked_row (rows (st_db w')) b a \<and> uncached a b w' \<and> uncached b a w')
    (\<lambda>r w'. snd r = -1) w"
  unfolding BlackContact_def wp_simps
proof (rule wp_Updates, rule wp_Updates, rule wp_InvalidateContactBlack [OF del], rule wp_Updates, goal_cases)
  case (1 w1 w2 w3 w4)
  have "blocked_row (rows (st_db w1)) a b" by (rule blocked_after_update [OF 1(1) ab]) simp
  then have b_ab: "blocked_row (rows (st_db w2)) a b" by (rule blocked_kept [OF 1(2)]) simp
  have "\<exists>c'. RContact c' \<in> set (rows (st_db w1)) \<and> uc_user_id c' = b \<and> uc_contact_id c' = a \<and> uc_deleted_at c' = None"
    using changed_image [OF contacts.table_axioms 1(1), of c'] ba
    by (intro exI conjI, simp) (simp_all split: if_splits)
  then obtain c1 where c1: "RContact c1 \<in> set (rows (st_db w1))" "uc_user_id c1 = b" "uc_contact_id c1 = a"
    "uc_deleted_at c1 = None" by blast
  have b_ba: "blocked_row (rows (st_db w2)) b a" by (rule blocked_after_update [OF 1(2) c1]) simp
  have "RContact x \<in> set (rows (st_db w4)) \<longleftrightarrow> RContact x \<in> set (rows (st_db w2))" for x
    using changed_other [OF 1(6) _ _ sessions.table_axioms, of "RContact x"] 1(3) by (auto simp: sessions.scoped_iff)
  then have "blocked_row (rows (st_db w4)) a b" "blocked_row (rows (st_db w4)) b a"
    using b_ab b_ba unfolding blocked_row_def by simp_all
  moreover have "uncached a b w4" "uncached b a w4" using 1 by (simp_all add: uncached_def changed_def)
  ultimately show ?case by (simp add: wp_simps)
qed (simp_all add: system_error_def)

text \<open>A pair that is blocked: the rows say so, and from the time \<open>T\<close> on the cache says nothing else.\<close>

definition stays_blocked :: "time \<Rightarrow> uuid \<Rightarrow> uuid \<Rightarrow> ('d, 'r) stores \<Rightarrow> bool" where
  "stays_blocked T a b w \<longleftrightarrow> blocked_row (rows (st_db w)) a b \<and>
     (\<forall>t \<ge> T. str_at (st_redis w) t (contactBlackKey a b) \<in> {None, Some ''1''})"

lemma contactBlackCacheTTL_pos: "0 < contactBlackCacheTTL"
  by (simp add: contactBlackCacheTTL_def)

lemma wp_remember:
  assumes "\<And>w'. st_db w' = st_db w \<Longrightarrow> (\<And>t k'. e_now E \<le> t \<Longrightarrow>
      str_at (st_redis w') t k' = str_at (st_redis w) t k' \<or> k' = k \<and> str_at (st_redis w') t k' \<in> {None, Some v}) \<Longrightarrow> Q () w'"
  shows "wp (logged (SetCache E k v contactBlackCacheTTL)) Q X w"
  unfolding wp_logged SetCache_def
proof (rule wp_on_redis)
  fix u s
  assume "SetKeyEx (e_redis E) k v contactBlackCacheTTL (e_now E) (st_redis w) = (Inr u, s)"
  from SetKeyEx_ok [OF this contactBlackCacheTTL_pos] show "Q () (w\<lparr>st_redis := s\<rparr>)" by (intro assms) auto
next
  fix e s
  assume set: "SetKeyEx (e_redis E) k v contactBlackCacheTTL (e_now E) (st_redis w) = (Inl e, s)"
  have "str_at s t k' = str_at (st_redis w) t k' \<or> k' = k \<and> str_at s t k' \<in> {None, Some v}" if "e_now E \<le> t" for t k'
    using SetKeyEx_other [OF set contactBlackCacheTTL_pos _ that, of k'] SetKeyEx_err [OF set contactBlackCacheTTL_pos that] by (cases "k' = k") auto
  then show "Q () (w\<lparr>st_redis := s\<rparr>)" by (intro assms) auto
qed

lemma stays_after:
  fixes w' :: "('d, 'r) stores"
  assumes "stays_blocked T a b w" and "T \<le> e_now E" and "k = contactBlackKey a b \<longrightarrow> v = ''1''" and "st_db w' = st_db w"
    and "\<And>t k'. e_now E \<le> t \<Longrightarrow> str_at (st_redis w') t k' = str_at (st_redis w) t k' \<or>
      k' = k \<and> str_at (st_redis w') t k' \<in> {None, Some v}"
  shows "stays_blocked (e_now E) a b w'"
proof -
  have "str_at (st_redis w') t (contactBlackKey a b) \<in> {None, Some ''1''}" if t: "e_now E \<le> t" for t
  proof -
    have "T \<le> t" using assms(2) t by simp
    with assms(1) have "str_at (st_redis w) t (contactBlackKey a b) \<in> {None, Some ''1''}" unfolding stays_blocked_def by blast
    with assms(5) [OF t, of "contactBlackKey a b"] assms(3) show ?thesis by auto
  qed
  with assms(1,4) show ?thesis by (simp add: stays_blocked_def)
qed

text \<open>A question about any pair leaves a blocked pair blocked, and one about the pair itself is answered yes.\<close>

lemma IsBlocked_wp:
  assumes inv: "stays_blocked T a b w" "stays_blocked T c d w" and "T \<le> e_now E" and "reads_ok E"
    and keys: "contactBlackKey x y = contactBlackKey a b \<longrightarrow> x = a \<and> y = b" "contactBlackKey x y = contactBlackKey c d \<longrightarrow> x = c \<and> y = d"
  shows "wp (IsBlocked E x y) (\<lambda>r w'. (x = a \<and> y = b \<or> x = c \<and> y = d \<longrightarrow> r) \<and>
    stays_blocked (e_now E) a b w' \<and> stays_blocked (e_now E) c d w') X w"
proof -
  let ?Q = "\<lambda>r w'. (x = a \<and> y = b \<or> x = c \<and> y = d \<longrightarrow> r) \<and> stays_blocked (e_now E) a b w' \<and> stays_blocked (e_now E) c d w'"
  have later: "stays_blocked (e_now E) p q v" if "stays_blocked T p q v" for p q v
    using that assms(3) unfolding stays_blocked_def by auto
  have sets: "wp (bnd (logged (SetCache E (contactBlackKey x y) v contactBlackCacheTTL)) (\<lambda>_. ret r)) ?Q X w1"
    if "stays_blocked T a b w1" "stays_blocked T c d w1" and v: "x = a \<and> y = b \<or> x = c \<and> y = d \<Longrightarrow> v = ''1'' \<and> r" for v r w1
    unfolding wp_bnd wp_ret
  proof (rule wp_remember)
    fix w' :: "('d, 'r) stores" assume w': "st_db w' = st_db w1" "\<And>t k'. e_now E \<le> t \<Longrightarrow> str_at (st_redis w') t k' = str_at (st_redis w1) t k' \<or>
      k' = contactBlackKey x y \<and> str_at (st_redis w') t k' \<in> {None, Some v}"
    have "stays_blocked (e_now E) a b w'" by (rule stays_after [OF that(1) assms(3) _ w']) (use keys v in auto)
    moreover have "stays_blocked (e_now E) c d w'" by (rule stays_after [OF that(2) assms(3) _ w']) (use keys v in auto)
    ultimately show "?Q r w'" using v by auto
  qed
  have lookup: "wp (attempt (First E contacts (\<lambda>c. uc_user_id c = x \<and> uc_contact_id c = y)) (\<lambda>r.
            case r of
              Inl _ \<Rightarrow> bnd (logged (SetCache E (contactBlackKey x y) ''0'' contactBlackCacheTTL)) (\<lambda>_. ret False)
            | Inr c \<Rightarrow>
                let blocked = (uc_status c = contact_BLACK \<or> uc_status c = contact_BE_BLACK) in
                bnd (logged (SetCache E (contactBlackKey x y) (if blocked then ''1'' else ''0'') contactBlackCacheTTL))
                  (\<lambda>_. ret blocked))) ?Q X w1" if w1: "stays_blocked T a b w1" "stays_blocked T c d w1" for w1
    unfolding wp_attempt
  proof (rule wp_First [OF contacts.table_axioms], goal_cases)
    case (1 u w2)
    then have "x = a \<and> y = b \<or> x = c \<and> y = d \<Longrightarrow> uc_status u = contact_BLACK \<or> uc_status u = contact_BE_BLACK"
      using w1 unfolding stays_blocked_def blocked_row_def by auto
    moreover have "stays_blocked T a b w2" "stays_blocked T c d w2" using 1(1) w1 by (simp_all add: same_def stays_blocked_def)
    ultimately show ?case unfolding sum.case Let_def by (intro sets) auto
  next
    case (2 w2)
    then have "\<not> (x = a \<and> y = b \<or> x = c \<and> y = d)"
      using w1 unfolding stays_blocked_def blocked_row_def by auto
    moreover have "stays_blocked T a b w2" "stays_blocked T c d w2" using 2(1) w1 by (simp_all add: same_def stays_blocked_def)
    ultimately show ?case unfolding sum.case by (intro sets) auto
  next
    case (3 w2)
    with assms(4) show ?case by simp
  qed
  show ?thesis
    unfolding IsBlocked_def Let_def wp_attempt
  proof (rule wp_on_redis, goal_cases)
    case (1 v s)
    from GetKey_cases [OF 1] have s: "s = st_redis w"
      and v: "v = (case str_at (st_redis w) (e_now E) (contactBlackKey x y) of None \<Rightarrow> [] | Some v \<Rightarrow> v)" by auto
    have "v \<noteq> [] \<Longrightarrow> x = a \<and> y = b \<or> x = c \<and> y = d \<Longrightarrow> v = ''1''"
      using inv assms(3) v unfolding stays_blocked_def by (fastforce split: option.splits)
    with s later inv lookup [of w] show ?case by (auto simp: Let_def wp_simps)
  next
    case (2 e s)
    from GetKey_cases [OF 2] have "s = st_redis w" by simp
    with inv lookup [of w] show ?case by (simp add: Let_def)
  qed
qed

end

text \<open>Questions one after the other, each at a time and for a sender and a receiver.\<close>

fun questions :: "('d, 'r) env \<Rightarrow> (time \<times> uuid \<times> uuid) list \<Rightarrow> ('d, 'r) stores \<Rightarrow> (bool list \<times> ('d, 'r) stores) option" where
  "questions E [] w = Some ([], w)"
| "questions E ((t, x, y) # qs) w = (case answer (IsBlocked (E\<lparr>e_now := t\<rparr>) x y) w of
     None \<Rightarrow> None
   | Some (r, w1) \<Rightarrow> map_option (\<lambda>(rs, w2). (r # rs, w2)) (questions E qs w1))"

lemma contactBlackKey_eq:
  assumes "CHR ''_'' \<notin> set a" and "CHR ''_'' \<notin> set b"
  shows "contactBlackKey x y = contactBlackKey a b \<longleftrightarrow> x = a \<and> y = b"
proof
  assume "contactBlackKey x y = contactBlackKey a b"
  then have eq: "a @ CHR ''_'' # b = x @ CHR ''_'' # y" by (simp add: contactBlackKey_def)
  have "count_list (a @ CHR ''_'' # b) CHR ''_'' = 1" using assms by simp
  then have "CHR ''_'' \<notin> set x" unfolding eq by (simp add: count_list_0_iff)
  with eq assms show "x = a \<and> y = b" by (metis append_Cons_eq_iff)
qed simp

lemma questions_blocked:
  assumes R: "backend E rows str_at set_at pages" and reads: "reads_ok E" and plain: "CHR ''_'' \<notin> set a" "CHR ''_'' \<notin> set b"
    and inv: "backend.stays_blocked rows str_at T a b w" "backend.stays_blocked rows str_at T b a w"
    and times: "sorted (map fst qs)" "\<forall>q \<in> set qs. T \<le> fst q"
  shows "\<exists>rs w'. questions E qs w = Some (rs, w') \<and> length rs = length qs \<and>
    (\<forall>i < length qs. snd (qs ! i) = (a, b) \<or> snd (qs ! i) = (b, a) \<longrightarrow> rs ! i)"
  using inv times
proof (induction qs arbitrary: w T)
  case (Cons q qs)
  obtain t x y where q: "q = (t, x, y)" by (cases q)
  let ?E = "E\<lparr>e_now := t\<rparr>"
  have R': "backend ?E rows str_at set_at pages" by (rule backend_now [OF R])
  have "T \<le> e_now ?E" and "reads_ok ?E" using Cons.prems(4) reads q by (simp_all add: reads_ok_def)
  from wp_answer [OF backend.IsBlocked_wp [OF R' Cons.prems(1,2) this, of x y]] obtain r w1 where
    r: "answer (IsBlocked ?E x y) w = Some (r, w1)" "x = a \<and> y = b \<or> x = b \<and> y = a \<longrightarrow> r"
    and w1: "backend.stays_blocked rows str_at t a b w1" "backend.stays_blocked rows str_at t b a w1"
    using contactBlackKey_eq plain by auto
  have "\<forall>p \<in> set qs. t \<le> fst p" and "sorted (map fst qs)" using Cons.prems(3) q by auto
  from Cons.IH [OF w1 this(2,1)] obtain rs w' where "questions E qs w1 = Some (rs, w')" "length rs = length qs"
    "\<forall>i < length qs. snd (qs ! i) = (a, b) \<or> snd (qs ! i) = (b, a) \<longrightarrow> rs ! i" by blast
  with r q show ?case by (auto simp: nth_Cons split: nat.splits)
qed simp

text \<open>C24. Blocking takes effect at once and stays. Let \<open>BlackContact\<close> return code 0 for two users who have live
  contact rows in both directions (it returns 0 for others as well, and then \<open>IsBlocked\<close> says no), while
  deletions in the cache and reads of the database do not fail. Then, whatever the cache held before, in
  every sequence of later questions, about any users and with whatever the earlier ones have left in the
  cache, each question whether one of the two is blocked by the other is answered yes, in both directions.
  (The identifiers of the two hold no underscore, which separates them in the key of the cache; those that the
  server makes have none.)\<close>

theorem blocking_takes_effect:
  assumes "backend E rows str_at set_at pages" and "deletes_ok E" and "reads_ok E"
    and "RContact c \<in> set (rows (st_db w))" "uc_user_id c = a" "uc_contact_id c = b" "uc_deleted_at c = None"
    and "RContact c' \<in> set (rows (st_db w))" "uc_user_id c' = b" "uc_contact_id c' = a" "uc_deleted_at c' = None"
    and "CHR ''_'' \<notin> set a" and "CHR ''_'' \<notin> set b"
    and "answer (BlackContact E a b) w = Some ((m, 0), w')" and "sorted (map fst qs)" and "\<forall>q \<in> set qs. e_now E \<le> fst q"
  shows "\<exists>rs w1. questions E qs w' = Some (rs, w1) \<and> length rs = length qs \<and>
    (\<forall>i < length qs. snd (qs ! i) = (a, b) \<or> snd (qs ! i) = (b, a) \<longrightarrow> rs ! i)"
proof -
  have "\<exists>r w'. answer (BlackContact E a b) w = Some (r, w') \<and> (snd r = 0 \<longrightarrow>
      blocked_row (rows (st_db w')) a b \<and> blocked_row (rows (st_db w')) b a \<and>
      backend.uncached E str_at a b w' \<and> backend.uncached E str_at b a w')"
    by (rule wp_answer, rule wp_mono [OF backend.BlackContact_wp [OF assms(1,2,4-11)]]) simp_all
  with assms(14) have "backend.stays_blocked rows str_at (e_now E) a b w'" "backend.stays_blocked rows str_at (e_now E) b a w'"
    by (auto simp: backend.stays_blocked_def [OF assms(1)] backend.uncached_def [OF assms(1)])
  from questions_blocked [OF assms(1,3,12,13) this assms(15,16)] show ?thesis .
qed

lemmas contact_run_defs = BlackContact_def InvalidateContactBlack_def contactBlackKey_def IsBlocked_def

theorem blocking_takes_effect_witness:
  "\<exists>w' rs w1. answer (BlackContact (mem_env_reads 5) ''U1'' ''U2'') demo = Some ((Msg ''blocked'', 0), w') \<and>
     questions (mem_env_reads 5) [(6, ''U2'', ''U1''), (7, ''U1'', ''U9''), (8, ''U2'', ''U1'')] w' = Some (rs, w1) \<and>
     rs ! 0 \<and> rs ! 2"
proof -
  obtain w' where w': "answer (BlackContact (mem_env_reads 5) ''U1'' ''U2'') demo = Some ((Msg ''blocked'', 0), w')"
    by (simp add: contact_run_defs run_defs mem_read_def demo_defs)
  have c: "RContact (demo_contact 6 ''U1'' ''U2'') \<in> set (md_rows (st_db demo))"
    "RContact (demo_contact 7 ''U2'' ''U1'') \<in> set (md_rows (st_db demo))"
    by (simp_all add: demo_def demo_rows_def)
  have now: "e_now (mem_env_reads 5) = 5" by (simp add: mem_env_of_def)
  let ?qs = "[(6 :: time, ''U2'', ''U1''), (7, ''U1'', ''U9''), (8, ''U2'', ''U1'')]"
  obtain rs w1 where rs: "questions (mem_env_reads 5) ?qs w' = Some (rs, w1)" "length rs = length ?qs"
    "\<forall>i < length ?qs. snd (?qs ! i) = (''U1'', ''U2'') \<or> snd (?qs ! i) = (''U2'', ''U1'') \<longrightarrow> rs ! i"
    using blocking_takes_effect [OF mem_backend deletes_ok_mem reads_ok_mem c(1) _ _ _ c(2) _ _ _ _ _ w', of ?qs] now
    by (auto simp: demo_contact_def)
  have "rs ! 0" "rs ! 2" using rs(3) [rule_format, of 0] rs(3) [rule_format, of 2] by simp_all
  with w' rs(1) show ?thesis by blast
qed

section \<open>Passing an application\<close>

definition contact_of :: "row list \<Rightarrow> uuid \<Rightarrow> uuid \<Rightarrow> bool" where
  "contact_of rs u v \<longleftrightarrow> (\<exists>c. RContact c \<in> set rs \<and> uc_user_id c = u \<and> uc_contact_id c = v \<and>
     uc_deleted_at c = None \<and> uc_status c = contact_NORMAL)"

definition contact_row :: "uuid \<Rightarrow> uuid \<Rightarrow> row \<Rightarrow> bool" where
  "contact_row u v r \<longleftrightarrow> (case r of RContact c \<Rightarrow> uc_user_id c = u \<and> uc_contact_id c = v | _ \<Rightarrow> False)"

context database
begin

text \<open>What restoring or creating a contact achieves.\<close>

definition befriended :: "uuid \<Rightarrow> uuid \<Rightarrow> ('d, 'r) stores \<Rightarrow> ('d, 'r) stores \<Rightarrow> bool" where
  "befriended u v w w' \<longleftrightarrow> frame (contact_row u v) w w' \<and> st_redis w' = st_redis w \<and>
     unique_rows (rows (st_db w')) \<and> contact_of (rows (st_db w')) u v"

lemma one_contact:
  assumes "unique_rows rs" "RContact c \<in> set rs" "RContact c' \<in> set rs"
    "uc_user_id c' = uc_user_id c" "uc_contact_id c' = uc_contact_id c"
  shows "c' = c"
  using unique_rowsD [OF assms(1-3)] assms(4,5) by (auto simp: conflict_def)

lemma befriended_updated:
  assumes ch: "changed P (on_row contacts f) w w'" and uniq: "unique_rows (rows (st_db w))"
    and c: "RContact c \<in> set (rows (st_db w))" "P (RContact c)"
    and P: "\<And>c. RContact c \<in> set (rows (st_db w)) \<Longrightarrow> P (RContact c) \<Longrightarrow> uc_user_id c = u \<and> uc_contact_id c = v"
      "\<And>r. P r \<Longrightarrow> \<exists>c. r = RContact c"
    and f: "\<And>c. uc_user_id (f c) = uc_user_id c \<and> uc_contact_id (f c) = uc_contact_id c"
    and fc: "uc_deleted_at (f c) = None" "uc_status (f c) = contact_NORMAL"
  shows "befriended u v w w'"
proof -
  have "frame (contact_row u v) w w'"
  proof (rule frame_changed [OF ch])
    fix r
    assume r: "r \<in> set (rows (st_db w))" "P r"
    with P(2) obtain c' where "r = RContact c'" by blast
    with r P(1) [of c'] f [of c'] show "contact_row u v r \<and> contact_row u v (on_row contacts f r)"
      by (simp add: contact_row_def table_simps)
  qed
  moreover have "contact_of (rows (st_db w')) u v"
    using changed_image [OF contacts.table_axioms ch, of c] c f [of c] fc P(1) [of c]
    unfolding contact_of_def by (intro exI [of _ "f c"]) simp
  ultimately show ?thesis using ch uniq unfolding befriended_def changed_def by blast
qed

lemma wp_restoreOrCreateContact:
  assumes uniq: "unique_rows (rows (st_db w))"
    and Q: "\<And>w'. befriended u v w w' \<Longrightarrow> Q () w'"
    and X: "\<And>e w'. e \<noteq> ErrMemberKicked \<Longrightarrow> X e w'"
  shows "wp (restoreOrCreateContact E u v ctype) Q X w"
  unfolding restoreOrCreateContact_def wp_bnd
proof (rule wp_Count [OF contacts.table_axioms], goal_cases)
  case (1 n w1)
  let ?P = "\<lambda>c. uc_user_id c = u \<and> uc_contact_id c = v"
  have rw: "rows (st_db w1) = rows (st_db w)" by (rule same_rows [OF 1(1)])
  have uniq1: "unique_rows (rows (st_db w1))" using uniq rw by simp
  have Q1: "Q () w2" if "befriended u v w1 w2" for w2
    by (rule Q) (use that 1(1) in \<open>simp add: befriended_def same_def frame_def\<close>)
  show ?case
  proof (cases "0 < n")
    case True
    then obtain r where "r \<in> set (rows (st_db w1))" "scoped contacts ?P r"
      unfolding 1(2) rw length_greater_0_conv filter_empty_conv by auto
    then obtain c where c: "RContact c \<in> set (rows (st_db w1))" "?P c" "uc_deleted_at c = None"
      unfolding contacts.scoped_iff by auto
    have "wp (Updates E contacts ?P (\<lambda>c. c\<lparr>uc_status := contact_NORMAL, uc_update_at := e_now E\<rparr>)) Q X w1"
    proof (rule wp_Updates)
      fix w2
      assume ch: "changed (scoped contacts ?P) (on_row contacts
        (\<lambda>c. c\<lparr>uc_status := contact_NORMAL, uc_update_at := e_now E\<rparr>)) w1 w2"
      have "befriended u v w1 w2"
        by (rule befriended_updated [OF ch, of c]) (use c uniq1 in \<open>auto simp: contacts.scoped_iff\<close>)
      then show "Q () w2" by (rule Q1)
    qed (use X in auto)
    with True show ?thesis by simp
  next
    case False
    have found: "wp (UpdatesUnscoped E contacts (\<lambda>c. uc_id c = uc_id h)
        (\<lambda>c. c\<lparr>uc_deleted_at := None, uc_status := contact_NORMAL, uc_update_at := e_now E\<rparr>)) Q X w2"
      if w2: "same w1 w2" and h: "RContact h \<in> set (rows (st_db w1))" "?P h" for h w2
    proof (rule wp_UpdatesUnscoped)
      fix w3
      assume ch: "changed (unscoped contacts (\<lambda>c. uc_id c = uc_id h))
        (on_row contacts (\<lambda>c. c\<lparr>uc_deleted_at := None, uc_status := contact_NORMAL, uc_update_at := e_now E\<rparr>)) w2 w3"
      have rw2: "rows (st_db w2) = rows (st_db w1)" by (rule same_rows [OF w2])
      have ids: "c = h" if "RContact c \<in> set (rows (st_db w1))" "uc_id c = uc_id h" for c
        using unique_rowsD [OF uniq1 that(1) h(1)] that(2) by (auto simp: conflict_def)
      have "befriended u v w2 w3"
        by (rule befriended_updated [OF ch, of h]) (use h ids uniq1 rw2 in \<open>auto simp: contacts.unscoped_iff\<close>)
      then show "Q () w3" by (intro Q1) (use w2 in \<open>simp add: befriended_def same_def frame_def\<close>)
    qed (use X in auto)
    have fresh: "wp (Create E contacts (new_contact u v ctype (e_now E))) (\<lambda>_. Q ()) X w2" if w2: "same w1 w2" for w2
    proof (rule wp_Create [OF contacts.table_axioms])
      fix y i w3
      assume y: "tb_row contacts y = set_row_id i (tb_row contacts (new_contact u v ctype (e_now E)))"
        and ad: "added (tb_row contacts y) w2 w3"
      have yy: "y = new_contact u v ctype (e_now E)\<lparr>uc_id := i\<rparr>" using y by simp
      have "contact_of (rows (st_db w3)) u v" unfolding contact_of_def
        by (rule exI [of _ y]) (use ad in \<open>simp add: added_def yy new_contact_def\<close>)
      moreover have "frame (contact_row u v) w2 w3"
        by (rule frame_added [OF ad]) (simp add: contact_row_def yy new_contact_def)
      moreover have "st_redis w3 = st_redis w1" using ad w2 unfolding added_def same_def by simp
      moreover have "unique_rows (rows (st_db w3))"
        using ad uniq1 same_rows [OF w2] unfolding added_def by argo
      ultimately show "Q () w3" by (intro Q1) (use w2 in \<open>simp add: befriended_def same_def frame_def\<close>)
    qed (use X in auto)
    have "wp (attempt (LastUnscoped E contacts (\<lambda>c. uc_user_id c = u \<and> uc_contact_id c = v \<and> uc_deleted_at c \<noteq> None)) (\<lambda>r. case r of
           Inr history \<Rightarrow>
             UpdatesUnscoped E contacts (\<lambda>c. uc_id c = uc_id history)
               (\<lambda>c. c\<lparr>uc_deleted_at := None, uc_status := contact_NORMAL, uc_update_at := e_now E\<rparr>)
         | Inl _ \<Rightarrow> bnd (Create E contacts (new_contact u v ctype (e_now E))) (\<lambda>_. ret ()))) Q X w1"
      unfolding wp_attempt
      by (rule wp_LastUnscoped [OF contacts.table_axioms])
         (use found fresh in \<open>simp_all add: wp_simps\<close>)
    with False show ?thesis by simp
  qed
qed (use X in auto)

end

context database
begin

lemma befriended_keeps:
  assumes "befriended u v w w'" and "contact_of (rows (st_db w)) a b"
  shows "contact_of (rows (st_db w')) a b"
proof (cases "a = u \<and> b = v")
  case True
  with assms(1) show ?thesis by (simp add: befriended_def)
next
  case False
  obtain c where c: "RContact c \<in> set (rows (st_db w))" "uc_user_id c = a" "uc_contact_id c = b"
    "uc_deleted_at c = None" "uc_status c = contact_NORMAL"
    using assms(2) unfolding contact_of_def by blast
  have "frame (contact_row u v) w w'" using assms(1) by (simp add: befriended_def)
  from frame_rows [OF this, of "RContact c"] have "RContact c \<in> set (rows (st_db w'))"
    using False c by (auto simp: contact_row_def)
  with c show ?thesis unfolding contact_of_def by blast
qed

lemma befriended_members:
  assumes "befriended u v w w'"
  shows "RMember m \<in> set (rows (st_db w')) \<longleftrightarrow> RMember m \<in> set (rows (st_db w))"
  using assms unfolding befriended_def by (intro frame_rows [of "contact_row u v"]) (simp_all add: contact_row_def)

lemma wp_befriend_both:
  assumes "unique_rows (rows (st_db w))"
    and "\<And>w'. contact_of (rows (st_db w')) a b \<Longrightarrow> contact_of (rows (st_db w')) b a \<Longrightarrow> st_redis w' = st_redis w \<Longrightarrow> Q () w'"
    and "\<And>e w'. X e w'"
  shows "wp (for_each [(a, b), (b, a)] (\<lambda>(u, c). restoreOrCreateContact E u c ctype)) Q X w"
  unfolding for_each.simps wp_bnd prod.case wp_ret
proof (rule wp_restoreOrCreateContact [OF assms(1)], goal_cases)
  case (1 w1)
  show ?case
  proof (rule wp_restoreOrCreateContact, goal_cases)
    case 1
    show ?case using \<open>befriended a b w w1\<close> by (simp add: befriended_def)
  next
    case (2 w2)
    then show ?case using 1 befriended_keeps [OF 2, of a b] by (intro assms(2)) (simp_all add: befriended_def)
  qed (rule assms(3))
qed (rule assms(3))

lemma applies_update:
  assumes "changed (scoped applies P) (on_row applies f) w w'"
  shows "(one_row (rows (st_db w)) \<longrightarrow> one_row (rows (st_db w'))) \<and>
    (removed (rows (st_db w')) g u \<longleftrightarrow> removed (rows (st_db w)) g u) \<and>
    (unique_rows (rows (st_db w)) \<longrightarrow> unique_rows (rows (st_db w'))) \<and> st_redis w' = st_redis w"
proof -
  have "RMember m \<in> set (rows (st_db w')) \<longleftrightarrow> RMember m \<in> set (rows (st_db w))" for m
    by (rule changed_other [OF assms _ _ applies.table_axioms]) (auto simp: applies.scoped_iff)
  then have "one_row (rows (st_db w)) \<longrightarrow> one_row (rows (st_db w'))"
    "removed (rows (st_db w')) g u \<longleftrightarrow> removed (rows (st_db w)) g u"
    unfolding one_row_def removed_def by simp_all
  with assms show ?thesis unfolding changed_def by blast
qed

end

definition passed :: "uuid \<Rightarrow> uuid \<Rightarrow> row list \<Rightarrow> answer \<Rightarrow> row list \<Rightarrow> bool" where
  "passed g u rs a rs' \<longleftrightarrow>
     (if a = (Msg ''contact added'', 0) then contact_of rs' g u \<and> contact_of rs' u g
      else if a = (Msg ''member added'', 0) then is_member rs' g u \<and> contact_of rs' u g \<and> \<not> removed rs g u
      else snd a \<noteq> 0 \<and> rs' = rs)"

context backend
begin

lemma PassContactApply_wp:
  assumes uniq: "unique_rows (rows (st_db w))" and one: "one_row (rows (st_db w))" and reads: "reads_ok E"
  shows "wp (PassContactApply E g u) (\<lambda>a w'. passed g u (rows (st_db w)) a (rows (st_db w')))
    (\<lambda>a w'. passed g u (rows (st_db w)) a (rows (st_db w'))) w"
proof -
  let ?F = "\<lambda>a w'. passed g u (rows (st_db w)) a (rows (st_db w'))"
  have fail: "?F a w'" if "rows (st_db w') = rows (st_db w)" "snd a < 0" for a w'
    using that by (auto simp: passed_def)
  have sys: "?F system_error w'" if "rows (st_db w') = rows (st_db w)" for w'
    unfolding system_error_def by (rule fail [OF that]) simp
  show ?thesis
    unfolding PassContactApply_def
  proof (rule wp_seq [where R = "\<lambda>_ w1. rows (st_db w1) = rows (st_db w)"], goal_cases)
    case 1
    show ?case unfolding wp_or_throw
      by (rule wp_First [OF applies.table_axioms]) (auto simp: same_def intro: sys)
  next
    case (2 ap w1)
    note rw1 = this
    let ?both = "\<lambda>rs. contact_of rs g u \<and> contact_of rs u g"
    let ?grp = "\<lambda>rs. is_member rs g u \<and> contact_of rs u g \<and> \<not> removed (rows (st_db w)) g u"
    have user_tx: "wp (transaction E (
         bnd (UpdatesRow E applies ap (\<lambda>a. a\<lparr>ca_status := apply_AGREE\<rparr>)) (\<lambda>_.
         for_each [(g, u), (u, g)] (\<lambda>(u, c). restoreOrCreateContact E u c type_USER))))
        (\<lambda>_. on_rows ?both) (\<lambda>_. ?F system_error) w2" if w2: "rows (st_db w2) = rows (st_db w)" for w2
    proof (rule wp_transaction, unfold wp_bnd, rule wp_UpdatesRow, goal_cases)
      case (1 w3 w4)
      have "unique_rows (rows (st_db w4))"
        using applies_update [OF 1(2)] uniq w2 same_rows [OF 1(1)] by simp
      then show ?case
        by (rule wp_befriend_both) (auto simp: on_rows_def same_def w2 intro: sys)
    qed (auto simp: same_def w2 intro: sys)
    have group_tx: "wp (transaction E (
         bnd (UpdatesRow E applies ap (\<lambda>a. a\<lparr>ca_status := apply_AGREE\<rparr>)) (\<lambda>_.
         bnd (addMember E g u role_MEMBER) (\<lambda>_.
         restoreOrCreateContact E u g type_GROUP))))
        (\<lambda>_. on_rows ?grp) (\<lambda>e w'. rows (st_db w') = rows (st_db w)) w2" if w2: "rows (st_db w2) = rows (st_db w)" for w2
    proof (rule wp_transaction, unfold wp_bnd, rule wp_UpdatesRow, goal_cases)
      case (1 w3 w4)
      note up = applies_update [OF 1(2), of g u]
      have r3: "rows (st_db w3) = rows (st_db w)" using same_rows [OF 1(1)] w2 by simp
      have st: "one_row (rows (st_db w4))" "unique_rows (rows (st_db w4))" using up one uniq r3 by simp_all
      show ?case
      proof (cases "removed (rows (st_db w4)) g u")
        case True
        show ?thesis
          by (rule wp_addMember_removed [OF st(1) True reads]) (auto simp: w2)
      next
        case False
        show ?thesis
        proof (rule wp_addMember [OF st reads], goal_cases)
          case (1 w5)
          then obtain m where m: "RMember m \<in> set (rows (st_db w5))" "gm_group_id m = g" "gm_user_id m = u"
              "gm_deleted_at m = 0" "gm_status m = member_NORMAL" unfolding joined_def by blast
          have "unique_rows (rows (st_db w5))" using 1 st by (simp add: joined_def)
          then show ?case
          proof (rule wp_restoreOrCreateContact, goal_cases)
            case (1 w6)
            have "is_member (rows (st_db w6)) g u" unfolding is_member_def befriended_members [OF 1] using m by blast
            moreover have "contact_of (rows (st_db w6)) u g" using 1 by (simp add: befriended_def)
            moreover have "\<not> removed (rows (st_db w)) g u" using False up r3 by simp
            ultimately show ?case by (auto simp: on_rows_def same_def w2)
          qed (auto simp: w2)
        qed (auto simp: w2)
      qed
    qed (auto simp: same_def w2)
    show ?case
    proof (cases "ca_contact_type ap = type_USER")
      case True
      have read: "wp (attempt (FindOne E users (\<lambda>ua. ui_uuid ua = u) zero_user)
         (\<lambda>r. ret (case r of Inr u \<Rightarrow> u | Inl _ \<Rightarrow> zero_user))) (\<lambda>_ w2. rows (st_db w2) = rows (st_db w)) ?F w1"
        unfolding wp_attempt
        by (rule wp_FindOne [OF users.table_axioms]) (auto simp: wp_simps same_def rw1)
      have tx: "wp (or_throw (transaction E (
         bnd (UpdatesRow E applies ap (\<lambda>a. a\<lparr>ca_status := apply_AGREE\<rparr>)) (\<lambda>_.
         for_each [(g, u), (u, g)] (\<lambda>(u, c). restoreOrCreateContact E u c type_USER)))) system_error)
         (\<lambda>_. on_rows ?both) ?F w2" if "rows (st_db w2) = rows (st_db w)" for w2
        unfolding wp_or_throw by (rule user_tx [OF that])
      show ?thesis
        unfolding if_P [OF True]
      proof (rule wp_seq [OF read], rule wp_seq [where R = "\<lambda>_ w2. rows (st_db w2) = rows (st_db w)"], goal_cases)
        case 1
        then show ?case by (auto simp: wp_guard intro: fail)
      next
        case 2
        then show ?case
          by - (rule wp_seq [OF tx], assumption, (rule wp_tail, assumption)+, simp add: wp_ret on_rows_def passed_def)
      qed
    next
      case False
      have tx: "wp (attempt (transaction E (
         bnd (UpdatesRow E applies ap (\<lambda>a. a\<lparr>ca_status := apply_AGREE\<rparr>)) (\<lambda>_.
         bnd (addMember E g u role_MEMBER) (\<lambda>_.
         restoreOrCreateContact E u g type_GROUP))))
         (\<lambda>r. case r of
            Inr _ \<Rightarrow> ret ()
          | Inl e \<Rightarrow> throw (if e = ErrMemberKicked then (Msg ''removed by the owner'', -2) else system_error)))
         (\<lambda>_. on_rows ?grp) ?F w1"
        unfolding wp_attempt sum.case wp_ret wp_throw
        by (rule wp_mono [OF group_tx [OF rw1]]) (auto intro: sys fail)
      show ?thesis
        unfolding if_not_P [OF False]
        by (rule wp_seq [OF tx], (rule wp_tail, assumption)+, simp add: wp_ret on_rows_def passed_def)
    qed
  qed
qed

end

text \<open>Accepting an application as the owner of a user's or a group's inbox: the answer says
  "contact added" only when both sides now list each other, and "member added" only when the
  applicant is a normal member with the group in the list and has never been removed from it. Every
  other answer is a failure, and the database is as before. The call always ends.\<close>

theorem pass_apply:
  assumes "backend E rows str_at set_at pages"
    and "unique_rows (rows (st_db w))" and "one_row (rows (st_db w))" and "reads_ok E"
  shows "\<exists>a w'. answer (PassContactApply E g u) w = Some (a, w') \<and>
    passed g u (rows (st_db w)) a (rows (st_db w'))"
  by (rule wp_answer [OF backend.PassContactApply_wp [OF assms]])

lemma unique_rows_demo: "unique_rows (md_rows (st_db demo))"
  by (simp add: demo_defs unique_rows_def conflict_def)

lemmas apply_run_defs = ApplyContact_def not_found_or_def starts_with_def find_or_new_apply_def new_apply_def
  PassContactApply_def restoreOrCreateContact_def

theorem pass_apply_witness:
  "\<exists>w w'. answer (ApplyContact (mem_env_reads 5) \<lparr>ap_OwnerId = ''U2'', ap_ContactId = ''U1'', ap_Message = []\<rparr> ''r'') demo
       = Some ((Msg ''applied'', 0), w) \<and>
     answer (PassContactApply (mem_env_reads 6) ''U1'' ''U2'') w = Some ((Msg ''contact added'', 0), w') \<and>
     contact_of (md_rows (st_db w')) ''U1'' ''U2'' \<and> contact_of (md_rows (st_db w')) ''U2'' ''U1''"
proof -
  let ?req = "\<lparr>ap_OwnerId = ''U2'', ap_ContactId = ''U1'', ap_Message = []\<rparr>"
  obtain w where w: "answer (ApplyContact (mem_env_reads 5) ?req ''r'') demo = Some ((Msg ''applied'', 0), w)"
      "unique_rows (md_rows (st_db w))" "one_row (md_rows (st_db w))"
      "\<exists>w'. answer (PassContactApply (mem_env_reads 6) ''U1'' ''U2'') w = Some ((Msg ''contact added'', 0), w')"
    by (simp add: apply_run_defs run_defs demo_defs List.map_filter_simps one_row_distinct)
  from pass_apply [OF mem_backend w(2,3) reads_ok_mem, of 6 "''U1''" "''U2''"] w(1,4)
  show ?thesis by (auto simp: passed_def)
qed

end
