(* ===== verification/Random_Ids.thy ===== *)
theory Random_Ids
  imports Go_Strings
begin

text \<open>
  \<open>pkg/util/random\<close>: the identifiers of users, groups, sessions, messages and files. The result of
  \<open>rand.Intn\<close> and the local time zone are arguments. The columns that hold an identifier are
  \<open>char(20)\<close>: one letter, the date and eleven digits fill it exactly.
\<close>

definition intn_ok :: "int \<Rightarrow> nat \<Rightarrow> bool" where
  "intn_ok r n \<longleftrightarrow> 0 \<le> r \<and> r < 9 * 10 ^ (n - 1)"

definition GetRandomInt :: "int \<Rightarrow> nat \<Rightarrow> int" where
  "GetRandomInt r n = r + 10 ^ (n - 1)"

definition GetNowAndLenRandomString :: "time \<Rightarrow> time \<Rightarrow> int \<Rightarrow> nat \<Rightarrow> string" where
  "GetNowAndLenRandomString tz now r n = format_date tz now @ itoa (GetRandomInt r n)"

section \<open>Lengths\<close>

lemma length_itoa_random:
  assumes "intn_ok r n" and "0 < n"
  shows "length (itoa (GetRandomInt r n)) = n"
proof -
  obtain k where n: "n = Suc k" using assms(2) by (cases n) auto
  have "10 ^ k \<le> GetRandomInt r n" "GetRandomInt r n < 10 ^ Suc k"
    using assms(1) by (simp_all add: intn_ok_def GetRandomInt_def n)
  then have b: "10 ^ k \<le> nat (GetRandomInt r n)" "nat (GetRandomInt r n) < 10 ^ Suc k" and pos: "0 \<le> GetRandomInt r n"
    using zero_le_power [of "10 :: int" k] by (auto simp: nat_less_iff le_nat_iff intro: order_trans)
  have "length (nat_digits (nat (GetRandomInt r n))) = Suc k"
    unfolding length_nat_digits using b by (cases k) auto
  with pos show ?thesis by (simp add: itoa_def n)
qed

lemma length_pad2: "n < 100 \<Longrightarrow> length (pad2 n) = 2"
proof -
  assume "n < 100"
  have "length (nat_digits (nat n)) = Suc 0" if "n < 10"
    unfolding length_nat_digits using that by simp
  moreover have "length (nat_digits (nat n)) = Suc 1" if "\<not> n < 10"
    unfolding length_nat_digits using that \<open>n < 100\<close> by auto
  ultimately show ?thesis by (simp add: pad2_def)
qed

lemma length_nat_digits_le: "n < 10 ^ Suc k \<Longrightarrow> length (nat_digits n) \<le> Suc k"
proof (induction k)
  case 0
  then show ?case using length_nat_digits [of n 0] by simp
next
  case (Suc k)
  show ?case
  proof (cases "n < 10 ^ Suc k")
    case True
    with Suc.IH show ?thesis by simp
  next
    case False
    then have "length (nat_digits n) = Suc (Suc k)" unfolding length_nat_digits using Suc.prems by simp
    then show ?thesis by simp
  qed
qed

lemma length_pad4: "n < 10000 \<Longrightarrow> length (pad4 n) = 4"
  using length_nat_digits_le [of "nat n" 3] by (simp add: pad4_def Let_def)

text \<open>Rough bounds on the parts of a date are enough for the widths.\<close>

lemma civil_bounds:
  assumes "civil_from_days d = (y, m, day)" and "0 \<le> d" and "d < 2932000"
  shows "y < 10000" and "m < 100" and "day < 100"
proof -
  define z where "z = d + 719468"
  define era where "era = z div 146097"
  define doe where "doe = z mod 146097"
  define yoe where "yoe = (doe - doe div 1460 + doe div 36524 - doe div 146096) div 365"
  define doy where "doy = doe - (365 * yoe + yoe div 4 - yoe div 100)"
  define mp where "mp = (5 * doy + 2) div 153"
  have eqs: "y = yoe + era * 400 + (if (if mp < 10 then mp + 3 else mp - 9) \<le> 2 then 1 else 0)"
      "m = (if mp < 10 then mp + 3 else mp - 9)" "day = doy - (153 * mp + 2) div 5 + 1"
    using assms(1) [symmetric]
    unfolding civil_from_days_def Let_def z_def [symmetric] era_def [symmetric] doe_def [symmetric]
      yoe_def [symmetric] doy_def [symmetric] mp_def [symmetric] by (blast dest: prod.inject [THEN iffD1])+
  have z: "z = 146097 * era + doe" "0 \<le> doe" "doe < 146097"
    unfolding era_def doe_def by simp_all
  have zb: "0 \<le> z" "z < 3651468" using assms(2,3) by (simp_all add: z_def)
  have a: "365 * yoe \<le> doe - doe div 1460 + doe div 36524 - doe div 146096"
    and b: "doe - doe div 1460 + doe div 36524 - doe div 146096 < 365 * yoe + 365"
    unfolding yoe_def by linarith+
  have parts: "0 \<le> doe div 1460" "doe div 1460 \<le> 100" "0 \<le> doe div 36524" "doe div 36524 \<le> 4"
      "0 \<le> doe div 146096" "doe div 146096 \<le> 1"
    using z(2,3) by (linarith | simp add: pos_imp_zdiv_nonneg_iff)+
  have yoe: "0 \<le> yoe" "yoe \<le> 401" using a b z(2,3) parts by linarith+
  then have cent: "0 \<le> yoe div 4" "yoe div 100 \<le> 4" by (linarith | simp add: pos_imp_zdiv_nonneg_iff)+
  have doy: "doy < 3000" unfolding doy_def using b z(2) parts cent by linarith
  have "mp < 100" unfolding mp_def using doy by linarith
  then show "m < 100" unfolding eqs by auto
  show "day < 100" unfolding eqs(3) mp_def using doy by linarith
  have "era \<le> 24" using z zb by linarith
  moreover have "yoe \<le> 400" using a z(2,3) parts by linarith
  moreover have "yoe \<le> 398" if "era = 24"
  proof -
    have "doe < 145140" using z(1) zb(2) that by linarith
    moreover have "doe - doe div 1460 + doe div 36524 \<le> doe + 4" using parts by linarith
    ultimately show ?thesis using a parts by linarith
  qed
  ultimately show "y < 10000" unfolding eqs(1) by (cases "era = 24") auto
qed

lemma length_format_date:
  assumes "0 \<le> now + tz" and "now + tz < 2932000 * 86400 * second"
  shows "length (format_date tz now) = 8"
proof -
  obtain y m d where ymd: "civil_from_days ((now + tz) div (86400 * second)) = (y, m, d)"
    by (metis prod_cases3)
  have "0 \<le> (now + tz) div (86400 * second)" using assms(1) by (simp add: pos_imp_zdiv_nonneg_iff)
  moreover have "(now + tz) div (86400 * second) < 2932000" using assms(2)
    by (simp add: algebra_simps)
  ultimately have "0 \<le> (now + tz) div (86400 * second)" "(now + tz) div (86400 * second) < 2932000" by blast+
  from civil_bounds [OF ymd this] show ?thesis
    unfolding format_date_def ymd by (simp add: length_pad2 length_pad4)
qed

text \<open>Until the year 9997 an identifier made of one letter, the date and eleven random digits has
  twenty characters: it fits its column, whatever the random number.\<close>

theorem identifier_fits_column:
  assumes "0 \<le> now + tz" and "now + tz < 2932000 * 86400 * second" and "intn_ok r 11"
  shows "length (c # GetNowAndLenRandomString tz now r 11) = 20"
  using length_format_date [OF assms(1,2)] length_itoa_random [OF assms(3)]
  by (simp add: GetNowAndLenRandomString_def)

theorem identifier_fits_column_witness:
  "length (CHR ''U'' # GetNowAndLenRandomString 28800000000000 1700000000000000000 12345 11) = 20"
  by (rule identifier_fits_column) (simp_all add: intn_ok_def)

end
