(* ===== verification/Session_Service.thy ===== *)
theory Session_Service
  imports Contact_Service Random_Ids
begin

text \<open>
  \<open>service/gorm/session_service.go\<close> and \<open>service/gorm/chatroom_service.go\<close>: opening, creating,
  listing and deleting the sessions of a user. A session belongs to the side that sends; the
  session of a pair is cached as JSON, the lists of sessions by owner.
\<close>

record SessionRequest =
  sq_SendId :: uuid
  sq_ReceiveId :: uuid

section \<open>Creating\<close>

definition default_session_avatar :: string where
  "default_session_avatar = ''default_avatar.png''"

text \<open>GORM writes the default of a column in place of an empty value on insert.\<close>

definition new_session :: "SessionRequest \<Rightarrow> string \<Rightarrow> string \<Rightarrow> string \<Rightarrow> time \<Rightarrow> Session" where
  "new_session req sid name avatar now =
     \<lparr>se_id = 0, se_uuid = sid, se_send_id = sq_SendId req, se_receive_id = sq_ReceiveId req,
      se_receive_name = name, se_avatar = (if avatar = [] then default_session_avatar else avatar),
      se_last_message = [], se_last_message_at = None, se_created_at = now, se_deleted_at = None\<rparr>"

text \<open>The name and the avatar of the receiving side, unless it is disabled.\<close>

definition receiver ::
  "('d, 'r) env \<Rightarrow> uuid \<Rightarrow> ('d, 'r, string data_answer, string \<times> string) svc" where
  "receiver E receiveId =
     (if receiveId = [] then throw (Panicked, [], 500)
      else if starts_with (CHR ''U'') receiveId then
        bnd (or_throw (First E users (\<lambda>u. ui_uuid u = receiveId)) (SystemError, [], -1)) (\<lambda>u.
        if ui_status u = user_DISABLE then throw (Msg ''user disabled'', [], -2)
        else ret (ui_nickname u, ui_avatar u))
      else
        bnd (or_throw (First E groups (\<lambda>g. gi_uuid g = receiveId)) (SystemError, [], -1)) (\<lambda>g.
        if gi_status g = group_DISABLE then throw (Msg ''group disabled'', [], -2)
        else ret (gi_name g, gi_avatar g)))"

definition between :: "uuid \<Rightarrow> uuid \<Rightarrow> Message \<Rightarrow> bool" where
  "between a b m \<longleftrightarrow> (ms_send_id m = a \<and> ms_receive_id m = b) \<or> (ms_send_id m = b \<and> ms_receive_id m = a)"

text \<open>The summary of the latest message is filled in when it can be read; errors are ignored.\<close>

definition fill_last_message :: "('d, 'r) env \<Rightarrow> SessionRequest \<Rightarrow> Session \<Rightarrow> ('d, 'r, 'e, unit) svc" where
  "fill_last_message E req s =
     attempt (Last E messages (between (sq_SendId req) (sq_ReceiveId req))) (\<lambda>r. case r of
       Inl _ \<Rightarrow> ret ()
     | Inr latest \<Rightarrow> logged (UpdatesRow E sessions s
         (\<lambda>x. x\<lparr>se_last_message := ms_content latest, se_last_message_at := Some (ms_created_at latest)\<rparr>)))"

definition CreateSession ::
  "('d, 'r) env \<Rightarrow> time \<Rightarrow> int \<Rightarrow> SessionRequest \<Rightarrow> ('d, 'r, string data_answer, string data_answer) svc" where
  "CreateSession E tz rnd req =
     bnd (or_throw (First E users (\<lambda>u. ui_uuid u = sq_SendId req)) (SystemError, [], -1)) (\<lambda>_.
     let sid = CHR ''S'' # GetNowAndLenRandomString tz (e_now E) rnd 11 in
     bnd (receiver E (sq_ReceiveId req)) (\<lambda>(name, avatar).
     bnd (or_throw (Create E sessions (new_session req sid name avatar (e_now E))) (SystemError, [], -1)) (\<lambda>s.
     bnd (fill_last_message E req s) (\<lambda>_.
     bnd (logged (DelPattern E (''group_session_list_'' @ sq_SendId req))) (\<lambda>_.
     bnd (logged (DelPattern E (''session_list_'' @ sq_SendId req))) (\<lambda>_.
     ret (Msg ''session created'', sid, 0)))))))"

definition CheckOpenSessionAllowed ::
  "('d, 'r) env \<Rightarrow> uuid \<Rightarrow> uuid \<Rightarrow> ('d, 'r, bool data_answer, bool data_answer) svc" where
  "CheckOpenSessionAllowed E sendId receiveId =
     bnd (or_throw (First E contacts (\<lambda>c. uc_user_id c = sendId \<and> uc_contact_id c = receiveId)) (SystemError, False, -1)) (\<lambda>contact.
     bnd (guard (uc_status contact \<noteq> contact_BE_BLACK) (Msg ''blocked by the other side'', False, -2)) (\<lambda>_.
     bnd (guard (uc_status contact \<noteq> contact_BLACK) (Msg ''blocked by you'', False, -2)) (\<lambda>_.
     if receiveId = [] then throw (Panicked, False, 500)
     else if starts_with (CHR ''U'') receiveId then
       bnd (or_throw (First E users (\<lambda>u. ui_uuid u = receiveId)) (SystemError, False, -1)) (\<lambda>user.
       bnd (guard (ui_status user \<noteq> user_DISABLE) (Msg ''other side disabled'', False, -2)) (\<lambda>_.
       ret (Msg ''allowed'', True, 0)))
     else
       bnd (or_throw (First E groups (\<lambda>g. gi_uuid g = receiveId)) (SystemError, False, -1)) (\<lambda>group.
       bnd (guard (gi_status group \<noteq> group_DISABLE) (Msg ''other side disabled'', False, -2)) (\<lambda>_.
       ret (Msg ''allowed'', True, 0))))))"

section \<open>The cached session\<close>

text \<open>\<open>model.Session\<close> has no JSON tags: the keys are the field names, nullable times are structs
  or \<open>null\<close>, and \<open>rfc3339\<close> is how times are written. Only the uuid is read back.\<close>

definition null_time_json :: "(time \<Rightarrow> string) \<Rightarrow> time option \<Rightarrow> json" where
  "null_time_json rfc3339 t =
     JObj [(''Time'', JStr (rfc3339 (case t of None \<Rightarrow> -62135596800 * second | Some x \<Rightarrow> x))),
           (''Valid'', JBool (t \<noteq> None))]"

definition deleted_at_json :: "(time \<Rightarrow> string) \<Rightarrow> time option \<Rightarrow> json" where
  "deleted_at_json rfc3339 t = (case t of None \<Rightarrow> JNull | Some x \<Rightarrow> JStr (rfc3339 x))"

definition session_json :: "(time \<Rightarrow> string) \<Rightarrow> Session \<Rightarrow> json" where
  "session_json rfc3339 s =
     JObj [(''Id'', JNum (itoa (se_id s))), (''Uuid'', JStr (se_uuid s)), (''SendId'', JStr (se_send_id s)),
       (''ReceiveId'', JStr (se_receive_id s)), (''ReceiveName'', JStr (se_receive_name s)),
       (''Avatar'', JStr (se_avatar s)), (''LastMessage'', JStr (se_last_message s)),
       (''LastMessageAt'', null_time_json rfc3339 (se_last_message_at s)),
       (''CreatedAt'', JStr (rfc3339 (se_created_at s))), (''DeletedAt'', deleted_at_json rfc3339 (se_deleted_at s))]"

definition decode_session_uuid :: "string \<Rightarrow> uuid" where
  "decode_session_uuid s = fst (json_unmarshal [(''Uuid'', set_string (\<lambda>v _. v))] s [])"

definition session_key :: "SessionRequest \<Rightarrow> string" where
  "session_key req = ''session_'' @ sq_SendId req @ ''_'' @ sq_ReceiveId req"

definition OpenSession ::
  "('d, 'r) env \<Rightarrow> time \<Rightarrow> (time \<Rightarrow> string) \<Rightarrow> int \<Rightarrow> SessionRequest \<Rightarrow>
   ('d, 'r, string data_answer, string data_answer) svc" where
  "OpenSession E tz rfc3339 rnd req = attempt (GetCache E (session_key req)) (\<lambda>r. case r of
       Inr s \<Rightarrow> ret (Msg ''session created'', decode_session_uuid s, 0)
     | Inl RedisNil \<Rightarrow>
         attempt (First E sessions (\<lambda>s. se_send_id s = sq_SendId req \<and> se_receive_id s = sq_ReceiveId req)) (\<lambda>r. case r of
           Inl e \<Rightarrow> if e = NotFound then CreateSession E tz rnd req else throw (SystemError, [], -1)
         | Inr s \<Rightarrow>
             bnd (logged (SetCache E (session_key req) (json_print (session_json rfc3339 s)) redis_timeout)) (\<lambda>_.
             ret (Msg ''session created'', se_uuid s, 0)))
     | Inl _ \<Rightarrow> throw (SystemError, [], -1))"

section \<open>Lists\<close>

text \<open>The sessions of the owner whose receiver is of the kind of the letter; an empty receiver
  panics.\<close>

definition sessions_of ::
  "('d, 'r) env \<Rightarrow> uuid \<Rightarrow> char \<Rightarrow> (Session \<Rightarrow> 's) \<Rightarrow> msg \<Rightarrow> ('d, 'r, 's list data_answer, 's list) svc" where
  "sessions_of E ownerId kind f none =
     bnd (attempt (Find E sessions (\<lambda>s. se_send_id s = ownerId)) (\<lambda>r. case r of
         Inl e \<Rightarrow> throw (if e = NotFound then (none, [], 0) else (SystemError, [], -1))
       | Inr ss \<Rightarrow> ret (sort_key (\<lambda>s. - se_created_at s) ss))) (\<lambda>ss.
     bnd (guard (list_all (\<lambda>s. se_receive_id s \<noteq> []) ss) (Panicked, [], 500)) (\<lambda>_.
     ret (map f (filter (\<lambda>s. starts_with kind (se_receive_id s)) ss))))"

definition GetUserSessionList ::
  "('d, 'r) env \<Rightarrow> uuid \<Rightarrow>
   ('d, 'r, UserSessionListRespond list data_answer, UserSessionListRespond list data_answer) svc" where
  "GetUserSessionList E ownerId =
     cached_list E (''session_list_'' @ ownerId) user_session_json user_session_fields zero_user_session (Msg ''loaded'')
       (sessions_of E ownerId (CHR ''U'')
         (\<lambda>s. \<lparr>us_SessionId = se_uuid s, us_Avatar = se_avatar s, us_UserId = se_receive_id s,
               us_Username = se_receive_name s\<rparr>) (Msg ''no user sessions''))"

definition GetGroupSessionList ::
  "('d, 'r) env \<Rightarrow> uuid \<Rightarrow>
   ('d, 'r, GroupSessionListRespond list data_answer, GroupSessionListRespond list data_answer) svc" where
  "GetGroupSessionList E ownerId =
     cached_list E (''group_session_list_'' @ ownerId) group_session_json group_session_fields zero_group_session (Msg ''loaded'')
       (sessions_of E ownerId (CHR ''G'')
         (\<lambda>s. \<lparr>gs_SessionId = se_uuid s, gs_GroupName = se_receive_name s, gs_GroupId = se_receive_id s,
               gs_Avatar = se_avatar s\<rparr>) (Msg ''no group sessions''))"

section \<open>Deleting\<close>

definition zero_session :: Session where
  "zero_session = \<lparr>se_id = 0, se_uuid = [], se_send_id = [], se_receive_id = [], se_receive_name = [],
     se_avatar = [], se_last_message = [], se_last_message_at = None, se_created_at = 0, se_deleted_at = None\<rparr>"

text \<open>\<open>Find\<close> into a struct leaves the zero value when no session has the uuid; saving it inserts a
  row, with the default avatar and the time of the insert.\<close>

definition DeleteSession :: "('d, 'r) env \<Rightarrow> uuid \<Rightarrow> uuid \<Rightarrow> ('d, 'r, answer, answer) svc" where
  "DeleteSession E ownerId sessionId =
     bnd (or_throw (FindOne E sessions (\<lambda>s. se_uuid s = sessionId) zero_session) system_error) (\<lambda>s.
     let deleted = s\<lparr>se_deleted_at := Some (e_now E)\<rparr>;
         saved = (if se_id s = 0 then deleted\<lparr>se_avatar := default_session_avatar, se_created_at := e_now E\<rparr> else deleted) in
     bnd (or_throw (Save E sessions saved) system_error) (\<lambda>_.
     bnd (logged (DelIfExists E (''session_'' @ se_send_id s @ ''_'' @ se_receive_id s))) (\<lambda>_.
     bnd (logged (DelPattern E (''group_session_list_'' @ ownerId))) (\<lambda>_.
     bnd (logged (DelPattern E (''session_list_'' @ ownerId))) (\<lambda>_.
     ret (Msg ''deleted'', 0))))))"

section \<open>Chat rooms\<close>

text \<open>Nothing in the code adds to the map of chat rooms.\<close>

definition chatRooms :: "((uuid \<times> uuid) \<times> uuid list) list" where
  "chatRooms = []"

definition GetCurContactListInChatRoom ::
  "((uuid \<times> uuid) \<times> uuid list) list \<Rightarrow> uuid \<Rightarrow> uuid \<Rightarrow> uuid list data_answer" where
  "GetCurContactListInChatRoom rooms ownerId contactId =
     (Msg ''loaded'', case map_of rooms (ownerId, contactId) of None \<Rightarrow> [] | Some cs \<Rightarrow> cs, 0)"

end
