(* ===== verification/Session_Safety.thy ===== *)
theory Session_Safety
  imports Session_Service Contact_Safety
begin

text \<open>
  What the session services guarantee: opening a session twice gives the same session, through the
  cache or not; nobody opens a session across a block; and two places where the cache and the
  database part, which the code does not repair.
\<close>

section \<open>The session in the cache\<close>

definition int64 :: "int \<Rightarrow> bool" where
  "int64 i \<longleftrightarrow> - (2 ^ 63) \<le> i \<and> i < 2 ^ 63"

lemma decode_session:
  assumes "int64 (se_id s)"
  shows "decode_session_uuid (json_print (session_json rfc3339 s)) = se_uuid s"
proof -
  have "json_ok (JNum (itoa (se_id s)))" using assms by (intro json_ok_int) (simp_all add: int64_def)
  then have ok: "json_ok (session_json rfc3339 s)"
    by (simp add: session_json_def null_time_json_def deleted_at_json_def split: option.split)
  then show ?thesis
    unfolding decode_session_uuid_def json_unmarshal_def json_roundtrip [OF ok]
    by (simp add: session_json_def find_field_def to_lower_def to_lower_char_def)
qed

section \<open>Opening twice\<close>

definition session_for :: "SessionRequest \<Rightarrow> Session \<Rightarrow> bool" where
  "session_for req s \<longleftrightarrow> se_send_id s = sq_SendId req \<and> se_receive_id s = sq_ReceiveId req"

text \<open>The session the database answers with: the oldest live one of the pair.\<close>

definition is_opened :: "row list \<Rightarrow> SessionRequest \<Rightarrow> uuid \<Rightarrow> bool" where
  "is_opened rs req sid \<longleftrightarrow>
     (\<exists>s. RSession s \<in> set rs \<and> se_deleted_at s = None \<and> session_for req s \<and> se_uuid s = sid \<and>
       (\<forall>s'. RSession s' \<in> set rs \<longrightarrow> se_deleted_at s' = None \<longrightarrow> session_for req s' \<longrightarrow> se_id s \<le> se_id s'))"

context backend
begin

lemma wp_First_least:
  assumes "table T"
    and "\<And>x w'. same w w' \<Longrightarrow> tb_row T x \<in> set (rows (st_db w)) \<Longrightarrow> live_row (tb_row T x) \<Longrightarrow> P x \<Longrightarrow>
      (\<And>y. tb_row T y \<in> set (rows (st_db w)) \<Longrightarrow> live_row (tb_row T y) \<Longrightarrow> P y \<Longrightarrow>
         row_id (tb_row T x) \<le> row_id (tb_row T y)) \<Longrightarrow> Q x w'"
    and "\<And>w'. same w w' \<Longrightarrow> (\<And>x. tb_row T x \<in> set (rows (st_db w)) \<Longrightarrow> live_row (tb_row T x) \<Longrightarrow> \<not> P x) \<Longrightarrow> X NotFound w'"
    and "\<And>w'. same w w' \<Longrightarrow> \<not> reads_ok E \<Longrightarrow> X DbFault w'"
  shows "wp (First E T P) Q X w"
  unfolding First_def wp_simps
proof (rule wp_Find [OF assms(1)])
  fix xs w'
  assume w': "same w w'"
    and xs: "\<And>x. x \<in> set xs \<longleftrightarrow> tb_row T x \<in> set (rows (st_db w)) \<and> live_row (tb_row T x) \<and> P x"
  show "wp (case sort_key (\<lambda>x. row_id (tb_row T x)) xs of [] \<Rightarrow> throw NotFound | x # _ \<Rightarrow> ret x) Q X w'"
    unfolding wp_case_list wp_simps
    by (rule sort_key_head) (use xs in \<open>auto intro!: assms(2,3) [OF w']\<close>)
qed (rule assms(4))

text \<open>The cache holds the session of the pair or nothing.\<close>

definition cache_opened :: "SessionRequest \<Rightarrow> uuid \<Rightarrow> ('d, 'r) stores \<Rightarrow> bool" where
  "cache_opened req sid w \<longleftrightarrow> (\<forall>t \<ge> e_now E. \<forall>v. str_at (st_redis w) t (session_key req) = Some v \<longrightarrow>
     decode_session_uuid v = sid)"

lemma OpenSession_wp:
  assumes "reads_ok E" and op: "is_opened (rows (st_db w)) req sid" and c: "cache_opened req sid w"
    and uniq: "unique_rows (rows (st_db w))" and ids: "\<forall>s. RSession s \<in> set (rows (st_db w)) \<longrightarrow> int64 (se_id s)"
  shows "wp (OpenSession E tz rfc3339 rnd req)
    (\<lambda>r w'. rows (st_db w') = rows (st_db w) \<and> cache_opened req sid w' \<and> r = (Msg ''session created'', sid, 0))
    (\<lambda>r w'. rows (st_db w') = rows (st_db w) \<and> cache_opened req sid w' \<and> r = (SystemError, [], -1)) w"
  unfolding OpenSession_def wp_attempt
proof (rule wp_GetCache, goal_cases)
  case (1 v)
  with c show ?case by (auto simp: wp_ret cache_opened_def)
next
  case 2
  show ?case
    unfolding sum.case redis_error.case wp_attempt
  proof (rule wp_First_least [OF sessions.table_axioms], goal_cases)
    case (1 x w1)
    obtain s where s: "RSession s \<in> set (rows (st_db w))" "se_deleted_at s = None" "session_for req s" "se_uuid s = sid"
        "se_id s \<le> se_id x"
      using op 1(2-4) by (auto simp: is_opened_def session_for_def)
    then have "se_id x = se_id s" using 1(5) [of s] by (simp add: session_for_def)
    then have "x = s" using unique_rowsD [OF uniq s(1), of "RSession x"] 1(2) by (auto simp: conflict_def)
    then have sid: "se_uuid x = sid" using s(4) by simp
    have id: "int64 (se_id x)" using ids 1(2) by simp
    show ?case
      unfolding sum.case wp_bnd wp_logged wp_ret
    proof (rule wp_SetCache, goal_cases)
      case (2 w2)
      with 1(1) sid decode_session [OF id] show ?case by (simp add: same_def cache_opened_def)
    next
      case (3 w2)
      then show ?case using 1(1) sid decode_session [OF id] c
        unfolding cache_opened_def by (fastforce simp: same_def split: if_splits)
    qed simp
  next
    case (2 w1)
    with op show ?case by (auto simp: is_opened_def session_for_def)
  qed (use assms(1) in simp)
next
  case 3
  with c show ?case by (simp add: wp_throw)
qed

end

lemma is_opened_ex:
  assumes "RSession s \<in> set rs" and "se_deleted_at s = None" and "session_for req s"
  shows "\<exists>sid. is_opened rs req sid"
proof -
  let ?S = "{s. RSession s \<in> set rs \<and> se_deleted_at s = None \<and> session_for req s}"
  have "?S \<subseteq> set (List.map_filter (tb_of sessions) rs)"
    by (auto simp: set_map_filter_of [OF sessions.table_axioms])
  then have fin: "finite ?S" by (rule finite_subset) simp
  let ?m = "arg_min_on se_id ?S"
  have ne: "?S \<noteq> {}" using assms by blast
  have "?m \<in> ?S" by (rule arg_min_if_finite(1) [OF fin ne])
  moreover have "se_id ?m \<le> se_id s'" if "s' \<in> ?S" for s'
    by (rule arg_min_least [OF fin ne that])
  ultimately have "is_opened rs req (se_uuid ?m)" unfolding is_opened_def by blast
  then show ?thesis by blast
qed

text \<open>Opening a session again gives the same session: if the pair has a live session and nothing is
  cached for it, the uuid of the first call is that of a live session of the pair, and every later
  call, whether the JSON in the cache or the database answers, returns it again unless the cache
  fails. No row changes.\<close>

theorem open_session_stable:
  assumes "backend E rows str_at set_at pages" and "reads_ok E" and "unique_rows (rows (st_db w))"
    and "\<forall>s. RSession s \<in> set (rows (st_db w)) \<longrightarrow> int64 (se_id s)"
    and "RSession s0 \<in> set (rows (st_db w))" "se_deleted_at s0 = None" "session_for req s0"
    and "\<forall>t \<ge> e_now E. str_at (st_redis w) t (session_key req) = None"
    and "answer (OpenSession E tz rfc3339 r1 req) w = Some ((m, sid, 0), w')" and "e_now E \<le> t"
  shows "(\<exists>s. RSession s \<in> set (rows (st_db w')) \<and> se_deleted_at s = None \<and> session_for req s \<and> se_uuid s = sid) \<and>
    (\<exists>m' sid' c w''. answer (OpenSession (E\<lparr>e_now := t\<rparr>) tz rfc3339 r2 req) w' = Some ((m', sid', c), w'') \<and>
       (c = 0 \<and> sid' = sid \<or> c = -1) \<and> rows (st_db w'') = rows (st_db w))"
proof -
  let ?E = "E\<lparr>e_now := t\<rparr>"
  obtain sid0 where op: "is_opened (rows (st_db w)) req sid0" using is_opened_ex [OF assms(5-7)] by blast
  have c: "backend.cache_opened E str_at req sid0 w"
    using assms(8) by (simp add: backend.cache_opened_def [OF assms(1)])
  have "\<exists>r w'. answer (OpenSession E tz rfc3339 r1 req) w = Some (r, w') \<and> rows (st_db w') = rows (st_db w) \<and>
      backend.cache_opened E str_at req sid0 w' \<and> (snd (snd r) = 0 \<longrightarrow> fst (snd r) = sid0)"
    by (rule wp_answer, rule wp_mono [OF backend.OpenSession_wp [OF assms(1,2) op c assms(3,4)]]) auto
  with assms(9) have rw: "rows (st_db w') = rows (st_db w)" and c': "backend.cache_opened E str_at req sid0 w'" and sid: "sid = sid0"
    by auto
  have R: "backend ?E rows str_at set_at pages" by (rule backend_now [OF assms(1)])
  have reads: "reads_ok ?E" using assms(2) by (simp add: reads_ok_def)
  have c2: "backend.cache_opened ?E str_at req sid0 w'"
    using c' assms(10) unfolding backend.cache_opened_def [OF R] backend.cache_opened_def [OF assms(1)]
    by (simp, meson order_trans)
  have op': "is_opened (rows (st_db w')) req sid0" "unique_rows (rows (st_db w'))"
    "\<forall>s. RSession s \<in> set (rows (st_db w')) \<longrightarrow> int64 (se_id s)" unfolding rw by (rule op assms(3,4))+
  have "\<exists>r w''. answer (OpenSession ?E tz rfc3339 r2 req) w' = Some (r, w'') \<and>
      (snd (snd r) = 0 \<and> fst (snd r) = sid \<or> snd (snd r) = -1) \<and> rows (st_db w'') = rows (st_db w)"
    by (rule wp_answer, rule wp_mono [OF backend.OpenSession_wp [OF R reads op'(1) c2 op'(2,3)]]) (auto simp: sid rw)
  moreover have "\<exists>s. RSession s \<in> set (rows (st_db w')) \<and> se_deleted_at s = None \<and> session_for req s \<and> se_uuid s = sid"
    using op'(1) unfolding is_opened_def sid by blast
  ultimately show ?thesis by fastforce
qed

definition demo_session :: Session where
  "demo_session = zero_session\<lparr>se_id := 8, se_uuid := ''S1'', se_send_id := ''U1'', se_receive_id := ''U2'', se_receive_name := ''U2''\<rparr>"

definition demo_open :: "(mem_db, mem_redis) stores" where
  "demo_open = demo\<lparr>st_db := \<lparr>md_rows = demo_rows @ [RSession demo_session], md_next = 9, md_faults = []\<rparr>\<rparr>"

abbreviation open_req :: SessionRequest where
  "open_req \<equiv> \<lparr>sq_SendId = ''U1'', sq_ReceiveId = ''U2''\<rparr>"

lemmas session_run_defs = OpenSession_def session_key_def demo_open_def demo_session_def zero_session_def

theorem open_session_stable_witness:
  "\<exists>w' m c w''. answer (OpenSession (mem_env_reads 5) 0 (\<lambda>_. ''t'') 1 open_req) demo_open = Some ((Msg ''session created'', ''S1'', 0), w') \<and>
     answer (OpenSession (mem_env_reads 9) 0 (\<lambda>_. ''t'') 2 open_req) w' = Some ((m, ''S1'', c), w'') \<and> c = 0"
proof -
  obtain w' where w': "answer (OpenSession (mem_env_reads 5) 0 (\<lambda>_. ''t'') 1 open_req) demo_open = Some ((Msg ''session created'', ''S1'', 0), w')"
      "\<exists>m v c w''. answer (OpenSession (mem_env_reads 9) 0 (\<lambda>_. ''t'') 2 open_req) w' = Some ((m, v, c), w'') \<and> c = 0"
    by (simp add: run_defs mem_read_def session_run_defs demo_defs List.map_filter_simps)
  have u: "unique_rows (md_rows (st_db demo_open))"
    by (simp add: session_run_defs demo_defs unique_rows_def conflict_def)
  have i: "\<forall>s. RSession s \<in> set (md_rows (st_db demo_open)) \<longrightarrow> int64 (se_id s)"
    and s: "RSession demo_session \<in> set (md_rows (st_db demo_open))" "se_deleted_at demo_session = None"
      "session_for open_req demo_session" "\<forall>t \<ge> 5. mem_str (st_redis demo_open) t (session_key open_req) = None"
    by (auto simp: session_run_defs demo_defs int64_def session_for_def mem_str_def mem_get_def)
  have env: "(mem_env_reads 5)\<lparr>e_now := 9\<rparr> = mem_env_reads 9" by (simp add: mem_env_of_def)
  show ?thesis
    using open_session_stable [OF mem_backend reads_ok_mem u i s(1-3) _ w'(1), of 9 2] s(4) w' unfolding env by fastforce
qed

section \<open>Blocks\<close>

context backend
begin

lemma CheckOpenSessionAllowed_blocked:
  assumes "blocked_row (rows (st_db w)) a b" and "reads_ok E"
  shows "wp (CheckOpenSessionAllowed E a b) (\<lambda>_ _. False)
    (\<lambda>r w'. snd r = (False, -2) \<and> rows (st_db w') = rows (st_db w)) w"
  unfolding CheckOpenSessionAllowed_def wp_bnd wp_or_throw
proof (rule wp_First [OF contacts.table_axioms], goal_cases)
  case (1 c w1)
  with assms(1) have "uc_status c \<in> {contact_BLACK, contact_BE_BLACK}" by (auto simp: blocked_row_def)
  with 1 show ?case by (auto simp: wp_guard same_def)
next
  case (2 w1)
  with assms(1) show ?case by (auto simp: blocked_row_def)
qed (use assms(2) in simp)

end

text \<open>Nobody opens a session across a block: after a successful \<open>BlackContact\<close> between two contacts,
  \<open>CheckOpenSessionAllowed\<close> refuses both of them with code -2.\<close>

theorem blocked_cannot_open:
  assumes "backend E rows str_at set_at pages" and "deletes_ok E" and "reads_ok E"
    and "RContact c \<in> set (rows (st_db w))" "uc_user_id c = a" "uc_contact_id c = b" "uc_deleted_at c = None"
    and "RContact c' \<in> set (rows (st_db w))" "uc_user_id c' = b" "uc_contact_id c' = a" "uc_deleted_at c' = None"
    and "answer (BlackContact E a b) w = Some ((m, 0), w')"
  shows "(\<exists>msg w1. answer (CheckOpenSessionAllowed E a b) w' = Some ((msg, False, -2), w1)) \<and>
         (\<exists>msg w1. answer (CheckOpenSessionAllowed E b a) w' = Some ((msg, False, -2), w1))"
proof -
  have "\<exists>r w'. answer (BlackContact E a b) w = Some (r, w') \<and> (snd r = 0 \<longrightarrow>
      blocked_row (rows (st_db w')) a b \<and> blocked_row (rows (st_db w')) b a)"
    by (rule wp_answer, rule wp_mono [OF backend.BlackContact_wp [OF assms(1,2,4-11)]]) simp_all
  with assms(12) have bl: "blocked_row (rows (st_db w')) a b" "blocked_row (rows (st_db w')) b a" by simp_all
  have "\<exists>msg w1. answer (CheckOpenSessionAllowed E x y) w' = Some ((msg, False, -2), w1)"
    if "blocked_row (rows (st_db w')) x y" for x y
  proof -
    have "\<exists>r w1. answer (CheckOpenSessionAllowed E x y) w' = Some (r, w1) \<and> snd r = (False, -2)"
      by (rule wp_answer, rule wp_mono [OF backend.CheckOpenSessionAllowed_blocked [OF assms(1) that assms(3)]]) simp_all
    then show ?thesis by (metis prod.collapse)
  qed
  with bl show ?thesis by blast
qed

theorem blocked_cannot_open_witness:
  "\<exists>w' m w1. answer (BlackContact (mem_env_reads 5) ''U1'' ''U2'') demo = Some ((Msg ''blocked'', 0), w') \<and>
     answer (CheckOpenSessionAllowed (mem_env_reads 5) ''U2'' ''U1'') w' = Some ((m, False, -2), w1)"
proof -
  obtain w' where w': "answer (BlackContact (mem_env_reads 5) ''U1'' ''U2'') demo = Some ((Msg ''blocked'', 0), w')"
    by (simp add: contact_run_defs run_defs mem_read_def demo_defs)
  have c: "RContact (demo_contact 6 ''U1'' ''U2'') \<in> set (md_rows (st_db demo))"
    "RContact (demo_contact 7 ''U2'' ''U1'') \<in> set (md_rows (st_db demo))"
    by (simp_all add: demo_def demo_rows_def)
  show ?thesis
    using blocked_cannot_open [OF mem_backend deletes_ok_mem reads_ok_mem c(1) _ _ _ c(2) _ _ _ w'] w'
    by (simp add: demo_contact_def)
qed

section \<open>Where cache and database part\<close>

text \<open>Deleting a contact deletes the session but not its cached JSON: a session opened shortly before is
  handed out again by the next call although its row is deleted.\<close>

theorem deleted_session_reopens:
  "\<exists>w1 w2 w3. answer (OpenSession (mem_env_reads 5) 0 (\<lambda>_. ''t'') 1 open_req) demo_open = Some ((Msg ''session created'', ''S1'', 0), w1) \<and>
     answer (DeleteContact (mem_env_reads 6) ''U1'' ''U2'') w1 = Some ((Msg ''contact deleted'', 0), w2) \<and>
     list_all (\<lambda>r. case r of RSession s \<Rightarrow> se_deleted_at s \<noteq> None | _ \<Rightarrow> True) (md_rows (st_db w2)) \<and>
     answer (OpenSession (mem_env_reads 7) 0 (\<lambda>_. ''t'') 2 open_req) w2 = Some ((Msg ''session created'', ''S1'', 0), w3)"
  by (simp add: run_defs mem_read_def session_run_defs DeleteContact_def InvalidateContactBlack_def contactBlackKey_def
      demo_defs List.map_filter_simps decode_session int64_def)

text \<open>Deleting a session that does not exist inserts a row: the empty record that \<open>Find\<close> leaves is
  saved with a deletion time, and the call reports success.\<close>

theorem delete_unknown_session_inserts:
  "\<exists>w'. answer (DeleteSession (mem_env_reads 5) ''U1'' ''S9'') demo = Some ((Msg ''deleted'', 0), w') \<and>
     (\<exists>s. md_rows (st_db w') = demo_rows @ [RSession s] \<and> se_uuid s = [] \<and> se_deleted_at s = Some 5)"
  by (simp add: DeleteSession_def run_defs mem_read_def session_run_defs default_session_avatar_def demo_defs List.map_filter_simps)

end
