(* ===== verification/Message_Service.thy ===== *)
theory Message_Service
  imports Session_Service
begin

text \<open>
  \<open>service/gorm/message_service.go\<close>: the pages of a conversation, revoking a message, and the
  checks of an upload. Pages are cut from the newest messages down and shown in ascending order;
  the first page is cached and marks what the other side sent as read.
\<close>

section \<open>Pages\<close>

definition defaultPageLimit :: int where "defaultPageLimit = 50"
definition maxPageLimit :: int where "maxPageLimit = 100"

definition normalizePageLimit :: "int \<Rightarrow> int" where
  "normalizePageLimit limit =
     (if limit \<le> 0 then defaultPageLimit else if maxPageLimit < limit then maxPageLimit else limit)"

text \<open>\<open>Order("created_at DESC, id DESC").Limit(limit)\<close>\<close>

definition newest :: "int \<Rightarrow> Message list \<Rightarrow> Message list" where
  "newest limit ms = take (nat limit) (sort_key (\<lambda>m. - ms_created_at m) (sort_key (\<lambda>m. - ms_id m) ms))"

definition message_respond :: "time \<Rightarrow> Message \<Rightarrow> MessageRespond" where
  "message_respond tz m =
     \<lparr>rsp_Id = ms_id m, rsp_SendId = ms_send_id m, rsp_SendName = ms_send_name m,
      rsp_SendAvatar = ms_send_avatar m, rsp_ReceiveId = ms_receive_id m, rsp_Type = ms_type m,
      rsp_Content = ms_content m, rsp_Url = ms_url m, rsp_FileType = ms_file_type m,
      rsp_FileName = ms_file_name m, rsp_FileSize = ms_file_size m,
      rsp_FileSizeBytes = ms_file_size_bytes m, rsp_CreatedAt = format_datetime tz (ms_created_at m)\<rparr>"

definition user_message_respond :: "time \<Rightarrow> Message \<Rightarrow> GetMessageListRespond" where
  "user_message_respond tz m =
     MessageRespond.extend (message_respond tz m) \<lparr>rsp_ReadStatus = ms_read_status m\<rparr>"

section \<open>The cached pages\<close>

definition respond_fields :: "(string \<times> 'a MessageRespond_scheme setter) list" where
  "respond_fields =
     [(''id'', set_int 64 (\<lambda>v m. m\<lparr>rsp_Id := v\<rparr>)), (''send_id'', set_string (\<lambda>v m. m\<lparr>rsp_SendId := v\<rparr>)),
      (''send_name'', set_string (\<lambda>v m. m\<lparr>rsp_SendName := v\<rparr>)),
      (''send_avatar'', set_string (\<lambda>v m. m\<lparr>rsp_SendAvatar := v\<rparr>)),
      (''receive_id'', set_string (\<lambda>v m. m\<lparr>rsp_ReceiveId := v\<rparr>)), (''type'', set_int 8 (\<lambda>v m. m\<lparr>rsp_Type := v\<rparr>)),
      (''content'', set_string (\<lambda>v m. m\<lparr>rsp_Content := v\<rparr>)), (''url'', set_string (\<lambda>v m. m\<lparr>rsp_Url := v\<rparr>)),
      (''file_type'', set_string (\<lambda>v m. m\<lparr>rsp_FileType := v\<rparr>)),
      (''file_name'', set_string (\<lambda>v m. m\<lparr>rsp_FileName := v\<rparr>)),
      (''file_size'', set_string (\<lambda>v m. m\<lparr>rsp_FileSize := v\<rparr>)),
      (''file_size_bytes'', set_int 64 (\<lambda>v m. m\<lparr>rsp_FileSizeBytes := v\<rparr>)),
      (''created_at'', set_string (\<lambda>v m. m\<lparr>rsp_CreatedAt := v\<rparr>))]"

definition user_respond_fields :: "(string \<times> GetMessageListRespond setter) list" where
  "user_respond_fields = respond_fields @ [(''read_status'', set_int 8 (\<lambda>v m. m\<lparr>rsp_ReadStatus := v\<rparr>))]"

definition zero_respond :: MessageRespond where
  "zero_respond = \<lparr>rsp_Id = 0, rsp_SendId = [], rsp_SendName = [], rsp_SendAvatar = [], rsp_ReceiveId = [],
     rsp_Type = 0, rsp_Content = [], rsp_Url = [], rsp_FileType = [], rsp_FileName = [], rsp_FileSize = [],
     rsp_FileSizeBytes = 0, rsp_CreatedAt = []\<rparr>"

definition zero_user_respond :: GetMessageListRespond where
  "zero_user_respond = MessageRespond.extend zero_respond \<lparr>rsp_ReadStatus = 0\<rparr>"

section \<open>Conversations\<close>

text \<open>A hit is decoded and returned, whatever the limit; a fault of the cache is logged.\<close>

definition first_page_cache ::
  "('d, 'r) env \<Rightarrow> string \<Rightarrow> int \<Rightarrow> (string \<times> 's setter) list \<Rightarrow> 's \<Rightarrow> ('d, 'r, 's list data_answer, unit) svc" where
  "first_page_cache E key beforeId fs z =
     (if beforeId \<le> 0 then
        attempt (GetCache E key) (\<lambda>r. case r of
          Inr s \<Rightarrow> throw (Msg ''loaded'', unmarshal_list fs z s, 0)
        | Inl _ \<Rightarrow> ret ())
      else ret ())"

definition message_list_key :: "uuid \<Rightarrow> uuid \<Rightarrow> string" where
  "message_list_key a b = ''message_list_'' @ a @ ''_'' @ b"

definition GetMessageList ::
  "('d, 'r) env \<Rightarrow> time \<Rightarrow> uuid \<Rightarrow> uuid \<Rightarrow> int \<Rightarrow> int \<Rightarrow>
   ('d, 'r, GetMessageListRespond list data_answer, GetMessageListRespond list data_answer) svc" where
  "GetMessageList E tz userOneId userTwoId limit beforeId =
     (let lim = normalizePageLimit limit; key = message_list_key userOneId userTwoId in
      bnd (first_page_cache E key beforeId user_respond_fields zero_user_respond) (\<lambda>_.
      bnd (or_throw (Find E messages (\<lambda>m. between userOneId userTwoId m \<and> (0 < beforeId \<longrightarrow> ms_id m < beforeId)))
        (SystemError, [], -1)) (\<lambda>ms.
      let rsp = rev (map (user_message_respond tz) (newest lim ms)) in
      if beforeId \<le> 0 then
        (let rsp = map (\<lambda>m. if rsp_SendId m = userTwoId then m\<lparr>rsp_ReadStatus := 1\<rparr> else m) rsp in
         bnd (logged (Updates E messages
           (\<lambda>m. ms_send_id m = userTwoId \<and> ms_receive_id m = userOneId \<and> ms_read_status m = 0)
           (\<lambda>m. m\<lparr>ms_read_status := 1, ms_read_at := Some (e_now E)\<rparr>))) (\<lambda>_.
         bnd (logged (SetCache E key (marshal_list user_respond_json rsp) redis_timeout)) (\<lambda>_.
         ret (Msg ''loaded'', rsp, 0))))
      else ret (Msg ''loaded'', rsp, 0))))"

definition group_message_list_key :: "uuid \<Rightarrow> string" where
  "group_message_list_key g = ''group_messagelist_'' @ g"

definition GetGroupMessageList ::
  "('d, 'r) env \<Rightarrow> time \<Rightarrow> uuid \<Rightarrow> int \<Rightarrow> int \<Rightarrow>
   ('d, 'r, MessageRespond list data_answer, MessageRespond list data_answer) svc" where
  "GetGroupMessageList E tz groupId limit beforeId =
     (let lim = normalizePageLimit limit; key = group_message_list_key groupId in
      bnd (first_page_cache E key beforeId respond_fields zero_respond) (\<lambda>_.
      bnd (or_throw (Find E messages (\<lambda>m. ms_receive_id m = groupId \<and> (0 < beforeId \<longrightarrow> ms_id m < beforeId)))
        (SystemError, [], -1)) (\<lambda>ms.
      let rsp = rev (map (message_respond tz) (newest lim ms)) in
      if beforeId \<le> 0 then
        bnd (logged (SetCache E key (marshal_list group_respond_json rsp) redis_timeout)) (\<lambda>_.
        ret (Msg ''loaded'', rsp, 0))
      else ret (Msg ''loaded'', rsp, 0))))"

section \<open>Revoking\<close>

definition RevokeMessage :: "('d, 'r) env \<Rightarrow> uuid \<Rightarrow> uuid \<Rightarrow> ('d, 'r, answer, answer) svc" where
  "RevokeMessage E ownerId messageUuid =
     bnd (or_throw (First E messages (\<lambda>m. ms_uuid m = messageUuid)) (Msg ''no such message'', -2)) (\<lambda>m.
     bnd (guard (ms_send_id m = ownerId) (Msg ''not your message'', -2)) (\<lambda>_.
     bnd (or_throw (UpdatesRow E messages m (\<lambda>x. x\<lparr>ms_deleted_at := Some (e_now E)\<rparr>)) system_error) (\<lambda>_.
     if ms_receive_id m = [] then throw (Panicked, 500)
     else if starts_with (CHR ''U'') (ms_receive_id m) then
       bnd (logged (DelPattern E (message_list_key (ms_send_id m) (ms_receive_id m)))) (\<lambda>_.
       bnd (logged (DelPattern E (message_list_key (ms_receive_id m) (ms_send_id m)))) (\<lambda>_.
       ret (Msg ''revoked'', 0)))
     else
       bnd (logged (DelPattern E (group_message_list_key (ms_receive_id m)))) (\<lambda>_.
       ret (Msg ''revoked'', 0)))))"

section \<open>Uploads\<close>

text \<open>
  A part of a multipart form as the code sees it: the declared size and type, the name, and the
  first 512 bytes of the content. \<open>http.DetectContentType\<close> and the file system are arguments.
\<close>

record upload =
  up_Filename :: string
  up_Size :: int
  up_ContentType :: string
  up_Head :: string

definition allowedImageTypes :: "string list" where
  "allowedImageTypes = [''image/jpeg'', ''image/png'', ''image/gif'', ''image/webp'']"

definition allowedFileTypes :: "string list" where
  "allowedFileTypes = [''image/jpeg'', ''image/png'', ''image/gif'', ''image/webp'', ''video/mp4'', ''audio/mpeg'',
     ''audio/wav'', ''application/pdf'', ''text/plain'', ''application/zip'', ''application/x-zip-compressed'']"

definition maxAvatarSize :: int where "maxAvatarSize = 2 * 1024 * 1024"
definition maxFileSize :: int where "maxFileSize = 50 * 1024 * 1024"

text \<open>\<open>filepath.Ext\<close>: from the last dot of the last element on.\<close>

definition path_ext :: "string \<Rightarrow> string" where
  "path_ext name =
     (let b = rev (takeWhile (\<lambda>c. c \<noteq> CHR ''/'') (rev name));
          e = takeWhile (\<lambda>c. c \<noteq> CHR ''.'') (rev b)
      in if length e = length b then [] else CHR ''.'' # rev e)"

definition blocked_exts :: "string list" where
  "blocked_exts = [''.html'', ''.htm'', ''.svg'', ''.js'', ''.exe'', ''.bat'', ''.sh'']"

text \<open>The refusals in the order of the code; \<open>None\<close> lets the part through.\<close>

definition check_avatar :: "(string \<Rightarrow> string) \<Rightarrow> upload \<Rightarrow> answer option" where
  "check_avatar detect f =
     (if maxAvatarSize < up_Size f then Some (Msg ''too large'', -2)
      else if up_ContentType f \<notin> set allowedImageTypes then Some (Msg ''type not allowed'', -2)
      else if detect (up_Head f) \<notin> set allowedImageTypes then Some (Msg ''content does not match'', -2)
      else None)"

definition check_file :: "(string \<Rightarrow> string) \<Rightarrow> upload \<Rightarrow> answer option" where
  "check_file detect f =
     (if maxFileSize < up_Size f then Some (Msg ''too large'', -2)
      else if up_ContentType f \<notin> set allowedFileTypes then Some (Msg ''type not allowed'', -2)
      else if detect (up_Head f) \<notin> set allowedFileTypes then Some (Msg ''content does not match'', -2)
      else if to_lower (path_ext (up_Filename f)) \<in> set blocked_exts then Some (Msg ''executable'', -2)
      else None)"

text \<open>What is on the disk: the names of the stored files. Creating or copying may fail; a failed copy
  leaves the file behind, a failed record of it removes it.\<close>

datatype disk_fault = CreateFails | CopyFails

record UploadFileResponse =
  ur_Name :: string
  ur_URL :: string

type_synonym upload_answer = "msg \<times> UploadFileResponse option \<times> int"

definition file_meta ::
  "uuid \<Rightarrow> uuid \<Rightarrow> string \<Rightarrow> (string \<Rightarrow> string) \<Rightarrow> upload \<Rightarrow> int \<Rightarrow> time \<Rightarrow> FileMetadata" where
  "file_meta fid uploader server_name detect f avatar now =
     \<lparr>fm_id = 0, fm_uuid = fid, fm_uploader_uuid = uploader, fm_server_name = server_name,
      fm_original_name = up_Filename f, fm_file_type = detect (up_Head f), fm_file_size = up_Size f,
      fm_is_avatar = avatar, fm_created_at = now, fm_deleted_at = None\<rparr>"

definition store_upload ::
  "('d, 'r) env \<Rightarrow> disk_fault option \<Rightarrow> FileMetadata \<Rightarrow> string \<Rightarrow> string \<Rightarrow> string list \<Rightarrow>
   ('d, 'r, 'e, upload_answer \<times> string list) svc" where
  "store_upload E fault meta localName url disk =
     (case fault of
        Some CreateFails \<Rightarrow> ret ((SystemError, None, -1), disk)
      | Some CopyFails \<Rightarrow> ret ((SystemError, None, -1), List.insert localName disk)
      | None \<Rightarrow>
          attempt (Create E files meta) (\<lambda>r. case r of
            Inl _ \<Rightarrow> ret ((Msg ''metadata not stored'', None, -1), removeAll localName disk)
          | Inr _ \<Rightarrow> ret ((Msg ''uploaded'', Some \<lparr>ur_Name = fm_server_name meta, ur_URL = url\<rparr>, 0),
              List.insert localName disk)))"

text \<open>The form after parsing: too large or malformed, or its file parts; only one part is stored, the
  one the iteration over the map yields first.\<close>

definition UploadAvatar ::
  "('d, 'r) env \<Rightarrow> time \<Rightarrow> int \<Rightarrow> (string \<Rightarrow> string) \<Rightarrow> string \<Rightarrow> uuid \<Rightarrow> disk_fault option \<Rightarrow>
   upload option list option \<Rightarrow> string list \<Rightarrow> ('d, 'r, 'e, upload_answer \<times> string list) svc" where
  "UploadAvatar E tz rnd detect path uploader fault form disk =
     (case form of
        None \<Rightarrow> ret ((Msg ''too large'', None, -2), disk)
      | Some [] \<Rightarrow> ret ((Msg ''uploaded'', None, 0), disk)
      | Some (None # _) \<Rightarrow> ret ((SystemError, None, -1), disk)
      | Some (Some f # _) \<Rightarrow>
          (case check_avatar detect f of
             Some (m, c) \<Rightarrow> ret ((m, None, c), disk)
           | None \<Rightarrow>
               let name = ''avatar_'' @ itoa (e_now E) @ path_ext (up_Filename f) in
               store_upload E fault
                 (file_meta (CHR ''F'' # GetNowAndLenRandomString tz (e_now E) rnd 11) uploader name detect f 1 (e_now E))
                 (path @ ''/'' @ name) (''/static/avatars/'' @ name) disk))"

definition UploadFile ::
  "('d, 'r) env \<Rightarrow> time \<Rightarrow> int \<Rightarrow> (string \<Rightarrow> string) \<Rightarrow> string \<Rightarrow> uuid \<Rightarrow> disk_fault option \<Rightarrow>
   upload option list option \<Rightarrow> string list \<Rightarrow> ('d, 'r, 'e, upload_answer \<times> string list) svc" where
  "UploadFile E tz rnd detect path uploader fault form disk =
     (case form of
        None \<Rightarrow> ret ((Msg ''too large'', None, -2), disk)
      | Some [] \<Rightarrow> ret ((Msg ''uploaded'', None, 0), disk)
      | Some (None # _) \<Rightarrow> ret ((SystemError, None, -1), disk)
      | Some (Some f # _) \<Rightarrow>
          (case check_file detect f of
             Some (m, c) \<Rightarrow> ret ((m, None, c), disk)
           | None \<Rightarrow>
               let name = ''file_'' @ itoa (e_now E) @ to_lower (path_ext (up_Filename f)) in
               store_upload E fault
                 (file_meta (CHR ''F'' # GetNowAndLenRandomString tz (e_now E) rnd 11) uploader name detect f 0 (e_now E))
                 (path @ ''/'' @ name) (''/file/download?name='' @ name) disk))"

end
