(* ===== verification/Redis_Iteration.thy ===== *)
theory Redis_Iteration
  imports Database_Memory
begin

text \<open>
  What an iteration with SCAN finds, which only the deletion by a pattern relies on: the documented guarantee
  is that a full iteration returns every key that was there from its beginning to its end. So a
  successful \<open>DelKeysWithPattern\<close> has removed the key that its pattern names.
\<close>

text \<open>A pattern without the special characters of a glob matches the key that it spells, and no other.\<close>

definition plain_pattern :: "string \<Rightarrow> bool" where
  "plain_pattern pat \<longleftrightarrow> set pat \<inter> {CHR ''*'', CHR ''?'', CHR ''['', CHR 0x5C} = {}"

text \<open>\<open>ahead c k\<close>: the key \<open>k\<close> has its place in the part of the key space that the iteration visits from the cursor
  \<open>c\<close> on. From the cursor 0 it visits all of it.\<close>

locale redis_iteration = redis_strings R str_at
  for R :: "'r redis_client" and str_at :: "'r \<Rightarrow> time \<Rightarrow> string \<Rightarrow> string option" +
  fixes ahead :: "u64 \<Rightarrow> string \<Rightarrow> bool"
  assumes ahead_all: "ahead 0 k"
    and scan_reads: "rc_scan R c pat cnt now s = (ROk (ks, c'), s') \<Longrightarrow> str_at s' = str_at s"
    and scan_finds: "rc_scan R c pat cnt now s = (ROk (ks, c'), s') \<Longrightarrow> plain_pattern pat \<Longrightarrow> ahead c pat \<Longrightarrow>
      str_at s now pat \<noteq> None \<Longrightarrow> pat \<in> set ks \<or> c' \<noteq> 0 \<and> ahead c' pat"
begin

text \<open>One page of the loop: what its deletion leaves.\<close>

lemma page_deleted:
  assumes "rc_scan R c pat cnt now s = (ROk (ks, c'), s1)"
    and "(if ks = [] then (ROk 0, s1) else rc_del R ks now s1) = (ROk n, s2)" and "now \<le> t"
  shows "str_at s2 t k = (if k \<in> set ks then None else str_at s t k)"
  using assms scan_reads [OF assms(1)] del_ok [of ks now s1 n s2 t k] by (auto split: if_splits)

lemma del_loop_none:
  "del_loop R n c pat cnt now s = Some (Inr (), s') \<Longrightarrow> now \<le> t \<Longrightarrow> str_at s t k = None \<Longrightarrow> str_at s' t k = None"
proof (induction n arbitrary: c s)
  case (Suc n)
  from Suc.prems(1) obtain ks c' s1 m s2 where page: "rc_scan R c pat cnt now s = (ROk (ks, c'), s1)"
      "(if ks = [] then (ROk 0, s1) else rc_del R ks now s1) = (ROk m, s2)"
    and rest: "c' = 0 \<and> s' = s2 \<or> del_loop R n c' pat cnt now s2 = Some (Inr (), s')"
    by (auto split: prod.splits reply.splits if_splits)
  have "str_at s2 t k = None" using page_deleted [OF page Suc.prems(2)] Suc.prems(3) by simp
  with rest Suc.IH [of c' s2] Suc.prems(2) show ?case by auto
qed simp

lemma del_loop_removes:
  "del_loop R n c pat cnt now s = Some (Inr (), s') \<Longrightarrow> plain_pattern pat \<Longrightarrow> ahead c pat \<or> str_at s now pat = None \<Longrightarrow>
   now \<le> t \<Longrightarrow> str_at s' t pat = None"
proof (induction n arbitrary: c s)
  case (Suc n)
  from Suc.prems(1) obtain ks c' s1 m s2 where page: "rc_scan R c pat cnt now s = (ROk (ks, c'), s1)"
      "(if ks = [] then (ROk 0, s1) else rc_del R ks now s1) = (ROk m, s2)"
    and rest: "c' = 0 \<and> s' = s2 \<or> del_loop R n c' pat cnt now s2 = Some (Inr (), s')"
    by (auto split: prod.splits reply.splits if_splits)
  from scan_finds [OF page(1) Suc.prems(2)] Suc.prems(3) have found: "pat \<in> set ks \<or> str_at s now pat = None \<or> c' \<noteq> 0 \<and> ahead c' pat"
    by blast
  show ?case
  proof (cases "pat \<in> set ks \<or> str_at s now pat = None")
    case True
    then have gone: "str_at s2 t' pat = None" if "now \<le> t'" for t'
    proof (cases "pat \<in> set ks")
      case True
      then show ?thesis unfolding page_deleted [OF page that] by simp
    next
      case False
      with True have "str_at s now pat = None" by simp
      from expired [OF this that] show ?thesis unfolding page_deleted [OF page that] by simp
    qed
    show ?thesis
    proof (cases "c' = 0 \<and> s' = s2")
      case True
      with gone Suc.prems(4) show ?thesis by simp
    next
      case False
      with rest have "del_loop R n c' pat cnt now s2 = Some (Inr (), s')" by (elim disjE) (simp, assumption)
      from del_loop_none [OF this Suc.prems(4) gone [OF Suc.prems(4)]] show ?thesis .
    qed
  next
    case False
    with found have c': "c' \<noteq> 0" "ahead c' pat" by auto
    with rest have "del_loop R n c' pat cnt now s2 = Some (Inr (), s')" by simp
    from Suc.IH [OF this Suc.prems(2) disjI1 [OF c'(2)] Suc.prems(4)] show ?thesis .
  qed
qed simp

lemma DelKeysWithPattern_removes:
  assumes "DelKeysWithPattern R fuel pat now s = Some (Inr (), s')" and "now \<le> t"
  shows "plain_pattern pat \<Longrightarrow> str_at s' t pat = None" and "str_at s t k = None \<Longrightarrow> str_at s' t k = None"
  using assms del_loop_removes [OF _ _ disjI1 [OF ahead_all]] del_loop_none by (auto simp: DelKeysWithPattern_def)

end

interpretation mem_iteration: redis_iteration "mem_client_of rf" mem_str "\<lambda>c k. c = 0"
proof
  fix c pat cnt now and s :: mem_redis and ks c' s'
  assume scan: "rc_scan (mem_client_of rf) c pat cnt now s = (ROk (ks, c'), s')"
  then show "mem_str s' = mem_str s" by (simp add: mem_client_of_def)
  assume plain: "plain_pattern pat" and "mem_str s now pat \<noteq> None"
  then have "mem_get s now pat \<noteq> None" by (cases "mem_get s now pat") (simp_all add: mem_str_def)
  moreover from calculation have "pat \<in> set (map fst (mr_data s))"
    by (cases "map_of (mr_data s) pat") (force simp: mem_get_def dest!: map_of_SomeD)+
  moreover have "glob_match pat pat"
  proof (cases "pat = []")
    case False
    then have "hd pat \<noteq> CHR ''*''" "last pat \<noteq> CHR ''*''"
      using plain hd_in_set [OF False] last_in_set [OF False] unfolding plain_pattern_def by (metis IntI empty_iff insertI1)+
    then show ?thesis by (simp add: glob_match_def)
  qed (simp add: glob_match_def)
  moreover have "ks = filter (\<lambda>k. glob_match pat k \<and> mem_get s now k \<noteq> None) (map fst (mr_data s))"
    using scan by (auto simp: mem_client_of_def)
  ultimately show "pat \<in> set ks \<or> c' \<noteq> 0 \<and> c' = 0" by simp
qed simp

text \<open>An environment whose deletions by a pattern do not fail: assumed only where a claim needs it.\<close>

definition pattern_deletes_ok :: "('d, 'r) env \<Rightarrow> bool" where
  "pattern_deletes_ok E \<longleftrightarrow> (\<forall>pat now s. \<exists>s'. DelKeysWithPattern (e_redis E) (e_fuel E) pat now s = Some (Inr (), s'))"

lemma pattern_deletes_ok_mem: "pattern_deletes_ok (mem_env_reads now)"
  by (simp add: pattern_deletes_ok_def DelKeysWithPattern_def mem_env_of_def mem_client_of_def faulty_if_def)

context backend
begin

lemma wp_DelPattern_gone:
  assumes "redis_iteration (e_redis E) str_at ahead" and "pattern_deletes_ok E"
    and "\<And>w'. st_db w' = st_db w \<Longrightarrow> (\<And>t. e_now E \<le> t \<Longrightarrow> plain_pattern k \<Longrightarrow> str_at (st_redis w') t k = None) \<Longrightarrow>
      (\<And>t k'. e_now E \<le> t \<Longrightarrow> str_at (st_redis w) t k' = None \<Longrightarrow> str_at (st_redis w') t k' = None) \<Longrightarrow> Q () w'"
  shows "wp (DelPattern E k) Q X w"
proof -
  obtain s' where del: "DelKeysWithPattern (e_redis E) (e_fuel E) k (e_now E) (st_redis w) = Some (Inr (), s')"
    using assms(2) unfolding pattern_deletes_ok_def by blast
  have "Q () (w\<lparr>st_redis := s'\<rparr>)"
    by (rule assms(3)) (use redis_iteration.DelKeysWithPattern_removes [OF assms(1) del] in auto)
  with del show ?thesis by (simp add: wp_def DelPattern_def on_scan_def)
qed

end

end
