(* ===== verification/Message_Safety.thy ===== *)
theory Message_Safety
  imports Message_Service Group_Safety Redis_Iteration
begin

text \<open>
  What the history of messages guarantees: a page is the newest messages before the cursor, as
  many as the limit allows, in ascending order; only the sender revokes a message, and a revoked
  message is on no page before a cursor and on no first page of the two users it was between. That the
  cached first pages are gone after \<open>RevokeMessage\<close> is the contract of \<open>Redis_Iteration\<close>.
\<close>

section \<open>Pages\<close>

definition older :: "Message \<Rightarrow> Message \<Rightarrow> bool" where
  "older a b \<longleftrightarrow> ms_created_at a < ms_created_at b \<or> (ms_created_at a = ms_created_at b \<and> ms_id a < ms_id b)"

lemma sort_key_twice:
  "sorted_wrt (\<lambda>x y. k x < k y \<or> (k x = k y \<and> l x \<le> l y)) (sort_key k (sort_key l xs))"
  for k l :: "'a \<Rightarrow> int"
proof -
  have filt: "sorted (map l (filter (\<lambda>x. k x = c) (sort_key k (sort_key l xs))))" for c
    unfolding filter_sort [symmetric] sort_key_stable by (simp add: sorted_filter)
  have "sorted_wrt (\<lambda>x y. k x < k y \<or> (k x = k y \<and> l x \<le> l y)) zs"
    if "sorted (map k zs)" "\<And>c. sorted (map l (filter (\<lambda>x. k x = c) zs))" for zs
    using that
  proof (induction zs)
    case (Cons z zs)
    have "sorted (map l (filter (\<lambda>x. k x = c) zs))" for c
      using Cons.prems(2) [of c] by (cases "k z = c") auto
    with Cons have "sorted_wrt (\<lambda>x y. k x < k y \<or> (k x = k y \<and> l x \<le> l y)) zs" by auto
    moreover have "k z < k y \<or> (k z = k y \<and> l z \<le> l y)" if "y \<in> set zs" for y
    proof (cases "k z = k y")
      case True
      with that Cons.prems(2) [of "k z"] show ?thesis by simp
    next
      case False
      with that Cons.prems(1) show ?thesis by (auto simp: order_le_less)
    qed
    ultimately show ?case by simp
  qed simp
  from this [OF sorted_sort_key filt] show ?thesis .
qed

text \<open>The newest messages of a list, in ascending order.\<close>

lemma newest_page:
  fixes n ms
  defines "page \<equiv> rev (newest n ms)"
  shows "length page = min (nat n) (length ms)" and "mset page \<subseteq># mset ms"
    and "sorted_wrt (\<lambda>x y. \<not> older y x) page"
    and "\<And>m p. m \<in># mset ms - mset page \<Longrightarrow> p \<in> set page \<Longrightarrow> \<not> older p m"
proof -
  define ss where "ss = sort_key (\<lambda>m. - ms_created_at m) (sort_key (\<lambda>m. - ms_id m) ms)"
  have perm: "mset ss = mset ms" by (simp add: ss_def)
  have len: "length ss = length ms" using perm by (metis size_mset)
  have srt: "sorted_wrt (\<lambda>x y. \<not> older x y) ss"
    unfolding ss_def
    by (rule sorted_wrt_mono_rel [OF _ sort_key_twice [of "\<lambda>m. - ms_created_at m" "\<lambda>m. - ms_id m" ms]])
       (auto simp: older_def)
  have pg: "page = rev (take (nat n) ss)" by (simp add: page_def newest_def ss_def)
  have split: "mset ms = mset page + mset (drop (nat n) ss)"
    unfolding pg by (simp add: perm [symmetric] flip: mset_append)
  show "length page = min (nat n) (length ms)" by (simp add: pg len)
  show "mset page \<subseteq># mset ms" by (simp add: split)
  show "sorted_wrt (\<lambda>x y. \<not> older y x) page"
    unfolding pg sorted_wrt_rev using srt by (rule sorted_wrt_take)
  fix m p
  assume "m \<in># mset ms - mset page" "p \<in> set page"
  then have "p \<in> set (take (nat n) ss)" "m \<in> set (drop (nat n) ss)" by (simp_all add: split pg)
  moreover have "sorted_wrt (\<lambda>x y. \<not> older x y) (take (nat n) ss @ drop (nat n) ss)" using srt by simp
  ultimately show "\<not> older p m" unfolding sorted_wrt_append by blast
qed

lemma page_limit_bounds: "1 \<le> normalizePageLimit n \<and> normalizePageLimit n \<le> 100"
  by (simp add: normalizePageLimit_def defaultPageLimit_def maxPageLimit_def)

definition shown_page :: "row list \<Rightarrow> (Message \<Rightarrow> bool) \<Rightarrow> int \<Rightarrow> Message list \<Rightarrow> bool" where
  "shown_page rs P limit page \<longleftrightarrow>
     length page = min (nat (normalizePageLimit limit)) (length (filter (scoped messages P) rs)) \<and>
     (\<forall>m \<in> set page. RMessage m \<in> set rs \<and> ms_deleted_at m = None \<and> P m) \<and> distinct page \<and>
     sorted_wrt older page \<and>
     (\<forall>m. RMessage m \<in> set rs \<longrightarrow> ms_deleted_at m = None \<longrightarrow> P m \<longrightarrow> m \<notin> set page \<longrightarrow>
        (\<forall>p \<in> set page. older m p))"

lemma sorted_wrt_distinct: "sorted_wrt P xs \<Longrightarrow> distinct xs \<Longrightarrow> sorted_wrt (\<lambda>x y. P x y \<and> x \<noteq> y) xs"
  by (induction xs) auto

context backend
begin

lemma shown_newest:
  assumes ms: "mset (map RMessage ms) = mset (filter (scoped messages P) rs)" and uniq: "unique_rows rs"
  shows "shown_page rs P limit (rev (newest (normalizePageLimit limit) ms))"
proof -
  let ?page = "rev (newest (normalizePageLimit limit) ms)"
  note pg = newest_page [where ms = ms and n = "normalizePageLimit limit"]
  have len: "length ms = length (filter (scoped messages P) rs)"
    using ms by (metis length_map size_mset)
  have "distinct (filter (scoped messages P) rs)" using unique_rows_distinct [OF uniq] by simp
  then have "distinct (map RMessage ms)" using ms by (metis mset_eq_imp_distinct_iff)
  then have dist: "distinct ms" by (simp add: distinct_map)
  have mem: "m \<in> set ms \<longleftrightarrow> RMessage m \<in> set rs \<and> ms_deleted_at m = None \<and> P m" for m
  proof -
    have "RMessage m \<in> set (map RMessage ms) \<longleftrightarrow> RMessage m \<in> set (filter (scoped messages P) rs)"
      using ms by (metis set_mset_mset)
    then show ?thesis by (auto simp: messages.scoped_iff image_iff)
  qed
  have sub: "set ?page \<subseteq> set ms" using pg(2) by (metis set_mset_mset set_mset_mono)
  have dp: "distinct ?page" using dist by (simp add: newest_def)
  have ids: "ms_id a \<noteq> ms_id b" if "a \<in> set ms" "b \<in> set ms" "a \<noteq> b" for a b
    using unique_rowsD [OF uniq, of "RMessage a" "RMessage b"] that mem by (auto simp: conflict_def)
  have total: "older a b" if "\<not> older b a" "a \<in> set ms" "b \<in> set ms" "a \<noteq> b" for a b
    using that ids [of a b] by (auto simp: older_def)
  have "sorted_wrt (\<lambda>x y. \<not> older y x \<and> x \<noteq> y) ?page" by (rule sorted_wrt_distinct [OF pg(3) dp])
  then have "sorted_wrt older ?page"
    by (rule sorted_wrt_mono_rel [rotated]) (use total sub in blast)
  moreover have "older m p" if "RMessage m \<in> set rs" "ms_deleted_at m = None" "P m" "m \<notin> set ?page" "p \<in> set ?page" for m p
  proof -
    have m: "m \<in> set ms" "p \<in> set ms" using that mem sub by blast+
    have "m \<in># mset ms - mset ?page" using m(1) that(4)
      by (metis count_mset_0_iff in_diff_count count_greater_zero_iff set_mset_mset)
    with pg(4) that(4,5) m show ?thesis by (intro total) auto
  qed
  ultimately show ?thesis
    unfolding shown_page_def using pg(1) len sub mem dp by auto
qed

end

context backend
begin

lemma GetMessageList_wp:
  assumes "unique_rows (rows (st_db w))" and "reads_ok E" and "0 < beforeId"
  shows "wp (GetMessageList E tz a b limit beforeId)
    (\<lambda>r w'. \<exists>page. r = (Msg ''loaded'', map (user_message_respond tz) page, 0) \<and>
       shown_page (rows (st_db w)) (\<lambda>m. between a b m \<and> ms_id m < beforeId) limit page \<and>
       rows (st_db w') = rows (st_db w))
    (\<lambda>_ _. False) w"
  unfolding GetMessageList_def first_page_cache_def Let_def
proof (simp add: assms(3) linorder_not_le [THEN iffD2, OF assms(3)] wp_bnd wp_or_throw, rule wp_Find_mset [OF messages.table_axioms], goal_cases)
  case (1 ms w')
  then have "mset (map RMessage ms) = mset (filter (scoped messages (\<lambda>m. between a b m \<and> ms_id m < beforeId)) (rows (st_db w)))"
    by simp
  from shown_newest [OF this assms(1), of limit] 1 show ?case
    by (auto simp: wp_ret same_def rev_map)
qed (use assms(2) in simp)

definition revoked :: "Message \<Rightarrow> ('d, 'r) stores \<Rightarrow> ('d, 'r) stores \<Rightarrow> bool" where
  "revoked m w w' \<longleftrightarrow> RMessage m \<in> set (rows (st_db w)) \<and> ms_deleted_at m = None \<and>
     rows (st_db w') = map (\<lambda>r. if r = RMessage m then RMessage (m\<lparr>ms_deleted_at := Some (e_now E)\<rparr>) else r) (rows (st_db w)) \<and>
     unique_rows (rows (st_db w'))"

definition by_sender :: "uuid \<Rightarrow> uuid \<Rightarrow> ('d, 'r) stores \<Rightarrow> answer \<Rightarrow> ('d, 'r) stores \<Rightarrow> bool" where
  "by_sender u mid w a w' \<longleftrightarrow> (\<exists>m w1. ms_uuid m = mid \<and> ms_send_id m = u \<and> revoked m w w1 \<and>
     rows (st_db w') = rows (st_db w1) \<and> a = (if ms_receive_id m = [] then (Panicked, 500) else (Msg ''revoked'', 0)))"

lemma by_sender_revokes:
  assumes "by_sender u mid w a w'"
  shows "\<exists>m. RMessage m \<in> set (rows (st_db w)) \<and> ms_deleted_at m = None \<and> ms_uuid m = mid \<and> ms_send_id m = u \<and>
    rows (st_db w') = map (\<lambda>r. if r = RMessage m then RMessage (m\<lparr>ms_deleted_at := Some (e_now E)\<rparr>) else r) (rows (st_db w)) \<and>
    a = (if ms_receive_id m = [] then (Panicked, 500) else (Msg ''revoked'', 0))"
proof -
  from assms obtain m w1 where *: "ms_uuid m = mid" "ms_send_id m = u" "revoked m w w1" "rows (st_db w') = rows (st_db w1)"
      "a = (if ms_receive_id m = [] then (Panicked, 500) else (Msg ''revoked'', 0))"
    unfolding by_sender_def by blast
  show ?thesis
    by (rule exI [of _ m]) (use * in \<open>unfold revoked_def *(4), blast\<close>)
qed

lemma RevokeMessage_wp:
  assumes uniq: "unique_rows (rows (st_db w))"
  shows "wp (RevokeMessage E u mid) (by_sender u mid w) (\<lambda>a w'. by_sender u mid w a w' \<or> (rows (st_db w') = rows (st_db w) \<and> snd a < 0)) w"
  unfolding RevokeMessage_def
proof (rule wp_seq [where R = "\<lambda>m w'. same w w' \<and> RMessage m \<in> set (rows (st_db w)) \<and> ms_deleted_at m = None \<and> ms_uuid m = mid"], goal_cases)
  case 1
  show ?case unfolding wp_or_throw
    by (rule wp_First [OF messages.table_axioms]) (auto simp: same_def)
next
  case (2 m w1)
  then have m: "RMessage m \<in> set (rows (st_db w))" "ms_deleted_at m = None" "ms_uuid m = mid"
    and rw: "rows (st_db w1) = rows (st_db w)" by (simp_all add: same_def)
  show ?case
  proof (rule wp_seq [where R = "\<lambda>_ w'. w' = w1 \<and> ms_send_id m = u"], goal_cases)
    case 1
    show ?case by (simp add: wp_guard rw)
  next
    case (2 _ w2)
    then have u: "ms_send_id m = u" and w2: "w2 = w1" by simp_all
    show ?case
    proof (rule wp_seq [where R = "\<lambda>_. on_rows (\<lambda>rs. \<exists>w1. revoked m w w1 \<and> rs = rows (st_db w1))"], goal_cases)
      case 1
      show ?case unfolding wp_or_throw
      proof (rule wp_UpdatesRow)
        fix w3
        assume ch: "changed (scoped messages (\<lambda>y. row_id (tb_row messages y) = row_id (tb_row messages m)))
          (on_row messages (\<lambda>x. x\<lparr>ms_deleted_at := Some (e_now E)\<rparr>)) w2 w3"
        have eq: "(if scoped messages (\<lambda>y. row_id (tb_row messages y) = row_id (tb_row messages m)) r
               then on_row messages (\<lambda>x. x\<lparr>ms_deleted_at := Some (e_now E)\<rparr>) r else r) =
              (if r = RMessage m then RMessage (m\<lparr>ms_deleted_at := Some (e_now E)\<rparr>) else r)" if "r \<in> set (rows (st_db w))" for r
          using unique_rowsD [OF uniq that m(1)] m(2) by (cases r) (auto simp: table_simps conflict_def)
        from ch have "rows (st_db w3) = map (\<lambda>r. if scoped messages (\<lambda>y. row_id (tb_row messages y) = row_id (tb_row messages m)) r
               then on_row messages (\<lambda>x. x\<lparr>ms_deleted_at := Some (e_now E)\<rparr>) r else r) (rows (st_db w))"
          and u3: "unique_rows (rows (st_db w3))" using uniq unfolding changed_def w2 rw by blast+
        note this(1)
        also note map_cong [OF refl eq]
        finally have "revoked m w w3" using m(1,2) u3 by (simp add: revoked_def)
        then show "on_rows (\<lambda>rs. \<exists>w1. revoked m w w1 \<and> rs = rows (st_db w1)) w3" by (auto simp: on_rows_def)
      qed (simp add: same_def w2 rw system_error_def)
    next
      case (2 _ w3)
      then obtain w4 where "revoked m w w4" "rows (st_db w3) = rows (st_db w4)" by (auto simp: on_rows_def)
      then have fin: "by_sender u mid w (if ms_receive_id m = [] then (Panicked, 500) else (Msg ''revoked'', 0)) w'"
        if "rows (st_db w') = rows (st_db w3)" for w'
        unfolding by_sender_def using m u that by fastforce
      have on: "on_rows (\<lambda>rs. rs = rows (st_db w3)) w3" by (simp add: on_rows_def)
      show ?case
        using fin
        by (auto simp: wp_throw intro!: wp_tail [OF on] wp_tail)
           (auto simp: wp_ret on_rows_def)
    qed
  qed
qed

end

text \<open>C26. A page of a conversation before a cursor is the newest messages of the two users with a smaller
  id: as many as the normalised limit (1 to 100) and the conversation allow, each live and once, in
  ascending order of time and id, and every message that is left out is older than all that are
  shown. The call leaves the rows as they are.\<close>

theorem message_page:
  assumes "backend E rows str_at set_at pages" and "unique_rows (rows (st_db w))" and "reads_ok E" and "0 < beforeId"
  shows "\<exists>page w'. answer (GetMessageList E tz a b limit beforeId) w =
      Some ((Msg ''loaded'', map (user_message_respond tz) page, 0), w') \<and>
    shown_page (rows (st_db w)) (\<lambda>m. between a b m \<and> ms_id m < beforeId) limit page \<and>
    rows (st_db w') = rows (st_db w)"
  using wp_answer [OF wp_mono [OF backend.GetMessageList_wp [OF assms]], where Q = "\<lambda>r w'. \<exists>page. r =
      (Msg ''loaded'', map (user_message_respond tz) page, 0) \<and>
       shown_page (rows (st_db w)) (\<lambda>m. between a b m \<and> ms_id m < beforeId) limit page \<and>
       rows (st_db w') = rows (st_db w)"] by blast

definition demo_message :: "int \<Rightarrow> uuid \<Rightarrow> uuid \<Rightarrow> uuid \<Rightarrow> time \<Rightarrow> row" where
  "demo_message n mid a b t = RMessage \<lparr>ms_id = n, ms_uuid = mid, ms_session_id = ''S1'', ms_type = 0, ms_content = ''hi'',
     ms_url = [], ms_send_id = a, ms_send_name = a, ms_send_avatar = [], ms_receive_id = b, ms_file_type = [],
     ms_file_name = [], ms_file_size = [], ms_file_size_bytes = 0, ms_status = 0, ms_read_status = 0,
     ms_read_at = None, ms_created_at = t, ms_send_at = None, ms_av_data = [], ms_deleted_at = None\<rparr>"

definition demo_chat :: "(mem_db, mem_redis) stores" where
  "demo_chat = demo\<lparr>st_db := \<lparr>md_rows = demo_rows @ [demo_message 8 ''8'' ''U1'' ''U2'' 2, demo_message 9 ''9'' ''U2'' ''U1'' 3,
     demo_message 10 ''10'' ''U1'' ''U2'' 4], md_next = 11, md_faults = []\<rparr>\<rparr>"

lemma unique_rows_chat: "unique_rows (md_rows (st_db demo_chat))"
  by (simp add: demo_chat_def demo_message_def demo_defs unique_rows_def conflict_def)

theorem message_page_witness:
  "\<exists>page w'. answer (GetMessageList (mem_env_reads 9) 0 ''U1'' ''U2'' 1 10) demo_chat =
      Some ((Msg ''loaded'', map (user_message_respond 0) page, 0), w') \<and> length page = 1"
proof -
  have "length (filter (scoped messages (\<lambda>m. between ''U1'' ''U2'' m \<and> ms_id m < 10)) (md_rows (st_db demo_chat))) = 2"
    by (simp add: demo_chat_def demo_message_def demo_defs table_simps between_def)
  then show ?thesis
    using message_page [OF mem_backend unique_rows_chat reads_ok_mem, of 10 9 0 "''U1''" "''U2''" 1]
    by (auto simp: shown_page_def normalizePageLimit_def maxPageLimit_def)
qed

section \<open>Revoking\<close>

text \<open>Only the sender revokes a message: either nothing has changed and the code is negative, or the
  caller sent the live message with that uuid, exactly this row has got its deletion time, and the
  answer is success (or the panic of an empty receiver).\<close>

theorem revoke_only_by_sender:
  assumes "backend E rows str_at set_at pages" and "unique_rows (rows (st_db w))"
  shows "\<exists>a w'. answer (RevokeMessage E u mid) w = Some (a, w') \<and>
    ((rows (st_db w') = rows (st_db w) \<and> snd a < 0) \<or>
     (\<exists>m. RMessage m \<in> set (rows (st_db w)) \<and> ms_deleted_at m = None \<and> ms_uuid m = mid \<and> ms_send_id m = u \<and>
        rows (st_db w') = map (\<lambda>r. if r = RMessage m then RMessage (m\<lparr>ms_deleted_at := Some (e_now E)\<rparr>) else r) (rows (st_db w)) \<and>
        a = (if ms_receive_id m = [] then (Panicked, 500) else (Msg ''revoked'', 0))))"
proof (rule wp_answer, rule wp_mono [OF backend.RevokeMessage_wp [OF assms]], goal_cases)
  case (1 a w')
  then show ?case by (rule disjI2 [OF backend.by_sender_revokes [OF assms(1)]])
next
  case (2 a w')
  then show ?case by (rule disjE) (erule disjI2 [OF backend.by_sender_revokes [OF assms(1)]], rule disjI1)
qed

lemmas message_run_defs = RevokeMessage_def starts_with_def message_list_key_def

theorem revoke_only_by_sender_witness:
  "\<exists>w'. answer (RevokeMessage (mem_env 9) ''U1'' ''8'') demo_chat = Some ((Msg ''revoked'', 0), w') \<and>
     (\<exists>a w''. answer (RevokeMessage (mem_env 9) ''U2'' ''8'') demo_chat = Some (a, w'') \<and> snd a < 0 \<and>
        md_rows (st_db w'') = md_rows (st_db demo_chat))"
proof -
  have "\<exists>w'. answer (RevokeMessage (mem_env 9) ''U1'' ''8'') demo_chat = Some ((Msg ''revoked'', 0), w')"
    by (simp add: demo_chat_def demo_message_def demo_defs run_defs message_run_defs List.map_filter_simps
       )
  moreover have "ms_send_id m = ''U1''" if "RMessage m \<in> set (md_rows (st_db demo_chat))" "ms_uuid m = ''8''" for m
    using that by (auto simp: demo_chat_def demo_message_def demo_defs)
  ultimately show ?thesis
    using revoke_only_by_sender [OF mem_backend unique_rows_chat, of True 9 "''U2''" "''8''"] by fastforce
qed

text \<open>The first page, when the cache has none: what it shows are live messages, and this page is what it leaves in the
  cache, if anything.\<close>

context backend
begin

lemma GetMessageList_first:
  assumes "reads_ok E" and "beforeId \<le> 0" and none: "\<And>t. e_now E \<le> t \<Longrightarrow> str_at (st_redis w) t (message_list_key a b) = None"
  shows "wp (GetMessageList E tz a b limit beforeId)
    (\<lambda>r w'. fst r = Msg ''loaded'' \<and> snd (snd r) = 0 \<and> (\<forall>p \<in> set (fst (snd r)). \<exists>m. RMessage m \<in> set (rows (st_db w)) \<and> ms_deleted_at m = None \<and> rsp_Id p = ms_id m) \<and>
       (\<forall>t \<ge> e_now E. str_at (st_redis w') t (message_list_key a b) \<in> {None, Some (marshal_list user_respond_json (fst (snd r)))}))
    (\<lambda>_ _. False) w"
proof -
  let ?key = "message_list_key a b" and ?lim = "normalizePageLimit limit"
  let ?rsp = "\<lambda>ms. map (\<lambda>m. if rsp_SendId m = b then m\<lparr>rsp_ReadStatus := 1\<rparr> else m) (rev (map (user_message_respond tz) (newest ?lim ms)))"
  have ids: "\<exists>m. m \<in> set ms \<and> rsp_Id p = ms_id m" if "p \<in> set (?rsp ms)" for p ms
    using that by (auto simp: newest_def user_message_respond_def message_respond_def MessageRespond.defs
        dest!: in_set_takeD split: if_splits)
  have page: "wp (bnd (logged (SetCache E ?key (marshal_list user_respond_json (?rsp ms)) redis_timeout))
      (\<lambda>_. ret (Msg ''loaded'', ?rsp ms, 0)))
    (\<lambda>r w'. fst r = Msg ''loaded'' \<and> snd (snd r) = 0 \<and> (\<forall>p \<in> set (fst (snd r)). \<exists>m. RMessage m \<in> set (rows (st_db w)) \<and> ms_deleted_at m = None \<and> rsp_Id p = ms_id m) \<and>
       (\<forall>t \<ge> e_now E. str_at (st_redis w') t ?key \<in> {None, Some (marshal_list user_respond_json (fst (snd r)))}))
    (\<lambda>_ _. False) v"
    if "st_redis v = st_redis w" and "\<And>m. m \<in> set ms \<Longrightarrow> RMessage m \<in> set (rows (st_db w)) \<and> ms_deleted_at m = None" for v ms
  proof -
    have shown: "\<forall>p \<in> set (?rsp ms). \<exists>m. RMessage m \<in> set (rows (st_db w)) \<and> ms_deleted_at m = None \<and> rsp_Id p = ms_id m"
      using ids [of _ ms] that(2) by blast
    have cached: "wp (SetCache E ?key s redis_timeout) (\<lambda>_ w'. \<forall>t \<ge> e_now E. str_at (st_redis w') t ?key \<in> {None, Some s})
        (\<lambda>_ w'. \<forall>t \<ge> e_now E. str_at (st_redis w') t ?key \<in> {None, Some s}) v" for s
    proof (rule wp_SetCache, simp, goal_cases)
      case (1 w')
      then show ?case by auto
    next
      case (2 w')
      show ?case
      proof (intro allI impI)
        fix t assume t: "e_now E \<le> t"
        show "str_at (st_redis w') t ?key \<in> {None, Some s}" using 2(2) [OF t] none [OF t] that(1) by (auto split: if_splits)
      qed
    qed
    show ?thesis
      unfolding wp_bnd wp_logged wp_ret fst_conv snd_conv
      by (rule wp_mono [OF cached]) (intro conjI refl shown, assumption)+
  qed
  show ?thesis
    unfolding GetMessageList_def first_page_cache_def Let_def if_P [OF assms(2)] wp_bnd wp_attempt GetCache_def
  proof (rule wp_on_redis, goal_cases)
    case (1 v s)
    from GetKeyNilIsErr_cases [OF 1] none [of "e_now E"] show ?case by simp
  next
    case (2 e s)
    from GetKeyNilIsErr_cases [OF 2] have s: "s = st_redis w" by simp
    show ?case unfolding sum.case wp_ret wp_or_throw
    proof (rule wp_Find [OF messages.table_axioms], goal_cases)
      case (1 ms w1)
      then have ms: "\<And>m. m \<in> set ms \<Longrightarrow> RMessage m \<in> set (rows (st_db w)) \<and> ms_deleted_at m = None"
        and w1: "st_redis w1 = st_redis w" using s by (auto simp: same_def)
      show ?case unfolding wp_bnd wp_logged
      proof (rule wp_Updates, goal_cases)
        case (1 w2)
        with w1 have "st_redis w2 = st_redis w" by (simp add: changed_def)
        from page [unfolded wp_bnd wp_logged wp_ret, OF this ms] show ?case by simp
      next
        case (2 e w2)
        with w1 have "st_redis w2 = st_redis w" by (simp add: same_def)
        from page [unfolded wp_bnd wp_logged wp_ret, OF this ms] show ?case by simp
      qed
    qed (use assms(1) in simp)
  qed
qed

text \<open>A successful revocation has taken the pages of the two users from the cache.\<close>

lemma RevokeMessage_clears:
  assumes "redis_iteration (e_redis E) str_at ahead" and "pattern_deletes_ok E"
  shows "wp (RevokeMessage E u mid) (\<lambda>r w'. \<exists>m. RMessage m \<in> set (rows (st_db w)) \<and> ms_uuid m = mid \<and> ms_send_id m = u \<and>
      (starts_with CHR ''U'' (ms_receive_id m) \<longrightarrow> (\<forall>t \<ge> e_now E. \<forall>k \<in> {message_list_key u (ms_receive_id m), message_list_key (ms_receive_id m) u}.
         plain_pattern k \<longrightarrow> str_at (st_redis w') t k = None)))
    (\<lambda>r w'. snd r \<noteq> 0) w"
  unfolding RevokeMessage_def wp_bnd wp_or_throw
proof (rule wp_First [OF messages.table_axioms], goal_cases)
  case (1 m w1)
  then have m: "RMessage m \<in> set (rows (st_db w))" "ms_uuid m = mid" by simp_all
  let ?gone = "\<lambda>w'. \<forall>t \<ge> e_now E. \<forall>k \<in> {message_list_key u (ms_receive_id m), message_list_key (ms_receive_id m) u}.
         plain_pattern k \<longrightarrow> str_at (st_redis w') t k = None"
  have clears: "wp (bnd (logged (DelPattern E (message_list_key u (ms_receive_id m)))) (\<lambda>_.
      bnd (logged (DelPattern E (message_list_key (ms_receive_id m) u))) (\<lambda>_. ret r))) (\<lambda>_. ?gone) X v" for r X v
    unfolding wp_bnd wp_logged wp_ret
    by (rule wp_DelPattern_gone [OF assms], rule wp_DelPattern_gone [OF assms]) auto
  show ?case
  proof (cases "ms_send_id m = u")
    case True
    show ?thesis unfolding wp_guard if_P [OF True]
    proof (rule wp_UpdatesRow, goal_cases)
      case (1 w2)
      consider "ms_receive_id m = []" | "ms_receive_id m \<noteq> []" "starts_with CHR ''U'' (ms_receive_id m)"
        | "ms_receive_id m \<noteq> []" "\<not> starts_with CHR ''U'' (ms_receive_id m)" by blast
      then show ?case
      proof cases
        case 2
        have "wp (bnd (logged (DelPattern E (message_list_key u (ms_receive_id m)))) (\<lambda>_.
          bnd (logged (DelPattern E (message_list_key (ms_receive_id m) u))) (\<lambda>_. ret (Msg ''revoked'', 0))))
          (\<lambda>r w'. \<exists>m. RMessage m \<in> set (rows (st_db w)) \<and> ms_uuid m = mid \<and> ms_send_id m = u \<and>
             (starts_with CHR ''U'' (ms_receive_id m) \<longrightarrow> (\<forall>t \<ge> e_now E. \<forall>k \<in> {message_list_key u (ms_receive_id m), message_list_key (ms_receive_id m) u}.
              plain_pattern k \<longrightarrow> str_at (st_redis w') t k = None))) (\<lambda>r w'. snd r \<noteq> 0) w2"
          by (rule wp_mono [OF clears]) (use m True in blast)+
        with 2 True show ?thesis by simp
      next
        case 3
        with m True show ?thesis by (auto simp: wp_simps intro!: wp_DelPattern)
      qed (simp add: wp_throw)
    next
      case (2 e w2)
      then show ?case by (simp add: system_error_def)
    qed
  qed (simp add: wp_guard wp_throw)
qed simp_all

end

text \<open>C27. A message that its sender has revoked is not shown any more. After a successful \<open>RevokeMessage\<close>, while the reads
  of the database do not fail: no page before a cursor, of any two users and at any later time, shows its id. And
  if no deletion by a pattern fails in the cache, then the first page of the sender and the receiving user that
  is asked for next, from either side, does not show it either, whatever page the cache held before; and it
  leaves no other page than itself in the cache. (The identifiers of the two hold no special character of a pattern;
  those that the server makes have none.)\<close>

theorem revoked_message_not_shown:
  assumes "backend E rows str_at set_at pages" and "unique_rows (rows (st_db w))" and "reads_ok E"
    and "answer (RevokeMessage E u mid) w = Some ((msg, 0), w')" and "e_now E \<le> t"
    and "answer (GetMessageList (E\<lparr>e_now := t\<rparr>) tz a b limit beforeId) w' = Some ((msg', rsp, code), w'')"
  shows "\<exists>m. RMessage m \<in> set (rows (st_db w)) \<and> ms_uuid m = mid \<and> ms_send_id m = u \<and>
    (0 < beforeId \<longrightarrow> (\<forall>p \<in> set rsp. rsp_Id p \<noteq> ms_id m)) \<and>
    (beforeId \<le> 0 \<longrightarrow> redis_iteration (e_redis E) str_at ahead \<longrightarrow> pattern_deletes_ok E \<longrightarrow>
       (a, b) = (u, ms_receive_id m) \<or> (a, b) = (ms_receive_id m, u) \<longrightarrow>
       starts_with CHR ''U'' (ms_receive_id m) \<longrightarrow> plain_pattern (message_list_key a b) \<longrightarrow>
       (\<forall>p \<in> set rsp. rsp_Id p \<noteq> ms_id m) \<and>
       (\<forall>t' \<ge> t. str_at (st_redis w'') t' (message_list_key a b) \<in> {None, Some (marshal_list user_respond_json rsp)}))"
proof -
  let ?E = "E\<lparr>e_now := t\<rparr>"
  have R: "backend ?E rows str_at set_at pages" by (rule backend_now [OF assms(1)])
  have reads: "reads_ok ?E" using assms(3) by (simp add: reads_ok_def)
  have "\<exists>a w'. answer (RevokeMessage E u mid) w = Some (a, w') \<and> (snd a = 0 \<longrightarrow> backend.by_sender E rows u mid w a w')"
    by (rule wp_answer, rule wp_mono [OF backend.RevokeMessage_wp [OF assms(1,2)]]) auto
  with assms(4) obtain m w1 where m: "ms_uuid m = mid" "ms_send_id m = u" "backend.revoked E rows m w w1"
      "rows (st_db w') = rows (st_db w1)"
    unfolding backend.by_sender_def [OF assms(1)] by auto
  then have rv: "RMessage m \<in> set (rows (st_db w))" "unique_rows (rows (st_db w'))"
      "rows (st_db w') = map (\<lambda>r. if r = RMessage m then RMessage (m\<lparr>ms_deleted_at := Some (e_now E)\<rparr>) else r) (rows (st_db w))"
    using m(3) unfolding backend.revoked_def [OF assms(1)] m(4) by blast+
  have gone: "ms_id p \<noteq> ms_id m" if "RMessage p \<in> set (rows (st_db w'))" "ms_deleted_at p = None" for p
  proof -
    have "m \<noteq> m\<lparr>ms_deleted_at := Some (e_now E)\<rparr>" if "ms_deleted_at m = None" using that by (cases m) auto
    then have "RMessage p \<in> set (rows (st_db w))" "p \<noteq> m" using that unfolding rv(3) by (auto split: if_splits)
    then show ?thesis using unique_rowsD [OF assms(2) rv(1), of "RMessage p"] by (auto simp: conflict_def)
  qed
  have cursor: "\<forall>p \<in> set rsp. rsp_Id p \<noteq> ms_id m" if "0 < beforeId"
  proof -
    have "\<exists>r w''. answer (GetMessageList ?E tz a b limit beforeId) w' = Some (r, w'') \<and>
        (\<exists>page. fst (snd r) = map (user_message_respond tz) page \<and>
           (\<forall>p \<in> set page. RMessage p \<in> set (rows (st_db w')) \<and> ms_deleted_at p = None))"
      by (rule wp_answer, rule wp_mono [OF backend.GetMessageList_wp [OF R rv(2) reads that]])
         (auto simp: shown_page_def)
    with assms(6) gone show ?thesis
      by (auto simp: user_message_respond_def message_respond_def MessageRespond.defs)
  qed
  moreover have first: "(\<forall>p \<in> set rsp. rsp_Id p \<noteq> ms_id m) \<and>
      (\<forall>t' \<ge> t. str_at (st_redis w'') t' (message_list_key a b) \<in> {None, Some (marshal_list user_respond_json rsp)})"
    if "beforeId \<le> 0" "redis_iteration (e_redis E) str_at ahead" "pattern_deletes_ok E"
      "(a, b) = (u, ms_receive_id m) \<or> (a, b) = (ms_receive_id m, u)"
      "starts_with CHR ''U'' (ms_receive_id m)" "plain_pattern (message_list_key a b)"
  proof -
    have "\<exists>r w'. answer (RevokeMessage E u mid) w = Some (r, w') \<and> (snd r = 0 \<longrightarrow> (\<exists>m. RMessage m \<in> set (rows (st_db w)) \<and> ms_uuid m = mid \<and> ms_send_id m = u \<and>
        (starts_with CHR ''U'' (ms_receive_id m) \<longrightarrow> (\<forall>t \<ge> e_now E. \<forall>k \<in> {message_list_key u (ms_receive_id m), message_list_key (ms_receive_id m) u}.
         plain_pattern k \<longrightarrow> str_at (st_redis w') t k = None))))"
      by (rule wp_answer, rule wp_mono [OF backend.RevokeMessage_clears [OF assms(1) that(2,3)]]) auto
    with assms(4) obtain m' where m': "RMessage m' \<in> set (rows (st_db w))" "ms_uuid m' = mid" and
      "starts_with CHR ''U'' (ms_receive_id m') \<longrightarrow> (\<forall>t \<ge> e_now E. \<forall>k \<in> {message_list_key u (ms_receive_id m'), message_list_key (ms_receive_id m') u}.
         plain_pattern k \<longrightarrow> str_at (st_redis w') t k = None)" by auto
    moreover have "m' = m" using unique_rowsD [OF assms(2) m'(1) rv(1)] m'(2) m(1) by (auto simp: conflict_def)
    ultimately have none: "str_at (st_redis w') t' (message_list_key a b) = None" if "e_now ?E \<le> t'" for t'
      using that \<open>(a, b) = _ \<or> _\<close> \<open>starts_with _ _\<close> \<open>plain_pattern _\<close> assms(5) by auto
    have "\<exists>r w''. answer (GetMessageList ?E tz a b limit beforeId) w' = Some (r, w'') \<and>
        (\<forall>p \<in> set (fst (snd r)). \<exists>m. RMessage m \<in> set (rows (st_db w')) \<and> ms_deleted_at m = None \<and> rsp_Id p = ms_id m) \<and>
        (\<forall>t' \<ge> t. str_at (st_redis w'') t' (message_list_key a b) \<in> {None, Some (marshal_list user_respond_json (fst (snd r)))})"
      by (rule wp_answer, rule wp_mono [OF backend.GetMessageList_first [OF R reads that(1) none]]) auto
    with assms(6) gone show ?thesis by fastforce
  qed
  ultimately show ?thesis using m(1,2) rv(1) by blast
qed

theorem revoked_message_not_shown_witness:
  "\<exists>w' rsp. answer (RevokeMessage (mem_env_reads 9) ''U1'' ''8'') demo_chat = Some ((Msg ''revoked'', 0), w') \<and>
     (\<exists>w''. answer (GetMessageList ((mem_env_reads 9)\<lparr>e_now := 10\<rparr>) 0 ''U2'' ''U1'' 50 0) w' = Some ((Msg ''loaded'', rsp, 0), w'')) \<and>
     (\<forall>p \<in> set rsp. rsp_Id p \<noteq> 8)"
proof -
  obtain w' where w': "answer (RevokeMessage (mem_env_reads 9) ''U1'' ''8'') demo_chat = Some ((Msg ''revoked'', 0), w')"
    and empty: "mr_data (st_redis w') = []"
    by (simp add: demo_chat_def demo_message_def demo_defs run_defs mem_read_def message_run_defs List.map_filter_simps)
  let ?E = "(mem_env_reads 9)\<lparr>e_now := 10\<rparr>"
  obtain rsp w'' where pg: "answer (GetMessageList ?E 0 ''U2'' ''U1'' 50 0) w' = Some ((Msg ''loaded'', rsp, 0), w'')"
  proof -
    have none: "mem_str (st_redis w') t k = None" for t k by (simp add: mem_str_def mem_get_def empty)
    have "backend ?E md_rows mem_str mem_set (\<lambda>_. 0)" and "reads_ok ?E"
      using backend_now [OF mem_backend] reads_ok_mem by (simp_all add: reads_ok_def)
    from wp_answer [OF wp_mono [OF backend.GetMessageList_first [OF this _ none, of 0]],
        where Q = "\<lambda>r w''. \<exists>rsp. r = (Msg ''loaded'', rsp, 0)"]
    show ?thesis using that by fastforce
  qed
  have m8: "ms_id m = 8 \<and> ms_receive_id m = ''U2''" if "RMessage m \<in> set (md_rows (st_db demo_chat))" "ms_uuid m = ''8''" for m
    using that by (auto simp: demo_chat_def demo_message_def demo_defs)
  have plain: "plain_pattern (message_list_key ''U2'' ''U1'')" by (simp add: plain_pattern_def message_list_key_def)
  have starts: "starts_with CHR ''U'' ''U2''" by (simp add: starts_with_def)
  have it: "redis_iteration (e_redis (mem_env_reads 9)) mem_str (\<lambda>c k. c = 0)" by (simp add: mem_iteration.redis_iteration_axioms)
  have now: "e_now (mem_env_reads 9) \<le> 10" by simp
  from revoked_message_not_shown [OF mem_backend unique_rows_chat reads_ok_mem w' now pg, where ahead = "\<lambda>c k. c = 0"]
  obtain m where "RMessage m \<in> set (md_rows (st_db demo_chat))" "ms_uuid m = ''8''"
    and "(''U2'', ''U1'') = (ms_receive_id m, ''U1'') \<longrightarrow> starts_with CHR ''U'' (ms_receive_id m) \<longrightarrow> (\<forall>p \<in> set rsp. rsp_Id p \<noteq> ms_id m)"
    using it plain pattern_deletes_ok_mem [of 9] by blast
  with m8 starts have "\<forall>p \<in> set rsp. rsp_Id p \<noteq> 8" by auto
  with w' pg show ?thesis by blast
qed

end
