(* ===== verification/Auth.thy ===== *)
theory Auth
  imports Service_Base Random_Ids
begin

text \<open>
  Who is let in: \<open>pkg/auth\<close> (tokens and passwords), \<open>https_server/middleware\<close> (the authentication,
  administration and rate-limit middlewares with the cached user status) and \<open>service/email\<close> (codes
  sent by e-mail). The libraries for JWT and bcrypt and the mail server are arguments; \<open>crypto_lib\<close>
  collects the functions the code calls and \<open>crypto_ok\<close> states what is documented of them.
\<close>

section \<open>Tokens and passwords\<close>

record JWTClaims =
  jc_Uuid :: uuid
  jc_IsAdmin :: int
  jc_ExpiresAt :: time
  jc_IssuedAt :: time
  jc_NotBefore :: time

record crypto_lib =
  cr_sign :: "JWTClaims \<Rightarrow> string \<Rightarrow> string option"
  cr_parse :: "string \<Rightarrow> string \<Rightarrow> time \<Rightarrow> JWTClaims option"
  cr_hash :: "nat \<Rightarrow> string \<Rightarrow> string option"
  cr_compare :: "string \<Rightarrow> string \<Rightarrow> bool"

definition whole_seconds :: "JWTClaims \<Rightarrow> bool" where
  "whole_seconds c \<longleftrightarrow> second dvd jc_ExpiresAt c \<and> second dvd jc_IssuedAt c \<and> second dvd jc_NotBefore c"

text \<open>A signed token whose times are whole seconds (others are cut) parses back under its secret while it is valid: not before \<open>nbf\<close>, before
  \<open>exp\<close>. A bcrypt hash accepts the password it was made of, whatever the salt.\<close>

definition crypto_ok :: "crypto_lib \<Rightarrow> bool" where
  "crypto_ok C \<longleftrightarrow>
     (\<forall>c k s. whole_seconds c \<longrightarrow> cr_sign C c k = Some s \<longrightarrow> s \<noteq> [] \<and>
        (\<forall>t. cr_parse C s k t = (if jc_NotBefore c \<le> t \<and> t < jc_ExpiresAt c then Some c else None))) \<and>
     (\<forall>salt p h. cr_hash C salt p = Some h \<longrightarrow> cr_compare C h p)"

text \<open>\<open>jwt.NewNumericDate\<close> cuts a time to seconds.\<close>

definition numeric_date :: "time \<Rightarrow> time" where
  "numeric_date t = t div second * second"

definition SetSecret :: "string \<Rightarrow> string option" where
  "SetSecret secret = (if length secret < 32 then None else Some secret)"

definition GenerateToken :: "crypto_lib \<Rightarrow> string \<Rightarrow> uuid \<Rightarrow> int \<Rightarrow> time \<Rightarrow> string option" where
  "GenerateToken C jwtSecret uuid isAdmin now =
     (if jwtSecret = [] then None
      else cr_sign C \<lparr>jc_Uuid = uuid, jc_IsAdmin = isAdmin, jc_ExpiresAt = numeric_date (now + 24 * 60 * minute),
        jc_IssuedAt = numeric_date now, jc_NotBefore = numeric_date now\<rparr> jwtSecret)"

definition ParseToken :: "crypto_lib \<Rightarrow> string \<Rightarrow> string \<Rightarrow> time \<Rightarrow> JWTClaims option" where
  "ParseToken C jwtSecret tokenString now =
     (if jwtSecret = [] then None else cr_parse C tokenString jwtSecret now)"

definition HashPassword :: "crypto_lib \<Rightarrow> nat \<Rightarrow> string \<Rightarrow> string option" where
  "HashPassword C salt password = cr_hash C salt password"

definition VerifyPassword :: "crypto_lib \<Rightarrow> string \<Rightarrow> string \<Rightarrow> bool" where
  "VerifyPassword C hashedPassword password = cr_compare C hashedPassword password"

lemma numeric_date_le: "numeric_date t \<le> t"
  by (simp add: numeric_date_def)

lemma numeric_date_gt: "t - second < numeric_date t"
  unfolding numeric_date_def by linarith

lemma whole_seconds_numeric [simp]:
  "whole_seconds \<lparr>jc_Uuid = u, jc_IsAdmin = a, jc_ExpiresAt = numeric_date x, jc_IssuedAt = numeric_date y, jc_NotBefore = numeric_date z\<rparr>"
  by (simp add: whole_seconds_def numeric_date_def)

lemma crypto_okD:
  assumes "crypto_ok C"
  shows "cr_sign C c k = Some s \<Longrightarrow> whole_seconds c \<Longrightarrow> cr_parse C s k t = (if jc_NotBefore c \<le> t \<and> t < jc_ExpiresAt c then Some c else None)"
    and "cr_sign C c k = Some s \<Longrightarrow> whole_seconds c \<Longrightarrow> s \<noteq> []" and "cr_hash C salt p = Some h \<Longrightarrow> cr_compare C h p"
  using assms unfolding crypto_ok_def by blast+

lemma token_valid:
  assumes "crypto_ok C" and "GenerateToken C k u a now = Some s" and "now \<le> t" and "t \<le> now + 24 * 60 * minute - second"
  shows "s \<noteq> [] \<and> (\<exists>c. ParseToken C k s t = Some c \<and> jc_Uuid c = u \<and> jc_IsAdmin c = a)"
  using assms numeric_date_le [of now] numeric_date_gt [of "now + 24 * 60 * minute"]
  by (auto simp: GenerateToken_def ParseToken_def crypto_okD [OF assms(1)] split: if_splits)

lemma token_expired:
  assumes "crypto_ok C" and "GenerateToken C k u a now = Some s" and "now + 24 * 60 * minute \<le> t"
  shows "ParseToken C k s t = None"
  using assms numeric_date_le [of "now + 24 * 60 * minute"]
  by (auto simp: GenerateToken_def ParseToken_def crypto_okD [OF assms(1)] split: if_splits)

section \<open>The status of a user\<close>

definition userStatusCachePrefix :: string where
  "userStatusCachePrefix = ''auth_user_status_''"

definition userStatusCacheTTL :: time where
  "userStatusCacheTTL = 60 * second"

definition userStatusDeleted :: int where
  "userStatusDeleted = -1"

text \<open>The database is initialised before the server listens.\<close>

definition CheckUserActive :: "('d, 'r) env \<Rightarrow> uuid \<Rightarrow> ('d, 'r, 'e, bool \<times> int) svc" where
  "CheckUserActive E uuid =
     (let key = userStatusCachePrefix @ uuid;
          remember = (\<lambda>v. logged (SetCache E key (itoa v) userStatusCacheTTL));
          lookup = attempt (First E users (\<lambda>u. ui_uuid u = uuid)) (\<lambda>r. case r of
              Inl e \<Rightarrow>
                if e = NotFound then bnd (remember userStatusDeleted) (\<lambda>_. ret (False, 401))
                else ret (False, 500)
            | Inr user \<Rightarrow>
                bnd (remember (ui_status user)) (\<lambda>_.
                if ui_status user \<noteq> user_NORMAL then ret (False, 401) else ret (True, 200)))
      in attempt (on_redis (GetKey (e_redis E) key (e_now E))) (\<lambda>r. case r of
           Inr cached \<Rightarrow>
             (case (if cached \<noteq> [] then parse_int 64 cached else None) of
                Some status \<Rightarrow>
                  if status = userStatusDeleted \<or> status \<noteq> user_NORMAL then ret (False, 401) else ret (True, 200)
              | None \<Rightarrow> lookup)
         | Inl _ \<Rightarrow> lookup))"

definition InvalidateUserStatusCache :: "('d, 'r) env \<Rightarrow> uuid \<Rightarrow> ('d, 'r, 'e, unit) svc" where
  "InvalidateUserStatusCache E uuid = logged (DelIfExists E (userStatusCachePrefix @ uuid))"

section \<open>Middlewares\<close>

text \<open>\<open>strings.SplitN(s, " ", 2)\<close>\<close>

fun split_space :: "string \<Rightarrow> string \<times> string option" where
  "split_space [] = ([], None)"
| "split_space (c # cs) =
     (if c = CHR '' '' then ([], Some cs) else (case split_space cs of (a, b) \<Rightarrow> (c # a, b)))"

text \<open>The answer is the HTTP status of a refusal, or what is put into the context: the uuid and the
  administrator flag of the token.\<close>

definition AuthMiddleware ::
  "('d, 'r) env \<Rightarrow> crypto_lib \<Rightarrow> string \<Rightarrow> string \<Rightarrow> string \<Rightarrow> ('d, 'r, int, uuid \<times> int) svc" where
  "AuthMiddleware E C jwtSecret authHeader query =
     bnd (if authHeader \<noteq> [] then
            (case split_space authHeader of
               (scheme, Some rest) \<Rightarrow> if scheme = ''Bearer'' then ret rest else throw 401
             | (_, None) \<Rightarrow> throw 401)
          else ret query) (\<lambda>tokenString.
     bnd (guard (tokenString \<noteq> []) 401) (\<lambda>_.
     (case ParseToken C jwtSecret tokenString (e_now E) of
        None \<Rightarrow> throw 401
      | Some claims \<Rightarrow>
          bnd (CheckUserActive E (jc_Uuid claims)) (\<lambda>(allowed, statusCode).
          if \<not> allowed then throw statusCode
          else ret (jc_Uuid claims, jc_IsAdmin claims)))))"

text \<open>\<open>None\<close>: the authentication did not run before.\<close>

definition AdminMiddleware :: "int option \<Rightarrow> int option" where
  "AdminMiddleware isAdmin =
     (case isAdmin of None \<Rightarrow> Some 403 | Some a \<Rightarrow> if a \<noteq> 1 then Some 403 else None)"

definition rate_key :: "string \<Rightarrow> string \<Rightarrow> string" where
  "rate_key pfx ip = ''ratelimit:'' @ pfx @ '':'' @ ip"

text \<open>\<open>RateLimit\<close>: whether the request goes on; a fault of the counter lets it through. The state is the
  number of requests that were stopped so far (\<open>rateLimitBlocked\<close>) with the cache.\<close>

type_synonym 'r limiter = "64 word \<times> 'r"

definition RateLimitBlockedTotal :: "'r limiter \<Rightarrow> 64 word" where
  "RateLimitBlockedTotal st = fst st"

definition RateLimit ::
  "'r redis_client \<Rightarrow> string \<Rightarrow> int \<Rightarrow> time \<Rightarrow> string \<Rightarrow> time \<Rightarrow> 'r limiter \<Rightarrow> bool \<times> 'r limiter" where
  "RateLimit R pfx limit window ip now st =
     (case st of (rateLimitBlocked, s) \<Rightarrow>
      (case Incr R (rate_key pfx ip) now s of
        (Inl _, s') \<Rightarrow> (True, (rateLimitBlocked, s'))
      | (Inr cnt, s') \<Rightarrow>
          (let s2 = (if cnt = 1 then snd (Expire R (rate_key pfx ip) window now s') else s') in
           if cnt > limit then (False, (rateLimitBlocked + 1, s2)) else (True, (rateLimitBlocked, s2)))))"

section \<open>Codes by e-mail\<close>

definition EmailCodeTTL :: time where
  "EmailCodeTTL = 5 * minute"

definition EmailCodeCooldown :: time where
  "EmailCodeCooldown = 60 * second"

definition codeKey :: "string \<Rightarrow> string" where
  "codeKey email = ''auth_code_email_'' @ email"

definition cooldownKey :: "string \<Rightarrow> string" where
  "cooldownKey email = ''auth_code_cd_'' @ email"

definition normalizeEmail :: "string \<Rightarrow> string" where
  "normalizeEmail email = trim_space (to_lower email)"

text \<open>The code of a request. \<open>GetRandomInt\<close> gives six digits, so that it is neither padded nor cut.\<close>

definition email_code :: "int \<Rightarrow> string" where
  "email_code r =
     (let code = itoa (GetRandomInt r 6);
          code = (if length code \<noteq> 6 then replicate (6 - length code) (CHR ''0'') @ code else code)
      in if 6 < length code then take 6 code else code)"

lemma email_code_digits: "intn_ok r 6 \<Longrightarrow> email_code r = itoa (GetRandomInt r 6)"
  by (simp add: email_code_def length_itoa_random)

text \<open>\<open>smtp\<close> says whether the mail server took the message.\<close>

definition SendEmailCode ::
  "('d, 'r) env \<Rightarrow> int \<Rightarrow> (string \<Rightarrow> string \<Rightarrow> bool) \<Rightarrow> string \<Rightarrow> ('d, 'r, answer, answer) svc" where
  "SendEmailCode E r smtp email =
     (let normalized = normalizeEmail email;
          code = email_code r in
      bnd (or_throw (on_redis (SetNX (e_redis E) (cooldownKey normalized) ''1'' EmailCodeCooldown (e_now E))) (Msg ''system error'', -1)) (\<lambda>ok.
      bnd (guard ok (Msg ''too often'', -2)) (\<lambda>_.
      attempt (SetCache E (codeKey normalized) code EmailCodeTTL) (\<lambda>r. case r of
        Inl _ \<Rightarrow> bnd (logged (DelIfExists E (cooldownKey normalized))) (\<lambda>_. throw (Msg ''system error'', -1))
      | Inr _ \<Rightarrow>
          if \<not> smtp normalized code then
            bnd (logged (DelIfExists E (codeKey normalized))) (\<lambda>_.
            bnd (logged (DelIfExists E (cooldownKey normalized))) (\<lambda>_.
            throw (Msg ''mail not sent'', -1)))
          else ret (Msg ''code sent'', 0)))))"

definition VerifyEmailCode :: "('d, 'r) env \<Rightarrow> string \<Rightarrow> string \<Rightarrow> ('d, 'r, 'e, bool) svc" where
  "VerifyEmailCode E email code =
     (let normalized = normalizeEmail email in
      attempt (on_redis (GetKey (e_redis E) (codeKey normalized) (e_now E))) (\<lambda>r. case r of
        Inl _ \<Rightarrow> ret False
      | Inr stored \<Rightarrow>
          if stored = [] then ret False
          else if stored \<noteq> code then ret False
          else bnd (logged (DelIfExists E (codeKey normalized))) (\<lambda>_. ret True)))"

end
