(* ===== verification/User_Service.thy ===== *)
theory User_Service
  imports Contact_Service Auth
begin

text \<open>
  \<open>service/gorm/user_info_service.go\<close>: registration and the two ways to log in, profiles, and the
  administration of accounts. Disabling and deleting an account closes its connection, drops its
  cached status and removes its sessions (and contacts and applications).
\<close>

section \<open>E-mail addresses\<close>

definition is_re_space :: "char \<Rightarrow> bool" where
  "is_re_space c \<longleftrightarrow> c \<in> {CHR '' '', CHR 0x09, CHR 0x0A, CHR 0x0C, CHR 0x0D}"

definition plain_char :: "char \<Rightarrow> bool" where
  "plain_char c \<longleftrightarrow> \<not> is_re_space c \<and> c \<noteq> CHR ''@''"

text \<open>The pattern \<open>^[^\s@]+@[^\s@]+\.[^\s@]+$\<close>: one at sign, and a dot inside the part after it.\<close>

definition checkEmailValid :: "string \<Rightarrow> bool" where
  "checkEmailValid email =
     (let a = takeWhile plain_char email in
      case drop (length a) email of
        [] \<Rightarrow> False
      | c # b \<Rightarrow> a \<noteq> [] \<and> c = CHR ''@'' \<and> list_all plain_char b \<and>
          list_ex (\<lambda>i. b ! i = CHR ''.'') [1..<length b - 1])"

section \<open>Logging in\<close>

record LoginRespond =
  lr_Uuid :: string
  lr_Nickname :: string
  lr_Telephone :: string
  lr_Avatar :: string
  lr_Email :: string
  lr_Gender :: int
  lr_Birthday :: string
  lr_Signature :: string
  lr_CreatedAt :: string
  lr_IsAdmin :: int
  lr_Status :: int
  lr_Token :: string

text \<open>\<open>fmt.Sprintf("%d.%d.%d", year, month, day)\<close>\<close>

definition short_date :: "time \<Rightarrow> time \<Rightarrow> string" where
  "short_date tz t =
     (let (y, m, d) = civil_from_days ((t + tz) div (86400 * second))
      in itoa y @ ''.'' @ itoa m @ ''.'' @ itoa d)"

definition login_respond :: "time \<Rightarrow> UserInfo \<Rightarrow> string \<Rightarrow> LoginRespond" where
  "login_respond tz u token =
     \<lparr>lr_Uuid = ui_uuid u, lr_Nickname = ui_nickname u, lr_Telephone = ui_telephone u, lr_Avatar = ui_avatar u,
      lr_Email = ui_email u, lr_Gender = ui_gender u, lr_Birthday = ui_birthday u,
      lr_Signature = ui_signature u, lr_CreatedAt = short_date tz (ui_created_at u),
      lr_IsAdmin = ui_is_admin u, lr_Status = ui_status u, lr_Token = token\<rparr>"

type_synonym login_answer = "LoginRespond option data_answer"

definition LoginFailed :: "string \<Rightarrow> login_answer" where
  "LoginFailed m = (Msg m, None, -2)"

text \<open>The account of an address, with the answer to an unknown one; a disabled account is refused.\<close>

definition enabled_account :: "('d, 'r) env \<Rightarrow> string \<Rightarrow> string \<Rightarrow> ('d, 'r, login_answer, UserInfo) svc" where
  "enabled_account E email unknown =
     bnd (attempt (First E users (\<lambda>u. ui_email u = email)) (\<lambda>r. case r of
         Inr u \<Rightarrow> ret u
       | Inl e \<Rightarrow> throw (if e = NotFound then LoginFailed unknown else (SystemError, None, -1)))) (\<lambda>u.
     bnd (guard (ui_status u \<noteq> user_DISABLE) (LoginFailed ''account disabled'')) (\<lambda>_. ret u))"

definition token_answer ::
  "crypto_lib \<Rightarrow> string \<Rightarrow> time \<Rightarrow> time \<Rightarrow> string \<Rightarrow> UserInfo \<Rightarrow> ('d, 'r, login_answer, login_answer) svc" where
  "token_answer C jwtSecret tz now done u =
     (case GenerateToken C jwtSecret (ui_uuid u) (ui_is_admin u) now of
        None \<Rightarrow> throw (SystemError, None, -1)
      | Some token \<Rightarrow> ret (Msg done, Some (login_respond tz u token), 0))"

definition Login ::
  "('d, 'r) env \<Rightarrow> crypto_lib \<Rightarrow> string \<Rightarrow> time \<Rightarrow> string \<Rightarrow> string \<Rightarrow> ('d, 'r, login_answer, login_answer) svc" where
  "Login E C jwtSecret tz reqEmail password =
     (let email = normalizeEmail reqEmail in
      bnd (guard (checkEmailValid email) (LoginFailed ''malformed address'')) (\<lambda>_.
      bnd (enabled_account E email ''wrong address or password'') (\<lambda>u.
      bnd (guard (VerifyPassword C (ui_password u) password) (LoginFailed ''wrong address or password'')) (\<lambda>_.
      token_answer C jwtSecret tz (e_now E) ''logged in'' u))))"

definition EmailLogin ::
  "('d, 'r) env \<Rightarrow> crypto_lib \<Rightarrow> string \<Rightarrow> time \<Rightarrow> string \<Rightarrow> string \<Rightarrow> ('d, 'r, login_answer, login_answer) svc" where
  "EmailLogin E C jwtSecret tz reqEmail code =
     (let email = normalizeEmail reqEmail in
      bnd (guard (checkEmailValid email) (LoginFailed ''malformed address'')) (\<lambda>_.
      bnd (enabled_account E email ''wrong address or code'') (\<lambda>u.
      bnd (VerifyEmailCode E email code) (\<lambda>ok.
      bnd (guard ok (LoginFailed ''wrong address or code'')) (\<lambda>_.
      token_answer C jwtSecret tz (e_now E) ''logged in'' u)))))"

definition user_SendEmailCode ::
  "('d, 'r) env \<Rightarrow> int \<Rightarrow> (string \<Rightarrow> string \<Rightarrow> bool) \<Rightarrow> string \<Rightarrow> ('d, 'r, answer, answer) svc" where
  "user_SendEmailCode E r smtp email =
     (let normalized = normalizeEmail email in
      bnd (guard (checkEmailValid normalized) (Msg ''malformed address'', -2)) (\<lambda>_.
      SendEmailCode E r smtp normalized))"

section \<open>Registering\<close>

record RegisterRequest =
  rr_Email :: string
  rr_Password :: string
  rr_Nickname :: string
  rr_EmailCode :: string

definition checkEmailExist :: "('d, 'r) env \<Rightarrow> string \<Rightarrow> ('d, 'r, login_answer, unit) svc" where
  "checkEmailExist E email = attempt (First E users (\<lambda>u. ui_email u = email)) (\<lambda>r. case r of
     Inl e \<Rightarrow> if e = NotFound then ret () else throw (SystemError, None, -1)
   | Inr _ \<Rightarrow> throw (LoginFailed ''address taken''))"

definition new_user :: "string \<Rightarrow> string \<Rightarrow> string \<Rightarrow> string \<Rightarrow> time \<Rightarrow> UserInfo" where
  "new_user uid email hash nickname now =
     zero_user\<lparr>ui_uuid := uid, ui_email := email, ui_password := hash, ui_nickname := nickname,
       ui_avatar := default_avatar, ui_created_at := now, ui_is_admin := 0, ui_status := user_NORMAL\<rparr>"

definition Register ::
  "('d, 'r) env \<Rightarrow> crypto_lib \<Rightarrow> string \<Rightarrow> time \<Rightarrow> nat \<Rightarrow> int \<Rightarrow> RegisterRequest \<Rightarrow>
   ('d, 'r, login_answer, login_answer) svc" where
  "Register E C jwtSecret tz salt rnd req =
     (let email = normalizeEmail (rr_Email req) in
      bnd (guard (checkEmailValid email) (LoginFailed ''malformed address'')) (\<lambda>_.
      bnd (VerifyEmailCode E email (rr_EmailCode req)) (\<lambda>ok.
      bnd (guard ok (LoginFailed ''wrong or expired code'')) (\<lambda>_.
      bnd (checkEmailExist E email) (\<lambda>_.
      (case HashPassword C salt (rr_Password req) of
         None \<Rightarrow> throw (SystemError, None, -1)
       | Some hash \<Rightarrow>
           bnd (attempt (Create E users (new_user (CHR ''U'' # GetNowAndLenRandomString tz (e_now E) rnd 11) email hash
                (rr_Nickname req) (e_now E))) (\<lambda>r. case r of
              Inl e \<Rightarrow> throw (if e = Duplicate then LoginFailed ''address taken'' else (SystemError, None, -1))
            | Inr u \<Rightarrow> ret u)) (\<lambda>u.
           token_answer C jwtSecret tz (e_now E) ''registered'' u)))))))"

section \<open>Profiles\<close>

record UpdateUserInfoRequest =
  uq_Uuid :: string
  uq_Email :: string
  uq_Nickname :: string
  uq_Birthday :: string
  uq_Signature :: string
  uq_Avatar :: string

definition or_keep :: "string \<Rightarrow> string \<Rightarrow> string" where
  "or_keep new old = (if new \<noteq> [] then new else old)"

definition user_changes :: "UpdateUserInfoRequest \<Rightarrow> UserInfo \<Rightarrow> UserInfo" where
  "user_changes req u =
     u\<lparr>ui_email := or_keep (uq_Email req) (ui_email u), ui_nickname := or_keep (uq_Nickname req) (ui_nickname u),
       ui_birthday := or_keep (uq_Birthday req) (ui_birthday u),
       ui_signature := or_keep (uq_Signature req) (ui_signature u), ui_avatar := or_keep (uq_Avatar req) (ui_avatar u)\<rparr>"

definition UpdateUserInfo :: "('d, 'r) env \<Rightarrow> UpdateUserInfoRequest \<Rightarrow> ('d, 'r, answer, answer) svc" where
  "UpdateUserInfo E req =
     bnd (or_throw (First E users (\<lambda>u. ui_uuid u = uq_Uuid req)) system_error) (\<lambda>u.
     bnd (or_throw (Save E users (user_changes req u)) system_error) (\<lambda>_.
     ret (Msg ''changed'', 0)))"

record GetUserListRespond =
  ul_Uuid :: string
  ul_Nickname :: string
  ul_Telephone :: string
  ul_Status :: int
  ul_IsAdmin :: int
  ul_IsDeleted :: bool

definition GetUserInfoList ::
  "('d, 'r) env \<Rightarrow> uuid \<Rightarrow> ('d, 'r, GetUserListRespond list data_answer, GetUserListRespond list data_answer) svc" where
  "GetUserInfoList E ownerId =
     bnd (or_throw (FindUnscoped E users (\<lambda>u. ui_uuid u \<noteq> ownerId)) (SystemError, [], -1)) (\<lambda>us.
     ret (Msg ''loaded'', map (\<lambda>u. \<lparr>ul_Uuid = ui_uuid u, ul_Nickname = ui_nickname u, ul_Telephone = ui_telephone u,
       ul_Status = ui_status u, ul_IsAdmin = ui_is_admin u, ul_IsDeleted = (ui_deleted_at u \<noteq> 0)\<rparr>) us, 0))"

record GetUserInfoRespond =
  gu_Uuid :: string
  gu_Nickname :: string
  gu_Telephone :: string
  gu_Avatar :: string
  gu_Email :: string
  gu_Gender :: int
  gu_Birthday :: string
  gu_Signature :: string
  gu_CreatedAt :: string
  gu_IsAdmin :: int
  gu_Status :: int

definition zero_user_info :: GetUserInfoRespond where
  "zero_user_info = \<lparr>gu_Uuid = [], gu_Nickname = [], gu_Telephone = [], gu_Avatar = [], gu_Email = [],
     gu_Gender = 0, gu_Birthday = [], gu_Signature = [], gu_CreatedAt = [], gu_IsAdmin = 0, gu_Status = 0\<rparr>"

definition user_info_fields :: "(string \<times> GetUserInfoRespond setter) list" where
  "user_info_fields =
     [(''uuid'', set_string (\<lambda>v u. u\<lparr>gu_Uuid := v\<rparr>)), (''nickname'', set_string (\<lambda>v u. u\<lparr>gu_Nickname := v\<rparr>)),
      (''telephone'', set_string (\<lambda>v u. u\<lparr>gu_Telephone := v\<rparr>)), (''avatar'', set_string (\<lambda>v u. u\<lparr>gu_Avatar := v\<rparr>)),
      (''email'', set_string (\<lambda>v u. u\<lparr>gu_Email := v\<rparr>)), (''gender'', set_int 8 (\<lambda>v u. u\<lparr>gu_Gender := v\<rparr>)),
      (''birthday'', set_string (\<lambda>v u. u\<lparr>gu_Birthday := v\<rparr>)),
      (''signature'', set_string (\<lambda>v u. u\<lparr>gu_Signature := v\<rparr>)),
      (''created_at'', set_string (\<lambda>v u. u\<lparr>gu_CreatedAt := v\<rparr>)),
      (''is_admin'', set_int 8 (\<lambda>v u. u\<lparr>gu_IsAdmin := v\<rparr>)), (''status'', set_int 8 (\<lambda>v u. u\<lparr>gu_Status := v\<rparr>))]"

definition user_info_respond :: "time \<Rightarrow> UserInfo \<Rightarrow> GetUserInfoRespond" where
  "user_info_respond tz u =
     \<lparr>gu_Uuid = ui_uuid u, gu_Nickname = ui_nickname u, gu_Telephone = ui_telephone u, gu_Avatar = ui_avatar u,
      gu_Email = ui_email u, gu_Gender = ui_gender u, gu_Birthday = ui_birthday u, gu_Signature = ui_signature u,
      gu_CreatedAt = format_datetime tz (ui_created_at u), gu_IsAdmin = ui_is_admin u, gu_Status = ui_status u\<rparr>"

text \<open>An unknown user is the zero value, with the zero time; nothing writes the cache key any more.\<close>

definition GetUserInfo ::
  "('d, 'r) env \<Rightarrow> time \<Rightarrow> uuid \<Rightarrow>
   ('d, 'r, GetUserInfoRespond option data_answer, GetUserInfoRespond option data_answer) svc" where
  "GetUserInfo E tz uuid = attempt (GetCache E (''user_info_'' @ uuid)) (\<lambda>r. case r of
       Inr s \<Rightarrow> ret (Msg ''loaded'', Some (fst (json_unmarshal user_info_fields s zero_user_info)), 0)
     | Inl RedisNil \<Rightarrow>
         bnd (or_throw (Find E users (\<lambda>u. ui_uuid u = uuid)) (SystemError, None, -1)) (\<lambda>us.
         ret (Msg ''loaded'', Some (case us of
           [] \<Rightarrow> zero_user_info\<lparr>gu_CreatedAt := ''0001-01-01 00:00:00''\<rparr> | u # _ \<Rightarrow> user_info_respond tz u), 0))
     | Inl _ \<Rightarrow> throw (SystemError, None, -1))"

section \<open>Administration\<close>

text \<open>\<open>chat.ClientLogout\<close>, which always answers with code 0: the connection of the user is asked to
  close.\<close>

definition ask_logout :: "uuid \<Rightarrow> ('d, 'r, 'e, unit) svc" where
  "ask_logout u w = Some (Inr (), w\<lparr>st_logouts := st_logouts w @ [u]\<rparr>)"

definition AbleUsers :: "('d, 'r) env \<Rightarrow> uuid list \<Rightarrow> ('d, 'r, answer, answer) svc" where
  "AbleUsers E uuidList =
     bnd (or_throw (Find E users (\<lambda>u. ui_uuid u \<in> set uuidList)) system_error) (\<lambda>us.
     bnd (for_each us (\<lambda>u.
       bnd (or_throw (Save E users (u\<lparr>ui_status := user_NORMAL\<rparr>)) system_error) (\<lambda>_.
       InvalidateUserStatusCache E (ui_uuid u)))) (\<lambda>_.
     ret (Msg ''enabled'', 0)))"

text \<open>Every live row of a table that meets the condition is loaded and saved with a deletion time.\<close>

definition delete_each ::
  "('d, 'r) env \<Rightarrow> 't table \<Rightarrow> ('t \<Rightarrow> bool) \<Rightarrow> ('t \<Rightarrow> 't) \<Rightarrow> ('d, 'r, answer, unit) svc" where
  "delete_each E T P del =
     bnd (or_throw (Find E T P) system_error) (\<lambda>xs.
     for_each xs (\<lambda>x. or_throw (Save E T (del x)) system_error))"

definition session_with :: "uuid \<Rightarrow> Session \<Rightarrow> bool" where
  "session_with u s \<longleftrightarrow> se_send_id s = u \<or> se_receive_id s = u"

definition disable_user :: "('d, 'r) env \<Rightarrow> UserInfo \<Rightarrow> ('d, 'r, answer, unit) svc" where
  "disable_user E u =
     bnd (or_throw (Save E users (u\<lparr>ui_status := user_DISABLE\<rparr>)) system_error) (\<lambda>_.
     bnd (ask_logout (ui_uuid u)) (\<lambda>_.
     bnd (InvalidateUserStatusCache E (ui_uuid u)) (\<lambda>_.
     delete_each E sessions (session_with (ui_uuid u)) (\<lambda>s. s\<lparr>se_deleted_at := Some (e_now E)\<rparr>))))"

definition DisableUsers :: "('d, 'r) env \<Rightarrow> uuid list \<Rightarrow> ('d, 'r, answer, answer) svc" where
  "DisableUsers E uuidList =
     bnd (or_throw (Find E users (\<lambda>u. ui_uuid u \<in> set uuidList)) system_error) (\<lambda>us.
     bnd (for_each us (disable_user E)) (\<lambda>_.
     ret (Msg ''disabled'', 0)))"

definition delete_user :: "('d, 'r) env \<Rightarrow> UserInfo \<Rightarrow> ('d, 'r, answer, unit) svc" where
  "delete_user E u =
     bnd (or_throw (Save E users (u\<lparr>ui_deleted_at := e_now E\<rparr>)) system_error) (\<lambda>_.
     bnd (ask_logout (ui_uuid u)) (\<lambda>_.
     bnd (InvalidateUserStatusCache E (ui_uuid u)) (\<lambda>_.
     bnd (delete_each E sessions (session_with (ui_uuid u)) (\<lambda>s. s\<lparr>se_deleted_at := Some (e_now E)\<rparr>)) (\<lambda>_.
     bnd (delete_each E contacts (\<lambda>c. uc_user_id c = ui_uuid u \<or> uc_contact_id c = ui_uuid u)
       (\<lambda>c. c\<lparr>uc_deleted_at := Some (e_now E)\<rparr>)) (\<lambda>_.
     delete_each E applies (\<lambda>a. ca_user_id a = ui_uuid u \<or> ca_contact_id a = ui_uuid u)
       (\<lambda>a. a\<lparr>ca_deleted_at := Some (e_now E)\<rparr>))))))"

definition DeleteUsers :: "('d, 'r) env \<Rightarrow> uuid list \<Rightarrow> ('d, 'r, answer, answer) svc" where
  "DeleteUsers E uuidList =
     bnd (or_throw (Find E users (\<lambda>u. ui_uuid u \<in> set uuidList)) system_error) (\<lambda>us.
     bnd (for_each us (delete_user E)) (\<lambda>_.
     ret (Msg ''users deleted'', 0)))"

text \<open>\<open>uuid = (?)\<close> with a list becomes a row comparison, which MySQL rejects from two elements on.\<close>

definition SetAdmin :: "('d, 'r) env \<Rightarrow> uuid list \<Rightarrow> int \<Rightarrow> ('d, 'r, answer, answer) svc" where
  "SetAdmin E uuidList isAdmin =
     (if 1 < length uuidList then throw system_error
      else
        bnd (or_throw (Find E users (\<lambda>u. ui_uuid u \<in> set uuidList)) system_error) (\<lambda>us.
        bnd (for_each us (\<lambda>u. or_throw (Save E users (u\<lparr>ui_is_admin := isAdmin\<rparr>)) system_error)) (\<lambda>_.
        ret (Msg ''administrator set'', 0))))"

end
