(* ===== verification/Auth_Safety.thy ===== *)
theory Auth_Safety
  imports Auth Database_Memory
begin

text \<open>
  What the ways in guarantee: the rate limit lets exactly the first requests of a window through,
  and locks an address out for good when the window could not be opened; a code sent by e-mail
  verifies once while it lives; a token admits its active user for a day and nobody after it.
\<close>

section \<open>The rate limit\<close>

text \<open>Requests of one address, at the given times.\<close>

fun requests ::
  "'r redis_client \<Rightarrow> string \<Rightarrow> int \<Rightarrow> time \<Rightarrow> string \<Rightarrow> time list \<Rightarrow> 'r limiter \<Rightarrow> bool list" where
  "requests R pfx limit window ip [] s = []"
| "requests R pfx limit window ip (t # ts) s =
     (case RateLimit R pfx limit window ip t s of (b, s') \<Rightarrow> b # requests R pfx limit window ip ts s')"

definition incr_up :: "'r redis_client \<Rightarrow> ('r \<Rightarrow> time \<Rightarrow> string \<Rightarrow> (int \<times> time option) option) \<Rightarrow> bool" where
  "incr_up R cnt_at \<longleftrightarrow> (\<forall>s t k i e. cnt_at s t k = Some (i, e) \<longrightarrow> 0 \<le> i \<longrightarrow> i < 2 ^ 62 \<longrightarrow>
     (\<exists>n s'. rc_incr R k t s = (ROk n, s')))"

definition before :: "time list \<Rightarrow> time option \<Rightarrow> bool" where
  "before ts e = (case e of None \<Rightarrow> True | Some x \<Rightarrow> \<forall>t \<in> set ts. t < x)"

context redis_counters
begin

lemma RateLimit_next:
  assumes "incr_up R cnt_at" and "cnt_at s t0 (rate_key pfx ip) = Some (int i, e)" and "0 < i" and "int i < 2 ^ 62"
    and "t0 \<le> t" and "before (t # ts) e"
  shows "\<exists>s'. RateLimit R pfx limit window ip t (b, s) = (int i < limit, (if int i < limit then b else b + 1, s')) \<and>
    cnt_at s' t (rate_key pfx ip) = Some (int (Suc i), e)"
proof -
  have c: "cnt_at s t (rate_key pfx ip) = Some (int i, e)"
    using cnt_later [OF assms(2,5)] assms(6) by (auto simp: before_def split: option.splits)
  obtain n s' where inc: "rc_incr R (rate_key pfx ip) t s = (ROk n, s')"
    using assms(1) [unfolded incr_up_def, rule_format, OF c] assms(4) by auto
  with incr_ok [OF inc c] assms(3) show ?thesis
    by (auto simp: RateLimit_def Incr_def plain_reply_def Let_def)
qed

lemma requests_counted:
  assumes "incr_up R cnt_at" and "cnt_at s t0 (rate_key pfx ip) = Some (int i, e)" and "0 < i"
    and "int (i + length ts) < 2 ^ 62" and "sorted (t0 # ts)" and "before ts e"
  shows "requests R pfx limit window ip ts (b, s) = map (\<lambda>j. int j < limit) [i..<i + length ts]"
  using assms(2-)
proof (induction ts arbitrary: b s t0 i)
  case (Cons t ts)
  obtain b' s' where s': "RateLimit R pfx limit window ip t (b, s) = (int i < limit, (b', s'))"
      "cnt_at s' t (rate_key pfx ip) = Some (int (Suc i), e)"
    using RateLimit_next [OF assms(1) Cons.prems(1,2), of t ts limit window b] Cons.prems(3-5) by auto
  have "requests R pfx limit window ip ts (b', s') = map (\<lambda>j. int j < limit) [Suc i..<Suc i + length ts]"
    by (rule Cons.IH [OF s'(2)]) (use Cons.prems in \<open>auto simp: before_def split: option.splits\<close>)
  with s' show ?case by (simp add: upt_conv_Cons del: upt_Suc)
qed simp

lemma requests_from_start:
  assumes "incr_up R cnt_at" and "cnt_at s t0 (rate_key pfx ip) = Some (0, None)" and "int (length ts) < 2 ^ 61"
    and "sorted (t0 # ts)"
    and first: "\<And>s1 s2 rep. cnt_at s1 t0 (rate_key pfx ip) = Some (1, None) \<Longrightarrow>
      rc_expire R (rate_key pfx ip) window t0 s1 = (rep, s2) \<Longrightarrow>
      cnt_at s2 t0 (rate_key pfx ip) = Some (1, e)"
    and e: "before ts e"
  shows "requests R pfx limit window ip (t0 # ts) (b, s) = map (\<lambda>j. int j < limit) [0..<Suc (length ts)]"
proof -
  obtain n s1 where inc: "rc_incr R (rate_key pfx ip) t0 s = (ROk n, s1)"
    using assms(1,2) by (force simp: incr_up_def)
  from incr_ok [OF inc assms(2)] have n: "n = 1" "cnt_at s1 t0 (rate_key pfx ip) = Some (1, None)" by simp_all
  obtain rep s2 where ex: "rc_expire R (rate_key pfx ip) window t0 s1 = (rep, s2)" by fastforce
  have c: "cnt_at s2 t0 (rate_key pfx ip) = Some (int 1, e)" using first [OF n(2) ex] by simp
  define b' where "b' = (if 1 \<le> limit then b else b + 1)"
  have "RateLimit R pfx limit window ip t0 (b, s) = (1 \<le> limit, (b', s2))"
    unfolding b'_def using inc n ex by (cases rep) (simp_all add: RateLimit_def Incr_def plain_reply_def Expire_def void_reply_def Let_def)
  with requests_counted [OF assms(1) c _ _ assms(4) e, of limit window b'] assms(3) show ?thesis
    by (simp add: upt_conv_Cons del: upt_Suc) linarith
qed

end

text \<open>C29. The rate limit lets exactly the first \<open>limit\<close> requests of a window through: with a working
  counter, the requests of an address that start a window and arrive before its end are answered
  by their number alone.\<close>

theorem rate_limit_window:
  assumes "redis_counters R cnt_at" and "incr_up R cnt_at"
    and "\<forall>k ttl t s. \<exists>b s'. rc_expire R k ttl t s = (ROk b, s')"
    and "cnt_at s t0 (rate_key pfx ip) = Some (0, None)" and "0 < window"
    and "sorted (t0 # ts)" and "\<forall>t \<in> set ts. t < t0 + window" and "int (length ts) < 2 ^ 61"
  shows "requests R pfx limit window ip (t0 # ts) (b, s) = map (\<lambda>j. int j < limit) [0..<Suc (length ts)]"
proof (rule redis_counters.requests_from_start [OF assms(1,2,4,8,6)])
  fix s1 s2 rep
  assume "cnt_at s1 t0 (rate_key pfx ip) = Some (1, None)" "rc_expire R (rate_key pfx ip) window t0 s1 = (rep, s2)"
  moreover obtain b s' where "rc_expire R (rate_key pfx ip) window t0 s1 = (ROk b, s')" using assms(3) by blast
  ultimately show "cnt_at s2 t0 (rate_key pfx ip) = Some (1, Some (t0 + window))"
    using redis_counters.cexpire_ok [OF assms(1) _ _ _ assms(5)] by fastforce
next
  show "before ts (Some (t0 + window))" using assms(7) by (simp add: before_def)
qed

lemma incr_up_mem: "incr_up (mem_client_of False) mem_cnt"
  unfolding incr_up_def
proof (intro allI impI)
  fix s t k i e
  assume "mem_cnt s t k = Some (i, e)" "0 \<le> i" "i < 2 ^ 62"
  then show "\<exists>n s'. rc_incr (mem_client_of False) k t s = (ROk n, s')"
    by (auto simp: mem_cnt_def mem_client_of_def faulty_if_def split: option.splits rvalue.splits)
qed

theorem rate_limit_window_witness:
  "requests (mem_client_of False) ''login'' 2 100 ''ip'' [5, 6, 7, 104] (0, mem_empty) = [True, True, False, False]"
proof -
  have ex: "\<forall>k ttl t s. \<exists>b s'. rc_expire (mem_client_of False) k ttl t s = (ROk b, s')"
  proof (intro allI)
    fix k ttl t s
    show "\<exists>b s'. rc_expire (mem_client_of False) k ttl t s = (ROk b, s')"
      by (cases "mem_get s t k") (auto simp: mem_client_of_def faulty_if_def intro: exI [of _ True] exI [of _ False])
  qed
  have c: "mem_cnt mem_empty 5 (rate_key ''login'' ''ip'') = Some (0, None)"
    by (simp add: mem_cnt_def mem_get_def mem_empty_def)
  show ?thesis
    using rate_limit_window [where R = "mem_client_of False" and cnt_at = mem_cnt and ts = "[6, 7, 104]"
        and limit = 2 and window = 100, OF mem_counters.redis_counters_axioms incr_up_mem ex c]
    by (simp add: upt_rec)
qed

text \<open>When the window cannot be opened the address is locked out: if EXPIRE fails at the first request,
  the counter never ends, and of all later requests, however far apart, only \<open>limit\<close> in total pass.\<close>

theorem failed_expire_locks_out:
  assumes "redis_counters R cnt_at" and "incr_up R cnt_at"
    and "\<forall>k ttl t s. \<exists>s'. rc_expire R k ttl t s = (RErr, s')"
    and "cnt_at s t0 (rate_key pfx ip) = Some (0, None)" and "sorted (t0 # ts)" and "int (length ts) < 2 ^ 61"
  shows "requests R pfx limit window ip (t0 # ts) (b, s) = map (\<lambda>j. int j < limit) [0..<Suc (length ts)]"
proof (rule redis_counters.requests_from_start [OF assms(1,2,4,6,5)])
  fix s1 s2 rep
  assume "cnt_at s1 t0 (rate_key pfx ip) = Some (1, None)" "rc_expire R (rate_key pfx ip) window t0 s1 = (rep, s2)"
  moreover obtain s' where "rc_expire R (rate_key pfx ip) window t0 s1 = (RErr, s')" using assms(3) by blast
  ultimately show "cnt_at s2 t0 (rate_key pfx ip) = Some (1, None)"
    using redis_counters.cexpire_err [OF assms(1)] by fastforce
next
  show "before ts None" by (simp add: before_def)
qed

text \<open>A client whose EXPIRE always fails.\<close>

definition no_expire :: "mem_redis redis_client" where
  "no_expire = (mem_client_of False)\<lparr>rc_expire := (\<lambda>_ _ _ s. (RErr, s))\<rparr>"

interpretation no_expire: redis_counters no_expire mem_cnt
proof
  show "rc_incr no_expire k now s = (ROk n, s') \<Longrightarrow> mem_cnt s now k = Some (i, e) \<Longrightarrow>
      n = i + 1 \<and> mem_cnt s' now k = Some (n, e)" for k now s n s' i e
    using mem_counters.incr_ok [of False] by (simp add: no_expire_def)
  show "mem_cnt s t k = Some (i, e) \<Longrightarrow> t \<le> t' \<Longrightarrow> (case e of None \<Rightarrow> True | Some x \<Rightarrow> t' < x) \<Longrightarrow>
      mem_cnt s t' k = Some (i, e)" for s t k i e t'
    by (rule mem_counters.cnt_later)
qed (simp_all add: no_expire_def)

theorem failed_expire_locks_out_witness:
  "requests no_expire ''login'' 2 100 ''ip'' [5, 6, 86400000000000, 31536000000000000] (0, mem_empty) = [True, True, False, False]"
proof -
  have up: "incr_up no_expire mem_cnt" using incr_up_mem by (simp add: incr_up_def no_expire_def)
  have ex: "\<forall>k ttl t s. \<exists>s'. rc_expire no_expire k ttl t s = (RErr, s')" by (simp add: no_expire_def)
  have c: "mem_cnt mem_empty 5 (rate_key ''login'' ''ip'') = Some (0, None)"
    by (simp add: mem_cnt_def mem_get_def mem_empty_def)
  show ?thesis
    using failed_expire_locks_out [where R = no_expire and cnt_at = mem_cnt and ts = "[6, 86400000000000, 31536000000000000]"
        and limit = 2 and window = 100, OF no_expire.redis_counters_axioms up ex c]
    by (simp add: upt_rec)
qed

section \<open>Codes by e-mail\<close>

context backend
begin

definition code_at :: "string \<Rightarrow> time \<Rightarrow> ('d, 'r) stores \<Rightarrow> string option" where
  "code_at email t w = str_at (st_redis w) t (codeKey (normalizeEmail email))"

lemma SendEmailCode_wp:
  "wp (SendEmailCode E r smtp email)
    (\<lambda>a w'. a = (Msg ''code sent'', 0) \<and> st_db w' = st_db w \<and> (\<forall>t. e_now E \<le> t \<longrightarrow> t < e_now E + EmailCodeTTL \<longrightarrow>
       code_at email t w' = Some (email_code r)))
    (\<lambda>a w'. snd a \<noteq> 0 \<and> st_db w' = st_db w) w"
  unfolding SendEmailCode_def Let_def wp_bnd wp_or_throw
proof (rule wp_cache, goal_cases)
  case (1 ok w1)
  have fail: "wp (bnd (logged (DelIfExists E k)) (\<lambda>_. throw a)) Q (\<lambda>a w'. snd a \<noteq> 0 \<and> st_db w' = st_db w) w2"
    if "st_db w2 = st_db w" "snd a \<noteq> 0" for k Q w2 and a :: answer
    unfolding DelIfExists_def wp_simps by (rule wp_cache) (use that in \<open>auto simp: same_db_def\<close>)
  have fail2: "wp (bnd (logged (DelIfExists E k)) (\<lambda>_. bnd (logged (DelIfExists E k')) (\<lambda>_. throw a))) Q
      (\<lambda>a w'. snd a \<noteq> 0 \<and> st_db w' = st_db w) w2"
    if "st_db w2 = st_db w" "snd a \<noteq> 0" for k k' Q w2 and a :: answer
    by (rule wp_seq [where R = "\<lambda>_ w3. st_db w3 = st_db w"])
       (use that in \<open>auto simp: DelIfExists_def wp_logged same_db_def intro!: wp_cache fail [unfolded DelIfExists_def]\<close>)
  from 1 have d1: "st_db w1 = st_db w" by (simp add: same_db_def)
  show ?case
  proof (cases ok)
    case False
    with d1 show ?thesis by (simp add: wp_guard wp_throw)
  next
    case True
    show ?thesis
      unfolding wp_guard if_P [OF True] wp_attempt
    proof (rule wp_SetCache, goal_cases)
      case 1
      then show ?case by (simp add: EmailCodeTTL_def)
    next
      case (2 w2)
      with d1 show ?case
        by (cases "smtp (normalizeEmail email) (email_code r)") (simp_all add: wp_ret code_at_def fail2)
    next
      case (3 w2)
      with d1 show ?case by (simp add: fail)
    qed
  qed
qed (auto simp: same_db_def)

lemma VerifyEmailCode_wp:
  assumes "deletes_ok E"
  shows "wp (VerifyEmailCode E email code)
    (\<lambda>b w'. st_db w' = st_db w \<and> (b \<longrightarrow> code \<noteq> [] \<and> code_at email (e_now E) w = Some code \<and> (\<forall>t \<ge> e_now E. code_at email t w' = None)) \<and>
       (\<not> b \<longrightarrow> w' = w \<and> (code_at email (e_now E) w = Some code \<longrightarrow> code \<noteq> [] \<longrightarrow>
         fst (GetKey (e_redis E) (codeKey (normalizeEmail email)) (e_now E) (st_redis w)) = Inl RedisFault)))
    X w"
  unfolding VerifyEmailCode_def Let_def wp_attempt
proof (rule wp_on_redis)
  fix v s
  assume g: "GetKey (e_redis E) (codeKey (normalizeEmail email)) (e_now E) (st_redis w) = (Inr v, s)"
  from GetKey_cases [OF g] have s: "s = st_redis w" and v: "v = (case code_at email (e_now E) w of None \<Rightarrow> [] | Some v \<Rightarrow> v)"
    by (auto simp: code_at_def)
  show "wp (case Inr v of Inl _ \<Rightarrow> ret False
      | Inr stored \<Rightarrow>
          if stored = [] then ret False
          else if stored \<noteq> code then ret False
          else bnd (logged (DelIfExists E (codeKey (normalizeEmail email)))) (\<lambda>_. ret True))
    (\<lambda>b w'. st_db w' = st_db w \<and> (b \<longrightarrow> code \<noteq> [] \<and> code_at email (e_now E) w = Some code \<and> (\<forall>t \<ge> e_now E. code_at email t w' = None)) \<and>
       (\<not> b \<longrightarrow> w' = w \<and> (code_at email (e_now E) w = Some code \<longrightarrow> code \<noteq> [] \<longrightarrow>
         fst (GetKey (e_redis E) (codeKey (normalizeEmail email)) (e_now E) (st_redis w)) = Inl RedisFault)))
    X (w\<lparr>st_redis := s\<rparr>)"
    using v s
    by (auto simp: wp_simps code_at_def split: option.splits intro!: wp_DelIfExists [OF assms])
next
  fix e s
  assume g: "GetKey (e_redis E) (codeKey (normalizeEmail email)) (e_now E) (st_redis w) = (Inl e, s)"
  from GetKey_cases [OF g] g show "wp (case Inl e of Inl _ \<Rightarrow> ret False
      | Inr stored \<Rightarrow>
          if stored = [] then ret False
          else if stored \<noteq> code then ret False
          else bnd (logged (DelIfExists E (codeKey (normalizeEmail email)))) (\<lambda>_. ret True))
    (\<lambda>b w'. st_db w' = st_db w \<and> (b \<longrightarrow> code \<noteq> [] \<and> code_at email (e_now E) w = Some code \<and> (\<forall>t \<ge> e_now E. code_at email t w' = None)) \<and>
       (\<not> b \<longrightarrow> w' = w \<and> (code_at email (e_now E) w = Some code \<longrightarrow> code \<noteq> [] \<longrightarrow>
         fst (GetKey (e_redis E) (codeKey (normalizeEmail email)) (e_now E) (st_redis w)) = Inl RedisFault)))
    X (w\<lparr>st_redis := s\<rparr>)"
    by (simp add: wp_ret)
qed

end

text \<open>The code that was sent verifies: within five minutes after \<open>SendEmailCode\<close> answered that the code
  is sent, \<open>VerifyEmailCode\<close> for the same address accepts it unless the cache cannot be read.\<close>

theorem sent_code_verifies:
  assumes "backend E rows str_at set_at pages" and "deletes_ok E"
    and "answer (SendEmailCode E r smtp email) w = Some ((m, 0), w')"
    and "e_now E \<le> t" and "t < e_now E + EmailCodeTTL" and "intn_ok r 6"
    and "fst (GetKey (e_redis E) (codeKey (normalizeEmail email)) t (st_redis w')) \<noteq> Inl RedisFault"
  shows "\<exists>w''. VerifyEmailCode (E\<lparr>e_now := t\<rparr>) email (email_code r) w' = Some (Inr True :: answer + bool, w'')"
proof -
  let ?E = "E\<lparr>e_now := t\<rparr>" and ?code = "email_code r"
  have R: "backend ?E rows str_at set_at pages" by (rule backend_now [OF assms(1)])
  have del: "deletes_ok ?E" using assms(2) by (simp add: deletes_ok_def)
  have "\<exists>a w'. answer (SendEmailCode E r smtp email) w = Some (a, w') \<and>
      (snd a = 0 \<longrightarrow> backend.code_at str_at email t w' = Some ?code)"
    by (rule wp_answer, rule wp_mono [OF backend.SendEmailCode_wp [OF assms(1)]]) (use assms(4,5) in auto)
  with assms(3) have c: "backend.code_at str_at email (e_now ?E) w' = Some ?code" by simp
  have ne: "?code \<noteq> []" using length_itoa_random [OF assms(6)] email_code_digits [OF assms(6)] by auto
  have "wp (VerifyEmailCode ?E email ?code) (\<lambda>b _. b) (\<lambda>(_ :: answer) _. False) w'"
    by (rule wp_mono [OF backend.VerifyEmailCode_wp [OF R del, where X = "\<lambda>_ _. False"]]) (use c ne assms(7) in auto)
  then show ?thesis by (auto simp: wp_def split: option.splits sum.splits)
qed

lemmas code_run_defs = SendEmailCode_def VerifyEmailCode_def codeKey_def cooldownKey_def EmailCodeTTL_def EmailCodeCooldown_def
  SetNX_def normalizeEmail_def

theorem sent_code_verifies_witness:
  "\<exists>w' w''. answer (SendEmailCode (mem_env_reads 5) 7 (\<lambda>_ _. True) ''a@b.c'') demo = Some ((Msg ''code sent'', 0), w') \<and>
     VerifyEmailCode ((mem_env_reads 5)\<lparr>e_now := 9\<rparr>) ''a@b.c'' (email_code 7) w' = Some (Inr True :: answer + bool, w'')"
proof -
  obtain w' where w': "answer (SendEmailCode (mem_env_reads 5) 7 (\<lambda>_ _. True) ''a@b.c'') demo = Some ((Msg ''code sent'', 0), w')"
      "fst (GetKey (e_redis (mem_env_reads 5)) (codeKey (normalizeEmail ''a@b.c'')) 9 (st_redis w')) \<noteq> Inl RedisFault"
    by (simp add: run_defs plain_reply_def code_run_defs demo_defs)
  show ?thesis
    using sent_code_verifies [OF mem_backend deletes_ok_mem w'(1) _ _ _ w'(2)] w'(1)
    by (simp add: EmailCodeTTL_def intn_ok_def)
qed

text \<open>C28. A code verifies once: after \<open>VerifyEmailCode\<close> accepted a code, no later call for the address accepts
  any code, if deletions in the cache do not fail.\<close>

theorem code_used_once:
  assumes "backend E rows str_at set_at pages" and "deletes_ok E"
    and "VerifyEmailCode E email code w = Some (Inr True :: answer + bool, w')" and "e_now E \<le> t"
  shows "\<exists>w''. VerifyEmailCode (E\<lparr>e_now := t\<rparr>) email code' w' = Some (Inr False :: answer + bool, w'')"
proof -
  let ?E = "E\<lparr>e_now := t\<rparr>"
  have R: "backend ?E rows str_at set_at pages" by (rule backend_now [OF assms(1)])
  have del: "deletes_ok ?E" using assms(2) by (simp add: deletes_ok_def)
  have "wp (VerifyEmailCode E email code) (\<lambda>b w'. b \<longrightarrow> backend.code_at str_at email t w' = None) (\<lambda>(_ :: answer) _. False) w"
    by (rule wp_mono [OF backend.VerifyEmailCode_wp [OF assms(1,2), where X = "\<lambda>_ _. False"]]) (use assms(4) in auto)
  with assms(3) have none: "backend.code_at str_at email (e_now ?E) w' = None" by (simp add: wp_def)
  have "wp (VerifyEmailCode ?E email code') (\<lambda>b _. \<not> b) (\<lambda>(_ :: answer) _. False) w'"
    by (rule wp_mono [OF backend.VerifyEmailCode_wp [OF R del, where X = "\<lambda>_ _. False"]]) (use none in auto)
  then show ?thesis by (auto simp: wp_def split: option.splits sum.splits)
qed

theorem code_used_once_witness:
  "\<exists>w' w1 w2. answer (SendEmailCode (mem_env_reads 5) 7 (\<lambda>_ _. True) ''a@b.c'') demo = Some ((Msg ''code sent'', 0), w') \<and>
     VerifyEmailCode (mem_env_reads 5) ''a@b.c'' (itoa 100007) w' = Some (Inr True :: answer + bool, w1) \<and>
     VerifyEmailCode ((mem_env_reads 5)\<lparr>e_now := 6\<rparr>) ''a@b.c'' (itoa 100007) w1 = Some (Inr False :: answer + bool, w2)"
proof -
  have ne: "itoa 100007 \<noteq> []" by (simp add: itoa_def)
  obtain w' w1 where w': "answer (SendEmailCode (mem_env_reads 5) 7 (\<lambda>_ _. True) ''a@b.c'') demo = Some ((Msg ''code sent'', 0), w')"
      "VerifyEmailCode (mem_env_reads 5) ''a@b.c'' (itoa 100007) w' = Some (Inr True :: answer + bool, w1)"
    using ne by (simp add: run_defs plain_reply_def code_run_defs demo_defs email_code_digits intn_ok_def GetRandomInt_def)
  moreover have "\<exists>w''. VerifyEmailCode ((mem_env_reads 5)\<lparr>e_now := 6\<rparr>) ''a@b.c'' (itoa 100007) w1 = Some (Inr False :: answer + bool, w'')"
    by (rule code_used_once [OF mem_backend deletes_ok_mem w'(2)]) simp
  ultimately show ?thesis by blast
qed

section \<open>Tokens\<close>

definition active_user :: "row list \<Rightarrow> uuid \<Rightarrow> bool" where
  "active_user rs u \<longleftrightarrow> (\<exists>x. RUser x \<in> set rs \<and> ui_uuid x = u \<and> ui_deleted_at x = 0) \<and>
     (\<forall>x. RUser x \<in> set rs \<longrightarrow> ui_uuid x = u \<longrightarrow> ui_deleted_at x = 0 \<longrightarrow> ui_status x = user_NORMAL)"

definition inactive_user :: "row list \<Rightarrow> uuid \<Rightarrow> bool" where
  "inactive_user rs u \<longleftrightarrow>
     (\<forall>x. RUser x \<in> set rs \<longrightarrow> ui_uuid x = u \<longrightarrow> ui_deleted_at x = 0 \<longrightarrow> ui_status x \<noteq> user_NORMAL)"

context backend
begin

definition status_uncached :: "uuid \<Rightarrow> ('d, 'r) stores \<Rightarrow> bool" where
  "status_uncached u w \<longleftrightarrow> str_at (st_redis w) (e_now E) (userStatusCachePrefix @ u) = None"

lemma CheckUserActive_wp:
  assumes "reads_ok E" and "status_uncached u w"
  shows "wp (CheckUserActive E u)
    (\<lambda>r w'. rows (st_db w') = rows (st_db w) \<and> (active_user (rows (st_db w)) u \<longrightarrow> r = (True, 200)) \<and>
       (inactive_user (rows (st_db w)) u \<longrightarrow> r = (False, 401))) X w"
proof -
  have remember: "wp (bnd (logged (SetCache E k v ttl)) (\<lambda>_. ret r)) Q X w1"
    if "\<And>w'. st_db w' = st_db w1 \<Longrightarrow> Q r w'" for k v ttl w1 and r :: "bool \<times> int" and Q
    unfolding wp_simps SetCache_def by (rule wp_cache) (simp_all add: same_db_def that)
  have remember_if: "wp (bnd (logged (SetCache E k v ttl)) (\<lambda>_. if b then ret r else ret r')) Q X w1"
    if "\<And>w'. st_db w' = st_db w1 \<Longrightarrow> Q (if b then r else r') w'" for k v ttl w1 b and r r' :: "bool \<times> int" and Q
    using that by (cases b) (simp_all add: remember)
  show ?thesis
    unfolding CheckUserActive_def Let_def wp_attempt
  proof (rule wp_on_redis, goal_cases)
    case (1 v s)
    from GetKey_cases [OF 1] have s: "v = []" "w\<lparr>st_redis := s\<rparr> = w"
      using assms(2) by (simp_all add: status_uncached_def)
    show ?case
      unfolding s(2)
      by (simp add: s(1) wp_attempt, rule wp_First [OF users.table_axioms])
         (use assms(1) in \<open>auto simp: same_def active_user_def inactive_user_def intro!: remember remember_if\<close>)
  next
    case (2 e s)
    from GetKey_cases [OF 2] have s: "w\<lparr>st_redis := s\<rparr> = w" by simp
    show ?case
      unfolding s
      by (simp add: wp_attempt, rule wp_First [OF users.table_axioms])
         (use assms(1) in \<open>auto simp: same_def active_user_def inactive_user_def intro!: remember remember_if\<close>)
  qed
qed

end

lemma split_bearer: "split_space (''Bearer '' @ s) = (''Bearer'', Some s)"
  by simp

context backend
begin

text \<open>A valid token of an active user is let in, one of an inactive user is not.\<close>

lemma AuthMiddleware_wp:
  assumes "crypto_ok C" and "GenerateToken C k u a t0 = Some s" and "t0 \<le> e_now E" and "e_now E \<le> t0 + 24 * 60 * minute - second"
    and "reads_ok E" and "status_uncached u w"
  shows "wp (AuthMiddleware E C k (''Bearer '' @ s) q)
    (\<lambda>r w'. \<not> inactive_user (rows (st_db w)) u \<and> r = (u, a)) (\<lambda>c _. \<not> active_user (rows (st_db w)) u \<and>
       (inactive_user (rows (st_db w)) u \<longrightarrow> c = 401)) w"
proof -
  from token_valid [OF assms(1-4)] obtain c where c: "ParseToken C k s (e_now E) = Some c" "jc_Uuid c = u" "jc_IsAdmin c = a"
      and ne: "s \<noteq> []" by blast
  show ?thesis
    unfolding AuthMiddleware_def split_bearer
    by (simp add: ne c wp_bnd del: append.simps)
       (rule wp_mono [OF CheckUserActive_wp [OF assms(5,6), where X = "\<lambda>_ _. False"]], auto simp: wp_simps c)
qed

end

text \<open>A token lives for a day: from its issue until a second before 24 hours have passed it admits its
  user, with the uuid and the flag it was issued for, as long as the user is active and no status
  is cached; from 24 hours on it is refused with 401, whoever presents it.\<close>

theorem token_lives_a_day:
  assumes "backend E rows str_at set_at pages" and "crypto_ok C" and "GenerateToken C k u a t0 = Some s" and "reads_ok E"
    and "active_user (rows (st_db w)) u" and "str_at (st_redis w) (e_now E) (userStatusCachePrefix @ u) = None"
  shows "(t0 \<le> e_now E \<and> e_now E \<le> t0 + 24 * 60 * minute - second \<longrightarrow>
       (\<exists>w'. AuthMiddleware E C k (''Bearer '' @ s) q w = Some (Inr (u, a), w'))) \<and>
    (t0 + 24 * 60 * minute \<le> e_now E \<longrightarrow> AuthMiddleware E C k (''Bearer '' @ s) q w = Some (Inl 401, w))"
proof (intro conjI impI)
  assume t: "t0 \<le> e_now E \<and> e_now E \<le> t0 + 24 * 60 * minute - second"
  have un: "backend.status_uncached E str_at u w" using assms(6) by (simp add: backend.status_uncached_def [OF assms(1)])
  have "wp (AuthMiddleware E C k (''Bearer '' @ s) q) (\<lambda>r _. r = (u, a)) (\<lambda>_ _. False) w"
    by (rule wp_mono [OF backend.AuthMiddleware_wp [OF assms(1-3) _ _ assms(4) un]]) (use t assms(5) in auto)
  then show "\<exists>w'. AuthMiddleware E C k (''Bearer '' @ s) q w = Some (Inr (u, a), w')"
    by (auto simp: wp_def split: option.splits sum.splits)
next
  assume "t0 + 24 * 60 * minute \<le> e_now E"
  from token_expired [OF assms(2,3) this] show "AuthMiddleware E C k (''Bearer '' @ s) q w = Some (Inl 401, w)"
    unfolding AuthMiddleware_def split_bearer
    by (cases "s = []") (simp_all add: bnd_def guard_def ret_def throw_def del: append.simps)
qed

text \<open>A stand-in for the libraries: it signs the tokens of one user by their time of issue.\<close>

definition demo_claims :: "uuid \<Rightarrow> nat \<Rightarrow> JWTClaims" where
  "demo_claims u n = \<lparr>jc_Uuid = u, jc_IsAdmin = 0, jc_ExpiresAt = int n * second + 24 * 60 * minute,
     jc_IssuedAt = int n * second, jc_NotBefore = int n * second\<rparr>"

definition demo_crypto :: "uuid \<Rightarrow> crypto_lib" where
  "demo_crypto u =
     \<lparr>cr_sign = (\<lambda>c _. let n = nat (jc_NotBefore c div second) in
        if c = demo_claims u n then Some (nat_digits n) else None),
      cr_parse = (\<lambda>s _ t. let c = demo_claims u (digits_val s) in
        if jc_NotBefore c \<le> t \<and> t < jc_ExpiresAt c then Some c else None),
      cr_hash = (\<lambda>_ p. Some (CHR ''h'' # p)), cr_compare = (\<lambda>h p. h = CHR ''h'' # p)\<rparr>"

lemma crypto_ok_demo: "crypto_ok (demo_crypto u)"
  by (auto simp: crypto_ok_def demo_crypto_def Let_def split: if_splits)

lemma demo_users: "RUser x \<in> set (md_rows (st_db demo)) \<longleftrightarrow> x = demo_user 1 ''U1'' \<or> x = demo_user 2 ''U2''"
  by (simp add: demo_def demo_rows_def)

theorem token_lives_a_day_witness:
  "\<exists>s w'. GenerateToken (demo_crypto ''U1'') ''secret'' ''U1'' 0 (7 * second) = Some s \<and>
     AuthMiddleware (mem_env_reads (9 * second)) (demo_crypto ''U1'') ''secret'' (''Bearer '' @ s) [] demo = Some (Inr (''U1'', 0), w')"
proof -
  have s: "GenerateToken (demo_crypto ''U1'') ''secret'' ''U1'' 0 (7 * second) = Some (nat_digits 7)"
    by (simp add: GenerateToken_def demo_crypto_def demo_claims_def numeric_date_def Let_def)
  have act: "active_user (md_rows (st_db demo)) ''U1''"
    unfolding active_user_def demo_users
  proof (intro conjI allI impI)
    show "\<exists>x. (x = demo_user 1 ''U1'' \<or> x = demo_user 2 ''U2'') \<and> ui_uuid x = ''U1'' \<and> ui_deleted_at x = 0"
      by (rule exI [of _ "demo_user 1 ''U1''"]) (simp add: demo_user_def)
  qed (erule disjE; simp add: demo_user_def)
  have un: "mem_str (st_redis demo) (e_now (mem_env_reads (9 * second))) (userStatusCachePrefix @ ''U1'') = None"
    by (simp add: demo_defs mem_str_def mem_get_def)
  have "\<exists>w'. AuthMiddleware (mem_env_reads (9 * second)) (demo_crypto ''U1'') ''secret'' (''Bearer '' @ nat_digits 7) [] demo = Some (Inr (''U1'', 0), w')"
    by (rule token_lives_a_day [OF mem_backend crypto_ok_demo s reads_ok_mem act un, THEN conjunct1, THEN mp]) simp
  with s show ?thesis by blast
qed

end
