(* ===== verification/Account_Safety.thy ===== *)
theory Account_Safety
  imports User_Service Auth_Safety
begin

text \<open>
  What the account services guarantee: a login succeeds exactly for an enabled account with the
  right password, a new account can log in, and disabling an account shuts every way in: logins,
  tokens that were issued before, open connections and sessions.
\<close>

section \<open>Logging in\<close>

definition login_account :: "crypto_lib \<Rightarrow> row list \<Rightarrow> string \<Rightarrow> string \<Rightarrow> UserInfo \<Rightarrow> bool" where
  "login_account C rs reqEmail password u \<longleftrightarrow>
     RUser u \<in> set rs \<and> ui_deleted_at u = 0 \<and> ui_email u = normalizeEmail reqEmail \<and>
     ui_status u \<noteq> user_DISABLE \<and> VerifyPassword C (ui_password u) password"

context backend
begin

definition login_ok :: "crypto_lib \<Rightarrow> string \<Rightarrow> time \<Rightarrow> string \<Rightarrow> string \<Rightarrow> row list \<Rightarrow> login_answer \<Rightarrow> bool" where
  "login_ok C k tz e p rs r \<longleftrightarrow>
    (if snd (snd r) = 0 then checkEmailValid (normalizeEmail e) \<and>
       (\<exists>u token. login_account C rs e p u \<and> GenerateToken C k (ui_uuid u) (ui_is_admin u) (e_now E) = Some token \<and>
          r = (Msg ''logged in'', Some (login_respond tz u token), 0))
     else \<forall>u. login_account C rs e p u \<longrightarrow> checkEmailValid (normalizeEmail e) \<longrightarrow>
       GenerateToken C k (ui_uuid u) (ui_is_admin u) (e_now E) = None)"

lemma Login_wp:
  assumes "reads_ok E" and uniq: "unique_rows (rows (st_db w))"
  shows "wp (Login E C k tz e p) (\<lambda>r w'. same w w' \<and> login_ok C k tz e p (rows (st_db w)) r)
    (\<lambda>r w'. same w w' \<and> login_ok C k tz e p (rows (st_db w)) r) w"
proof -
  have one: "v = u" if "login_account C (rows (st_db w)) e p v" "RUser u \<in> set (rows (st_db w))" "ui_deleted_at u = 0"
      "ui_email u = normalizeEmail e" for u v
    using unique_rowsD [OF uniq, of "RUser v" "RUser u"] that by (auto simp: login_account_def conflict_def)
  show ?thesis
    unfolding Login_def Let_def
  proof (rule wp_seq [where R = "\<lambda>_ w'. w' = w \<and> checkEmailValid (normalizeEmail e)"], goal_cases)
    case 1
    show ?case by (simp add: wp_guard login_ok_def LoginFailed_def)
  next
    case (2 _ w0)
    then have w0: "w0 = w" and valid: "checkEmailValid (normalizeEmail e)" by simp_all
    show ?case
      unfolding w0
    proof (rule wp_seq [where R = "\<lambda>u w'. same w w' \<and> RUser u \<in> set (rows (st_db w)) \<and> ui_deleted_at u = 0 \<and>
        ui_email u = normalizeEmail e \<and> ui_status u \<noteq> user_DISABLE"], goal_cases)
      case 1
      show ?case
        unfolding enabled_account_def wp_bnd wp_attempt
      proof (rule wp_First [OF users.table_axioms], goal_cases)
        case (1 u w1)
        then show ?case
          using one [of _ u] by (auto simp: wp_simps login_ok_def LoginFailed_def login_account_def)
      next
        case (2 w1)
        then show ?case by (auto simp: wp_simps login_ok_def LoginFailed_def login_account_def)
      qed (use assms(1) in simp)
    next
      case (2 u w1)
      then have u: "same w w1" "RUser u \<in> set (rows (st_db w))" "ui_deleted_at u = 0" "ui_email u = normalizeEmail e"
          "ui_status u \<noteq> user_DISABLE" by simp_all
      show ?case
      proof (cases "VerifyPassword C (ui_password u) p")
        case False
        with u one [OF _ u(2-4)] show ?thesis
          by (auto simp: wp_simps login_ok_def LoginFailed_def login_account_def)
      next
        case True
        then have acc: "login_account C (rows (st_db w)) e p u" using u by (simp add: login_account_def)
        show ?thesis
        proof (cases "GenerateToken C k (ui_uuid u) (ui_is_admin u) (e_now E)")
          case None
          then have "\<forall>v. login_account C (rows (st_db w)) e p v \<longrightarrow> GenerateToken C k (ui_uuid v) (ui_is_admin v) (e_now E) = None"
            using one [OF _ u(2-4)] by blast
          with True u(1) None show ?thesis by (simp add: wp_simps token_answer_def login_ok_def)
        next
          case (Some token)
          then have "login_ok C k tz e p (rows (st_db w)) (Msg ''logged in'', Some (login_respond tz u token), 0)"
            using acc valid unfolding login_ok_def by auto
          with True u(1) Some show ?thesis by (simp add: wp_simps token_answer_def)
        qed
      qed
    qed
  qed
qed

end

text \<open>C21. A password login succeeds exactly when it should: with the database readable, the answer is code 0
  if and only if the address is well formed and belongs to a live account that is not disabled, the
  password matches its hash and the token can be signed; it then carries the data of that account
  and the token. Nothing is changed.\<close>

theorem login_correct:
  assumes "backend E rows str_at set_at pages" and "reads_ok E" and "unique_rows (rows (st_db w))"
  shows "\<exists>m d c w'. answer (Login E C k tz e p) w = Some ((m, d, c), w') \<and> rows (st_db w') = rows (st_db w) \<and>
    (c = 0 \<longleftrightarrow> checkEmailValid (normalizeEmail e) \<and> (\<exists>u token. login_account C (rows (st_db w)) e p u \<and>
       GenerateToken C k (ui_uuid u) (ui_is_admin u) (e_now E) = Some token)) \<and>
    (c = 0 \<longrightarrow> (\<exists>u token. login_account C (rows (st_db w)) e p u \<and>
       GenerateToken C k (ui_uuid u) (ui_is_admin u) (e_now E) = Some token \<and> d = Some (login_respond tz u token)))"
proof -
  obtain r w' where r: "answer (Login E C k tz e p) w = Some (r, w')" "rows (st_db w') = rows (st_db w)"
      and ok: "backend.login_ok E C k tz e p (rows (st_db w)) r"
    using wp_answer [OF backend.Login_wp [OF assms]]
    unfolding database.same_def [OF backend.axioms(1) [OF assms(1)]] by blast
  obtain m d c where "r = (m, d, c)" by (cases r) auto
  with r ok show ?thesis unfolding backend.login_ok_def [OF assms(1)] by (cases "c = 0") fastforce+
qed

definition demo_account :: UserInfo where
  "demo_account = (demo_user 8 ''U1'')\<lparr>ui_email := ''a@b.c'', ui_password := ''hpw''\<rparr>"

definition demo_accounts :: "(mem_db, mem_redis) stores" where
  "demo_accounts = demo\<lparr>st_db := \<lparr>md_rows = [RUser demo_account], md_next = 9, md_faults = []\<rparr>\<rparr>"

lemma demo_accounts_rows: "md_rows (st_db demo_accounts) = [RUser demo_account]"
  by (simp add: demo_accounts_def)

lemma unique_rows_accounts: "unique_rows (md_rows (st_db demo_accounts))"
  by (simp add: demo_accounts_rows unique_rows_def)

lemma demo_email: "checkEmailValid (normalizeEmail ''a@b.c'')" "checkEmailValid ''a@b.c''" "normalizeEmail ''a@b.c'' = ''a@b.c''"
  by (simp_all add: checkEmailValid_def normalizeEmail_def trim_space_def to_lower_def to_lower_char_def is_space_char_def
      plain_char_def is_re_space_def upt_rec)

lemma demo_token: "GenerateToken (demo_crypto ''U1'') ''secret'' ''U1'' 0 (7 * second) = Some (nat_digits 7)"
  by (simp add: GenerateToken_def demo_crypto_def demo_claims_def numeric_date_def Let_def)

theorem login_correct_witness:
  "\<exists>m d w'. answer (Login (mem_env_reads (7 * second)) (demo_crypto ''U1'') ''secret'' 0 ''a@b.c'' ''pw'') demo_accounts = Some ((m, d, 0), w')"
proof -
  have acc: "login_account (demo_crypto ''U1'') (md_rows (st_db demo_accounts)) ''a@b.c'' ''pw'' demo_account"
    by (simp add: login_account_def demo_accounts_rows demo_account_def demo_user_def demo_email VerifyPassword_def demo_crypto_def)
  have tok: "GenerateToken (demo_crypto ''U1'') ''secret'' (ui_uuid demo_account) (ui_is_admin demo_account) (e_now (mem_env_reads (7 * second))) = Some (nat_digits 7)"
    using demo_token by (simp add: demo_account_def demo_user_def)
  show ?thesis
    using login_correct [OF mem_backend reads_ok_mem unique_rows_accounts, of "7 * second" "demo_crypto ''U1''" "''secret''" 0 "''a@b.c''" "''pw''"]
      acc tok demo_email(1) by blast
qed

section \<open>Disabling\<close>

definition ids_ok :: "row list \<Rightarrow> bool" where
  "ids_ok rs \<longleftrightarrow> (\<forall>r \<in> set rs. row_id r \<noteq> 0)"

context backend
begin

text \<open>Saving a loaded record, by what it does to the rows.\<close>

definition rows_ok :: "('d, 'r) stores \<Rightarrow> bool" where
  "rows_ok w \<longleftrightarrow> unique_rows (rows (st_db w)) \<and> ids_ok (rows (st_db w))"

definition saved :: "'t table \<Rightarrow> 't \<Rightarrow> ('d, 'r) stores \<Rightarrow> ('d, 'r) stores \<Rightarrow> bool" where
  "saved T x w w' \<longleftrightarrow> rows_ok w' \<and> st_redis w' = st_redis w \<and> st_logouts w' = st_logouts w \<and>
     (\<forall>r. (\<forall>y. r \<noteq> tb_row T y) \<longrightarrow> r \<in> set (rows (st_db w')) \<longleftrightarrow> r \<in> set (rows (st_db w))) \<and>
     (\<forall>y. tb_row T y \<in> set (rows (st_db w')) \<longleftrightarrow>
        y = x \<or> (tb_row T y \<in> set (rows (st_db w)) \<and> row_id (tb_row T y) \<noteq> row_id (tb_row T x)))"

lemma wp_Save_saved:
  assumes T: "table T" and ok: "rows_ok w"
    and x0: "tb_row T x0 \<in> set (rows (st_db w))" "live_row (tb_row T x0)" "row_id (tb_row T x0) = row_id (tb_row T x)"
    and Q: "\<And>w'. saved T x w w' \<Longrightarrow> Q () w'" and X: "\<And>e w'. X e w'"
  shows "wp (Save E T x) Q X w"
proof (rule wp_Save [OF T x0])
  have uniq: "unique_rows (rows (st_db w))" and ids: "ids_ok (rows (st_db w))" using ok by (simp_all add: rows_ok_def)
  show id: "row_id (tb_row T x) \<noteq> 0" using ids x0 by (auto simp: ids_ok_def)
  fix w'
  let ?P = "scoped T (\<lambda>y. row_id (tb_row T y) = row_id (tb_row T x))"
  assume ch: "changed ?P (on_row T (\<lambda>_. x)) w w'"
  have P: "?P r \<Longrightarrow> \<exists>x. r = tb_row T x" for r by (auto simp: table.scoped_iff [OF T])
  have other: "r \<in> set (rows (st_db w')) \<longleftrightarrow> r \<in> set (rows (st_db w))" if "\<forall>y. r \<noteq> tb_row T y" for r
    by (rule changed_other [OF ch P that [rule_format] T])
  note own = changed_saved [OF T ch uniq x0]
  have "row_id r \<noteq> 0" if "r \<in> set (rows (st_db w'))" for r
  proof (cases "\<exists>y. r = tb_row T y")
    case True
    with own that id ids show ?thesis by (auto simp: ids_ok_def)
  next
    case False
    with other that ids show ?thesis by (auto simp: ids_ok_def)
  qed
  moreover have "unique_rows (rows (st_db w'))" "st_redis w' = st_redis w" "st_logouts w' = st_logouts w"
    using ch uniq unfolding changed_def by blast+
  ultimately show "Q () w'" using other own by (intro Q) (simp add: saved_def rows_ok_def ids_ok_def)
qed (rule X)

text \<open>Deleting every row of a condition: the rows that are live afterwards were live before and do not
  meet it.\<close>

definition purged :: "'t table \<Rightarrow> ('t \<Rightarrow> bool) \<Rightarrow> ('d, 'r) stores \<Rightarrow> ('d, 'r) stores \<Rightarrow> bool" where
  "purged T P w w' \<longleftrightarrow> rows_ok w' \<and> st_redis w' = st_redis w \<and> st_logouts w' = st_logouts w \<and>
     (\<forall>r. (\<forall>y. r \<noteq> tb_row T y) \<longrightarrow> r \<in> set (rows (st_db w')) \<longleftrightarrow> r \<in> set (rows (st_db w))) \<and>
     (\<forall>y. tb_row T y \<in> set (rows (st_db w')) \<longrightarrow> live_row (tb_row T y) \<longrightarrow> tb_row T y \<in> set (rows (st_db w)) \<and> \<not> P y)"

lemma wp_delete_each:
  assumes T: "table T" and ok: "rows_ok w"
    and del: "\<And>x. row_id (tb_row T (del x)) = row_id (tb_row T x)" "\<And>x. \<not> live_row (tb_row T (del x))"
    and Q: "\<And>w'. purged T P w w' \<Longrightarrow> Q () w'" and X: "\<And>w'. X system_error w'"
  shows "wp (delete_each E T P del) Q X w"
  unfolding delete_each_def wp_bnd wp_or_throw
proof (rule wp_Find_mset [OF T])
  fix xs w1
  assume same: "same w w1" and xs: "mset (map (tb_row T) xs) = mset (filter (scoped T P) (rows (st_db w)))"
  have uniq: "unique_rows (rows (st_db w))" using ok by (simp add: rows_ok_def)
  have mem: "x \<in> set xs \<longleftrightarrow> tb_row T x \<in> set (rows (st_db w)) \<and> live_row (tb_row T x) \<and> P x" for x
  proof -
    have "tb_row T x \<in> set (map (tb_row T) xs) \<longleftrightarrow> tb_row T x \<in> set (filter (scoped T P) (rows (st_db w)))"
      using xs by (metis set_mset_mset)
    then show ?thesis by (auto simp: table.scoped_iff [OF T] table.row_inj [OF T])
  qed
  have "distinct (filter (scoped T P) (rows (st_db w)))" using unique_rows_distinct [OF uniq] by simp
  then have dist: "distinct xs" using xs by (metis distinct_map mset_eq_imp_distinct_iff)
  have ids: "row_id (tb_row T x) \<noteq> row_id (tb_row T y)" if "x \<in> set xs" "tb_row T y \<in> set (rows (st_db w))" "x \<noteq> y" for x y
    using unique_rowsD [OF uniq _ that(2), of "tb_row T x"] that mem table.same_rows [OF T]
    by (auto simp: conflict_def table.row_inj [OF T])
  let ?I = "\<lambda>ys v. rows_ok v \<and> st_redis v = st_redis w \<and> st_logouts v = st_logouts w \<and>
     (\<forall>r. (\<forall>y. r \<noteq> tb_row T y) \<longrightarrow> r \<in> set (rows (st_db v)) \<longleftrightarrow> r \<in> set (rows (st_db w))) \<and>
     (\<forall>y. live_row (tb_row T y) \<longrightarrow> tb_row T y \<in> set (rows (st_db v)) \<longleftrightarrow> tb_row T y \<in> set (rows (st_db w)) \<and> y \<notin> set ys)"
  show "wp (for_each xs (\<lambda>x. or_throw (Save E T (del x)) system_error)) Q X w1"
  proof (rule wp_for_each_upto [where I = ?I])
    fix ys x zs v
    assume split: "xs = ys @ x # zs" and I: "?I ys v"
    have x: "x \<in> set xs" "x \<notin> set ys" using split dist by auto
    then have xv: "tb_row T x \<in> set (rows (st_db v))" "live_row (tb_row T x)" using I mem by auto
    show "wp (or_throw (Save E T (del x)) system_error) (\<lambda>_. ?I (ys @ [x])) X v"
      unfolding wp_or_throw
    proof (rule wp_Save_saved [OF T _ xv])
      fix v'
      assume sv: "saved T (del x) v v'"
      have "tb_row T y \<in> set (rows (st_db v')) \<longleftrightarrow> tb_row T y \<in> set (rows (st_db w)) \<and> y \<notin> set (ys @ [x])"
        if "live_row (tb_row T y)" for y
      proof -
        have "y \<noteq> del x" using that del(2) by blast
        moreover have "row_id (tb_row T y) = row_id (tb_row T x) \<longleftrightarrow> y = x" if "tb_row T y \<in> set (rows (st_db w))"
          using ids [OF x(1) that] by metis
        ultimately show ?thesis using sv I that x(2) del(1) unfolding saved_def by auto
      qed
      with sv I show "?I (ys @ [x]) v'" unfolding saved_def by auto
    qed (use I del X in auto)
  next
    show "?I [] w1" using same ok by (simp add: same_def rows_ok_def)
  next
    fix v
    assume "?I xs v"
    then show "Q () v" by (intro Q) (use mem in \<open>auto simp: purged_def\<close>)
  qed
qed (rule X)

end

context backend
begin

lemma wp_ask_logout: "wp (ask_logout u) Q X w = Q () (w\<lparr>st_logouts := st_logouts w @ [u]\<rparr>)"
  by (simp add: wp_def ask_logout_def)

definition locked_out :: "UserInfo \<Rightarrow> ('d, 'r) stores \<Rightarrow> bool" where
  "locked_out u w \<longleftrightarrow> RUser (u\<lparr>ui_status := user_DISABLE\<rparr>) \<in> set (rows (st_db w)) \<and>
     (\<forall>t \<ge> e_now E. str_at (st_redis w) t (userStatusCachePrefix @ ui_uuid u) = None) \<and>
     ui_uuid u \<in> set (st_logouts w) \<and>
     (\<forall>s. RSession s \<in> set (rows (st_db w)) \<longrightarrow> se_deleted_at s = None \<longrightarrow> \<not> session_with (ui_uuid u) s)"

lemma disable_user_wp:
  assumes del: "deletes_ok E" and ok: "rows_ok w" and x: "RUser x \<in> set (rows (st_db w))" "ui_deleted_at x = 0"
    and Q: "\<And>w'. rows_ok w' \<Longrightarrow> locked_out x w' \<Longrightarrow>
      (\<And>y. ui_id y \<noteq> ui_id x \<Longrightarrow> RUser y \<in> set (rows (st_db w)) \<Longrightarrow> RUser y \<in> set (rows (st_db w'))) \<Longrightarrow>
      (\<And>y. ui_id y \<noteq> ui_id x \<Longrightarrow> locked_out y w \<Longrightarrow> locked_out y w') \<Longrightarrow> Q () w'"
    and X: "\<And>w'. X system_error w'"
  shows "wp (disable_user E x) Q X w"
  unfolding disable_user_def wp_bnd wp_or_throw
proof (rule wp_Save_saved [OF users.table_axioms ok, of x])
  fix w1
  assume sv: "saved users (x\<lparr>ui_status := user_DISABLE\<rparr>) w w1"
  let ?w2 = "w1\<lparr>st_logouts := st_logouts w1 @ [ui_uuid x]\<rparr>"
  show "wp (ask_logout (ui_uuid x)) (\<lambda>a. wp (InvalidateUserStatusCache E (ui_uuid x))
      (\<lambda>a. wp (delete_each E sessions (session_with (ui_uuid x)) (\<lambda>s. s\<lparr>se_deleted_at := Some (e_now E)\<rparr>)) Q X) X) X w1"
    unfolding wp_ask_logout InvalidateUserStatusCache_def wp_logged
  proof (rule wp_DelIfExists [OF del])
    fix w3 :: "('d, 'r) stores"
    assume w3: "st_db w3 = st_db ?w2" "st_logouts w3 = st_logouts ?w2"
      and str: "\<And>t k'. e_now E \<le> t \<Longrightarrow> str_at (st_redis w3) t k' =
        (if k' = userStatusCachePrefix @ ui_uuid x then None else str_at (st_redis ?w2) t k')"
    have ok3: "rows_ok w3" using sv w3 by (simp add: saved_def rows_ok_def)
    show "wp (delete_each E sessions (session_with (ui_uuid x)) (\<lambda>s. s\<lparr>se_deleted_at := Some (e_now E)\<rparr>)) Q X w3"
    proof (rule wp_delete_each [OF sessions.table_axioms ok3])
      fix w'
      assume pg: "purged sessions (session_with (ui_uuid x)) w3 w'"
      have user: "RUser y \<in> set (rows (st_db w')) \<longleftrightarrow> y = x\<lparr>ui_status := user_DISABLE\<rparr> \<or>
          (RUser y \<in> set (rows (st_db w)) \<and> ui_id y \<noteq> ui_id x)" for y
        using pg sv w3 by (simp add: purged_def saved_def)
      have sess: "RSession s \<in> set (rows (st_db w)) \<and> \<not> session_with (ui_uuid x) s"
        if "RSession s \<in> set (rows (st_db w'))" "se_deleted_at s = None" for s
        using pg sv w3 that by (simp add: purged_def saved_def)
      have red: "str_at (st_redis w') t k' = (if k' = userStatusCachePrefix @ ui_uuid x then None else str_at (st_redis w) t k')"
        if "e_now E \<le> t" for t k'
        using pg sv str [OF that] by (simp add: purged_def saved_def)
      have outs: "st_logouts w' = st_logouts w @ [ui_uuid x]"
        using pg sv w3 by (simp add: purged_def saved_def)
      show "Q () w'"
      proof (rule Q)
        show "rows_ok w'" using pg by (simp add: purged_def)
        show "locked_out x w'" unfolding locked_out_def using user red outs sess by simp
        show "RUser y \<in> set (rows (st_db w'))" if "ui_id y \<noteq> ui_id x" "RUser y \<in> set (rows (st_db w))" for y
          using user that by simp
        show "locked_out y w'" if "ui_id y \<noteq> ui_id x" "locked_out y w" for y
          using that user red outs sess unfolding locked_out_def by simp
      qed
    qed (simp_all add: X)
  qed
qed (use x X in simp_all)

lemma DisableUsers_wp:
  assumes "deletes_ok E" and ok: "rows_ok w"
  shows "wp (DisableUsers E us)
    (\<lambda>a w'. rows_ok w' \<and> (\<forall>u. RUser u \<in> set (rows (st_db w)) \<longrightarrow> ui_deleted_at u = 0 \<longrightarrow> ui_uuid u \<in> set us \<longrightarrow> locked_out u w'))
    (\<lambda>a w'. snd a = -1) w"
  unfolding DisableUsers_def wp_bnd wp_or_throw wp_ret
proof (rule wp_Find_mset [OF users.table_axioms])
  fix xs w1
  assume same: "same w w1" and xs: "mset (map (tb_row users) xs) = mset (filter (scoped users (\<lambda>u. ui_uuid u \<in> set us)) (rows (st_db w)))"
  have uniq: "unique_rows (rows (st_db w))" using ok by (simp add: rows_ok_def)
  have mem: "x \<in> set xs \<longleftrightarrow> RUser x \<in> set (rows (st_db w)) \<and> ui_deleted_at x = 0 \<and> ui_uuid x \<in> set us" for x
  proof -
    have "RUser x \<in> set (map (tb_row users) xs) \<longleftrightarrow> RUser x \<in> set (filter (scoped users (\<lambda>u. ui_uuid u \<in> set us)) (rows (st_db w)))"
      using xs by (metis set_mset_mset)
    then show ?thesis by (auto simp: users.scoped_iff)
  qed
  have "distinct (filter (scoped users (\<lambda>u. ui_uuid u \<in> set us)) (rows (st_db w)))" using unique_rows_distinct [OF uniq] by simp
  then have dist: "distinct xs" using xs by (metis distinct_map mset_eq_imp_distinct_iff)
  have ids: "ui_id x \<noteq> ui_id y" if "x \<in> set xs" "y \<in> set xs" "x \<noteq> y" for x y
    using unique_rowsD [OF uniq, of "RUser x" "RUser y"] that mem by (auto simp: conflict_def)
  let ?I = "\<lambda>ys v. rows_ok v \<and> (\<forall>y \<in> set ys. locked_out y v) \<and> (\<forall>z \<in> set xs - set ys. RUser z \<in> set (rows (st_db v)))"
  show "wp (for_each xs (disable_user E))
     (\<lambda>_ w'. rows_ok w' \<and> (\<forall>u. RUser u \<in> set (rows (st_db w)) \<longrightarrow> ui_deleted_at u = 0 \<longrightarrow> ui_uuid u \<in> set us \<longrightarrow> locked_out u w'))
     (\<lambda>a w'. snd a = -1) w1"
  proof (rule wp_for_each_upto [where I = ?I])
    fix ys x zs v
    assume split: "xs = ys @ x # zs" and I: "?I ys v"
    have x: "x \<in> set xs" "x \<notin> set ys" using split dist by auto
    have sub: "set ys \<subseteq> set xs" using split by auto
    show "wp (disable_user E x) (\<lambda>_. ?I (ys @ [x])) (\<lambda>a w'. snd a = -1) v"
    proof (rule disable_user_wp [OF assms(1)])
      fix v'
      assume "rows_ok v'" "locked_out x v'"
        and keep: "\<And>y. ui_id y \<noteq> ui_id x \<Longrightarrow> RUser y \<in> set (rows (st_db v)) \<Longrightarrow> RUser y \<in> set (rows (st_db v'))"
          "\<And>y. ui_id y \<noteq> ui_id x \<Longrightarrow> locked_out y v \<Longrightarrow> locked_out y v'"
      moreover have "locked_out y v'" if "y \<in> set ys" for y
        by (rule keep(2)) (use ids [of y x] that x sub I in auto)
      moreover have "RUser z \<in> set (rows (st_db v'))" if "z \<in> set xs - set (ys @ [x])" for z
        by (rule keep(1)) (use ids [of z x] that x I in auto)
      ultimately show "?I (ys @ [x]) v'" by auto
    next
      show "rows_ok v" "RUser x \<in> set (rows (st_db v))" "ui_deleted_at x = 0" using I x mem by auto
    qed (simp add: system_error_def)
  qed (use same ok mem in \<open>auto simp: same_def rows_ok_def\<close>)
qed (simp add: system_error_def)

end

context backend
begin

text \<open>No token of an inactive user is let in, at any time.\<close>

lemma AuthMiddleware_inactive:
  assumes "crypto_ok C" and "GenerateToken C k u a t0 = Some s" and "reads_ok E" and "status_uncached u w"
    and "inactive_user (rows (st_db w)) u"
  shows "wp (AuthMiddleware E C k (''Bearer '' @ s) q) (\<lambda>_ _. False) (\<lambda>c _. c = 401) w"
proof (cases "ParseToken C k s (e_now E)")
  case None
  then show ?thesis
    unfolding AuthMiddleware_def split_bearer by (simp add: wp_simps del: append.simps)
next
  case (Some c)
  then have "jc_Uuid c = u"
    using assms(2) by (auto simp: GenerateToken_def ParseToken_def crypto_okD [OF assms(1)] split: if_splits)
  with Some assms(5) show ?thesis
    unfolding AuthMiddleware_def split_bearer
    by (cases "s = []")
       (simp_all add: wp_simps del: append.simps,
        rule wp_mono [OF CheckUserActive_wp [OF assms(3,4), where X = "\<lambda>_ _. False"]], auto simp: wp_simps)
qed

end

text \<open>C23. Disabling an account shuts every way in at once, on the condition that no deletion in the cache fails and
  no read of the database does. After \<open>DisableUsers\<close> succeeded, for every listed live user and while the database
  and the cache are as it left them, no password logs in to the account, every token issued to it is refused
  with 401, its connection was asked to close, and no live session has it on either side. The condition is
  needed: \<open>InvalidateUserStatusCache\<close> ignores the error of its deletion, and a status \<open>NORMAL\<close> that stays in
  the cache admits the token for up to a minute more.\<close>

theorem disabled_user_locked_out:
  assumes "backend E rows str_at set_at pages" and "deletes_ok E" and "reads_ok E"
    and "unique_rows (rows (st_db w))" and "ids_ok (rows (st_db w))"
    and "RUser u \<in> set (rows (st_db w))" "ui_deleted_at u = 0" "ui_uuid u \<in> set us"
    and "answer (DisableUsers E us) w = Some ((m, 0), w')" and "e_now E \<le> t"
    and "crypto_ok C" and "GenerateToken C k (ui_uuid u) a t0 = Some s" and "normalizeEmail e = ui_email u"
  shows "(\<exists>m d c w''. answer (Login (E\<lparr>e_now := t\<rparr>) C k tz e p) w' = Some ((m, d, c), w'') \<and> c \<noteq> 0) \<and>
    (\<exists>w''. AuthMiddleware (E\<lparr>e_now := t\<rparr>) C k (''Bearer '' @ s) q w' = Some (Inl 401, w'')) \<and>
    ui_uuid u \<in> set (st_logouts w') \<and>
    (\<forall>x. RSession x \<in> set (rows (st_db w')) \<longrightarrow> se_deleted_at x = None \<longrightarrow> \<not> session_with (ui_uuid u) x)"
proof -
  let ?E = "E\<lparr>e_now := t\<rparr>"
  have R: "backend ?E rows str_at set_at pages" by (rule backend_now [OF assms(1)])
  have reads: "reads_ok ?E" using assms(3) by (simp add: reads_ok_def)
  have rok: "backend.rows_ok rows w" using assms(4,5) by (simp add: backend.rows_ok_def [OF assms(1)])
  have "\<exists>r w'. answer (DisableUsers E us) w = Some (r, w') \<and>
      (snd r = 0 \<longrightarrow> backend.rows_ok rows w' \<and> backend.locked_out E rows str_at u w')"
    by (rule wp_answer, rule wp_mono [OF backend.DisableUsers_wp [OF assms(1,2) rok, of us]]) (use assms(6-8) in auto)
  with assms(9) have "backend.rows_ok rows w'" and lo: "backend.locked_out E rows str_at u w'" by simp_all
  then have uniq: "unique_rows (rows (st_db w'))" by (simp add: backend.rows_ok_def [OF assms(1)])
  note lo = lo [unfolded backend.locked_out_def [OF assms(1)]]
  have user: "x = u\<lparr>ui_status := user_DISABLE\<rparr>" if "RUser x \<in> set (rows (st_db w'))" "ui_deleted_at x = 0"
      "ui_uuid x = ui_uuid u \<or> ui_email x = ui_email u" for x
    using unique_rowsD [OF uniq that(1) lo [THEN conjunct1]] that(2,3) assms(7) by (auto simp: conflict_def)
  have none: "\<not> login_account C (rows (st_db w')) e p x" for x
    using user [of x] assms(13) by (auto simp: login_account_def)
  have login: "\<exists>m d c w''. answer (Login ?E C k tz e p) w' = Some ((m, d, c), w'') \<and> c \<noteq> 0"
  proof -
    obtain r w'' where "answer (Login ?E C k tz e p) w' = Some (r, w'')" "backend.login_ok ?E C k tz e p (rows (st_db w')) r"
      using wp_answer [OF backend.Login_wp [OF R reads uniq, where e = e and C = C and p = p and k = k and tz = tz]] by blast
    with none show ?thesis by (cases r) (auto simp: backend.login_ok_def [OF R] split: if_splits)
  qed
  have "inactive_user (rows (st_db w')) (ui_uuid u)"
    unfolding inactive_user_def using user by fastforce
  moreover have "backend.status_uncached ?E str_at (ui_uuid u) w'"
    using lo assms(10) by (simp add: backend.status_uncached_def [OF R])
  ultimately have "wp (AuthMiddleware ?E C k (''Bearer '' @ s) q) (\<lambda>_ _. False) (\<lambda>c _. c = 401) w'"
    by (intro backend.AuthMiddleware_inactive [OF R assms(11,12) reads])
  then have "\<exists>w''. AuthMiddleware ?E C k (''Bearer '' @ s) q w' = Some (Inl 401, w'')"
    by (auto simp: wp_def split: option.splits sum.splits)
  with login lo show ?thesis by blast
qed

theorem disabled_user_locked_out_witness:
  "\<exists>w' w''. answer (DisableUsers (mem_env_reads 5) [''U1'']) demo_accounts = Some ((Msg ''disabled'', 0), w') \<and>
     AuthMiddleware ((mem_env_reads 5)\<lparr>e_now := 8 * second\<rparr>) (demo_crypto ''U1'') ''secret'' (''Bearer '' @ nat_digits 7) [] w' = Some (Inl 401, w'')"
proof -
  obtain w' where w': "answer (DisableUsers (mem_env_reads 5) [''U1'']) demo_accounts = Some ((Msg ''disabled'', 0), w')"
    by (simp add: DisableUsers_def disable_user_def delete_each_def ask_logout_def InvalidateUserStatusCache_def
        userStatusCachePrefix_def demo_accounts_def demo_account_def demo_user_def demo_def mem_empty_def run_defs mem_read_def List.map_filter_simps)
  have u: "RUser demo_account \<in> set (md_rows (st_db demo_accounts))" "ui_deleted_at demo_account = 0"
    "ui_uuid demo_account \<in> set [''U1'']" "ids_ok (md_rows (st_db demo_accounts))"
    "normalizeEmail ''a@b.c'' = ui_email demo_account"
    by (simp_all add: demo_accounts_rows demo_account_def demo_user_def ids_ok_def demo_email)
  have tok: "GenerateToken (demo_crypto ''U1'') ''secret'' (ui_uuid demo_account) 0 (7 * second) = Some (nat_digits 7)"
    using demo_token by (simp add: demo_account_def demo_user_def)
  have "\<exists>w''. AuthMiddleware ((mem_env_reads 5)\<lparr>e_now := 8 * second\<rparr>) (demo_crypto ''U1'') ''secret'' (''Bearer '' @ nat_digits 7) [] w' = Some (Inl 401, w'')"
    using disabled_user_locked_out [OF mem_backend deletes_ok_mem reads_ok_mem unique_rows_accounts u(4) u(1-3) w' _ crypto_ok_demo tok u(5), of "8 * second"]
    by simp
  with w' show ?thesis by blast
qed

section \<open>Registering\<close>

definition registered :: "crypto_lib \<Rightarrow> time \<Rightarrow> nat \<Rightarrow> string \<Rightarrow> RegisterRequest \<Rightarrow> row list \<Rightarrow> row list \<Rightarrow> bool" where
  "registered C now salt uid req rs rs' \<longleftrightarrow> checkEmailValid (normalizeEmail (rr_Email req)) \<and>
     (\<exists>hash i. HashPassword C salt (rr_Password req) = Some hash \<and>
        rs' = rs @ [RUser ((new_user uid (normalizeEmail (rr_Email req)) hash (rr_Nickname req) now)\<lparr>ui_id := i\<rparr>)])"

context backend
begin

lemma VerifyEmailCode_db:
  "(\<And>b w'. st_db w' = st_db w \<Longrightarrow> Q b w') \<Longrightarrow> wp (VerifyEmailCode E email code) Q X w"
  unfolding VerifyEmailCode_def Let_def wp_attempt
  by (rule wp_cache) (auto simp: wp_simps same_db_def DelIfExists_def intro!: wp_cache)

lemma Register_wp:
  assumes uniq: "unique_rows (rows (st_db w))"
  shows "wp (Register E C k tz salt rnd req)
    (\<lambda>r w'. unique_rows (rows (st_db w')) \<and>
       registered C (e_now E) salt (CHR ''U'' # GetNowAndLenRandomString tz (e_now E) rnd 11) req (rows (st_db w)) (rows (st_db w')))
    (\<lambda>r w'. snd (snd r) \<noteq> 0) w"
  unfolding Register_def Let_def
proof (rule wp_seq [where R = "\<lambda>_ w'. w' = w \<and> checkEmailValid (normalizeEmail (rr_Email req))"], goal_cases)
  case 1
  show ?case by (simp add: wp_guard LoginFailed_def)
next
  case (2 _ w0)
  then have valid: "checkEmailValid (normalizeEmail (rr_Email req))" and w0: "w0 = w" by simp_all
  show ?case
    unfolding w0
  proof (rule wp_seq [where R = "\<lambda>_ w'. rows (st_db w') = rows (st_db w)"], goal_cases)
    case 1
    show ?case by (rule VerifyEmailCode_db) simp
  next
    case (2 ok w1)
    then have r1: "rows (st_db w1) = rows (st_db w)" by simp
    show ?case
    proof (rule wp_seq [where R = "\<lambda>_ w'. rows (st_db w') = rows (st_db w)"], goal_cases)
      case 1
      show ?case by (simp add: wp_guard LoginFailed_def r1)
    next
      case (2 _ w2)
      show ?case
      proof (rule wp_seq [where R = "\<lambda>_ w'. rows (st_db w') = rows (st_db w)"], goal_cases)
        case 1
        show ?case
          unfolding checkEmailExist_def wp_attempt
          by (rule wp_First [OF users.table_axioms]) (use 2 in \<open>auto simp: wp_simps same_def LoginFailed_def\<close>)
      next
        case (2 _ w3)
        show ?case
        proof (cases "HashPassword C salt (rr_Password req)")
          case None
          then show ?thesis by (simp add: wp_throw)
        next
          case (Some hash)
          show ?thesis
            unfolding Some option.case wp_bnd wp_attempt
          proof (rule wp_Create [OF users.table_axioms], goal_cases)
            case (1 y i w4)
            then have "y = (new_user (CHR ''U'' # GetNowAndLenRandomString tz (e_now E) rnd 11)
              (normalizeEmail (rr_Email req)) hash (rr_Nickname req) (e_now E))\<lparr>ui_id := i\<rparr>" by simp
            with 1(3) 2 valid Some uniq show ?case
              by (auto simp: wp_simps token_answer_def registered_def added_def split: option.split)
          next
            case (2 e w4)
            then show ?case by (auto simp: wp_simps LoginFailed_def)
          qed
        qed
      qed
    qed
  qed
qed

end

text \<open>C22. Who registers can log in: after a successful \<open>Register\<close> the password login with the same address and
  password succeeds and names the new account, whatever the salt of the hash, if the token can be
  signed.\<close>

theorem registered_can_login:
  assumes "backend E rows str_at set_at pages" and "reads_ok E" and "unique_rows (rows (st_db w))" and "crypto_ok C"
    and "answer (Register E C k tz salt rnd req) w = Some ((m, d, 0), w')"
    and "uid = CHR ''U'' # GetNowAndLenRandomString tz (e_now E) rnd 11"
    and "GenerateToken C k uid 0 t = Some token"
  shows "\<exists>m d w''. answer (Login (E\<lparr>e_now := t\<rparr>) C k tz (rr_Email req) (rr_Password req)) w' = Some ((m, Some d, 0), w'') \<and>
    lr_Uuid d = uid \<and> lr_Token d = token"
proof -
  let ?E = "E\<lparr>e_now := t\<rparr>" and ?rs = "rows (st_db w')"
  have R: "backend ?E rows str_at set_at pages" by (rule backend_now [OF assms(1)])
  have reads: "reads_ok ?E" using assms(2) by (simp add: reads_ok_def)
  have "\<exists>r w'. answer (Register E C k tz salt rnd req) w = Some (r, w') \<and>
      (snd (snd r) = 0 \<longrightarrow> unique_rows (rows (st_db w')) \<and> registered C (e_now E) salt uid req (rows (st_db w)) (rows (st_db w')))"
    by (rule wp_answer, rule wp_mono [OF backend.Register_wp [OF assms(1,3)]]) (use assms(6) in auto)
  with assms(5) have uniq: "unique_rows ?rs" and reg: "registered C (e_now E) salt uid req (rows (st_db w)) ?rs" by simp_all
  from reg obtain hash i where valid: "checkEmailValid (normalizeEmail (rr_Email req))"
      and hash: "HashPassword C salt (rr_Password req) = Some hash"
      and rs: "?rs = rows (st_db w) @ [RUser ((new_user uid (normalizeEmail (rr_Email req)) hash (rr_Nickname req) (e_now E))\<lparr>ui_id := i\<rparr>)]"
    unfolding registered_def by blast
  define u where "u = (new_user uid (normalizeEmail (rr_Email req)) hash (rr_Nickname req) (e_now E))\<lparr>ui_id := i\<rparr>"
  have fields: "ui_email u = normalizeEmail (rr_Email req)" "ui_uuid u = uid" "ui_is_admin u = 0" "ui_deleted_at u = 0"
    "ui_status u = 0" "ui_password u = hash"
    by (simp_all add: u_def new_user_def zero_user_def)
  have acc: "login_account C ?rs (rr_Email req) (rr_Password req) u"
    using hash crypto_okD(3) [OF assms(4)] fields
    by (simp add: login_account_def rs u_def [symmetric] VerifyPassword_def HashPassword_def)
  have only: "v = u" if "login_account C ?rs (rr_Email req) (rr_Password req) v" for v
    using unique_rowsD [OF uniq, of "RUser v" "RUser u"] that acc by (auto simp: login_account_def conflict_def)
  obtain r w'' where r: "answer (Login ?E C k tz (rr_Email req) (rr_Password req)) w' = Some (r, w'')"
      and ok: "backend.login_ok ?E C k tz (rr_Email req) (rr_Password req) ?rs r"
    using wp_answer [OF backend.Login_wp [OF R reads uniq, where e = "rr_Email req" and C = C and p = "rr_Password req" and k = k and tz = tz]] by blast
  have tok: "GenerateToken C k (ui_uuid u) (ui_is_admin u) (e_now ?E) = Some token" using assms(7) fields by simp
  have zero: "snd (snd r) = 0"
    using ok acc valid tok unfolding backend.login_ok_def [OF R] by (auto split: if_splits)
  then obtain v tk where "login_account C ?rs (rr_Email req) (rr_Password req) v"
      "GenerateToken C k (ui_uuid v) (ui_is_admin v) (e_now ?E) = Some tk" "r = (Msg ''logged in'', Some (login_respond tz v tk), 0)"
    using ok unfolding backend.login_ok_def [OF R] by auto
  with only [of v] tok r fields show ?thesis by (auto simp: login_respond_def)
qed

definition demo_registering :: "(mem_db, mem_redis) stores" where
  "demo_registering = \<lparr>st_db = \<lparr>md_rows = [], md_next = 1, md_faults = []\<rparr>,
     st_redis = \<lparr>mr_data = [(''auth_code_email_a@b.c'', RStr ''123456'', None)], mr_streams = [], mr_faults = []\<rparr>, st_logouts = []\<rparr>"

theorem registered_can_login_witness:
  "\<exists>uid w' m d m' d' w''. answer (Register (mem_env_reads (7 * second)) (demo_crypto uid) ''secret'' 0 1 5
       \<lparr>rr_Email = ''a@b.c'', rr_Password = ''pw'', rr_Nickname = ''n'', rr_EmailCode = ''123456''\<rparr>) demo_registering = Some ((m, d, 0), w') \<and>
     answer (Login ((mem_env_reads (7 * second))\<lparr>e_now := 7 * second\<rparr>) (demo_crypto uid) ''secret'' 0 ''a@b.c'' ''pw'') w' = Some ((m', Some d', 0), w'') \<and>
     lr_Uuid d' = uid"
proof -
  define uid where "uid = CHR ''U'' # GetNowAndLenRandomString 0 7000000000 5 11"
  have uid: "uid = CHR ''U'' # GetNowAndLenRandomString 0 (e_now (mem_env_reads (7 * second))) 5 11"
    by (simp add: uid_def)
  let ?req = "\<lparr>rr_Email = ''a@b.c'', rr_Password = ''pw'', rr_Nickname = ''n'', rr_EmailCode = ''123456''\<rparr>"
  have tok: "GenerateToken (demo_crypto uid) ''secret'' uid 0 (7 * second) = Some (nat_digits 7)"
    by (simp add: GenerateToken_def demo_crypto_def demo_claims_def numeric_date_def Let_def)
  have uniq: "unique_rows (md_rows (st_db demo_registering))"
    by (simp add: demo_registering_def unique_rows_def)
  define no_users where "no_users = demo_registering\<lparr>st_redis := mem_empty\<rparr>"
  have checks: "VerifyEmailCode (mem_env_reads (7 * second)) ''a@b.c'' ''123456'' demo_registering = Some (Inr True :: login_answer + bool, no_users)"
      "checkEmailExist (mem_env_reads (7 * second)) ''a@b.c'' no_users = Some (Inr (), no_users)"
    by (simp_all add: VerifyEmailCode_def checkEmailExist_def demo_email codeKey_def demo_registering_def no_users_def
        mem_empty_def run_defs mem_read_def List.map_filter_simps)
  have hash: "HashPassword (demo_crypto uid) 1 ''pw'' = Some ''hpw''" by (simp add: HashPassword_def demo_crypto_def)
  obtain w' m d where w': "answer (Register (mem_env_reads (7 * second)) (demo_crypto uid) ''secret'' 0 1 5 ?req) demo_registering = Some ((m, d, 0), w')"
    using tok checks hash
    by (simp add: Register_def demo_email token_answer_def new_user_def zero_user_def run_defs no_users_def
        demo_registering_def uid_def [symmetric])
  show ?thesis
    using registered_can_login [OF mem_backend reads_ok_mem uniq crypto_ok_demo w' uid tok] w' by fastforce
qed

end
