(* ===== verification/Chat_State.thy ===== *)
theory Chat_State
  imports Contact_Service Metrics
begin

text \<open>
  The state of a chat process (\<open>package chat\<close>): the connected clients, the map from users to
  them, the writer that collects messages for the database, the workers that fan group messages
  out, the distributor's table of recent deliveries, and the queues of background work. A
  \<open>*Client\<close> is an index into \<open>ch_heap\<close>: an old connection is still reachable when the map holds a
  newer one of the same user. The three servers of the package (channel, hybrid and Kafka mode)
  have a map \<open>Clients\<close> each; a process runs one of them, whose map is \<open>ch_Clients\<close>.

  What runs concurrently in the code are separate operations here, each a step on this state.
  A \<open>chat_act\<close> is an action on it; \<open>stored\<close> lifts an action on the two stores.
\<close>

section \<open>Clients\<close>

record MessageBack =
  mb_Message :: bytes
  mb_Uuid :: string

text \<open>\<open>cl_done\<close>: the channel \<open>done\<close> is closed, and the connection with it; \<open>cl_written\<close> are the text
  frames that were written to the connection.\<close>

record Client =
  cl_Uuid :: uuid
  cl_SendBack :: "MessageBack chan"
  cl_done :: bool
  cl_written :: "bytes list"

section \<open>The parts of a process\<close>

text \<open>\<open>MessageBatchWriter\<close> of \<open>message_batch.go\<close>. A result channel is a number, \<open>bw_answers\<close> the values
  sent on them; \<open>bw_inflight\<close> is the local \<open>batch\<close> of the flush that runs.\<close>

record MessageBatchWriter =
  bw_buffer :: "(Message \<times> nat) list"
  bw_started :: bool
  bw_closed :: bool
  bw_flushing :: bool
  bw_inflight :: "(Message \<times> nat) list"
  bw_totalEnqueued :: int
  bw_totalFlushed :: int
  bw_totalFlushes :: int
  bw_totalErrors :: int
  bw_nextDone :: nat
  bw_answers :: "(nat \<times> go_error option) list"

record fanoutTask =
  ft_groupId :: uuid
  ft_messageBack :: MessageBack

record FanoutExecutor =
  fx_workers :: "fanoutTask chan list"
  fx_quit :: bool

text \<open>\<open>presence.Service\<close>, and \<open>transport.InstanceBus\<close> without its streams, which are in the cache.\<close>

record presence_service =
  ps_instanceID :: string
  ps_ttl :: time

record InstanceBus =
  ib_instanceID :: string
  ib_stream :: string
  ib_group :: string
  ib_maxLen :: int
  ib_stopped :: bool

record Distributor =
  ds_instanceID :: string
  ds_presence :: presence_service
  ds_publisher :: InstanceBus
  ds_enabled :: bool
  ds_dedupSeen :: "(string \<times> time) list"

text \<open>The closures that \<open>forwardToUser\<close> and \<open>forwardToGroup\<close> queue for the cache worker.\<close>

datatype cache_task =
    CacheUser Message GetMessageListRespond
  | CacheGroup Message MessageRespond

record ('d, 'r) chat =
  ch_stores :: "('d, 'r) stores"
  ch_metrics :: MessageMetrics
  ch_heap :: "Client list"
  ch_Clients :: "(uuid \<times> nat) list"
  ch_statusUpdates :: "string chan"
  ch_queuedStatuses :: "string list"
  ch_batch :: MessageBatchWriter
  ch_distributor :: Distributor
  ch_fanout :: FanoutExecutor
  ch_cacheTasks :: "cache_task chan"
  ch_stopCache :: bool

text \<open>
  The environment: the stores' clients with the clock, the offset of local time, the number
  \<open>rand.Intn\<close> gives, and the runtime's choices: whether a send on an open queue loses against a
  closed \<open>done\<close> when both are ready, the order in which a map is traversed, and what the other
  goroutines do while one waits for a result.
\<close>

record ('d, 'r) chat_env =
  ce_env :: "('d, 'r) env"
  ce_tz :: time
  ce_rand :: int
  ce_late :: "nat \<Rightarrow> bool"
  ce_order :: "string list \<Rightarrow> string list"
  ce_sched :: "('d, 'r) chat \<Rightarrow> ('d, 'r) chat"

type_synonym ('d, 'r, 'e, 'a) chat_act = "(('d, 'r) chat, 'e, 'a) act"

abbreviation ce_now :: "('d, 'r) chat_env \<Rightarrow> time" where
  "ce_now C \<equiv> e_now (ce_env C)"

section \<open>Actions\<close>

definition stored :: "('d, 'r, 'e, 'a) svc \<Rightarrow> ('d, 'r, 'e, 'a) chat_act" where
  "stored m w = map_option (\<lambda>(r, s). (r, w\<lparr>ch_stores := s\<rparr>)) (m (ch_stores w))"

definition modify :: "('w \<Rightarrow> 'w) \<Rightarrow> ('w, 'e, unit) act" where
  "modify f w = Some (Inr (), f w)"

definition gets :: "('w \<Rightarrow> 'a) \<Rightarrow> ('w, 'e, 'a) act" where
  "gets f w = Some (Inr (f w), w)"

definition count :: "(MessageMetrics \<Rightarrow> MessageMetrics) \<Rightarrow> ('d, 'r, 'e, unit) chat_act" where
  "count f = modify (\<lambda>w. w\<lparr>ch_metrics := f (ch_metrics w)\<rparr>)"

lemma wp_stored [wp_simps]:
  "wp (stored m) Q X w = wp m (\<lambda>a s. Q a (w\<lparr>ch_stores := s\<rparr>)) (\<lambda>e s. X e (w\<lparr>ch_stores := s\<rparr>)) (ch_stores w)"
  by (simp add: wp_def stored_def split: option.split sum.split prod.split)

lemma wp_modify [wp_simps]: "wp (modify f) Q X w = Q () (f w)"
  by (simp add: wp_def modify_def)

lemma wp_gets [wp_simps]: "wp (gets f) Q X w = Q (f w) w"
  by (simp add: wp_def gets_def)

lemma wp_count [wp_simps]: "wp (count f) Q X w = Q () (w\<lparr>ch_metrics := f (ch_metrics w)\<rparr>)"
  by (simp add: count_def wp_simps)

text \<open>An action that ends with a result; \<open>ends\<close> is for those that cannot end with an error.\<close>

definition ends :: "('w, unit, 'a) act \<Rightarrow> 'w \<Rightarrow> 'a \<Rightarrow> 'w \<Rightarrow> bool" where
  "ends m w a w' \<longleftrightarrow> m w = Some (Inr a, w')"

text \<open>Invariants of actions, whatever they end with.\<close>

lemma bnd_Some:
  "bnd m f w = Some (r, w') \<longleftrightarrow>
     (\<exists>e. m w = Some (Inl e, w') \<and> r = Inl e) \<or> (\<exists>a v. m w = Some (Inr a, v) \<and> f a v = Some (r, w'))"
  by (auto simp: bnd_def split: option.splits sum.splits)

lemma attempt_Some: "attempt m f w = Some (r, w') \<longleftrightarrow> (\<exists>q v. m w = Some (q, v) \<and> f q v = Some (r, w'))"
  by (auto simp: attempt_def split: option.splits)

text \<open>\<open>keeps I m\<close>: whatever \<open>m\<close> ends with, \<open>I\<close> still holds.\<close>

definition keeps :: "('w \<Rightarrow> bool) \<Rightarrow> ('w, 'e, 'a) act \<Rightarrow> bool" where
  "keeps I m \<longleftrightarrow> (\<forall>w r w'. I w \<longrightarrow> m w = Some (r, w') \<longrightarrow> I w')"

lemma keepsI: "(\<And>w r w'. I w \<Longrightarrow> m w = Some (r, w') \<Longrightarrow> I w') \<Longrightarrow> keeps I m"
  by (auto simp: keeps_def)

lemma keepsD: "keeps I m \<Longrightarrow> I w \<Longrightarrow> m w = Some (r, w') \<Longrightarrow> I w'"
  by (auto simp: keeps_def)

named_theorems keeps_intros "actions that keep an invariant"

lemma keeps_ret [keeps_intros]: "keeps I (ret a)" and keeps_throw [keeps_intros]: "keeps I (throw e)"
  by (simp_all add: keeps_def ret_def throw_def)

lemma keeps_bnd [keeps_intros]: "keeps I m \<Longrightarrow> (\<And>a. keeps I (f a)) \<Longrightarrow> keeps I (bnd m f)"
  unfolding keeps_def bnd_Some by blast

lemma keeps_attempt [keeps_intros]: "keeps I m \<Longrightarrow> (\<And>r. keeps I (f r)) \<Longrightarrow> keeps I (attempt m f)"
  unfolding keeps_def attempt_Some by blast

lemma keeps_logged [keeps_intros]: "keeps I m \<Longrightarrow> keeps I (logged m)"
  by (auto simp: logged_def intro: keeps_intros)

lemma keeps_for_each [keeps_intros]: "(\<And>x. x \<in> set xs \<Longrightarrow> keeps I (f x)) \<Longrightarrow> keeps I (for_each xs f)"
  by (induction xs) (auto intro!: keeps_intros)

lemma keeps_gets [keeps_intros]: "keeps I (gets f)"
  by (simp add: keeps_def gets_def)

lemma keeps_modify: "(\<And>w. I w \<Longrightarrow> I (f w)) \<Longrightarrow> keeps I (modify f)"
  by (simp add: keeps_def modify_def)

lemma keeps_if [keeps_intros]: "(b \<Longrightarrow> keeps I m) \<Longrightarrow> (\<not> b \<Longrightarrow> keeps I m') \<Longrightarrow> keeps I (if b then m else m')"
  by simp

definition at_client :: "nat \<Rightarrow> (Client \<Rightarrow> Client) \<Rightarrow> ('d, 'r) chat \<Rightarrow> ('d, 'r) chat" where
  "at_client p f w = w\<lparr>ch_heap := (ch_heap w)[p := f (ch_heap w ! p)]\<rparr>"

definition client_of :: "('d, 'r) chat \<Rightarrow> uuid \<Rightarrow> nat option" where
  "client_of w u = map_of (ch_Clients w) u"

section \<open>A fresh process\<close>

definition new_batch :: MessageBatchWriter where
  "new_batch = \<lparr>bw_buffer = [], bw_started = False, bw_closed = False, bw_flushing = False, bw_inflight = [],
     bw_totalEnqueued = 0, bw_totalFlushed = 0, bw_totalFlushes = 0, bw_totalErrors = 0, bw_nextDone = 0, bw_answers = []\<rparr>"

definition NewDistributor :: Distributor where
  "NewDistributor = \<lparr>ds_instanceID = [], ds_presence = \<lparr>ps_instanceID = [], ps_ttl = 0\<rparr>,
     ds_publisher = \<lparr>ib_instanceID = [], ib_stream = [], ib_group = [], ib_maxLen = 0, ib_stopped = False\<rparr>,
     ds_enabled = False, ds_dedupSeen = []\<rparr>"

abbreviation fanoutWorkerCount :: nat where "fanoutWorkerCount \<equiv> 8"
abbreviation fanoutQueueSize :: nat where "fanoutQueueSize \<equiv> 1024"
abbreviation cacheTaskQueueSize :: nat where "cacheTaskQueueSize \<equiv> 2048"
abbreviation clientDeliveryQueueSize :: nat where "clientDeliveryQueueSize \<equiv> 4096"
abbreviation deliveryStatusQueueSize :: nat where "deliveryStatusQueueSize \<equiv> 32768"

definition NewFanoutExecutor :: FanoutExecutor where
  "NewFanoutExecutor = \<lparr>fx_workers = replicate fanoutWorkerCount (make_chan fanoutQueueSize), fx_quit = False\<rparr>"

definition NewMessageProcessor :: "('d, 'r) stores \<Rightarrow> ('d, 'r) chat" where
  "NewMessageProcessor s =
     \<lparr>ch_stores = s, ch_metrics = zero_metrics, ch_heap = [], ch_Clients = [],
      ch_statusUpdates = make_chan deliveryStatusQueueSize, ch_queuedStatuses = [], ch_batch = new_batch,
      ch_distributor = NewDistributor, ch_fanout = NewFanoutExecutor,
      ch_cacheTasks = make_chan cacheTaskQueueSize, ch_stopCache = False\<rparr>"

end
