(* ===== verification/Client_Delivery.thy ===== *)
theory Client_Delivery
  imports Chat_State
begin

text \<open>
  \<open>chat/client.go\<close>, and the login, logout and removal of clients that the three servers share: what a
  connection reads and writes, the bounded delivery to a client, and the statuses of delivered
  messages that are written to the database in batches.
\<close>

section \<open>Texts\<close>

text \<open>The texts for a client, by their bytes: the greetings of the hybrid router and of the other two servers, the
  farewell, and the two answers to a message that is not sent (blocked; try again later).\<close>

definition utf8 :: "nat list \<Rightarrow> bytes" where
  "utf8 = map char_of"

definition hybrid_welcome :: bytes where
  "hybrid_welcome = utf8
    [230, 172, 162, 232, 191, 142, 230, 157, 165, 229, 136, 176, 32, 107, 97, 109, 97, 32, 232, 129,
     138, 229, 164, 169, 230, 156, 141, 229, 138, 161, 229, 153, 168]"

definition server_welcome :: bytes where
  "server_welcome = utf8
    [230, 172, 162, 232, 191, 142, 230, 157, 165, 229, 136, 176, 107, 97, 109, 97, 232, 129, 138,
     229, 164, 169, 230, 156, 141, 229, 138, 161, 229, 153, 168]"

definition logged_out :: bytes where
  "logged_out = utf8
    [229, 183, 178, 233, 128, 128, 229, 135, 186, 231, 153, 187, 229, 189, 149]"

definition blocked_text :: bytes where
  "blocked_text = utf8
    [230, 182, 136, 230, 129, 175, 229, 143, 145, 233, 128, 129, 229, 164, 177, 232, 180, 165, 239,
     188, 154, 228, 189, 160, 229, 183, 178, 232, 162, 171, 229, 175, 185, 230, 150, 185, 230, 139,
     137, 233, 187, 145, 230, 136, 150, 229, 183, 178, 230, 139, 137, 233, 187, 145, 229, 175, 185,
     230, 150, 185]"

definition not_sent_text :: bytes where
  "not_sent_text = utf8
    [230, 182, 136, 230, 129, 175, 229, 143, 145, 233, 128, 129, 229, 164, 177, 232, 180, 165, 239,
     188, 140, 232, 175, 183, 231, 168, 141, 229, 144, 142, 233, 135, 141, 232, 175, 149]"

section \<open>Delivery to a client\<close>

datatype delivery_error = ClientClosed | DeliveryQueueFull

text \<open>
  The \<open>select\<close> of \<open>EnqueueDelivery\<close> at the moment it fires: the closed \<open>done\<close>, room in the queue, or
  the timer, which can only fire when for 500 ms neither was the case.
\<close>

definition EnqueueDelivery :: "('d, 'r) chat_env \<Rightarrow> nat \<Rightarrow> MessageBack \<Rightarrow> ('d, 'r, delivery_error, unit) chat_act" where
  "EnqueueDelivery C p mb =
     bnd (gets (\<lambda>w. ch_heap w ! p)) (\<lambda>c.
     case try_send (cl_SendBack c) mb of
       Some q \<Rightarrow>
         if cl_done c \<and> ce_late C p then
           bnd (count (\<lambda>m. m\<lparr>deliveryClientClosed := deliveryClientClosed m + 1\<rparr>)) (\<lambda>_. throw ClientClosed)
         else modify (at_client p (\<lambda>c. c\<lparr>cl_SendBack := q\<rparr>))
     | None \<Rightarrow>
         if cl_done c then
           bnd (count (\<lambda>m. m\<lparr>deliveryClientClosed := deliveryClientClosed m + 1\<rparr>)) (\<lambda>_. throw ClientClosed)
         else
           bnd (count (\<lambda>m. m\<lparr>deliveryQueueTimeouts := deliveryQueueTimeouts m + 1\<rparr>)) (\<lambda>_. throw DeliveryQueueFull))"

definition Close :: "nat \<Rightarrow> ('d, 'r, 'e, unit) chat_act" where
  "Close p = modify (at_client p (\<lambda>c. c\<lparr>cl_done := True\<rparr>))"

section \<open>Statuses of delivered messages\<close>

text \<open>The send blocks the writer of the connection while the channel is full; the step is then not
  possible (\<open>None\<close>).\<close>

definition enqueueDeliveryStatus :: "string \<Rightarrow> ('d, 'r, 'e, unit) chat_act" where
  "enqueueDeliveryStatus u w =
     (if u = [] \<or> u \<in> set (ch_queuedStatuses w) then Some (Inr (), w)
      else (case try_send (ch_statusUpdates w) u of
              None \<Rightarrow> None
            | Some q \<Rightarrow> Some (Inr (), w\<lparr>ch_queuedStatuses := u # ch_queuedStatuses w, ch_statusUpdates := q\<rparr>)))"

definition forget_status :: "string \<Rightarrow> ('d, 'r, 'e, unit) chat_act" where
  "forget_status u = modify (\<lambda>w. w\<lparr>ch_queuedStatuses := removeAll u (ch_queuedStatuses w)\<rparr>)"

text \<open>A status that found no row goes back to the channel, past the check for duplicates, if there is
  room.\<close>

definition requeue_status :: "string \<Rightarrow> ('d, 'r, 'e, unit) chat_act" where
  "requeue_status u = modify (\<lambda>w. case try_send (ch_statusUpdates w) u of
     None \<Rightarrow> w | Some q \<Rightarrow> w\<lparr>ch_statusUpdates := q\<rparr>)"

definition mark_sent :: "('d, 'r) env \<Rightarrow> string list \<Rightarrow> ('d, 'r, go_error, nat) svc" where
  "mark_sent E pending =
     update E (scoped messages (\<lambda>m. ms_uuid m \<in> set pending)) (on_row messages (\<lambda>m. m\<lparr>ms_status := message_Sent\<rparr>))"

text \<open>After an update that reached fewer rows than there are statuses.\<close>

definition settle_statuses :: "('d, 'r) chat_env \<Rightarrow> string list \<Rightarrow> ('d, 'r, 'e, unit) chat_act" where
  "settle_statuses C pending =
     attempt (stored (Find (ce_env C) messages (\<lambda>m. ms_uuid m \<in> set pending))) (\<lambda>r.
       let matched = (case r of Inl _ \<Rightarrow> [] | Inr ms \<Rightarrow> map ms_uuid ms) in
       bnd (for_each (filter (\<lambda>u. u \<in> set matched) pending) forget_status) (\<lambda>_.
       for_each (filter (\<lambda>u. u \<notin> set matched) pending) requeue_status))"

text \<open>The update is tried until the database takes it; \<open>fuel\<close> bounds the number of tries.\<close>

fun flush_statuses :: "('d, 'r) chat_env \<Rightarrow> nat \<Rightarrow> string list \<Rightarrow> ('d, 'r, 'e, unit) chat_act" where
  "flush_statuses C 0 pending = (\<lambda>_. None)"
| "flush_statuses C (Suc fuel) pending =
     (if pending = [] then ret ()
      else attempt (stored (mark_sent (ce_env C) pending)) (\<lambda>r. case r of
             Inl _ \<Rightarrow> flush_statuses C fuel pending
           | Inr n \<Rightarrow>
               if length pending \<le> n then for_each pending forget_status
               else settle_statuses C pending))"

abbreviation deliveryStatusBatchSize :: nat where "deliveryStatusBatchSize \<equiv> 100"

text \<open>One round of the worker's \<open>select\<close> with the statuses it has collected: a status arrives
  (\<open>True\<close>) or the ticker fires.\<close>

definition flushDeliveryStatuses ::
  "('d, 'r) chat_env \<Rightarrow> nat \<Rightarrow> bool \<Rightarrow> string list \<Rightarrow> ('d, 'r, 'e, string list) chat_act" where
  "flushDeliveryStatuses C fuel arrives pending =
     (if arrives then
        bnd (\<lambda>w. case try_recv (ch_statusUpdates w) of
               None \<Rightarrow> None | Some (u, q) \<Rightarrow> Some (Inr u, w\<lparr>ch_statusUpdates := q\<rparr>)) (\<lambda>u.
        if deliveryStatusBatchSize \<le> length (pending @ [u]) then
          bnd (flush_statuses C fuel (pending @ [u])) (\<lambda>_. ret [])
        else ret (pending @ [u]))
      else bnd (flush_statuses C fuel pending) (\<lambda>_. ret []))"

text \<open>One tick of the scan for messages that nobody confirmed within five minutes.\<close>

definition reconcileUnconfirmedDeliveries :: "('d, 'r) chat_env \<Rightarrow> ('d, 'r, 'e, unit) chat_act" where
  "reconcileUnconfirmedDeliveries C =
     logged (stored (Updates (ce_env C) messages
       (\<lambda>m. ms_status m = message_Unsent \<and> ms_created_at m < ce_now C - 5 * minute)
       (\<lambda>m. m\<lparr>ms_status := message_Sent\<rparr>)))"

section \<open>The goroutines of a connection\<close>

datatype write_branch = WriteDone | WriteMessage | WritePing

text \<open>A round of \<open>Write\<close>; \<open>ok\<close> is whether the connection takes the frame. The result says whether the
  loop goes on; a branch that is not ready gives \<open>None\<close>.\<close>

definition Write :: "write_branch \<Rightarrow> bool \<Rightarrow> nat \<Rightarrow> ('d, 'r, 'e, bool) chat_act" where
  "Write b ok p w =
     (let c = ch_heap w ! p in
      case b of
        WriteDone \<Rightarrow> if cl_done c then Some (Inr False, w) else None
      | WriteMessage \<Rightarrow>
          (case try_recv (cl_SendBack c) of
             None \<Rightarrow> None
           | Some (mb, q) \<Rightarrow>
               (let w1 = at_client p (\<lambda>c. c\<lparr>cl_SendBack := q\<rparr>) w in
                if ok then
                  bnd (enqueueDeliveryStatus (mb_Uuid mb)) (\<lambda>_. ret True)
                    (at_client p (\<lambda>c. c\<lparr>cl_written := cl_written c @ [mb_Message mb]\<rparr>) w1)
                else bnd (Close p) (\<lambda>_. ret False) w1))
      | WritePing \<Rightarrow> if ok then Some (Inr True, w) else bnd (Close p) (\<lambda>_. ret False) w)"

definition write_frame :: "nat \<Rightarrow> bytes \<Rightarrow> ('d, 'r, 'e, unit) chat_act" where
  "write_frame p f = modify (at_client p (\<lambda>c. c\<lparr>cl_written := cl_written c @ [f]\<rparr>))"

text \<open>
  A round of \<open>Read\<close>: what the connection gives (\<open>None\<close>: an error), the transmission of the mode the
  process runs in and the removal of the client are arguments. The sender the
  message names is not compared with the user of the connection.
\<close>

definition Read ::
  "('d, 'r) chat_env \<Rightarrow> (bytes \<Rightarrow> ('d, 'r, 'f, unit) chat_act) \<Rightarrow> (uuid \<Rightarrow> ('d, 'r, 'e, unit) chat_act) \<Rightarrow>
   nat \<Rightarrow> bytes option \<Rightarrow> ('d, 'r, 'e, bool) chat_act" where
  "Read C transmit remove p input =
     (case input of
        None \<Rightarrow>
          bnd (Close p) (\<lambda>_.
          bnd (gets (\<lambda>w. cl_Uuid (ch_heap w ! p))) (\<lambda>u.
          bnd (remove u) (\<lambda>_. ret False)))
      | Some jsonMessage \<Rightarrow>
          let message = fst (decode_request jsonMessage) in
          bnd (if SendId message \<noteq> [] \<and> ReceiveId message \<noteq> []
               then stored (IsBlocked (ce_env C) (SendId message) (ReceiveId message)) else ret False) (\<lambda>blocked.
          if blocked then bnd (write_frame p blocked_text) (\<lambda>_. ret True)
          else attempt (transmit jsonMessage) (\<lambda>r. case r of
                 Inl _ \<Rightarrow> bnd (write_frame p not_sent_text) (\<lambda>_. ret True)
               | Inr _ \<Rightarrow> ret True)))"

section \<open>Presence\<close>

text \<open>\<open>presence/presence.go\<close>: at which instance a user is connected, and which instances live.\<close>

definition presence_New :: "string \<Rightarrow> time \<Rightarrow> presence_service" where
  "presence_New instanceID ttl = \<lparr>ps_instanceID = instanceID, ps_ttl = (if ttl \<le> 0 then 60 * second else ttl)\<rparr>"

definition userKey :: "uuid \<Rightarrow> string" where
  "userKey userID = ''presence:user:'' @ userID"

definition instanceKeyPrefix :: string where
  "instanceKeyPrefix = ''chat:instance:''"

definition presence_Register :: "('d, 'r) env \<Rightarrow> presence_service \<Rightarrow> uuid \<Rightarrow> ('d, 'r, redis_error, unit) svc" where
  "presence_Register E s userID =
     (if userID = [] then ret () else SetCache E (userKey userID) (ps_instanceID s) (ps_ttl s))"

definition presence_Unregister :: "('d, 'r) env \<Rightarrow> presence_service \<Rightarrow> uuid \<Rightarrow> ('d, 'r, redis_error, unit) svc" where
  "presence_Unregister E s userID = (if userID = [] then ret () else DelIfExists E (userKey userID))"

definition presence_Lookup :: "('d, 'r) env \<Rightarrow> uuid \<Rightarrow> ('d, 'r, 'e, string \<times> bool) svc" where
  "presence_Lookup E userID =
     (if userID = [] then ret ([], False)
      else attempt (GetCache E (userKey userID)) (\<lambda>r. case r of
             Inl _ \<Rightarrow> ret ([], False)
           | Inr v \<Rightarrow> ret (if v = [] then ([], False) else (v, True))))"

definition RegisterInstance :: "('d, 'r) env \<Rightarrow> (time \<Rightarrow> string) \<Rightarrow> presence_service \<Rightarrow> ('d, 'r, redis_error, unit) svc" where
  "RegisterInstance E rfc3339 s =
     SetCache E (instanceKeyPrefix @ ps_instanceID s) (rfc3339 (e_now E)) (ps_ttl s)"

definition LiveInstances :: "('d, 'r) env \<Rightarrow> ('d, 'r, redis_error, string list) svc" where
  "LiveInstances E =
     bnd (on_scan (ScanKeys (e_redis E) (e_fuel E) instanceKeyPrefix (e_now E))) (\<lambda>keys.
     ret (map (\<lambda>k. trim_prefix k instanceKeyPrefix) keys))"

definition LookupMany :: "('d, 'r) env \<Rightarrow> uuid list \<Rightarrow> ('d, 'r, redis_error, (uuid \<times> string) list) svc" where
  "LookupMany E userIDs =
     (if userIDs = [] then ret []
      else bnd (on_redis (MGet (e_redis E) (map userKey userIDs) (e_now E))) (\<lambda>values.
           ret (foldl (\<lambda>m (u, v). if v \<noteq> [] then AList.update u v m else m) [] (zip userIDs values))))"

section \<open>Login, logout, removal\<close>

text \<open>
  A step of the main loop for a client from the channel \<open>Login\<close> or \<open>Logout\<close>, and \<open>RemoveClient\<close>; in
  the channel and Kafka modes the presence is not kept (\<open>cluster\<close> is \<open>None\<close>).
\<close>

definition login_client :: "('d, 'r) chat_env \<Rightarrow> bytes \<Rightarrow> presence_service option \<Rightarrow> nat \<Rightarrow> ('d, 'r, 'e, unit) chat_act" where
  "login_client C greeting cluster p =
     bnd (gets (\<lambda>w. cl_Uuid (ch_heap w ! p))) (\<lambda>u.
     bnd (modify (\<lambda>w. w\<lparr>ch_Clients := AList.update u p (ch_Clients w)\<rparr>)) (\<lambda>_.
     bnd (case cluster of None \<Rightarrow> ret () | Some s \<Rightarrow> logged (stored (presence_Register (ce_env C) s u))) (\<lambda>_.
     logged (EnqueueDelivery C p \<lparr>mb_Message = greeting, mb_Uuid = []\<rparr>))))"

definition logout_client :: "('d, 'r) chat_env \<Rightarrow> presence_service option \<Rightarrow> nat \<Rightarrow> ('d, 'r, 'e, unit) chat_act" where
  "logout_client C cluster p =
     bnd (gets (\<lambda>w. cl_Uuid (ch_heap w ! p))) (\<lambda>u.
     bnd (modify (\<lambda>w. w\<lparr>ch_Clients := AList.delete u (ch_Clients w)\<rparr>)) (\<lambda>_.
     bnd (case cluster of None \<Rightarrow> ret () | Some s \<Rightarrow> logged (stored (presence_Unregister (ce_env C) s u))) (\<lambda>_.
     logged (EnqueueDelivery C p \<lparr>mb_Message = logged_out, mb_Uuid = []\<rparr>))))"

definition RemoveClient :: "('d, 'r) chat_env \<Rightarrow> presence_service option \<Rightarrow> uuid \<Rightarrow> ('d, 'r, 'e, unit) chat_act" where
  "RemoveClient C cluster u =
     bnd (modify (\<lambda>w. w\<lparr>ch_Clients := AList.delete u (ch_Clients w)\<rparr>)) (\<lambda>_.
     case cluster of None \<Rightarrow> ret () | Some s \<Rightarrow> logged (stored (presence_Unregister (ce_env C) s u)))"

text \<open>\<open>NewClientInit\<close> after the upgrade of the connection: the new client is put into the channel
  \<open>Login\<close>; the result is the pointer.\<close>

definition NewClientInit :: "uuid \<Rightarrow> ('d, 'r, 'e, nat) chat_act" where
  "NewClientInit clientId =
     bnd (gets (\<lambda>w. length (ch_heap w))) (\<lambda>p.
     bnd (modify (\<lambda>w. w\<lparr>ch_heap := ch_heap w @
       [\<lparr>cl_Uuid = clientId, cl_SendBack = make_chan clientDeliveryQueueSize, cl_done = False, cl_written = []\<rparr>]\<rparr>)) (\<lambda>_.
     ret p))"

text \<open>\<open>ClientLogout\<close>: the client, if there is one, is put into the channel \<open>Logout\<close> (the result) and
  closed. The answer is always code 0.\<close>

definition ClientLogout :: "uuid \<Rightarrow> ('d, 'r, 'e, nat option) chat_act" where
  "ClientLogout clientId =
     bnd (gets (\<lambda>w. client_of w clientId)) (\<lambda>c. case c of
       None \<Rightarrow> ret None
     | Some p \<Rightarrow> bnd (Close p) (\<lambda>_. ret (Some p)))"

end
