(* ===== verification/Chat_Memory.thy ===== *)
theory Chat_Memory
  imports Chat_State Database_Memory
begin

text \<open>A chat process on the stores in memory, and a text message, for the witnesses.\<close>

definition demo_chat_env :: "time \<Rightarrow> (mem_db, mem_redis) chat_env" where
  "demo_chat_env now = \<lparr>ce_env = mem_env_reads now, ce_tz = 0, ce_rand = 0, ce_late = \<lambda>_. False,
     ce_order = \<lambda>xs. xs, ce_sched = \<lambda>w. w\<rparr>"

definition demo_text :: "uuid \<Rightarrow> Message" where
  "demo_text u = \<lparr>ms_id = 0, ms_uuid = u, ms_session_id = ''S1'', ms_type = 0, ms_content = ''hi'', ms_url = [],
     ms_send_id = ''U1'', ms_send_name = ''U1'', ms_send_avatar = [], ms_receive_id = ''U2'', ms_file_type = [],
     ms_file_name = [], ms_file_size = [], ms_file_size_bytes = 0, ms_status = 0, ms_read_status = 0,
     ms_read_at = None, ms_created_at = 2, ms_send_at = None, ms_av_data = [], ms_deleted_at = None\<rparr>"

text \<open>A chat message from the user U1 as a client sends it.\<close>

definition demo_request :: "int \<Rightarrow> uuid \<Rightarrow> bytes" where
  "demo_request t u = json_print (JObj [(''type'', JNum (itoa t)), (''send_id'', JStr ''U1''), (''receive_id'', JStr u)])"

lemma demo_request: "- 128 \<le> t \<Longrightarrow> t < 128 \<Longrightarrow>
    decode_request (demo_request t u) = (zero_request\<lparr>Type := t, SendId := ''U1'', ReceiveId := u\<rparr>, False)"
  unfolding decode_request_def demo_request_def
  by (subst unmarshal_print) (simp_all add: parse_int_itoa request_fields_def find_field_def zero_request_def)

definition session_bytes :: "string \<Rightarrow> bytes" where
  "session_bytes sid = json_print (JObj [(''session_id'', JStr sid)])"

lemma session_of_bytes: "decode_session_id (session_bytes sid) = (sid, False)"
  unfolding decode_session_id_def session_bytes_def by (subst unmarshal_print) (simp_all add: find_field_def)

end
