(* ===== verification/Client_Safety.thy ===== *)
theory Client_Safety
  imports Client_Delivery Message_Safety Chat_Memory
begin

text \<open>
  What the connections guarantee: every reachable state of the delivery is well formed, the update of
  statuses returns as soon as the database answers and leaves the rest for later. And where they
  do not: a connection that ends late takes the user's newer connection out of the map.
\<close>

section \<open>Well-formed states\<close>

definition client_ok :: "Client \<Rightarrow> bool" where
  "client_ok c \<longleftrightarrow> ch_cap (cl_SendBack c) = clientDeliveryQueueSize \<and> chan_ok (cl_SendBack c)"

text \<open>\<open>pending\<close> is what the status worker holds. A status is in the channel or with the worker at most
  once, and then it is marked.\<close>

definition chat_wf :: "('d, 'r) chat \<times> string list \<Rightarrow> bool" where
  "chat_wf s \<longleftrightarrow> (case s of (w, pending) \<Rightarrow>
     distinct (map fst (ch_Clients w)) \<and>
     (\<forall>(u, p) \<in> set (ch_Clients w). p < length (ch_heap w) \<and> cl_Uuid (ch_heap w ! p) = u) \<and>
     list_all client_ok (ch_heap w) \<and> chan_ok (ch_statusUpdates w) \<and>
     distinct (ch_items (ch_statusUpdates w) @ pending) \<and>
     set (ch_items (ch_statusUpdates w) @ pending) \<subseteq> set (ch_queuedStatuses w))"

inductive delivery_step ::
  "('d, 'r) chat_env \<Rightarrow> ('d, 'r) chat \<times> string list \<Rightarrow> ('d, 'r) chat \<times> string list \<Rightarrow> bool" for C where
  connect: "ends (NewClientInit u) w p w' \<Longrightarrow> delivery_step C (w, ps) (w', ps)"
| login: "p < length (ch_heap w) \<Longrightarrow> ends (login_client C greeting cl p) w () w' \<Longrightarrow> delivery_step C (w, ps) (w', ps)"
| logout: "p < length (ch_heap w) \<Longrightarrow> ends (logout_client C cl p) w () w' \<Longrightarrow> delivery_step C (w, ps) (w', ps)"
| closed: "ends (Close p) w () w' \<Longrightarrow> delivery_step C (w, ps) (w', ps)"
| removed: "ends (RemoveClient C cl u) w () w' \<Longrightarrow> delivery_step C (w, ps) (w', ps)"
| delivered: "EnqueueDelivery C p mb w = Some (r, w') \<Longrightarrow> delivery_step C (w, ps) (w', ps)"
| written: "ends (Write b ok p) w c w' \<Longrightarrow> delivery_step C (w, ps) (w', ps)"
| status: "ends (flushDeliveryStatuses C n arrives ps) w ps' w' \<Longrightarrow> delivery_step C (w, ps) (w', ps')"
| reconciled: "ends (reconcileUnconfirmedDeliveries C) w () w' \<Longrightarrow> delivery_step C (w, ps) (w', ps)"

text \<open>The parts of the state that the invariant is about, and what an action may do to them.\<close>

definition same_delivery :: "('d, 'r) chat \<Rightarrow> ('d, 'r) chat \<Rightarrow> bool" where
  "same_delivery w w' \<longleftrightarrow> ch_Clients w' = ch_Clients w \<and> ch_heap w' = ch_heap w \<and>
     ch_statusUpdates w' = ch_statusUpdates w \<and> ch_queuedStatuses w' = ch_queuedStatuses w"

lemma chat_wf_same: "same_delivery w w' \<Longrightarrow> chat_wf (w, ps) \<Longrightarrow> chat_wf (w', ps)"
  by (simp add: chat_wf_def same_delivery_def)

lemma same_stored: "stored m w = Some (r, w') \<Longrightarrow> same_delivery w w'"
  by (auto simp: stored_def same_delivery_def)

lemma keeps_stored [keeps_intros]: "keeps (\<lambda>w. chat_wf (w, ps)) (stored m)"
  by (rule keepsI) (blast intro: chat_wf_same same_stored)

lemma keeps_count [keeps_intros]: "keeps (\<lambda>w. chat_wf (w, ps)) (count f)"
  unfolding count_def by (rule keeps_modify) (simp add: chat_wf_def)

lemma chat_wf_at_client:
  assumes "chat_wf (w, ps)" and "p < length (ch_heap w) \<Longrightarrow> client_ok (f (ch_heap w ! p)) \<and> cl_Uuid (f (ch_heap w ! p)) = cl_Uuid (ch_heap w ! p)"
  shows "chat_wf (at_client p f w, ps)"
proof (cases "p < length (ch_heap w)")
  case True
  with assms show ?thesis
    by (auto simp: chat_wf_def at_client_def list_all_iff nth_list_update dest!: subsetD [OF set_update_subset_insert])
qed (use assms(1) in \<open>simp add: at_client_def list_update_beyond\<close>)

lemma keeps_Close [keeps_intros]: "keeps (\<lambda>w. chat_wf (w, ps)) (Close p)"
  unfolding Close_def
  by (rule keeps_modify, rule chat_wf_at_client) (auto simp: chat_wf_def list_all_length client_ok_def)

lemma keeps_EnqueueDelivery [keeps_intros]: "keeps (\<lambda>w. chat_wf (w, ps)) (EnqueueDelivery C p mb)"
proof (rule keepsI)
  fix w r w'
  assume wf: "chat_wf (w, ps)" and run: "EnqueueDelivery C p mb w = Some (r, w')"
  have "chat_wf (at_client p (\<lambda>c. c\<lparr>cl_SendBack := q\<rparr>) w, ps)" if "try_send (cl_SendBack (ch_heap w ! p)) mb = Some q" for q
    by (rule chat_wf_at_client [OF wf])
       (use wf that in \<open>auto simp: chat_wf_def list_all_length client_ok_def try_send_cap dest: try_send_ok\<close>)
  moreover have "chat_wf (w\<lparr>ch_metrics := m\<rparr>, ps)" for m using wf by (simp add: chat_wf_def)
  ultimately show "chat_wf (w', ps)"
    using run by (auto simp: EnqueueDelivery_def bnd_def gets_def count_def modify_def throw_def
        split: option.splits if_splits)
qed

lemma keeps_delete: "keeps (\<lambda>w. chat_wf (w, ps)) (modify (\<lambda>w. w\<lparr>ch_Clients := AList.delete u (ch_Clients w)\<rparr>))"
  by (rule keeps_modify) (auto simp: chat_wf_def AList.delete_eq distinct_map_filter)

lemma keeps_RemoveClient [keeps_intros]: "keeps (\<lambda>w. chat_wf (w, ps)) (RemoveClient C cl u)"
  unfolding RemoveClient_def by (auto split: option.split intro!: keeps_intros keeps_delete)

lemma keeps_logout [keeps_intros]: "keeps (\<lambda>w. chat_wf (w, ps)) (logout_client C cl p)"
  unfolding logout_client_def by (auto split: option.split intro!: keeps_intros keeps_delete)

lemma keeps_login:
  assumes "chat_wf (w, ps)" and "p < length (ch_heap w)" and "login_client C greeting cl p w = Some (r, w')"
  shows "chat_wf (w', ps)"
proof -
  let ?w = "w\<lparr>ch_Clients := AList.update (cl_Uuid (ch_heap w ! p)) p (ch_Clients w)\<rparr>"
  have "chat_wf (?w, ps)"
    using assms(1,2) by (auto simp: chat_wf_def dest!: subsetD [OF set_update_subset])
  moreover have "keeps (\<lambda>w. chat_wf (w, ps)) (bnd (case cl of None \<Rightarrow> ret () | Some s \<Rightarrow>
      logged (stored (presence_Register (ce_env C) s (cl_Uuid (ch_heap w ! p))))) (\<lambda>_.
      logged (EnqueueDelivery C p \<lparr>mb_Message = greeting, mb_Uuid = []\<rparr>)))"
    by (auto split: option.split intro!: keeps_intros)
  ultimately show ?thesis
    using assms(3) unfolding login_client_def keeps_def
    by (auto simp: bnd_def gets_def modify_def)
qed

lemma keeps_NewClientInit: "keeps (\<lambda>w. chat_wf (w, ps)) (NewClientInit u)"
  unfolding NewClientInit_def
  by (intro keeps_intros keeps_modify)
     (auto simp: chat_wf_def client_ok_def chan_ok_def nth_append split: prod.splits)

lemma keeps_enqueueDeliveryStatus [keeps_intros]: "keeps (\<lambda>w. chat_wf (w, ps)) (enqueueDeliveryStatus u)"
  by (rule keepsI) (auto simp: enqueueDeliveryStatus_def chat_wf_def chan_simps chan_ok_def split: if_splits option.splits)

lemma keeps_Write [keeps_intros]: "keeps (\<lambda>w. chat_wf (w, ps)) (Write b ok p)"
proof (rule keepsI)
  fix w r w'
  assume wf: "chat_wf (w, ps)" and run: "Write b ok p w = Some (r, w')"
  have received: "chat_wf (at_client p (\<lambda>c. c\<lparr>cl_SendBack := q\<rparr>) w, ps)"
    if "try_recv (cl_SendBack (ch_heap w ! p)) = Some (mb, q)" for mb q
    by (rule chat_wf_at_client [OF wf])
       (use wf that in \<open>auto simp: chat_wf_def list_all_length client_ok_def try_recv_cap dest: try_recv_ok\<close>)
  have written: "chat_wf (at_client p (\<lambda>c. c\<lparr>cl_written := cl_written c @ [f]\<rparr>) v, ps)" if "chat_wf (v, ps)" for v f
    by (rule chat_wf_at_client [OF that]) (use that in \<open>auto simp: chat_wf_def list_all_length client_ok_def\<close>)
  have closed: "chat_wf (v', ps)" if "bnd (Close p) (\<lambda>_. ret x) v = Some (q, v')" "chat_wf (v, ps)" for x v v' q
  proof -
    have "keeps (\<lambda>w. chat_wf (w, ps)) (bnd (Close p) (\<lambda>_. ret x))" by (intro keeps_intros)
    with that show ?thesis unfolding keeps_def by blast
  qed
  have marked: "chat_wf (v', ps)"
    if "bnd (enqueueDeliveryStatus u) (\<lambda>_. ret x) v = Some (q, v')" "chat_wf (v, ps)" for u x v v' q
  proof -
    have "keeps (\<lambda>w. chat_wf (w, ps)) (bnd (enqueueDeliveryStatus u) (\<lambda>_. ret x))" by (intro keeps_intros)
    with that show ?thesis unfolding keeps_def by blast
  qed
  show "chat_wf (w', ps)"
    using run wf
    by (auto simp: Write_def Let_def split: write_branch.splits if_splits option.splits prod.splits
        elim!: closed marked intro!: received written)
qed

text \<open>What the worker holds is settled one status at a time.\<close>

lemma chat_wf_perm:
  "chat_wf (w, ps) \<Longrightarrow> set ps = set ps' \<Longrightarrow> distinct ps' \<Longrightarrow> chat_wf (w, ps')"
  by (simp add: chat_wf_def)

lemma chat_wf_for_each:
  assumes "for_each xs f w = Some (r, w')" and "chat_wf (w, xs @ ps)"
    and step: "\<And>x v v' qs s. chat_wf (v, x # qs) \<Longrightarrow> f x v = Some (s, v') \<Longrightarrow> \<exists>a. s = Inr a \<and> chat_wf (v', qs)"
  shows "chat_wf (w', ps)"
  using assms(1,2)
proof (induction xs arbitrary: w)
  case Nil
  then show ?case by (simp add: ret_def)
next
  case (Cons x xs)
  from Cons.prems obtain v s where "f x w = Some (s, v)"
    and rest: "(\<exists>e. s = Inl e) \<or> for_each xs f v = Some (r, w')"
    by (auto simp: bnd_Some)
  with step [of w x "xs @ ps" s v] Cons.prems(2) Cons.IH [of v] show ?case by auto
qed

lemma forget_wf:
  "chat_wf (v, x # qs) \<Longrightarrow> forget_status x v = Some (s, v') \<Longrightarrow> \<exists>a. s = Inr a \<and> chat_wf (v', qs)"
  by (auto simp: forget_status_def modify_def chat_wf_def)

lemma requeue_wf:
  "chat_wf (v, x # qs) \<Longrightarrow> requeue_status x v = Some (s, v') \<Longrightarrow> \<exists>a. s = Inr a \<and> chat_wf (v', qs)"
  by (auto simp: requeue_status_def modify_def chat_wf_def chan_simps chan_ok_def split: option.splits)

lemma settle_wf:
  fixes r :: "'e + unit"
  assumes "settle_statuses C pending w = Some (r, w')" and wf: "chat_wf (w, pending)"
  shows "chat_wf (w', [])"
proof -
  from assms(1) obtain q :: "go_error + Message list" and v matched
    where "stored (Find (ce_env C) messages (\<lambda>m. ms_uuid m \<in> set pending)) w = Some (q, v)"
    and rest: "bnd (for_each (filter (\<lambda>u. u \<in> set matched) pending) forget_status)
       (\<lambda>_. for_each (filter (\<lambda>u. u \<notin> set matched) pending) requeue_status) v = Some (r, w')"
    unfolding settle_statuses_def attempt_Some Let_def by blast
  then have "chat_wf (v, pending)" using wf by (blast intro: chat_wf_same same_stored)
  then have split: "chat_wf (v, filter (\<lambda>u. u \<in> set matched) pending @ filter (\<lambda>u. u \<notin> set matched) pending)"
    by (rule chat_wf_perm) (use wf in \<open>auto simp: chat_wf_def\<close>)
  from rest consider
      (stop) "for_each (filter (\<lambda>u. u \<in> set matched) pending) forget_status v = Some (r, w')"
    | (go) a v1 where "for_each (filter (\<lambda>u. u \<in> set matched) pending) forget_status v = Some (Inr a :: 'e + unit, v1)"
        "for_each (filter (\<lambda>u. u \<notin> set matched) pending) requeue_status v1 = Some (r, w')"
    unfolding bnd_Some by blast
  then show ?thesis
  proof cases
    case stop
    have "chat_wf (w', filter (\<lambda>u. u \<notin> set matched) pending)"
      by (rule chat_wf_for_each [OF stop split forget_wf])
    then show ?thesis by (simp add: chat_wf_def)
  next
    case go
    from chat_wf_for_each [OF go(1) split forget_wf]
    have "chat_wf (v1, filter (\<lambda>u. u \<notin> set matched) pending @ [])" by simp
    from chat_wf_for_each [OF go(2) this requeue_wf] show ?thesis by simp
  qed
qed

lemma flush_wf: "flush_statuses C fuel pending w = Some (r, w') \<Longrightarrow> chat_wf (w, pending) \<Longrightarrow> chat_wf (w', [])"
proof (induction fuel arbitrary: w)
  case (Suc fuel)
  show ?case
  proof (cases "pending = []")
    case False
    then obtain q v where sent: "stored (mark_sent (ce_env C) pending) w = Some (q, v)"
      and rest: "(case q of Inl _ \<Rightarrow> flush_statuses C fuel pending
         | Inr n \<Rightarrow> if length pending \<le> n then for_each pending forget_status else settle_statuses C pending) v = Some (r, w')"
      using Suc.prems(1) by (auto simp: attempt_Some)
    have wf: "chat_wf (v, pending)" using sent Suc.prems(2) by (blast intro: chat_wf_same same_stored)
    show ?thesis
    proof (cases q)
      case (Inl e)
      with rest wf Suc.IH show ?thesis by simp
    next
      case (Inr n)
      show ?thesis
      proof (cases "length pending \<le> n")
        case True
        with rest Inr have "for_each pending forget_status v = Some (r, w')" by simp
        from chat_wf_for_each [OF this _ forget_wf, where ps = "[]"] wf show ?thesis by simp
      qed (use rest Inr wf settle_wf in auto)
    qed
  qed (use Suc.prems in \<open>simp add: ret_def\<close>)
qed simp

lemma status_received:
  "bnd (\<lambda>w. case try_recv (ch_statusUpdates w) of
      None \<Rightarrow> None | Some (u, q) \<Rightarrow> Some (Inr u, w\<lparr>ch_statusUpdates := q\<rparr>)) f w = Some (r, w') \<longleftrightarrow>
     (\<exists>u q. try_recv (ch_statusUpdates w) = Some (u, q) \<and> f u (w\<lparr>ch_statusUpdates := q\<rparr>) = Some (r, w'))"
  by (auto simp: bnd_def split: option.splits)

lemma status_wf:
  assumes "flushDeliveryStatuses C fuel arrives ps w = Some (Inr ps' :: 'e + string list, w')" and "chat_wf (w, ps)"
  shows "chat_wf (w', ps')"
proof (cases arrives)
  case True
  from assms(1) obtain u q where recv: "try_recv (ch_statusUpdates w) = Some (u, q)"
    and rest: "(if deliveryStatusBatchSize \<le> length (ps @ [u]) then bnd (flush_statuses C fuel (ps @ [u])) (\<lambda>_. ret [])
      else ret (ps @ [u])) (w\<lparr>ch_statusUpdates := q\<rparr>) = Some (Inr ps' :: 'e + string list, w')"
    unfolding flushDeliveryStatuses_def if_P [OF True] status_received by (elim exE conjE) (rule that)
  have wf: "chat_wf (w\<lparr>ch_statusUpdates := q\<rparr>, ps @ [u])"
    using recv assms(2) by (auto simp: chat_wf_def chan_simps chan_ok_def)
  show ?thesis
  proof (cases "deliveryStatusBatchSize \<le> length (ps @ [u])")
    case True
    with rest have "ps' = []" "\<exists>r :: 'e + unit. flush_statuses C fuel (ps @ [u]) (w\<lparr>ch_statusUpdates := q\<rparr>) = Some (r, w')"
      by (auto simp: bnd_Some ret_def)
    with flush_wf wf show ?thesis by blast
  qed (use rest wf in \<open>auto simp: ret_def\<close>)
next
  case False
  with assms show ?thesis by (auto simp: flushDeliveryStatuses_def bnd_Some ret_def dest: flush_wf)
qed

lemma keeps_reconcile: "keeps (\<lambda>w. chat_wf (w, ps)) (reconcileUnconfirmedDeliveries C)"
  unfolding reconcileUnconfirmedDeliveries_def by (intro keeps_intros)

lemma step_wf:
  assumes "delivery_step C s s'" and "chat_wf s"
  shows "chat_wf s'"
  using assms(1)
proof cases
  case (connect u w p w' ps)
  with assms(2) keepsD [OF keeps_NewClientInit] show ?thesis by (auto simp: ends_def)
next
  case (login p w cl w' ps)
  with assms(2) keeps_login show ?thesis by (auto simp: ends_def)
next
  case (logout p w cl w' ps)
  with assms(2) keepsD [OF keeps_logout] show ?thesis by (auto simp: ends_def)
next
  case (closed p w w' ps)
  with assms(2) keepsD [OF keeps_Close] show ?thesis by (auto simp: ends_def)
next
  case (removed cl u w w' ps)
  with assms(2) keepsD [OF keeps_RemoveClient] show ?thesis by (auto simp: ends_def)
next
  case (delivered p mb w r w' ps)
  with assms(2) keepsD [OF keeps_EnqueueDelivery] show ?thesis by auto
next
  case (written b ok p w c w' ps)
  with assms(2) keepsD [OF keeps_Write] show ?thesis by (auto simp: ends_def)
next
  case (status n arrives ps w ps' w')
  with assms(2) status_wf show ?thesis by (auto simp: ends_def)
next
  case (reconciled w w' ps)
  with assms(2) keepsD [OF keeps_reconcile] show ?thesis by (auto simp: ends_def)
qed

lemma fresh_wf: "chat_wf (NewMessageProcessor s, [])"
  by (simp add: chat_wf_def NewMessageProcessor_def chan_ok_def)

lemma reachable_wf: "(delivery_step C)\<^sup>*\<^sup>* s s' \<Longrightarrow> chat_wf s \<Longrightarrow> chat_wf s'"
  by (induction rule: rtranclp_induct) (auto dest: step_wf)

text \<open>C14. Every state that logins, logouts, deliveries, writes to connections and the status worker lead to
  from a fresh process is well formed: each user has one client in the map, of that user; the
  queue of a client has its capacity and never more in it; a status waits at most once, in
  the channel or with the worker, and is then marked as queued.\<close>

theorem delivery_types:
  assumes "(delivery_step C)\<^sup>*\<^sup>* (NewMessageProcessor s, []) (w, pending)"
  shows "distinct (map fst (ch_Clients w)) \<and>
    (\<forall>(u, p) \<in> set (ch_Clients w). p < length (ch_heap w) \<and> cl_Uuid (ch_heap w ! p) = u) \<and>
    list_all (\<lambda>c. ch_cap (cl_SendBack c) = clientDeliveryQueueSize \<and> chan_ok (cl_SendBack c)) (ch_heap w) \<and>
    chan_ok (ch_statusUpdates w) \<and> distinct (ch_items (ch_statusUpdates w) @ pending) \<and>
    set (ch_items (ch_statusUpdates w) @ pending) \<subseteq> set (ch_queuedStatuses w)"
  using reachable_wf [OF assms fresh_wf] by (simp add: chat_wf_def client_ok_def [abs_def])

definition demo_connected :: "(mem_db, mem_redis) chat" where
  "demo_connected = (NewMessageProcessor demo)
     \<lparr>ch_heap := [\<lparr>cl_Uuid = ''U1'', cl_SendBack = make_chan clientDeliveryQueueSize, cl_done = False, cl_written = []\<rparr>]\<rparr>"

theorem delivery_types_witness:
  "chan_ok (ch_statusUpdates demo_connected) \<and> (delivery_step (demo_chat_env 9))\<^sup>*\<^sup>* (NewMessageProcessor demo, []) (demo_connected, [])"
proof -
  have "ends (NewClientInit ''U1'') (NewMessageProcessor demo) 0 demo_connected"
    by (simp add: ends_def NewClientInit_def bnd_def gets_def modify_def ret_def demo_connected_def NewMessageProcessor_def)
  then have "(delivery_step (demo_chat_env 9))\<^sup>*\<^sup>* (NewMessageProcessor demo, []) (demo_connected, [])"
    by (intro r_into_rtranclp connect)
  with delivery_types [OF this] show ?thesis by simp
qed

section \<open>A connection that ends late\<close>

text \<open>The connections are the same, up to what is queued for them.\<close>

definition same_connections :: "('d, 'r) chat \<Rightarrow> ('d, 'r) chat \<Rightarrow> bool" where
  "same_connections w w' \<longleftrightarrow> ch_Clients w' = ch_Clients w \<and> length (ch_heap w') = length (ch_heap w) \<and>
     (\<forall>i < length (ch_heap w). cl_Uuid (ch_heap w' ! i) = cl_Uuid (ch_heap w ! i) \<and> cl_done (ch_heap w' ! i) = cl_done (ch_heap w ! i))"

lemma wp_EnqueueDelivery:
  assumes "p < length (ch_heap w)" and "\<And>r w'. same_connections w w' \<Longrightarrow> ch_stores w' = ch_stores w \<Longrightarrow> (case r of Inl e \<Rightarrow> X e w' | Inr a \<Rightarrow> Q a w')"
  shows "wp (EnqueueDelivery C p mb) Q X w"
  using assms(1) assms(2) [where r = "Inr ()"] assms(2) [where r = "Inl ClientClosed"] assms(2) [where r = "Inl DeliveryQueueFull"]
  by (auto simp: EnqueueDelivery_def wp_simps same_connections_def at_client_def nth_list_update split: option.splits)

lemma wp_on_redis_any: "(\<And>r w'. (case r of Inl e \<Rightarrow> X e w' | Inr a \<Rightarrow> Q a w')) \<Longrightarrow> wp (on_redis f) Q X w"
  by (auto simp: wp_def on_redis_def split: sum.splits prod.splits) (metis sum.case)+

lemma wp_presence:
  assumes "\<And>r w'. (case r of Inl e \<Rightarrow> X e w' | Inr a \<Rightarrow> Q a w')"
  shows "wp (presence_Register E s u) Q X w" and "wp (presence_Unregister E s u) Q X w"
proof -
  have "Q () w'" for w' using assms [where r = "Inr ()"] by simp
  then show "wp (presence_Register E s u) Q X w" and "wp (presence_Unregister E s u) Q X w"
    by (auto simp: presence_Register_def presence_Unregister_def SetCache_def DelIfExists_def wp_simps intro!: wp_on_redis_any assms)
qed

lemma wp_login_client:
  assumes "p < length (ch_heap w)"
    and "\<And>w'. same_connections (w\<lparr>ch_Clients := AList.update (cl_Uuid (ch_heap w ! p)) p (ch_Clients w)\<rparr>) w' \<Longrightarrow> Q () w'"
  shows "wp (login_client C greeting cluster p) Q X w"
proof -
  have "wp (logged (EnqueueDelivery C p mb)) Q X v"
    if "same_connections (w\<lparr>ch_Clients := AList.update (cl_Uuid (ch_heap w ! p)) p (ch_Clients w)\<rparr>) v" for v mb
    unfolding wp_logged
    by (rule wp_EnqueueDelivery) (use that assms in \<open>auto simp: same_connections_def split: sum.splits\<close>)
  then show ?thesis
    by (auto simp: login_client_def wp_simps same_connections_def split: option.split intro!: wp_presence split: sum.split)
qed

lemma wp_RemoveClient:
  assumes "\<And>w'. same_connections (w\<lparr>ch_Clients := AList.delete u (ch_Clients w)\<rparr>) w' \<Longrightarrow> Q () w'"
  shows "wp (RemoveClient C cluster u) Q X w"
  using assms
  by (auto simp: RemoveClient_def wp_simps same_connections_def split: option.split intro!: wp_presence split: sum.split)

text \<open>A user's new connection is lost when the old one ends: after the login of the client \<open>q\<close> the map
  leads to \<open>q\<close>; when the read on the user's old client \<open>p\<close> then fails, the user is taken out
  of the map, although \<open>q\<close> is as open as before and its goroutines run on.\<close>

theorem late_disconnect:
  assumes "p < length (ch_heap w)" and "cl_Uuid (ch_heap w ! p) = u"
    and "q < length (ch_heap w)" and "cl_Uuid (ch_heap w ! q) = u" and "p \<noteq> q"
  shows "\<exists>w1 w2. login_client C greeting cluster q w = Some (Inr () :: unit + unit, w1) \<and> client_of w1 u = Some q \<and>
    Read C transmit (RemoveClient C cluster) p None w1 = Some (Inr False :: unit + bool, w2) \<and>
    client_of w2 u = None \<and> cl_done (ch_heap w2 ! p) \<and> cl_done (ch_heap w2 ! q) = cl_done (ch_heap w ! q)"
proof -
  have "wp (login_client C greeting cluster q) (\<lambda>_ w1. same_connections (w\<lparr>ch_Clients := AList.update u q (ch_Clients w)\<rparr>) w1)
      (\<lambda>_ :: unit. \<lambda>_. False) w"
    by (rule wp_login_client) (use assms(3,4) in auto)
  then obtain w1 where login: "login_client C greeting cluster q w = Some (Inr () :: unit + unit, w1)"
    and w1: "same_connections (w\<lparr>ch_Clients := AList.update u q (ch_Clients w)\<rparr>) w1"
    by (auto elim: wpE)
  have "wp (Read C transmit (RemoveClient C cluster) p None) (\<lambda>r w2. r = False \<and>
      same_connections (at_client p (\<lambda>c. c\<lparr>cl_done := True\<rparr>) w1\<lparr>ch_Clients := AList.delete u (ch_Clients w1)\<rparr>) w2)
      (\<lambda>_ :: unit. \<lambda>_. False) w1"
    using w1 assms(1,2,5)
    by (auto simp: Read_def Close_def wp_simps same_connections_def at_client_def intro!: wp_RemoveClient)
  then obtain w2 where "Read C transmit (RemoveClient C cluster) p None w1 = Some (Inr False :: unit + bool, w2)"
    and "same_connections (at_client p (\<lambda>c. c\<lparr>cl_done := True\<rparr>) w1\<lparr>ch_Clients := AList.delete u (ch_Clients w1)\<rparr>) w2"
    by (auto elim: wpE)
  with login w1 assms show ?thesis
    by (auto simp: same_connections_def client_of_def at_client_def nth_list_update update_conv' delete_conv')
qed

definition demo_client :: "uuid \<Rightarrow> Client" where
  "demo_client u = \<lparr>cl_Uuid = u, cl_SendBack = make_chan clientDeliveryQueueSize, cl_done = False, cl_written = []\<rparr>"

definition demo_reconnect :: "(mem_db, mem_redis) chat" where
  "demo_reconnect = (NewMessageProcessor demo)\<lparr>ch_heap := [demo_client ''U1'', demo_client ''U1''], ch_Clients := [(''U1'', 0)]\<rparr>"

theorem late_disconnect_witness:
  "\<exists>w1 w2. client_of w1 ''U1'' = Some 1 \<and>
     Read (demo_chat_env 9) (\<lambda>_. ret () :: (_, _, unit, _) chat_act) (RemoveClient (demo_chat_env 9) None) 0 None w1 =
       Some (Inr False :: unit + bool, w2) \<and>
     client_of w2 ''U1'' = None \<and> \<not> cl_done (ch_heap w2 ! 1)"
  using late_disconnect [of 0 demo_reconnect "''U1''" 1 "demo_chat_env 9" server_welcome None "\<lambda>_. ret ()"]
  by (auto simp: demo_reconnect_def demo_client_def)

section \<open>The status worker\<close>

text \<open>The statuses that a failed lookup or a missing row leave behind.\<close>

lemma wp_forget_all:
  "(\<And>w'. w' = w\<lparr>ch_queuedStatuses := filter (\<lambda>u. u \<notin> set us) (ch_queuedStatuses w)\<rparr> \<Longrightarrow> Q () w') \<Longrightarrow>
   wp (for_each us forget_status) Q X w"
  by (rule wp_for_each_upto [where I = "\<lambda>ys v. v = w\<lparr>ch_queuedStatuses := filter (\<lambda>u. u \<notin> set ys) (ch_queuedStatuses w)\<rparr>"])
     (auto simp: forget_status_def wp_simps removeAll_filter_not_eq intro!: chat.equality filter_cong)

definition waits :: "('d, 'r) chat \<Rightarrow> string \<Rightarrow> bool" where
  "waits w u \<longleftrightarrow> u \<in> set (ch_items (ch_statusUpdates w)) \<or> ch_cap (ch_statusUpdates w) \<le> length (ch_items (ch_statusUpdates w))"

lemma wp_requeue_all:
  assumes "\<And>w'. ch_stores w' = ch_stores w \<Longrightarrow> ch_queuedStatuses w' = ch_queuedStatuses w \<Longrightarrow> \<forall>u \<in> set us. waits w' u \<Longrightarrow> Q () w'"
  shows "wp (for_each us requeue_status) Q X w"
  by (rule wp_for_each_upto [where I = "\<lambda>ys v. ch_stores v = ch_stores w \<and> ch_queuedStatuses v = ch_queuedStatuses w \<and>
       (\<forall>u \<in> set ys. waits v u)"])
     (use assms in \<open>auto simp: requeue_status_def wp_simps waits_def chan_simps split: option.split\<close>)

text \<open>The end of an update: no live row with one of the uuids is unsent, and a status that is still
  marked waits in the channel, unless the channel was full.\<close>

definition unsaved :: "row list \<Rightarrow> string \<Rightarrow> bool" where
  "unsaved rs u \<longleftrightarrow> (\<forall>m. RMessage m \<in> set rs \<longrightarrow> ms_deleted_at m = None \<longrightarrow> ms_uuid m \<noteq> u)"

definition settled :: "('d \<Rightarrow> row list) \<Rightarrow> string list \<Rightarrow> ('d, 'r) chat \<Rightarrow> ('d, 'r) chat \<Rightarrow> bool" where
  "settled rows us w w' \<longleftrightarrow>
     rows (st_db (ch_stores w')) = map (\<lambda>r. if scoped messages (\<lambda>m. ms_uuid m \<in> set us) r
       then on_row messages (\<lambda>m. m\<lparr>ms_status := message_Sent\<rparr>) r else r) (rows (st_db (ch_stores w))) \<and>
     set (ch_queuedStatuses w') \<subseteq> set (ch_queuedStatuses w) \<and>
     (\<forall>u \<in> set us \<inter> set (ch_queuedStatuses w'). waits w' u) \<and>
     (unique_rows (rows (st_db (ch_stores w))) \<longrightarrow> distinct us \<longrightarrow>
       (\<forall>u \<in> set us \<inter> set (ch_queuedStatuses w). unsaved (rows (st_db (ch_stores w))) u \<longrightarrow> u \<in> set (ch_queuedStatuses w')))"

lemma unsaved_updated:
  "unsaved (map (\<lambda>r. if P r then on_row messages (\<lambda>m. m\<lparr>ms_status := x\<rparr>) r else r) rs) u = unsaved rs u"
  by (induction rs) (auto simp: unsaved_def on_row_def messages_def split: row.splits)

text \<open>The rows of distinct statuses of which one has no row.\<close>

lemma unsaved_few_rows:
  assumes "unique_rows rs" and "u \<in> set us" and "unsaved rs u" and "distinct us"
  shows "length (filter (scoped messages (\<lambda>m. ms_uuid m \<in> set us)) rs) < length us"
proof -
  let ?F = "filter (scoped messages (\<lambda>m. ms_uuid m \<in> set us)) rs"
  let ?key = "\<lambda>r. case r of RMessage m \<Rightarrow> ms_uuid m | _ \<Rightarrow> []"
  have row: "\<exists>m. r = RMessage m \<and> ms_uuid m \<in> set us - {u}" if "r \<in> set ?F" for r
    using that assms(3) by (auto simp: messages.scoped_iff unsaved_def)
  have "inj_on ?key (set ?F)"
  proof (rule inj_onI, rule ccontr)
    fix a b
    assume ab: "a \<in> set ?F" "b \<in> set ?F" "?key a = ?key b" "a \<noteq> b"
    with unique_rowsD [OF assms(1), of a b] have "\<not> conflict a b" by auto
    with ab row [of a] row [of b] show False by (auto simp: conflict_def)
  qed
  then have "card (?key ` set ?F) = card (set ?F)" by (rule card_image)
  moreover have "card (set ?F) = length ?F" using unique_rows_distinct [OF assms(1)] by (intro distinct_card) simp
  ultimately have "length ?F = card (?key ` set ?F)" by (simp only:)
  also have "\<dots> \<le> card (set us - {u})" using row by (intro card_mono) force+
  also have "\<dots> < length us"
    using assms(2,4) length_pos_if_in_set [OF assms(2)] by (simp add: distinct_card card_Diff_singleton)
  finally show ?thesis .
qed

context backend
begin

lemma wp_settle_statuses:
  assumes "\<And>w'. rows (st_db (ch_stores w')) = rows (st_db (ch_stores w)) \<Longrightarrow>
      set (ch_queuedStatuses w') \<subseteq> set (ch_queuedStatuses w) \<Longrightarrow>
      \<forall>u \<in> set us \<inter> set (ch_queuedStatuses w'). waits w' u \<Longrightarrow>
      \<forall>u \<in> set us \<inter> set (ch_queuedStatuses w). unsaved (rows (st_db (ch_stores w))) u \<longrightarrow> u \<in> set (ch_queuedStatuses w') \<Longrightarrow> Q () w'"
    and "ce_env C = E"
  shows "wp (settle_statuses C us) Q X w"
proof -
  have settle: "wp (bnd (for_each (filter (\<lambda>u. u \<in> set matched) us) forget_status) (\<lambda>_.
      for_each (filter (\<lambda>u. u \<notin> set matched) us) requeue_status)) Q X v"
    if "same (ch_stores w) (ch_stores v)" "ch_queuedStatuses v = ch_queuedStatuses w"
      "\<forall>u \<in> set matched. \<not> unsaved (rows (st_db (ch_stores w))) u" for matched v
    unfolding wp_simps
    by (rule wp_forget_all, rule wp_requeue_all, rule assms) (use that in \<open>auto simp: same_def\<close>)
  show ?thesis
    unfolding settle_statuses_def wp_attempt wp_stored assms(2)
  proof (rule wp_Find [OF messages.table_axioms], goal_cases)
    case (1 xs v)
    then show ?case using settle [of "w\<lparr>ch_stores := v\<rparr>" "map ms_uuid xs"] by (auto simp: Let_def unsaved_def)
  next
    case (2 v)
    then show ?case using settle [of "w\<lparr>ch_stores := v\<rparr>" "[]"] by (simp add: Let_def)
  qed
qed

lemma flush_settles:
  assumes "ce_env C = E" and "us \<noteq> []"
    and "\<And>i. i < k \<Longrightarrow> \<exists>e. mark_sent E us (s i) = Some (Inl e, s (Suc i))"
    and "mark_sent E us (s k) = Some (Inr n, s')" and "k < fuel" and "s 0 = ch_stores w"
  shows "wp (flush_statuses C fuel us) (\<lambda>_. settled rows us w) X w"
  using assms(3-)
proof (induction fuel arbitrary: k s w)
  case (Suc fuel)
  have run: "wp (flush_statuses C (Suc fuel) us) Q X w = (case mark_sent E us (s 0) of None \<Rightarrow> False
     | Some (Inl e, v) \<Rightarrow> wp (flush_statuses C fuel us) Q X (w\<lparr>ch_stores := v\<rparr>)
     | Some (Inr n, v) \<Rightarrow> wp (if length us \<le> n then for_each us forget_status else settle_statuses C us) Q X (w\<lparr>ch_stores := v\<rparr>))"
    for Q
    using assms(1,2) Suc.prems(4)
    by (simp add: wp_attempt wp_stored) (simp add: wp_def split: option.split sum.split prod.split)
  show ?case
  proof (cases k)
    case 0
    with Suc.prems(2) have sent: "mark_sent E us (ch_stores w) = Some (Inr n, s')" using Suc.prems(4) by simp
    have "wp (mark_sent E us) (\<lambda>n v. rows (st_db v) = map (\<lambda>r. if scoped messages (\<lambda>m. ms_uuid m \<in> set us) r
       then on_row messages (\<lambda>m. m\<lparr>ms_status := message_Sent\<rparr>) r else r) (rows (st_db (ch_stores w))) \<and>
        n \<le> length (filter (scoped messages (\<lambda>m. ms_uuid m \<in> set us)) (rows (st_db (ch_stores w))))) (\<lambda>_ _. True) (ch_stores w)"
      unfolding mark_sent_def by (rule wp_update) auto
    with sent have rows: "rows (st_db s') = map (\<lambda>r. if scoped messages (\<lambda>m. ms_uuid m \<in> set us) r
       then on_row messages (\<lambda>m. m\<lparr>ms_status := message_Sent\<rparr>) r else r) (rows (st_db (ch_stores w)))"
      and n: "n \<le> length (filter (scoped messages (\<lambda>m. ms_uuid m \<in> set us)) (rows (st_db (ch_stores w))))"
      by (simp_all add: wp_def)
    have "wp (if length us \<le> n then for_each us forget_status else settle_statuses C us) (\<lambda>_. settled rows us w) X (w\<lparr>ch_stores := s'\<rparr>)"
      using unsaved_few_rows n
      by (fastforce simp: settled_def rows unsaved_updated intro!: wp_forget_all wp_settle_statuses [OF _ assms(1)])
    with run sent Suc.prems(4) show ?thesis by simp
  next
    case (Suc j)
    from Suc.prems(1) [of 0] Suc obtain e where e: "mark_sent E us (s 0) = Some (Inl e, s 1)" by auto
    have "wp (mark_sent E us) (\<lambda>_ _. True) (\<lambda>_ v. rows (st_db v) = rows (st_db (s 0))) (s 0)"
      unfolding mark_sent_def by (rule wp_update) (auto simp: same_def)
    with e have rows: "rows (st_db (s 1)) = rows (st_db (s 0))" by (simp add: wp_def)
    have "wp (flush_statuses C fuel us) (\<lambda>_. settled rows us (w\<lparr>ch_stores := s 1\<rparr>)) X (w\<lparr>ch_stores := s 1\<rparr>)"
      by (rule Suc.IH [where k = j and s = "\<lambda>i. s (Suc i)"]) (use Suc Suc.prems in auto)
    moreover have "settled rows us (w\<lparr>ch_stores := s 1\<rparr>) = settled rows us w"
      by (simp add: settled_def [abs_def] rows [simplified] Suc.prems(4) waits_def)
    ultimately show ?thesis using run e Suc.prems(4) by simp
  qed
qed simp

end

text \<open>The row of a status after the update.\<close>

lemma saved_sent:
  assumes "\<not> unsaved rs u" and "u \<in> set us"
  shows "\<exists>m. RMessage m \<in> set (map (\<lambda>r. if scoped messages (\<lambda>m. ms_uuid m \<in> set us) r
       then on_row messages (\<lambda>m. m\<lparr>ms_status := message_Sent\<rparr>) r else r) rs) \<and> ms_uuid m = u \<and> ms_status m = message_Sent"
proof -
  from assms(1) obtain m where m: "RMessage m \<in> set rs" "ms_deleted_at m = None" "ms_uuid m = u" by (auto simp: unsaved_def)
  with assms(2) have "RMessage (m\<lparr>ms_status := message_Sent\<rparr>) = (if scoped messages (\<lambda>m. ms_uuid m \<in> set us) (RMessage m)
       then on_row messages (\<lambda>m. m\<lparr>ms_status := message_Sent\<rparr>) (RMessage m) else RMessage m)"
    by (simp add: scoped_def on_row_def messages_def)
  with m(1,3) show ?thesis unfolding set_map by (intro exI [of _ "m\<lparr>ms_status := message_Sent\<rparr>"]) (auto intro: rev_image_eqI)
qed

text \<open>C15. The status worker comes to an end as soon as the database takes its update, after any number of
  failed tries: then every live row with one of the collected uuids is \<open>Sent\<close> and no other row has
  changed. No status is lost, where the collected ones are distinct and marked as queued (as in every reachable
  state) and no two rows share a uuid: each status either has lost its mark and has a row that is \<open>Sent\<close>,
  or it is still marked and waits in the channel for a later round. The exception is a full channel: then a
  status that found no row is dropped, and keeps its mark.\<close>

theorem statuses_settle:
  assumes "backend (ce_env C) rows str_at set_at pages" and "us \<noteq> []"
    and "\<And>i. i < k \<Longrightarrow> \<exists>e. mark_sent (ce_env C) us (s i) = Some (Inl e, s (Suc i))"
    and "mark_sent (ce_env C) us (s k) = Some (Inr n, s')" and "s 0 = ch_stores w" and "k < fuel"
    and "distinct us" and "set us \<subseteq> set (ch_queuedStatuses w)" and "unique_rows (rows (st_db (ch_stores w)))"
  shows "\<exists>w'. flush_statuses C fuel us w = Some (Inr () :: unit + unit, w') \<and>
    rows (st_db (ch_stores w')) = map (\<lambda>r. case r of
        RMessage m \<Rightarrow> if ms_deleted_at m = None \<and> ms_uuid m \<in> set us then RMessage (m\<lparr>ms_status := message_Sent\<rparr>) else r
      | _ \<Rightarrow> r) (rows (st_db (ch_stores w))) \<and>
    (\<forall>u \<in> set us.
       if u \<in> set (ch_queuedStatuses w')
       then u \<in> set (ch_items (ch_statusUpdates w')) \<or> ch_cap (ch_statusUpdates w') \<le> length (ch_items (ch_statusUpdates w'))
       else \<exists>m. RMessage m \<in> set (rows (st_db (ch_stores w'))) \<and> ms_uuid m = u \<and> ms_status m = message_Sent)"
proof -
  have "wp (flush_statuses C fuel us) (\<lambda>_. settled rows us w) (\<lambda>_ :: unit. \<lambda>_. False) w"
    by (rule backend.flush_settles [OF assms(1) refl assms(2,3,4,6,5)])
  then obtain w' where run: "flush_statuses C fuel us w = Some (Inr () :: unit + unit, w')" and settled: "settled rows us w w'"
    by (auto elim: wpE)
  have row: "(if scoped messages (\<lambda>m. ms_uuid m \<in> set us) r then on_row messages (\<lambda>m. m\<lparr>ms_status := message_Sent\<rparr>) r else r)
      = (case r of RMessage m \<Rightarrow> if ms_deleted_at m = None \<and> ms_uuid m \<in> set us then RMessage (m\<lparr>ms_status := message_Sent\<rparr>) else r
      | _ \<Rightarrow> r)" for r
    by (cases r) (auto simp: scoped_def on_row_def messages_def)
  have "if u \<in> set (ch_queuedStatuses w') then waits w' u
      else \<exists>m. RMessage m \<in> set (rows (st_db (ch_stores w'))) \<and> ms_uuid m = u \<and> ms_status m = message_Sent" if u: "u \<in> set us" for u
  proof (cases "u \<in> set (ch_queuedStatuses w')")
    case True
    with settled u show ?thesis by (simp add: settled_def)
  next
    case False
    with settled u assms(7-9) have "\<not> unsaved (rows (st_db (ch_stores w))) u" by (auto simp: settled_def)
    with saved_sent [OF this u] settled False show ?thesis by (simp add: settled_def)
  qed
  then have settles: "\<forall>u \<in> set us. if u \<in> set (ch_queuedStatuses w') then waits w' u
      else \<exists>m. RMessage m \<in> set (rows (st_db (ch_stores w'))) \<and> ms_uuid m = u \<and> ms_status m = message_Sent" by (rule ballI)
  have sent: "rows (st_db (ch_stores w')) = map (\<lambda>r. case r of
        RMessage m \<Rightarrow> if ms_deleted_at m = None \<and> ms_uuid m \<in> set us then RMessage (m\<lparr>ms_status := message_Sent\<rparr>) else r
      | _ \<Rightarrow> r) (rows (st_db (ch_stores w)))"
    using settled by (simp add: settled_def row)
  show ?thesis by (rule exI [of _ w'], intro conjI run sent, rule settles [unfolded waits_def])
qed

definition demo_status :: "bool list \<Rightarrow> (mem_db, mem_redis) stores" where
  "demo_status faults = demo_chat\<lparr>st_db := (st_db demo_chat)\<lparr>md_faults := faults\<rparr>\<rparr>"

definition demo_marked :: "(mem_db, mem_redis) chat" where
  "demo_marked = NewMessageProcessor (demo_status [True])\<lparr>ch_queuedStatuses := [''8'', ''none'']\<rparr>"

theorem statuses_settle_witness:
  "\<exists>w'. flush_statuses (demo_chat_env 9) 2 [''8'', ''none''] demo_marked = Some (Inr () :: unit + unit, w') \<and>
    (\<forall>u \<in> {''8'', ''none''}. if u \<in> set (ch_queuedStatuses w')
       then u \<in> set (ch_items (ch_statusUpdates w')) \<or> ch_cap (ch_statusUpdates w') \<le> length (ch_items (ch_statusUpdates w'))
       else \<exists>m. RMessage m \<in> set (md_rows (st_db (ch_stores w'))) \<and> ms_uuid m = u \<and> ms_status m = message_Sent)"
proof -
  let ?s = "\<lambda>i :: nat. case i of 0 \<Rightarrow> demo_status [True] | _ \<Rightarrow> demo_status []"
  have failed: "mark_sent (ce_env (demo_chat_env 9)) [''8'', ''none''] (demo_status [True]) = Some (Inl DbFault, demo_status [])"
    by (simp add: mark_sent_def update_def on_db_def demo_chat_env_def demo_status_def mem_database_def db_faulty_def)
  obtain n s' where sent: "mark_sent (ce_env (demo_chat_env 9)) [''8'', ''none''] (demo_status []) = Some (Inr n, s')"
    by (simp add: mark_sent_def update_def on_db_def demo_chat_env_def demo_status_def mem_database_def db_faulty_def
        mem_update_def demo_chat_def demo_message_def demo_defs table_simps on_row_def messages_def unique_rows_def conflict_def Let_def)
  have unique: "unique_rows (md_rows (st_db (demo_status [True])))"
    by (simp add: demo_status_def demo_chat_def demo_message_def demo_defs unique_rows_def conflict_def)
  have "backend (ce_env (demo_chat_env 9)) md_rows mem_str mem_set (\<lambda>_. 0)"
    using mem_backend by (simp add: demo_chat_env_def)
  from statuses_settle [OF this, of "[''8'', ''none'']" 1 ?s n s' demo_marked 2] failed sent unique
  show ?thesis by (auto simp: demo_marked_def NewMessageProcessor_def simp del: flush_statuses.simps)
qed

text \<open>A delivered message that is never saved (the signals of a call are not) keeps the worker busy for
  ever: its status is not forgotten by an update that reaches the database but goes back into
  the channel, with its mark, unless the channel is full.\<close>

theorem unsaved_status_circulates:
  assumes "backend (ce_env C) rows str_at set_at pages" and "distinct us" and "unique_rows (rows (st_db (ch_stores w)))"
    and "u \<in> set us" and "u \<in> set (ch_queuedStatuses w)"
    and "unsaved (rows (st_db (ch_stores w))) u"
    and "mark_sent (ce_env C) us (ch_stores w) = Some (Inr n, s')" and "0 < fuel"
  shows "\<exists>w'. flush_statuses C fuel us w = Some (Inr () :: unit + unit, w') \<and> u \<in> set (ch_queuedStatuses w') \<and>
    (u \<in> set (ch_items (ch_statusUpdates w')) \<or> ch_cap (ch_statusUpdates w') \<le> length (ch_items (ch_statusUpdates w')))"
proof -
  have "wp (flush_statuses C fuel us) (\<lambda>_. settled rows us w) (\<lambda>_ :: unit. \<lambda>_. False) w"
    by (rule backend.flush_settles [OF assms(1) refl, where k = 0 and s = "\<lambda>_. ch_stores w"]) (use assms(4,7,8) in auto)
  then obtain w' where "flush_statuses C fuel us w = Some (Inr () :: unit + unit, w')" and settled: "settled rows us w w'"
    by (auto elim: wpE)
  moreover have "u \<in> set (ch_queuedStatuses w')" using settled assms(2-6) by (auto simp: settled_def)
  moreover have "waits w' u" using settled assms(4) calculation(3) by (auto simp: settled_def)
  ultimately show ?thesis by (auto simp: waits_def)
qed

theorem unsaved_status_circulates_witness:
  "\<exists>w'. flush_statuses (demo_chat_env 9) 1 [''signal''] (NewMessageProcessor demo\<lparr>ch_queuedStatuses := [''signal'']\<rparr>) =
      Some (Inr () :: unit + unit, w') \<and> ''signal'' \<in> set (ch_queuedStatuses w')"
proof -
  let ?w = "NewMessageProcessor demo\<lparr>ch_queuedStatuses := [''signal'']\<rparr>"
  have fresh: "ch_stores ?w = demo" by (simp add: NewMessageProcessor_def)
  obtain n s' where sent: "mark_sent (ce_env (demo_chat_env 9)) [''signal''] demo = Some (Inr n, s')"
    by (simp add: mark_sent_def update_def on_db_def demo_chat_env_def mem_database_def db_faulty_def
        mem_update_def demo_defs table_simps on_row_def messages_def unique_rows_def conflict_def Let_def)
  have unique: "unique_rows (md_rows (st_db demo))" by (simp add: demo_defs unique_rows_def conflict_def)
  have unsaved: "unsaved (md_rows (st_db demo)) ''signal''" by (auto simp: demo_defs unsaved_def)
  have "backend (ce_env (demo_chat_env 9)) md_rows mem_str mem_set (\<lambda>_. 0)"
    using mem_backend by (simp add: demo_chat_env_def)
  from unsaved_status_circulates [OF this, of "[''signal'']" ?w "''signal''" n s' 1] unique unsaved sent
  show ?thesis unfolding fresh by (auto simp del: flush_statuses.simps)
qed

end
