(* ===== verification/Instance_Bus.thy ===== *)
theory Instance_Bus
  imports Chat_State
begin

text \<open>
  \<open>transport/instance_bus.go\<close>: the messages between instances and their JSON, publishing to the stream
  of another instance, and the rounds of the loop that reads the own stream. A handler runs on the
  state of the chat process; streams are commands of the cache's client.
\<close>

section \<open>Messages between instances\<close>

record DeliveryMessage =
  dm_Targets :: "uuid list"
  dm_Payload :: bytes
  dm_DedupKey :: string
  dm_Kind :: string

record SessionForward =
  sf_SessionID :: string
  sf_Payload :: bytes

record BusMessage =
  bm_Type :: string
  bm_Deliver :: "DeliveryMessage option"
  bm_Session :: "SessionForward option"

definition BusTypeDeliver :: string where "BusTypeDeliver = ''deliver''"
definition BusTypeSession :: string where "BusTypeSession = ''session''"
definition streamPrefix :: string where "streamPrefix = ''chat:deliver:''"
definition consumerGrp :: string where "consumerGrp = ''chat-deliver''"

text \<open>\<open>json.Marshal\<close> replaces each byte that is not part of valid UTF-8 by U+FFFD. The length of the valid
  character that a text begins with, 0 if there is none:\<close>

definition between_bytes :: "nat \<Rightarrow> nat \<Rightarrow> char \<Rightarrow> bool" where
  "between_bytes lo hi c \<longleftrightarrow> lo \<le> of_char c \<and> of_char c \<le> hi"

abbreviation tail_byte :: "char \<Rightarrow> bool" where
  "tail_byte \<equiv> between_bytes 128 191"

definition utf8_len :: "bytes \<Rightarrow> nat" where
  "utf8_len s =
     (case s of
        [] \<Rightarrow> 0
      | a # s1 \<Rightarrow>
          if between_bytes 0 127 a then 1
          else (case s1 of
             [] \<Rightarrow> 0
           | b # s2 \<Rightarrow>
               if between_bytes 194 223 a \<and> tail_byte b then 2
               else (case s2 of
                  [] \<Rightarrow> 0
                | c # s3 \<Rightarrow>
                    if tail_byte c \<and> (between_bytes 224 224 a \<and> between_bytes 160 191 b \<or>
                         (between_bytes 225 236 a \<or> between_bytes 238 239 a) \<and> tail_byte b \<or>
                         between_bytes 237 237 a \<and> between_bytes 128 159 b) then 3
                    else (case s3 of
                       [] \<Rightarrow> 0
                     | d # _ \<Rightarrow>
                         if tail_byte c \<and> tail_byte d \<and> (between_bytes 240 240 a \<and> between_bytes 144 191 b \<or>
                              between_bytes 241 243 a \<and> tail_byte b \<or>
                              between_bytes 244 244 a \<and> between_bytes 128 143 b) then 4
                         else 0))))"

fun valid_utf8 :: "nat \<Rightarrow> bytes \<Rightarrow> bytes" where
  "valid_utf8 0 s = []"
| "valid_utf8 (Suc n) s =
     (case s of
        [] \<Rightarrow> []
      | c # s' \<Rightarrow>
          if utf8_len s = 0 then map char_of [239 :: nat, 191, 189] @ valid_utf8 n s'
          else take (utf8_len s) s @ valid_utf8 n (drop (utf8_len s) s))"

definition json_text :: "string \<Rightarrow> json" where
  "json_text s = JStr (valid_utf8 (length s) s)"

text \<open>\<open>Kind\<close> and the two pointers are left out when they are empty; a slice of bytes is written in base 64.\<close>

definition delivery_json :: "DeliveryMessage \<Rightarrow> json" where
  "delivery_json d = JObj
     ([(''targets'', JArr (map json_text (dm_Targets d))), (''payload'', JStr (b64_encode (dm_Payload d))),
       (''dedup_key'', json_text (dm_DedupKey d))] @
      (if dm_Kind d = [] then [] else [(''kind'', json_text (dm_Kind d))]))"

definition session_forward_json :: "SessionForward \<Rightarrow> json" where
  "session_forward_json f = JObj [(''session_id'', json_text (sf_SessionID f)), (''payload'', JStr (b64_encode (sf_Payload f)))]"

definition bus_json :: "BusMessage \<Rightarrow> json" where
  "bus_json m = JObj
     ([(''type'', json_text (bm_Type m))] @
      (case bm_Deliver m of None \<Rightarrow> [] | Some d \<Rightarrow> [(''deliver'', delivery_json d)]) @
      (case bm_Session m of None \<Rightarrow> [] | Some f \<Rightarrow> [(''session'', session_forward_json f)]))"

definition encode_bus :: "BusMessage \<Rightarrow> string" where
  "encode_bus m = json_print (bus_json m)"

text \<open>A slice of strings; \<open>null\<close> as an element is the empty string.\<close>

fun string_elem :: "json \<Rightarrow> string \<times> bool" where
  "string_elem (JStr t) = (t, False)"
| "string_elem JNull = ([], False)"
| "string_elem _ = ([], True)"

fun set_strings :: "(string list \<Rightarrow> 's \<Rightarrow> 's) \<Rightarrow> 's setter" where
  "set_strings upd (JArr js) s = (upd (map (fst \<circ> string_elem) js) s, list_ex (snd \<circ> string_elem) js)"
| "set_strings upd JNull s = (upd [] s, False)"
| "set_strings upd _ s = (s, True)"

text \<open>A pointer to a struct: \<open>null\<close> is nil, anything else is read into the struct, a new one if need be.\<close>

definition set_ptr ::
  "(string \<times> 't setter) list \<Rightarrow> 't \<Rightarrow> ('s \<Rightarrow> 't option) \<Rightarrow> ('t option \<Rightarrow> 's \<Rightarrow> 's) \<Rightarrow> 's setter" where
  "set_ptr fs z get put j s =
     (case j of
        JNull \<Rightarrow> (put None s, False)
      | _ \<Rightarrow> (case unmarshal_struct fs j (case get s of None \<Rightarrow> z | Some t \<Rightarrow> t) of (t, e) \<Rightarrow> (put (Some t) s, e)))"

definition delivery_fields :: "(string \<times> DeliveryMessage setter) list" where
  "delivery_fields =
     [(''targets'', set_strings (\<lambda>v d. d\<lparr>dm_Targets := v\<rparr>)), (''payload'', set_bytes (\<lambda>v d. d\<lparr>dm_Payload := v\<rparr>)),
      (''dedup_key'', set_string (\<lambda>v d. d\<lparr>dm_DedupKey := v\<rparr>)), (''kind'', set_string (\<lambda>v d. d\<lparr>dm_Kind := v\<rparr>))]"

definition session_forward_fields :: "(string \<times> SessionForward setter) list" where
  "session_forward_fields =
     [(''session_id'', set_string (\<lambda>v f. f\<lparr>sf_SessionID := v\<rparr>)), (''payload'', set_bytes (\<lambda>v f. f\<lparr>sf_Payload := v\<rparr>))]"

definition zero_delivery :: DeliveryMessage where
  "zero_delivery = \<lparr>dm_Targets = [], dm_Payload = [], dm_DedupKey = [], dm_Kind = []\<rparr>"

definition zero_forward :: SessionForward where
  "zero_forward = \<lparr>sf_SessionID = [], sf_Payload = []\<rparr>"

definition bus_fields :: "(string \<times> BusMessage setter) list" where
  "bus_fields =
     [(''type'', set_string (\<lambda>v m. m\<lparr>bm_Type := v\<rparr>)),
      (''deliver'', set_ptr delivery_fields zero_delivery bm_Deliver (\<lambda>v m. m\<lparr>bm_Deliver := v\<rparr>)),
      (''session'', set_ptr session_forward_fields zero_forward bm_Session (\<lambda>v m. m\<lparr>bm_Session := v\<rparr>))]"

definition decode_bus :: "string \<Rightarrow> BusMessage \<times> bool" where
  "decode_bus raw = json_unmarshal bus_fields raw \<lparr>bm_Type = [], bm_Deliver = None, bm_Session = None\<rparr>"

section \<open>The bus\<close>

definition NewInstanceBus :: "string \<Rightarrow> int \<Rightarrow> InstanceBus" where
  "NewInstanceBus instanceID maxLen =
     \<lparr>ib_instanceID = instanceID, ib_stream = streamPrefix @ instanceID, ib_group = consumerGrp,
      ib_maxLen = (if maxLen \<le> 0 then 10000 else maxLen), ib_stopped = False\<rparr>"

definition Publish :: "('d, 'r) env \<Rightarrow> InstanceBus \<Rightarrow> string \<Rightarrow> BusMessage \<Rightarrow> ('d, 'r, redis_error, unit) svc" where
  "Publish E b targetInstance m =
     (if targetInstance = [] then ret ()
      else on_redis (XAddMessage (e_redis E) (streamPrefix @ targetInstance) ''msg'' (encode_bus m) (ib_maxLen b) (e_now E)))"

definition ack :: "('d, 'r) chat_env \<Rightarrow> InstanceBus \<Rightarrow> string \<Rightarrow> ('d, 'r, 'e, unit) chat_act" where
  "ack C b i = logged (stored (on_redis (XAck (e_redis (ce_env C)) (ib_stream b) (ib_group b) [i] (ce_now C))))"

definition process_one ::
  "('d, 'r) chat_env \<Rightarrow> InstanceBus \<Rightarrow> (BusMessage \<Rightarrow> ('d, 'r, 'f, unit) chat_act) \<Rightarrow> XMessage \<Rightarrow> ('d, 'r, 'e, unit) chat_act" where
  "process_one C b handler m =
     (case map_of (xm_values m) ''msg'' of
        None \<Rightarrow> ack C b (xm_id m)
      | Some raw \<Rightarrow>
          (case decode_bus raw of
             (_, True) \<Rightarrow> ack C b (xm_id m)
           | (dm, False) \<Rightarrow> attempt (handler dm) (\<lambda>r. case r of Inl _ \<Rightarrow> ret () | Inr _ \<Rightarrow> ack C b (xm_id m))))"

definition bus_process ::
  "('d, 'r) chat_env \<Rightarrow> InstanceBus \<Rightarrow> (BusMessage \<Rightarrow> ('d, 'r, 'f, unit) chat_act) \<Rightarrow> XMessage list \<Rightarrow> ('d, 'r, 'e, unit) chat_act" where
  "bus_process C b handler msgs = for_each msgs (process_one C b handler)"

abbreviation readCount :: int where "readCount \<equiv> 100"

definition read_stream :: "('d, 'r) chat_env \<Rightarrow> InstanceBus \<Rightarrow> string \<Rightarrow> time \<Rightarrow> ('d, 'r, redis_error, XMessage list) chat_act" where
  "read_stream C b sid block =
     stored (on_redis (XReadGroupMessages (e_redis (ce_env C)) (ib_stream b) (ib_group b) (ib_instanceID b) sid readCount block (ce_now C)))"

text \<open>\<open>Run\<close>: creating the consumer group, and a round of its loop: first the messages that were
  delivered to this consumer and not acknowledged, then new ones.\<close>

definition run_start :: "('d, 'r) chat_env \<Rightarrow> InstanceBus \<Rightarrow> ('d, 'r, 'e, unit) chat_act" where
  "run_start C b = logged (stored (on_redis (XGroupCreateMkStream (e_redis (ce_env C)) (ib_stream b) (ib_group b) (ce_now C))))"

definition run_round ::
  "('d, 'r) chat_env \<Rightarrow> InstanceBus \<Rightarrow> (BusMessage \<Rightarrow> ('d, 'r, 'f, unit) chat_act) \<Rightarrow> ('d, 'r, 'e, unit) chat_act" where
  "run_round C b handler =
     bnd (attempt (read_stream C b ''0'' (-1)) (\<lambda>r. case r of Inl _ \<Rightarrow> ret () | Inr pending \<Rightarrow> bus_process C b handler pending)) (\<lambda>_.
     attempt (read_stream C b ''>'' second) (\<lambda>r. case r of Inl _ \<Rightarrow> ret () | Inr msgs \<Rightarrow> bus_process C b handler msgs))"

definition bus_Stop :: "InstanceBus \<Rightarrow> InstanceBus" where
  "bus_Stop b = b\<lparr>ib_stopped := True\<rparr>"

text \<open>\<open>Run\<close> for a number of rounds: between them the bus may be stopped.\<close>

fun bus_Run ::
  "('d, 'r) chat_env \<Rightarrow> (BusMessage \<Rightarrow> ('d, 'r, 'f, unit) chat_act) \<Rightarrow> InstanceBus list \<Rightarrow> ('d, 'r, 'e, unit) chat_act" where
  "bus_Run C handler [] = ret ()"
| "bus_Run C handler (b # bs) = (if ib_stopped b then ret () else bnd (run_round C b handler) (\<lambda>_. bus_Run C handler bs))"

end
