(* ===== verification/Bus_Safety.thy ===== *)
theory Bus_Safety
  imports Instance_Bus Chat_Memory
begin

text \<open>
  What the bus between the instances guarantees: a message that one instance publishes for another is read
  there from the stream and given to the handler as it was. The streams are those of the contract
  \<open>redis_streams\<close>, which the cache in memory keeps.
\<close>

section \<open>Texts\<close>

definition utf8_text :: "string \<Rightarrow> bool" where
  "utf8_text s \<longleftrightarrow> valid_utf8 (length s) s = s"

definition utf8_message :: "BusMessage \<Rightarrow> bool" where
  "utf8_message m \<longleftrightarrow> utf8_text (bm_Type m) \<and>
     (case bm_Deliver m of None \<Rightarrow> True
      | Some d \<Rightarrow> list_all utf8_text (dm_Targets d) \<and> utf8_text (dm_DedupKey d) \<and> utf8_text (dm_Kind d)) \<and>
     (case bm_Session m of None \<Rightarrow> True | Some f \<Rightarrow> utf8_text (sf_SessionID f))"

lemma valid_ascii: "list_all (between_bytes 0 127) s \<Longrightarrow> length s \<le> n \<Longrightarrow> valid_utf8 n s = s"
proof (induction n arbitrary: s)
  case (Suc n)
  then show ?case by (cases s) (auto simp: utf8_len_def)
qed simp

lemma utf8_ascii: "list_all (between_bytes 0 127) s \<Longrightarrow> utf8_text s"
  by (simp add: utf8_text_def valid_ascii)

lemma json_text_utf8: "utf8_text s \<Longrightarrow> json_text s = JStr s"
  by (simp add: json_text_def utf8_text_def)

section \<open>The JSON survives the trip\<close>

lemma elems_ok_texts: "elems_ok (map json_text xs)"
  by (induction xs) (auto simp: json_text_def)

lemma bus_json_ok: "json_ok (bus_json m)"
  by (simp add: bus_json_def delivery_json_def session_forward_json_def elems_ok_texts json_text_def split: option.split)

lemma string_elems:
  "list_all utf8_text xs \<Longrightarrow> map (fst \<circ> string_elem) (map json_text xs) = xs"
  "list_all utf8_text xs \<Longrightarrow> \<not> list_ex (snd \<circ> string_elem) (map json_text xs)"
  by (induction xs) (auto simp: json_text_utf8)

lemma unmarshal_delivery:
  "list_all utf8_text (dm_Targets d) \<Longrightarrow> utf8_text (dm_DedupKey d) \<Longrightarrow> utf8_text (dm_Kind d) \<Longrightarrow>
   unmarshal_struct delivery_fields (delivery_json d) zero_delivery = (d, False)"
  using string_elems [of "dm_Targets d"]
  by (simp add: delivery_json_def delivery_fields_def zero_delivery_def find_field_def b64_roundtrip comp_def json_text_utf8)

lemma unmarshal_forward:
  "utf8_text (sf_SessionID f) \<Longrightarrow> unmarshal_struct session_forward_fields (session_forward_json f) zero_forward = (f, False)"
  by (simp add: session_forward_json_def session_forward_fields_def zero_forward_def find_field_def b64_roundtrip json_text_utf8)

lemma set_ptr_json:
  "set_ptr delivery_fields zero_delivery g p (delivery_json d) s =
     (case unmarshal_struct delivery_fields (delivery_json d) (case g s of None \<Rightarrow> zero_delivery | Some t \<Rightarrow> t) of (t, e) \<Rightarrow> (p (Some t) s, e))"
  "set_ptr session_forward_fields zero_forward g' p' (session_forward_json f) s =
     (case unmarshal_struct session_forward_fields (session_forward_json f) (case g' s of None \<Rightarrow> zero_forward | Some t \<Rightarrow> t) of
        (t, e) \<Rightarrow> (p' (Some t) s, e))"
  by (simp_all add: set_ptr_def delivery_json_def session_forward_json_def)

lemma decode_encode_bus: "utf8_message m \<Longrightarrow> decode_bus (encode_bus m) = (m, False)"
  unfolding decode_bus_def encode_bus_def unmarshal_print [OF bus_json_ok]
  by (cases "bm_Deliver m"; cases "bm_Session m")
     (simp_all add: utf8_message_def bus_json_def bus_fields_def find_field_def set_ptr_json unmarshal_delivery unmarshal_forward json_text_utf8)

section \<open>The contract of the streams\<close>

text \<open>\<open>fresh s k g\<close>: the entries of the stream \<open>k\<close> that no consumer of its group \<open>g\<close> has been given yet; \<open>None\<close> when
  there is no such group. XADD with a maximal length may drop old entries, but keeps at least that many of the
  newest; XREADGROUP with \<open>>\<close> gives the oldest of the entries that are new.\<close>

locale redis_streams =
  fixes R :: "'r redis_client" and fresh :: "'r \<Rightarrow> string \<Rightarrow> string \<Rightarrow> XMessage list option"
  assumes xadd_ok: "rc_xadd R k vals maxlen now s = (ROk i, s') \<Longrightarrow> fresh s k g = Some q \<Longrightarrow>
      (case maxlen of None \<Rightarrow> True | Some n \<Rightarrow> int (length q) < n) \<Longrightarrow>
      fresh s' k g = Some (q @ [\<lparr>xm_id = i, xm_values = vals\<rparr>])"
    and xread_ok: "rc_xread R k g consumer ''>'' cnt block now s = (ROk ms, s') \<Longrightarrow> fresh s k g = Some q \<Longrightarrow>
      (case ms of None \<Rightarrow> [] | Some xs \<Rightarrow> xs) = take (nat cnt) q"
begin

lemma XAddMessage_ok:
  "XAddMessage R k key v maxLen now s = (Inr u, s') \<Longrightarrow> fresh s k g = Some q \<Longrightarrow> 0 < maxLen \<longrightarrow> int (length q) < maxLen \<Longrightarrow>
   \<exists>i. fresh s' k g = Some (q @ [\<lparr>xm_id = i, xm_values = [(key, v)]\<rparr>])"
  by (cases "rc_xadd R k [(key, v)] (if 0 < maxLen then Some maxLen else None) now s";
      cases "fst (rc_xadd R k [(key, v)] (if 0 < maxLen then Some maxLen else None) now s)")
     (auto simp: XAddMessage_def void_reply_def dest!: xadd_ok)

lemma XReadGroupMessages_ok:
  "XReadGroupMessages R k g consumer ''>'' cnt block now s = (Inr ms, s') \<Longrightarrow> fresh s k g = Some q \<Longrightarrow> ms = take (nat cnt) q"
  by (cases "rc_xread R k g consumer ''>'' cnt block now s"; cases "fst (rc_xread R k g consumer ''>'' cnt block now s)")
     (auto simp: XReadGroupMessages_def split: option.splits dest!: xread_ok)

end

definition mem_fresh :: "mem_redis \<Rightarrow> string \<Rightarrow> string \<Rightarrow> XMessage list option" where
  "mem_fresh s k g = (case map_of (mr_streams s) k of
     None \<Rightarrow> None
   | Some st \<Rightarrow> if ss_delivered st \<le> length (ss_entries st) then Some (drop (ss_delivered st) (ss_entries st)) else None)"

lemma mem_fresh_faults [simp]: "mem_fresh (s\<lparr>mr_faults := xs\<rparr>) = mem_fresh s"
  by (simp add: fun_eq_iff mem_fresh_def)

interpretation mem_streams: redis_streams "mem_client_of rf" mem_fresh
proof
  fix k g maxlen now i q and vals and s s' :: mem_redis
  assume add: "rc_xadd (mem_client_of rf) k vals maxlen now s = (ROk i, s')" and fresh: "mem_fresh s k g = Some q"
  from add obtain xs where "s' = (let st = (case map_of (mr_streams s) k of Some st \<Rightarrow> st
                   | None \<Rightarrow> \<lparr>ss_entries = [], ss_delivered = 0, ss_pending = []\<rparr>)
         in s\<lparr>mr_faults := xs, mr_streams := AList.update k
               (st\<lparr>ss_entries := ss_entries st @ [\<lparr>xm_id = i, xm_values = vals\<rparr>]\<rparr>) (mr_streams s)\<rparr>)"
    by (auto simp: mem_client_of_def Let_def elim!: faulty_if_cases)
  with fresh show "mem_fresh s' k g = Some (q @ [\<lparr>xm_id = i, xm_values = vals\<rparr>])"
    by (auto simp: mem_fresh_def Let_def update_conv' split: option.splits if_splits)
next
  fix k g consumer cnt block now ms q and s s' :: mem_redis
  assume read: "rc_xread (mem_client_of rf) k g consumer ''>'' cnt block now s = (ROk ms, s')" and fresh: "mem_fresh s k g = Some q"
  from fresh obtain st where st: "map_of (mr_streams s) k = Some st" "q = drop (ss_delivered st) (ss_entries st)"
    by (auto simp: mem_fresh_def split: option.splits if_splits)
  from read st show "(case ms of None \<Rightarrow> [] | Some xs \<Rightarrow> xs) = take (nat cnt) q"
    by (auto simp: mem_client_of_def Let_def elim!: faulty_if_cases split: if_splits)
qed

section \<open>From one instance to the other\<close>

lemma for_each_append: "for_each (xs @ ys) f = bnd (for_each xs f) (\<lambda>_. for_each ys f)"
  by (induction xs) (simp_all add: bnd_assoc)

text \<open>C31. A message that one instance publishes for another reaches the other's handler as it was. Let the
  stream of the target have entries that are new to its group, fewer than the maximal length of the publisher's bus
  and than one read takes (100), let the texts of the message be valid UTF-8 (the encoder replaces other bytes), and let
  \<open>Publish\<close> succeed. Then the next read of new entries by the target's bus, if it succeeds, gives those entries and one
  more, whose field \<open>msg\<close> holds the JSON object of the documented shape; and \<open>process\<close> handles the entries before it and
  then calls the handler with exactly the message (its targets, its payload byte for byte, nil pointers as nil),
  and acknowledges the entry when the handler does not fail.\<close>

theorem published_reaches_handler:
  assumes "redis_streams (e_redis E) fresh" and "e_redis (ce_env C) = e_redis E" and "utf8_message m"
    and "fresh (st_redis w) (''chat:deliver:'' @ target) ''chat-deliver'' = Some q"
    and "target \<noteq> []" and "length q < 100" and "length q < nat (ib_maxLen bus)"
    and "Publish E bus target m w = Some (Inr (), w1)" and "st_redis (ch_stores v) = st_redis w1"
    and "read_stream C (NewInstanceBus target n) ''>'' block v = Some (Inr msgs, v')"
  shows "\<exists>i raw. msgs = q @ [\<lparr>xm_id = i, xm_values = [(''msg'', raw)]\<rparr>] \<and>
    json_parse raw = Some (JObj ([(''type'', JStr (bm_Type m))] @
      (case bm_Deliver m of None \<Rightarrow> []
       | Some d \<Rightarrow> [(''deliver'', JObj ([(''targets'', JArr (map JStr (dm_Targets d))), (''payload'', JStr (b64_encode (dm_Payload d))),
           (''dedup_key'', JStr (dm_DedupKey d))] @ (if dm_Kind d = [] then [] else [(''kind'', JStr (dm_Kind d))])))]) @
      (case bm_Session m of None \<Rightarrow> []
       | Some f \<Rightarrow> [(''session'', JObj [(''session_id'', JStr (sf_SessionID f)), (''payload'', JStr (b64_encode (sf_Payload f)))])]))) \<and>
    bus_process C (NewInstanceBus target n) handler msgs =
      bnd (bus_process C (NewInstanceBus target n) handler q) (\<lambda>_.
      bnd (attempt (handler m) (\<lambda>r. case r of
        Inl _ \<Rightarrow> ret ()
      | Inr _ \<Rightarrow> logged (stored (on_redis (XAck (e_redis E) (''chat:deliver:'' @ target) ''chat-deliver'' [i] (ce_now C)))))) (\<lambda>_. ret ()))"
proof -
  let ?b = "NewInstanceBus target n"
  have add: "XAddMessage (e_redis E) (''chat:deliver:'' @ target) ''msg'' (encode_bus m) (ib_maxLen bus) (e_now E) (st_redis w) = (Inr (), st_redis w1)"
    using assms(5,8) by (auto simp: Publish_def streamPrefix_def on_redis_def split: prod.splits sum.splits)
  have "0 < ib_maxLen bus \<longrightarrow> int (length q) < ib_maxLen bus" using assms(7) by linarith
  note adds = redis_streams.XAddMessage_ok [OF assms(1)] and reads = redis_streams.XReadGroupMessages_ok [OF assms(1)]
  from adds [OF add assms(4)] \<open>0 < ib_maxLen bus \<longrightarrow> _\<close> obtain i where
    i: "fresh (st_redis w1) (''chat:deliver:'' @ target) ''chat-deliver'' = Some (q @ [\<lparr>xm_id = i, xm_values = [(''msg'', encode_bus m)]\<rparr>])"
    by blast
  have bus: "ib_stream ?b = ''chat:deliver:'' @ target" "ib_group ?b = ''chat-deliver''"
    by (simp_all add: NewInstanceBus_def streamPrefix_def consumerGrp_def)
  have "\<exists>s'. XReadGroupMessages (e_redis E) (''chat:deliver:'' @ target) ''chat-deliver'' (ib_instanceID ?b) ''>'' readCount block (ce_now C)
      (st_redis w1) = (Inr msgs, s')"
    using assms(2,9,10) bus by (auto simp: read_stream_def stored_def on_redis_def split: prod.splits sum.splits)
  with reads [OF _ i] have "msgs = take (nat readCount) (q @ [\<lparr>xm_id = i, xm_values = [(''msg'', encode_bus m)]\<rparr>])" by blast
  then have msgs: "msgs = q @ [\<lparr>xm_id = i, xm_values = [(''msg'', encode_bus m)]\<rparr>]" using assms(6) by simp
  have shape: "json_parse (encode_bus m) = Some (bus_json m)"
    unfolding encode_bus_def by (rule json_roundtrip [OF bus_json_ok])
  have json: "bus_json m = JObj ([(''type'', JStr (bm_Type m))] @
      (case bm_Deliver m of None \<Rightarrow> []
       | Some d \<Rightarrow> [(''deliver'', JObj ([(''targets'', JArr (map JStr (dm_Targets d))), (''payload'', JStr (b64_encode (dm_Payload d))),
           (''dedup_key'', JStr (dm_DedupKey d))] @ (if dm_Kind d = [] then [] else [(''kind'', JStr (dm_Kind d))])))]) @
      (case bm_Session m of None \<Rightarrow> []
       | Some f \<Rightarrow> [(''session'', JObj [(''session_id'', JStr (sf_SessionID f)), (''payload'', JStr (b64_encode (sf_Payload f)))])]))"
    using assms(3) by (auto simp: utf8_message_def bus_json_def delivery_json_def session_forward_json_def json_text_utf8 list_all_iff split: option.splits)
  have acked: "ack C ?b i = logged (stored (on_redis (XAck (e_redis E) (''chat:deliver:'' @ target) ''chat-deliver'' [i] (ce_now C))))"
    by (simp only: ack_def bus assms(2))
  have one: "process_one C ?b handler \<lparr>xm_id = i, xm_values = [(''msg'', encode_bus m)]\<rparr> =
      attempt (handler m) (\<lambda>r. case r of Inl _ \<Rightarrow> ret () | Inr _ \<Rightarrow> ack C ?b i)"
    by (simp add: process_one_def decode_encode_bus [OF assms(3)])
  show ?thesis
    by (intro exI conjI, rule msgs, simp only: shape json, simp only: msgs bus_process_def for_each_append for_each.simps one acked)
qed

definition demo_streams :: "(mem_db, mem_redis) stores" where
  "demo_streams = demo\<lparr>st_redis := mem_empty\<lparr>mr_streams :=
     [(''chat:deliver:i2'', \<lparr>ss_entries = [], ss_delivered = 0, ss_pending = []\<rparr>)]\<rparr>\<rparr>"

definition demo_forward :: BusMessage where
  "demo_forward = \<lparr>bm_Type = ''session'', bm_Deliver = None, bm_Session = Some \<lparr>sf_SessionID = ''S1'', sf_Payload = ''hi''\<rparr>\<rparr>"

theorem published_reaches_handler_witness:
  "\<exists>w1 v' i raw. Publish (mem_env_reads 9) (NewInstanceBus ''i1'' 0) ''i2'' demo_forward demo_streams = Some (Inr (), w1) \<and>
     read_stream (demo_chat_env 9) (NewInstanceBus ''i2'' 0) ''>'' second (NewMessageProcessor w1) =
       Some (Inr [\<lparr>xm_id = i, xm_values = [(''msg'', raw)]\<rparr>], v') \<and>
     json_parse raw = json_parse ''{\"type\":\"session\",\"session\":{\"session_id\":\"S1\",\"payload\":\"aGk=\"}}''"
proof -
  have fresh: "mem_fresh (st_redis demo_streams) (''chat:deliver:'' @ ''i2'') ''chat-deliver'' = Some []"
    by (simp add: demo_streams_def mem_fresh_def)
  have utf8: "utf8_message demo_forward"
    by (auto simp: utf8_message_def demo_forward_def between_bytes_def intro!: utf8_ascii)
  have redis: "e_redis (ce_env (demo_chat_env 9)) = e_redis (mem_env_reads 9)" by (simp add: demo_chat_env_def)
  have streams: "redis_streams (e_redis (mem_env_reads 9)) mem_fresh" using mem_streams.redis_streams_axioms by simp
  obtain w1 st where w1: "Publish (mem_env_reads 9) (NewInstanceBus ''i1'' 0) ''i2'' demo_forward demo_streams = Some (Inr (), w1)"
    and st: "map_of (mr_streams (st_redis w1)) ''chat:deliver:i2'' = Some st"
    by (simp add: Publish_def on_redis_def XAddMessage_def void_reply_def mem_client_of_def faulty_if_def Let_def update_conv' streamPrefix_def)
  have store: "st_redis (ch_stores (NewMessageProcessor w1)) = st_redis w1" by (simp add: NewMessageProcessor_def)
  obtain msgs v' where v': "read_stream (demo_chat_env 9) (NewInstanceBus ''i2'' 0) ''>'' second (NewMessageProcessor w1) = Some (Inr msgs, v')"
    by (cases "take 100 (drop (ss_delivered st) (ss_entries st)) = []")
      (simp_all add: read_stream_def stored_def on_redis_def XReadGroupMessages_def demo_chat_env_def mem_client_of_def faulty_if_def
        Let_def NewInstanceBus_def streamPrefix_def store st)
  have few: "''i2'' \<noteq> []" "length [] < (100 :: nat)" "length [] < nat (ib_maxLen (NewInstanceBus ''i1'' 0))"
    by (simp_all add: NewInstanceBus_def)
  obtain i raw where "msgs = [] @ [\<lparr>xm_id = i, xm_values = [(''msg'', raw)]\<rparr>]" and
    "json_parse raw = Some (JObj ([(''type'', JStr (bm_Type demo_forward))] @
      (case bm_Deliver demo_forward of None \<Rightarrow> []
       | Some d \<Rightarrow> [(''deliver'', JObj ([(''targets'', JArr (map JStr (dm_Targets d))), (''payload'', JStr (b64_encode (dm_Payload d))),
           (''dedup_key'', JStr (dm_DedupKey d))] @ (if dm_Kind d = [] then [] else [(''kind'', JStr (dm_Kind d))])))]) @
      (case bm_Session demo_forward of None \<Rightarrow> []
       | Some f \<Rightarrow> [(''session'', JObj [(''session_id'', JStr (sf_SessionID f)), (''payload'', JStr (b64_encode (sf_Payload f)))])])))"
    using published_reaches_handler [OF streams redis utf8 fresh few w1 store v', where handler = "\<lambda>_. ret () :: (_, _, unit, _) chat_act"]
    by (elim exE conjE) (rule that)
  then have "msgs = [\<lparr>xm_id = i, xm_values = [(''msg'', raw)]\<rparr>]" and
    "json_parse raw = Some (JObj [(''type'', JStr ''session''), (''session'', JObj [(''session_id'', JStr ''S1''), (''payload'', JStr (b64_encode ''hi''))])])"
    by (simp_all add: demo_forward_def)
  moreover have "json_parse ''{\"type\":\"session\",\"session\":{\"session_id\":\"S1\",\"payload\":\"aGk=\"}}'' =
      Some (JObj [(''type'', JStr ''session''), (''session'', JObj [(''session_id'', JStr ''S1''), (''payload'', JStr (b64_encode ''hi''))])])"
    by code_simp
  ultimately show ?thesis using w1 v' by auto
qed

end
