(* ===== verification/Login_Lock.thy ===== *)
theory Login_Lock
  imports Chat_State
begin

text \<open>
  How the goroutines of a server meet at a login: \<open>SendClientToLogin\<close> and \<open>SendClientToLogout\<close> take the
  mutex and send into a channel while they hold it; the main loop \<open>Start\<close> receives from that channel
  and then takes the same mutex to change \<open>Clients\<close>. The three servers (\<open>server.go\<close>,
  \<open>hybrid_router.go\<close> and, with unbuffered channels, \<open>kafka_server.go\<close>) have this code each. Every
  interleaving is a path of \<open>hub_step\<close>; what the steps do to the clients is \<open>Client_Delivery\<close>.
\<close>

section \<open>Calls, the lock and the main loop\<close>

text \<open>A pointer to a client is its index, with the user it belongs to.\<close>

datatype call = SendClientToLogin uuid nat | SendClientToLogout uuid nat | RemoveCall uuid

datatype lock_holder = Sending call | Releasing

text \<open>\<open>Lookup\<close>: the main loop of the channel server has a message in hand and reads \<open>Clients\<close> for its delivery.\<close>

datatype main_pc = Select | Store uuid nat | Erase uuid | Lookup

record hub =
  hb_cap :: nat
  hb_login :: "(uuid \<times> nat) list"
  hb_logout :: "(uuid \<times> nat) list"
  hb_messages :: nat
  hb_lock :: "lock_holder option"
  hb_main :: main_pc
  hb_waiting :: "call list"
  hb_clients :: "(uuid \<times> nat) list"

definition new_hub :: "nat \<Rightarrow> hub" where
  "new_hub cap = \<lparr>hb_cap = cap, hb_login = [], hb_logout = [], hb_messages = 0, hb_lock = None, hb_main = Select, hb_waiting = [], hb_clients = []\<rparr>"

text \<open>
  A step of some goroutine. On an unbuffered channel the sender hands over to a main loop that
  waits in its \<open>select\<close>. The main loop holds the mutex only while it changes the map, which is one
  step; the greeting that follows is bounded by its timer and is no part of the model. For a message of
  \<open>Transmit\<close> (of which \<open>hb_messages\<close> wait) it takes the mutex as a reader, unless it has nobody to deliver it to.
\<close>

inductive work_step :: "hub \<Rightarrow> hub \<Rightarrow> bool" where
  lock: "hb_lock s = None \<Longrightarrow> c \<in> set (hb_waiting s) \<Longrightarrow>
    work_step s (s\<lparr>hb_lock := Some (Sending c), hb_waiting := remove1 c (hb_waiting s)\<rparr>)"
| send_login: "hb_lock s = Some (Sending (SendClientToLogin u p)) \<Longrightarrow> length (hb_login s) < hb_cap s \<Longrightarrow>
    work_step s (s\<lparr>hb_login := hb_login s @ [(u, p)], hb_lock := Some Releasing\<rparr>)"
| send_logout: "hb_lock s = Some (Sending (SendClientToLogout u p)) \<Longrightarrow> length (hb_logout s) < hb_cap s \<Longrightarrow>
    work_step s (s\<lparr>hb_logout := hb_logout s @ [(u, p)], hb_lock := Some Releasing\<rparr>)"
| hand_login: "hb_lock s = Some (Sending (SendClientToLogin u p)) \<Longrightarrow> hb_cap s = 0 \<Longrightarrow> hb_main s = Select \<Longrightarrow>
    work_step s (s\<lparr>hb_main := Store u p, hb_lock := Some Releasing\<rparr>)"
| hand_logout: "hb_lock s = Some (Sending (SendClientToLogout u p)) \<Longrightarrow> hb_cap s = 0 \<Longrightarrow> hb_main s = Select \<Longrightarrow>
    work_step s (s\<lparr>hb_main := Erase u, hb_lock := Some Releasing\<rparr>)"
| remove_call: "hb_lock s = Some (Sending (RemoveCall u)) \<Longrightarrow>
    work_step s (s\<lparr>hb_clients := AList.delete u (hb_clients s), hb_lock := Some Releasing\<rparr>)"
| unlock: "hb_lock s = Some Releasing \<Longrightarrow> work_step s (s\<lparr>hb_lock := None\<rparr>)"
| recv_login: "hb_main s = Select \<Longrightarrow> hb_login s = (u, p) # xs \<Longrightarrow>
    work_step s (s\<lparr>hb_main := Store u p, hb_login := xs\<rparr>)"
| recv_logout: "hb_main s = Select \<Longrightarrow> hb_logout s = (u, p) # xs \<Longrightarrow>
    work_step s (s\<lparr>hb_main := Erase u, hb_logout := xs\<rparr>)"
| store: "hb_main s = Store u p \<Longrightarrow> hb_lock s = None \<Longrightarrow>
    work_step s (s\<lparr>hb_clients := AList.update u p (hb_clients s), hb_main := Select\<rparr>)"
| erase: "hb_main s = Erase u \<Longrightarrow> hb_lock s = None \<Longrightarrow>
    work_step s (s\<lparr>hb_clients := AList.delete u (hb_clients s), hb_main := Select\<rparr>)"
| recv_message: "hb_main s = Select \<Longrightarrow> hb_messages s = Suc n \<Longrightarrow> work_step s (s\<lparr>hb_main := Lookup, hb_messages := n\<rparr>)"
| skip_message: "hb_main s = Select \<Longrightarrow> hb_messages s = Suc n \<Longrightarrow> work_step s (s\<lparr>hb_messages := n\<rparr>)"
| look_up: "hb_main s = Lookup \<Longrightarrow> hb_lock s = None \<Longrightarrow> work_step s (s\<lparr>hb_main := Select\<rparr>)"

text \<open>A new call or message may come at any time.\<close>

inductive hub_step :: "hub \<Rightarrow> hub \<Rightarrow> bool" where
  work: "work_step s s' \<Longrightarrow> hub_step s s'"
| arrive: "hub_step s (s\<lparr>hb_waiting := c # hb_waiting s\<rparr>)"
| message: "hub_step s (s\<lparr>hb_messages := Suc (hb_messages s)\<rparr>)"

section \<open>The deadlock\<close>

definition channel_full :: "hub \<Rightarrow> call \<Rightarrow> bool" where
  "channel_full s c \<longleftrightarrow> (case c of
     SendClientToLogin _ _ \<Rightarrow> hb_cap s \<le> length (hb_login s)
   | SendClientToLogout _ _ \<Rightarrow> hb_cap s \<le> length (hb_logout s)
   | RemoveCall _ \<Rightarrow> False)"

text \<open>The main loop wants the mutex, which is held by a sender that waits for the main loop.\<close>

definition deadlocked :: "hub \<Rightarrow> bool" where
  "deadlocked s \<longleftrightarrow> hb_main s \<noteq> Select \<and> (\<exists>c. hb_lock s = Some (Sending c) \<and> channel_full s c)"

text \<open>The calls and clients that are under way, with the one client or message that the main loop has in hand.\<close>

definition under_way :: "hub \<Rightarrow> nat" where
  "under_way s = length (hb_waiting s) + (case hb_lock s of Some (Sending _) \<Rightarrow> 1 | _ \<Rightarrow> 0) +
     length (hb_login s) + length (hb_logout s) + (if hb_main s = Select then 0 else 1)"

lemma channel_full_simps [simp]:
  "channel_full s (SendClientToLogin u p) \<longleftrightarrow> hb_cap s \<le> length (hb_login s)"
  "channel_full s (SendClientToLogout u p) \<longleftrightarrow> hb_cap s \<le> length (hb_logout s)"
  "channel_full s (RemoveCall u) \<longleftrightarrow> False"
  by (simp_all add: channel_full_def)

lemma channel_full_waiting [simp]: "channel_full (s\<lparr>hb_waiting := x\<rparr>) = channel_full s"
  by (rule ext) (simp add: channel_full_def split: call.split)

lemma channel_full_messages [simp]: "channel_full (s\<lparr>hb_messages := x\<rparr>) = channel_full s"
  by (rule ext) (simp add: channel_full_def split: call.split)

lemma hub_caps:
  "hub_step\<^sup>*\<^sup>* s s' \<Longrightarrow> hb_cap s' = hb_cap s"
  by (induction rule: rtranclp_induct) (auto elim!: hub_step.cases work_step.cases)

lemma dead_step:
  assumes "deadlocked s" and "hub_step s s'"
  shows "deadlocked s' \<and> hb_clients s' = hb_clients s"
  using assms(2)
proof cases
  case work
  then show ?thesis
    using assms(1) by (cases rule: work_step.cases) (auto simp: deadlocked_def)
next
  case (arrive c)
  then show ?thesis using assms(1) by (simp add: deadlocked_def)
next
  case message
  then show ?thesis using assms(1) by (simp add: deadlocked_def)
qed

lemma dead_forever: "hub_step\<^sup>*\<^sup>* s s' \<Longrightarrow> deadlocked s \<Longrightarrow> deadlocked s' \<and> hb_clients s' = hb_clients s"
  by (induction rule: rtranclp_induct) (auto dest: dead_step)

lemma dead_under_way: "deadlocked s \<Longrightarrow> hb_cap s + 2 \<le> under_way s"
  unfolding deadlocked_def
proof (elim conjE exE)
  fix c
  assume "hb_main s \<noteq> Select" "hb_lock s = Some (Sending c)" "channel_full s c"
  then show ?thesis by (cases c) (auto simp: under_way_def)
qed

lemma not_dead_works:
  assumes "\<not> deadlocked s" and "under_way s > 0 \<or> hb_lock s \<noteq> None"
  shows "\<exists>s'. work_step s s'"
proof (cases "hb_lock s")
  case None
  show ?thesis
  proof (cases "hb_waiting s")
    case Nil
    with None assms(2) show ?thesis
      by (cases "hb_main s"; cases "hb_login s"; cases "hb_logout s") (auto simp: under_way_def intro: work_step.intros)
  qed (use None lock [of s] in auto)
next
  case (Some h)
  show ?thesis
  proof (cases h)
    case (Sending c)
    with Some assms(1) have "hb_main s = Select \<or> \<not> channel_full s c" by (auto simp: deadlocked_def)
    then consider (send) "\<not> channel_full s c" | (take) "channel_full s c" "hb_main s = Select" by blast
    then show ?thesis
    proof cases
      case send
      then show ?thesis
        using Some Sending send_login [of s] send_logout [of s] remove_call [of s] by (cases c) (auto simp: not_le)
    next
      case take
      then show ?thesis
        using Some Sending hand_login [of s] hand_logout [of s] recv_login [of s] recv_logout [of s]
        by (cases c; cases "hb_login s"; cases "hb_logout s") auto
    qed
  qed (use Some in \<open>auto intro: work_step.intros\<close>)
qed

abbreviation login_call :: "uuid \<times> nat \<Rightarrow> call" where
  "login_call x \<equiv> SendClientToLogin (fst x) (snd x)"

lemma take_lock:
  "hb_lock s = None \<Longrightarrow> hb_waiting s = c # cs \<Longrightarrow> work_step s (s\<lparr>hb_lock := Some (Sending c), hb_waiting := cs\<rparr>)"
  using lock [of s c] by simp

text \<open>While the main loop wants the mutex, the calls fill the channel.\<close>

lemma fill_channel:
  assumes "hb_lock s = None" and "hb_waiting s = map login_call xs @ cs" and "length (hb_login s) + length xs \<le> hb_cap s"
  shows "work_step\<^sup>*\<^sup>* s (s\<lparr>hb_login := hb_login s @ xs, hb_waiting := cs\<rparr>)"
  using assms
proof (induction xs arbitrary: s)
  case (Cons x xs)
  let ?a = "s\<lparr>hb_lock := Some (Sending (login_call x)), hb_waiting := map login_call xs @ cs\<rparr>"
  let ?b = "?a\<lparr>hb_login := hb_login s @ [x], hb_lock := Some Releasing\<rparr>"
  have "work_step\<^sup>*\<^sup>* s ?a" using Cons.prems take_lock by (intro r_into_rtranclp) simp
  also have "work_step ?a ?b" using send_login [of ?a "fst x" "snd x"] Cons.prems by simp
  also have "work_step ?b (?b\<lparr>hb_lock := None\<rparr>)" by (rule unlock) simp
  also have "work_step\<^sup>*\<^sup>* (?b\<lparr>hb_lock := None\<rparr>)
      (?b\<lparr>hb_lock := None, hb_login := hb_login s @ x # xs, hb_waiting := cs\<rparr>)"
    using Cons.IH [of "?b\<lparr>hb_lock := None\<rparr>"] Cons.prems by simp
  also have "?b\<lparr>hb_lock := None, hb_login := hb_login s @ x # xs, hb_waiting := cs\<rparr> =
      s\<lparr>hb_login := hb_login s @ x # xs, hb_waiting := cs\<rparr>"
    using Cons.prems(1) by (cases s) simp
  finally show ?case .
next
  case Nil
  then have "s\<lparr>hb_login := hb_login s @ [], hb_waiting := cs\<rparr> = s" by (cases s) simp
  then show ?case by simp
qed

text \<open>The first login reaches the main loop.\<close>

lemma first_login:
  "work_step\<^sup>*\<^sup>* ((new_hub cap)\<lparr>hb_waiting := login_call x # cs\<rparr>) ((new_hub cap)\<lparr>hb_main := Store (fst x) (snd x), hb_waiting := cs\<rparr>)"
proof -
  let ?s = "(new_hub cap)\<lparr>hb_waiting := login_call x # cs\<rparr>"
  let ?a = "?s\<lparr>hb_lock := Some (Sending (login_call x)), hb_waiting := cs\<rparr>"
  have a: "work_step\<^sup>*\<^sup>* ?s ?a" by (rule r_into_rtranclp, rule take_lock) (simp_all add: new_hub_def)
  show ?thesis
  proof (cases "cap = 0")
    case True
    let ?b = "?a\<lparr>hb_main := Store (fst x) (snd x), hb_lock := Some Releasing\<rparr>"
    note a
    also have "work_step ?a ?b" by (rule hand_login) (simp_all add: new_hub_def True)
    also have "work_step ?b (?b\<lparr>hb_lock := None\<rparr>)" by (rule unlock) simp
    also have "?b\<lparr>hb_lock := None\<rparr> = (new_hub cap)\<lparr>hb_main := Store (fst x) (snd x), hb_waiting := cs\<rparr>"
      by (simp add: new_hub_def)
    finally show ?thesis .
  next
    case False
    let ?b = "?a\<lparr>hb_login := [x], hb_lock := Some Releasing\<rparr>"
    let ?c = "?b\<lparr>hb_lock := None\<rparr>"
    note a
    also have "work_step ?a ?b" using send_login [of ?a "fst x" "snd x"] False by (simp add: new_hub_def)
    also have "work_step ?b ?c" by (rule unlock) simp
    also have "work_step ?c (?c\<lparr>hb_main := Store (fst x) (snd x), hb_login := []\<rparr>)"
      by (rule recv_login) (simp_all add: new_hub_def)
    also have "?c\<lparr>hb_main := Store (fst x) (snd x), hb_login := []\<rparr> =
        (new_hub cap)\<lparr>hb_main := Store (fst x) (snd x), hb_waiting := cs\<rparr>"
      by (simp add: new_hub_def)
    finally show ?thesis .
  qed
qed

lemma logins_deadlock:
  assumes "length logins = cap + 2"
  shows "\<exists>s. work_step\<^sup>*\<^sup>* ((new_hub cap)\<lparr>hb_waiting := map login_call logins\<rparr>) s \<and> deadlocked s"
proof -
  obtain x xs y where logins: "logins = x # xs @ [y]" and len: "length xs = cap"
    using assms by (cases logins; cases "tl logins" rule: rev_cases) auto
  define s0 where "s0 = (new_hub cap)\<lparr>hb_waiting := map login_call logins\<rparr>"
  define s1 where "s1 = (new_hub cap)\<lparr>hb_main := Store (fst x) (snd x), hb_waiting := map login_call xs @ [login_call y]\<rparr>"
  define s2 where "s2 = s1\<lparr>hb_login := xs, hb_waiting := [login_call y]\<rparr>"
  define s3 where "s3 = s2\<lparr>hb_lock := Some (Sending (login_call y)), hb_waiting := []\<rparr>"
  have "work_step\<^sup>*\<^sup>* s0 s1"
    using first_login [where cap = cap and x = x and cs = "map login_call xs @ [login_call y]"] by (simp add: logins s0_def s1_def)
  also have "work_step\<^sup>*\<^sup>* s1 s2"
    using fill_channel [of s1 xs "[login_call y]"] len by (simp add: new_hub_def s1_def s2_def)
  also have "work_step s2 s3" unfolding s3_def by (rule take_lock) (simp_all add: new_hub_def s1_def s2_def)
  finally have "work_step\<^sup>*\<^sup>* s0 s3" .
  moreover have "deadlocked s3" by (simp add: deadlocked_def new_hub_def len s1_def s2_def s3_def)
  ultimately show ?thesis unfolding s0_def by blast
qed

text \<open>As long as no more than one login or logout beyond the capacity of the channels is under way, the
  server cannot get stuck: in every reachable state in which fewer than two more than the capacity
  are under way, a message that the main loop delivers counted with them, and any is, some goroutine can go on.\<close>

theorem few_logins_progress:
  assumes "hub_step\<^sup>*\<^sup>* (new_hub cap) s" and "0 < under_way s" and "under_way s < cap + 2"
  shows "\<exists>s'. work_step s s'"
  using not_dead_works [of s] dead_under_way [of s] hub_caps [OF assms(1)] assms(2,3)
  by (auto simp: new_hub_def)

theorem few_logins_progress_witness:
  "\<exists>s. work_step ((new_hub 0)\<lparr>hb_waiting := [SendClientToLogin ''U1'' 0]\<rparr>) s"
  using few_logins_progress [of 0 "(new_hub 0)\<lparr>hb_waiting := [SendClientToLogin ''U1'' 0]\<rparr>"]
    r_into_rtranclp [where r = hub_step, OF arrive [of "new_hub 0" "SendClientToLogin ''U1'' 0"]]
  by (simp add: under_way_def new_hub_def)

text \<open>C40. Enough logins stop the server, and it does not recover: any logins that are two more than the capacity
  (two of them in Kafka mode) can be scheduled so that the main loop waits for the mutex and its holder
  for the main loop; from then on, whatever comes and whoever runs, no goroutine ends this
  and no client is put into the map or taken out of it.\<close>

theorem login_deadlock:
  assumes "length logins = cap + 2"
  shows "\<exists>s. work_step\<^sup>*\<^sup>* ((new_hub cap)\<lparr>hb_waiting := map (\<lambda>(u, p). SendClientToLogin u p) logins\<rparr>) s \<and>
    (\<forall>s'. hub_step\<^sup>*\<^sup>* s s' \<longrightarrow> hb_main s' \<noteq> Select \<and> hb_lock s' \<noteq> None \<and> hb_clients s' = hb_clients s)"
proof -
  from logins_deadlock [OF assms] obtain s
    where s: "work_step\<^sup>*\<^sup>* ((new_hub cap)\<lparr>hb_waiting := map login_call logins\<rparr>) s" "deadlocked s" by blast
  have "hb_main s' \<noteq> Select \<and> hb_lock s' \<noteq> None \<and> hb_clients s' = hb_clients s" if "hub_step\<^sup>*\<^sup>* s s'" for s'
    using dead_forever [OF that s(2)] by (auto simp: deadlocked_def)
  moreover have "login_call = (\<lambda>(u, p). SendClientToLogin u p)" by (simp add: fun_eq_iff split: prod.split)
  ultimately show ?thesis using s(1) by metis
qed

theorem login_deadlock_witness:
  "\<exists>s. work_step\<^sup>*\<^sup>* ((new_hub 0)\<lparr>hb_waiting := [SendClientToLogin ''U1'' 0, SendClientToLogin ''U2'' 1]\<rparr>) s \<and> hb_main s \<noteq> Select \<and> hb_lock s \<noteq> None"
  using login_deadlock [of "[(''U1'', 0), (''U2'', 1)]" 0] by auto

end
