(* ===== verification/Distribution.thy ===== *)
theory Distribution
  imports Instance_Bus Client_Delivery Hashes
begin

text \<open>
  \<open>chat/distributor.go\<close> and \<open>chat/fanout_executor.go\<close>: delivering a message to users of this and of
  other instances, dropping what a stream delivers twice, and the workers that fan the messages of
  a group out. The registry and the publisher of the distributor are the presence service and
  the bus.
\<close>

section \<open>The distributor\<close>

abbreviation dedupTTL :: time where "dedupTTL \<equiv> 2 * minute"
abbreviation dedupHardLimit :: nat where "dedupHardLimit \<equiv> 200000"

definition Enable :: "string \<Rightarrow> presence_service \<Rightarrow> InstanceBus \<Rightarrow> ('d, 'r, 'e, unit) chat_act" where
  "Enable instanceID presence publisher =
     modify (\<lambda>w. w\<lparr>ch_distributor := (ch_distributor w)
       \<lparr>ds_instanceID := instanceID, ds_presence := presence, ds_publisher := publisher, ds_enabled := True\<rparr>\<rparr>)"

definition Enabled :: "('d, 'r) chat \<Rightarrow> bool" where
  "Enabled w \<longleftrightarrow> ds_enabled (ch_distributor w)"

definition deliverLocal :: "('d, 'r) chat_env \<Rightarrow> uuid \<Rightarrow> MessageBack \<Rightarrow> ('d, 'r, 'e, bool) chat_act" where
  "deliverLocal C u mb =
     (if u = [] then ret False
      else bnd (gets (\<lambda>w. client_of w u)) (\<lambda>c. case c of
        None \<Rightarrow> ret False
      | Some p \<Rightarrow> bnd (logged (EnqueueDelivery C p mb)) (\<lambda>_. ret True)))"

text \<open>The users at other instances, by instance.\<close>

definition add_user :: "string \<Rightarrow> uuid \<Rightarrow> (string \<times> uuid list) list \<Rightarrow> (string \<times> uuid list) list" where
  "add_user inst t m = AList.update inst ((case map_of m inst of None \<Rightarrow> [] | Some us \<Rightarrow> us) @ [t]) m"

definition by_instance :: "string \<Rightarrow> (uuid \<times> string) list \<Rightarrow> uuid list \<Rightarrow> (string \<times> uuid list) list" where
  "by_instance self locations pending =
     foldl (\<lambda>m t. case map_of locations t of
        None \<Rightarrow> m
      | Some inst \<Rightarrow> if inst \<noteq> [] \<and> inst \<noteq> self then add_user inst t m else m) [] pending"

definition publish_delivery ::
  "('d, 'r) chat_env \<Rightarrow> InstanceBus \<Rightarrow> string \<Rightarrow> uuid list \<Rightarrow> MessageBack \<Rightarrow> string \<Rightarrow> ('d, 'r, 'e, unit) chat_act" where
  "publish_delivery C b inst us mb dedupKey =
     attempt (stored (Publish (ce_env C) b inst
       \<lparr>bm_Type = BusTypeDeliver,
        bm_Deliver = Some \<lparr>dm_Targets = us, dm_Payload = mb_Message mb, dm_DedupKey = dedupKey, dm_Kind = ''user''\<rparr>,
        bm_Session = None\<rparr>)) (\<lambda>r. case r of
       Inl _ \<Rightarrow> count (\<lambda>m. m\<lparr>crossNodePublishFailures := crossNodePublishFailures m + 1\<rparr>)
     | Inr _ \<Rightarrow> count (\<lambda>m. m\<lparr>crossNodePublish := crossNodePublish m + 1\<rparr>))"

definition deliver_remote :: "('d, 'r) chat_env \<Rightarrow> uuid list \<Rightarrow> MessageBack \<Rightarrow> string \<Rightarrow> ('d, 'r, 'e, unit) chat_act" where
  "deliver_remote C pending mb dedupKey =
     (if pending = [] then ret ()
      else attempt (stored (LookupMany (ce_env C) pending)) (\<lambda>r. case r of
        Inl _ \<Rightarrow> count (\<lambda>m. m\<lparr>crossNodeLookupFailures := crossNodeLookupFailures m + 1\<rparr>)
      | Inr locations \<Rightarrow>
          bnd (gets ch_distributor) (\<lambda>d.
          let byInstance = by_instance (ds_instanceID d) locations pending in
          for_each (ce_order C (map fst byInstance)) (\<lambda>inst.
            publish_delivery C (ds_publisher d) inst (the (map_of byInstance inst)) mb dedupKey))))"

definition Deliver :: "('d, 'r) chat_env \<Rightarrow> uuid list \<Rightarrow> MessageBack \<Rightarrow> string \<Rightarrow> ('d, 'r, 'e, unit) chat_act" where
  "Deliver C targets mb dedupKey =
     (if targets = [] then ret ()
      else bnd (gets Enabled) (\<lambda>enabled.
      if \<not> enabled then for_each targets (\<lambda>t. bnd (deliverLocal C t mb) (\<lambda>_. ret ()))
      else bnd (gets (\<lambda>w t. client_of w t \<noteq> None)) (\<lambda>here.
        let named = filter (\<lambda>t. t \<noteq> []) targets in
        bnd (for_each (filter here named) (\<lambda>t. bnd (deliverLocal C t mb) (\<lambda>_. ret ()))) (\<lambda>_.
        deliver_remote C (filter (\<lambda>t. \<not> here t) named) mb dedupKey))))"

section \<open>Deliveries from other instances\<close>

definition dedup_key :: "string \<Rightarrow> uuid \<Rightarrow> string" where
  "dedup_key dedupKey target = dedupKey @ ''|'' @ target"

text \<open>The table of \<open>dedupSeenBefore\<close>: whether the delivery has been seen, and the table afterwards.\<close>

definition dedup_add :: "nat \<Rightarrow> string \<Rightarrow> time \<Rightarrow> (string \<times> time) list \<Rightarrow> (string \<times> time) list" where
  "dedup_add limit key now seen =
     (let seen' = AList.update key now seen in
      if limit < length seen' then filter (\<lambda>(_, seenAt). \<not> dedupTTL \<le> now - seenAt) seen' else seen')"

definition dedup_table :: "nat \<Rightarrow> string \<Rightarrow> time \<Rightarrow> (string \<times> time) list \<Rightarrow> bool \<times> (string \<times> time) list" where
  "dedup_table limit key now seen =
     (case map_of seen key of
        Some seenAt \<Rightarrow> if now - seenAt < dedupTTL then (True, seen) else (False, dedup_add limit key now seen)
      | None \<Rightarrow> (False, dedup_add limit key now seen))"

definition dedupSeenBefore :: "('d, 'r) chat_env \<Rightarrow> string \<Rightarrow> uuid \<Rightarrow> ('d, 'r, 'e, bool) chat_act" where
  "dedupSeenBefore C dedupKey target =
     (if dedupKey = [] then ret False
      else bnd (gets (\<lambda>w. dedup_table dedupHardLimit (dedup_key dedupKey target) (ce_now C) (ds_dedupSeen (ch_distributor w)))) (\<lambda>(b, seen).
        bnd (modify (\<lambda>w. w\<lparr>ch_distributor := (ch_distributor w)\<lparr>ds_dedupSeen := seen\<rparr>\<rparr>)) (\<lambda>_. ret b)))"

definition DeliverLocalBatch :: "('d, 'r) chat_env \<Rightarrow> DeliveryMessage option \<Rightarrow> ('d, 'r, 'e, unit) chat_act" where
  "DeliverLocalBatch C dm =
     (case dm of
        None \<Rightarrow> ret ()
      | Some d \<Rightarrow>
          if dm_Targets d = [] then ret ()
          else bnd (count (\<lambda>m. m\<lparr>crossNodeReceived := crossNodeReceived m + 1\<rparr>)) (\<lambda>_.
            for_each (dm_Targets d) (\<lambda>t.
              bnd (dedupSeenBefore C (dm_DedupKey d) t) (\<lambda>dup.
              if dup then count (\<lambda>m. m\<lparr>crossNodeDedupDropped := crossNodeDedupDropped m + 1\<rparr>)
              else bnd (deliverLocal C t \<lparr>mb_Message = dm_Payload d, mb_Uuid = dm_DedupKey d\<rparr>) (\<lambda>_. ret ())))))"

section \<open>Fan-out\<close>

definition shard :: "nat \<Rightarrow> uuid \<Rightarrow> nat" where
  "shard workers groupId = unat (fnv32a groupId) mod workers"

text \<open>The \<open>select\<close> of \<open>Submit\<close>: after \<open>Close\<close> the task may be dropped or still be queued (\<open>late\<close>).\<close>

definition Submit :: "bool \<Rightarrow> uuid \<Rightarrow> MessageBack \<Rightarrow> ('d, 'r, 'e, unit) chat_act" where
  "Submit late groupId mb =
     bnd (gets ch_fanout) (\<lambda>fe.
     let worker = shard (length (fx_workers fe)) groupId in
     case try_send (fx_workers fe ! worker) \<lparr>ft_groupId = groupId, ft_messageBack = mb\<rparr> of
       Some q \<Rightarrow>
         if fx_quit fe \<and> late then ret ()
         else modify (\<lambda>w. w\<lparr>ch_fanout := (ch_fanout w)\<lparr>fx_workers := (fx_workers (ch_fanout w))[worker := q]\<rparr>\<rparr>)
     | None \<Rightarrow>
         if fx_quit fe then ret ()
         else count (\<lambda>m. m\<lparr>fanoutQueueDrops := fanoutQueueDrops m + 1\<rparr>))"

definition fanout :: "('d, 'r) chat_env \<Rightarrow> fanoutTask \<Rightarrow> ('d, 'r, 'e, unit) chat_act" where
  "fanout C task =
     attempt (stored (chat_getActiveGroupMemberIDs (ce_env C) (ft_groupId task))) (\<lambda>r. case r of
       Inl _ \<Rightarrow> ret ()
     | Inr ids \<Rightarrow> Deliver C ids (ft_messageBack task) (mb_Uuid (ft_messageBack task)))"

text \<open>A round of the worker \<open>i\<close>: \<open>quits\<close> is the choice of the closed \<open>quit\<close>; the result says whether
  the loop goes on, and \<open>None\<close> that no branch is ready.\<close>

definition fanout_worker :: "('d, 'r) chat_env \<Rightarrow> nat \<Rightarrow> bool \<Rightarrow> ('d, 'r, 'e, bool) chat_act" where
  "fanout_worker C i quits w =
     (if quits then (if fx_quit (ch_fanout w) then Some (Inr False, w) else None)
      else (case try_recv (fx_workers (ch_fanout w) ! i) of
              None \<Rightarrow> None
            | Some (task, q) \<Rightarrow>
                bnd (fanout C task) (\<lambda>_. ret True)
                  (w\<lparr>ch_fanout := (ch_fanout w)\<lparr>fx_workers := (fx_workers (ch_fanout w))[i := q]\<rparr>\<rparr>)))"

definition fanout_Close :: "('d, 'r, 'e, unit) chat_act" where
  "fanout_Close = modify (\<lambda>w. w\<lparr>ch_fanout := (ch_fanout w)\<lparr>fx_quit := True\<rparr>\<rparr>)"

end
