(* ===== verification/Message_Batch.thy ===== *)
theory Message_Batch
  imports Chat_State
begin

text \<open>
  \<open>chat/message_batch.go\<close>: the writer that collects messages and inserts them in batches. A call of
  \<open>Enqueue\<close> gets a number for its result channel. A flush runs without the mutex, so that other
  calls come between its parts: it takes the buffer (\<open>begin_flush\<close>), tries to insert
  (\<open>flush_attempt\<close>) and answers. \<open>batch_step\<close> is any interleaving of calls, ticks and tries.
\<close>

section \<open>Operations\<close>

abbreviation batchFlushSize :: nat where "batchFlushSize \<equiv> 50"
abbreviation maxFlushRetries :: nat where "maxFlushRetries \<equiv> 3"

definition at_batch :: "(MessageBatchWriter \<Rightarrow> MessageBatchWriter) \<Rightarrow> ('d, 'r) chat \<Rightarrow> ('d, 'r) chat" where
  "at_batch f w = w\<lparr>ch_batch := f (ch_batch w)\<rparr>"

definition ensureStarted :: "('d, 'r, 'e, unit) chat_act" where
  "ensureStarted = modify (at_batch (\<lambda>b. if bw_started b \<or> bw_closed b then b else b\<lparr>bw_started := True\<rparr>))"

text \<open>\<open>Clauses(OnConflict{DoNothing: true})\<close>; GORM wraps more than one batch into a transaction.\<close>

definition insert_ignore :: "('d, 'r) env \<Rightarrow> Message list \<Rightarrow> ('d, 'r, go_error, unit) svc" where
  "insert_ignore E ms = on_db (db_insert_ignore (e_db E) (map RMessage ms))"

function chunks :: "nat \<Rightarrow> 'a list \<Rightarrow> 'a list list" where
  "chunks k xs = (if xs = [] then [] else if k = 0 then [xs] else take k xs # chunks k (drop k xs))"
  by auto
termination by (relation "measure (length \<circ> snd)") auto

declare chunks.simps [simp del]

definition CreateInBatches :: "('d, 'r) env \<Rightarrow> Message list \<Rightarrow> nat \<Rightarrow> ('d, 'r, go_error, unit) svc" where
  "CreateInBatches E ms k =
     (if length ms \<le> k then insert_ignore E ms
      else transaction E (for_each (chunks k ms) (insert_ignore E)))"

definition send_done :: "nat \<Rightarrow> go_error option \<Rightarrow> ('d, 'r, 'e, unit) chat_act" where
  "send_done i err = modify (at_batch (\<lambda>b. b\<lparr>bw_answers := bw_answers b @ [(i, err)]\<rparr>))"

definition completeBatch :: "(Message \<times> nat) list \<Rightarrow> go_error option \<Rightarrow> ('d, 'r, 'e, unit) chat_act" where
  "completeBatch batch err = for_each batch (\<lambda>(_, i). send_done i err)"

definition new_done :: "('d, 'r, 'e, nat) chat_act" where
  "new_done = bnd (gets (\<lambda>w. bw_nextDone (ch_batch w))) (\<lambda>i.
     bnd (modify (at_batch (\<lambda>b. b\<lparr>bw_nextDone := Suc i\<rparr>))) (\<lambda>_. ret i))"

text \<open>\<open>Enqueue\<close> gives the result channel, and whether it starts a goroutine that flushes.\<close>

definition Enqueue :: "('d, 'r) chat_env \<Rightarrow> Message \<Rightarrow> ('d, 'r, 'e, nat \<times> bool) chat_act" where
  "Enqueue C msg =
     bnd ensureStarted (\<lambda>_.
     bnd new_done (\<lambda>i.
     bnd (gets ch_batch) (\<lambda>b.
     if bw_closed b then
       attempt (stored (insert_ignore (ce_env C) [msg])) (\<lambda>r.
       bnd (send_done i (case r of Inl e \<Rightarrow> Some e | Inr _ \<Rightarrow> None)) (\<lambda>_. ret (i, False)))
     else
       bnd (modify (at_batch (\<lambda>b. b\<lparr>bw_buffer := bw_buffer b @ [(msg, i)], bw_totalEnqueued := bw_totalEnqueued b + 1\<rparr>))) (\<lambda>_.
       ret (i, batchFlushSize \<le> length (bw_buffer b) + 1)))))"

definition begin_flush :: "('d, 'r, 'e, bool) chat_act" where
  "begin_flush =
     bnd (gets ch_batch) (\<lambda>b.
     if bw_flushing b \<or> bw_buffer b = [] then ret False
     else bnd (modify (at_batch (\<lambda>b. b\<lparr>bw_flushing := True, bw_inflight := bw_buffer b, bw_buffer := []\<rparr>))) (\<lambda>_. ret True))"

definition end_flush :: "('d, 'r, 'e, unit) chat_act" where
  "end_flush = modify (at_batch (\<lambda>b. b\<lparr>bw_flushing := False, bw_inflight := []\<rparr>))"

text \<open>A round of the loop of \<open>flush\<close>; the result says whether the flush has ended.\<close>

definition flush_attempt :: "('d, 'r) chat_env \<Rightarrow> nat \<Rightarrow> ('d, 'r, 'e, bool) chat_act" where
  "flush_attempt C k =
     bnd (gets (\<lambda>w. bw_inflight (ch_batch w))) (\<lambda>batch.
     attempt (stored (CreateInBatches (ce_env C) (map fst batch) batchFlushSize)) (\<lambda>r. case r of
       Inr _ \<Rightarrow>
         bnd (modify (at_batch (\<lambda>b. b\<lparr>bw_totalFlushed := bw_totalFlushed b + int (length batch),
           bw_totalFlushes := bw_totalFlushes b + 1\<rparr>))) (\<lambda>_.
         bnd (completeBatch batch None) (\<lambda>_.
         bnd end_flush (\<lambda>_. ret True)))
     | Inl err \<Rightarrow>
         if k = maxFlushRetries - 1 then
           bnd (modify (at_batch (\<lambda>b. b\<lparr>bw_totalErrors := bw_totalErrors b + int (length batch)\<rparr>))) (\<lambda>_.
           bnd (count (\<lambda>m. m\<lparr>batchFlushErrors := batchFlushErrors m + 1\<rparr>)) (\<lambda>_.
           bnd (completeBatch batch (Some err)) (\<lambda>_.
           bnd end_flush (\<lambda>_. ret True))))
         else ret False))"

fun flush_attempts :: "('d, 'r) chat_env \<Rightarrow> nat \<Rightarrow> nat \<Rightarrow> ('d, 'r, 'e, unit) chat_act" where
  "flush_attempts C 0 k = ret ()"
| "flush_attempts C (Suc n) k = bnd (flush_attempt C k) (\<lambda>ended. if ended then ret () else flush_attempts C n (Suc k))"

definition flush :: "('d, 'r) chat_env \<Rightarrow> ('d, 'r, 'e, unit) chat_act" where
  "flush C = bnd begin_flush (\<lambda>b. if b then flush_attempts C maxFlushRetries 0 else ret ())"

text \<open>\<open>Flush\<close> waits until nothing is buffered or flushed; what the others do while it waits is
  \<open>ce_sched\<close>, the number of rounds is bounded by \<open>fuel\<close>.\<close>

fun Flush_loop :: "('d, 'r) chat_env \<Rightarrow> nat \<Rightarrow> ('d, 'r, 'e, unit) chat_act" where
  "Flush_loop C 0 = (\<lambda>_. None)"
| "Flush_loop C (Suc fuel) =
     bnd (gets ch_batch) (\<lambda>b.
     if bw_buffer b = [] \<and> \<not> bw_flushing b then ret ()
     else bnd (if bw_flushing b then modify (ce_sched C) else flush C) (\<lambda>_. Flush_loop C fuel))"

definition Flush :: "('d, 'r) chat_env \<Rightarrow> nat \<Rightarrow> ('d, 'r, 'e, unit) chat_act" where
  "Flush C fuel = bnd ensureStarted (\<lambda>_. Flush_loop C fuel)"

text \<open>\<open>Shutdown\<close> up to its own flush; the result says whether that flush follows.\<close>

definition shutdown_close :: "('d, 'r, 'e, bool) chat_act" where
  "shutdown_close =
     bnd (gets ch_batch) (\<lambda>b.
     if \<not> bw_started b \<or> bw_closed b then ret False
     else bnd (modify (at_batch (\<lambda>b. b\<lparr>bw_closed := True\<rparr>))) (\<lambda>_. ret True))"

definition Shutdown :: "('d, 'r) chat_env \<Rightarrow> ('d, 'r, 'e, unit) chat_act" where
  "Shutdown C = bnd shutdown_close (\<lambda>b. if b then flush C else ret ())"

definition Stats :: "('d, 'r, 'e, int \<times> int \<times> int \<times> int) chat_act" where
  "Stats = gets (\<lambda>w. let b = ch_batch w in (bw_totalEnqueued b, bw_totalFlushed b, bw_totalFlushes b, bw_totalErrors b))"

section \<open>Interleavings\<close>

text \<open>\<open>wr_attempt\<close> is the counter of the flush that runs, \<open>wr_calls\<close> the number of calls of \<open>flush\<close> that
  have been started (\<open>go bw.flush()\<close>, the one of \<open>Shutdown\<close>, and the ticker's where it begins only after something
  else, a \<open>Shutdown\<close> perhaps) and have not begun, \<open>wr_log\<close> the
  messages that were enqueued, with their result channels.\<close>

record ('d, 'r) writer =
  wr_chat :: "('d, 'r) chat"
  wr_attempt :: nat
  wr_calls :: nat
  wr_log :: "(Message \<times> nat) list"

abbreviation wr_batch :: "('d, 'r) writer \<Rightarrow> MessageBatchWriter" where
  "wr_batch s \<equiv> ch_batch (wr_chat s)"

inductive batch_step :: "('d, 'r) chat_env \<Rightarrow> ('d, 'r) writer \<Rightarrow> ('d, 'r) writer \<Rightarrow> bool" for C where
  enqueue: "ends (Enqueue C m) (wr_chat s) (i, go) w \<Longrightarrow>
    batch_step C s (s\<lparr>wr_chat := w, wr_log := wr_log s @ [(m, i)], wr_calls := wr_calls s + (if go then 1 else 0)\<rparr>)"
| tick: "bw_started (wr_batch s) \<Longrightarrow> \<not> bw_closed (wr_batch s) \<Longrightarrow> ends begin_flush (wr_chat s) b w \<Longrightarrow>
    batch_step C s (s\<lparr>wr_chat := w, wr_attempt := (if b then 0 else wr_attempt s)\<rparr>)"
| fire: "bw_started (wr_batch s) \<Longrightarrow> \<not> bw_closed (wr_batch s) \<Longrightarrow> batch_step C s (s\<lparr>wr_calls := Suc (wr_calls s)\<rparr>)"
| call: "0 < wr_calls s \<Longrightarrow> ends begin_flush (wr_chat s) b w \<Longrightarrow>
    batch_step C s (s\<lparr>wr_chat := w, wr_calls := wr_calls s - 1, wr_attempt := (if b then 0 else wr_attempt s)\<rparr>)"
| attempt: "bw_flushing (wr_batch s) \<Longrightarrow> ends (flush_attempt C (wr_attempt s)) (wr_chat s) e w \<Longrightarrow>
    batch_step C s (s\<lparr>wr_chat := w, wr_attempt := Suc (wr_attempt s)\<rparr>)"
| shutdown: "ends shutdown_close (wr_chat s) b w \<Longrightarrow>
    batch_step C s (s\<lparr>wr_chat := w, wr_calls := wr_calls s + (if b then 1 else 0)\<rparr>)"

definition new_writer :: "('d, 'r) stores \<Rightarrow> ('d, 'r) writer" where
  "new_writer s = \<lparr>wr_chat = NewMessageProcessor s, wr_attempt = 0, wr_calls = 0, wr_log = []\<rparr>"

end
