(* ===== verification/Message_Processor.thy ===== *)
theory Message_Processor
  imports Distribution Message_Batch Message_Service Session_Router Random_Ids
begin

text \<open>
  \<open>chat/message_processor.go\<close>: what becomes of a message that a client sent. It is read, put into the
  batch writer (and waited for, when the sender of the message must know), handed to the
  distributor or to the fan-out, and a task for the cache worker is queued. \<open>strconv.ParseFloat\<close> is
  an argument, with the multiplication that follows it. What the other goroutines do while the
  result of the batch writer is awaited is \<open>ce_sched\<close>.
\<close>

section \<open>Sizes and paths\<close>

definition size_suffixes :: "(string \<times> int) list" where
  "size_suffixes = [(''GB'', 1024 * 1024 * 1024), (''MB'', 1024 * 1024), (''KB'', 1024), (''B'', 1)]"

text \<open>The first suffix whose number parses counts; \<open>scaled t m\<close> is \<open>int64(f * float64(m))\<close> for the
  float \<open>f\<close> that \<open>t\<close> stands for.\<close>

fun suffixed_size :: "(string \<Rightarrow> int \<Rightarrow> int option) \<Rightarrow> string \<Rightarrow> (string \<times> int) list \<Rightarrow> int" where
  "suffixed_size scaled s [] = 0"
| "suffixed_size scaled s ((sfx, unit_bytes) # rest) =
     (if has_suffix (to_upper s) sfx then
        (case scaled (trim_space (take (length s - length sfx) s)) unit_bytes of
           Some n \<Rightarrow> n | None \<Rightarrow> suffixed_size scaled s rest)
      else suffixed_size scaled s rest)"

definition parseFileSize :: "(string \<Rightarrow> int \<Rightarrow> int option) \<Rightarrow> string \<Rightarrow> int" where
  "parseFileSize scaled s0 =
     (let s = trim_space s0 in
      if s = [] then 0
      else (case parse_int 64 s of Some n \<Rightarrow> n | None \<Rightarrow> suffixed_size scaled s size_suffixes))"

definition default_url :: string where
  "default_url = ''https://cube.elemecdn.com/0/88/03b0d39583f48206768a7534e55bcpng.png''"

definition normalizePath :: "string \<Rightarrow> string" where
  "normalizePath path =
     (if path = default_url then path
      else (case str_index path ''/static/'' of
              None \<Rightarrow> ''/static/default-avatar.png''
            | Some i \<Rightarrow> drop i path))"

section \<open>The message\<close>

datatype proc_error =
    ParseMessage
  | UnknownType int
  | AVTooLong
  | ParseAV
  | ReceiverRequired
  | PersistFailed go_error
  | PersistTimeout

definition resolveMessageUUID :: "('d, 'r) chat_env \<Rightarrow> string \<Rightarrow> uuid" where
  "resolveMessageUUID C msgID =
     (if msgID \<noteq> [] then msgID else CHR ''M'' # GetNowAndLenRandomString (ce_tz C) (ce_now C) (ce_rand C) 11)"

definition new_message :: "('d, 'r) chat_env \<Rightarrow> string \<Rightarrow> ChatMessageRequest \<Rightarrow> Message" where
  "new_message C msgID req =
     \<lparr>ms_id = 0, ms_uuid = resolveMessageUUID C msgID, ms_session_id = SessionId req, ms_type = Type req,
      ms_content = [], ms_url = [], ms_send_id = SendId req, ms_send_name = SendName req,
      ms_send_avatar = SendAvatar req, ms_receive_id = ReceiveId req, ms_file_type = [], ms_file_name = [],
      ms_file_size = [], ms_file_size_bytes = 0, ms_status = message_Unsent, ms_read_status = 0,
      ms_read_at = None, ms_created_at = ce_now C, ms_send_at = None, ms_av_data = [], ms_deleted_at = None\<rparr>"

definition text_message :: "('d, 'r) chat_env \<Rightarrow> string \<Rightarrow> ChatMessageRequest \<Rightarrow> Message" where
  "text_message C msgID req = (new_message C msgID req)
     \<lparr>ms_content := Content req, ms_file_size := ''0B'', ms_send_avatar := normalizePath (SendAvatar req)\<rparr>"

definition file_message :: "('d, 'r) chat_env \<Rightarrow> (string \<Rightarrow> int \<Rightarrow> int option) \<Rightarrow> string \<Rightarrow> ChatMessageRequest \<Rightarrow> Message" where
  "file_message C scaled msgID req = (new_message C msgID req)
     \<lparr>ms_url := Url req, ms_file_size := FileSize req,
      ms_file_size_bytes := (if FileSizeBytes req \<le> 0 \<and> FileSize req \<noteq> [] then parseFileSize scaled (FileSize req) else FileSizeBytes req),
      ms_file_type := FileType req, ms_file_name := FileName req, ms_send_avatar := normalizePath (SendAvatar req)\<rparr>"

definition persistMessage :: "('d, 'r) chat_env \<Rightarrow> context_t \<Rightarrow> Message \<Rightarrow> bool \<Rightarrow> ('d, 'r, proc_error, unit) chat_act" where
  "persistMessage C ctx message wait =
     bnd (Enqueue C message) (\<lambda>(i, _).
     if \<not> wait then ret ()
     else bnd (modify (ce_sched C)) (\<lambda>_.
          bnd (gets (\<lambda>w. map_of (bw_answers (ch_batch w)) i)) (\<lambda>a.
          case (if ce_late C i \<and> ctx \<noteq> Background then None else a) of
            Some None \<Rightarrow> ret ()
          | Some (Some e) \<Rightarrow> throw (PersistFailed e)
          | None \<Rightarrow> (case ctx of Deadline _ \<Rightarrow> throw PersistTimeout | Background \<Rightarrow> (\<lambda>_. None)))))"

section \<open>Forwarding\<close>

definition enqueueCacheTask :: "cache_task \<Rightarrow> ('d, 'r, 'e, unit) chat_act" where
  "enqueueCacheTask task =
     bnd (gets (\<lambda>w. if ch_stopCache w then None else try_send (ch_cacheTasks w) task)) (\<lambda>q. case q of
       Some c \<Rightarrow> modify (\<lambda>w. w\<lparr>ch_cacheTasks := c\<rparr>)
     | None \<Rightarrow> count (\<lambda>m. m\<lparr>cacheQueueDrops := cacheQueueDrops m + 1\<rparr>))"

text \<open>The answers leave out the primary key and the size in bytes.\<close>

definition group_rsp :: "time \<Rightarrow> Message \<Rightarrow> string \<Rightarrow> MessageRespond" where
  "group_rsp tz m rawAvatar = (message_respond tz m)\<lparr>rsp_Id := 0, rsp_SendAvatar := rawAvatar, rsp_FileSizeBytes := 0\<rparr>"

definition user_rsp :: "time \<Rightarrow> Message \<Rightarrow> string \<Rightarrow> GetMessageListRespond" where
  "user_rsp tz m rawAvatar = MessageRespond.extend (group_rsp tz m rawAvatar) \<lparr>rsp_ReadStatus = 0\<rparr>"

definition forwardToUser :: "('d, 'r) chat_env \<Rightarrow> Message \<Rightarrow> string \<Rightarrow> ('d, 'r, 'e, unit) chat_act" where
  "forwardToUser C m rawAvatar =
     (let rsp = user_rsp (ce_tz C) m rawAvatar in
      bnd (Deliver C [ms_receive_id m, ms_send_id m]
        \<lparr>mb_Message = json_print (user_respond_json rsp), mb_Uuid = ms_uuid m\<rparr> (ms_uuid m)) (\<lambda>_.
      enqueueCacheTask (CacheUser m rsp)))"

definition forwardToGroup :: "('d, 'r) chat_env \<Rightarrow> Message \<Rightarrow> string \<Rightarrow> ('d, 'r, 'e, unit) chat_act" where
  "forwardToGroup C m rawAvatar =
     (let rsp = group_rsp (ce_tz C) m rawAvatar in
      bnd (Submit (ce_late C 0) (ms_receive_id m) \<lparr>mb_Message = json_print (group_respond_json rsp), mb_Uuid = ms_uuid m\<rparr>) (\<lambda>_.
      enqueueCacheTask (CacheGroup m rsp)))"

definition forward :: "('d, 'r) chat_env \<Rightarrow> Message \<Rightarrow> string \<Rightarrow> ('d, 'r, proc_error, unit) chat_act" where
  "forward C m rawAvatar =
     (if ms_receive_id m = [] then throw ReceiverRequired
      else if hd (ms_receive_id m) = CHR ''U'' then forwardToUser C m rawAvatar
      else if hd (ms_receive_id m) = CHR ''G'' then forwardToGroup C m rawAvatar
      else ret ())"

section \<open>Processing\<close>

definition processText ::
  "('d, 'r) chat_env \<Rightarrow> context_t \<Rightarrow> string \<Rightarrow> ChatMessageRequest \<Rightarrow> bool \<Rightarrow> ('d, 'r, proc_error, unit) chat_act" where
  "processText C ctx msgID req wait =
     (let m = text_message C msgID req in
      bnd (persistMessage C ctx m wait) (\<lambda>_. forward C m (SendAvatar req)))"

definition processFile ::
  "('d, 'r) chat_env \<Rightarrow> (string \<Rightarrow> int \<Rightarrow> int option) \<Rightarrow> context_t \<Rightarrow> string \<Rightarrow> ChatMessageRequest \<Rightarrow> bool \<Rightarrow>
   ('d, 'r, proc_error, unit) chat_act" where
  "processFile C scaled ctx msgID req wait =
     (let m = file_message C scaled msgID req in
      bnd (persistMessage C ctx m wait) (\<lambda>_. forward C m (SendAvatar req)))"

abbreviation maxAVDataSize :: nat where "maxAVDataSize \<equiv> 64 * 1024"

definition call_signal :: "AVData \<Rightarrow> bool" where
  "call_signal av \<longleftrightarrow> MessageId av = ''PROXY'' \<and> AVType av \<in> {''start_call'', ''receive_call'', ''reject_call''}"

definition av_rsp :: "time \<Rightarrow> Message \<Rightarrow> AVMessageRespond" where
  "av_rsp tz m = MessageRespond.extend ((message_respond tz m)\<lparr>rsp_Id := 0\<rparr>) \<lparr>rsp_AVdata = ms_av_data m\<rparr>"

text \<open>Only the signals that start, accept or refuse a call are saved; the avatar is normalised
  only for them.\<close>

definition processAudioOrVideo ::
  "('d, 'r) chat_env \<Rightarrow> context_t \<Rightarrow> string \<Rightarrow> ChatMessageRequest \<Rightarrow> bool \<Rightarrow> ('d, 'r, proc_error, unit) chat_act" where
  "processAudioOrVideo C ctx msgID req wait =
     (if maxAVDataSize < length (AVdata req) then throw AVTooLong
      else (case decode_av_data (AVdata req) of
        (_, True) \<Rightarrow> throw ParseAV
      | (av, False) \<Rightarrow>
          let m0 = (new_message C msgID req)\<lparr>ms_av_data := AVdata req\<rparr>;
              m = (if call_signal av then m0\<lparr>ms_send_avatar := normalizePath (SendAvatar req)\<rparr> else m0) in
          bnd (if call_signal av then persistMessage C ctx m wait else ret ()) (\<lambda>_.
          if ms_receive_id m = [] then throw ReceiverRequired
          else if hd (ms_receive_id m) = CHR ''U'' then
            Deliver C [ms_receive_id m]
              \<lparr>mb_Message = json_print (av_respond_json (av_rsp (ce_tz C) m)), mb_Uuid = ms_uuid m\<rparr> (ms_uuid m)
          else ret ())))"

definition processMessage ::
  "('d, 'r) chat_env \<Rightarrow> (string \<Rightarrow> int \<Rightarrow> int option) \<Rightarrow> context_t \<Rightarrow> string \<Rightarrow> bytes \<Rightarrow> bool \<Rightarrow>
   ('d, 'r, proc_error, unit) chat_act" where
  "processMessage C scaled ctx msgID data wait =
     (case decode_request data of
        (_, True) \<Rightarrow> throw ParseMessage
      | (req, False) \<Rightarrow>
          if Type req = type_Text then processText C ctx msgID req wait
          else if Type req = type_File then processFile C scaled ctx msgID req wait
          else if Type req = type_AudioOrVideo then processAudioOrVideo C ctx msgID req wait
          else throw (UnknownType (Type req)))"

definition ProcessMessage ::
  "('d, 'r) chat_env \<Rightarrow> (string \<Rightarrow> int \<Rightarrow> int option) \<Rightarrow> bytes \<Rightarrow> ('d, 'r, proc_error, unit) chat_act" where
  "ProcessMessage C scaled data = processMessage C scaled Background [] data False"

definition ProcessMessageAndWait ::
  "('d, 'r) chat_env \<Rightarrow> (string \<Rightarrow> int \<Rightarrow> int option) \<Rightarrow> context_t \<Rightarrow> bytes \<Rightarrow> ('d, 'r, proc_error, unit) chat_act" where
  "ProcessMessageAndWait C scaled ctx data = processMessage C scaled ctx [] data True"

definition ProcessEnvelope ::
  "('d, 'r) chat_env \<Rightarrow> (string \<Rightarrow> int \<Rightarrow> int option) \<Rightarrow> context_t \<Rightarrow> string \<Rightarrow> bytes \<Rightarrow> bool \<Rightarrow>
   ('d, 'r, proc_error, unit) chat_act" where
  "ProcessEnvelope C scaled ctx msgID data wait = processMessage C scaled ctx msgID data wait"

section \<open>The cache worker\<close>

definition lookupReceiveInfo :: "('d, 'r) env \<Rightarrow> uuid \<Rightarrow> ('d, 'r, 'e, string \<times> string) svc" where
  "lookupReceiveInfo E receiveId =
     (if receiveId = [] then ret ([], [])
      else if hd receiveId = CHR ''U'' then
        attempt (First E users (\<lambda>u. ui_uuid u = receiveId)) (\<lambda>r. ret (case r of Inl _ \<Rightarrow> ([], []) | Inr u \<Rightarrow> (ui_nickname u, ui_avatar u)))
      else
        attempt (First E groups (\<lambda>g. gi_uuid g = receiveId)) (\<lambda>r. ret (case r of Inl _ \<Rightarrow> ([], []) | Inr g \<Rightarrow> (gi_name g, gi_avatar g))))"

definition updateSessionLastMessage :: "('d, 'r) env \<Rightarrow> time \<Rightarrow> int \<Rightarrow> uuid \<Rightarrow> uuid \<Rightarrow> Message \<Rightarrow> ('d, 'r, 'e, unit) svc" where
  "updateSessionLastMessage E tz rnd sendId receiveId m =
     attempt (First E sessions (\<lambda>s. se_send_id s = sendId \<and> se_receive_id s = receiveId)) (\<lambda>r. case r of
       Inl NotFound \<Rightarrow>
         bnd (lookupReceiveInfo E receiveId) (\<lambda>(name, avatar).
         logged (Create E sessions
           ((new_session \<lparr>sq_SendId = sendId, sq_ReceiveId = receiveId\<rparr>
              (CHR ''S'' # GetNowAndLenRandomString tz (e_now E) rnd 11) name avatar (e_now E))
            \<lparr>se_last_message := ms_content m, se_last_message_at := Some (e_now E)\<rparr>)))
     | Inl _ \<Rightarrow> ret ()
     | Inr _ \<Rightarrow>
         bnd (logged (Updates E sessions (\<lambda>s. se_send_id s = sendId \<and> se_receive_id s = receiveId)
           (\<lambda>s. s\<lparr>se_last_message := ms_content m, se_last_message_at := Some (e_now E)\<rparr>))) (\<lambda>_.
         logged (DelIfExists E (session_key \<lparr>sq_SendId = sendId, sq_ReceiveId = receiveId\<rparr>))))"

definition append_cached ::
  "('d, 'r) env \<Rightarrow> (string \<times> 's setter) list \<Rightarrow> 's \<Rightarrow> ('s \<Rightarrow> json) \<Rightarrow> string \<Rightarrow> 's \<Rightarrow> ('d, 'r, 'e, unit) svc" where
  "append_cached E fs z enc key rsp =
     attempt (GetCache E key) (\<lambda>r. case r of
       Inl _ \<Rightarrow> ret ()
     | Inr s \<Rightarrow> logged (SetCache E key (marshal_list enc (unmarshal_list fs z s @ [rsp])) redis_timeout))"

definition updateUserMessageCache :: "('d, 'r) env \<Rightarrow> time \<Rightarrow> int \<Rightarrow> Message \<Rightarrow> GetMessageListRespond \<Rightarrow> ('d, 'r, 'e, unit) svc" where
  "updateUserMessageCache E tz rnd m rsp =
     bnd (for_each [message_list_key (ms_send_id m) (ms_receive_id m), message_list_key (ms_receive_id m) (ms_send_id m)]
       (\<lambda>key. append_cached E user_respond_fields zero_user_respond user_respond_json key rsp)) (\<lambda>_.
     bnd (updateSessionLastMessage E tz rnd (ms_send_id m) (ms_receive_id m) m) (\<lambda>_.
     updateSessionLastMessage E tz rnd (ms_receive_id m) (ms_send_id m) m))"

definition updateGroupMessageCache :: "('d, 'r) env \<Rightarrow> time \<Rightarrow> int \<Rightarrow> Message \<Rightarrow> MessageRespond \<Rightarrow> ('d, 'r, 'e, unit) svc" where
  "updateGroupMessageCache E tz rnd m rsp =
     bnd (append_cached E respond_fields zero_respond group_respond_json (group_message_list_key (ms_receive_id m)) rsp) (\<lambda>_.
     updateSessionLastMessage E tz rnd (ms_send_id m) (ms_receive_id m) m)"

text \<open>A round of \<open>runCacheWorker\<close>; \<open>quits\<close> is the choice of the closed \<open>stopCache\<close>.\<close>

definition runCacheWorker :: "('d, 'r) chat_env \<Rightarrow> bool \<Rightarrow> ('d, 'r, 'e, bool) chat_act" where
  "runCacheWorker C quits w =
     (if quits then (if ch_stopCache w then Some (Inr False, w) else None)
      else (case try_recv (ch_cacheTasks w) of
              None \<Rightarrow> None
            | Some (task, q) \<Rightarrow>
                bnd (stored (case task of
                    CacheUser m rsp \<Rightarrow> updateUserMessageCache (ce_env C) (ce_tz C) (ce_rand C) m rsp
                  | CacheGroup m rsp \<Rightarrow> updateGroupMessageCache (ce_env C) (ce_tz C) (ce_rand C) m rsp)) (\<lambda>_. ret True)
                  (w\<lparr>ch_cacheTasks := q\<rparr>)))"

definition processor_Close :: "('d, 'r, 'e, unit) chat_act" where
  "processor_Close = modify (\<lambda>w. w\<lparr>ch_stopCache := True\<rparr>)"

end
