(* ===== verification/Hybrid_Router.thy ===== *)
theory Hybrid_Router
  imports Message_Processor Session_Ring Backpressure
begin

text \<open>
  \<open>chat/hybrid_router.go\<close>: the router of the hybrid mode, which numbers the messages of each session,
  sends them through the channel or, under pressure, through Kafka, forwards them to the session's
  home instance, and consumes Kafka in batches; with \<open>SendToDLQ\<close> of \<open>kafka/kafka_service.go\<close>. The Kafka
  library is an argument. The counters of \<open>ChatMetrics\<close> that the session router increments are in
  \<open>sr_metrics\<close>, the others in \<open>ch_metrics\<close>: no counter is in both. Delays and log output are left out.
\<close>

section \<open>Kafka\<close>

record kafka_message =
  km_topic :: string
  km_partition :: int
  km_offset :: int
  km_key :: bytes
  km_value :: bytes
  km_headers :: "(string \<times> bytes) list"

text \<open>\<open>WriteMessages\<close> of the two writers, \<open>FetchMessage\<close> (\<open>None\<close>: it blocks; no message: an error) and
  \<open>CommitMessages\<close>; a Boolean result is whether the call succeeded.\<close>

record 'k kafka_client =
  kf_write :: "bytes \<Rightarrow> bytes \<Rightarrow> 'k \<Rightarrow> bool \<times> 'k"
  kf_fetch :: "'k \<Rightarrow> (kafka_message option \<times> 'k) option"
  kf_commit :: "kafka_message list \<Rightarrow> 'k \<Rightarrow> bool \<times> 'k"
  kf_dlq :: "kafka_message list \<Rightarrow> 'k \<Rightarrow> bool \<times> 'k"

record kafka_config =
  kc_DLQTopic :: string
  kc_MaxProcessRetries :: int

definition buildDLQMessages :: "kafka_message list \<Rightarrow> string \<Rightarrow> int \<Rightarrow> string \<Rightarrow> kafka_message list" where
  "buildDLQMessages original cause attempts failedAt =
     map (\<lambda>m. \<lparr>km_topic = [], km_partition = 0, km_offset = 0, km_key = km_key m, km_value = km_value m,
        km_headers = [(''origin_topic'', km_topic m), (''origin_partition'', itoa (km_partition m)),
          (''origin_offset'', itoa (km_offset m)), (''attempts'', itoa attempts),
          (''failed_at'', failedAt), (''cause'', cause)]\<rparr>) original"

section \<open>The router\<close>

record ('d, 'r, 'k) hybrid =
  hr_Transmit :: "bytes chan"
  hr_SessionRouter :: "('d, 'r) chat SessionRouter"
  hr_Detector :: BackpressureDetector
  hr_kafkaEnabled :: bool
  hr_kafkaQuit :: bool
  hr_kafka :: 'k
  hr_sessionRoutedToKafka :: "string list"
  hr_sessionRoutedAt :: "(string \<times> time) list"
  hr_sessionSeqNums :: "(string \<times> u64) list"
  hr_clusterEnabled :: bool
  hr_clusterQuit :: bool
  hr_instanceID :: string
  hr_presence :: presence_service
  hr_bus :: InstanceBus
  hr_affinityEnabled :: bool
  hr_ring :: "SessionRing option"

datatype hr_error =
    BadJson
  | NoSessionId
  | ChannelFull
  | KafkaWriteFailed
  | KafkaSticky string
  | BadEnvelope
  | DoubleClose

type_synonym ('d, 'r, 'k, 'e, 'a) hr_act = "(('d, 'r, 'k) hybrid, 'e, 'a) act"

abbreviation CHANNEL_SIZE :: nat where "CHANNEL_SIZE \<equiv> 4096"

abbreviation hr_chat :: "('d, 'r, 'k) hybrid \<Rightarrow> ('d, 'r) chat" where
  "hr_chat h \<equiv> sr_world (hr_SessionRouter h)"

definition new_hybrid :: "('d, 'r) stores \<Rightarrow> 'k \<Rightarrow> ('d, 'r, 'k) hybrid" where
  "new_hybrid s k =
     \<lparr>hr_Transmit = make_chan CHANNEL_SIZE,
      hr_SessionRouter = NewSessionRouter CHANNEL_SIZE zero_metrics (NewMessageProcessor s),
      hr_Detector = SetOverflowEndCallback (NewBackpressureDetector (int CHANNEL_SIZE * 4 div 5) 5),
      hr_kafkaEnabled = False, hr_kafkaQuit = False, hr_kafka = k,
      hr_sessionRoutedToKafka = [], hr_sessionRoutedAt = [], hr_sessionSeqNums = [],
      hr_clusterEnabled = False, hr_clusterQuit = False, hr_instanceID = [],
      hr_presence = presence_New [] 0, hr_bus = NewInstanceBus [] 0, hr_affinityEnabled = False, hr_ring = None\<rparr>"

text \<open>An action on the process, and one on Kafka.\<close>

definition on_chat :: "('d, 'r, 'e, 'a) chat_act \<Rightarrow> ('d, 'r, 'k, 'e, 'a) hr_act" where
  "on_chat m h = map_option (\<lambda>(r, w). (r, h\<lparr>hr_SessionRouter := (hr_SessionRouter h)\<lparr>sr_world := w\<rparr>\<rparr>)) (m (hr_chat h))"

definition on_kafka :: "('k \<Rightarrow> 'a \<times> 'k) \<Rightarrow> ('d, 'r, 'k, 'e, 'a) hr_act" where
  "on_kafka f h = (case f (hr_kafka h) of (a, k) \<Rightarrow> Some (Inr a, h\<lparr>hr_kafka := k\<rparr>))"

definition initKafka :: "('d, 'r, 'k, 'e, unit) hr_act" where
  "initKafka = modify (\<lambda>h. if hr_kafkaEnabled h then h else h\<lparr>hr_kafkaEnabled := True, hr_kafkaQuit := False\<rparr>)"

section \<open>Sending\<close>

definition getOrCreateSessionSeq :: "string \<Rightarrow> ('d, 'r, 'k, 'e, u64) hr_act" where
  "getOrCreateSessionSeq sessionId =
     bnd (gets (\<lambda>h. map_of (hr_sessionSeqNums h) sessionId)) (\<lambda>n. case n of
       Some n \<Rightarrow> ret n
     | None \<Rightarrow> bnd (modify (\<lambda>h. h\<lparr>hr_sessionSeqNums := AList.update sessionId 0 (hr_sessionSeqNums h)\<rparr>)) (\<lambda>_. ret 0))"

definition next_number :: "string \<Rightarrow> ('d, 'r, 'k, 'e, u64) hr_act" where
  "next_number sessionId =
     bnd (getOrCreateSessionSeq sessionId) (\<lambda>n.
     bnd (modify (\<lambda>h. h\<lparr>hr_sessionSeqNums := AList.update sessionId (n + 1) (hr_sessionSeqNums h)\<rparr>)) (\<lambda>_.
     ret (n + 1)))"

definition deriveMsgID :: "('d, 'r) chat_env \<Rightarrow> string \<Rightarrow> string \<Rightarrow> string" where
  "deriveMsgID C sendID clientMsgID =
     (if clientMsgID = [] then CHR ''M'' # GetNowAndLenRandomString (ce_tz C) (ce_now C) (ce_rand C) 11
      else CHR ''M'' # take 16 (sha256_hex (sendID @ ''|'' @ clientMsgID)))"

definition mark_sticky :: "time \<Rightarrow> string \<Rightarrow> ('d, 'r, 'k, 'e, unit) hr_act" where
  "mark_sticky now sid = modify (\<lambda>h.
     if sid \<in> set (hr_sessionRoutedToKafka h) then h
     else h\<lparr>hr_sessionRoutedToKafka := sid # hr_sessionRoutedToKafka h,
            hr_sessionRoutedAt := AList.update sid now (hr_sessionRoutedAt h)\<rparr>)"

abbreviation counted :: "(MessageMetrics \<Rightarrow> MessageMetrics) \<Rightarrow> ('d, 'r, 'k, 'e, unit) hr_act" where
  "counted f \<equiv> on_chat (count f)"

definition sendEnvelopeToKafka :: "('d, 'r) chat_env \<Rightarrow> 'k kafka_client \<Rightarrow> bytes \<Rightarrow> ('d, 'r, 'k, hr_error, unit) hr_act" where
  "sendEnvelopeToKafka C K envelopeData =
     (case decode_envelope envelopeData of
        (_, True) \<Rightarrow> throw BadEnvelope
      | (envelope, False) \<Rightarrow>
          let (sid, bad) = decode_session_id (Payload envelope);
              sessionId = (if bad then [] else sid);
              sessionKey = (if sessionId = [] then ''default'' else sessionId) in
          bnd (on_kafka (kf_write K sessionKey envelopeData)) (\<lambda>ok.
          if \<not> ok then throw KafkaWriteFailed
          else bnd (counted (\<lambda>m. m\<lparr>kafkaRouted := kafkaRouted m + 1\<rparr>)) (\<lambda>_.
               if sessionId \<noteq> [] then mark_sticky (ce_now C) sessionId else ret ())))"

definition sendToChannel :: "('d, 'r) chat_env \<Rightarrow> 'k kafka_client \<Rightarrow> bytes \<Rightarrow> ('d, 'r, 'k, hr_error, unit) hr_act" where
  "sendToChannel C K envelopeData =
     bnd (gets (\<lambda>h. (try_send (hr_Transmit h) envelopeData, hr_kafkaEnabled h))) (\<lambda>(q, kafka). case q of
       Some c \<Rightarrow> bnd (modify (\<lambda>h. h\<lparr>hr_Transmit := c\<rparr>)) (\<lambda>_. counted (\<lambda>m. m\<lparr>channelRouted := channelRouted m + 1\<rparr>))
     | None \<Rightarrow> if kafka then sendEnvelopeToKafka C K envelopeData else throw ChannelFull)"

text \<open>\<open>processLocal\<close> after the envelope has been made.\<close>

definition route :: "('d, 'r) chat_env \<Rightarrow> 'k kafka_client \<Rightarrow> string \<Rightarrow> bytes \<Rightarrow> ('d, 'r, 'k, hr_error, unit) hr_act" where
  "route C K sessionId envelopeData =
     bnd (gets (\<lambda>h. (sessionId \<in> set (hr_sessionRoutedToKafka h), IsOverflow (hr_Detector h), hr_kafkaEnabled h))) (\<lambda>(sticky, overflow, kafka).
     if (sticky \<or> overflow) \<and> kafka then
       bnd (if sticky then ret () else mark_sticky (ce_now C) sessionId) (\<lambda>_.
       bnd (on_kafka (kf_write K sessionId envelopeData)) (\<lambda>ok.
       if ok then counted (\<lambda>m. m\<lparr>kafkaRouted := kafkaRouted m + 1\<rparr>)
       else if sticky then throw (KafkaSticky sessionId)
       else sendToChannel C K envelopeData))
     else sendToChannel C K envelopeData)"

definition make_envelope :: "('d, 'r) chat_env \<Rightarrow> u64 \<Rightarrow> bytes \<Rightarrow> MessageEnvelope" where
  "make_envelope C seqNum data =
     (let (send_id, client_msg_id) = fst (decode_send_meta data)
      in \<lparr>SeqNum = seqNum, MsgID = deriveMsgID C send_id client_msg_id, Payload = data\<rparr>)"

definition processLocal :: "('d, 'r) chat_env \<Rightarrow> 'k kafka_client \<Rightarrow> string \<Rightarrow> bytes \<Rightarrow> ('d, 'r, 'k, hr_error, unit) hr_act" where
  "processLocal C K sessionId data =
     bnd (next_number sessionId) (\<lambda>seqNum. route C K sessionId (encode_envelope (make_envelope C seqNum data)))"

definition forwardSessionToHome ::
  "('d, 'r) chat_env \<Rightarrow> 'k kafka_client \<Rightarrow> string \<Rightarrow> string \<Rightarrow> bytes \<Rightarrow> ('d, 'r, 'k, hr_error, unit) hr_act" where
  "forwardSessionToHome C K home sessionId data =
     bnd (gets hr_bus) (\<lambda>bus.
     attempt (on_chat (stored (Publish (ce_env C) bus home
       \<lparr>bm_Type = BusTypeSession, bm_Deliver = None, bm_Session = Some \<lparr>sf_SessionID = sessionId, sf_Payload = data\<rparr>\<rparr>))) (\<lambda>r. case r of
       Inl _ \<Rightarrow> bnd (counted (\<lambda>m. m\<lparr>sessionForwardFailures := sessionForwardFailures m + 1\<rparr>)) (\<lambda>_. processLocal C K sessionId data)
     | Inr _ \<Rightarrow> counted (\<lambda>m. m\<lparr>sessionForwarded := sessionForwarded m + 1\<rparr>)))"

definition SendMessage :: "('d, 'r) chat_env \<Rightarrow> 'k kafka_client \<Rightarrow> bytes \<Rightarrow> ('d, 'r, 'k, hr_error, unit) hr_act" where
  "SendMessage C K data =
     (case decode_session_id data of
        (_, True) \<Rightarrow> throw BadJson
      | (sessionId, False) \<Rightarrow>
          if sessionId = [] then throw NoSessionId
          else bnd (gets (\<lambda>h. case hr_ring h of
                 Some ring \<Rightarrow> if hr_affinityEnabled h \<and> Home ring sessionId \<noteq> [] \<and> Home ring sessionId \<noteq> hr_instanceID h
                              then Some (Home ring sessionId) else None
               | None \<Rightarrow> None)) (\<lambda>away. case away of
                 Some home \<Rightarrow> forwardSessionToHome C K home sessionId data
               | None \<Rightarrow> processLocal C K sessionId data))"

section \<open>The main loop and the cleanups\<close>

datatype start_branch = LoginBranch nat | LogoutBranch nat | TransmitBranch

definition cluster_presence :: "('d, 'r, 'k) hybrid \<Rightarrow> presence_service option" where
  "cluster_presence h = (if hr_clusterEnabled h then Some (hr_presence h) else None)"

text \<open>A round of \<open>Start\<close> for a client from the channel \<open>Login\<close> or \<open>Logout\<close>, or for a message: \<open>expired\<close>
  and \<open>b\<close> are the choices of \<open>EnqueueMessage\<close>.\<close>

definition Start_round ::
  "('d, 'r) chat_env \<Rightarrow> 'k kafka_client \<Rightarrow> bool \<Rightarrow> enqueue_branch \<Rightarrow> start_branch \<Rightarrow> ('d, 'r, 'k, hr_error, unit) hr_act" where
  "Start_round C K expired b br =
     (case br of
        LoginBranch p \<Rightarrow> bnd (gets cluster_presence) (\<lambda>s. on_chat (login_client C hybrid_welcome s p))
      | LogoutBranch p \<Rightarrow> bnd (gets cluster_presence) (\<lambda>s. on_chat (logout_client C s p))
      | TransmitBranch \<Rightarrow>
          bnd (\<lambda>h. case try_recv (hr_Transmit h) of
                 None \<Rightarrow> None | Some (data, c) \<Rightarrow> Some (Inr data, h\<lparr>hr_Transmit := c\<rparr>)) (\<lambda>data.
          bnd (\<lambda>h. case EnqueueMessage (ce_now C) expired b data (hr_SessionRouter h) of
                 None \<Rightarrow> None | Some (err, r) \<Rightarrow> Some (Inr err, h\<lparr>hr_SessionRouter := r\<rparr>)) (\<lambda>err.
          bnd (gets hr_kafkaEnabled) (\<lambda>kafka.
          if err \<noteq> None \<and> kafka then logged (sendEnvelopeToKafka C K data) else ret ()))))"

definition ClearSessionRouting :: "('d, 'r, 'k, 'e, unit) hr_act" where
  "ClearSessionRouting = modify (\<lambda>h. if hr_sessionRoutedToKafka h = [] then h
     else h\<lparr>hr_sessionRoutedToKafka := [], hr_sessionRoutedAt := []\<rparr>)"

text \<open>A tick of the detector, with the callback that \<open>init\<close> sets.\<close>

definition detector_tick :: "time \<Rightarrow> ('d, 'r, 'k, 'e, unit) hr_act" where
  "detector_tick now =
     bnd (gets (\<lambda>h. check now (int (length (ch_items (hr_Transmit h)))) (hr_Detector h))) (\<lambda>(d, called).
     bnd (modify (\<lambda>h. h\<lparr>hr_Detector := d\<rparr>)) (\<lambda>_. if called then ClearSessionRouting else ret ()))"

definition startStickySessionCleanup :: "time \<Rightarrow> ('d, 'r, 'k, 'e, unit) hr_act" where
  "startStickySessionCleanup now = modify (\<lambda>h.
     let old = map fst (filter (\<lambda>(_, routedAt). 5 * minute < now - routedAt) (hr_sessionRoutedAt h)) in
     h\<lparr>hr_sessionRoutedToKafka := filter (\<lambda>s. s \<notin> set old) (hr_sessionRoutedToKafka h),
       hr_sessionRoutedAt := filter (\<lambda>(s, _). s \<notin> set old) (hr_sessionRoutedAt h)\<rparr>)"

section \<open>The cluster\<close>

definition EnableCluster ::
  "string \<Rightarrow> presence_service \<Rightarrow> InstanceBus \<Rightarrow> bool \<Rightarrow> ('d, 'r, 'k, 'e, unit) hr_act" where
  "EnableCluster instanceID presence bus sessionAffinity =
     bnd (modify (\<lambda>h. h\<lparr>hr_instanceID := instanceID, hr_presence := presence, hr_bus := bus, hr_clusterEnabled := True,
       hr_affinityEnabled := sessionAffinity, hr_ring := (if sessionAffinity then Some (NewSessionRing 0) else hr_ring h),
       hr_clusterQuit := False\<rparr>)) (\<lambda>_.
     on_chat (Enable instanceID presence bus))"

definition handleBusMessage ::
  "('d, 'r) chat_env \<Rightarrow> 'k kafka_client \<Rightarrow> BusMessage option \<Rightarrow> ('d, 'r, 'k, hr_error, unit) hr_act" where
  "handleBusMessage C K msg =
     (case msg of
        None \<Rightarrow> ret ()
      | Some m \<Rightarrow>
          if bm_Type m = BusTypeSession then
            (case bm_Session m of
               None \<Rightarrow> ret ()
             | Some s \<Rightarrow>
                 bnd (counted (\<lambda>m. m\<lparr>sessionForwardReceived := sessionForwardReceived m + 1\<rparr>)) (\<lambda>_.
                 processLocal C K (sf_SessionID s) (sf_Payload s)))
          else if bm_Type m = BusTypeDeliver then on_chat (DeliverLocalBatch C (bm_Deliver m))
          else ret ())"

definition refreshSessionRing :: "('d, 'r) chat_env \<Rightarrow> (ringEntry list \<Rightarrow> ringEntry list) \<Rightarrow> ('d, 'r, 'k, 'e, unit) hr_act" where
  "refreshSessionRing C srt =
     attempt (on_chat (stored (LiveInstances (ce_env C)))) (\<lambda>r. case r of
       Inl _ \<Rightarrow> ret ()
     | Inr instances \<Rightarrow> modify (\<lambda>h. h\<lparr>hr_ring := map_option (SetInstances srt instances) (hr_ring h)\<rparr>))"

text \<open>A tick of the heartbeat.\<close>

definition startPresenceHeartbeat :: "('d, 'r) chat_env \<Rightarrow> (time \<Rightarrow> string) \<Rightarrow> ('d, 'r, 'k, 'e, unit) hr_act" where
  "startPresenceHeartbeat C rfc3339 =
     bnd (gets hr_presence) (\<lambda>s.
     bnd (logged (on_chat (stored (RegisterInstance (ce_env C) rfc3339 s)))) (\<lambda>_.
     bnd (gets (\<lambda>h. map fst (ch_Clients (hr_chat h)))) (\<lambda>uuids.
     for_each (ce_order C uuids) (\<lambda>u. logged (on_chat (stored (presence_Register (ce_env C) s u)))))))"

definition hybrid_RemoveClient :: "('d, 'r) chat_env \<Rightarrow> uuid \<Rightarrow> ('d, 'r, 'k, 'e, unit) hr_act" where
  "hybrid_RemoveClient C u = bnd (gets cluster_presence) (\<lambda>s. on_chat (RemoveClient C s u))"

definition OnlineClients :: "('d, 'r, 'k) hybrid \<Rightarrow> nat" where
  "OnlineClients h = length (ch_Clients (hr_chat h))"

text \<open>A second \<open>Close\<close> closes the closed \<open>kafkaQuit\<close>, which panics.\<close>

definition hybrid_Close :: "('d, 'r) chat_env \<Rightarrow> ('d, 'r, 'k, hr_error, unit) hr_act" where
  "hybrid_Close C =
     bnd (gets (\<lambda>h. (cluster_presence h, map fst (ch_Clients (hr_chat h)), hr_kafkaEnabled h, hr_kafkaQuit h))) (\<lambda>(cluster, uuids, kafka, quit).
     bnd (case cluster of
            None \<Rightarrow> ret ()
          | Some s \<Rightarrow>
              bnd (modify (\<lambda>h. if hr_clusterQuit h then h else h\<lparr>hr_clusterQuit := True, hr_bus := bus_Stop (hr_bus h)\<rparr>)) (\<lambda>_.
              for_each (ce_order C uuids) (\<lambda>u. logged (on_chat (stored (presence_Unregister (ce_env C) s u)))))) (\<lambda>_.
     bnd (modify (\<lambda>h. h\<lparr>hr_Detector := stop_detector (hr_Detector h), hr_SessionRouter := close_router (hr_SessionRouter h)\<rparr>)) (\<lambda>_.
     bnd (on_chat processor_Close) (\<lambda>_.
     if \<not> kafka then ret ()
     else if quit then throw DoubleClose
     else modify (\<lambda>h. h\<lparr>hr_kafkaQuit := True\<rparr>)))))"

section \<open>Consuming Kafka\<close>

abbreviation kafkaBatchSize :: nat where "kafkaBatchSize \<equiv> 200"

fun fetch_batch :: "'k kafka_client \<Rightarrow> nat \<Rightarrow> kafka_message list \<Rightarrow> ('d, 'r, 'k, 'e, kafka_message list) hr_act" where
  "fetch_batch K 0 batch = ret batch"
| "fetch_batch K (Suc n) batch =
     bnd (\<lambda>h. case kf_fetch K (hr_kafka h) of
            None \<Rightarrow> None | Some (m, k) \<Rightarrow> Some (Inr m, h\<lparr>hr_kafka := k\<rparr>)) (\<lambda>m. case m of
       None \<Rightarrow> ret batch
     | Some m \<Rightarrow> fetch_batch K n (batch @ [m]))"

definition maxProcessAttempts :: "kafka_config \<Rightarrow> int" where
  "maxProcessAttempts cfg = (if kc_MaxProcessRetries cfg \<le> 0 then 5 else kc_MaxProcessRetries cfg)"

definition SendToDLQ ::
  "'k kafka_client \<Rightarrow> kafka_config \<Rightarrow> kafka_message list \<Rightarrow> string \<Rightarrow> int \<Rightarrow> string \<Rightarrow> ('d, 'r, 'k, 'e, bool) hr_act" where
  "SendToDLQ K cfg original cause attempts failedAt =
     (if kc_DLQTopic cfg = [] then ret False
      else on_kafka (kf_dlq K (buildDLQMessages original cause attempts failedAt)))"

definition commit_batch :: "'k kafka_client \<Rightarrow> kafka_message list \<Rightarrow> ('d, 'r, 'k, 'e, unit) hr_act" where
  "commit_batch K batch =
     bnd (on_kafka (kf_commit K batch)) (\<lambda>ok.
     if ok then ret () else counted (\<lambda>m. m\<lparr>kafkaCommitFailures := kafkaCommitFailures m + 1\<rparr>))"

text \<open>
  A round of \<open>consumeKafkaMessages\<close> with the number of failed rounds since the last success; the
  result is that number afterwards. \<open>sched\<close> and \<open>picks\<close> are what the other goroutines do and the
  choices of the sends, \<open>text\<close> and \<open>stamp\<close> the texts of errors and times.
\<close>

definition consume_round ::
  "('d, 'r) chat_env \<Rightarrow> 'k kafka_client \<Rightarrow> kafka_config \<Rightarrow> (('d, 'r) chat SessionRouter \<Rightarrow> ('d, 'r) chat SessionRouter) \<Rightarrow>
   (nat \<Rightarrow> bool \<times> enqueue_branch) \<Rightarrow> (sr_error \<Rightarrow> string) \<Rightarrow> (time \<Rightarrow> string) \<Rightarrow> int \<Rightarrow> ('d, 'r, 'k, 'e, int) hr_act" where
  "consume_round C K cfg sched picks text stamp attempts =
     bnd (fetch_batch K kafkaBatchSize []) (\<lambda>batch.
     if batch = [] then ret attempts
     else
       bnd (\<lambda>h. case EnqueueMessagesAndWait sched (ce_now C) (Deadline (ce_now C + 5 * minute))
                  (map (\<lambda>(i, m). (km_value m, picks i)) (enumerate 0 batch)) (hr_SessionRouter h) of
              None \<Rightarrow> None | Some (err, r) \<Rightarrow> Some (Inr err, h\<lparr>hr_SessionRouter := r\<rparr>)) (\<lambda>err. case err of
         None \<Rightarrow> bnd (commit_batch K batch) (\<lambda>_. ret 0)
       | Some e \<Rightarrow>
           let n = attempts + 1 in
           if kc_DLQTopic cfg \<noteq> [] \<and> maxProcessAttempts cfg \<le> n then
             bnd (SendToDLQ K cfg batch (text e) n (stamp (ce_now C))) (\<lambda>ok.
             if \<not> ok then ret n
             else bnd (counted (\<lambda>m. m\<lparr>kafkaDLQTotal := kafkaDLQTotal m + 1\<rparr>)) (\<lambda>_.
                  bnd (commit_batch K batch) (\<lambda>_. ret 0)))
           else ret n))"

definition ensureJSONValid :: "bytes \<Rightarrow> bool" where
  "ensureJSONValid data \<longleftrightarrow> json_parse data \<noteq> None"

end
