(* ===== verification/Batch_Safety.thy ===== *)
theory Batch_Safety
  imports Message_Batch Chat_Memory
begin

text \<open>
  What the batch writer guarantees under every interleaving: a result channel is answered at
  most once, a message is at one place only, and a nil answer means that a row with the
  message's uuid is in the database. And where it does not: a shutdown during a flush leaves
  the messages that were buffered meanwhile unanswered and unsaved.
\<close>

section \<open>Inserting batches\<close>

definition saved :: "row list \<Rightarrow> Message \<Rightarrow> bool" where
  "saved rs m \<longleftrightarrow> (\<exists>r \<in> set rs. key_clash r (RMessage m))"

lemma saved_map_id: "saved (map (set_row_id 0) rs) m = saved rs m"
  by (auto simp: saved_def)

lemma add_new_keeps: "saved R m \<Longrightarrow> saved (add_new R rs) m"
  by (induction rs arbitrary: R) (auto simp: saved_def)

lemma add_new_saves: "RMessage m \<in> set rs \<Longrightarrow> saved (add_new R rs) m"
proof (induction rs arbitrary: R)
  case (Cons r rs)
  show ?case
  proof (cases "r = RMessage m")
    case True
    then have "saved (if \<exists>x\<in>set R. key_clash x r then R else R @ [r]) m" by (auto simp: saved_def)
    then show ?thesis by (simp add: add_new_keeps)
  qed (use Cons in auto)
qed simp

lemma add_new_saves_id:
  assumes "m \<in> set ms"
  shows "saved (add_new R (map (set_row_id 0) (map RMessage ms))) m"
proof -
  have "saved (add_new R (map (set_row_id 0) (map RMessage ms))) (m\<lparr>ms_id := 0\<rparr>)"
    by (rule add_new_saves) (use assms in force)
  moreover have "key_clash r (RMessage (m\<lparr>ms_id := 0\<rparr>)) = key_clash r (RMessage m)" for r
    by (cases r) simp_all
  ultimately show ?thesis by (simp add: saved_def)
qed

lemma concat_chunks: "concat (chunks k xs) = xs"
  by (induction k xs rule: chunks.induct) (subst chunks.simps, auto)

text \<open>What was saved stays saved, and all of \<open>ms\<close> is.\<close>

definition saves :: "row list \<Rightarrow> Message list \<Rightarrow> row list \<Rightarrow> bool" where
  "saves rs ms rs' \<longleftrightarrow> (\<forall>m. saved rs m \<or> m \<in> set ms \<longrightarrow> saved rs' m)"

context database
begin

lemma wp_insert_ignore:
  assumes "\<And>w'. saves (rows (st_db w)) ms (rows (st_db w')) \<Longrightarrow> Q () w'"
    and "\<And>e w'. rows (st_db w') = rows (st_db w) \<Longrightarrow> X e w'"
  shows "wp (insert_ignore E ms) Q X w"
  unfolding insert_ignore_def
proof (rule wp_on_db)
  fix u d
  assume "db_insert_ignore (e_db E) (map RMessage ms) (st_db w) = (Inr u, d)"
  from ignore_ok [OF this] have eq: "map (set_row_id 0) (rows d) =
      add_new (map (set_row_id 0) (rows (st_db w))) (map (set_row_id 0) (map RMessage ms))" .
  have "saves (rows (st_db w)) ms (rows d)"
    unfolding saves_def saved_map_id [of "rows d", symmetric] eq
    using add_new_keeps add_new_saves_id by (auto simp: saved_map_id)
  then show "Q u (w\<lparr>st_db := d\<rparr>)" using assms(1) by simp
qed (use assms(2) in \<open>auto dest: ignore_err\<close>)

lemma wp_CreateInBatches:
  assumes "\<And>w'. saves (rows (st_db w)) ms (rows (st_db w')) \<Longrightarrow> Q () w'"
    and "\<And>e w'. rows (st_db w') = rows (st_db w) \<Longrightarrow> X e w'"
  shows "wp (CreateInBatches E ms k) Q X w"
proof (cases "length ms \<le> k")
  case True
  then show ?thesis using assms by (simp add: CreateInBatches_def wp_insert_ignore)
next
  case False
  have "wp (transaction E (for_each (chunks k ms) (insert_ignore E))) Q X w"
  proof (rule wp_transaction)
    fix w1 assume w1: "same w w1"
    show "wp (for_each (chunks k ms) (insert_ignore E))
        (\<lambda>a w2. (\<forall>w'. same w2 w' \<longrightarrow> Q a w') \<and> (\<forall>w'. rows (st_db w') = rows (st_db w) \<and> st_redis w' = st_redis w2 \<longrightarrow> X DbFault w'))
        (\<lambda>e w2. \<forall>w'. rows (st_db w') = rows (st_db w) \<and> st_redis w' = st_redis w2 \<longrightarrow> X e w') w1"
      by (rule wp_for_each_upto [where I = "\<lambda>ys v. saves (rows (st_db w)) (concat ys) (rows (st_db v))"])
         (use w1 assms in \<open>auto simp: same_def saves_def concat_chunks intro!: wp_insert_ignore\<close>)
  qed (use assms(2) in \<open>auto simp: same_def\<close>)
  with False show ?thesis by (simp add: CreateInBatches_def)
qed

end

section \<open>The invariant\<close>

definition writer_ok :: "('d \<Rightarrow> row list) \<Rightarrow> ('d, 'r) writer \<Rightarrow> bool" where
  "writer_ok rows s \<longleftrightarrow> (let b = wr_batch s in
     map snd (wr_log s) = [0..<bw_nextDone b] \<and>
     mset (map fst (bw_answers b)) + mset (map snd (bw_buffer b)) + mset (map snd (bw_inflight b)) = mset [0..<bw_nextDone b] \<and>
     set (bw_buffer b) \<union> set (bw_inflight b) \<subseteq> set (wr_log s) \<and>
     (\<forall>(m, i) \<in> set (wr_log s). (i, None) \<in> set (bw_answers b) \<longrightarrow> saved (rows (st_db (ch_stores (wr_chat s)))) m) \<and>
     bw_totalEnqueued b = bw_totalFlushed b + bw_totalErrors b + int (length (bw_buffer b)) + int (length (bw_inflight b)) \<and>
     (bw_flushing b \<longleftrightarrow> bw_inflight b \<noteq> []) \<and> (bw_flushing b \<longrightarrow> wr_attempt s < maxFlushRetries))"

lemma ends_wp: "wp m Q X w \<Longrightarrow> ends m w a w' \<Longrightarrow> Q a w'"
  by (simp add: wp_def ends_def)

lemma answered_ids: "image_mset fst {#(i, err). (m, i) \<in># M#} = image_mset snd M"
  by (simp add: image_mset.compositionality comp_def split_def)

lemma wp_completeBatch:
  "wp (completeBatch batch err) Q X w =
   Q () (at_batch (\<lambda>b. b\<lparr>bw_answers := bw_answers b @ map (\<lambda>(m, i). (i, err)) batch\<rparr>) w)"
  unfolding completeBatch_def
  by (induction batch arbitrary: w) (auto simp: wp_simps send_done_def at_batch_def)

lemma new_writer_ok: "writer_ok rows (new_writer s)"
  by (simp add: writer_ok_def new_writer_def NewMessageProcessor_def new_batch_def)

lemma begin_flush_ok:
  assumes "writer_ok rows s" and "ends begin_flush (wr_chat s) b w"
  shows "writer_ok rows (s\<lparr>wr_chat := w, wr_attempt := (if b then 0 else wr_attempt s)\<rparr>)"
proof -
  have "wp begin_flush (\<lambda>b w. writer_ok rows (s\<lparr>wr_chat := w, wr_attempt := (if b then 0 else wr_attempt s)\<rparr>)) (\<lambda>_ _. True) (wr_chat s)"
    using assms(1) by (auto simp: begin_flush_def wp_simps writer_ok_def Let_def at_batch_def)
  from ends_wp [OF this assms(2)] show ?thesis .
qed

lemma writer_ok_calls [simp]: "writer_ok rows (s\<lparr>wr_calls := n\<rparr>) = writer_ok rows s"
  by (simp add: writer_ok_def)

context database
begin

lemma flush_attempt_ok:
  assumes "writer_ok rows s" and "bw_flushing (wr_batch s)" and "ce_env C = E"
    and "ends (flush_attempt C (wr_attempt s)) (wr_chat s) e w"
  shows "writer_ok rows (s\<lparr>wr_chat := w, wr_attempt := Suc (wr_attempt s)\<rparr>)"
proof -
  let ?b = "wr_batch s"
  let ?P = "\<lambda>w. writer_ok rows (s\<lparr>wr_chat := w, wr_attempt := Suc (wr_attempt s)\<rparr>)"
  have ids: "distinct (map snd (wr_log s))" using assms(1) by (auto simp: writer_ok_def Let_def)
  have inflight: "(m, i) \<in> set (bw_inflight ?b)" if "(m, i) \<in> set (wr_log s)" "i \<in> snd ` set (bw_inflight ?b)" for m i
  proof -
    from that(2) obtain m' where m': "(m', i) \<in> set (bw_inflight ?b)" by auto
    then have "(m', i) \<in> set (wr_log s)" using assms(1) by (auto simp: writer_ok_def Let_def)
    with ids that(1) have "(m', i) = (m, i)" using inj_onD [of snd "set (wr_log s)" "(m', i)" "(m, i)"] by (auto simp: distinct_map)
    with m' show ?thesis by simp
  qed
  have "wp (flush_attempt C (wr_attempt s)) (\<lambda>_. ?P) (\<lambda>_ _. True) (wr_chat s)"
    unfolding flush_attempt_def wp_bnd wp_gets wp_attempt wp_stored assms(3)
  proof (rule wp_CreateInBatches, goal_cases)
    case (1 v)
    have old: "saved (rows (st_db v)) m" if "(m, i) \<in> set (wr_log s)" "(i, None) \<in> set (bw_answers ?b)" for m i
      using that 1 assms(1) by (auto simp: writer_ok_def Let_def saves_def)
    have new: "saved (rows (st_db v)) m" if "(m, i) \<in> set (wr_log s)" "(m', i) \<in> set (bw_inflight ?b)" for m m' i
      using that 1 inflight [OF that(1)] by (force simp: saves_def)
    show ?case
      using assms(1) unfolding sum.case wp_simps wp_completeBatch end_flush_def
      by (auto simp: writer_ok_def Let_def at_batch_def union_ac answered_ids intro: old new)
  next
    case (2 e v)
    show ?case
      using assms(1,2) 2 unfolding sum.case wp_simps wp_completeBatch end_flush_def
      by (auto simp: writer_ok_def Let_def at_batch_def union_ac answered_ids)
  qed
  from ends_wp [OF this assms(4)] show ?thesis .
qed

lemma Enqueue_ok:
  assumes "writer_ok rows s" and "ce_env C = E" and "ends (Enqueue C m) (wr_chat s) (i, go) w"
  shows "writer_ok rows (s\<lparr>wr_chat := w, wr_log := wr_log s @ [(m, i)]\<rparr>)"
proof -
  let ?P = "\<lambda>(i, _) w. writer_ok rows (s\<lparr>wr_chat := w, wr_log := wr_log s @ [(m, i)]\<rparr>)"
  let ?b = "wr_batch s"
  have fresh: "i < bw_nextDone ?b" if "i \<in> fst ` set (bw_answers ?b)" for i
  proof -
    have "set_mset (mset (map fst (bw_answers ?b)) + mset (map snd (bw_buffer ?b)) + mset (map snd (bw_inflight ?b))) =
        set_mset (mset [0..<bw_nextDone ?b])"
      using assms(1) by (simp add: writer_ok_def Let_def)
    moreover have "i \<in> set_mset (mset (map fst (bw_answers ?b)) + mset (map snd (bw_buffer ?b)) + mset (map snd (bw_inflight ?b)))"
      using that by simp
    ultimately show ?thesis by (simp only:) simp
  qed
  let ?n = "bw_nextDone ?b"
  have unanswered: "(?n, x) \<notin> set (bw_answers ?b)" for x using fresh [of ?n] by force
  have old: "i \<noteq> ?n" if "(x, i) \<in> set (wr_log s)" for x i
  proof -
    have "i \<in> set (map snd (wr_log s))" using that by force
    moreover have "map snd (wr_log s) = [0..<?n]" using assms(1) by (simp add: writer_ok_def Let_def)
    ultimately show ?thesis by (simp only:) simp
  qed
  have "wp (Enqueue C m) ?P (\<lambda>_ _. True) (wr_chat s)"
  proof (cases "bw_closed ?b")
    case True
    have answered: "writer_ok rows (s\<lparr>wr_chat := wr_chat s\<lparr>ch_stores := v, ch_batch := ?b\<lparr>bw_nextDone := Suc ?n, bw_answers := bw_answers ?b @ [(?n, r)]\<rparr>\<rparr>,
        wr_log := wr_log s @ [(m, ?n)]\<rparr>)"
      if "\<And>x. saved (rows (st_db (ch_stores (wr_chat s)))) x \<Longrightarrow> saved (rows (st_db v)) x" "r = None \<Longrightarrow> saved (rows (st_db v)) m" for r v
      using assms(1) that unanswered by (auto simp: writer_ok_def Let_def atLeast0_lessThan_Suc dest: old)
    show ?thesis
      unfolding Enqueue_def ensureStarted_def new_done_def wp_simps assms(2)
      by (simp add: True at_batch_def send_done_def wp_simps)
         (rule wp_insert_ignore; rule answered; simp add: saves_def)
  next
    case False
    then show ?thesis
      using assms(1) unanswered
      unfolding Enqueue_def ensureStarted_def new_done_def wp_simps
      by (auto simp: at_batch_def writer_ok_def Let_def atLeast0_lessThan_Suc dest: old)
  qed
  from ends_wp [OF this assms(3)] show ?thesis by simp
qed

lemma batch_step_ok:
  assumes "batch_step C s s'" and "writer_ok rows s" and "ce_env C = E"
  shows "writer_ok rows s'"
  using assms(1)
proof cases
  case (enqueue m i go w)
  then show ?thesis using Enqueue_ok [OF assms(2,3)] by auto
next
  case (tick b w)
  then show ?thesis using begin_flush_ok [OF assms(2)] by auto
next
  case fire
  then show ?thesis using assms(2) by simp
next
  case (call b w)
  then show ?thesis
    using begin_flush_ok [OF assms(2), of b w] by (cases b) (simp_all add: writer_ok_def Let_def)
next
  case (attempt e w)
  then show ?thesis using flush_attempt_ok [OF assms(2) _ assms(3)] by auto
next
  case (shutdown b w)
  then have "b \<longrightarrow> w = (wr_chat s)\<lparr>ch_batch := (wr_batch s)\<lparr>bw_closed := True\<rparr>\<rparr>" "\<not> b \<longrightarrow> w = wr_chat s"
    by (auto simp: ends_def shutdown_close_def bnd_def gets_def modify_def ret_def at_batch_def split: if_splits)
  with shutdown assms(2) show ?thesis by (cases b) (auto simp: writer_ok_def Let_def)
qed

lemma batch_reachable_ok:
  "(batch_step C)\<^sup>*\<^sup>* (new_writer s0) s \<Longrightarrow> ce_env C = E \<Longrightarrow> writer_ok rows s"
  by (induction rule: rtranclp_induct) (auto intro: batch_step_ok new_writer_ok)

end

text \<open>C4. The result channels of the batch writer, in every interleaving of enqueues, flushes and a shutdown:
  each is answered at most once; a nil answer means that a row with the message's uuid is in the
  database; every message has been answered, is buffered, or is part of the flush that runs; and the
  counters account for every message that was buffered.\<close>

theorem batch_confirms:
  assumes "database (ce_env C) rows" and "(batch_step C)\<^sup>*\<^sup>* (new_writer s0) s"
  shows "distinct (map fst (bw_answers (wr_batch s))) \<and>
    (\<forall>(m, i) \<in> set (wr_log s). (i, None) \<in> set (bw_answers (wr_batch s)) \<longrightarrow>
       (\<exists>m'. RMessage m' \<in> set (rows (st_db (ch_stores (wr_chat s)))) \<and> ms_uuid m' = ms_uuid m)) \<and>
    (\<forall>(m, i) \<in> set (wr_log s). i \<in> fst ` set (bw_answers (wr_batch s)) \<or>
       (m, i) \<in> set (bw_buffer (wr_batch s)) \<union> set (bw_inflight (wr_batch s))) \<and>
    bw_totalEnqueued (wr_batch s) = bw_totalFlushed (wr_batch s) + bw_totalErrors (wr_batch s) +
      int (length (bw_buffer (wr_batch s))) + int (length (bw_inflight (wr_batch s)))"
proof -
  let ?b = "wr_batch s"
  have ok: "writer_ok rows s" by (rule database.batch_reachable_ok [OF assms refl])
  then have ids: "mset (map fst (bw_answers ?b)) + mset (map snd (bw_buffer ?b)) + mset (map snd (bw_inflight ?b)) = mset [0..<bw_nextDone ?b]"
    and log: "map snd (wr_log s) = [0..<bw_nextDone ?b]"
    and sub: "set (bw_buffer ?b) \<union> set (bw_inflight ?b) \<subseteq> set (wr_log s)"
    by (simp_all add: writer_ok_def Let_def)
  have "mset (map fst (bw_answers ?b) @ map snd (bw_buffer ?b) @ map snd (bw_inflight ?b)) = mset [0..<bw_nextDone ?b]"
    using ids by (simp add: add.assoc)
  then have all: "distinct (map fst (bw_answers ?b) @ map snd (bw_buffer ?b) @ map snd (bw_inflight ?b))"
    "set (map fst (bw_answers ?b) @ map snd (bw_buffer ?b) @ map snd (bw_inflight ?b)) = {0..<bw_nextDone ?b}"
    using mset_eq_imp_distinct_iff distinct_upt mset_eq_setD by (metis, metis set_upt)
  have "distinct (map snd (wr_log s))" unfolding log by simp
  then have inj: "x = y" if "x \<in> set (wr_log s)" "y \<in> set (wr_log s)" "snd x = snd y" for x y
    using that by (simp add: distinct_map inj_on_def)
  have place: "i \<in> fst ` set (bw_answers ?b) \<or> (m, i) \<in> set (bw_buffer ?b) \<union> set (bw_inflight ?b)"
    if "(m, i) \<in> set (wr_log s)" for m i
  proof -
    have "i \<in> set (map snd (wr_log s))" using that by force
    then have "i \<in> set (map fst (bw_answers ?b) @ map snd (bw_buffer ?b) @ map snd (bw_inflight ?b))"
      unfolding all(2) log by simp
    then consider "i \<in> fst ` set (bw_answers ?b)" | x where "x \<in> set (bw_buffer ?b) \<union> set (bw_inflight ?b)" "snd x = i" by force
    then show ?thesis
    proof cases
      case (2 x)
      then have "x = (m, i)" using inj [of x "(m, i)"] sub that by auto
      with 2 show ?thesis by simp
    qed simp
  qed
  have "\<exists>m'. RMessage m' \<in> set rs \<and> ms_uuid m' = ms_uuid m" if "saved rs m" for rs m
    using that by (auto simp: saved_def elim!: key_clash.elims)
  then have "\<forall>(m, i) \<in> set (wr_log s). (i, None) \<in> set (bw_answers ?b) \<longrightarrow>
       (\<exists>m'. RMessage m' \<in> set (rows (st_db (ch_stores (wr_chat s)))) \<and> ms_uuid m' = ms_uuid m)"
    using ok by (auto simp: writer_ok_def Let_def)
  moreover have "distinct (map fst (bw_answers ?b))" using all(1) by simp
  moreover have "bw_totalEnqueued ?b = bw_totalFlushed ?b + bw_totalErrors ?b + int (length (bw_buffer ?b)) + int (length (bw_inflight ?b))"
    using ok by (simp add: writer_ok_def Let_def)
  ultimately show ?thesis using place by (intro conjI) auto
qed

lemmas batch_run_defs = ends_def Enqueue_def ensureStarted_def new_done_def begin_flush_def flush_attempt_def
  shutdown_close_def completeBatch_def send_done_def end_flush_def CreateInBatches_def insert_ignore_def
  at_batch_def gets_def modify_def stored_def bnd_def attempt_def ret_def on_db_def count_def

text \<open>The first message and the flush that takes it.\<close>

lemma first_flush:
  "\<exists>s. (batch_step C)\<^sup>*\<^sup>* (new_writer s0) s \<and> wr_log s = [(m, 0)] \<and> wr_attempt s = 0 \<and> wr_calls s = 0 \<and>
    wr_chat s = (NewMessageProcessor s0)\<lparr>ch_batch := new_batch\<lparr>bw_started := True, bw_nextDone := 1, bw_totalEnqueued := 1,
      bw_flushing := True, bw_inflight := [(m, 0)]\<rparr>\<rparr>"
proof -
  let ?w1 = "(NewMessageProcessor s0)\<lparr>ch_batch := new_batch\<lparr>bw_started := True, bw_nextDone := 1, bw_totalEnqueued := 1,
      bw_buffer := [(m, 0)]\<rparr>\<rparr>"
  let ?w2 = "(NewMessageProcessor s0)\<lparr>ch_batch := new_batch\<lparr>bw_started := True, bw_nextDone := 1, bw_totalEnqueued := 1,
      bw_flushing := True, bw_inflight := [(m, 0)]\<rparr>\<rparr>"
  have "ends (Enqueue C m) (wr_chat (new_writer s0)) (0, False) ?w1"
    by (simp add: batch_run_defs new_writer_def NewMessageProcessor_def new_batch_def)
  from enqueue [OF this] have 1: "batch_step C (new_writer s0) (new_writer s0\<lparr>wr_chat := ?w1, wr_log := [(m, 0)]\<rparr>)"
    by (simp add: new_writer_def)
  have "ends begin_flush ?w1 True ?w2"
    by (simp add: batch_run_defs NewMessageProcessor_def new_batch_def)
  with tick [of "new_writer s0\<lparr>wr_chat := ?w1, wr_log := [(m, 0)]\<rparr>" True ?w2 C]
  have "batch_step C (new_writer s0\<lparr>wr_chat := ?w1, wr_log := [(m, 0)]\<rparr>) (new_writer s0\<lparr>wr_chat := ?w2, wr_log := [(m, 0)]\<rparr>)"
    by (simp add: NewMessageProcessor_def new_batch_def new_writer_def)
  with 1 have "(batch_step C)\<^sup>*\<^sup>* (new_writer s0) (new_writer s0\<lparr>wr_chat := ?w2, wr_log := [(m, 0)]\<rparr>)"
    by (rule converse_rtranclp_into_rtranclp [OF _ r_into_rtranclp])
  then show ?thesis
    by (intro exI [of _ "new_writer s0\<lparr>wr_chat := ?w2, wr_log := [(m, 0)]\<rparr>"]) (simp add: new_writer_def)
qed

theorem batch_confirms_witness:
  "\<exists>s. (batch_step (demo_chat_env 9))\<^sup>*\<^sup>* (new_writer demo) s \<and> bw_answers (wr_batch s) = [(0, None)] \<and>
     (\<exists>m'. RMessage m' \<in> set (md_rows (st_db (ch_stores (wr_chat s)))) \<and> ms_uuid m' = ''M1'')"
proof -
  have db: "database (ce_env (demo_chat_env 9)) md_rows"
    using mem_rows.database_axioms by (simp add: demo_chat_env_def)
  obtain s where s: "(batch_step (demo_chat_env 9))\<^sup>*\<^sup>* (new_writer demo) s" "wr_log s = [(demo_text ''M1'', 0)]" "wr_attempt s = 0"
    "wr_chat s = (NewMessageProcessor demo)\<lparr>ch_batch := new_batch\<lparr>bw_started := True, bw_nextDone := 1, bw_totalEnqueued := 1,
      bw_flushing := True, bw_inflight := [(demo_text ''M1'', 0)]\<rparr>\<rparr>"
    using first_flush [of "demo_chat_env 9" demo "demo_text ''M1''"] by blast
  have "\<exists>w. ends (flush_attempt (demo_chat_env 9) 0) (wr_chat s) True w \<and> bw_answers (ch_batch w) = [(0, None)]"
    by (simp add: s batch_run_defs NewMessageProcessor_def new_batch_def demo_chat_env_def mem_database_def db_faulty_def demo_def)
  then obtain w where w: "ends (flush_attempt (demo_chat_env 9) (wr_attempt s)) (wr_chat s) True w" "bw_answers (ch_batch w) = [(0, None)]"
    by (auto simp: s(3))
  have "bw_flushing (wr_batch s)" by (simp add: s(4))
  from attempt [OF this w(1)] s(1)
  have *: "(batch_step (demo_chat_env 9))\<^sup>*\<^sup>* (new_writer demo) (s\<lparr>wr_chat := w, wr_attempt := Suc (wr_attempt s)\<rparr>)"
    by (rule rtranclp.rtrancl_into_rtrancl [rotated])
  from batch_confirms [OF db this]
  have "\<exists>m'. RMessage m' \<in> set (md_rows (st_db (ch_stores w))) \<and> ms_uuid m' = ''M1''"
    by (simp add: s(2) w(2) demo_text_def)
  with * w(2) show ?thesis
    by (intro exI [of _ "s\<lparr>wr_chat := w, wr_attempt := Suc (wr_attempt s)\<rparr>"]) simp
qed

section \<open>Shutting down during a flush\<close>

lemma wp_insert_any: "(\<And>r w'. case r of Inl e \<Rightarrow> X e w' | Inr a \<Rightarrow> Q a w') \<Longrightarrow> wp (insert_ignore E ms) Q X w"
  by (auto simp: insert_ignore_def wp_def on_db_def split: sum.splits prod.splits) (metis sum.case)+

text \<open>The item of the buffer that nobody will take.\<close>

definition stranded :: "Message \<times> nat \<Rightarrow> ('d, 'r) writer \<Rightarrow> bool" where
  "stranded x s \<longleftrightarrow> (let b = wr_batch s in
     bw_closed b \<and> wr_calls s = 0 \<and> bw_buffer b = [x] \<and> snd x < bw_nextDone b \<and>
     snd x \<notin> fst ` set (bw_answers b) \<and> snd x \<notin> snd ` set (bw_inflight b))"

lemma stranded_enqueue:
  assumes "stranded x s" and "ends (Enqueue C m) (wr_chat s) (i, go) w"
  shows "\<not> go \<and> stranded x (s\<lparr>wr_chat := w\<rparr>)"
proof -
  have "wp (Enqueue C m) (\<lambda>(i, go) w. \<not> go \<and> stranded x (s\<lparr>wr_chat := w\<rparr>)) (\<lambda>_ _. True) (wr_chat s)"
    using assms(1) unfolding Enqueue_def ensureStarted_def new_done_def wp_simps
    by (auto simp: stranded_def Let_def at_batch_def send_done_def wp_simps intro!: wp_insert_any split: sum.split)
  from ends_wp [OF this assms(2)] show ?thesis by simp
qed

lemma wp_CreateInBatches_any:
  assumes "\<And>r w'. case r of Inl e \<Rightarrow> X e w' | Inr a \<Rightarrow> Q a w'" and "length ms \<le> k"
  shows "wp (CreateInBatches E ms k) Q X w"
  using assms by (simp add: CreateInBatches_def wp_insert_any)

lemma stranded_attempt:
  assumes "stranded x s" and "ends (flush_attempt C k) (wr_chat s) e w"
  shows "stranded x (s\<lparr>wr_chat := w\<rparr>)"
proof -
  obtain r v where run: "CreateInBatches (ce_env C) (map fst (bw_inflight (wr_batch s))) batchFlushSize (ch_stores (wr_chat s)) = Some (r, v)"
    using assms(2) by (auto simp: ends_def flush_attempt_def bnd_def gets_def attempt_def stored_def split: option.splits)
  have "wp (flush_attempt C k) (\<lambda>_ w. stranded x (s\<lparr>wr_chat := w\<rparr>)) (\<lambda>_ _. True) (wr_chat s)"
    unfolding flush_attempt_def wp_bnd wp_gets wp_attempt wp_stored
  proof (rule wpI [where m = "CreateInBatches (ce_env C) (map fst (bw_inflight (wr_batch s))) batchFlushSize", OF run], cases r, goal_cases)
    case (1 e)
    then show ?case
      using assms(1) unfolding sum.case wp_simps wp_completeBatch end_flush_def
      by (auto simp: stranded_def Let_def at_batch_def wp_simps image_iff split_def)
  next
    case (2 u)
    then show ?case
      using assms(1) unfolding sum.case wp_simps wp_completeBatch end_flush_def
      by (auto simp: stranded_def Let_def at_batch_def wp_simps image_iff split_def)
  qed
  from ends_wp [OF this assms(2)] show ?thesis .
qed

lemma stranded_step:
  assumes "batch_step C s s'" and "stranded x s"
  shows "stranded x s'"
  using assms(1)
proof cases
  case (enqueue m i go w)
  with stranded_enqueue [OF assms(2) enqueue(2)] assms(2) show ?thesis by (simp add: stranded_def Let_def)
next
  case (attempt e w)
  with stranded_attempt [OF assms(2)] show ?thesis by (auto simp: stranded_def Let_def)
next
  case (shutdown b w)
  with assms(2) show ?thesis
    by (auto simp: ends_def shutdown_close_def bnd_def gets_def ret_def stranded_def Let_def split: if_splits)
qed (use assms(2) in \<open>auto simp: stranded_def Let_def\<close>)

lemma stranded_for_ever: "(batch_step C)\<^sup>*\<^sup>* s s' \<Longrightarrow> stranded x s \<Longrightarrow> stranded x s'"
  by (induction rule: rtranclp_induct) (auto intro: stranded_step)

lemma shutdown_leads_to_stranded:
  "\<exists>s. (batch_step C)\<^sup>*\<^sup>* (new_writer s0) s \<and> wr_log s = [(m1, 0), (m2, 1)] \<and> stranded (m2, 1) s"
proof -
  let ?b = "new_batch\<lparr>bw_started := True, bw_nextDone := 2, bw_totalEnqueued := 2, bw_flushing := True,
      bw_inflight := [(m1, 0)], bw_buffer := [(m2, 1)]\<rparr>"
  let ?w2 = "(NewMessageProcessor s0)\<lparr>ch_batch := ?b\<rparr>"
  let ?w3 = "(NewMessageProcessor s0)\<lparr>ch_batch := ?b\<lparr>bw_closed := True\<rparr>\<rparr>"
  obtain s where s: "(batch_step C)\<^sup>*\<^sup>* (new_writer s0) s" "wr_log s = [(m1, 0)]" "wr_calls s = 0"
    "wr_chat s = (NewMessageProcessor s0)\<lparr>ch_batch := new_batch\<lparr>bw_started := True, bw_nextDone := 1, bw_totalEnqueued := 1,
      bw_flushing := True, bw_inflight := [(m1, 0)]\<rparr>\<rparr>"
    using first_flush [of C s0 m1] by blast
  define s2 where "s2 = s\<lparr>wr_chat := ?w2, wr_log := [(m1, 0), (m2, 1)]\<rparr>"
  define s3 where "s3 = s2\<lparr>wr_chat := ?w3, wr_calls := 1\<rparr>"
  define s4 where "s4 = s3\<lparr>wr_calls := 0\<rparr>"
  have step3: "s3\<lparr>wr_chat := wr_chat s3, wr_calls := wr_calls s3 - 1, wr_attempt := wr_attempt s3\<rparr> = s4"
    by (rule writer.equality) (simp_all add: s3_def s4_def)
  note s(1)
  also have "ends (Enqueue C m2) (wr_chat s) (1, False) ?w2"
    unfolding s(4) by (simp add: batch_run_defs NewMessageProcessor_def new_batch_def)
  then have "batch_step C s s2"
    using enqueue [of C m2 s 1 False ?w2] s(2,3) by (cases s) (simp add: s2_def)
  also have "ends shutdown_close (wr_chat s2) True ?w3"
    by (simp add: s2_def batch_run_defs NewMessageProcessor_def new_batch_def)
  then have "batch_step C s2 s3"
    using shutdown [of s2 True ?w3 C] s(3) by (simp add: s2_def s3_def)
  also have "ends begin_flush (wr_chat s3) False (wr_chat s3)"
    by (simp add: s3_def batch_run_defs NewMessageProcessor_def new_batch_def)
  then have "batch_step C s3 s4"
    using call [of s3 False "wr_chat s3" C] step3 by (simp add: s3_def)
  finally have "(batch_step C)\<^sup>*\<^sup>* (new_writer s0) s4" .
  moreover have "wr_log s4 = [(m1, 0), (m2, 1)] \<and> stranded (m2, 1) s4"
    by (simp add: s4_def s3_def s2_def stranded_def new_batch_def)
  ultimately show ?thesis by blast
qed

text \<open>A shutdown that comes during a flush loses what was buffered since the flush began: the writer can
  get into a state, closed, from which on, whatever comes and whoever runs, a message that was enqueued
  before the shutdown stays in the buffer and is never answered.\<close>

theorem shutdown_strands_message:
  "\<exists>s. (batch_step C)\<^sup>*\<^sup>* (new_writer s0) s \<and> wr_log s = [(m1, 0), (m2, 1)] \<and> bw_closed (wr_batch s) \<and>
    (\<forall>s'. (batch_step C)\<^sup>*\<^sup>* s s' \<longrightarrow> (m2, 1) \<in> set (bw_buffer (wr_batch s')) \<and> 1 \<notin> fst ` set (bw_answers (wr_batch s')))"
proof -
  obtain s where "(batch_step C)\<^sup>*\<^sup>* (new_writer s0) s" "wr_log s = [(m1, 0), (m2, 1)]" and s: "stranded (m2, 1) s"
    using shutdown_leads_to_stranded [of C s0 m1 m2] by blast
  moreover have "(m2, 1) \<in> set (bw_buffer (wr_batch s')) \<and> 1 \<notin> fst ` set (bw_answers (wr_batch s'))"
    if "(batch_step C)\<^sup>*\<^sup>* s s'" for s'
    using stranded_for_ever [OF that s] by (simp add: stranded_def Let_def)
  ultimately show ?thesis by (auto simp: stranded_def Let_def)
qed

theorem shutdown_strands_message_witness:
  "\<exists>s. (batch_step (demo_chat_env 9))\<^sup>*\<^sup>* (new_writer demo) s \<and> wr_log s = [(demo_text ''M1'', 0), (demo_text ''M2'', 1)] \<and>
     (demo_text ''M2'', 1) \<in> set (bw_buffer (wr_batch s)) \<and> bw_closed (wr_batch s)"
  using shutdown_strands_message [of "demo_chat_env 9" demo "demo_text ''M1''" "demo_text ''M2''"] by blast

end
