(* ===== verification/Hybrid_Safety.thy ===== *)
theory Hybrid_Safety
  imports Hybrid_Router Session_Order Batch_Safety
begin

text \<open>
  What the hybrid router guarantees for a session: whatever way each message takes, and whatever runs
  meanwhile, the processor sees the messages in the order in which they got their numbers. And where it
  does not: a message that is refused, a batch of Kafka that fails, a restart.
\<close>

section \<open>Numbering\<close>

text \<open>The router with the envelopes it has made, in the order of their numbering: a step is a numbering by
  some call of \<open>processLocal\<close> (at any time, with any randomness), or anything that leaves the counters
  alone, among them the second half of \<open>processLocal\<close>.\<close>

inductive hybrid_step ::
  "('d, 'r, 'k) hybrid \<times> (string \<times> MessageEnvelope) list \<Rightarrow> ('d, 'r, 'k) hybrid \<times> (string \<times> MessageEnvelope) list \<Rightarrow> bool" where
  number: "ends (next_number sid) h n h' \<Longrightarrow>
    hybrid_step (h, log) (h', log @ [(sid, make_envelope (C :: ('d, 'r) chat_env) n data)])"
| other: "hr_sessionSeqNums h' = hr_sessionSeqNums h \<Longrightarrow> hybrid_step (h, log) (h', log)"

definition envelopes_of :: "string \<Rightarrow> (string \<times> MessageEnvelope) list \<Rightarrow> MessageEnvelope list" where
  "envelopes_of sid log = map snd (filter (\<lambda>(s, _). s = sid) log)"

definition counter :: "('d, 'r, 'k) hybrid \<Rightarrow> string \<Rightarrow> u64" where
  "counter h sid = (case map_of (hr_sessionSeqNums h) sid of None \<Rightarrow> 0 | Some n \<Rightarrow> n)"

lemma next_number_ends:
  "ends (next_number sid) h n h' \<Longrightarrow> n = counter h sid + 1 \<and> counter h' sid = n \<and> (\<forall>s. s \<noteq> sid \<longrightarrow> counter h' s = counter h s)"
  by (auto simp: ends_def next_number_def getOrCreateSessionSeq_def bnd_def gets_def modify_def ret_def counter_def
      alist_simps split: option.splits)

lemma next_number_runs: "\<exists>h'. next_number sid h = Some (Inr (counter h sid + 1), h') \<and> counter h' sid = counter h sid + 1 \<and>
    hr_Transmit h' = hr_Transmit h \<and> (\<forall>s. s \<noteq> sid \<longrightarrow> counter h' s = counter h s)"
  by (auto simp: next_number_def getOrCreateSessionSeq_def bnd_def gets_def modify_def ret_def counter_def
      alist_simps split: option.splits)

lemma SeqNum_make_envelope [simp]: "SeqNum (make_envelope C n data) = n"
  by (simp add: make_envelope_def split: prod.split)

text \<open>From a state with counter \<open>n\<close>, the envelopes of a session are numbered from \<open>n + 1\<close> on.\<close>

lemma hybrid_numbers:
  assumes "hybrid_step\<^sup>*\<^sup>* (h0, []) (h, log)"
  shows "map SeqNum (envelopes_of sid log) = map (\<lambda>i. counter h0 sid + of_nat i) [1..<Suc (length (envelopes_of sid log))] \<and>
    counter h sid = counter h0 sid + of_nat (length (envelopes_of sid log))"
  using assms
proof (induction "(h, log)" arbitrary: h log rule: rtranclp_induct)
  case base
  then show ?case by (simp add: envelopes_of_def)
next
  case (step s)
  from step(2) show ?case
  proof cases
    case (number sid' h1 n log1 C data)
    then have IH: "map SeqNum (envelopes_of sid log1) = map (\<lambda>i. counter h0 sid + of_nat i) [1..<Suc (length (envelopes_of sid log1))] \<and>
      counter h1 sid = counter h0 sid + of_nat (length (envelopes_of sid log1))"
      using step(3) by blast
    have n: "n = counter h1 sid' + 1" "counter h sid' = n" "\<forall>s. s \<noteq> sid' \<longrightarrow> counter h s = counter h1 s"
      using next_number_ends [OF number(3)] by blast+
    show ?thesis
    proof (cases "sid' = sid")
      case True
      with number(2) n IH show ?thesis by (simp add: envelopes_of_def algebra_simps)
    next
      case False
      with number(2) n IH show ?thesis by (simp add: envelopes_of_def)
    qed
  next
    case other
    with step(3) show ?thesis by (simp add: counter_def)
  qed
qed

lemma envelopes_from_start:
  assumes "hybrid_step\<^sup>*\<^sup>* (new_hybrid s k, []) (h, log)"
  shows "map SeqNum (envelopes_of sid log) = map of_nat [1..<Suc (length (envelopes_of sid log))]"
proof -
  have "counter (new_hybrid s k) sid = 0" by (simp add: counter_def new_hybrid_def)
  with hybrid_numbers [OF assms, of sid] show ?thesis by simp
qed

lemma nth_SeqNum:
  assumes "map SeqNum es = map of_nat [1..<Suc (length es)]" and "i < length es"
  shows "SeqNum (es ! i) = of_nat (Suc i)"
proof -
  have "map SeqNum es ! i = map of_nat [1..<Suc (length es)] ! i" using assms(1) by simp
  with assms(2) show ?thesis by (simp del: upt_Suc)
qed

lemma unat_number: "n < 2 ^ 64 \<Longrightarrow> unat (of_nat n :: u64) = n"
  by (simp add: unat_of_nat)

text \<open>The envelope of a session is determined by its number.\<close>

lemma envelope_by_number:
  assumes "map SeqNum es = map of_nat [1..<Suc (length es)]" and "length es < 2 ^ 64 - 1"
    and "e \<in> set es" and "unat (SeqNum e) = Suc i"
  shows "i < length es \<and> e = es ! i"
proof -
  obtain j where j: "j < length es" "e = es ! j" using assms(3) by (auto simp: in_set_conv_nth)
  then have "unat (SeqNum e) = Suc j"
    using nth_SeqNum [OF assms(1) j(1)] unat_number [of "Suc j"] assms(2) by simp
  with assms(4) j show ?thesis by simp
qed

lemma envelope_numbers:
  assumes "map SeqNum es = map of_nat [1..<Suc (length es)]" and "length es < 2 ^ 64 - 1"
  shows "(unat \<circ> SeqNum) ` set es = {1..length es}"
proof -
  have "map (unat \<circ> SeqNum) es = map unat (map SeqNum es)" by simp
  also have "\<dots> = [1..<Suc (length es)]"
    unfolding assms(1) map_map
    by (rule map_idI) (use assms(2) unat_number in \<open>auto simp del: upt_Suc\<close>)
  finally have "set (map (unat \<circ> SeqNum) es) = set [1..<Suc (length es)]" by simp
  then show ?thesis by (simp only: set_map set_upt atLeastLessThanSuc_atLeastAtMost)
qed

text \<open>C1. Order from end to end. However the numbering of the messages of all sessions interleaves with anything
  else the router does, and however the envelopes of a session then arrive at its queue (through the
  channel or Kafka, in any order, each once or more): a processor that succeeds is given exactly the
  session's envelopes, once each, in the order in which they got their numbers.\<close>

theorem hybrid_keeps_order:
  assumes "hybrid_step\<^sup>*\<^sup>* (new_hybrid s k, []) (h, log)"
    and "qe_envelope ` set its = set (envelopes_of sid log)" and "length (envelopes_of sid log) < 2 ^ 64 - 1"
    and "process_items P its (new_queue sid cap now, m, w) = ((q, m', w'), evs)" and "always_ok P"
  shows "map (\<lambda>(it, _). qe_envelope it) (calls_of evs) = envelopes_of sid log"
proof -
  let ?es = "envelopes_of sid log"
  note nums = envelopes_from_start [OF assms(1), of sid]
  have "(unat \<circ> qe_seq) ` set its = (unat \<circ> SeqNum) ` (qe_envelope ` set its)" by (simp add: image_comp comp_def)
  also have "\<dots> = {1..length ?es}" unfolding assms(2) by (rule envelope_numbers [OF nums assms(3)])
  finally have seqs: "map (\<lambda>(it, _). unat (qe_seq it)) (calls_of evs) = [1..<Suc (length ?es)]"
    using in_order_aux [OF assms(4,5) _ assms(3)] by blast
  have len: "length (calls_of evs) = length ?es" using arg_cong [OF seqs, of length] by (simp del: upt_Suc)
  have "(\<lambda>(it, _). qe_envelope it) (calls_of evs ! i) = ?es ! i" if i: "i < length ?es" for i
  proof -
    obtain it out where c: "calls_of evs ! i = (it, out)" by (cases "calls_of evs ! i")
    have "(it, out) \<in> set (calls_of evs)" using nth_mem [of i "calls_of evs"] i len c by simp
    then have "it \<in> fst ` set (calls_of evs)" by force
    then have "it \<in> set its" using process_items_items [OF assms(4)] by (auto simp: new_queue_def)
    then have "qe_envelope it \<in> set ?es" using assms(2) by blast
    moreover have "map (\<lambda>(it, _). unat (qe_seq it)) (calls_of evs) ! i = Suc i"
      unfolding seqs using i by (simp del: upt_Suc)
    then have "unat (qe_seq it) = Suc i" using c i len by simp
    ultimately show ?thesis using envelope_by_number [OF nums assms(3)] c by simp
  qed
  with len show ?thesis by (intro nth_equalityI) simp_all
qed

lemma keeps_on_chat [keeps_intros]: "(\<And>h w. I h \<Longrightarrow> I (h\<lparr>hr_SessionRouter := (hr_SessionRouter h)\<lparr>sr_world := w\<rparr>\<rparr>)) \<Longrightarrow> keeps I (on_chat m)"
  by (auto simp: keeps_def on_chat_def)

lemma keeps_on_kafka: "(\<And>h k. I h \<Longrightarrow> I (h\<lparr>hr_kafka := k\<rparr>)) \<Longrightarrow> keeps I (on_kafka f)"
  by (auto simp: keeps_def on_kafka_def split: prod.splits)

abbreviation numbers_are :: "(string \<times> u64) list \<Rightarrow> ('d, 'r, 'k) hybrid \<Rightarrow> bool" where
  "numbers_are ns h \<equiv> hr_sessionSeqNums h = ns"

lemma numbers_mark_sticky [keeps_intros]: "keeps (numbers_are ns) (mark_sticky now sid)"
  unfolding mark_sticky_def by (rule keeps_modify) simp

lemma numbers_sendEnvelopeToKafka: "keeps (numbers_are ns) (sendEnvelopeToKafka C K data)"
  unfolding sendEnvelopeToKafka_def Let_def
  by (auto split: prod.split bool.split intro!: keeps_intros keeps_on_kafka)

lemma numbers_sendToChannel: "keeps (numbers_are ns) (sendToChannel C K data)"
  unfolding sendToChannel_def
  by (auto split: prod.split option.split intro!: keeps_intros keeps_modify numbers_sendEnvelopeToKafka)

lemma numbers_route: "keeps (numbers_are ns) (route C K sid data)"
  unfolding route_def
  by (auto split: prod.split intro!: keeps_intros keeps_on_kafka numbers_sendToChannel)

text \<open>So a call of \<open>processLocal\<close> is a numbering and a step that leaves the counters alone.\<close>

lemma processLocal_steps:
  assumes "processLocal C K sid data h = Some (r, h')"
  shows "hybrid_step\<^sup>*\<^sup>* (h, log) (h', log @ [(sid, make_envelope C (counter h sid + 1) data)])"
proof -
  obtain h1 where h1: "next_number sid h = Some (Inr (counter h sid + 1) :: unit + u64, h1)"
    using next_number_runs by blast
  obtain h2 where h2: "next_number sid h = Some (Inr (counter h sid + 1) :: hr_error + u64, h2)"
    using next_number_runs by blast
  have "h2 = h1"
    using h1 h2 by (auto simp: next_number_def getOrCreateSessionSeq_def bnd_def gets_def modify_def ret_def split: option.splits)
  have "route C K sid (encode_envelope (make_envelope C (counter h sid + 1) data)) h1 = Some (r, h')"
    using assms h2 \<open>h2 = h1\<close> by (simp add: processLocal_def bnd_def)
  from keepsD [OF numbers_route _ this] have "hr_sessionSeqNums h' = hr_sessionSeqNums h1" by blast
  then have "hybrid_step (h1, log @ [(sid, make_envelope C (counter h sid + 1) data)]) (h', log @ [(sid, make_envelope C (counter h sid + 1) data)])"
    by (rule other)
  moreover have "hybrid_step (h, log) (h1, log @ [(sid, make_envelope C (counter h sid + 1) data)])"
    using h1 by (intro number) (simp add: ends_def)
  ultimately show ?thesis by (rule converse_rtranclp_into_rtranclp [rotated, OF r_into_rtranclp])
qed

text \<open>The witness: two messages of a session around one of another.\<close>

definition demo_kafka :: "unit kafka_client" where
  "demo_kafka = \<lparr>kf_write = \<lambda>_ _ k. (True, k), kf_fetch = \<lambda>_. None, kf_commit = \<lambda>_ k. (True, k), kf_dlq = \<lambda>_ k. (True, k)\<rparr>"

lemma numbered:
  fixes h :: "('d, 'r, 'k) hybrid" and C :: "('d, 'r) chat_env"
  shows "\<exists>h'. hybrid_step (h, log) (h', log @ [(sid, make_envelope C (counter h sid + 1) data)]) \<and>
    counter h' sid = counter h sid + 1 \<and> (\<forall>s. s \<noteq> sid \<longrightarrow> counter h' s = counter h s)"
proof -
  obtain h' where "next_number sid h = Some (Inr (counter h sid + 1) :: unit + u64, h')"
    "counter h' sid = counter h sid + 1" "\<forall>s. s \<noteq> sid \<longrightarrow> counter h' s = counter h s"
    using next_number_runs by blast
  then show ?thesis using number [of sid h "counter h sid + 1" h' log C data] by (auto simp: ends_def)
qed

theorem hybrid_keeps_order_witness:
  "\<exists>h e1 e2 e3 log. hybrid_step\<^sup>*\<^sup>* (new_hybrid demo () :: (mem_db, mem_redis, unit) hybrid, []) (h, log) \<and>
     log = [(''S1'', e1), (''S2'', e2), (''S1'', e3)] \<and> e1 \<noteq> e3 \<and>
     map (\<lambda>(it, _). qe_envelope it) (calls_of (snd (process_items (demo_processor [])
       [\<lparr>qe_envelope = e3, qe_done = None, qe_ctx = None\<rparr>, \<lparr>qe_envelope = e1, qe_done = None, qe_ctx = None\<rparr>,
        \<lparr>qe_envelope = e3, qe_done = None, qe_ctx = None\<rparr>] (new_queue ''S1'' 8 0, zero_metrics, 0)))) = [e1, e3]"
proof -
  let ?h = "new_hybrid demo () :: (mem_db, mem_redis, unit) hybrid" and ?C = "demo_chat_env 9"
  have zero: "counter ?h sid = 0" for sid by (simp add: counter_def new_hybrid_def)
  define e1 where "e1 = make_envelope ?C 1 (session_bytes ''S1'')"
  define e2 where "e2 = make_envelope ?C 1 (session_bytes ''S2'')"
  define e3 where "e3 = make_envelope ?C 2 (session_bytes ''S1'')"
  obtain h1 where h1: "hybrid_step (?h, []) (h1, [(''S1'', e1)])" "counter h1 ''S1'' = 1" "counter h1 ''S2'' = 0"
    using numbered [of ?h "[]" "''S1''" ?C "session_bytes ''S1''"] zero by (auto simp: e1_def)
  obtain h2 where h2: "hybrid_step (h1, [(''S1'', e1)]) (h2, [(''S1'', e1), (''S2'', e2)])" "counter h2 ''S1'' = 1"
    using numbered [of h1 "[(''S1'', e1)]" "''S2''" ?C "session_bytes ''S2''"] h1 by (auto simp: e2_def)
  obtain h3 where h3: "hybrid_step (h2, [(''S1'', e1), (''S2'', e2)]) (h3, [(''S1'', e1), (''S2'', e2), (''S1'', e3)])"
    using numbered [of h2 "[(''S1'', e1), (''S2'', e2)]" "''S1''" ?C "session_bytes ''S1''"] h2 by (auto simp: e3_def)
  let ?log = "[(''S1'', e1), (''S2'', e2), (''S1'', e3)]"
  let ?its = "[\<lparr>qe_envelope = e3, qe_done = None, qe_ctx = None\<rparr>, \<lparr>qe_envelope = e1, qe_done = None, qe_ctx = None\<rparr>,
        \<lparr>qe_envelope = e3, qe_done = None, qe_ctx = None\<rparr>]"
  have run: "hybrid_step\<^sup>*\<^sup>* (?h, []) (h3, ?log)"
    using h1(1) h2(1) h3 by (meson converse_rtranclp_into_rtranclp rtranclp.rtrancl_refl)
  have es: "envelopes_of ''S1'' ?log = [e1, e3]" by (simp add: envelopes_of_def)
  obtain q m w evs where p: "process_items (demo_processor []) ?its (new_queue ''S1'' 8 0, zero_metrics, 0) = ((q, m, w), evs)"
    by (metis prod.collapse)
  from hybrid_keeps_order [OF run _ _ p demo_always_ok]
  have "map (\<lambda>(it, _). qe_envelope it) (calls_of evs) = [e1, e3]" unfolding es by auto
  moreover have "SeqNum e1 \<noteq> SeqNum e3" by (simp add: e1_def e3_def)
  then have "e1 \<noteq> e3" by auto
  ultimately show ?thesis using run p by (intro exI [of _ h3] exI [of _ e1] exI [of _ e2] exI [of _ e3] exI [of _ ?log]) simp
qed

section \<open>A refused message\<close>

lemma number_plus:
  assumes "unat (c :: u64) + i < 2 ^ 64"
  shows "unat (c + of_nat i) = unat c + i"
  using assms by (simp add: unat_word_ariths(1) unat_of_nat)

text \<open>A \<open>processLocal\<close> that ends with an error has used up a number.\<close>

lemma refused_number:
  assumes "processLocal C K sid data h = Some (Inl e, h')"
  shows "counter h' sid = counter h sid + 1"
  using hybrid_numbers [OF processLocal_steps [OF assms, of "[]"], of sid] by (simp add: envelopes_of_def)

lemma channel_unchanged:
  assumes "processLocal C K sid data h = Some (Inl e, h')"
  shows "hr_Transmit h' = hr_Transmit h"
proof -
  obtain h2 where h2: "next_number sid h = Some (Inr (counter h sid + 1) :: hr_error + u64, h2)" "hr_Transmit h2 = hr_Transmit h"
    using next_number_runs by blast
  have kafka: "hr_Transmit v = hr_Transmit u" if "sendEnvelopeToKafka C K d u = Some (r, v)" for d u v and r :: "hr_error + unit"
    using that by (auto simp: sendEnvelopeToKafka_def Let_def throw_def bnd_def on_kafka_def on_chat_def count_def modify_def mark_sticky_def ret_def
        split: prod.splits bool.splits if_splits)
  have chan: "hr_Transmit v = hr_Transmit u" if "sendToChannel C K d u = Some (Inl x, v)" for d u v x
    using that by (auto simp: sendToChannel_def bnd_def gets_def modify_def on_chat_def count_def throw_def split: option.splits if_splits dest: kafka)
  have "route C K sid (encode_envelope (make_envelope C (counter h sid + 1) data)) h2 = Some (Inl e, h')"
    using assms h2 by (simp add: processLocal_def bnd_def)
  then have "hr_Transmit h' = hr_Transmit h2"
    by (auto simp: route_def bnd_def gets_def modify_def on_chat_def on_kafka_def count_def throw_def mark_sticky_def ret_def
        split: prod.splits if_splits dest: chan)
  with h2 show ?thesis by simp
qed

text \<open>A number that never arrives is a barrier: no envelope with a greater one is given to the processor.\<close>

lemma gap_blocks:
  assumes "process_items P its (new_queue sid cap now, m, w) = ((q, m', w'), evs)"
    and "\<forall>it \<in> set its. seq_small it \<and> unat (qe_seq it) \<noteq> n" and "0 < n"
  shows "next_nat q \<le> n \<and> (\<forall>(it, out) \<in> set (calls_of evs). it \<in> set its \<and> unat (qe_seq it) < n)"
proof -
  have small: "\<forall>it \<in> set its. seq_small it" using assms(2) by blast
  have items: "it \<in> set its" if "(it, out) \<in> set (calls_of evs)" for it out
    using process_items_items [OF assms(1)] that by (force simp: new_queue_def)
  have below: "next_nat q \<le> n"
  proof (rule ccontr)
    assume "\<not> next_nat q \<le> n"
    with assms(3) have "n \<in> set (ok_seqs evs)"
      using process_items_prefix [OF assms(1) buffer_ok_new small] by simp
    then obtain it out where "(it, out) \<in> set (calls_of evs)" "unat (qe_seq it) = n" by (auto simp: ok_seqs_def)
    with items assms(2) show False by blast
  qed
  moreover have "it \<in> set its \<and> unat (qe_seq it) < n" if c: "(it, out) \<in> set (calls_of evs)" for it out
  proof -
    have "unat (qe_seq it) \<le> next_nat q" using process_items_below [OF assms(1) buffer_ok_new small] c by auto
    moreover have "unat (qe_seq it) \<noteq> n" using items [OF c] assms(2) by blast
    ultimately show ?thesis using below items [OF c] by linarith
  qed
  ultimately show ?thesis by blast
qed

text \<open>C35. A refused message blocks its session. When \<open>processLocal\<close> tells a client that its message could not be sent
  (the channel is full and Kafka does not take it), the number of the message is used up all the same, and the
  message is not in the channel. Let then any envelopes of the session arrive, those numbered before the refused
  message and those numbered after it, the client's own repetition included, in any order and each any number
  of times, only the refused one itself not (a write to Kafka that failed may yet have stored it). Then no
  envelope that was numbered after the refused message is ever given to the processor, and the queue never
  expects a number above that of the refused message.\<close>

theorem refused_send_blocks_session:
  assumes "hybrid_step\<^sup>*\<^sup>* (new_hybrid s0 k0, []) (h, before)" and "processLocal C K sid data h = Some (Inl e, h')"
    and "hybrid_step\<^sup>*\<^sup>* (h', []) (h2, after)" and "length before + length after < 2 ^ 64 - 2"
    and "qe_envelope ` set its \<subseteq> set (envelopes_of sid before) \<union> set (envelopes_of sid after)"
    and "process_items P its (new_queue sid cap now, m, w) = ((q, m', w'), evs)"
  shows "hr_Transmit h' = hr_Transmit h \<and> next_nat q \<le> length (envelopes_of sid before) + 1 \<and>
    (\<forall>(it, out) \<in> set (calls_of evs). qe_envelope it \<notin> set (envelopes_of sid after))"
proof -
  let ?n = "length (envelopes_of sid before) + 1"
  have len: "length (envelopes_of sid before) \<le> length before" "length (envelopes_of sid after) \<le> length after"
    by (simp_all add: envelopes_of_def)
  have "counter (new_hybrid s0 k0 :: ('a, 'b, 'c) hybrid) sid = 0" by (simp add: counter_def new_hybrid_def)
  with hybrid_numbers [OF assms(1), of sid] have "counter h sid = of_nat (length (envelopes_of sid before))" by simp
  with refused_number [OF assms(2)] have c: "counter h' sid = of_nat ?n" by simp
  then have n: "unat (counter h' sid) = ?n" using unat_number [of ?n] len(1) assms(4) by simp
  have early: "unat (SeqNum x) < ?n" if x: "x \<in> set (envelopes_of sid before)" for x
  proof -
    obtain i where "i < length (envelopes_of sid before)" "x = envelopes_of sid before ! i"
      using x unfolding in_set_conv_nth by blast
    with nth_SeqNum [OF envelopes_from_start [OF assms(1)], of i sid] unat_number [of "Suc i"] len(1) assms(4) show ?thesis by simp
  qed
  have late: "?n < unat (SeqNum x) \<and> unat (SeqNum x) \<le> ?n + length after" if x: "x \<in> set (envelopes_of sid after)" for x
  proof -
    let ?es = "envelopes_of sid after"
    obtain i where i: "i < length ?es" "x = ?es ! i" using x unfolding in_set_conv_nth by blast
    have "map SeqNum ?es ! i = map (\<lambda>i. counter h' sid + of_nat i) [1..<Suc (length ?es)] ! i"
      using hybrid_numbers [OF assms(3), of sid] by simp
    with i have "SeqNum x = counter h' sid + of_nat (Suc i)" by (simp del: upt_Suc)
    then have "unat (SeqNum x) = ?n + Suc i" using number_plus [of "counter h' sid" "Suc i"] n i(1) len assms(4) by simp
    with i(1) len(2) show ?thesis by simp
  qed
  have "seq_small it \<and> unat (qe_seq it) \<noteq> ?n" if it: "it \<in> set its" for it
  proof -
    have "qe_envelope it \<in> set (envelopes_of sid before) \<or> qe_envelope it \<in> set (envelopes_of sid after)" using assms(5) it by blast
    then have "unat (qe_seq it) < 2 ^ 64 - 1 \<and> unat (qe_seq it) \<noteq> ?n" using early late len assms(4) by fastforce
    then show ?thesis by (auto simp: seq_small_def unsigned_minus_1_eq_mask mask_eq_exp_minus_1)
  qed
  then have g: "next_nat q \<le> ?n \<and> (\<forall>(it, out) \<in> set (calls_of evs). it \<in> set its \<and> unat (qe_seq it) < ?n)"
    by (intro gap_blocks [OF assms(6)]) auto
  moreover have "qe_envelope it \<notin> set (envelopes_of sid after)" if "(it, out) \<in> set (calls_of evs)" for it out
    using g that late [of "qe_envelope it"] by fastforce
  ultimately show ?thesis using channel_unchanged [OF assms(2)] by blast
qed

text \<open>A channel that is full, in a process that has numbered one message of the session.\<close>

definition full_hybrid :: "(string \<times> u64) list \<Rightarrow> (mem_db, mem_redis, unit) hybrid" where
  "full_hybrid ns = (new_hybrid demo ())\<lparr>hr_Transmit := (make_chan CHANNEL_SIZE)\<lparr>ch_items := replicate CHANNEL_SIZE []\<rparr>,
     hr_sessionSeqNums := ns\<rparr>"

theorem refused_send_blocks_session_witness:
  "\<exists>h h' h2 e1 e3 q evs.
     hybrid_step\<^sup>*\<^sup>* (new_hybrid demo () :: (mem_db, mem_redis, unit) hybrid, []) (h, [(''S1'', e1)]) \<and>
     SendMessage (demo_chat_env 9) demo_kafka (session_bytes ''S1'') h = Some (Inl ChannelFull, h') \<and>
     hybrid_step\<^sup>*\<^sup>* (h', []) (h2, [(''S1'', e3)]) \<and>
     process_items (demo_processor []) [\<lparr>qe_envelope = e3, qe_done = None, qe_ctx = None\<rparr>, \<lparr>qe_envelope = e1, qe_done = None, qe_ctx = None\<rparr>]
       (new_queue ''S1'' 8 0, zero_metrics, 0) = (q, evs) \<and> map (\<lambda>(it, _). qe_envelope it) (calls_of evs) = [e1] \<and> e1 \<noteq> e3"
proof -
  let ?start = "new_hybrid demo () :: (mem_db, mem_redis, unit) hybrid" and ?C = "demo_chat_env 9"
  define e1 where "e1 = make_envelope ?C 1 (session_bytes ''S1'')"
  define e3 where "e3 = make_envelope ?C 3 (session_bytes ''S1'')"
  have "counter ?start sid = 0" for sid by (simp add: counter_def new_hybrid_def)
  then obtain h1 where h1: "hybrid_step (?start, []) (h1, [(''S1'', e1)])" "counter h1 ''S1'' = 1"
    using numbered [of ?start "[]" "''S1''" ?C "session_bytes ''S1''"] by (auto simp: e1_def)
  let ?h = "full_hybrid (hr_sessionSeqNums h1)"
  have "hybrid_step (h1, [(''S1'', e1)]) (?h, [(''S1'', e1)])" by (rule other) (simp add: full_hybrid_def)
  then have start: "hybrid_step\<^sup>*\<^sup>* (?start, []) (?h, [(''S1'', e1)])"
    using h1(1) by (rule rtranclp.rtrancl_into_rtrancl [where r = hybrid_step, OF r_into_rtranclp [where r = hybrid_step], rotated])
  have c1: "counter ?h ''S1'' = 1" using h1(2) by (simp add: counter_def full_hybrid_def)
  obtain h' where run: "processLocal ?C demo_kafka ''S1'' (session_bytes ''S1'') ?h = Some (Inl ChannelFull, h')"
    using next_number_runs [of "''S1''" ?h]
    by (auto simp: processLocal_def bnd_def gets_def modify_def ret_def route_def sendToChannel_def next_number_def getOrCreateSessionSeq_def
        full_hybrid_def new_hybrid_def throw_def try_send_def make_chan_def IsOverflow_def SetOverflowEndCallback_def NewBackpressureDetector_def
        split: option.splits)
  have send: "SendMessage ?C demo_kafka (session_bytes ''S1'') ?h = Some (Inl ChannelFull, h')"
    using run by (simp add: SendMessage_def session_of_bytes bnd_def gets_def full_hybrid_def new_hybrid_def)
  have "counter h' ''S1'' = 2" using refused_number [OF run] c1 by simp
  then obtain h2 where h2: "hybrid_step\<^sup>*\<^sup>* (h', []) (h2, [(''S1'', e3)])"
    using numbered [of h' "[]" "''S1''" ?C "session_bytes ''S1''"] by (auto simp: e3_def intro: r_into_rtranclp)
  let ?it = "\<lambda>e. \<lparr>qe_envelope = e, qe_done = None, qe_ctx = None\<rparr>"
  have seqs: "SeqNum e1 = 1" "SeqNum e3 = 3" by (simp_all add: e1_def e3_def)
  obtain q m' w' where p: "process_items (demo_processor []) [?it e3, ?it e1] (new_queue ''S1'' 8 0, zero_metrics, 0) =
      ((q, m', w'), [EvCall (?it e1) POk])"
    using seqs by (auto simp: processEnvelope_def process_loop.simps new_queue_def demo_processor_def finishQueuedEnvelope_def)
  have its: "qe_envelope ` set [?it e3, ?it e1] \<subseteq>
      set (envelopes_of ''S1'' [(''S1'', e1)]) \<union> set (envelopes_of ''S1'' [(''S1'', e3)])"
    by (auto simp: envelopes_of_def)
  have "\<forall>(it, out) \<in> set (calls_of [EvCall (?it e1) POk]). qe_envelope it \<notin> set (envelopes_of ''S1'' [(''S1'', e3)])"
    using refused_send_blocks_session [OF start run h2 _ its p] by simp
  then have "e1 \<noteq> e3" by (simp add: envelopes_of_def)
  with start send h2 p show ?thesis
    by (intro exI [of _ ?h] exI [of _ h'] exI [of _ h2] exI [of _ e1] exI [of _ e3] exI [of _ "(q, m', w')"]
          exI [of _ "[EvCall (?it e1) POk]"]) (simp del: process_items.simps)
qed

section \<open>Retries and restarts\<close>

lemma length_deriveMsgID: "c \<noteq> [] \<Longrightarrow> length (deriveMsgID C u c) = 17"
  by (simp add: deriveMsgID_def)

lemma MsgID_meta:
  "fst (decode_send_meta data) = (u, c) \<Longrightarrow> MsgID (make_envelope C n data) = deriveMsgID C u c"
  by (simp add: make_envelope_def)

lemma deriveMsgID_same: "c \<noteq> [] \<Longrightarrow> deriveMsgID C u c = deriveMsgID C' u c"
  by (simp add: deriveMsgID_def)

text \<open>A client's repetition is saved once: two messages with the same sender and the same client_msg_id, sent
  at any times and to any instances, get the same identifier, of 17 characters (the column has 20), and
  when the first has been inserted the insert of the second succeeds and adds no row.\<close>

theorem retry_saved_once:
  assumes "database E rows" and "fst (decode_send_meta data) = (u, c)" and "fst (decode_send_meta data') = (u, c)" and "c \<noteq> []"
    and "ms_uuid m = resolveMessageUUID C (MsgID (make_envelope C n data))"
    and "ms_uuid m' = resolveMessageUUID C' (MsgID (make_envelope C' n' data'))"
    and "insert_ignore E [m] w = Some (Inr (), w1)" and "insert_ignore E [m'] w1 = Some (Inr (), w2)"
  shows "MsgID (make_envelope C' n' data') = MsgID (make_envelope C n data) \<and> length (MsgID (make_envelope C n data)) = 17 \<and>
    map (set_row_id 0) (rows (st_db w2)) = map (set_row_id 0) (rows (st_db w1))"
proof -
  note ids = MsgID_meta [OF assms(2), of C n] MsgID_meta [OF assms(3), of C' n'] deriveMsgID_same [OF assms(4), of C' u C]
  have len: "length (deriveMsgID C u c) = 17" by (rule length_deriveMsgID [OF assms(4)])
  then have "ms_uuid m' = ms_uuid m" using assms(5,6) ids by (auto simp: resolveMessageUUID_def)
  then have clash: "key_clash r (RMessage (m'\<lparr>ms_id := 0\<rparr>)) = key_clash r (RMessage m)" for r by (cases r) simp_all
  have "wp (insert_ignore E [m]) (\<lambda>_ w'. saves (rows (st_db w)) [m] (rows (st_db w'))) (\<lambda>_ _. True) w"
    by (rule database.wp_insert_ignore [OF assms(1)]) simp_all
  with assms(7) have "saved (rows (st_db w1)) m" by (simp add: wp_def saves_def)
  then have "\<exists>r \<in> set (map (set_row_id 0) (rows (st_db w1))). key_clash r (set_row_id 0 (RMessage m'))"
    using clash by (auto simp: saved_def)
  then have "add_new (map (set_row_id 0) (rows (st_db w1))) (map (set_row_id 0) [RMessage m']) = map (set_row_id 0) (rows (st_db w1))"
    by simp
  moreover have "\<exists>d. db_insert_ignore (e_db E) [RMessage m'] (st_db w1) = (Inr (), d) \<and> st_db w2 = d"
    using assms(8) by (auto simp: insert_ignore_def on_db_def split: prod.splits)
  ultimately have "map (set_row_id 0) (rows (st_db w2)) = map (set_row_id 0) (rows (st_db w1))"
    using database.ignore_ok [OF assms(1)] by fastforce
  with ids len show ?thesis by simp
qed

definition demo_retry :: bytes where
  "demo_retry = json_print (JObj [(''send_id'', JStr ''U1''), (''client_msg_id'', JStr ''c1'')])"

theorem retry_saved_once_witness:
  "\<exists>w1 w2. insert_ignore (mem_env_reads 9) [demo_text (MsgID (make_envelope (demo_chat_env 9) 1 demo_retry))] demo = Some (Inr (), w1) \<and>
     insert_ignore (mem_env_reads 9) [demo_text (MsgID (make_envelope (demo_chat_env 50) 7 demo_retry))] w1 = Some (Inr (), w2) \<and>
     map (set_row_id 0) (md_rows (st_db w2)) = map (set_row_id 0) (md_rows (st_db w1))"
proof -
  have meta: "fst (decode_send_meta demo_retry) = (''U1'', ''c1'')"
    unfolding decode_send_meta_def demo_retry_def by (subst unmarshal_print) (simp_all add: find_field_def)
  let ?u = "\<lambda>t n. MsgID (make_envelope (demo_chat_env t) n demo_retry)"
  have "?u t n \<noteq> []" for t n
    using length_deriveMsgID [of "''c1''" "demo_chat_env t" "''U1''"] MsgID_meta [OF meta, of "demo_chat_env t" n] by auto
  then have uuid: "ms_uuid (demo_text (?u t n)) = resolveMessageUUID (demo_chat_env t) (?u t n)" for t n
    by (simp add: demo_text_def resolveMessageUUID_def)
  have run: "\<exists>w'. insert_ignore (mem_env_reads 9) [m] w = Some (Inr (), w') \<and> md_faults (st_db w') = []" if "md_faults (st_db w) = []" for m w
    using that by (simp add: insert_ignore_def on_db_def mem_database_def db_faulty_def mem_env_of_def)
  obtain w1 where w1: "insert_ignore (mem_env_reads 9) [demo_text (?u 9 1)] demo = Some (Inr (), w1)" "md_faults (st_db w1) = []"
    using run [of demo] by (auto simp: demo_def)
  obtain w2 where w2: "insert_ignore (mem_env_reads 9) [demo_text (?u 50 7)] w1 = Some (Inr (), w2)"
    using run w1(2) by blast
  have db: "database (mem_env_reads 9) md_rows" by (rule mem_rows.database_axioms)
  from retry_saved_once [OF db meta meta _ uuid uuid w1(1) w2] w1(1) w2 show ?thesis by auto
qed

text \<open>C36. A restart loses messages. The numbers of a session begin again at 1 with the process, while Kafka still
  holds envelopes of the process before: the i-th message of the old process, consumed when the new one has
  had at least i messages of the session, is taken for a repetition: it is answered with success, so
  that its offset is committed, and never processed.\<close>

theorem restart_loses_backlog:
  assumes "hybrid_step\<^sup>*\<^sup>* (new_hybrid s0 k0, []) (h0, old)" and "i < length (envelopes_of sid old)"
    and "hybrid_step\<^sup>*\<^sup>* (new_hybrid s k, []) (h, log)" and "i < length (envelopes_of sid log)"
    and "qe_envelope ` set its = set (envelopes_of sid log)" and "length (envelopes_of sid log) < 2 ^ 64 - 1"
    and "process_items P its (new_queue sid cap now, m, w) = ((q, m', w'), evs)" and "always_ok P"
    and "qe_envelope it = envelopes_of sid old ! i" and "qe_done it = Some d"
  shows "processEnvelope P it (q, m', w') = ((q, m', w'), [EvAck d None])"
proof -
  note nums = envelopes_from_start [OF assms(3), of sid]
  have "(unat \<circ> qe_seq) ` set its = (unat \<circ> SeqNum) ` (qe_envelope ` set its)" by (simp add: image_comp comp_def)
  also have "\<dots> = {1..length (envelopes_of sid log)}" unfolding assms(5) by (rule envelope_numbers [OF nums assms(6)])
  finally have "next_nat q = Suc (length (envelopes_of sid log))"
    using in_order_aux [OF assms(7,8) _ assms(6)] by blast
  moreover have "unat (qe_seq it) = Suc i"
    using nth_SeqNum [OF envelopes_from_start [OF assms(1)] assms(2)] unat_number [of "Suc i"] assms(4,6,9) by simp
  ultimately have "qe_seq it < nextExpectedSeq q" using assms(4) by (simp add: word_less_nat_alt)
  then show ?thesis using assms(10) by (simp add: processEnvelope_def finishQueuedEnvelope_def)
qed

theorem restart_loses_backlog_witness:
  "\<exists>q. process_items (demo_processor []) [\<lparr>qe_envelope = make_envelope (demo_chat_env 50) 1 (session_bytes ''S1''), qe_done = None, qe_ctx = None\<rparr>]
       (new_queue ''S1'' 8 0, zero_metrics, 0) = ((q, zero_metrics, 1), [EvCall \<lparr>qe_envelope = make_envelope (demo_chat_env 50) 1 (session_bytes ''S1''), qe_done = None, qe_ctx = None\<rparr> POk]) \<and>
     processEnvelope (demo_processor []) \<lparr>qe_envelope = make_envelope (demo_chat_env 9) 1 (session_bytes ''S1''), qe_done = Some 5, qe_ctx = None\<rparr>
       (q, zero_metrics, 1) = ((q, zero_metrics, 1), [EvAck 5 None])"
proof -
  let ?h = "new_hybrid demo () :: (mem_db, mem_redis, unit) hybrid"
  have zero: "counter ?h sid = 0" for sid by (simp add: counter_def new_hybrid_def)
  let ?e = "\<lambda>t. make_envelope (demo_chat_env t) 1 (session_bytes ''S1'')"
  have "\<exists>h. hybrid_step\<^sup>*\<^sup>* (?h, []) (h, [(''S1'', ?e t)])" for t
    using numbered [of ?h "[]" "''S1''" "demo_chat_env t" "session_bytes ''S1''"] zero by (auto intro: r_into_rtranclp)
  then obtain h0 h where h0: "hybrid_step\<^sup>*\<^sup>* (?h, []) (h0, [(''S1'', ?e 9)])" and h: "hybrid_step\<^sup>*\<^sup>* (?h, []) (h, [(''S1'', ?e 50)])"
    by blast
  let ?it = "\<lparr>qe_envelope = ?e 50, qe_done = None, qe_ctx = None\<rparr>"
  obtain q where p: "process_items (demo_processor []) [?it] (new_queue ''S1'' 8 0, zero_metrics, 0) = ((q, zero_metrics, 1), [EvCall ?it POk])"
    by (simp add: processEnvelope_def process_loop.simps new_queue_def demo_processor_def finishQueuedEnvelope_def)
  show ?thesis
    using restart_loses_backlog [OF h0 _ h _ _ _ p demo_always_ok, of 0 "\<lparr>qe_envelope = ?e 9, qe_done = Some 5, qe_ctx = None\<rparr>" 5] p
    by (auto simp: envelopes_of_def)
qed

end
