(* ===== verification/Kafka_Safety.thy ===== *)
theory Kafka_Safety
  imports Hybrid_Router Session_System Session_Order Chat_Memory
begin

text \<open>
  The consumer of Kafka against the contract of a consumer group (\<open>kafka_group\<close>, extended by
  \<open>kafka_reader\<close> with the positions of a reader that keeps its partitions; a group in memory keeps both):
  offsets are committed only for batches that were processed or dead-lettered, and a batch that failed is
  not fetched again, but its partitions are committed with the next one.
\<close>

section \<open>The contract of the reader\<close>

text \<open>A batch mixes the partitions of the topic. \<open>committed k p\<close> is the offset at which the group goes on in
  partition \<open>p\<close> after a restart. Only \<open>CommitMessages\<close> moves it: with no commit interval it commits, when
  it succeeds, for each partition the offset after the greatest of its messages; when it fails, some of
  the partitions may have been committed.\<close>

definition batch_end :: "kafka_message list \<Rightarrow> int \<Rightarrow> int option" where
  "batch_end ms p = (case filter (\<lambda>m. km_partition m = p) ms of
     [] \<Rightarrow> None | m # ms' \<Rightarrow> Some (fold max (map km_offset ms') (km_offset m) + 1))"

definition commit_at :: "kafka_message list \<Rightarrow> (int \<Rightarrow> int) \<Rightarrow> int \<Rightarrow> int" where
  "commit_at ms old p = (case batch_end ms p of None \<Rightarrow> old p | Some n \<Rightarrow> n)"

lemma fold_max_greatest: "fold max xs (a :: int) \<in> set (a # xs) \<and> (\<forall>x \<in> set (a # xs). x \<le> fold max xs a)"
proof (induction xs arbitrary: a)
  case (Cons x xs)
  from Cons [of "max x a"] show ?case by (auto simp: max_def split: if_splits)
qed simp

lemma batch_end_greatest:
  assumes "batch_end ms p = Some n"
  shows "\<exists>m \<in> set ms. km_partition m = p \<and> n = km_offset m + 1 \<and>
    (\<forall>m' \<in> set ms. km_partition m' = p \<longrightarrow> km_offset m' \<le> km_offset m)"
proof -
  obtain m ms' where f: "filter (\<lambda>m. km_partition m = p) ms = m # ms'" and n: "n = fold max (map km_offset ms') (km_offset m) + 1"
    using assms by (auto simp: batch_end_def split: list.splits)
  let ?f = "filter (\<lambda>m. km_partition m = p) ms"
  from fold_max_greatest [of "map km_offset ms'" "km_offset m"]
  have top: "n - 1 \<in> km_offset ` set ?f" and le: "\<forall>m' \<in> set ?f. km_offset m' \<le> n - 1"
    using n f by auto
  from top obtain m1 where "m1 \<in> set ms" "km_partition m1 = p" "km_offset m1 = n - 1" by auto
  with le show ?thesis by (intro bexI [of _ m1]) auto
qed

locale kafka_group =
  fixes K :: "'k kafka_client" and committed :: "'k \<Rightarrow> int \<Rightarrow> int"
  assumes fetch_same: "kf_fetch K k = Some (x, k') \<Longrightarrow> committed k' = committed k"
    and commit_ok: "kf_commit K ms k = (True, k') \<Longrightarrow> committed k' = commit_at ms (committed k)"
    and commit_err: "kf_commit K ms k = (False, k') \<Longrightarrow>
      committed k' p = committed k p \<or> committed k' p = commit_at ms (committed k) p"
    and dlq_same: "kf_dlq K ms k = (b, k') \<Longrightarrow> committed k' = committed k"
begin

abbreviation h_committed :: "('d, 'r, 'k) hybrid \<Rightarrow> int \<Rightarrow> int" where "h_committed h \<equiv> committed (hr_kafka h)"

lemma fetched:
  "fetch_batch K n acc h = Some (r, h') \<Longrightarrow>
   \<exists>b. r = Inr (acc @ b) \<and> h_committed h' = h_committed h \<and> hr_SessionRouter h' = hr_SessionRouter h"
proof (induction n arbitrary: acc h)
  case 0
  then show ?case by (auto simp: ret_def intro!: exI [of _ "[]"])
next
  case (Suc n)
  from Suc.prems obtain m k where mk: "kf_fetch K (hr_kafka h) = Some (m, k)"
    by (auto simp: bnd_def split: option.splits)
  show ?case
  proof (cases m)
    case None
    with Suc.prems mk fetch_same [OF mk] show ?thesis by (auto simp: bnd_def ret_def)
  next
    case (Some x)
    with Suc.prems mk have "fetch_batch K n (acc @ [x]) (h\<lparr>hr_kafka := k\<rparr>) = Some (r, h')" by (simp add: bnd_def)
    from Suc.IH [OF this] fetch_same [OF mk] show ?thesis by auto
  qed
qed

end

text \<open>The position of a reader that keeps its partitions (there is no rebalance): a fetch gives the next message of
  one of them, and the reader is after it. The log may have gaps.\<close>

locale kafka_reader = kafka_group K committed
  for K :: "'k kafka_client" and committed :: "'k \<Rightarrow> int \<Rightarrow> int" +
  fixes pos :: "'k \<Rightarrow> int \<Rightarrow> int"
  assumes fetch_ok: "kf_fetch K k = Some (Some m, k') \<Longrightarrow>
      pos k (km_partition m) \<le> km_offset m \<and> pos k' = (pos k)(km_partition m := km_offset m + 1)"
    and fetch_err: "kf_fetch K k = Some (None, k') \<Longrightarrow> pos k' = pos k"
    and commit_pos: "kf_commit K ms k = (b, k') \<Longrightarrow> pos k' = pos k"
    and dlq_pos: "kf_dlq K ms k = (b, k') \<Longrightarrow> pos k' = pos k"
begin

abbreviation h_pos :: "('d, 'r, 'k) hybrid \<Rightarrow> int \<Rightarrow> int" where "h_pos h \<equiv> pos (hr_kafka h)"

lemma fetched_between:
  "fetch_batch K n acc h = Some (r, h') \<Longrightarrow>
   \<exists>b. r = Inr (acc @ b) \<and> (\<forall>p. h_pos h p \<le> h_pos h' p) \<and>
     (\<forall>m \<in> set b. h_pos h (km_partition m) \<le> km_offset m \<and> km_offset m < h_pos h' (km_partition m))"
proof (induction n arbitrary: acc h)
  case 0
  then show ?case by (auto simp: ret_def intro!: exI [of _ "[]"])
next
  case (Suc n)
  from Suc.prems obtain m k where mk: "kf_fetch K (hr_kafka h) = Some (m, k)"
    by (auto simp: bnd_def split: option.splits)
  show ?case
  proof (cases m)
    case None
    with Suc.prems mk fetch_err [of "hr_kafka h" k] show ?thesis by (auto simp: bnd_def ret_def)
  next
    case (Some x)
    with Suc.prems mk have "fetch_batch K n (acc @ [x]) (h\<lparr>hr_kafka := k\<rparr>) = Some (r, h')" by (simp add: bnd_def)
    from Suc.IH [OF this] obtain b where b: "r = Inr ((acc @ [x]) @ b)" and mono: "\<forall>p. pos k p \<le> h_pos h' p"
      and between: "\<forall>m \<in> set b. pos k (km_partition m) \<le> km_offset m \<and> km_offset m < h_pos h' (km_partition m)"
      by auto
    have x: "h_pos h (km_partition x) \<le> km_offset x" "pos k = (h_pos h)(km_partition x := km_offset x + 1)"
      using fetch_ok [of "hr_kafka h" x k] mk Some by auto
    have step: "h_pos h p \<le> pos k p" for p using x by simp
    have "km_offset x < h_pos h' (km_partition x)" using spec [OF mono, of "km_partition x"] x by simp
    with x(1) between step have "\<forall>m \<in> set (x # b). h_pos h (km_partition m) \<le> km_offset m \<and> km_offset m < h_pos h' (km_partition m)"
      by (auto intro: order_trans)
    with b mono step show ?thesis by (intro exI [of _ "x # b"]) (auto intro: order_trans)
  qed
qed

end

text \<open>A consumer group in memory, which reads its topic in the order of arrival; each entry of the log holds its
  partition, its offset and its value. At the end of the log a fetch fails.\<close>

record mem_kafka =
  mk_log :: "(int \<times> int \<times> bytes) list"
  mk_read :: "(int \<times> int \<times> bytes) list"
  mk_pos :: "int \<Rightarrow> int"
  mk_committed :: "int \<Rightarrow> int"
  mk_dlq :: "kafka_message list"

definition mem_message :: "int \<times> int \<times> bytes \<Rightarrow> kafka_message" where
  "mem_message e = (case e of (p, n, v) \<Rightarrow>
     \<lparr>km_topic = ''chat'', km_partition = p, km_offset = n, km_key = [], km_value = v, km_headers = []\<rparr>)"

definition mem_fetch :: "mem_kafka \<Rightarrow> kafka_message option \<times> mem_kafka" where
  "mem_fetch k = (case mk_log k of
     [] \<Rightarrow> (None, k)
   | (p, n, v) # log \<Rightarrow>
       if n < mk_pos k p then (None, k\<lparr>mk_log := log\<rparr>)
       else (Some (mem_message (p, n, v)), k\<lparr>mk_log := log, mk_read := mk_read k @ [(p, n, v)], mk_pos := (mk_pos k)(p := n + 1)\<rparr>))"

definition mem_kafka_client :: "mem_kafka kafka_client" where
  "mem_kafka_client =
     \<lparr>kf_write = (\<lambda>key v k. (True, k\<lparr>mk_log := mk_log k @ [(0, int (length (mk_read k @ mk_log k)), v)]\<rparr>)),
      kf_fetch = (\<lambda>k. Some (mem_fetch k)),
      kf_commit = (\<lambda>ms k. (True, k\<lparr>mk_committed := commit_at ms (mk_committed k)\<rparr>)),
      kf_dlq = (\<lambda>ms k. (True, k\<lparr>mk_dlq := mk_dlq k @ ms\<rparr>))\<rparr>"

interpretation mem_group: kafka_reader mem_kafka_client mk_committed mk_pos
  by unfold_locales
    (auto simp: mem_kafka_client_def mem_fetch_def mem_message_def split: list.splits prod.splits if_splits)

section \<open>What is committed\<close>

text \<open>What the session router answers to the batch \<open>b\<close> that a round has fetched.\<close>

definition asked :: "('d, 'r) chat_env \<Rightarrow> (('d, 'r) chat SessionRouter \<Rightarrow> ('d, 'r) chat SessionRouter) \<Rightarrow> (nat \<Rightarrow> bool \<times> enqueue_branch) \<Rightarrow>
    kafka_message list \<Rightarrow> ('d, 'r, 'k) hybrid \<Rightarrow> (sr_error option \<times> ('d, 'r) chat SessionRouter) option" where
  "asked C sched picks b hf = EnqueueMessagesAndWait sched (ce_now C) (Deadline (ce_now C + 5 * minute))
     (map (\<lambda>(i, m). (km_value m, picks i)) (enumerate 0 b)) (hr_SessionRouter hf)"

context kafka_group
begin

lemma commit_batch_spec:
  assumes "commit_batch K b h = Some (r, h')"
  shows "r = Inr () \<and> (\<forall>p. h_committed h' p = h_committed h p \<or> h_committed h' p = commit_at b (h_committed h) p)"
proof -
  obtain ok k where k: "kf_commit K b (hr_kafka h) = (ok, k)" by (cases "kf_commit K b (hr_kafka h)")
  have "\<forall>p. committed k p = h_committed h p \<or> committed k p = commit_at b (h_committed h) p"
    using k commit_ok [of b "hr_kafka h" k] commit_err [of b "hr_kafka h" k] by (cases ok) auto
  moreover have "r = Inr () \<and> hr_kafka h' = k"
    using k assms by (cases ok) (auto simp: commit_batch_def bnd_def on_kafka_def ret_def on_chat_def count_def modify_def)
  ultimately show ?thesis by simp
qed

lemma round_spec:
  assumes "consume_round C K cfg sched picks text stamp n h = Some (r, h')"
  shows "\<exists>b hf. fetch_batch K kafkaBatchSize [] h = Some (Inr b :: 'e + _, hf) \<and>
    (b = [] \<and> r = (Inr n :: 'e + int) \<and> h_committed h' = h_committed h \<or>
     b \<noteq> [] \<and> (\<exists>err sr. asked C sched picks b hf = Some (err, sr) \<and>
       (err \<noteq> None \<and> r = Inr (n + 1) \<and> h_committed h' = h_committed h \<or>
        r = Inr 0 \<and> (\<forall>p. h_committed h' p = h_committed h p \<or> h_committed h' p = commit_at b (h_committed h) p) \<and>
          (err = None \<or> kc_DLQTopic cfg \<noteq> [] \<and> maxProcessAttempts cfg \<le> n + 1 \<and>
           (\<exists>k. kf_dlq K (buildDLQMessages b (text (the err)) (n + 1) (stamp (ce_now C))) (hr_kafka hf) = (True, k))))))"
proof -
  obtain q hf where q: "fetch_batch K kafkaBatchSize [] h = Some (q :: 'e + _, hf)"
    using assms by (auto simp: consume_round_def bnd_def split: option.splits)
  from fetched [OF q] obtain b where b: "q = Inr b" "h_committed hf = h_committed h" by auto
  show ?thesis
  proof (cases "b = []")
    case True
    with assms q b show ?thesis by (auto simp: consume_round_def bnd_def ret_def)
  next
    case False
    obtain err sr where e: "asked C sched picks b hf = Some (err, sr)"
      using assms q b False by (auto simp: consume_round_def bnd_def asked_def split: option.splits)
    let ?h = "hf\<lparr>hr_SessionRouter := sr\<rparr>"
    let ?moved = "\<lambda>v. \<forall>p. h_committed v p = h_committed h p \<or> h_committed v p = commit_at b (h_committed h) p"
    have committing: "w = Inr 0 \<and> ?moved v"
      if run: "bnd (commit_batch K b) (\<lambda>_. ret 0) u = Some (w, v)" and u: "h_committed u = h_committed hf"
      for u v and w :: "'e + int"
    proof -
      obtain x v1 where x: "commit_batch K b u = Some (x :: 'e + unit, v1)"
        using run by (auto simp: bnd_def split: option.splits)
      from commit_batch_spec [OF x] x run u b(2) show ?thesis by (auto simp: bnd_def ret_def)
    qed
    have rest: "(case err of None \<Rightarrow> bnd (commit_batch K b) (\<lambda>_. ret 0)
       | Some e \<Rightarrow>
           if kc_DLQTopic cfg \<noteq> [] \<and> maxProcessAttempts cfg \<le> n + 1 then
             bnd (SendToDLQ K cfg b (text e) (n + 1) (stamp (ce_now C))) (\<lambda>ok.
             if \<not> ok then ret (n + 1)
             else bnd (counted (\<lambda>m. m\<lparr>kafkaDLQTotal := kafkaDLQTotal m + 1\<rparr>)) (\<lambda>_.
                  bnd (commit_batch K b) (\<lambda>_. ret 0)))
           else ret (n + 1)) ?h = Some (r, h')"
      using assms q b e False by (simp add: consume_round_def bnd_def [of "fetch_batch _ _ _"] asked_def Let_def)
         (simp add: bnd_def split: option.splits)
    have "err \<noteq> None \<and> r = Inr (n + 1) \<and> h_committed h' = h_committed h \<or>
        r = Inr 0 \<and> ?moved h' \<and>
          (err = None \<or> kc_DLQTopic cfg \<noteq> [] \<and> maxProcessAttempts cfg \<le> n + 1 \<and>
           (\<exists>k. kf_dlq K (buildDLQMessages b (text (the err)) (n + 1) (stamp (ce_now C))) (hr_kafka hf) = (True, k)))"
    proof (cases err)
      case None
      with rest committing [of ?h r h'] show ?thesis by simp
    next
      case (Some x)
      show ?thesis
      proof (cases "kc_DLQTopic cfg \<noteq> [] \<and> maxProcessAttempts cfg \<le> n + 1")
        case False
        with rest Some b(2) show ?thesis by (auto simp: ret_def)
      next
        case True
        obtain ok k where k: "kf_dlq K (buildDLQMessages b (text x) (n + 1) (stamp (ce_now C))) (hr_kafka hf) = (ok, k)"
          by (metis surj_pair)
        note runs = SendToDLQ_def bnd_def [of "on_kafka _"] bnd_def [of "on_chat _"] on_kafka_def on_chat_def count_def modify_def ret_def
        show ?thesis
        proof (cases ok)
          case True
          let ?w = "(sr_world sr)\<lparr>ch_metrics := (ch_metrics (sr_world sr))\<lparr>kafkaDLQTotal := kafkaDLQTotal (ch_metrics (sr_world sr)) + 1\<rparr>\<rparr>"
          have "bnd (commit_batch K b) (\<lambda>_. ret 0) (hf\<lparr>hr_kafka := k, hr_SessionRouter := sr\<lparr>sr_world := ?w\<rparr>\<rparr>) = Some (r, h')"
            using rest Some k True \<open>kc_DLQTopic cfg \<noteq> [] \<and> maxProcessAttempts cfg \<le> n + 1\<close> by (simp add: runs)
          from committing [OF this] dlq_same [OF k] show ?thesis
            using Some k True \<open>kc_DLQTopic cfg \<noteq> [] \<and> maxProcessAttempts cfg \<le> n + 1\<close> by auto
        next
          case False
          with dlq_same [OF k] rest Some k b(2) \<open>kc_DLQTopic cfg \<noteq> [] \<and> maxProcessAttempts cfg \<le> n + 1\<close> show ?thesis
            by (auto simp: runs)
        qed
      qed
    qed
    with q b False e show ?thesis by auto
  qed
qed

lemma moved_offset:
  assumes "h_committed h' p = h_committed h p \<or> h_committed h' p = commit_at b (h_committed h) p"
    and "h_committed h' p \<noteq> h_committed h p"
  shows "\<exists>m \<in> set b. km_partition m = p \<and> h_committed h' p = km_offset m + 1 \<and>
    (\<forall>m' \<in> set b. km_partition m' = p \<longrightarrow> km_offset m' \<le> km_offset m)"
proof -
  have "h_committed h' p = commit_at b (h_committed h) p" using assms by simp
  with assms(2) obtain n where n: "batch_end b p = Some n" "h_committed h' p = n"
    by (cases "batch_end b p") (auto simp: commit_at_def)
  then show ?thesis using batch_end_greatest [of b p n] by simp
qed

end

context kafka_reader
begin

text \<open>A round leaves the reader where its fetches have left it.\<close>

lemma round_pos:
  assumes "consume_round C K cfg sched picks text stamp n h = Some (r :: 'e + int, h')"
    and "fetch_batch K kafkaBatchSize [] h = Some (Inr b :: 'e + _, hf)"
  shows "h_pos h' = h_pos hf"
proof -
  have commits: "h_pos v = h_pos u" if "commit_batch K b u = Some (x :: 'e + unit, v)" for u v x
  proof -
    obtain ok k where k: "kf_commit K b (hr_kafka u) = (ok, k)" by (cases "kf_commit K b (hr_kafka u)")
    with commit_pos [OF k] that show ?thesis
      by (cases ok) (auto simp: commit_batch_def bnd_def on_kafka_def ret_def on_chat_def count_def modify_def)
  qed
  have dlqs: "h_pos v = h_pos u" if "SendToDLQ K cfg b c i s u = Some (x :: 'e + bool, v)" for c i s u v x
    using that dlq_pos by (auto simp: SendToDLQ_def on_kafka_def ret_def split: if_splits prod.splits)
  show ?thesis using assms
    by (auto simp: consume_round_def bnd_def ret_def Let_def on_chat_def count_def modify_def
        dest!: commits dlqs split: option.splits sum.splits if_splits)
qed

end

text \<open>C5. When a round of the consumer moves the committed offset of partitions, it has fetched a batch, whatever
  partitions it mixes, and each offset that moved is now the one after the greatest of that partition's
  messages in the batch. And either \<open>EnqueueMessagesAndWait\<close> has answered nil for this batch, which it does
  when each message of it was enqueued with a channel of its own and each channel has received nil; or it has
  answered an error, the dead-letter topic is configured and has taken the whole batch, and the counter of
  failed rounds has reached the maximum of attempts. The counter is reset by a success only: the failed
  rounds it counts need not be of this batch.\<close>

theorem commit_only_confirmed:
  assumes "kafka_group K committed" and "consume_round C K cfg sched picks text stamp n h = Some (r :: 'e + int, h')"
    and "committed (hr_kafka h') \<noteq> committed (hr_kafka h)"
  shows "\<exists>b hf. fetch_batch K kafkaBatchSize [] h = Some (Inr b :: 'e + _, hf) \<and> r = Inr 0 \<and>
    (\<forall>p. committed (hr_kafka h') p \<noteq> committed (hr_kafka h) p \<longrightarrow>
       (\<exists>m \<in> set b. km_partition m = p \<and> committed (hr_kafka h') p = km_offset m + 1 \<and>
          (\<forall>m' \<in> set b. km_partition m' = p \<longrightarrow> km_offset m' \<le> km_offset m))) \<and>
    ((\<exists>ds r1. enqueue_batch sched (ce_now C) (Deadline (ce_now C + 5 * minute))
          (map (\<lambda>(i, m). (km_value m, picks i)) (enumerate 0 b)) (hr_SessionRouter hf) = Some (Inr ds, r1) \<and>
        length ds = length b \<and> (\<forall>d \<in> set ds. ack_of (sr_trace (sched r1)) d = Some None)) \<or>
     (\<exists>err sr k. asked C sched picks b hf = Some (Some err, sr) \<and> kc_DLQTopic cfg \<noteq> [] \<and> maxProcessAttempts cfg \<le> n + 1 \<and>
        kf_dlq K (buildDLQMessages b (text err) (n + 1) (stamp (ce_now C))) (hr_kafka hf) = (True, k)))"
proof -
  let ?old = "committed (hr_kafka h)" and ?new = "committed (hr_kafka h')"
  from kafka_group.round_spec [OF assms(1,2)] assms(3) obtain b hf err sr where
    b: "fetch_batch K kafkaBatchSize [] h = Some (Inr b :: 'e + _, hf)" "r = Inr 0" and e: "asked C sched picks b hf = Some (err, sr)"
    and moved: "\<forall>p. ?new p = ?old p \<or> ?new p = commit_at b ?old p"
    and why: "err = None \<or> kc_DLQTopic cfg \<noteq> [] \<and> maxProcessAttempts cfg \<le> n + 1 \<and>
       (\<exists>k. kf_dlq K (buildDLQMessages b (text (the err)) (n + 1) (stamp (ce_now C))) (hr_kafka hf) = (True, k))"
    by blast
  have offsets: "\<forall>p. ?new p \<noteq> ?old p \<longrightarrow> (\<exists>m \<in> set b. km_partition m = p \<and> ?new p = km_offset m + 1 \<and>
          (\<forall>m' \<in> set b. km_partition m' = p \<longrightarrow> km_offset m' \<le> km_offset m))"
    using kafka_group.moved_offset [OF assms(1) moved [THEN spec]] by blast
  show ?thesis
  proof (cases err)
    case None
    let ?items = "map (\<lambda>(i, m). (km_value m, picks i)) (enumerate 0 b)"
    have run: "EnqueueMessagesAndWait sched (ce_now C) (Deadline (ce_now C + 5 * minute)) ?items (hr_SessionRouter hf) = Some (None, sr)"
      using e None by (simp add: asked_def)
    then obtain res r1 where "enqueue_batch sched (ce_now C) (Deadline (ce_now C + 5 * minute)) ?items (hr_SessionRouter hf) = Some (res, r1)"
      by (auto simp: EnqueueMessagesAndWait_def split: option.splits)
    with batch_confirmed_iff [OF this] run b offsets show ?thesis by auto
  next
    case (Some x)
    with why b e offsets show ?thesis by auto
  qed
qed

text \<open>A batch that fails is skipped. The comments say that it is retried, but the reader, as long as it keeps its
  partitions, goes on with the messages after it; and when a later round commits one of its partitions, the
  group is past the messages of the failed batch there, none of which need have been processed: they are
  never delivered again.\<close>

theorem failed_batch_skipped:
  assumes "kafka_reader K committed pos"
    and "consume_round C K cfg sched picks text stamp n h = Some (Inr (n + 1) :: 'e + int, h1)"
    and "pos (hr_kafka h2) = pos (hr_kafka h1)" and "committed (hr_kafka h2) = committed (hr_kafka h1)"
    and "consume_round C' K cfg sched' picks' text stamp (n + 1) h2 = Some (r :: 'e + int, h3)"
    and "committed (hr_kafka h3) p \<noteq> committed (hr_kafka h2) p" and "0 \<le> n"
  shows "\<exists>b hf b' hf' e sr. fetch_batch K kafkaBatchSize [] h = Some (Inr b :: 'e + _, hf) \<and> b \<noteq> [] \<and>
    asked C sched picks b hf = Some (Some e, sr) \<and> fetch_batch K kafkaBatchSize [] h2 = Some (Inr b' :: 'e + _, hf') \<and>
    (\<forall>m \<in> set b. km_partition m = p \<longrightarrow> km_offset m < committed (hr_kafka h3) p \<and>
       (\<forall>m' \<in> set b'. km_partition m' = p \<longrightarrow> km_offset m < km_offset m'))"
proof -
  have group: "kafka_group K committed" using assms(1) by (rule kafka_reader.axioms)
  from kafka_group.round_spec [OF group assms(2)] assms(7) obtain b hf e sr where b: "fetch_batch K kafkaBatchSize [] h = Some (Inr b :: 'e + _, hf)"
    "b \<noteq> []" "asked C sched picks b hf = Some (Some e, sr)"
    by auto
  from kafka_group.round_spec [OF group assms(5)] assms(6) obtain b' hf' where b': "fetch_batch K kafkaBatchSize [] h2 = Some (Inr b' :: 'e + _, hf')"
    and moved: "\<forall>q. committed (hr_kafka h3) q = committed (hr_kafka h2) q \<or> committed (hr_kafka h3) q = commit_at b' (committed (hr_kafka h2)) q"
    by auto
  obtain m1 where m1: "m1 \<in> set b'" "km_partition m1 = p" "committed (hr_kafka h3) p = km_offset m1 + 1"
    using kafka_group.moved_offset [OF group moved [THEN spec] assms(6)] by blast
  have before: "\<forall>m \<in> set b. km_offset m < pos (hr_kafka h2) (km_partition m)"
    using kafka_reader.fetched_between [OF assms(1) b(1)] kafka_reader.round_pos [OF assms(1,2) b(1)] assms(3) by auto
  have after: "\<forall>m' \<in> set b'. pos (hr_kafka h2) (km_partition m') \<le> km_offset m'"
    using kafka_reader.fetched_between [OF assms(1) b'] by auto
  have "km_offset m < km_offset m'" if "m \<in> set b" "km_partition m = p" "m' \<in> set b'" "km_partition m' = p" for m m'
    using before [rule_format, OF that(1)] after [rule_format, OF that(3)] that(2,4) by simp
  with b b' m1 show ?thesis by fastforce
qed

text \<open>Two rounds: the first finds a message that is no envelope, the second a good one.\<close>

definition demo_worker :: "'w SessionRouter \<Rightarrow> 'w SessionRouter" where
  "demo_worker r = (case run_worker \<lparr>proc_kind = EnvelopeProc, proc_run = \<lambda>_ w. (w, POk)\<rparr> RecvBranch 0 r of Some r' \<Rightarrow> r' | None \<Rightarrow> r)"

definition demo_consume :: "int \<Rightarrow> (mem_db, mem_redis, mem_kafka, unit, int) hr_act" where
  "demo_consume = consume_round (demo_chat_env 9) mem_kafka_client \<lparr>kc_DLQTopic = [], kc_MaxProcessRetries = 5\<rparr> demo_worker
     (\<lambda>_. (False, SendBranch)) (\<lambda>_. ''error'') (\<lambda>_. ''now'')"

definition demo_group :: "(int \<times> int \<times> bytes) list \<Rightarrow> (int \<times> int \<times> bytes) list \<Rightarrow> int \<Rightarrow> mem_kafka" where
  "demo_group log done n = \<lparr>mk_log = log, mk_read = done, mk_pos = (\<lambda>p. if p = 1 then n else 0), mk_committed = (\<lambda>_. 0), mk_dlq = []\<rparr>"

lemma fetch_one:
  assumes "hr_kafka h = demo_group [(1, n, v)] done n"
  shows "fetch_batch mem_kafka_client kafkaBatchSize [] h = Some (Inr [mem_message (1, n, v)],
    h\<lparr>hr_kafka := demo_group [] (done @ [(1, n, v)]) (n + 1)\<rparr>)"
proof -
  have "kafkaBatchSize = Suc (Suc 198)" by simp
  moreover have "(\<lambda>p. if p = 1 then n else 0)(1 := n + 1) = (\<lambda>p :: int. if p = 1 then n + 1 else 0)" by auto
  ultimately show ?thesis using assms
    by (simp only: fetch_batch.simps) (simp add: mem_kafka_client_def mem_fetch_def bnd_def ret_def demo_group_def)
qed

lemma not_an_envelope: "snd (decode_envelope ''x'')"
  by code_simp

abbreviation demo_good :: bytes where
  "demo_good \<equiv> encode_envelope \<lparr>SeqNum = 1, MsgID = ''M1'', Payload = session_bytes ''S1''\<rparr>"

lemma demo_first_round:
  "\<exists>h1. demo_consume 0 (new_hybrid demo (demo_group [(1, 0, ''x'')] [] 0)) = Some (Inr 1, h1) \<and> hr_kafka h1 = demo_group [] [(1, 0, ''x'')] 1 \<and>
     hr_SessionRouter h1 = (hr_SessionRouter (new_hybrid demo (demo_group [(1, 0, ''x'')] [] 0)))\<lparr>sr_nextDone := 1\<rparr>"
proof -
  obtain e where e: "decode_envelope ''x'' = (e, True)" using not_an_envelope by (cases "decode_envelope ''x''") auto
  have h: "hr_kafka (new_hybrid demo (demo_group [(1, 0, ''x'')] [] 0)) = demo_group [(1, 0, ''x'')] [] 0"
    by (simp add: new_hybrid_def)
  show ?thesis
    unfolding demo_consume_def consume_round_def bnd_def [of "fetch_batch _ _ _"]
    by (subst fetch_one [OF h]) (simp add: new_hybrid_def mem_message_def NewSessionRouter_def EnqueueMessagesAndWait_def fresh_done_def
        enqueue_def parseQueuedEnvelope_def e bnd_def ret_def Let_def enumerate_eq_zip)
qed

lemma demo_second_round:
  assumes "hr_kafka h = demo_group [(1, 1, demo_good)] done 1"
    and "hr_SessionRouter h = (NewSessionRouter CHANNEL_SIZE zero_metrics (NewMessageProcessor demo))\<lparr>sr_nextDone := 1\<rparr>"
  shows "\<exists>h3. demo_consume 1 h = Some (Inr 0, h3) \<and> mk_committed (hr_kafka h3) 1 = 2"
    unfolding demo_consume_def consume_round_def bnd_def [of "fetch_batch _ _ _"]
    by (subst fetch_one [OF assms(1)]) (simp add: assms(2) demo_group_def mem_message_def NewSessionRouter_def EnqueueMessagesAndWait_def fresh_done_def
        enqueue_def parseQueuedEnvelope_def envelope_roundtrip session_of_bytes bnd_def ret_def Let_def enumerate_eq_zip
        getOrCreateSessionQueue_def enqueue_select_def new_queue_def try_send_def make_chan_def demo_worker_def run_worker_def processSessionQueue_def
        try_recv_def processEnvelope_def process_loop.simps finishQueuedEnvelope_def select_call_def commit_batch_def on_kafka_def
        mem_kafka_client_def commit_at_def batch_end_def)

definition demo_start :: "(mem_db, mem_redis, mem_kafka) hybrid" where
  "demo_start = new_hybrid demo (demo_group [(1, 0, ''x'')] [] 0)"

lemma demo_rounds:
  "\<exists>h1 h2 h3. demo_consume 0 demo_start = Some (Inr 1, h1) \<and> mk_pos (hr_kafka h2) = mk_pos (hr_kafka h1) \<and>
     mk_committed (hr_kafka h2) = (\<lambda>_. 0) \<and> mk_committed (hr_kafka h1) = (\<lambda>_. 0) \<and> demo_consume 1 h2 = Some (Inr 0, h3) \<and>
     mk_committed (hr_kafka h3) 1 = 2"
proof -
  obtain h1 where h1: "demo_consume 0 demo_start = Some (Inr 1, h1)" "hr_kafka h1 = demo_group [] [(1, 0, ''x'')] 1"
    "hr_SessionRouter h1 = (hr_SessionRouter demo_start)\<lparr>sr_nextDone := 1\<rparr>"
    using demo_first_round by (auto simp: demo_start_def)
  let ?h2 = "h1\<lparr>hr_kafka := demo_group [(1, 1, demo_good)] [(1, 0, ''x'')] 1\<rparr>"
  obtain h3 where "demo_consume 1 ?h2 = Some (Inr 0, h3)" "mk_committed (hr_kafka h3) 1 = 2"
    using demo_second_round [of ?h2] h1(3) by (auto simp: demo_start_def new_hybrid_def)
  with h1 show ?thesis
    by (intro exI [of _ h1] exI [of _ ?h2] exI [of _ h3]) (simp add: demo_group_def)
qed

theorem commit_only_confirmed_witness:
  "\<exists>h h' (b :: kafka_message list) (hf :: (mem_db, mem_redis, mem_kafka) hybrid) ds r1. demo_consume 1 h = Some (Inr 0, h') \<and> mk_committed (hr_kafka h') 1 = 2 \<and>
     enqueue_batch demo_worker 9 (Deadline (9 + 5 * minute))
       (map (\<lambda>(i, m). (km_value m, False, SendBranch)) (enumerate 0 b)) (hr_SessionRouter hf) = Some (Inr ds, r1) \<and>
     (\<exists>m \<in> set b. km_partition m = 1 \<and> km_offset m = 1) \<and> length ds = length b \<and>
     (\<forall>d \<in> set ds. ack_of (sr_trace (demo_worker r1)) d = Some None)"
proof -
  obtain h h' where h: "demo_consume 1 h = Some (Inr 0, h')" "mk_committed (hr_kafka h) = (\<lambda>_. 0)" "mk_committed (hr_kafka h') 1 = 2"
    using demo_rounds by blast
  have moved: "mk_committed (hr_kafka h') 1 \<noteq> mk_committed (hr_kafka h) 1" using h by simp
  then have "mk_committed (hr_kafka h') \<noteq> mk_committed (hr_kafka h)" by auto
  from commit_only_confirmed [OF mem_group.kafka_group_axioms h(1) [unfolded demo_consume_def] this]
  obtain b :: "kafka_message list" and ds r1 and hf :: "(mem_db, mem_redis, mem_kafka) hybrid"
    where b: "\<forall>p. mk_committed (hr_kafka h') p \<noteq> mk_committed (hr_kafka h) p \<longrightarrow>
       (\<exists>m \<in> set b. km_partition m = p \<and> mk_committed (hr_kafka h') p = km_offset m + 1 \<and>
          (\<forall>m' \<in> set b. km_partition m' = p \<longrightarrow> km_offset m' \<le> km_offset m))"
    and run: "enqueue_batch demo_worker (ce_now (demo_chat_env 9)) (Deadline (ce_now (demo_chat_env 9) + 5 * minute))
       (map (\<lambda>(i, m). (km_value m, False, SendBranch)) (enumerate 0 b)) (hr_SessionRouter hf) = Some (Inr ds, r1)"
    and c: "length ds = length b" "\<forall>d \<in> set ds. ack_of (sr_trace (demo_worker r1)) d = Some None"
    by (elim exE conjE disjE) (erule (3) that, simp)
  have now: "ce_now (demo_chat_env 9) = 9" by (simp add: demo_chat_env_def)
  from b moved h(3) have "\<exists>m \<in> set b. km_partition m = 1 \<and> km_offset m = 1" by fastforce
  with run [unfolded now] c h(1,3) show ?thesis by blast
qed

theorem failed_batch_skipped_witness:
  "\<exists>h1 h2 h3 b hf. demo_consume 0 demo_start = Some (Inr 1, h1) \<and> demo_consume 1 h2 = Some (Inr 0, h3) \<and>
     fetch_batch mem_kafka_client kafkaBatchSize [] demo_start = Some (Inr b :: unit + _, hf) \<and> b \<noteq> [] \<and>
     (\<forall>m \<in> set b. km_partition m = 1 \<longrightarrow> km_offset m < mk_committed (hr_kafka h3) 1)"
proof -
  obtain h1 h2 h3 where h: "demo_consume 0 demo_start = Some (Inr 1, h1)" "mk_pos (hr_kafka h2) = mk_pos (hr_kafka h1)"
    "mk_committed (hr_kafka h2) = (\<lambda>_. 0)" "mk_committed (hr_kafka h1) = (\<lambda>_. 0)" "demo_consume 1 h2 = Some (Inr 0, h3)"
    "mk_committed (hr_kafka h3) 1 = 2"
    using demo_rounds by blast
  have 1: "demo_consume 0 demo_start = Some (Inr (0 + 1), h1)" and 2: "demo_consume (0 + 1) h2 = Some (Inr 0, h3)"
    and 3: "mk_committed (hr_kafka h2) = mk_committed (hr_kafka h1)" and 4: "mk_committed (hr_kafka h3) 1 \<noteq> mk_committed (hr_kafka h2) 1"
    using h by simp_all
  from failed_batch_skipped [OF mem_group.kafka_reader_axioms 1 [unfolded demo_consume_def] h(2) 3 2 [unfolded demo_consume_def] 4]
  obtain b hf where "fetch_batch mem_kafka_client kafkaBatchSize [] demo_start = Some (Inr b :: unit + _, hf)" "b \<noteq> []"
    "\<forall>m \<in> set b. km_partition m = 1 \<longrightarrow> km_offset m < mk_committed (hr_kafka h3) 1"
    by auto
  with h(1,5) show ?thesis by blast
qed

end
