(* ===== verification/Chat_Servers.thy ===== *)
theory Chat_Servers
  imports Message_Processor
begin

text \<open>
  \<open>chat/server.go\<close> and \<open>chat/kafka_server.go\<close>: the servers of the channel and the Kafka mode. They have
  copies of one handler; the Kafka server gets the messages from the reader instead of a channel,
  and has login and logout in another goroutine. The logins' locks are in \<open>Login_Lock\<close>. Errors of decoding are only logged: the handler
  goes on with what has been decoded. Indexing an empty \<open>ReceiveId\<close> panics.
\<close>

datatype server_panic = IndexOutOfRange

section \<open>The handler\<close>

definition server_message :: "('d, 'r) chat_env \<Rightarrow> ChatMessageRequest \<Rightarrow> Message" where
  "server_message C req = new_message C [] req"

definition server_text_message :: "('d, 'r) chat_env \<Rightarrow> ChatMessageRequest \<Rightarrow> Message" where
  "server_text_message C req = (server_message C req)
     \<lparr>ms_content := Content req, ms_file_size := ''0B'', ms_send_avatar := normalizePath (SendAvatar req)\<rparr>"

text \<open>\<open>FileSizeBytes\<close> is not set.\<close>

definition server_file_message :: "('d, 'r) chat_env \<Rightarrow> ChatMessageRequest \<Rightarrow> Message" where
  "server_file_message C req = (server_message C req)
     \<lparr>ms_url := Url req, ms_file_size := FileSize req, ms_file_type := FileType req, ms_file_name := FileName req,
      ms_send_avatar := normalizePath (SendAvatar req)\<rparr>"

definition deliver_if :: "('d, 'r) chat_env \<Rightarrow> nat option \<Rightarrow> MessageBack \<Rightarrow> ('d, 'r, 'e, unit) chat_act" where
  "deliver_if C c mb = (case c of None \<Rightarrow> ret () | Some p \<Rightarrow> logged (EnqueueDelivery C p mb))"

text \<open>Only the sender's page is updated.\<close>

definition server_to_user :: "('d, 'r) chat_env \<Rightarrow> Message \<Rightarrow> string \<Rightarrow> ('d, 'r, 'e, unit) chat_act" where
  "server_to_user C m rawAvatar =
     (let rsp = user_rsp (ce_tz C) m rawAvatar;
          mb = \<lparr>mb_Message = json_print (user_respond_json rsp), mb_Uuid = ms_uuid m\<rparr> in
      bnd (gets (\<lambda>w. (client_of w (ms_receive_id m), client_of w (ms_send_id m)))) (\<lambda>(receiveClient, sendClient).
      bnd (deliver_if C receiveClient mb) (\<lambda>_.
      bnd (deliver_if C sendClient mb) (\<lambda>_.
      stored (append_cached (ce_env C) user_respond_fields zero_user_respond user_respond_json
        (message_list_key (ms_send_id m) (ms_receive_id m)) rsp)))))"

definition server_to_group :: "('d, 'r) chat_env \<Rightarrow> Message \<Rightarrow> string \<Rightarrow> ('d, 'r, 'e, unit) chat_act" where
  "server_to_group C m rawAvatar =
     (let rsp = group_rsp (ce_tz C) m rawAvatar;
          mb = \<lparr>mb_Message = json_print (group_respond_json rsp), mb_Uuid = ms_uuid m\<rparr> in
      bnd (stored (logged (First (ce_env C) groups (\<lambda>g. gi_uuid g = ms_receive_id m)))) (\<lambda>_.
      attempt (stored (chat_getActiveGroupMemberIDs (ce_env C) (ms_receive_id m))) (\<lambda>r.
      let members = (case r of Inl _ \<Rightarrow> [] | Inr us \<Rightarrow> us) in
      bnd (gets (\<lambda>w. List.map_filter (client_of w) members)) (\<lambda>targets.
      bnd (for_each targets (\<lambda>p. logged (EnqueueDelivery C p mb))) (\<lambda>_.
      stored (append_cached (ce_env C) respond_fields zero_respond group_respond_json
        (group_message_list_key (ms_receive_id m)) rsp))))))"

definition server_text :: "('d, 'r) chat_env \<Rightarrow> ChatMessageRequest \<Rightarrow> ('d, 'r, server_panic, unit) chat_act" where
  "server_text C req =
     (let m = server_text_message C req in
      bnd (Enqueue C m) (\<lambda>_.
      if ms_receive_id m = [] then throw IndexOutOfRange
      else if hd (ms_receive_id m) = CHR ''U'' then server_to_user C m (SendAvatar req)
      else if hd (ms_receive_id m) = CHR ''G'' then server_to_group C m (SendAvatar req)
      else ret ()))"

definition server_file :: "('d, 'r) chat_env \<Rightarrow> ChatMessageRequest \<Rightarrow> ('d, 'r, server_panic, unit) chat_act" where
  "server_file C req =
     (let m = server_file_message C req in
      bnd (Enqueue C m) (\<lambda>_.
      if ms_receive_id m = [] then throw IndexOutOfRange
      else if hd (ms_receive_id m) = CHR ''U'' then server_to_user C m (SendAvatar req)
      else server_to_group C m (SendAvatar req)))"

definition server_av :: "('d, 'r) chat_env \<Rightarrow> ChatMessageRequest \<Rightarrow> ('d, 'r, server_panic, unit) chat_act" where
  "server_av C req =
     (let av = fst (decode_av_data (AVdata req));
          m0 = (server_message C req)\<lparr>ms_av_data := AVdata req\<rparr>;
          m = (if call_signal av then m0\<lparr>ms_send_avatar := normalizePath (SendAvatar req)\<rparr> else m0) in
      bnd (if call_signal av then bnd (Enqueue C m) (\<lambda>_. ret ()) else ret ()) (\<lambda>_.
      if ReceiveId req = [] then throw IndexOutOfRange
      else if hd (ReceiveId req) = CHR ''U'' then
        bnd (gets (\<lambda>w. client_of w (ms_receive_id m))) (\<lambda>receiveClient.
        deliver_if C receiveClient \<lparr>mb_Message = json_print (av_respond_json (av_rsp (ce_tz C) m)), mb_Uuid = ms_uuid m\<rparr>)
      else ret ()))"

definition server_handle :: "('d, 'r) chat_env \<Rightarrow> bytes \<Rightarrow> ('d, 'r, server_panic, unit) chat_act" where
  "server_handle C data =
     (let req = fst (decode_request data) in
      if Type req = type_Text then server_text C req
      else if Type req = type_File then server_file C req
      else if Type req = type_AudioOrVideo then server_av C req
      else ret ())"

section \<open>The servers\<close>

text \<open>\<open>sv_running\<close>: the goroutine that handles messages runs. In the channel mode nothing recovers its
  panic, which ends the process.\<close>

record ('d, 'r) server =
  sv_chat :: "('d, 'r) chat"
  sv_Transmit :: "bytes chan"
  sv_running :: bool

definition new_server :: "('d, 'r) stores \<Rightarrow> ('d, 'r) server" where
  "new_server s = \<lparr>sv_chat = NewMessageProcessor s, sv_Transmit = make_chan 4096, sv_running = True\<rparr>"

text \<open>\<open>SendMessageToTransmit\<close> blocks while the channel is full (\<open>None\<close>).\<close>

definition SendMessageToTransmit :: "bytes \<Rightarrow> ('d, 'r) server \<Rightarrow> ('d, 'r) server option" where
  "SendMessageToTransmit data s = map_option (\<lambda>c. s\<lparr>sv_Transmit := c\<rparr>) (try_send (sv_Transmit s) data)"

definition handled :: "('d, 'r) chat_env \<Rightarrow> bytes \<Rightarrow> ('d, 'r) server \<Rightarrow> ('d, 'r) server option" where
  "handled C data s =
     (case server_handle C data (sv_chat s) of
        None \<Rightarrow> None
      | Some (Inr _, w) \<Rightarrow> Some (s\<lparr>sv_chat := w\<rparr>)
      | Some (Inl IndexOutOfRange, w) \<Rightarrow> Some (s\<lparr>sv_chat := w, sv_running := False\<rparr>))"

text \<open>What the login and logout branches of the two main loops do, which cannot fail.\<close>

definition with_client :: "('d, 'r, unit, unit) chat_act \<Rightarrow> ('d, 'r) server \<Rightarrow> ('d, 'r) server option" where
  "with_client m s = map_option (\<lambda>(_, w). s\<lparr>sv_chat := w\<rparr>) (m (sv_chat s))"

datatype server_branch = ServerLogin nat | ServerLogout nat | ServerTransmit

definition server_round :: "('d, 'r) chat_env \<Rightarrow> server_branch \<Rightarrow> ('d, 'r) server \<Rightarrow> ('d, 'r) server option" where
  "server_round C b s =
     (if \<not> sv_running s then None
      else (case b of
        ServerLogin p \<Rightarrow> with_client (login_client C server_welcome None p) s
      | ServerLogout p \<Rightarrow> with_client (logout_client C None p) s
      | ServerTransmit \<Rightarrow>
          (case try_recv (sv_Transmit s) of
             None \<Rightarrow> None
           | Some (data, c) \<Rightarrow> handled C data (s\<lparr>sv_Transmit := c\<rparr>))))"

text \<open>The Kafka server's goroutines: the one that reads messages, whose offsets the reader commits, and whose
  panic is recovered outside its loop (an error of \<open>ReadMessage\<close> is logged, and the empty message
  handled); and the one of the logins.\<close>

definition kafka_reader_round :: "('d, 'r) chat_env \<Rightarrow> bytes option \<Rightarrow> ('d, 'r) server \<Rightarrow> ('d, 'r) server option" where
  "kafka_reader_round C kafkaMessage s =
     (if \<not> sv_running s then None
      else handled C (case kafkaMessage of None \<Rightarrow> [] | Some data \<Rightarrow> data) s)"

definition kafka_login_round :: "('d, 'r) chat_env \<Rightarrow> server_branch \<Rightarrow> ('d, 'r) server \<Rightarrow> ('d, 'r) server option" where
  "kafka_login_round C b s =
     (case b of
        ServerLogin p \<Rightarrow> with_client (login_client C server_welcome None p) s
      | ServerLogout p \<Rightarrow> with_client (logout_client C None p) s
      | ServerTransmit \<Rightarrow> None)"

end
