(* ===== verification/Distribution_Safety.thy ===== *)
theory Distribution_Safety
  imports Distribution Chat_Memory
begin

text \<open>
  What the distribution guarantees: the table of recent deliveries, with its clean-up, tells exactly
  the deliveries that were made less than two minutes before; a batch that the stream delivers again
  reaches nobody; and the messages of a group go through one worker in the order of their
  submission.
\<close>

section \<open>The table of recent deliveries\<close>

fun dedup_calls :: "nat \<Rightarrow> (string \<times> time) list \<Rightarrow> (string \<times> time) list \<Rightarrow> bool list" where
  "dedup_calls limit [] seen = []"
| "dedup_calls limit ((k, t) # cs) seen =
     (case dedup_table limit k t seen of (b, seen') \<Rightarrow> b # dedup_calls limit cs seen')"

text \<open>The specification: seen, when the last delivery that was let through is less than the TTL ago.\<close>

fun seen_spec :: "(string \<times> time) list \<Rightarrow> (string \<times> time) list \<Rightarrow> bool list" where
  "seen_spec made [] = []"
| "seen_spec made ((k, t) # cs) =
     (let b = list_ex (\<lambda>(k', s). k' = k \<and> t < s + dedupTTL) made in b # seen_spec (if b then made else (k, t) # made) cs)"

definition table_ok :: "time \<Rightarrow> (string \<times> time) list \<Rightarrow> (string \<times> time) list \<Rightarrow> bool" where
  "table_ok now made seen \<longleftrightarrow> distinct (map fst seen) \<and>
     (\<forall>k s. map_of seen k = Some s \<longrightarrow> (k, s) \<in> set made) \<and>
     (\<forall>(k, s) \<in> set made. s \<le> now \<and> (now < s + dedupTTL \<longrightarrow> map_of seen k = Some s))"

lemma map_of_filter_keys:
  "distinct (map fst m) \<Longrightarrow> map_of (filter (\<lambda>(_, v). P v) m) k = (case map_of m k of None \<Rightarrow> None | Some v \<Rightarrow> if P v then Some v else None)"
proof (induction m)
  case (Cons x m)
  then have "k = fst x \<Longrightarrow> map_of m k = None" by (simp add: map_of_eq_None_iff)
  with Cons show ?case by (cases x) (auto split: option.split)
qed simp

lemma map_of_dedup_add:
  assumes "distinct (map fst seen)"
  shows "distinct (map fst (dedup_add limit k now seen))"
    and "map_of (dedup_add limit k now seen) k' = Some s \<Longrightarrow> (if k' = k then s = now else map_of seen k' = Some s)"
    and "(if k' = k then s = now else map_of seen k' = Some s) \<Longrightarrow> now < s + dedupTTL \<Longrightarrow> map_of (dedup_add limit k now seen) k' = Some s"
  using assms distinct_update [of seen k now]
  by (auto simp: dedup_add_def Let_def update_conv' map_of_filter_keys distinct_map_filter
      simp del: map_of_eq_Some_iff Some_eq_map_of_iff split: if_splits option.splits)

lemma table_ok_add:
  assumes "table_ok now made seen" and "\<not> list_ex (\<lambda>(k', s). k' = k \<and> now < s + dedupTTL) made"
  shows "table_ok now ((k, now) # made) (dedup_add limit k now seen)"
proof -
  have d: "distinct (map fst seen)" using assms(1) by (simp add: table_ok_def)
  have "(k', s) = (k, now) \<or> (k', s) \<in> set made" if "map_of (dedup_add limit k now seen) k' = Some s" for k' s
    using map_of_dedup_add(2) [OF d that] assms(1) by (auto simp: table_ok_def split: if_splits)
  moreover have "map_of (dedup_add limit k now seen) k' = Some s"
    if "(k', s) = (k, now) \<or> (k', s) \<in> set made" "now < s + dedupTTL" for k' s
    using that assms by (intro map_of_dedup_add(3) [OF d]) (auto simp: table_ok_def list_ex_iff split: if_splits)
  ultimately show ?thesis
    using assms(1) map_of_dedup_add(1) [OF d] by (auto simp: table_ok_def)
qed

lemma table_ok_later: "table_ok now made seen \<Longrightarrow> now \<le> t \<Longrightarrow> table_ok t made seen"
  by (fastforce simp: table_ok_def)

lemma table_ok_seen:
  assumes "table_ok t made seen"
  shows "dedup_table limit k t seen =
    (if list_ex (\<lambda>(k', s). k' = k \<and> t < s + dedupTTL) made then (True, seen) else (False, dedup_add limit k t seen))"
proof -
  have "list_ex (\<lambda>(k', s). k' = k \<and> t < s + dedupTTL) made \<longleftrightarrow> (case map_of seen k of None \<Rightarrow> False | Some s \<Rightarrow> t < s + dedupTTL)"
  proof (cases "map_of seen k")
    case None
    then show ?thesis using assms by (auto simp: table_ok_def list_ex_iff)
  next
    case (Some s)
    then have "(k, s) \<in> set made" using assms by (simp add: table_ok_def)
    moreover have "s' = s" if "(k, s') \<in> set made" "t < s' + dedupTTL" for s'
      using that Some assms by (fastforce simp: table_ok_def simp del: map_of_eq_Some_iff Some_eq_map_of_iff)
    ultimately show ?thesis using Some by (auto simp: list_ex_iff)
  qed
  then show ?thesis by (auto simp: dedup_table_def split: option.splits)
qed

lemma dedup_calls_spec:
  assumes "table_ok now made seen" and "sorted (map snd cs)" and "\<forall>c \<in> set cs. now \<le> snd c"
  shows "dedup_calls limit cs seen = seen_spec made cs"
  using assms
proof (induction cs arbitrary: now made seen)
  case (Cons c cs)
  obtain k t where c: "c = (k, t)" by (cases c)
  have ok: "table_ok t made seen" using Cons.prems by (auto simp: c intro: table_ok_later)
  have rest: "sorted (map snd cs)" "\<forall>c \<in> set cs. t \<le> snd c" using Cons.prems by (auto simp: c)
  show ?case
    using Cons.IH [OF ok rest] Cons.IH [OF table_ok_add [OF ok] rest] by (simp add: c table_ok_seen [OF ok] Let_def)
qed simp

text \<open>C16. The table of the distributor, whose old entries are cleaned up only above a limit, answers every
  sequence of calls at times that do not go back as if it had never forgotten anything: a delivery
  counts as seen if and only if the same one was let through less than two minutes before.\<close>

theorem dedup_exact:
  assumes "sorted (map snd calls)"
  shows "dedup_calls limit calls [] = seen_spec [] calls"
proof (cases calls)
  case (Cons c cs)
  show ?thesis
    by (rule dedup_calls_spec [where now = "snd c"]) (use assms Cons in \<open>auto simp: table_ok_def\<close>)
qed simp

theorem dedup_exact_witness:
  "dedup_calls 1 [(''a'', 0), (''b'', 1), (''a'', 2), (''a'', 120000000000)] [] = [False, False, True, False]"
proof -
  have "sorted (map snd [(''a'', 0 :: time), (''b'', 1), (''a'', 2), (''a'', 120000000000)])" by simp
  from dedup_exact [OF this] show ?thesis by simp
qed

section \<open>Deliveries reach a user once\<close>

definition clients_ok :: "('d, 'r) chat \<Rightarrow> bool" where
  "clients_ok w \<longleftrightarrow> (\<forall>u p. client_of w u = Some p \<longrightarrow> p < length (ch_heap w) \<and> cl_Uuid (ch_heap w ! p) = u)"

definition has_room :: "Client \<Rightarrow> bool" where
  "has_room c \<longleftrightarrow> \<not> cl_done c \<and> length (ch_items (cl_SendBack c)) < ch_cap (cl_SendBack c)"

text \<open>The open clients after \<open>mb\<close> has been delivered to the users \<open>ts\<close>.\<close>

definition delivered_once :: "('d, 'r) chat \<Rightarrow> MessageBack \<Rightarrow> uuid list \<Rightarrow> ('d, 'r) chat \<Rightarrow> bool" where
  "delivered_once w mb ts v \<longleftrightarrow> ch_Clients v = ch_Clients w \<and> length (ch_heap v) = length (ch_heap w) \<and>
     (\<forall>p < length (ch_heap w). cl_done (ch_heap v ! p) = cl_done (ch_heap w ! p) \<and>
        ch_cap (cl_SendBack (ch_heap v ! p)) = ch_cap (cl_SendBack (ch_heap w ! p)) \<and>
        (\<not> cl_done (ch_heap w ! p) \<longrightarrow> ch_items (cl_SendBack (ch_heap v ! p)) = ch_items (cl_SendBack (ch_heap w ! p)) @
          (if has_room (ch_heap w ! p) \<and> (\<exists>t \<in> set ts. t \<noteq> [] \<and> client_of w t = Some p) then [mb] else [])))"

lemma delivered_once_refl: "delivered_once w mb [] w"
  by (simp add: delivered_once_def)

lemma delivered_once_set: "delivered_once w mb ts v \<Longrightarrow> set ts = set ts' \<Longrightarrow> delivered_once w mb ts' v"
  by (simp add: delivered_once_def)

lemma delivered_once_frame:
  "delivered_once w mb ts (v\<lparr>ch_metrics := x\<rparr>) = delivered_once w mb ts v"
  "delivered_once w mb ts (v\<lparr>ch_distributor := y\<rparr>) = delivered_once w mb ts v"
  by (simp_all add: delivered_once_def)

lemma delivered_elsewhere:
  assumes "delivered_once w mb ts v" and "\<And>p. client_of w t = Some p \<Longrightarrow> t \<noteq> [] \<Longrightarrow> \<not> has_room (ch_heap w ! p)"
  shows "delivered_once w mb (ts @ [t]) v"
proof -
  have "(has_room (ch_heap w ! p) \<and> (\<exists>x \<in> set (ts @ [t]). x \<noteq> [] \<and> client_of w x = Some p)) =
      (has_room (ch_heap w ! p) \<and> (\<exists>x \<in> set ts. x \<noteq> [] \<and> client_of w x = Some p))" for p
    using assms(2) by auto
  with assms(1) show ?thesis by (simp add: delivered_once_def)
qed

lemma wp_deliverLocal_once:
  assumes "delivered_once w mb ts v" and "clients_ok w" and "t \<notin> set ts"
    and "\<And>b v'. delivered_once w mb (ts @ [t]) v' \<Longrightarrow> ch_distributor v' = ch_distributor v \<Longrightarrow> Q b v'"
  shows "wp (deliverLocal C t mb) Q X v"
proof (cases "t = [] \<or> client_of w t = None")
  case True
  moreover have "delivered_once w mb (ts @ [t]) v" by (rule delivered_elsewhere [OF assms(1)]) (use True in auto)
  moreover have "client_of v t = client_of w t" using assms(1) by (simp add: delivered_once_def client_of_def)
  ultimately show ?thesis using assms(4) by (auto simp: deliverLocal_def wp_simps)
next
  case False
  then obtain p where t: "t \<noteq> []" "client_of w t = Some p" by auto
  have p: "p < length (ch_heap w)" and only: "client_of w x = Some p \<Longrightarrow> x = t" for x
    using assms(2) t(2) by (auto simp: clients_ok_def)
  have here: "client_of v t = Some p" using assms(1) t by (simp add: delivered_once_def client_of_def)
  let ?c = "ch_heap v ! p"
  have items: "\<not> cl_done ?c \<Longrightarrow> ch_items (cl_SendBack ?c) = ch_items (cl_SendBack (ch_heap w ! p))"
    and same: "cl_done ?c = cl_done (ch_heap w ! p)" "ch_cap (cl_SendBack ?c) = ch_cap (cl_SendBack (ch_heap w ! p))"
    using assms(1,3) p only by (auto simp: delivered_once_def)
  have kept: "delivered_once w mb (ts @ [t]) v" if "\<not> has_room (ch_heap w ! p)"
    by (rule delivered_elsewhere [OF assms(1)]) (use that t in auto)
  have sent: "delivered_once w mb (ts @ [t]) (at_client p (\<lambda>c. c\<lparr>cl_SendBack := q\<rparr>) v)"
    if "try_send (cl_SendBack ?c) mb = Some q" for q
  proof -
    let ?D = "\<lambda>ts r. has_room (ch_heap w ! r) \<and> (\<exists>x \<in> set ts. x \<noteq> [] \<and> client_of w x = Some r)"
    have hit: "?D (ts @ [t]) r = (if r = p then has_room (ch_heap w ! p) else ?D ts r)" for r
      by (cases "r = p") (use t in auto)
    have q: "ch_cap q = ch_cap (cl_SendBack ?c)" "ch_items q = ch_items (cl_SendBack ?c) @ [mb]"
      "length (ch_items (cl_SendBack ?c)) < ch_cap (cl_SendBack ?c)"
      using that by (auto simp: chan_simps)
    have "has_room (ch_heap w ! p)" if "\<not> cl_done (ch_heap w ! p)"
      using that q(3) items same by (simp add: has_room_def)
    then show ?thesis
      using assms(1) p items same q(1,2) unfolding delivered_once_def hit
      by (simp add: at_client_def nth_list_update)
  qed
  have "wp (logged (EnqueueDelivery C p mb)) (\<lambda>_. Q True) X v"
    unfolding EnqueueDelivery_def wp_simps
  proof (cases "try_send (cl_SendBack ?c) mb", goal_cases)
    case 1
    then have "\<not> has_room (ch_heap w ! p)" using items same by (auto simp: chan_simps has_room_def)
    from kept [OF this] 1 show ?case
      by (auto simp: wp_simps intro!: assms(4) simp: delivered_once_frame)
  next
    case (2 q)
    show ?case
    proof (cases "cl_done ?c \<and> ce_late C p")
      case True
      then have "\<not> has_room (ch_heap w ! p)" using same by (simp add: has_room_def)
      from kept [OF this] 2 True show ?thesis by (auto simp: wp_simps intro!: assms(4) simp: delivered_once_frame)
    next
      case False
      with 2 sent [OF 2] show ?thesis by (auto simp: wp_simps intro!: assms(4) simp: at_client_def)
    qed
  qed
  with here t(1) show ?thesis by (simp add: deliverLocal_def wp_simps)
qed

abbreviation seen_at :: "('d, 'r) chat \<Rightarrow> string \<Rightarrow> uuid \<Rightarrow> time option" where
  "seen_at w key t \<equiv> map_of (ds_dedupSeen (ch_distributor w)) (dedup_key key t)"

lemma dedup_key_inj: "dedup_key k t = dedup_key k t' \<longleftrightarrow> t = t'"
  by (simp add: dedup_key_def)

lemma wp_dedupSeenBefore:
  "wp (dedupSeenBefore C k t) Q X v =
   (if k = [] then Q False v
    else (case dedup_table dedupHardLimit (dedup_key k t) (ce_now C) (ds_dedupSeen (ch_distributor v)) of
      (b, seen) \<Rightarrow> Q b (v\<lparr>ch_distributor := (ch_distributor v)\<lparr>ds_dedupSeen := seen\<rparr>\<rparr>)))"
  by (simp add: dedupSeenBefore_def wp_simps split: prod.split)

lemma first_batch:
  assumes "clients_ok w" and "dm_DedupKey d \<noteq> []" and "distinct (map fst (ds_dedupSeen (ch_distributor w)))"
    and "\<And>t. t \<in> set (dm_Targets d) \<Longrightarrow> seen_at w (dm_DedupKey d) t = None"
  shows "wp (DeliverLocalBatch C (Some d)) (\<lambda>_ v. delivered_once w \<lparr>mb_Message = dm_Payload d, mb_Uuid = dm_DedupKey d\<rparr> (dm_Targets d) v \<and>
    (\<forall>t \<in> set (dm_Targets d). seen_at v (dm_DedupKey d) t = Some (ce_now C))) X w"
proof (cases "dm_Targets d = []")
  case True
  then show ?thesis by (simp add: DeliverLocalBatch_def wp_simps delivered_once_refl)
next
  case False
  let ?mb = "\<lparr>mb_Message = dm_Payload d, mb_Uuid = dm_DedupKey d\<rparr>" and ?k = "dm_DedupKey d"
  let ?I = "\<lambda>ys v. delivered_once w ?mb ys v \<and> distinct (map fst (ds_dedupSeen (ch_distributor v))) \<and>
    (\<forall>t \<in> set (dm_Targets d). seen_at v ?k t = (if t \<in> set ys then Some (ce_now C) else None))"
  let ?step = "\<lambda>t. bnd (dedupSeenBefore C ?k t) (\<lambda>dup.
      if dup then count (\<lambda>m. m\<lparr>crossNodeDedupDropped := crossNodeDedupDropped m + 1\<rparr>)
      else bnd (deliverLocal C t ?mb) (\<lambda>_. ret ()))"
  have step: "wp (?step t) (\<lambda>_. ?I (ys @ [t])) X v" if t: "t \<in> set (dm_Targets d)" and I: "?I ys v" for t ys v
  proof (cases "t \<in> set ys")
    case True
    have set: "set ys = set (ys @ [t])" using True by auto
    have "dedup_table dedupHardLimit (dedup_key ?k t) (ce_now C) (ds_dedupSeen (ch_distributor v)) = (True, ds_dedupSeen (ch_distributor v))"
      using I t True by (simp add: dedup_table_def del: map_of_eq_Some_iff)
    moreover have "?I (ys @ [t]) v" using I delivered_once_set [OF _ set, of w ?mb v] unfolding set [symmetric] by blast
    ultimately show ?thesis
      using assms(2) by (simp add: wp_simps wp_dedupSeenBefore delivered_once_frame del: map_of_eq_Some_iff)
  next
    case False
    let ?seen = "dedup_add dedupHardLimit (dedup_key ?k t) (ce_now C) (ds_dedupSeen (ch_distributor v))"
    have table: "dedup_table dedupHardLimit (dedup_key ?k t) (ce_now C) (ds_dedupSeen (ch_distributor v)) = (False, ?seen)"
      using I t False by (simp add: dedup_table_def)
    have d: "distinct (map fst (ds_dedupSeen (ch_distributor v)))" using I by simp
    have seen: "map_of ?seen (dedup_key ?k x) = (if x \<in> set (ys @ [t]) then Some (ce_now C) else None)" if "x \<in> set (dm_Targets d)" for x
    proof (cases "x \<in> set (ys @ [t])")
      case True
      with I that show ?thesis
        by (auto intro!: map_of_dedup_add(3) [OF d] simp: dedup_key_inj simp del: map_of_eq_Some_iff)
    next
      case False
      then have "map_of ?seen (dedup_key ?k x) \<noteq> Some s" for s
        using I that map_of_dedup_add(2) [OF d, of dedupHardLimit "dedup_key ?k t" "ce_now C" "dedup_key ?k x" s]
        by (auto simp: dedup_key_inj simp del: map_of_eq_Some_iff)
      with False show ?thesis by (cases "map_of ?seen (dedup_key ?k x)") auto
    qed
    let ?v = "v\<lparr>ch_distributor := (ch_distributor v)\<lparr>ds_dedupSeen := ?seen\<rparr>\<rparr>"
    have "wp (deliverLocal C t ?mb) (\<lambda>_. ?I (ys @ [t])) X ?v"
      by (rule wp_deliverLocal_once [where w = w and ts = ys])
         (use I assms(1) False seen map_of_dedup_add(1) [OF d] in \<open>auto simp: delivered_once_frame simp del: map_of_eq_Some_iff\<close>)
    then show ?thesis using assms(2) by (simp add: wp_simps wp_dedupSeenBefore table)
  qed
  have loop: "wp (for_each (dm_Targets d) ?step) (\<lambda>_. ?I (dm_Targets d)) X (w\<lparr>ch_metrics := m\<rparr>)" for m
  proof (rule wp_for_each_upto [where I = ?I], goal_cases)
    case (1 ys t zs v)
    from 1(1) have "t \<in> set (dm_Targets d)" by simp
    then show ?case by (rule step [OF _ 1(2)])
  next
    case 2
    have "delivered_once w ?mb [] (w\<lparr>ch_metrics := m\<rparr>)" by (simp only: delivered_once_frame delivered_once_refl)
    with assms(3,4) show ?case by simp
  qed
  then show ?thesis
    using False by (simp add: DeliverLocalBatch_def wp_simps) (rule wp_mono [OF loop], auto simp del: map_of_eq_Some_iff)
qed

lemma second_batch:
  assumes "dm_DedupKey d \<noteq> []" and "ce_now C < t0 + dedupTTL"
    and "\<forall>t \<in> set (dm_Targets d). seen_at w (dm_DedupKey d) t = Some t0"
  shows "wp (DeliverLocalBatch C (Some d)) (\<lambda>_ v. ch_heap v = ch_heap w \<and> ch_Clients v = ch_Clients w) X w"
proof (cases "dm_Targets d = []")
  case False
  let ?I = "\<lambda>v. ch_heap v = ch_heap w \<and> ch_Clients v = ch_Clients w \<and> ds_dedupSeen (ch_distributor v) = ds_dedupSeen (ch_distributor w)"
  have "dedup_table dedupHardLimit (dedup_key (dm_DedupKey d) t) (ce_now C) (ds_dedupSeen (ch_distributor w)) =
      (True, ds_dedupSeen (ch_distributor w))" if "t \<in> set (dm_Targets d)" for t
    using assms(2,3) that by (auto simp: dedup_table_def simp del: map_of_eq_Some_iff)
  then have loop: "wp (for_each (dm_Targets d) (\<lambda>t. bnd (dedupSeenBefore C (dm_DedupKey d) t) (\<lambda>dup.
      if dup then count (\<lambda>m. m\<lparr>crossNodeDedupDropped := crossNodeDedupDropped m + 1\<rparr>)
      else bnd (deliverLocal C t \<lparr>mb_Message = dm_Payload d, mb_Uuid = dm_DedupKey d\<rparr>) (\<lambda>_. ret ())))) (\<lambda>_. ?I) X (w\<lparr>ch_metrics := m\<rparr>)" for m
    by (intro wp_for_each [where I = ?I]) (use assms(1) in \<open>auto simp: wp_simps wp_dedupSeenBefore\<close>)
  then show ?thesis
    using False by (simp add: DeliverLocalBatch_def wp_simps) (rule wp_mono [OF loop], auto)
qed (simp add: DeliverLocalBatch_def wp_simps)

text \<open>C12. A batch from another instance reaches each of its targets once, although the stream may deliver it
  again: the first time the frame is appended once to the queue of every connected target that is open
  and has room (and to no other open connection), also when a user is listed twice; and
  when the same batch comes again within two minutes, no queue changes.\<close>

theorem batch_delivered_once:
  assumes "\<forall>u p. client_of w u = Some p \<longrightarrow> p < length (ch_heap w) \<and> cl_Uuid (ch_heap w ! p) = u"
    and "dm_DedupKey d \<noteq> []" and "distinct (map fst (ds_dedupSeen (ch_distributor w)))"
    and "\<And>t. t \<in> set (dm_Targets d) \<Longrightarrow> map_of (ds_dedupSeen (ch_distributor w)) (dedup_key (dm_DedupKey d) t) = None"
    and "ce_now C' < ce_now C + dedupTTL"
  shows "\<exists>w1 w2. DeliverLocalBatch C (Some d) w = Some (Inr () :: unit + unit, w1) \<and>
    DeliverLocalBatch C' (Some d) w1 = Some (Inr () :: unit + unit, w2) \<and> ch_heap w2 = ch_heap w1 \<and>
    (\<forall>p < length (ch_heap w). \<not> cl_done (ch_heap w ! p) \<longrightarrow>
       ch_items (cl_SendBack (ch_heap w1 ! p)) = ch_items (cl_SendBack (ch_heap w ! p)) @
         (if length (ch_items (cl_SendBack (ch_heap w ! p))) < ch_cap (cl_SendBack (ch_heap w ! p)) \<and>
             (\<exists>t \<in> set (dm_Targets d). t \<noteq> [] \<and> client_of w t = Some p)
          then [\<lparr>mb_Message = dm_Payload d, mb_Uuid = dm_DedupKey d\<rparr>] else []))"
proof -
  have "clients_ok w" using assms(1) by (simp add: clients_ok_def)
  then obtain w1
    where first: "DeliverLocalBatch C (Some d) w = Some (Inr () :: unit + unit, w1)"
      "delivered_once w \<lparr>mb_Message = dm_Payload d, mb_Uuid = dm_DedupKey d\<rparr> (dm_Targets d) w1"
      "\<forall>t \<in> set (dm_Targets d). seen_at w1 (dm_DedupKey d) t = Some (ce_now C)"
    by (rule wpE [OF first_batch [where C = C and X = "\<lambda>_ :: unit. \<lambda>_. False", OF _ assms(2,3,4)]]) auto
  obtain w2
    where "DeliverLocalBatch C' (Some d) w1 = Some (Inr () :: unit + unit, w2)" "ch_heap w2 = ch_heap w1"
    by (rule wpE [OF second_batch [where X = "\<lambda>_ :: unit. \<lambda>_. False", OF assms(2,5) first(3)]]) auto
  with first(1,2) show ?thesis by (auto simp: delivered_once_def has_room_def)
qed

definition demo_delivery :: DeliveryMessage where
  "demo_delivery = \<lparr>dm_Targets = [''U1'', ''U1''], dm_Payload = ''hi'', dm_DedupKey = ''M1'', dm_Kind = ''user''\<rparr>"

definition demo_online :: "(mem_db, mem_redis) chat" where
  "demo_online = (NewMessageProcessor demo)\<lparr>ch_Clients := [(''U1'', 0)],
     ch_heap := [\<lparr>cl_Uuid = ''U1'', cl_SendBack = make_chan clientDeliveryQueueSize, cl_done = False, cl_written = []\<rparr>]\<rparr>"

theorem batch_delivered_once_witness:
  "\<exists>w1 w2. DeliverLocalBatch (demo_chat_env 9) (Some demo_delivery) demo_online = Some (Inr () :: unit + unit, w1) \<and>
     DeliverLocalBatch (demo_chat_env 10) (Some demo_delivery) w1 = Some (Inr () :: unit + unit, w2) \<and>
     ch_items (cl_SendBack (ch_heap w2 ! 0)) = [\<lparr>mb_Message = ''hi'', mb_Uuid = ''M1''\<rparr>]"
proof -
  have "\<exists>w1 w2. DeliverLocalBatch (demo_chat_env 9) (Some demo_delivery) demo_online = Some (Inr () :: unit + unit, w1) \<and>
    DeliverLocalBatch (demo_chat_env 10) (Some demo_delivery) w1 = Some (Inr () :: unit + unit, w2) \<and> ch_heap w2 = ch_heap w1 \<and>
    (\<forall>p < length (ch_heap demo_online). \<not> cl_done (ch_heap demo_online ! p) \<longrightarrow>
       ch_items (cl_SendBack (ch_heap w1 ! p)) = ch_items (cl_SendBack (ch_heap demo_online ! p)) @
         (if length (ch_items (cl_SendBack (ch_heap demo_online ! p))) < ch_cap (cl_SendBack (ch_heap demo_online ! p)) \<and>
             (\<exists>t \<in> set (dm_Targets demo_delivery). t \<noteq> [] \<and> client_of demo_online t = Some p)
          then [\<lparr>mb_Message = dm_Payload demo_delivery, mb_Uuid = dm_DedupKey demo_delivery\<rparr>] else []))"
    by (rule batch_delivered_once)
       (auto simp: demo_online_def demo_delivery_def client_of_def NewMessageProcessor_def NewDistributor_def demo_chat_env_def)
  then show ?thesis by (auto simp: demo_online_def demo_delivery_def client_of_def)
qed

section \<open>The order of a group's messages\<close>

text \<open>Delivering touches the clients' queues, the counters and the cache: an invariant that is indifferent to
  these is kept.\<close>

definition aside :: "(('d, 'r) chat \<Rightarrow> bool) \<Rightarrow> bool" where
  "aside I \<longleftrightarrow> (\<forall>w. I w \<longrightarrow> (\<forall>x. I (w\<lparr>ch_metrics := x\<rparr>)) \<and> (\<forall>h. I (w\<lparr>ch_heap := h\<rparr>)) \<and>
     (\<forall>s. st_db s = st_db (ch_stores w) \<longrightarrow> I (w\<lparr>ch_stores := s\<rparr>)))"

lemma aside_count: "aside I \<Longrightarrow> keeps I (count f)"
  unfolding count_def by (rule keeps_modify) (simp add: aside_def)

lemma aside_EnqueueDelivery: "aside I \<Longrightarrow> keeps I (EnqueueDelivery C p mb)"
  unfolding EnqueueDelivery_def
  by (auto simp: aside_def at_client_def split: option.split intro!: keeps_intros keeps_modify aside_count)

lemma keeps_deliverLocal: "aside I \<Longrightarrow> keeps I (deliverLocal C u mb)"
  unfolding deliverLocal_def by (auto split: option.split intro!: keeps_intros aside_EnqueueDelivery)

lemma on_redis_db: "keeps (\<lambda>s. st_db s = d) (on_redis f)"
  by (auto simp: keeps_def on_redis_def split: prod.splits)

lemma LookupMany_db: "keeps (\<lambda>s. st_db s = d) (LookupMany E us)"
  unfolding LookupMany_def by (auto intro!: keeps_intros on_redis_db)

lemma Publish_db: "keeps (\<lambda>s. st_db s = d) (Publish E b inst bm)"
  unfolding Publish_def by (auto intro!: keeps_intros on_redis_db)

lemma keeps_cached:
  assumes "aside I" and "\<And>d. keeps (\<lambda>s. st_db s = d) m"
  shows "keeps I (stored m)"
proof (rule keepsI)
  fix w r w' assume "I w" and run: "stored m w = Some (r, w')"
  from run obtain s where "m (ch_stores w) = Some (r, s)" "w' = w\<lparr>ch_stores := s\<rparr>"
    by (auto simp: stored_def)
  with keepsD [OF assms(2) refl] \<open>I w\<close> assms(1) show "I w'" by (simp add: aside_def)
qed

lemma keeps_deliver_remote: "aside I \<Longrightarrow> keeps I (deliver_remote C us mb k)"
  unfolding deliver_remote_def publish_delivery_def Let_def
  by (auto split: sum.split intro!: keeps_intros aside_count keeps_cached LookupMany_db Publish_db)

lemma keeps_Deliver: "aside I \<Longrightarrow> keeps I (Deliver C us mb k)"
  unfolding Deliver_def Let_def by (auto intro!: keeps_intros keeps_deliverLocal keeps_deliver_remote)

lemma fanout_stored: "keeps (\<lambda>w. ch_fanout w = x) (stored m)"
  by (auto simp: keeps_def stored_def)

lemma fanout_fanout: "keeps (\<lambda>w. ch_fanout w = x) (fanout C task)"
  unfolding fanout_def
  by (auto split: sum.split intro!: keeps_intros keeps_Deliver fanout_stored simp: aside_def)

text \<open>Submissions and rounds of the workers in any order, with the tasks that were queued and the tasks
  that a worker took, in the order in which that happened.\<close>

inductive fan_step ::
  "('d, 'r) chat_env \<Rightarrow> ('d, 'r) chat \<times> fanoutTask list \<times> fanoutTask list \<Rightarrow> ('d, 'r) chat \<times> fanoutTask list \<times> fanoutTask list \<Rightarrow> bool" for C where
  submit: "ends (Submit late g mb) w () w' \<Longrightarrow>
    fan_step C (w, queued, taken)
      (w', if ch_fanout w' = ch_fanout w then queued else queued @ [\<lparr>ft_groupId = g, ft_messageBack = mb\<rparr>], taken)"
| take_task: "i < length (fx_workers (ch_fanout w)) \<Longrightarrow> ends (fanout_worker C i False) w b w' \<Longrightarrow>
    fan_step C (w, queued, taken) (w', queued, taken @ [hd (ch_items (fx_workers (ch_fanout w) ! i))])"
| close: "ends fanout_Close w () w' \<Longrightarrow> fan_step C (w, queued, taken) (w', queued, taken)"

definition fan_ok :: "('d, 'r) chat \<times> fanoutTask list \<times> fanoutTask list \<Rightarrow> bool" where
  "fan_ok s \<longleftrightarrow> (case s of (w, queued, taken) \<Rightarrow>
     let ws = fx_workers (ch_fanout w) in
     ws \<noteq> [] \<and> (\<forall>i < length ws. \<forall>t \<in> set (ch_items (ws ! i)). shard (length ws) (ft_groupId t) = i) \<and>
     (\<forall>g. filter (\<lambda>t. ft_groupId t = g) queued =
        filter (\<lambda>t. ft_groupId t = g) taken @ filter (\<lambda>t. ft_groupId t = g) (ch_items (ws ! shard (length ws) g))))"

lemma shard_less: "ws \<noteq> [] \<Longrightarrow> shard (length ws) g < length ws"
  by (simp add: shard_def)

lemma fan_ok_submit:
  assumes "fan_ok (w, queued, taken)" and "ends (Submit late g mb) w () w'"
  shows "fan_ok (w', if ch_fanout w' = ch_fanout w then queued else queued @ [\<lparr>ft_groupId = g, ft_messageBack = mb\<rparr>], taken)"
proof -
  let ?ws = "fx_workers (ch_fanout w)" and ?t = "\<lparr>ft_groupId = g, ft_messageBack = mb\<rparr>"
  let ?i = "shard (length ?ws) g"
  have ws: "?ws \<noteq> []" using assms(1) by (simp add: fan_ok_def Let_def)
  have "ch_fanout w' = ch_fanout w \<or>
      (\<exists>q. try_send (?ws ! ?i) ?t = Some q \<and> fx_workers (ch_fanout w') = ?ws[?i := q])"
    using assms(2)
    by (auto simp: ends_def Submit_def bnd_def gets_def modify_def count_def ret_def Let_def split: option.splits if_splits)
  then show ?thesis
  proof
    assume "ch_fanout w' = ch_fanout w"
    with assms(1) show ?thesis by (simp add: fan_ok_def)
  next
    assume "\<exists>q. try_send (?ws ! ?i) ?t = Some q \<and> fx_workers (ch_fanout w') = ?ws[?i := q]"
    then obtain q where sent: "try_send (?ws ! ?i) ?t = Some q" and ws': "fx_workers (ch_fanout w') = ?ws[?i := q]" by blast
    from sent have "ch_items q = ch_items (?ws ! ?i) @ [?t]" by (auto simp: chan_simps)
    note q = this ws'
    have "ch_fanout w' \<noteq> ch_fanout w"
    proof
      assume "ch_fanout w' = ch_fanout w"
      with q shard_less [OF ws, of g] have "ch_items (?ws ! ?i) = ch_items (?ws ! ?i) @ [?t]"
        by (metis nth_list_update_eq)
      then show False by simp
    qed
    then show ?thesis
      using assms(1) q shard_less [OF ws] by (auto simp: fan_ok_def Let_def nth_list_update)
  qed
qed

lemma fanout_worker_takes:
  assumes "ends (fanout_worker C i False) w b w'"
  shows "\<exists>t ts. ch_items (fx_workers (ch_fanout w) ! i) = t # ts \<and>
    fx_workers (ch_fanout w') = (fx_workers (ch_fanout w))[i := (fx_workers (ch_fanout w) ! i)\<lparr>ch_items := ts\<rparr>]"
proof -
  let ?ws = "fx_workers (ch_fanout w)"
  obtain t ts where items: "ch_items (?ws ! i) = t # ts"
    and run: "bnd (fanout C t) (\<lambda>_. ret True)
      (w\<lparr>ch_fanout := (ch_fanout w)\<lparr>fx_workers := ?ws[i := (?ws ! i)\<lparr>ch_items := ts\<rparr>]\<rparr>\<rparr>) = Some (Inr b :: unit + bool, w')"
    using assms by (auto simp: ends_def fanout_worker_def chan_simps split: option.splits)
  have "keeps (\<lambda>w. ch_fanout w = x) (bnd (fanout C t) (\<lambda>_. ret True))" for x
    by (intro keeps_intros fanout_fanout)
  from keepsD [OF this _ run] items show ?thesis by simp
qed

lemma fan_ok_take:
  assumes "fan_ok (w, queued, taken)" and "i < length (fx_workers (ch_fanout w))" and "ends (fanout_worker C i False) w b w'"
  shows "fan_ok (w', queued, taken @ [hd (ch_items (fx_workers (ch_fanout w) ! i))])"
proof -
  let ?ws = "fx_workers (ch_fanout w)"
  obtain t ts where items: "ch_items (?ws ! i) = t # ts"
    and ws': "fx_workers (ch_fanout w') = ?ws[i := (?ws ! i)\<lparr>ch_items := ts\<rparr>]"
    using fanout_worker_takes [OF assms(3)] by blast
  have i: "shard (length ?ws) (ft_groupId t) = i" using assms(1,2) items by (force simp: fan_ok_def Let_def)
  have "filter (\<lambda>t. ft_groupId t = g) queued = filter (\<lambda>t. ft_groupId t = g) (taken @ [t]) @
      filter (\<lambda>t. ft_groupId t = g) (ch_items (?ws[i := (?ws ! i)\<lparr>ch_items := ts\<rparr>] ! shard (length ?ws) g))" for g
  proof (cases "shard (length ?ws) g = i")
    case True
    with assms(1,2) items show ?thesis by (simp add: fan_ok_def Let_def)
  next
    case False
    with i have "ft_groupId t \<noteq> g" by auto
    with False assms(1) show ?thesis by (simp add: fan_ok_def Let_def)
  qed
  moreover have "\<forall>k < length ?ws. \<forall>x \<in> set (ch_items (?ws[i := (?ws ! i)\<lparr>ch_items := ts\<rparr>] ! k)). shard (length ?ws) (ft_groupId x) = k"
    using assms(1,2) items by (auto simp: fan_ok_def Let_def nth_list_update)
  ultimately show ?thesis using assms(1) by (simp add: fan_ok_def Let_def ws' items)
qed

lemma fan_step_ok: "fan_step C s s' \<Longrightarrow> fan_ok s \<Longrightarrow> fan_ok s'"
proof (induction rule: fan_step.induct)
  case (submit late g mb w w' queued taken)
  then show ?case by (blast intro: fan_ok_submit)
next
  case (take_task i w b w' queued taken)
  then show ?case by (blast intro: fan_ok_take)
next
  case (close w w' queued taken)
  then show ?case by (auto simp: ends_def fanout_Close_def modify_def fan_ok_def)
qed

definition demo_frame :: MessageBack where
  "demo_frame = \<lparr>mb_Message = ''hi'', mb_Uuid = ''M1''\<rparr>"

text \<open>C13. The messages of a group are fanned out in the order in which they were queued, whatever other groups
  do and however the eight workers are scheduled: at any time the tasks of the group that a worker has
  taken are the first ones of those that \<open>Submit\<close> has queued, and those that follow are still
  in the group's queue.\<close>

theorem group_messages_in_order:
  assumes "(fan_step C)\<^sup>*\<^sup>* (NewMessageProcessor s, [], []) (w, queued, taken)"
  shows "filter (\<lambda>t. ft_groupId t = g) queued = filter (\<lambda>t. ft_groupId t = g) taken @
    filter (\<lambda>t. ft_groupId t = g) (ch_items (fx_workers (ch_fanout w) ! shard fanoutWorkerCount g))"
proof -
  have "length (fx_workers (ch_fanout w)) = fanoutWorkerCount \<and> fan_ok (w, queued, taken)"
    using assms
  proof (induction "(w, queued, taken)" arbitrary: w queued taken rule: rtranclp_induct)
    case base
    then show ?case
      by (auto simp: NewMessageProcessor_def NewFanoutExecutor_def fan_ok_def Let_def shard_def nth_append)
  next
    case (step s')
    obtain w0 q0 t0 where s': "s' = (w0, q0, t0)" by (cases s')
    have ok: "fan_ok (w0, q0, t0)" and len: "length (fx_workers (ch_fanout w0)) = fanoutWorkerCount"
      using step(3) [OF s'] by simp_all
    have "length (fx_workers (ch_fanout w)) = length (fx_workers (ch_fanout w0))"
      using step(2) unfolding s'
    proof cases
      case (submit late g mb)
      then show ?thesis
        by (auto simp: ends_def Submit_def bnd_def gets_def modify_def count_def ret_def Let_def split: option.splits if_splits)
    next
      case (take_task i b)
      with fanout_worker_takes [OF take_task(4)] show ?thesis by auto
    next
      case close
      then show ?thesis by (auto simp: ends_def fanout_Close_def modify_def)
    qed
    with len fan_step_ok [OF step(2)] ok s' show ?case by simp
  qed
  then show ?thesis by (simp add: fan_ok_def Let_def)
qed

theorem group_messages_in_order_witness:
  "\<exists>w. (fan_step (demo_chat_env 9))\<^sup>*\<^sup>* (NewMessageProcessor demo, [], [])
      (w, [\<lparr>ft_groupId = ''G1'', ft_messageBack = demo_frame\<rparr>], []) \<and>
    filter (\<lambda>t. ft_groupId t = ''G1'') (ch_items (fx_workers (ch_fanout w) ! shard fanoutWorkerCount ''G1'')) =
      [\<lparr>ft_groupId = ''G1'', ft_messageBack = demo_frame\<rparr>]"
proof -
  let ?t = "\<lparr>ft_groupId = ''G1'', ft_messageBack = demo_frame\<rparr>" and ?w = "NewMessageProcessor demo"
  let ?ws = "fx_workers (ch_fanout ?w)"
  have i: "shard fanoutWorkerCount ''G1'' < fanoutWorkerCount" by (simp add: shard_def)
  have ws: "?ws = replicate fanoutWorkerCount (make_chan fanoutQueueSize)" "\<not> fx_quit (ch_fanout ?w)"
    by (simp_all add: NewMessageProcessor_def NewFanoutExecutor_def)
  obtain q where q: "try_send (make_chan fanoutQueueSize) ?t = Some q" "ch_items q = [?t]"
    by (auto simp: chan_simps)
  let ?w' = "?w\<lparr>ch_fanout := (ch_fanout ?w)\<lparr>fx_workers := ?ws[shard fanoutWorkerCount ''G1'' := q]\<rparr>\<rparr>"
  have "ends (Submit False ''G1'' demo_frame) ?w () ?w'"
    using i q(1) ws by (simp add: ends_def Submit_def bnd_def gets_def modify_def Let_def)
  moreover have "ch_fanout ?w' \<noteq> ch_fanout ?w"
  proof
    assume "ch_fanout ?w' = ch_fanout ?w"
    from arg_cong [OF this, of "\<lambda>f. ch_items (fx_workers f ! shard fanoutWorkerCount ''G1'')"] i q(2) ws(1)
    show False by simp
  qed
  ultimately have "fan_step (demo_chat_env 9) (?w, [], []) (?w', [?t], [])"
    using submit [of False "''G1''" demo_frame ?w ?w' "demo_chat_env 9" "[]" "[]"] by simp
  then have reached: "(fan_step (demo_chat_env 9))\<^sup>*\<^sup>* (?w, [], []) (?w', [?t], [])" by (rule r_into_rtranclp)
  from group_messages_in_order [OF this, of "''G1''"] reached show ?thesis by (intro exI [of _ ?w']) simp
qed

end
