(* ===== verification/Processor_Safety.thy ===== *)
theory Processor_Safety
  imports Message_Processor Batch_Safety Distribution_Safety Session_Order
begin

text \<open>
  What the path of a message guarantees: a message whose sender waited is in the database when the
  processing succeeds, whatever the rest of the process did meanwhile; a text message reaches the two
  open clients it is for; and a message that the processor refuses stops its session for good.
\<close>

section \<open>Confirmation\<close>

text \<open>The writer amid the rest of the process, which neither touches the writer nor deletes messages.\<close>

inductive writer_step :: "('d, 'r) chat_env \<Rightarrow> ('d \<Rightarrow> row list) \<Rightarrow> ('d, 'r) writer \<Rightarrow> ('d, 'r) writer \<Rightarrow> bool"
  for C rows where
  own: "batch_step C s s' \<Longrightarrow> writer_step C rows s s'"
| other: "ch_batch w = wr_batch s \<Longrightarrow>
    (\<And>m. saved (rows (st_db (ch_stores (wr_chat s)))) m \<Longrightarrow> saved (rows (st_db (ch_stores w))) m) \<Longrightarrow>
    writer_step C rows s (s\<lparr>wr_chat := w\<rparr>)"

lemma batch_log_grows: "batch_step C s s' \<Longrightarrow> set (wr_log s) \<subseteq> set (wr_log s')"
  by (induction rule: batch_step.induct) auto

lemma writer_log_grows: "(writer_step C rows)\<^sup>*\<^sup>* s s' \<Longrightarrow> set (wr_log s) \<subseteq> set (wr_log s')"
proof (induction rule: rtranclp_induct)
  case (step t u)
  have "set (wr_log t) \<subseteq> set (wr_log u)"
    using step(2) by cases (auto dest: batch_log_grows)
  with step(3) show ?case by blast
qed simp

lemma writer_step_ok:
  assumes "database (ce_env C) rows" and "(writer_step C rows)\<^sup>*\<^sup>* s s'" and "writer_ok rows s"
  shows "writer_ok rows s'"
  using assms(2,3)
proof (induction rule: rtranclp_induct)
  case (step t u)
  from step(2) show ?case
  proof cases
    case own
    then show ?thesis using database.batch_step_ok [OF assms(1) own _ refl] step by blast
  next
    case (other w)
    have "writer_ok rows t" using step by blast
    with other show ?thesis by (auto simp: writer_ok_def Let_def)
  qed
qed

lemma Enqueue_ends:
  assumes "Enqueue C m w = Some (r :: 'e + nat \<times> bool, w')"
  shows "\<exists>i go. r = Inr (i, go) \<and> ends (Enqueue C m) w (i, go) w'"
proof -
  have "case (Enqueue C m w :: (('e + nat \<times> bool) \<times> _) option) of None \<Rightarrow> True
      | Some (r, w') \<Rightarrow> \<exists>i go. r = Inr (i, go) \<and> ends (Enqueue C m) w (i, go) w'"
    by (auto simp: batch_run_defs split: option.split sum.split prod.split)
  with assms show ?thesis by auto
qed

lemma persisted_saved:
  assumes "database (ce_env C) rows" and "writer_ok rows s"
    and "\<And>s1. (writer_step C rows)\<^sup>*\<^sup>* s s1 \<Longrightarrow> \<exists>s2. (writer_step C rows)\<^sup>*\<^sup>* s1 s2 \<and> ce_sched C (wr_chat s1) = wr_chat s2"
    and "persistMessage C ctx m True (wr_chat s) = Some (Inr u, w)"
  shows "saved (rows (st_db (ch_stores w))) m"
proof -
  from assms(4) obtain i go w1 where enq: "ends (Enqueue C m) (wr_chat s) (i, go) w1"
    and w: "w = ce_sched C w1" and ans: "map_of (bw_answers (ch_batch w)) i = Some None"
    unfolding persistMessage_def bnd_Some
    by (auto simp: modify_def gets_def bnd_def ret_def throw_def dest!: Enqueue_ends
        split: option.splits context_t.splits if_splits)
  let ?s1 = "s\<lparr>wr_chat := w1, wr_log := wr_log s @ [(m, i)], wr_calls := wr_calls s + (if go then 1 else 0)\<rparr>"
  have s1: "(writer_step C rows)\<^sup>*\<^sup>* s ?s1" by (rule r_into_rtranclp, rule own, rule enqueue [OF enq])
  from assms(3) [OF this] obtain s2 where s2: "(writer_step C rows)\<^sup>*\<^sup>* ?s1 s2" "w = wr_chat s2"
    by (auto simp: w)
  have "writer_ok rows s2" by (rule writer_step_ok [OF assms(1) rtranclp_trans [OF s1 s2(1)] assms(2)])
  moreover have "(m, i) \<in> set (wr_log s2)" using writer_log_grows [OF s2(1)] by auto
  moreover have "(i, None) \<in> set (bw_answers (wr_batch s2))" using map_of_SomeD [OF ans] s2(2) by simp
  ultimately show ?thesis using s2(2) by (auto simp: writer_ok_def Let_def)
qed

section \<open>What the forwarding leaves alone\<close>

lemma keeps_Submit: "aside I \<Longrightarrow> (\<And>w x. I w \<Longrightarrow> I (w\<lparr>ch_fanout := x\<rparr>)) \<Longrightarrow> keeps I (Submit late g mb)"
  unfolding Submit_def Let_def by (auto split: option.split intro!: keeps_intros keeps_modify aside_count)

lemma keeps_enqueueCacheTask: "aside I \<Longrightarrow> (\<And>w x. I w \<Longrightarrow> I (w\<lparr>ch_cacheTasks := x\<rparr>)) \<Longrightarrow> keeps I (enqueueCacheTask t)"
  unfolding enqueueCacheTask_def by (auto split: option.split intro!: keeps_intros keeps_modify aside_count)

abbreviation db_is :: "'d \<Rightarrow> ('d, 'r) chat \<Rightarrow> bool" where
  "db_is d w \<equiv> st_db (ch_stores w) = d"

lemma aside_db: "aside (db_is d)"
  by (simp add: aside_def)

lemma db_forward: "keeps (db_is d) (forward C m avatar)"
  unfolding forward_def forwardToUser_def forwardToGroup_def Let_def
  by (auto intro!: keeps_intros keeps_Deliver keeps_Submit keeps_enqueueCacheTask aside_db)

text \<open>The messages that the processor saves before it forwards them.\<close>

definition saved_kind :: "ChatMessageRequest \<Rightarrow> bool" where
  "saved_kind req \<longleftrightarrow> Type req = type_Text \<or> Type req = type_File \<or>
     Type req = type_AudioOrVideo \<and> call_signal (fst (decode_av_data (AVdata req)))"

lemma persist_error: "persistMessage C ctx m wait w = Some (q, w') \<Longrightarrow> q \<noteq> Inl ReceiverRequired"
proof (cases "Enqueue C m w :: ((proc_error + nat \<times> bool) \<times> _) option")
  case (Some p)
  assume run: "persistMessage C ctx m wait w = Some (q, w')"
  obtain i go w1 where "p = (Inr (i, go), w1)" using Enqueue_ends [of C m w "fst p" "snd p"] Some by (cases p) auto
  with Some run show ?thesis
    by (auto simp: persistMessage_def bnd_def modify_def gets_def ret_def throw_def
        split: option.splits context_t.splits if_splits)
qed (simp add: persistMessage_def bnd_def)

lemma persist_then:
  assumes "bnd (persistMessage C ctx m True) (\<lambda>_. f) w = Some (r, w')" and "r = Inr () \<or> r = Inl ReceiverRequired"
    and "\<And>d. keeps (db_is d) f"
  shows "\<exists>w1. persistMessage C ctx m True w = Some (Inr (), w1) \<and> st_db (ch_stores w') = st_db (ch_stores w1)"
proof -
  obtain q w1 where q: "persistMessage C ctx m True w = Some (q, w1)"
    using assms(1) by (auto simp: bnd_def split: option.splits)
  have "q = Inr ()"
    using assms(1,2) persist_error [OF q] q by (cases q) (auto simp: bnd_def)
  with q assms(1) have w1: "persistMessage C ctx m True w = Some (Inr (), w1)" "f w1 = Some (r, w')"
    by (simp_all add: bnd_def)
  with keepsD [OF assms(3) _ w1(2)] show ?thesis by auto
qed

lemma processed_persisted:
  assumes "decode_request data = (req, False)" and "saved_kind req"
    and "processMessage C scaled ctx msgID data True w = Some (r, w')" and "r = Inr () \<or> r = Inl ReceiverRequired"
  shows "\<exists>m w1. ms_uuid m = resolveMessageUUID C msgID \<and> persistMessage C ctx m True w = Some (Inr (), w1) \<and>
    st_db (ch_stores w') = st_db (ch_stores w1)"
proof -
  consider "Type req = type_Text" | "Type req = type_File" |
    "Type req = type_AudioOrVideo" "call_signal (fst (decode_av_data (AVdata req)))"
    using assms(2) by (auto simp: saved_kind_def)
  then show ?thesis
  proof cases
    case 1
    with assms(1,3) have "bnd (persistMessage C ctx (text_message C msgID req) True) (\<lambda>_. forward C (text_message C msgID req) (SendAvatar req)) w = Some (r, w')"
      by (simp add: processMessage_def processText_def Let_def)
    from persist_then [OF this assms(4) db_forward] show ?thesis
      by (intro exI [of _ "text_message C msgID req"]) (simp add: text_message_def new_message_def)
  next
    case 2
    with assms(1,3) have "bnd (persistMessage C ctx (file_message C scaled msgID req) True) (\<lambda>_. forward C (file_message C scaled msgID req) (SendAvatar req)) w = Some (r, w')"
      by (simp add: processMessage_def processFile_def Let_def)
    from persist_then [OF this assms(4) db_forward] show ?thesis
      by (intro exI [of _ "file_message C scaled msgID req"]) (simp add: file_message_def new_message_def)
  next
    case 3
    let ?m = "(new_message C msgID req)\<lparr>ms_av_data := AVdata req, ms_send_avatar := normalizePath (SendAvatar req)\<rparr>"
    obtain av where av: "decode_av_data (AVdata req) = (av, False)" "call_signal av"
      using assms 3 by (cases "decode_av_data (AVdata req)")
        (auto simp: processMessage_def processAudioOrVideo_def throw_def split: if_splits bool.splits)
    from assms(1,3) 3(1) av have run: "bnd (persistMessage C ctx ?m True) (\<lambda>_.
          if ms_receive_id ?m = [] then throw ReceiverRequired
          else if hd (ms_receive_id ?m) = CHR ''U'' then
            Deliver C [ms_receive_id ?m]
              \<lparr>mb_Message = json_print (av_respond_json (av_rsp (ce_tz C) ?m)), mb_Uuid = ms_uuid ?m\<rparr> (ms_uuid ?m)
          else ret ()) w = Some (r, w')"
      using assms(4) by (auto simp: processMessage_def processAudioOrVideo_def Let_def throw_def split: if_splits)
    from persist_then [OF run assms(4)] show ?thesis
      by (intro exI [of _ ?m]) (auto simp: new_message_def intro!: keeps_intros keeps_Deliver aside_db)
  qed
qed

text \<open>The audio and video signals that are not saved leave the database as it is.\<close>

lemma processed_unsaved:
  assumes "decode_request data = (req, False)" and "\<not> saved_kind req"
    and "processMessage C scaled ctx msgID data wait w = Some (r, w')" and "r = Inr () \<or> r = Inl ReceiverRequired"
  shows "Type req = type_AudioOrVideo \<and> st_db (ch_stores w') = st_db (ch_stores w)"
proof -
  have type: "Type req = type_AudioOrVideo"
    using assms by (auto simp: processMessage_def saved_kind_def throw_def split: if_splits)
  with assms obtain av where av: "decode_av_data (AVdata req) = (av, False)" "\<not> call_signal av"
    by (cases "decode_av_data (AVdata req)")
      (auto simp: processMessage_def processAudioOrVideo_def saved_kind_def throw_def split: if_splits bool.splits)
  let ?m = "(new_message C msgID req)\<lparr>ms_av_data := AVdata req\<rparr>"
  let ?f = "if ms_receive_id ?m = [] then throw ReceiverRequired
      else if hd (ms_receive_id ?m) = CHR ''U'' then
        Deliver C [ms_receive_id ?m]
          \<lparr>mb_Message = json_print (av_respond_json (av_rsp (ce_tz C) ?m)), mb_Uuid = ms_uuid ?m\<rparr> (ms_uuid ?m)
      else ret ()"
  have "\<not> maxAVDataSize < length (AVdata req)"
    using assms(1,3,4) type by (auto simp: processMessage_def processAudioOrVideo_def throw_def)
  then have "processMessage C scaled ctx msgID data wait = bnd (ret ()) (\<lambda>_. ?f)"
    using assms(1) type av by (simp add: processMessage_def processAudioOrVideo_def Let_def)
  with assms(3) have run: "?f w = Some (r, w')" by (simp add: bnd_def ret_def)
  have "keeps (db_is (st_db (ch_stores w))) ?f"
    by (auto simp: new_message_def intro!: keeps_intros keeps_Deliver aside_db)
  from keepsD [OF this refl run] type show ?thesis by blast
qed

text \<open>C2. Consider a message that was processed for a sender who waits (the channel mode and Kafka), when
  the processing succeeds or fails only for want of a receiver. A text, a file and an audio or video
  signal of the kinds \<open>PROXY\<close> start, receive and reject is in the database, under the identifier of its
  envelope: whatever interleaving of enqueues, flushes and a shutdown the writer was in, and whatever the
  rest of the process did while the answer of the writer was awaited. Every other message that gets so
  far is one of the remaining audio and video signals, for which the processing answers nil as well
  without saving anything: the database is left as it was.\<close>

theorem confirmed_message_saved:
  assumes "database (ce_env C) rows" and "(writer_step C rows)\<^sup>*\<^sup>* (new_writer s0) s"
    and "\<And>s1. (writer_step C rows)\<^sup>*\<^sup>* s s1 \<Longrightarrow> \<exists>s2. (writer_step C rows)\<^sup>*\<^sup>* s1 s2 \<and> ce_sched C (wr_chat s1) = wr_chat s2"
    and "decode_request data = (req, False)"
    and "processMessage C scaled ctx msgID data True (wr_chat s) = Some (r, w)" and "r = Inr () \<or> r = Inl ReceiverRequired"
  shows "if Type req = type_Text \<or> Type req = type_File \<or>
       Type req = type_AudioOrVideo \<and> call_signal (fst (decode_av_data (AVdata req)))
     then \<exists>m'. RMessage m' \<in> set (rows (st_db (ch_stores w))) \<and> ms_uuid m' = resolveMessageUUID C msgID
     else Type req = type_AudioOrVideo \<and> st_db (ch_stores w) = st_db (ch_stores (wr_chat s))"
proof (cases "saved_kind req")
  case True
  obtain m w1 where m: "ms_uuid m = resolveMessageUUID C msgID" "persistMessage C ctx m True (wr_chat s) = Some (Inr (), w1)"
    "st_db (ch_stores w) = st_db (ch_stores w1)"
    using processed_persisted [OF assms(4) True assms(5,6)] by blast
  have "saved (rows (st_db (ch_stores w1))) m"
    by (rule persisted_saved [OF assms(1) writer_step_ok [OF assms(1,2) new_writer_ok] assms(3) m(2)])
  with m True show ?thesis unfolding saved_kind_def by (auto simp: saved_def elim!: key_clash.elims)
next
  case False
  from processed_unsaved [OF assms(4) this assms(5,6)] False show ?thesis unfolding saved_kind_def by auto
qed

text \<open>A schedule for the witness: the ticker fires once, and the insert is tried once.\<close>

definition one_tick :: "('d, 'r) chat_env \<Rightarrow> ('d, 'r) chat \<Rightarrow> ('d, 'r) chat" where
  "one_tick C w =
     (if bw_started (ch_batch w) \<and> \<not> bw_closed (ch_batch w) then
        (case (bnd begin_flush (\<lambda>b. if b then flush_attempt C 0 else ret False) w :: ((unit + bool) \<times> _) option) of
           Some (_, w') \<Rightarrow> w' | None \<Rightarrow> w)
      else w)"

lemma begin_flush_ends: "\<exists>b w'. ends begin_flush w b w' \<and> (b \<longrightarrow> bw_flushing (ch_batch w'))"
  by (auto simp: batch_run_defs)

lemma flush_attempt_ends:
  assumes "database (ce_env C) rows"
  shows "\<exists>e w'. ends (flush_attempt C k) w e w'"
proof -
  have "wp (flush_attempt C k :: (_, unit, bool) act) (\<lambda>_ _. True) (\<lambda>_ _. False) w"
    unfolding flush_attempt_def wp_bnd wp_gets wp_attempt wp_stored
    by (rule database.wp_CreateInBatches [OF assms]) (simp_all add: wp_simps wp_completeBatch end_flush_def)
  then show ?thesis by (auto simp: ends_def elim!: wpE)
qed

lemma one_tick_steps:
  assumes "database (ce_env C) rows"
  shows "\<exists>s2. (batch_step C)\<^sup>*\<^sup>* s s2 \<and> one_tick C (wr_chat s) = wr_chat s2"
proof (cases "bw_started (wr_batch s) \<and> \<not> bw_closed (wr_batch s)")
  case True
  obtain b w1 where b: "ends begin_flush (wr_chat s) b w1" "b \<longrightarrow> bw_flushing (ch_batch w1)"
    using begin_flush_ends by blast
  let ?s1 = "s\<lparr>wr_chat := w1, wr_attempt := (if b then 0 else wr_attempt s)\<rparr>"
  have s1: "batch_step C s ?s1" using tick [OF _ _ b(1)] True by blast
  show ?thesis
  proof (cases b)
    case False
    with True b s1 show ?thesis
      by (intro exI [of _ ?s1]) (auto simp: one_tick_def ends_def bnd_def ret_def)
  next
    case flushes: True
    obtain e w2 where w2: "ends (flush_attempt C 0) w1 e w2" using flush_attempt_ends [OF assms] by blast
    have "batch_step C ?s1 (?s1\<lparr>wr_chat := w2, wr_attempt := Suc (wr_attempt ?s1)\<rparr>)"
      by (rule attempt [where e = e]) (use b flushes w2 in simp_all)
    with s1 have "(batch_step C)\<^sup>*\<^sup>* s (?s1\<lparr>wr_chat := w2, wr_attempt := Suc (wr_attempt ?s1)\<rparr>)"
      by (rule converse_rtranclp_into_rtranclp [OF _ r_into_rtranclp])
    moreover have "one_tick C (wr_chat s) = w2"
      using True b w2 flushes by (simp add: one_tick_def ends_def bnd_def)
    ultimately show ?thesis by force
  qed
qed (auto simp: one_tick_def)

definition demo_tick_env :: "(mem_db, mem_redis) chat_env" where
  "demo_tick_env = (demo_chat_env 9)\<lparr>ce_sched := one_tick (demo_chat_env 9)\<rparr>"

lemma one_tick_env:
  assumes "ce_env C = ce_env C'"
  shows "one_tick C = one_tick C'"
proof -
  have "flush_attempt C = (flush_attempt C' :: nat \<Rightarrow> (_, unit, bool) act)"
    using assms by (simp add: fun_eq_iff flush_attempt_def)
  then show ?thesis unfolding one_tick_def [abs_def] by (simp only:)
qed

lemma demo_tick_run:
  "\<exists>w. processMessage demo_tick_env (\<lambda>_ _. None) (Deadline 10) ''M1'' (demo_request 0 ''U2'') True (wr_chat (new_writer demo)) =
     Some (Inr (), w)"
  by (simp add: demo_tick_env_def processMessage_def demo_request zero_request_def processText_def Let_def persistMessage_def
      forward_def forwardToUser_def Deliver_def Enabled_def NewDistributor_def text_message_def new_message_def
      batch_run_defs one_tick_def new_writer_def NewMessageProcessor_def new_batch_def demo_chat_env_def
      mem_database_def db_faulty_def demo_def deliverLocal_def client_of_def enqueueCacheTask_def chan_simps try_send_def make_chan_def)

theorem confirmed_message_saved_witness:
  "\<exists>w. processMessage demo_tick_env (\<lambda>_ _. None) (Deadline 10) ''M1'' (demo_request 0 ''U2'') True (wr_chat (new_writer demo)) =
       Some (Inr (), w) \<and> (\<exists>m'. RMessage m' \<in> set (md_rows (st_db (ch_stores w))) \<and> ms_uuid m' = ''M1'')"
proof -
  have db: "database (ce_env demo_tick_env) md_rows"
    using mem_rows.database_axioms by (simp add: demo_tick_env_def demo_chat_env_def)
  have sched: "ce_sched demo_tick_env = one_tick demo_tick_env"
    using one_tick_env [of "demo_chat_env 9" demo_tick_env] by (simp add: demo_tick_env_def)
  have steps: "(writer_step demo_tick_env md_rows)\<^sup>*\<^sup>* s s2" if "(batch_step demo_tick_env)\<^sup>*\<^sup>* s s2" for s s2
    using that by (rule mono_rtranclp [rule_format, rotated]) (rule own)
  obtain w where w: "processMessage demo_tick_env (\<lambda>_ _. None) (Deadline 10) ''M1'' (demo_request 0 ''U2'') True
      (wr_chat (new_writer demo)) = Some (Inr (), w)"
    using demo_tick_run by blast
  have "\<exists>s2. (writer_step demo_tick_env md_rows)\<^sup>*\<^sup>* s s2 \<and> ce_sched demo_tick_env (wr_chat s) = wr_chat s2" for s
    unfolding sched using one_tick_steps [OF db, of s] steps by blast
  then have "\<exists>m'. RMessage m' \<in> set (md_rows (st_db (ch_stores w))) \<and> ms_uuid m' = resolveMessageUUID demo_tick_env ''M1''"
    using confirmed_message_saved [OF db rtranclp.rtrancl_refl _ _ w] by (simp add: demo_request zero_request_def)
  with w show ?thesis by (simp add: resolveMessageUUID_def)
qed

section \<open>Delivery of a text message\<close>

lemma delivered_once_frames [simp]:
  "delivered_once (w\<lparr>ch_batch := x\<rparr>) mb ts v = delivered_once w mb ts v"
  "delivered_once (w\<lparr>ch_stores := y\<rparr>) mb ts v = delivered_once w mb ts v"
  "delivered_once w mb ts (v\<lparr>ch_cacheTasks := z\<rparr>) = delivered_once w mb ts v"
  by (simp_all add: delivered_once_def client_of_def)

text \<open>\<open>Enqueue\<close> changes the writer and the stores only.\<close>

lemma wp_Enqueue_frame:
  assumes "\<And>i go s b. (\<not> bw_closed (ch_batch w) \<Longrightarrow> (m, i) \<in> set (bw_buffer b)) \<Longrightarrow> Q (i, go) (w\<lparr>ch_stores := s, ch_batch := b\<rparr>)"
  shows "wp (Enqueue C m) Q X w"
proof (cases "bw_closed (ch_batch w)")
  case True
  then show ?thesis
    unfolding Enqueue_def ensureStarted_def new_done_def wp_simps
    by (simp add: at_batch_def send_done_def wp_simps) (rule wp_insert_any; auto simp: wp_simps split: sum.split intro!: assms)
next
  case False
  have "Q (i, go) (w\<lparr>ch_batch := b\<rparr>)" if "(m, i) \<in> set (bw_buffer b)" for i go b
    using assms [of i b go "ch_stores w"] that by simp
  with False show ?thesis
    unfolding Enqueue_def ensureStarted_def new_done_def wp_simps
    by (auto simp: at_batch_def wp_simps)
qed

lemma wp_Deliver_local:
  assumes "\<not> ds_enabled (ch_distributor w)" and "clients_ok w" and "distinct ts"
    and "\<And>v. delivered_once w mb ts v \<Longrightarrow> Q () v"
  shows "wp (Deliver C ts mb k) Q X w"
proof -
  have "wp (for_each ts (\<lambda>t. bnd (deliverLocal C t mb) (\<lambda>_. ret ()))) Q X w"
  proof (rule wp_for_each_upto [where I = "\<lambda>ys v. delivered_once w mb ys v"])
    fix ys x zs v assume "ts = ys @ x # zs" and I: "delivered_once w mb ys v"
    with assms(3) have "x \<notin> set ys" by auto
    then show "wp (bnd (deliverLocal C x mb) (\<lambda>_. ret ())) (\<lambda>_. delivered_once w mb (ys @ [x])) X v"
      unfolding wp_simps by (intro wp_deliverLocal_once [OF I assms(2)])
  qed (use assms delivered_once_refl in auto)
  with assms(1,4) delivered_once_refl [of w mb] show ?thesis
    by (cases "ts = []") (simp_all add: Deliver_def Enabled_def wp_simps)
qed

lemma wp_enqueueCacheTask_any:
  assumes "\<And>v. ch_Clients v = ch_Clients w \<Longrightarrow> ch_heap v = ch_heap w \<Longrightarrow> ch_batch v = ch_batch w \<Longrightarrow> Q () v"
  shows "wp (enqueueCacheTask t) Q X w"
  unfolding enqueueCacheTask_def wp_simps by (auto split: option.split simp: wp_simps intro!: assms)

lemma wp_keeps:
  assumes "wp m Q X w" and "keeps I m" and "I w"
  shows "wp m (\<lambda>a v. Q a v \<and> I v) (\<lambda>e v. X e v \<and> I v) w"
  using assms by (auto simp: wp_def keeps_def split: option.splits sum.splits prod.splits)

lemma delivered_once_same:
  "delivered_once w mb ts v \<Longrightarrow> ch_Clients v' = ch_Clients v \<Longrightarrow> ch_heap v' = ch_heap v \<Longrightarrow> delivered_once w mb ts v'"
  by (simp add: delivered_once_def)

definition text_frame :: "('d, 'r) chat_env \<Rightarrow> string \<Rightarrow> ChatMessageRequest \<Rightarrow> MessageBack" where
  "text_frame C msgID req = (let m = text_message C msgID req in
     \<lparr>mb_Message = json_print (user_respond_json (user_rsp (ce_tz C) m (SendAvatar req))), mb_Uuid = ms_uuid m\<rparr>)"

lemma ms_of_text [simp]: "ms_receive_id (text_message C i req) = ReceiveId req" "ms_send_id (text_message C i req) = SendId req"
  "ms_uuid (text_message C i req) = resolveMessageUUID C i"
  by (simp_all add: text_message_def new_message_def)

text \<open>C6. A text message from one user to another, in a process without a cluster: the processing that does not
  wait succeeds; the message is in the buffer of the writer, unless the writer has been shut down; and
  the frame, which carries the message's identifier, is queued exactly once for the client of the
  receiver and for that of the sender, where the client is open and its queue has room, and for nobody
  else.\<close>

theorem text_reaches_both:
  assumes "decode_request data = (req, False)" and "Type req = type_Text"
    and "ReceiveId req = CHR ''U'' # r" and "SendId req \<noteq> ReceiveId req"
    and "\<not> ds_enabled (ch_distributor w)"
    and "\<forall>u p. client_of w u = Some p \<longrightarrow> p < length (ch_heap w) \<and> cl_Uuid (ch_heap w ! p) = u"
  shows "\<exists>w'. processMessage C scaled ctx msgID data False w = Some (Inr (), w') \<and>
    (\<not> bw_closed (ch_batch w) \<longrightarrow> text_message C msgID req \<in> fst ` set (bw_buffer (ch_batch w'))) \<and>
    (\<forall>p < length (ch_heap w). \<not> cl_done (ch_heap w ! p) \<longrightarrow>
       ch_items (cl_SendBack (ch_heap w' ! p)) = ch_items (cl_SendBack (ch_heap w ! p)) @
         (if has_room (ch_heap w ! p) \<and> (\<exists>t \<in> {ReceiveId req, SendId req}. t \<noteq> [] \<and> client_of w t = Some p)
          then [text_frame C msgID req] else []))"
proof -
  let ?m = "text_message C msgID req" and ?f = "text_frame C msgID req"
  have frame: "\<lparr>mb_Message = json_print (user_respond_json (user_rsp (ce_tz C) ?m (SendAvatar req))), mb_Uuid = resolveMessageUUID C msgID\<rparr> = ?f"
    by (simp add: text_frame_def Let_def)
  have process: "processMessage C scaled ctx msgID data False = bnd (Enqueue C ?m) (\<lambda>_.
      bnd (Deliver C [ReceiveId req, SendId req] ?f (resolveMessageUUID C msgID)) (\<lambda>_. enqueueCacheTask (CacheUser ?m (user_rsp (ce_tz C) ?m (SendAvatar req)))))"
    using assms(1-3) by (simp add: fun_eq_iff processMessage_def processText_def Let_def persistMessage_def forward_def
        forwardToUser_def frame bnd_def ret_def split: option.split sum.split)
  let ?Q = "\<lambda>w'. (\<not> bw_closed (ch_batch w) \<longrightarrow> ?m \<in> fst ` set (bw_buffer (ch_batch w'))) \<and> delivered_once w ?f [ReceiveId req, SendId req] w'"
  have "wp (processMessage C scaled ctx msgID data False) (\<lambda>_. ?Q) (\<lambda>_ _. False) w"
    unfolding process wp_bnd
  proof (rule wp_Enqueue_frame)
    fix i go st and b :: MessageBatchWriter assume b: "\<not> bw_closed (ch_batch w) \<Longrightarrow> (?m, i) \<in> set (bw_buffer b)"
    let ?w = "w\<lparr>ch_stores := st, ch_batch := b\<rparr>"
    have "wp (Deliver C [ReceiveId req, SendId req] ?f (resolveMessageUUID C msgID)) (\<lambda>_ v. delivered_once w ?f [ReceiveId req, SendId req] v) (\<lambda>_ _. False) ?w"
      by (rule wp_Deliver_local) (use assms(4-6) in \<open>simp_all add: clients_ok_def client_of_def\<close>)
    from wp_keeps [OF this keeps_Deliver [where I = "\<lambda>v. ch_batch v = b"]]
    show "wp (Deliver C [ReceiveId req, SendId req] ?f (resolveMessageUUID C msgID))
       (\<lambda>_. wp (enqueueCacheTask (CacheUser ?m (user_rsp (ce_tz C) ?m (SendAvatar req)))) (\<lambda>_. ?Q) (\<lambda>_ _. False)) (\<lambda>_ _. False) ?w"
      by (rule wp_mono) (use b in \<open>auto simp: aside_def intro!: wp_enqueueCacheTask_any intro: delivered_once_same rev_image_eqI\<close>)
  qed
  then show ?thesis by (auto simp: delivered_once_def elim!: wpE)
qed

definition demo_pair :: "(mem_db, mem_redis) chat" where
  "demo_pair = (NewMessageProcessor demo)\<lparr>ch_Clients := [(''U1'', 0), (''U2'', 1)],
     ch_heap := map (\<lambda>u. \<lparr>cl_Uuid = u, cl_SendBack = make_chan clientDeliveryQueueSize, cl_done = False, cl_written = []\<rparr>) [''U1'', ''U2'']\<rparr>"

theorem text_reaches_both_witness:
  "\<exists>w' mb. processMessage (demo_chat_env 9) (\<lambda>_ _. None) Background ''M1'' (demo_request 0 ''U2'') False demo_pair = Some (Inr (), w') \<and>
     ch_items (cl_SendBack (ch_heap w' ! 0)) = [mb] \<and> ch_items (cl_SendBack (ch_heap w' ! 1)) = [mb] \<and> mb_Uuid mb = ''M1''"
proof -
  let ?req = "zero_request\<lparr>SendId := ''U1'', ReceiveId := ''U2''\<rparr>"
  have req: "decode_request (demo_request 0 ''U2'') = (?req, False)" by (simp add: demo_request zero_request_def)
  have heap: "length (ch_heap demo_pair) = 2" "\<not> cl_done (ch_heap demo_pair ! 0)" "\<not> cl_done (ch_heap demo_pair ! 1)"
    "has_room (ch_heap demo_pair ! 0)" "has_room (ch_heap demo_pair ! 1)"
    "ch_items (cl_SendBack (ch_heap demo_pair ! 0)) = []" "ch_items (cl_SendBack (ch_heap demo_pair ! 1)) = []"
    "client_of demo_pair ''U1'' = Some 0" "client_of demo_pair ''U2'' = Some 1"
    by (simp_all add: demo_pair_def has_room_def make_chan_def client_of_def)
  have ok: "\<forall>u p. client_of demo_pair u = Some p \<longrightarrow> p < length (ch_heap demo_pair) \<and> cl_Uuid (ch_heap demo_pair ! p) = u"
    by (auto simp: demo_pair_def client_of_def split: if_splits)
  have local: "\<not> ds_enabled (ch_distributor demo_pair)"
    by (simp add: demo_pair_def NewMessageProcessor_def NewDistributor_def)
  from text_reaches_both [OF req _ _ _ local ok, of "''2''" "demo_chat_env 9" "\<lambda>_ _. None" Background "''M1''"]
  obtain w' where run: "processMessage (demo_chat_env 9) (\<lambda>_ _. None) Background ''M1'' (demo_request 0 ''U2'') False demo_pair = Some (Inr (), w')"
    and all: "\<forall>p < length (ch_heap demo_pair). \<not> cl_done (ch_heap demo_pair ! p) \<longrightarrow>
       ch_items (cl_SendBack (ch_heap w' ! p)) = ch_items (cl_SendBack (ch_heap demo_pair ! p)) @
         (if has_room (ch_heap demo_pair ! p) \<and> (\<exists>t \<in> {ReceiveId ?req, SendId ?req}. t \<noteq> [] \<and> client_of demo_pair t = Some p)
          then [text_frame (demo_chat_env 9) ''M1'' ?req] else [])"
    by (auto simp: zero_request_def)
  show ?thesis
    using run all [rule_format, of 0] all [rule_format, of 1]
    by (simp add: heap heap [unfolded One_nat_def]) (simp add: text_frame_def resolveMessageUUID_def)
qed

section \<open>Messages that the processor refuses\<close>

text \<open>The processor as the session router calls it. A call that never returns (\<open>None\<close>: a wait without a
  deadline for an answer that does not come) has no outcome; the router sets a deadline on every call
  that waits.\<close>

definition outcome_of :: "(proc_error \<Rightarrow> string) \<Rightarrow> ('d, 'r, proc_error, unit) chat_act \<Rightarrow> ('d, 'r) chat \<Rightarrow> ('d, 'r) chat \<times> outcome" where
  "outcome_of err m w = (case m w of
     Some (Inr _, w') \<Rightarrow> (w', POk) | Some (Inl e, w') \<Rightarrow> (w', PErr (err e)) | None \<Rightarrow> (w, PErr ''no answer''))"

definition chat_processor ::
  "('d, 'r) chat_env \<Rightarrow> (string \<Rightarrow> int \<Rightarrow> int option) \<Rightarrow> (proc_error \<Rightarrow> string) \<Rightarrow> ('d, 'r) chat processor" where
  "chat_processor C scaled err = \<lparr>proc_kind = EnvelopeProc, proc_run = (\<lambda>call. outcome_of err (case call of
     CallEnvelope ctx i data wait \<Rightarrow> ProcessEnvelope C scaled ctx i data wait
   | CallAndWait ctx data \<Rightarrow> ProcessMessageAndWait C scaled ctx data
   | CallMessage data \<Rightarrow> ProcessMessage C scaled data))\<rparr>"

text \<open>What the processor cannot use: not a message, a type other than text, file and audio or video (among
  them \<open>message_type_enum.Voice\<close>), or a call signal that is too long or not JSON.\<close>

definition refused :: "bytes \<Rightarrow> bool" where
  "refused data \<longleftrightarrow> (case decode_request data of (req, bad) \<Rightarrow>
     bad \<or> Type req \<notin> {type_Text, type_File, type_AudioOrVideo} \<or>
     Type req = type_AudioOrVideo \<and> (maxAVDataSize < length (AVdata req) \<or> snd (decode_av_data (AVdata req))))"

lemma refused_fails: "refused data \<Longrightarrow> \<exists>e. processMessage C scaled ctx i data wait = throw e"
  by (auto simp: refused_def processMessage_def processAudioOrVideo_def split: prod.splits bool.splits)

text \<open>A message that the processor refuses stops its session: of everything that comes after it, in whatever
  order, nothing is ever processed (the process's stores, clients and queues stay as they are), while the
  messages pile up in the reorder buffer. A client can send such a message at will: nothing between it and
  the processor looks at the type.\<close>

theorem refused_message_blocks_session:
  assumes "refused (Payload (qe_envelope it))" and "qe_seq it = nextExpectedSeq q"
    and "\<forall>it' \<in> set its. nextExpectedSeq q < qe_seq it'" and "distinct (map fst (sq_buffer q))"
  shows "\<exists>q' e. fst (process_items (chat_processor C scaled err) (it # its) (q, m, w)) =
      (q', m\<lparr>processFailures := processFailures m + 1\<rparr>, w) \<and>
    calls_of (snd (process_items (chat_processor C scaled err) (it # its) (q, m, w))) = [(it, PErr (err e))] \<and>
    nextExpectedSeq q' = nextExpectedSeq q \<and>
    length (sq_buffer q') = card (bkeys q \<union> (unat \<circ> qe_seq) ` set its)"
proof -
  let ?P = "chat_processor C scaled err" and ?m = "m\<lparr>processFailures := processFailures m + 1\<rparr>"
  obtain ctx wait where call: "select_call (proc_kind ?P) it = CallEnvelope ctx (MsgID (qe_envelope it)) (Payload (qe_envelope it)) wait"
    by (auto simp: select_call_def chat_processor_def Let_def)
  obtain e where "processMessage C scaled ctx (MsgID (qe_envelope it)) (Payload (qe_envelope it)) wait = throw e"
    using refused_fails [OF assms(1)] by blast
  then have run: "proc_run ?P (select_call (proc_kind ?P) it) w = (w, PErr (err e))"
    unfolding call by (simp add: chat_processor_def ProcessEnvelope_def outcome_of_def throw_def)
  then have "processEnvelope ?P it (q, m, w) =
      ((q, ?m, w), EvCall it (PErr (err e)) # finishQueuedEnvelope it (Some (ProcessError (err e))))"
    using assms(2) by (simp add: processEnvelope_def process_loop.simps)
  with process_items_stuck [OF assms(3), of ?P ?m w] assms(4) show ?thesis
    by (auto simp: length_buffer)
qed

definition demo_voice :: "u64 \<Rightarrow> int \<Rightarrow> queuedEnvelope" where
  "demo_voice n t = \<lparr>qe_envelope = \<lparr>SeqNum = n, MsgID = ''M1'', Payload = demo_request t ''U2''\<rparr>, qe_done = None, qe_ctx = None\<rparr>"

theorem refused_message_blocks_session_witness:
  "\<exists>q' e. fst (process_items (chat_processor (demo_chat_env 9) (\<lambda>_ _. None) (\<lambda>_. ''error'')) [demo_voice 1 1, demo_voice 2 0, demo_voice 3 0]
      (new_queue ''S1'' 8 0, zero_metrics, demo_pair)) = (q', zero_metrics\<lparr>processFailures := 1\<rparr>, demo_pair) \<and> length (sq_buffer q') = 2"
proof -
  have "refused (Payload (qe_envelope (demo_voice 1 1)))"
    by (simp add: refused_def demo_voice_def demo_request)
  from refused_message_blocks_session [OF this, of "new_queue ''S1'' 8 0" "[demo_voice 2 0, demo_voice 3 0]"
      "demo_chat_env 9" "\<lambda>_ _. None" "\<lambda>_. ''error''" zero_metrics demo_pair]
  show ?thesis by (auto simp: demo_voice_def new_queue_def bkeys_def zero_metrics_def)
qed

end
