(* ===== verification/Server_Safety.thy ===== *)
theory Server_Safety
  imports Chat_Servers Processor_Safety
begin

text \<open>
  The servers of the channel and the Kafka mode: a text message takes the same effect there as in the
  shared processor of the hybrid mode; and any message that is not JSON stops them.
\<close>

section \<open>A message that cannot be decoded\<close>

lemma malformed_panics:
  assumes "json_parse data = None"
  shows "\<exists>w. handled C data s = Some (s\<lparr>sv_chat := w, sv_running := False\<rparr>) \<and>
    (\<not> bw_closed (ch_batch (sv_chat s)) \<longrightarrow> (\<exists>m \<in> fst ` set (bw_buffer (ch_batch w)). ms_send_id m = [] \<and> ms_receive_id m = []))"
proof -
  let ?m = "server_text_message C zero_request"
  have req: "fst (decode_request data) = zero_request" using assms by (simp add: decode_request_def json_unmarshal_def)
  have zero: "Type zero_request = 0" "ms_receive_id ?m = []" "ms_send_id ?m = []"
    by (simp_all add: zero_request_def server_text_message_def server_message_def new_message_def)
  have "wp (server_handle C data) (\<lambda>_ _. False)
    (\<lambda>e w. \<not> bw_closed (ch_batch (sv_chat s)) \<longrightarrow> ?m \<in> fst ` set (bw_buffer (ch_batch w))) (sv_chat s)"
    unfolding server_handle_def Let_def req server_text_def wp_simps
    by (simp add: zero wp_simps, rule wp_Enqueue_frame) (force simp: image_iff)
  then obtain w where w: "server_handle C data (sv_chat s) = Some (Inl IndexOutOfRange, w)"
    "\<not> bw_closed (ch_batch (sv_chat s)) \<Longrightarrow> ?m \<in> fst ` set (bw_buffer (ch_batch w))"
    by (rule wpE, simp) (metis server_panic.exhaust)
  show ?thesis
  proof (intro exI [of _ w] conjI impI)
    show "handled C data s = Some (s\<lparr>sv_chat := w, sv_running := False\<rparr>)" using w(1) by (simp add: handled_def)
    assume "\<not> bw_closed (ch_batch (sv_chat s))"
    from w(2) [OF this] zero(2,3) show "\<exists>m \<in> fst ` set (bw_buffer (ch_batch w)). ms_send_id m = [] \<and> ms_receive_id m = []"
      by (intro bexI [of _ ?m]) simp_all
  qed
qed

text \<open>C38. One malformed message stops the server. The handler only logs that a message is not JSON and goes on with
  the zero value, whose type is Text and whose receiver is empty: it queues an empty message for the
  database and then indexes the empty receiver. The channel server, and with it the process, is gone;
  in the Kafka mode, where a failed read is such a message too, no message is handled any more.\<close>

theorem malformed_message_stops_server:
  assumes "json_parse data = None" and "sv_running s" and "\<not> bw_closed (ch_batch (sv_chat s))"
  shows "\<exists>s1 s2 s3. server_round C ServerTransmit (s\<lparr>sv_Transmit := \<lparr>ch_items = data # rest, ch_cap = n\<rparr>\<rparr>) = Some s1 \<and>
      (\<exists>m \<in> fst ` set (bw_buffer (ch_batch (sv_chat s1))). ms_send_id m = [] \<and> ms_receive_id m = []) \<and>
      (\<forall>C' b. server_round C' b s1 = None) \<and>
    kafka_reader_round C (Some data) s = Some s2 \<and> (\<forall>C' i. kafka_reader_round C' i s2 = None) \<and>
    kafka_reader_round C None s = Some s3 \<and> (\<forall>C' i. kafka_reader_round C' i s3 = None)"
proof -
  let ?s = "s\<lparr>sv_Transmit := \<lparr>ch_items = rest, ch_cap = n\<rparr>\<rparr>"
  obtain w1 where "handled C data ?s = Some (?s\<lparr>sv_chat := w1, sv_running := False\<rparr>)"
    "\<exists>m \<in> fst ` set (bw_buffer (ch_batch w1)). ms_send_id m = [] \<and> ms_receive_id m = []"
    using malformed_panics [OF assms(1), of C ?s] assms(3) by auto
  moreover obtain w2 where "handled C data s = Some (s\<lparr>sv_chat := w2, sv_running := False\<rparr>)"
    using malformed_panics [OF assms(1)] by blast
  moreover have "json_parse [] = None" by code_simp
  then obtain w3 where "handled C [] s = Some (s\<lparr>sv_chat := w3, sv_running := False\<rparr>)"
    using malformed_panics by blast
  ultimately show ?thesis using assms(2) by (simp add: server_round_def kafka_reader_round_def try_recv_def)
qed

theorem malformed_message_stops_server_witness:
  "\<exists>s0 s1. SendMessageToTransmit ''x'' (new_server demo) = Some s0 \<and> server_round (demo_chat_env 9) ServerTransmit s0 = Some s1 \<and>
     server_round (demo_chat_env 9) (ServerLogin 0) s1 = None"
proof -
  have json: "json_parse ''x'' = None" by code_simp
  have "sv_running (new_server demo)" "\<not> bw_closed (ch_batch (sv_chat (new_server demo)))"
    by (simp_all add: new_server_def NewMessageProcessor_def new_batch_def)
  from malformed_message_stops_server [OF json this, of "demo_chat_env 9" "[]" 4096] show ?thesis
    by (auto simp: SendMessageToTransmit_def new_server_def try_send_def make_chan_def)
qed

section \<open>Agreement with the processor\<close>

lemma append_cached_runs: "\<exists>w'. append_cached E fs z enc key rsp w = Some (Inr (), w') \<and> st_db w' = st_db w"
  by (auto simp: append_cached_def attempt_def logged_def ret_def GetCache_def SetCache_def on_redis_def split: prod.splits sum.splits)

lemma stored_append_cached:
  "\<exists>s. stored (append_cached E fs z enc key rsp) w = Some (Inr (), w\<lparr>ch_stores := s\<rparr>) \<and> st_db s = st_db (ch_stores w)"
  using append_cached_runs [of E fs z enc key rsp "ch_stores w"] by (auto simp: stored_def)

lemma enqueueCacheTask_runs:
  "\<exists>v. enqueueCacheTask t w = Some (Inr (), v) \<and> ch_heap v = ch_heap w \<and> ch_Clients v = ch_Clients w \<and> ch_batch v = ch_batch w \<and> ch_stores v = ch_stores w"
  by (auto simp: enqueueCacheTask_def bnd_def gets_def count_def modify_def split: option.split)

lemma Enqueue_runs:
  "\<exists>i go v. (Enqueue C m w :: (('e + nat \<times> bool) \<times> _) option) = Some (Inr (i, go), v) \<and> ends (Enqueue C m) w (i, go) v \<and>
     ch_distributor v = ch_distributor w"
proof -
  have "wp (Enqueue C m) (\<lambda>_ v. ch_distributor v = ch_distributor w) (\<lambda>_ _. False) w" by (rule wp_Enqueue_frame) simp
  then obtain x v where "(Enqueue C m w :: (('e + nat \<times> bool) \<times> _) option) = Some (Inr x, v)" "ch_distributor v = ch_distributor w"
    by (rule wpE) auto
  with Enqueue_ends [OF this(1)] show ?thesis by (cases x) auto
qed

text \<open>The state after a delivery, whatever its result.\<close>

definition delivered :: "('d, 'r) chat_env \<Rightarrow> nat option \<Rightarrow> MessageBack \<Rightarrow> ('d, 'r) chat \<Rightarrow> ('d, 'r) chat" where
  "delivered C c mb w = (case c of None \<Rightarrow> w | Some p \<Rightarrow> snd (the (EnqueueDelivery C p mb w)))"

lemma EnqueueDelivery_runs: "\<exists>r v. EnqueueDelivery C p mb w = Some (r, v) \<and> ch_Clients v = ch_Clients w"
  by (auto simp: EnqueueDelivery_def bnd_def gets_def count_def modify_def throw_def at_client_def split: option.splits)

lemma clients_delivered [simp]: "client_of (delivered C c mb w) = client_of w"
proof (cases c)
  case (Some p)
  obtain r v where "EnqueueDelivery C p mb w = Some (r, v)" "ch_Clients v = ch_Clients w" using EnqueueDelivery_runs by blast
  with Some show ?thesis by (auto simp: delivered_def client_of_def fun_eq_iff)
qed (simp add: delivered_def)

lemma deliver_if_is: "deliver_if C c mb w = Some (Inr (), delivered C c mb w)"
proof (cases c)
  case (Some p)
  obtain r v where "EnqueueDelivery C p mb w = Some (r, v)" using EnqueueDelivery_runs by blast
  with Some show ?thesis by (auto simp: deliver_if_def delivered_def logged_def attempt_def ret_def)
qed (simp add: deliver_if_def delivered_def ret_def)

lemma deliverLocal_is: "u \<noteq> [] \<Longrightarrow> bnd (deliverLocal C u mb) (\<lambda>_. ret ()) w = Some (Inr (), delivered C (client_of w u) mb w)"
  unfolding deliver_if_is [symmetric]
  by (auto simp: deliverLocal_def deliver_if_def bnd_def gets_def ret_def split: option.splits sum.splits)

lemma pair_deliveries:
  assumes "a \<noteq> []" and "b \<noteq> []" and "\<not> ds_enabled (ch_distributor w)"
  shows "Deliver C [a, b] mb k w = Some (Inr (), delivered C (client_of w b) mb (delivered C (client_of w a) mb w))"
  using assms by (simp add: Deliver_def Enabled_def bnd_def [of "gets _"] gets_def)
    (simp add: bnd_def [of "bnd _ _"] deliverLocal_is ret_def)

lemma server_text_is: "server_text_message C req = text_message C [] req"
  by (simp add: server_text_message_def text_message_def server_message_def)

text \<open>C33. The channel server and the shared processor, which was taken out of it, do the same with a text
  message to a user: the same row goes to the batch writer, and the same frames to the same clients. (They
  differ in the cached pages, and for files in the size.)\<close>

theorem channel_agrees_with_processor:
  assumes "decode_request data = (req, False)" and "Type req = type_Text" and "ReceiveId req = CHR ''U'' # r" and "SendId req \<noteq> []"
    and "\<not> ds_enabled (ch_distributor w)"
  shows "\<exists>w1 w2. server_handle C data w = Some (Inr (), w1) \<and> ProcessMessage C scaled data w = Some (Inr (), w2) \<and>
    ch_heap w1 = ch_heap w2 \<and> ch_Clients w1 = ch_Clients w2 \<and> ch_batch w1 = ch_batch w2 \<and>
    st_db (ch_stores w1) = st_db (ch_stores w2)"
proof -
  let ?m = "text_message C [] req" and ?rsp = "user_rsp (ce_tz C) (text_message C [] req) (SendAvatar req)"
  let ?mb = "\<lparr>mb_Message = json_print (user_respond_json ?rsp), mb_Uuid = ms_uuid ?m\<rparr>"
  obtain i go v where v: "(Enqueue C ?m w :: ((server_panic + nat \<times> bool) \<times> _) option) = Some (Inr (i, go), v)" "ends (Enqueue C ?m) w (i, go) v"
    "ch_distributor v = ch_distributor w"
    using Enqueue_runs by blast
  obtain i' go' v' where v': "(Enqueue C ?m w :: ((proc_error + nat \<times> bool) \<times> _) option) = Some (Inr (i', go'), v')" "ends (Enqueue C ?m) w (i', go') v'"
    using Enqueue_runs by blast
  have "v' = v" using v(2) v'(2) by (simp add: ends_def)
  let ?u = "delivered C (client_of v (SendId req)) ?mb (delivered C (client_of v (ReceiveId req)) ?mb v)"
  obtain s where s: "stored (append_cached (ce_env C) user_respond_fields zero_user_respond user_respond_json
      (message_list_key (SendId req) (ReceiveId req)) ?rsp) ?u = Some (Inr () :: server_panic + unit, ?u\<lparr>ch_stores := s\<rparr>)"
    "st_db s = st_db (ch_stores ?u)"
    using stored_append_cached by metis
  have server: "server_handle C data w = Some (Inr (), ?u\<lparr>ch_stores := s\<rparr>)"
    using assms(1-3) v(1) s(1)
    by (simp add: server_handle_def server_text_def server_text_is Let_def server_to_user_def bnd_def [of "Enqueue _ _"] bnd_def [of "gets _"] gets_def
        bnd_def [of "deliver_if _ _ _"] deliver_if_is)
  obtain x where x: "enqueueCacheTask (CacheUser ?m ?rsp) ?u = Some (Inr () :: proc_error + unit, x)" "ch_heap x = ch_heap ?u" "ch_Clients x = ch_Clients ?u"
    "ch_batch x = ch_batch ?u" "ch_stores x = ch_stores ?u"
    using enqueueCacheTask_runs by metis
  have "ProcessMessage C scaled data w = Some (Inr (), x)"
    using assms v' \<open>v' = v\<close> x(1) v(3)
    by (simp add: ProcessMessage_def processMessage_def processText_def Let_def persistMessage_def forward_def forwardToUser_def
        bnd_def [of "bnd _ _"] bnd_def [of "Enqueue _ _"] bnd_def [of "Deliver _ _ _ _"] pair_deliveries ret_def)
  with server x s(2) show ?thesis by simp
qed

theorem channel_agrees_with_processor_witness:
  "\<exists>w1 w2. server_handle (demo_chat_env 9) (demo_request 0 ''U2'') demo_pair = Some (Inr (), w1) \<and>
     ProcessMessage (demo_chat_env 9) (\<lambda>_ _. None) (demo_request 0 ''U2'') demo_pair = Some (Inr (), w2) \<and> ch_heap w1 = ch_heap w2"
proof -
  let ?req = "zero_request\<lparr>SendId := ''U1'', ReceiveId := ''U2''\<rparr>"
  have req: "decode_request (demo_request 0 ''U2'') = (?req, False)" by (simp add: demo_request zero_request_def)
  have local: "\<not> ds_enabled (ch_distributor demo_pair)"
    by (simp add: demo_pair_def NewMessageProcessor_def NewDistributor_def)
  from channel_agrees_with_processor [OF req _ _ _ local, of "''2''" "demo_chat_env 9" "\<lambda>_ _. None"]
  show ?thesis by (auto simp: zero_request_def)
qed

end
