(* ===== verification/Http_Requests.thy ===== *)
theory Http_Requests
  imports Client_Delivery User_Service Contact_Service Group_Service Session_Service Message_Service Instance_Bus
begin

text \<open>
  The requests of the HTTP interface (\<open>dto/request\<close>): each struct as a record with the table of its JSON
  fields, and \<open>BindJSON\<close> of gin, which decodes the first JSON value of the body and ignores what
  follows it. Structs with the same fields share a record.
\<close>

section \<open>Binding\<close>

definition bind_json :: "(string \<times> 's setter) list \<Rightarrow> bytes \<Rightarrow> 's \<Rightarrow> 's \<times> bool" where
  "bind_json fs body z =
     (case parse_val (Suc (length body)) body of None \<Rightarrow> (z, True) | Some (j, _) \<Rightarrow> unmarshal_struct fs j z)"

section \<open>Requests with the caller's identity and one more field\<close>

text \<open>\<open>OwnlistRequest\<close>, \<open>GetUserInfoListRequest\<close>, \<open>WsLogoutRequest\<close>\<close>

record OwnlistRequest =
  ol_OwnerId :: uuid

definition ownlist_fields :: "(string \<times> OwnlistRequest setter) list" where
  "ownlist_fields = [(''owner_id'', set_string (\<lambda>v r. r\<lparr>ol_OwnerId := v\<rparr>))]"

abbreviation zero_ownlist :: OwnlistRequest where "zero_ownlist \<equiv> \<lparr>ol_OwnerId = []\<rparr>"

text \<open>\<open>DeleteContactRequest\<close>, \<open>PassContactApplyRequest\<close>, \<open>BlackContactRequest\<close>, \<open>BlackApplyRequest\<close>,
  \<open>EnterGroupDirectlyRequest\<close>, \<open>GetCurContactListInChatRoomRequest\<close>\<close>

record ContactRequest =
  cr_OwnerId :: uuid
  cr_ContactId :: uuid

definition contact_fields :: "(string \<times> ContactRequest setter) list" where
  "contact_fields =
     [(''owner_id'', set_string (\<lambda>v r. r\<lparr>cr_OwnerId := v\<rparr>)),
      (''contact_id'', set_string (\<lambda>v r. r\<lparr>cr_ContactId := v\<rparr>))]"

abbreviation zero_contact_request :: ContactRequest where
  "zero_contact_request \<equiv> \<lparr>cr_OwnerId = [], cr_ContactId = []\<rparr>"

record DismissGroupRequest =
  dg_OwnerId :: uuid
  dg_GroupId :: uuid

definition dismiss_fields :: "(string \<times> DismissGroupRequest setter) list" where
  "dismiss_fields =
     [(''owner_id'', set_string (\<lambda>v r. r\<lparr>dg_OwnerId := v\<rparr>)),
      (''group_id'', set_string (\<lambda>v r. r\<lparr>dg_GroupId := v\<rparr>))]"

abbreviation zero_dismiss :: DismissGroupRequest where
  "zero_dismiss \<equiv> \<lparr>dg_OwnerId = [], dg_GroupId = []\<rparr>"

record LeaveGroupRequest =
  le_UserId :: uuid
  le_GroupId :: uuid

definition leave_fields :: "(string \<times> LeaveGroupRequest setter) list" where
  "leave_fields =
     [(''user_id'', set_string (\<lambda>v r. r\<lparr>le_UserId := v\<rparr>)),
      (''group_id'', set_string (\<lambda>v r. r\<lparr>le_GroupId := v\<rparr>))]"

abbreviation zero_leave :: LeaveGroupRequest where
  "zero_leave \<equiv> \<lparr>le_UserId = [], le_GroupId = []\<rparr>"

record DeleteSessionRequest =
  ds_OwnerId :: uuid
  ds_SessionId :: uuid

definition delete_session_fields :: "(string \<times> DeleteSessionRequest setter) list" where
  "delete_session_fields =
     [(''owner_id'', set_string (\<lambda>v r. r\<lparr>ds_OwnerId := v\<rparr>)),
      (''session_id'', set_string (\<lambda>v r. r\<lparr>ds_SessionId := v\<rparr>))]"

abbreviation zero_delete_session :: DeleteSessionRequest where
  "zero_delete_session \<equiv> \<lparr>ds_OwnerId = [], ds_SessionId = []\<rparr>"

text \<open>\<open>OpenSessionRequest\<close>, \<open>CreateSessionRequest\<close>\<close>

definition session_request_fields :: "(string \<times> SessionRequest setter) list" where
  "session_request_fields =
     [(''send_id'', set_string (\<lambda>v r. r\<lparr>sq_SendId := v\<rparr>)),
      (''receive_id'', set_string (\<lambda>v r. r\<lparr>sq_ReceiveId := v\<rparr>))]"

abbreviation zero_session_request :: SessionRequest where
  "zero_session_request \<equiv> \<lparr>sq_SendId = [], sq_ReceiveId = []\<rparr>"

definition apply_fields :: "(string \<times> ApplyContactRequest setter) list" where
  "apply_fields =
     [(''owner_id'', set_string (\<lambda>v r. r\<lparr>ap_OwnerId := v\<rparr>)),
      (''contact_id'', set_string (\<lambda>v r. r\<lparr>ap_ContactId := v\<rparr>)),
      (''message'', set_string (\<lambda>v r. r\<lparr>ap_Message := v\<rparr>))]"

abbreviation zero_apply :: ApplyContactRequest where
  "zero_apply \<equiv> \<lparr>ap_OwnerId = [], ap_ContactId = [], ap_Message = []\<rparr>"

section \<open>Requests about groups\<close>

text \<open>\<open>CheckGroupAddModeRequest\<close>, \<open>GetGroupInfoRequest\<close>, \<open>GetGroupMemberListRequest\<close>, \<open>AddGroupListRequest\<close>\<close>

record GroupRequest =
  gr_GroupId :: uuid

definition group_fields :: "(string \<times> GroupRequest setter) list" where
  "group_fields = [(''group_id'', set_string (\<lambda>v r. r\<lparr>gr_GroupId := v\<rparr>))]"

abbreviation zero_group_request :: GroupRequest where "zero_group_request \<equiv> \<lparr>gr_GroupId = []\<rparr>"

definition create_group_fields :: "(string \<times> CreateGroupRequest setter) list" where
  "create_group_fields =
     [(''owner_id'', set_string (\<lambda>v r. r\<lparr>cg_OwnerId := v\<rparr>)), (''name'', set_string (\<lambda>v r. r\<lparr>cg_Name := v\<rparr>)),
      (''notice'', set_string (\<lambda>v r. r\<lparr>cg_Notice := v\<rparr>)), (''add_mode'', set_int 8 (\<lambda>v r. r\<lparr>cg_AddMode := v\<rparr>)),
      (''avatar'', set_string (\<lambda>v r. r\<lparr>cg_Avatar := v\<rparr>))]"

abbreviation zero_create_group :: CreateGroupRequest where
  "zero_create_group \<equiv> \<lparr>cg_OwnerId = [], cg_Name = [], cg_Notice = [], cg_AddMode = 0, cg_Avatar = []\<rparr>"

definition update_group_fields :: "(string \<times> UpdateGroupInfoRequest setter) list" where
  "update_group_fields =
     [(''owner_id'', set_string (\<lambda>v r. r\<lparr>ug_OwnerId := v\<rparr>)), (''uuid'', set_string (\<lambda>v r. r\<lparr>ug_Uuid := v\<rparr>)),
      (''name'', set_string (\<lambda>v r. r\<lparr>ug_Name := v\<rparr>)), (''avatar'', set_string (\<lambda>v r. r\<lparr>ug_Avatar := v\<rparr>)),
      (''add_mode'', set_int 8 (\<lambda>v r. r\<lparr>ug_AddMode := v\<rparr>)), (''notice'', set_string (\<lambda>v r. r\<lparr>ug_Notice := v\<rparr>))]"

abbreviation zero_update_group :: UpdateGroupInfoRequest where
  "zero_update_group \<equiv>
     \<lparr>ug_OwnerId = [], ug_Uuid = [], ug_Name = [], ug_Avatar = [], ug_AddMode = 0, ug_Notice = []\<rparr>"

definition remove_fields :: "(string \<times> RemoveGroupMembersRequest setter) list" where
  "remove_fields =
     [(''group_id'', set_string (\<lambda>v r. r\<lparr>rg_GroupId := v\<rparr>)), (''owner_id'', set_string (\<lambda>v r. r\<lparr>rg_OwnerId := v\<rparr>)),
      (''uuid_list'', set_strings (\<lambda>v r. r\<lparr>rg_UuidList := v\<rparr>))]"

abbreviation zero_remove :: RemoveGroupMembersRequest where
  "zero_remove \<equiv> \<lparr>rg_GroupId = [], rg_OwnerId = [], rg_UuidList = []\<rparr>"

record DeleteGroupsRequest =
  de_UuidList :: "uuid list"

definition delete_groups_fields :: "(string \<times> DeleteGroupsRequest setter) list" where
  "delete_groups_fields = [(''uuid_list'', set_strings (\<lambda>v r. r\<lparr>de_UuidList := v\<rparr>))]"

abbreviation zero_delete_groups :: DeleteGroupsRequest where "zero_delete_groups \<equiv> \<lparr>de_UuidList = []\<rparr>"

record SetGroupsStatusRequest =
  st_UuidList :: "uuid list"
  st_Status :: int

definition groups_status_fields :: "(string \<times> SetGroupsStatusRequest setter) list" where
  "groups_status_fields =
     [(''uuid_list'', set_strings (\<lambda>v r. r\<lparr>st_UuidList := v\<rparr>)), (''status'', set_int 8 (\<lambda>v r. r\<lparr>st_Status := v\<rparr>))]"

abbreviation zero_groups_status :: SetGroupsStatusRequest where
  "zero_groups_status \<equiv> \<lparr>st_UuidList = [], st_Status = 0\<rparr>"

section \<open>Requests about users\<close>

text \<open>\<open>LoginRequest\<close>, \<open>EmailLoginRequest\<close>, \<open>SendEmailCodeRequest\<close>\<close>

record LoginRequest =
  lq_Email :: string
  lq_Password :: string

definition login_fields :: "(string \<times> LoginRequest setter) list" where
  "login_fields =
     [(''email'', set_string (\<lambda>v r. r\<lparr>lq_Email := v\<rparr>)), (''password'', set_string (\<lambda>v r. r\<lparr>lq_Password := v\<rparr>))]"

abbreviation zero_login :: LoginRequest where "zero_login \<equiv> \<lparr>lq_Email = [], lq_Password = []\<rparr>"

record EmailLoginRequest =
  eq_Email :: string
  eq_EmailCode :: string

definition email_login_fields :: "(string \<times> EmailLoginRequest setter) list" where
  "email_login_fields =
     [(''email'', set_string (\<lambda>v r. r\<lparr>eq_Email := v\<rparr>)), (''email_code'', set_string (\<lambda>v r. r\<lparr>eq_EmailCode := v\<rparr>))]"

abbreviation zero_email_login :: EmailLoginRequest where "zero_email_login \<equiv> \<lparr>eq_Email = [], eq_EmailCode = []\<rparr>"

record SendEmailCodeRequest =
  sc_Email :: string

definition send_code_fields :: "(string \<times> SendEmailCodeRequest setter) list" where
  "send_code_fields = [(''email'', set_string (\<lambda>v r. r\<lparr>sc_Email := v\<rparr>))]"

abbreviation zero_send_code :: SendEmailCodeRequest where "zero_send_code \<equiv> \<lparr>sc_Email = []\<rparr>"

definition register_fields :: "(string \<times> RegisterRequest setter) list" where
  "register_fields =
     [(''email'', set_string (\<lambda>v r. r\<lparr>rr_Email := v\<rparr>)), (''password'', set_string (\<lambda>v r. r\<lparr>rr_Password := v\<rparr>)),
      (''nickname'', set_string (\<lambda>v r. r\<lparr>rr_Nickname := v\<rparr>)), (''email_code'', set_string (\<lambda>v r. r\<lparr>rr_EmailCode := v\<rparr>))]"

abbreviation zero_register :: RegisterRequest where
  "zero_register \<equiv> \<lparr>rr_Email = [], rr_Password = [], rr_Nickname = [], rr_EmailCode = []\<rparr>"

definition update_user_fields :: "(string \<times> UpdateUserInfoRequest setter) list" where
  "update_user_fields =
     [(''uuid'', set_string (\<lambda>v r. r\<lparr>uq_Uuid := v\<rparr>)), (''email'', set_string (\<lambda>v r. r\<lparr>uq_Email := v\<rparr>)),
      (''nickname'', set_string (\<lambda>v r. r\<lparr>uq_Nickname := v\<rparr>)), (''birthday'', set_string (\<lambda>v r. r\<lparr>uq_Birthday := v\<rparr>)),
      (''signature'', set_string (\<lambda>v r. r\<lparr>uq_Signature := v\<rparr>)), (''avatar'', set_string (\<lambda>v r. r\<lparr>uq_Avatar := v\<rparr>))]"

abbreviation zero_update_user :: UpdateUserInfoRequest where
  "zero_update_user \<equiv>
     \<lparr>uq_Uuid = [], uq_Email = [], uq_Nickname = [], uq_Birthday = [], uq_Signature = [], uq_Avatar = []\<rparr>"

record GetUserInfoRequest =
  gq_Uuid :: uuid

definition get_user_fields :: "(string \<times> GetUserInfoRequest setter) list" where
  "get_user_fields = [(''uuid'', set_string (\<lambda>v r. r\<lparr>gq_Uuid := v\<rparr>))]"

abbreviation zero_get_user :: GetUserInfoRequest where "zero_get_user \<equiv> \<lparr>gq_Uuid = []\<rparr>"

record AbleUsersRequest =
  ab_UuidList :: "uuid list"
  ab_IsAdmin :: int

definition able_users_fields :: "(string \<times> AbleUsersRequest setter) list" where
  "able_users_fields =
     [(''uuid_list'', set_strings (\<lambda>v r. r\<lparr>ab_UuidList := v\<rparr>)), (''is_admin'', set_int 8 (\<lambda>v r. r\<lparr>ab_IsAdmin := v\<rparr>))]"

abbreviation zero_able_users :: AbleUsersRequest where "zero_able_users \<equiv> \<lparr>ab_UuidList = [], ab_IsAdmin = 0\<rparr>"

record GetContactInfoRequest =
  gc_ContactId :: uuid

definition get_contact_fields :: "(string \<times> GetContactInfoRequest setter) list" where
  "get_contact_fields = [(''contact_id'', set_string (\<lambda>v r. r\<lparr>gc_ContactId := v\<rparr>))]"

abbreviation zero_get_contact :: GetContactInfoRequest where "zero_get_contact \<equiv> \<lparr>gc_ContactId = []\<rparr>"

section \<open>Requests about messages\<close>

record GetMessageListRequest =
  ml_UserOneId :: uuid
  ml_UserTwoId :: uuid
  ml_Limit :: int
  ml_BeforeId :: int

definition message_list_fields :: "(string \<times> GetMessageListRequest setter) list" where
  "message_list_fields =
     [(''user_one_id'', set_string (\<lambda>v r. r\<lparr>ml_UserOneId := v\<rparr>)), (''user_two_id'', set_string (\<lambda>v r. r\<lparr>ml_UserTwoId := v\<rparr>)),
      (''limit'', set_int 64 (\<lambda>v r. r\<lparr>ml_Limit := v\<rparr>)), (''before_id'', set_int 64 (\<lambda>v r. r\<lparr>ml_BeforeId := v\<rparr>))]"

abbreviation zero_message_list :: GetMessageListRequest where
  "zero_message_list \<equiv> \<lparr>ml_UserOneId = [], ml_UserTwoId = [], ml_Limit = 0, ml_BeforeId = 0\<rparr>"

record GetGroupMessageListRequest =
  gh_GroupId :: uuid
  gh_Limit :: int
  gh_BeforeId :: int

definition group_message_list_fields :: "(string \<times> GetGroupMessageListRequest setter) list" where
  "group_message_list_fields =
     [(''group_id'', set_string (\<lambda>v r. r\<lparr>gh_GroupId := v\<rparr>)), (''limit'', set_int 64 (\<lambda>v r. r\<lparr>gh_Limit := v\<rparr>)),
      (''before_id'', set_int 64 (\<lambda>v r. r\<lparr>gh_BeforeId := v\<rparr>))]"

abbreviation zero_group_message_list :: GetGroupMessageListRequest where
  "zero_group_message_list \<equiv> \<lparr>gh_GroupId = [], gh_Limit = 0, gh_BeforeId = 0\<rparr>"

record RevokeMessageRequest =
  rv_MessageUuid :: uuid

definition revoke_fields :: "(string \<times> RevokeMessageRequest setter) list" where
  "revoke_fields = [(''message_uuid'', set_string (\<lambda>v r. r\<lparr>rv_MessageUuid := v\<rparr>))]"

abbreviation zero_revoke :: RevokeMessageRequest where "zero_revoke \<equiv> \<lparr>rv_MessageUuid = []\<rparr>"

end
