(* ===== verification/Controllers.thy ===== *)
theory Controllers
  imports Http_Requests
begin

text \<open>
  The controllers of the HTTP interface (\<open>api/v1\<close>): each handler binds the JSON body, overwrites the
  identity it names with the one of the token, calls its service and writes the answer with \<open>JsonBack\<close>.
  A handler is an action on the process with its files; an early return is an error. What a request,
  the configuration and the libraries bring is in \<open>http_env\<close> and \<open>http_request\<close>.
\<close>

section \<open>Requests and replies\<close>

text \<open>\<open>he_crypto\<close>, \<open>he_secret\<close>, \<open>he_salt\<close>: the libraries for tokens and passwords with the configured
  secret; \<open>he_smtp\<close> the mail server; \<open>he_detect\<close>, \<open>he_fault\<close> the detection of types and the disk for an
  upload; \<open>he_refuse\<close> the status with which the upgrade of a connection fails, if it does.\<close>

record ('d, 'r) http_env =
  he_chat :: "('d, 'r) chat_env"
  he_crypto :: crypto_lib
  he_secret :: string
  he_salt :: nat
  he_smtp :: "string \<Rightarrow> string \<Rightarrow> bool"
  he_rfc3339 :: "time \<Rightarrow> string"
  he_detect :: "string \<Rightarrow> string"
  he_fault :: "disk_fault option"
  he_avatarPath :: string
  he_filePath :: string
  he_refuse :: "int option"

text \<open>\<open>hq_form\<close>: the multipart form, as in \<open>Message_Service\<close>.\<close>

record http_request =
  hq_method :: string
  hq_path :: string
  hq_query :: "(string \<times> string) list"
  hq_auth :: string
  hq_ip :: string
  hq_body :: bytes
  hq_form :: "upload option list option"

definition Query :: "http_request \<Rightarrow> string \<Rightarrow> string" where
  "Query q k = (case map_of (hq_query q) k of None \<Rightarrow> [] | Some v \<Rightarrow> v)"

text \<open>The data of an answer; \<open>PNull\<close> is a nil pointer inside the interface, written as \<open>null\<close>.\<close>

datatype payload =
    PNull | PLogin LoginRespond | PUser GetUserInfoRespond | PUserList "GetUserListRespond list"
  | PMyGroups "LoadMyGroupRespond list" | PInt int | PStr string | PBool bool | PGroup GetGroupInfoRespond
  | PGroupList "GetGroupListRespond list" | PMembers "GetGroupMemberListRespond list"
  | PUserSessions "UserSessionListRespond list" | PGroupSessions "GroupSessionListRespond list"
  | PContacts "MyUserListRespond list" | PContact GetContactInfoRespond | PApplies "NewContactListRespond list"
  | PMessages "GetMessageListRespond list" | PGroupMessages "MessageRespond list" | PUpload UploadFileResponse
  | PUuids "uuid list"

definition ptr :: "('a \<Rightarrow> payload) \<Rightarrow> 'a option \<Rightarrow> payload option" where
  "ptr f a = Some (case a of None \<Rightarrow> PNull | Some x \<Rightarrow> f x)"

record body =
  bd_code :: int
  bd_message :: msg
  bd_data :: "payload option"

text \<open>A reply: the status, what was written, and a file or the report of the counters that is sent.\<close>

record http_reply =
  rp_status :: int
  rp_bodies :: "body list"
  rp_file :: "string option"
  rp_report :: "(string \<times> u64) list option"

definition json_reply :: "int \<Rightarrow> body list \<Rightarrow> http_reply" where
  "json_reply status bs = \<lparr>rp_status = status, rp_bodies = bs, rp_file = None, rp_report = None\<rparr>"

abbreviation plain_body :: "int \<Rightarrow> msg \<Rightarrow> body" where
  "plain_body c m \<equiv> \<lparr>bd_code = c, bd_message = m, bd_data = None\<rparr>"

text \<open>The process: the chat server with the clients that wait in its channels \<open>Login\<close> and \<open>Logout\<close>, the
  counter of the rate limit, and the files on the disk.\<close>

record ('d, 'r) http_state =
  hs_chat :: "('d, 'r) chat"
  hs_Login :: "nat list"
  hs_Logout :: "nat list"
  hs_blocked :: u64
  hs_disk :: "string list"

type_synonym ('d, 'r) handler =
  "('d, 'r) http_env \<Rightarrow> http_request \<Rightarrow> uuid \<Rightarrow> (('d, 'r) http_state, http_reply, http_reply) act"

abbreviation he_env :: "('d, 'r) http_env \<Rightarrow> ('d, 'r) env" where
  "he_env H \<equiv> ce_env (he_chat H)"

abbreviation he_now :: "('d, 'r) http_env \<Rightarrow> time" where
  "he_now H \<equiv> e_now (he_env H)"

definition in_chat :: "('d, 'r, 'e, 'a) chat_act \<Rightarrow> (('d, 'r) http_state, 'e, 'a) act" where
  "in_chat m w = map_option (\<lambda>(r, c). (r, w\<lparr>hs_chat := c\<rparr>)) (m (hs_chat w))"

definition in_stores :: "('d, 'r, 'e, 'a) svc \<Rightarrow> (('d, 'r) http_state, 'e, 'a) act" where
  "in_stores m = in_chat (stored m)"

text \<open>\<open>random.GetNowAndLenRandomString(11)\<close>\<close>

definition fresh_id :: "('d, 'r) http_env \<Rightarrow> string" where
  "fresh_id H = GetNowAndLenRandomString (ce_tz (he_chat H)) (he_now H) (ce_rand (he_chat H)) 11"

section \<open>Answers\<close>

text \<open>A code other than 0, -1 and -2 writes nothing.\<close>

definition JsonBack :: "msg \<Rightarrow> int \<Rightarrow> payload option \<Rightarrow> body list" where
  "JsonBack message r data =
     (if r = 0 then [\<lparr>bd_code = 200, bd_message = message, bd_data = data\<rparr>]
      else if r = -2 then [plain_body 400 message]
      else if r = -1 then [plain_body 500 message]
      else [])"

text \<open>A panic ends in the recovery of gin: status 500 without a body.\<close>

definition json_back :: "('a \<Rightarrow> payload option) \<Rightarrow> 'a data_answer \<Rightarrow> http_reply" where
  "json_back f a =
     (case a of (message, data, r) \<Rightarrow>
      if message = Panicked then json_reply 500 [] else json_reply 200 (JsonBack message r (f data)))"

text \<open>A failed \<open>BindJSON\<close> has sent the status 400 before the handler writes its body.\<close>

definition bind_failed :: http_reply where
  "bind_failed = json_reply 400 [plain_body 500 SystemError]"

definition bound ::
  "(string \<times> 'q setter) list \<Rightarrow> 'q \<Rightarrow> http_request \<Rightarrow> ('q \<Rightarrow> ('w, http_reply, http_reply) act) \<Rightarrow>
   ('w, http_reply, http_reply) act" where
  "bound fs z q f = (case bind_json fs (hq_body q) z of (req, bad) \<Rightarrow> if bad then throw bind_failed else f req)"

definition with_data ::
  "('a \<Rightarrow> payload option) \<Rightarrow> ('d, 'r, 'a data_answer, 'a data_answer) svc \<Rightarrow>
   (('d, 'r) http_state, 'e, http_reply) act" where
  "with_data f m = attempt (in_stores m) (\<lambda>r. ret (json_back f (case r of Inl a \<Rightarrow> a | Inr a \<Rightarrow> a)))"

definition plain :: "('d, 'r, answer, answer) svc \<Rightarrow> (('d, 'r) http_state, 'e, http_reply) act" where
  "plain m = attempt (in_stores m) (\<lambda>r.
     ret (json_back (\<lambda>_. None) (case (case r of Inl a \<Rightarrow> a | Inr a \<Rightarrow> a) of (message, c) \<Rightarrow> (message, (), c))))"

section \<open>Accounts\<close>

definition v1_Register :: "('d, 'r) handler" where
  "v1_Register H q _ = bound register_fields zero_register q (\<lambda>req.
     with_data (ptr PLogin) (Register (he_env H) (he_crypto H) (he_secret H) (ce_tz (he_chat H)) (he_salt H)
       (ce_rand (he_chat H)) req))"

definition v1_Login :: "('d, 'r) handler" where
  "v1_Login H q _ = bound login_fields zero_login q (\<lambda>req.
     with_data (ptr PLogin) (Login (he_env H) (he_crypto H) (he_secret H) (ce_tz (he_chat H)) (lq_Email req) (lq_Password req)))"

definition v1_EmailLogin :: "('d, 'r) handler" where
  "v1_EmailLogin H q _ = bound email_login_fields zero_email_login q (\<lambda>req.
     with_data (ptr PLogin) (EmailLogin (he_env H) (he_crypto H) (he_secret H) (ce_tz (he_chat H)) (eq_Email req) (eq_EmailCode req)))"

definition v1_SendEmailCode :: "('d, 'r) handler" where
  "v1_SendEmailCode H q _ = bound send_code_fields zero_send_code q (\<lambda>req.
     plain (user_SendEmailCode (he_env H) (ce_rand (he_chat H)) (he_smtp H) (sc_Email req)))"

definition v1_UpdateUserInfo :: "('d, 'r) handler" where
  "v1_UpdateUserInfo H q uuid = bound update_user_fields zero_update_user q (\<lambda>req.
     plain (UpdateUserInfo (he_env H) (req\<lparr>uq_Uuid := uuid\<rparr>)))"

text \<open>The body only has to be well-formed: the profile is the caller's own.\<close>

definition v1_GetUserInfo :: "('d, 'r) handler" where
  "v1_GetUserInfo H q uuid = bound get_user_fields zero_get_user q (\<lambda>req.
     let req = (if gq_Uuid req = [] then req\<lparr>gq_Uuid := uuid\<rparr> else req);
         req = req\<lparr>gq_Uuid := uuid\<rparr> in
     with_data (ptr PUser) (GetUserInfo (he_env H) (ce_tz (he_chat H)) (gq_Uuid req)))"

definition v1_GetUserInfoList :: "('d, 'r) handler" where
  "v1_GetUserInfoList H q uuid = bound ownlist_fields zero_ownlist q (\<lambda>_.
     with_data (Some \<circ> PUserList) (GetUserInfoList (he_env H) uuid))"

definition v1_AbleUsers :: "('d, 'r) handler" where
  "v1_AbleUsers H q _ = bound able_users_fields zero_able_users q (\<lambda>req.
     plain (AbleUsers (he_env H) (ab_UuidList req)))"

definition v1_DisableUsers :: "('d, 'r) handler" where
  "v1_DisableUsers H q _ = bound able_users_fields zero_able_users q (\<lambda>req.
     plain (DisableUsers (he_env H) (ab_UuidList req)))"

definition v1_DeleteUsers :: "('d, 'r) handler" where
  "v1_DeleteUsers H q _ = bound able_users_fields zero_able_users q (\<lambda>req.
     plain (DeleteUsers (he_env H) (ab_UuidList req)))"

definition v1_SetAdmin :: "('d, 'r) handler" where
  "v1_SetAdmin H q _ = bound able_users_fields zero_able_users q (\<lambda>req.
     plain (SetAdmin (he_env H) (ab_UuidList req) (ab_IsAdmin req)))"

section \<open>Groups\<close>

definition v1_CreateGroup :: "('d, 'r) handler" where
  "v1_CreateGroup H q uuid = bound create_group_fields zero_create_group q (\<lambda>req.
     plain (CreateGroup (he_env H) (req\<lparr>cg_OwnerId := uuid\<rparr>) (fresh_id H)))"

definition v1_LoadMyGroup :: "('d, 'r) handler" where
  "v1_LoadMyGroup H q uuid = bound ownlist_fields zero_ownlist q (\<lambda>_.
     with_data (Some \<circ> PMyGroups) (LoadMyGroup (he_env H) uuid))"

definition v1_CheckGroupAddMode :: "('d, 'r) handler" where
  "v1_CheckGroupAddMode H q _ = bound group_fields zero_group_request q (\<lambda>req.
     with_data (Some \<circ> PInt) (CheckGroupAddMode (he_env H) (gr_GroupId req)))"

text \<open>The service calls the group \<open>ownerId\<close> and the user who enters \<open>contactId\<close>.\<close>

definition v1_EnterGroupDirectly :: "('d, 'r) handler" where
  "v1_EnterGroupDirectly H q uuid = bound contact_fields zero_contact_request q (\<lambda>req.
     plain (EnterGroupDirectly (he_env H) (cr_ContactId req) uuid))"

definition v1_LeaveGroup :: "('d, 'r) handler" where
  "v1_LeaveGroup H q uuid = bound leave_fields zero_leave q (\<lambda>req.
     plain (LeaveGroup (he_env H) uuid (le_GroupId req)))"

definition v1_DismissGroup :: "('d, 'r) handler" where
  "v1_DismissGroup H q uuid = bound dismiss_fields zero_dismiss q (\<lambda>req.
     plain (DismissGroup (he_env H) uuid (dg_GroupId req)))"

definition v1_GetGroupInfo :: "('d, 'r) handler" where
  "v1_GetGroupInfo H q _ = bound group_fields zero_group_request q (\<lambda>req.
     with_data (ptr PGroup) (GetGroupInfo (he_env H) (gr_GroupId req)))"

definition v1_GetGroupInfoList :: "('d, 'r) handler" where
  "v1_GetGroupInfoList H q _ = with_data (Some \<circ> PGroupList) (GetGroupInfoList (he_env H))"

definition v1_DeleteGroups :: "('d, 'r) handler" where
  "v1_DeleteGroups H q _ = bound delete_groups_fields zero_delete_groups q (\<lambda>req.
     plain (DeleteGroups (he_env H) (de_UuidList req)))"

definition v1_SetGroupsStatus :: "('d, 'r) handler" where
  "v1_SetGroupsStatus H q _ = bound groups_status_fields zero_groups_status q (\<lambda>req.
     plain (SetGroupsStatus (he_env H) (st_UuidList req) (st_Status req)))"

definition v1_UpdateGroupInfo :: "('d, 'r) handler" where
  "v1_UpdateGroupInfo H q uuid = bound update_group_fields zero_update_group q (\<lambda>req.
     plain (UpdateGroupInfo (he_env H) (req\<lparr>ug_OwnerId := uuid\<rparr>)))"

definition v1_GetGroupMemberList :: "('d, 'r) handler" where
  "v1_GetGroupMemberList H q _ = bound group_fields zero_group_request q (\<lambda>req.
     with_data (Some \<circ> PMembers) (GetGroupMemberList (he_env H) (gr_GroupId req)))"

definition v1_RemoveGroupMembers :: "('d, 'r) handler" where
  "v1_RemoveGroupMembers H q uuid = bound remove_fields zero_remove q (\<lambda>req.
     plain (RemoveGroupMembers (he_env H) (req\<lparr>rg_OwnerId := uuid\<rparr>)))"

section \<open>Sessions\<close>

definition v1_OpenSession :: "('d, 'r) handler" where
  "v1_OpenSession H q uuid = bound session_request_fields zero_session_request q (\<lambda>req.
     with_data (Some \<circ> PStr) (OpenSession (he_env H) (ce_tz (he_chat H)) (he_rfc3339 H) (ce_rand (he_chat H))
       (req\<lparr>sq_SendId := uuid\<rparr>)))"

definition v1_GetUserSessionList :: "('d, 'r) handler" where
  "v1_GetUserSessionList H q uuid = bound ownlist_fields zero_ownlist q (\<lambda>_.
     with_data (Some \<circ> PUserSessions) (GetUserSessionList (he_env H) uuid))"

definition v1_GetGroupSessionList :: "('d, 'r) handler" where
  "v1_GetGroupSessionList H q uuid = bound ownlist_fields zero_ownlist q (\<lambda>_.
     with_data (Some \<circ> PGroupSessions) (GetGroupSessionList (he_env H) uuid))"

definition v1_DeleteSession :: "('d, 'r) handler" where
  "v1_DeleteSession H q uuid = bound delete_session_fields zero_delete_session q (\<lambda>req.
     plain (DeleteSession (he_env H) uuid (ds_SessionId req)))"

definition v1_CheckOpenSessionAllowed :: "('d, 'r) handler" where
  "v1_CheckOpenSessionAllowed H q uuid = bound session_request_fields zero_session_request q (\<lambda>req.
     with_data (Some \<circ> PBool) (CheckOpenSessionAllowed (he_env H) uuid (sq_ReceiveId req)))"

section \<open>Contacts\<close>

text \<open>The handler does not return after a failed bind: the answer of the service follows the error.\<close>

definition v1_GetUserList :: "('d, 'r) handler" where
  "v1_GetUserList H q uuid =
     bnd (with_data (Some \<circ> PContacts) (GetUserList (he_env H) uuid)) (\<lambda>rp.
     ret (if snd (bind_json ownlist_fields (hq_body q) zero_ownlist)
          then bind_failed\<lparr>rp_bodies := rp_bodies bind_failed @ rp_bodies rp\<rparr> else rp))"

definition v1_LoadMyJoinedGroup :: "('d, 'r) handler" where
  "v1_LoadMyJoinedGroup H q uuid = bound ownlist_fields zero_ownlist q (\<lambda>_.
     with_data (Some \<circ> PMyGroups) (LoadMyJoinedGroup (he_env H) uuid))"

definition v1_GetContactInfo :: "('d, 'r) handler" where
  "v1_GetContactInfo H q _ = bound get_contact_fields zero_get_contact q (\<lambda>req.
     with_data (Some \<circ> PContact) (GetContactInfo (he_env H) (gc_ContactId req)))"

definition v1_DeleteContact :: "('d, 'r) handler" where
  "v1_DeleteContact H q uuid = bound contact_fields zero_contact_request q (\<lambda>req.
     plain (DeleteContact (he_env H) uuid (cr_ContactId req)))"

definition v1_ApplyContact :: "('d, 'r) handler" where
  "v1_ApplyContact H q uuid = bound apply_fields zero_apply q (\<lambda>req.
     plain (ApplyContact (he_env H) (req\<lparr>ap_OwnerId := uuid\<rparr>) (fresh_id H)))"

definition v1_GetNewContactList :: "('d, 'r) handler" where
  "v1_GetNewContactList H q uuid = bound ownlist_fields zero_ownlist q (\<lambda>_.
     with_data (Some \<circ> PApplies) (GetNewContactList (he_env H) uuid))"

definition v1_PassContactApply :: "('d, 'r) handler" where
  "v1_PassContactApply H q uuid = bound contact_fields zero_contact_request q (\<lambda>req.
     plain (PassContactApply (he_env H) uuid (cr_ContactId req)))"

definition v1_RefuseContactApply :: "('d, 'r) handler" where
  "v1_RefuseContactApply H q uuid = bound contact_fields zero_contact_request q (\<lambda>req.
     plain (RefuseContactApply (he_env H) uuid (cr_ContactId req)))"

definition v1_BlackContact :: "('d, 'r) handler" where
  "v1_BlackContact H q uuid = bound contact_fields zero_contact_request q (\<lambda>req.
     plain (BlackContact (he_env H) uuid (cr_ContactId req)))"

definition v1_CancelBlackContact :: "('d, 'r) handler" where
  "v1_CancelBlackContact H q uuid = bound contact_fields zero_contact_request q (\<lambda>req.
     plain (CancelBlackContact (he_env H) uuid (cr_ContactId req)))"

definition v1_GetAddGroupList :: "('d, 'r) handler" where
  "v1_GetAddGroupList H q uuid = bound group_fields zero_group_request q (\<lambda>req.
     with_data (Some \<circ> PApplies) (GetAddGroupList (he_env H) uuid (gr_GroupId req)))"

definition v1_BlackApply :: "('d, 'r) handler" where
  "v1_BlackApply H q uuid = bound contact_fields zero_contact_request q (\<lambda>req.
     plain (BlackApply (he_env H) uuid (cr_ContactId req)))"

text \<open>Both users of the room come from the body.\<close>

definition v1_GetCurContactListInChatRoom :: "('d, 'r) handler" where
  "v1_GetCurContactListInChatRoom H q _ = bound contact_fields zero_contact_request q (\<lambda>req.
     ret (json_back (Some \<circ> PUuids) (GetCurContactListInChatRoom chatRooms (cr_OwnerId req) (cr_ContactId req))))"

section \<open>Messages\<close>

text \<open>The guards of the handlers read the database themselves. \<open>Table("group_member")\<close> has no soft-delete
  scope; the condition is written out.\<close>

definition v1_GetMessageList :: "('d, 'r) handler" where
  "v1_GetMessageList H q uuid = bound message_list_fields zero_message_list q (\<lambda>req.
     let one = uuid; two = ml_UserTwoId req in
     bnd (guard (one \<noteq> two) (json_reply 200 [plain_body (-2) (Msg ''not with yourself'')])) (\<lambda>_.
     bnd (or_throw (in_stores (First (he_env H) contacts (\<lambda>c.
         ((uc_user_id c = one \<and> uc_contact_id c = two) \<or> (uc_user_id c = two \<and> uc_contact_id c = one)) \<and>
         uc_contact_type c = 0 \<and> uc_status c = 0)))
       (json_reply 200 [plain_body 403 (Msg ''not allowed'')])) (\<lambda>_.
     with_data (Some \<circ> PMessages)
       (GetMessageList (he_env H) (ce_tz (he_chat H)) one two (ml_Limit req) (ml_BeforeId req)))))"

definition count_membership :: "('d, 'r) env \<Rightarrow> uuid \<Rightarrow> uuid \<Rightarrow> ('d, 'r, go_error, nat) svc" where
  "count_membership E groupId userId =
     bnd (FindUnscoped E members (\<lambda>m. gm_group_id m = groupId \<and> gm_user_id m = userId \<and> gm_status m = 0 \<and> gm_deleted_at m = 0))
       (\<lambda>ms. ret (length ms))"

definition v1_GetGroupMessageList :: "('d, 'r) handler" where
  "v1_GetGroupMessageList H q uuid = bound group_message_list_fields zero_group_message_list q (\<lambda>req.
     let refused = json_reply 200 [plain_body 403 (Msg ''not allowed'')] in
     bnd (or_throw (in_stores (count_membership (he_env H) (gh_GroupId req) uuid)) refused) (\<lambda>memberCount.
     bnd (guard (memberCount \<noteq> 0) refused) (\<lambda>_.
     with_data (Some \<circ> PGroupMessages)
       (GetGroupMessageList (he_env H) (ce_tz (he_chat H)) (gh_GroupId req) (gh_Limit req) (gh_BeforeId req)))))"

definition v1_RevokeMessage :: "('d, 'r) handler" where
  "v1_RevokeMessage H q uuid = bound revoke_fields zero_revoke q (\<lambda>req.
     plain (RevokeMessage (he_env H) uuid (rv_MessageUuid req)))"

section \<open>Files\<close>

text \<open>An upload that stores nothing answers with a nil interface, so that there is no \<open>data\<close>.\<close>

definition uploaded ::
  "(string list \<Rightarrow> ('d, 'r, http_reply, upload_answer \<times> string list) svc) \<Rightarrow> (('d, 'r) http_state, http_reply, http_reply) act" where
  "uploaded m =
     bnd (gets hs_disk) (\<lambda>disk.
     bnd (in_stores (m disk)) (\<lambda>(a, disk').
     bnd (modify (\<lambda>w. w\<lparr>hs_disk := disk'\<rparr>)) (\<lambda>_.
     ret (json_back (map_option PUpload) a))))"

definition v1_UploadAvatar :: "('d, 'r) handler" where
  "v1_UploadAvatar H q uuid = uploaded (UploadAvatar (he_env H) (ce_tz (he_chat H)) (ce_rand (he_chat H))
     (he_detect H) (he_avatarPath H) uuid (he_fault H) (hq_form q))"

definition v1_UploadFile :: "('d, 'r) handler" where
  "v1_UploadFile H q uuid = uploaded (UploadFile (he_env H) (ce_tz (he_chat H)) (ce_rand (he_chat H))
     (he_detect H) (he_filePath H) uuid (he_fault H) (hq_form q))"

text \<open>The \<open>LIKE\<close> of MySQL under a binary collation, for a pattern without the escape character.\<close>

fun sql_like :: "string \<Rightarrow> string \<Rightarrow> bool" where
  "sql_like [] s = (s = [])"
| "sql_like (p # ps) s =
     (if p = CHR ''%'' then list_ex (\<lambda>i. sql_like ps (drop i s)) [0..<Suc (length s)]
      else (case s of [] \<Rightarrow> False | c # cs \<Rightarrow> (p = CHR ''_'' \<or> c = p) \<and> sql_like ps cs))"

text \<open>\<open>filepath.Base\<close>\<close>

definition filepath_base :: "string \<Rightarrow> string" where
  "filepath_base s =
     (if s = [] then ''.''
      else
        let t = rev (dropWhile (\<lambda>c. c = CHR ''/'') (rev s));
            b = rev (takeWhile (\<lambda>c. c \<noteq> CHR ''/'') (rev t))
        in if b = [] then ''/'' else b)"

text \<open>\<open>serveFile\<close>: \<open>http.ServeFile\<close> answers 404 for a file that is not there. The configured directory is a
  clean path.\<close>

definition serveFile :: "('d, 'r) http_env \<Rightarrow> string \<Rightarrow> (('d, 'r) http_state, 'e, http_reply) act" where
  "serveFile H filename =
     bnd (gets hs_disk) (\<lambda>disk.
     let filePath = he_filePath H @ ''/'' @ filename in
     ret (if filePath \<in> set disk then (json_reply 200 [])\<lparr>rp_file := Some filePath\<rparr> else json_reply 404 []))"

definition mentions :: "string \<Rightarrow> Message \<Rightarrow> bool" where
  "mentions filename m \<longleftrightarrow> sql_like (''%'' @ filename @ ''%'') (ms_url m)"

text \<open>The checks of \<open>DownloadFile\<close> from the last to the first: the group of the first message to a group that
  mentions the file; the sender or receiver of a message that does; the uploader.\<close>

definition no_permission :: http_reply where
  "no_permission = json_reply 200 [plain_body 403 (Msg ''no permission'')]"

definition send_to_member :: "('d, 'r) http_env \<Rightarrow> string \<Rightarrow> uuid \<Rightarrow> (('d, 'r) http_state, http_reply, http_reply) act" where
  "send_to_member H filename uuid =
     bnd (or_throw (in_stores (First (he_env H) messages (\<lambda>m. mentions filename m \<and> starts_with (CHR ''G'') (ms_receive_id m))))
       no_permission) (\<lambda>groupMsg.
     attempt (in_stores (count_membership (he_env H) (ms_receive_id groupMsg) uuid)) (\<lambda>c.
     if (case c of Inr n \<Rightarrow> 0 < n | Inl _ \<Rightarrow> False) then serveFile H filename else throw no_permission))"

definition send_to_party :: "('d, 'r) http_env \<Rightarrow> string \<Rightarrow> uuid \<Rightarrow> (('d, 'r) http_state, http_reply, http_reply) act" where
  "send_to_party H filename uuid =
     attempt (in_stores (First (he_env H) messages (\<lambda>m. mentions filename m \<and> (ms_send_id m = uuid \<or> ms_receive_id m = uuid))))
       (\<lambda>r. case r of Inr _ \<Rightarrow> serveFile H filename | Inl _ \<Rightarrow> send_to_member H filename uuid)"

definition v1_DownloadFile :: "('d, 'r) handler" where
  "v1_DownloadFile H q uuid =
     (let name = Query q ''name'' in
      bnd (guard (name \<noteq> []) (json_reply 200 [plain_body (-1) (Msg ''no file name'')])) (\<lambda>_.
      bnd (guard (\<not> (sublist ''..'' name \<or> sublist ''/'' name \<or> sublist [CHR 0x5C] name))
        (json_reply 200 [plain_body (-1) (Msg ''illegal file name'')])) (\<lambda>_.
      let filename = filepath_base name in
      bnd (or_throw (in_stores (First (he_env H) files (\<lambda>f. fm_server_name f = filename)))
        (json_reply 200 [plain_body (-1) (Msg ''no such file'')])) (\<lambda>meta.
      if fm_uploader_uuid meta = uuid then serveFile H filename else send_to_party H filename uuid))))"

section \<open>WebSocket\<close>

definition ws_token :: "http_request \<Rightarrow> string" where
  "ws_token q =
     (let token = Query q ''token'' in
      if token = [] then
        (let h = hq_auth q in if 7 < length h \<and> take 7 h = ''Bearer '' then drop 7 h else h)
      else token)"

text \<open>A refusal has the HTTP status 200 and the code 401. A connection that was upgraded has status 101, and
  its client waits in the channel \<open>Login\<close>.\<close>

definition v1_WsLogin :: "('d, 'r) handler" where
  "v1_WsLogin H q _ =
     (let token = ws_token q; refused = (\<lambda>m. json_reply 200 [plain_body 401 (Msg m)]) in
      bnd (guard (token \<noteq> []) (refused ''no token'')) (\<lambda>_.
      (case ParseToken (he_crypto H) (he_secret H) token (he_now H) of
         None \<Rightarrow> throw (refused ''invalid token'')
       | Some claims \<Rightarrow>
           bnd (in_stores (CheckUserActive (he_env H) (jc_Uuid claims))) (\<lambda>(allowed, _).
           bnd (guard allowed (refused ''account not usable'')) (\<lambda>_.
           (case he_refuse H of
              Some status \<Rightarrow> ret (json_reply status [])
            | None \<Rightarrow>
                bnd (in_chat (NewClientInit (jc_Uuid claims))) (\<lambda>p.
                bnd (modify (\<lambda>w. w\<lparr>hs_Login := hs_Login w @ [p]\<rparr>)) (\<lambda>_.
                ret (json_reply 101 [])))))))))"

definition logout_of :: "uuid \<Rightarrow> (('d, 'r) http_state, 'e, unit) act" where
  "logout_of u =
     bnd (in_chat (ClientLogout u)) (\<lambda>p.
     modify (\<lambda>w. w\<lparr>hs_Logout := hs_Logout w @ (case p of None \<Rightarrow> [] | Some p \<Rightarrow> [p])\<rparr>))"

definition v1_WsLogout :: "('d, 'r) handler" where
  "v1_WsLogout H q uuid = bound ownlist_fields zero_ownlist q (\<lambda>_.
     bnd (logout_of uuid) (\<lambda>_.
     ret (json_back (\<lambda>_. None) (Msg ''logged out'', (), 0))))"

end
