(* ===== verification/Http_Server.thy ===== *)
theory Http_Server
  imports Controllers
begin

text \<open>
  The HTTP server (\<open>https_server\<close>): the table of routes with the middlewares each runs behind, and what
  happens to a request. Middlewares for cross-origin requests and TLS redirection, the public avatars and
  \<open>/prometheus\<close> (whose numbers are in \<open>Metrics_Export\<close>) are served by libraries; they are not in the table.
\<close>

section \<open>Routes\<close>

text \<open>\<open>Limited\<close>: the prefix, the number of requests and the window of \<open>RateLimit\<close>.\<close>

datatype access = Open | Limited string int time | Authenticated | Administrator

text \<open>The handler of \<open>/metrics\<close>: the counters of the chat process and of the rate limit, under the names of
  the JSON object. (The two counters that the session router of the hybrid mode increments are kept in its state, which
  is not part of this one.)\<close>

definition metrics_report :: "MessageMetrics \<Rightarrow> u64 \<Rightarrow> (string \<times> u64) list" where
  "metrics_report s blocked =
     [(''channel_routed'', channelRouted s), (''kafka_routed'', kafkaRouted s),
      (''delivery_queue_timeouts'', deliveryQueueTimeouts s), (''delivery_client_closed'', deliveryClientClosed s),
      (''delivery_status_queue_drops'', deliveryStatusQueueDrops s),
      (''session_queue_timeouts'', sessionQueueTimeouts s), (''process_failures'', processFailures s),
      (''kafka_commit_failures'', kafkaCommitFailures s), (''kafka_dlq_total'', kafkaDLQTotal s),
      (''cache_queue_drops'', cacheQueueDrops s), (''batch_flush_errors'', batchFlushErrors s),
      (''fanout_queue_drops'', fanoutQueueDrops s), (''cross_node_publish'', crossNodePublish s),
      (''cross_node_publish_failures'', crossNodePublishFailures s), (''cross_node_received'', crossNodeReceived s),
      (''cross_node_dedup_dropped'', crossNodeDedupDropped s),
      (''cross_node_lookup_failures'', crossNodeLookupFailures s), (''session_forwarded'', sessionForwarded s),
      (''session_forward_failures'', sessionForwardFailures s),
      (''session_forward_received'', sessionForwardReceived s), (''ratelimit_blocked'', blocked)]"

definition get_metrics :: "('d, 'r) handler" where
  "get_metrics H q _ =
     bnd (gets (\<lambda>w. metrics_report (ch_metrics (hs_chat w)) (hs_blocked w))) (\<lambda>m.
     ret ((json_reply 200 [])\<lparr>rp_report := Some m\<rparr>))"

definition public_routes :: "((string \<times> string) \<times> access \<times> ('d, 'r) handler) list" where
  "public_routes =
     [((''POST'', ''/login''), Limited ''login'' 20 minute, v1_Login),
      ((''POST'', ''/register''), Limited ''register'' 10 minute, v1_Register),
      ((''POST'', ''/user/sendEmailCode''), Limited ''send_email_code'' 5 minute, v1_SendEmailCode),
      ((''POST'', ''/user/emailLogin''), Limited ''email_login'' 20 minute, v1_EmailLogin),
      ((''GET'', ''/wss''), Open, v1_WsLogin),
      ((''GET'', ''/metrics''), Open, get_metrics)]"

definition auth_routes :: "((string \<times> string) \<times> access \<times> ('d, 'r) handler) list" where
  "auth_routes =
     [((''POST'', ''/user/updateUserInfo''), Authenticated, v1_UpdateUserInfo),
      ((''POST'', ''/user/getUserInfo''), Authenticated, v1_GetUserInfo),
      ((''POST'', ''/user/wsLogout''), Authenticated, v1_WsLogout),
      ((''POST'', ''/group/createGroup''), Authenticated, v1_CreateGroup),
      ((''POST'', ''/group/loadMyGroup''), Authenticated, v1_LoadMyGroup),
      ((''POST'', ''/group/checkGroupAddMode''), Authenticated, v1_CheckGroupAddMode),
      ((''POST'', ''/group/enterGroupDirectly''), Authenticated, v1_EnterGroupDirectly),
      ((''POST'', ''/group/leaveGroup''), Authenticated, v1_LeaveGroup),
      ((''POST'', ''/group/dismissGroup''), Authenticated, v1_DismissGroup),
      ((''POST'', ''/group/getGroupInfo''), Authenticated, v1_GetGroupInfo),
      ((''POST'', ''/group/updateGroupInfo''), Authenticated, v1_UpdateGroupInfo),
      ((''POST'', ''/group/getGroupMemberList''), Authenticated, v1_GetGroupMemberList),
      ((''POST'', ''/group/removeGroupMembers''), Authenticated, v1_RemoveGroupMembers),
      ((''POST'', ''/session/openSession''), Authenticated, v1_OpenSession),
      ((''POST'', ''/session/getUserSessionList''), Authenticated, v1_GetUserSessionList),
      ((''POST'', ''/session/getGroupSessionList''), Authenticated, v1_GetGroupSessionList),
      ((''POST'', ''/session/deleteSession''), Authenticated, v1_DeleteSession),
      ((''POST'', ''/session/checkOpenSessionAllowed''), Authenticated, v1_CheckOpenSessionAllowed),
      ((''POST'', ''/contact/getUserList''), Authenticated, v1_GetUserList),
      ((''POST'', ''/contact/loadMyJoinedGroup''), Authenticated, v1_LoadMyJoinedGroup),
      ((''POST'', ''/contact/getContactInfo''), Authenticated, v1_GetContactInfo),
      ((''POST'', ''/contact/deleteContact''), Authenticated, v1_DeleteContact),
      ((''POST'', ''/contact/applyContact''), Authenticated, v1_ApplyContact),
      ((''POST'', ''/contact/getNewContactList''), Authenticated, v1_GetNewContactList),
      ((''POST'', ''/contact/passContactApply''), Authenticated, v1_PassContactApply),
      ((''POST'', ''/contact/blackContact''), Authenticated, v1_BlackContact),
      ((''POST'', ''/contact/cancelBlackContact''), Authenticated, v1_CancelBlackContact),
      ((''POST'', ''/contact/getAddGroupList''), Authenticated, v1_GetAddGroupList),
      ((''POST'', ''/contact/refuseContactApply''), Authenticated, v1_RefuseContactApply),
      ((''POST'', ''/contact/blackApply''), Authenticated, v1_BlackApply),
      ((''POST'', ''/message/getMessageList''), Authenticated, v1_GetMessageList),
      ((''POST'', ''/message/getGroupMessageList''), Authenticated, v1_GetGroupMessageList),
      ((''POST'', ''/message/revokeMessage''), Authenticated, v1_RevokeMessage),
      ((''POST'', ''/message/uploadAvatar''), Authenticated, v1_UploadAvatar),
      ((''POST'', ''/message/uploadFile''), Authenticated, v1_UploadFile),
      ((''GET'', ''/file/download''), Authenticated, v1_DownloadFile),
      ((''POST'', ''/chatroom/getCurContactListInChatRoom''), Authenticated, v1_GetCurContactListInChatRoom)]"

definition admin_routes :: "((string \<times> string) \<times> access \<times> ('d, 'r) handler) list" where
  "admin_routes =
     [((''POST'', ''/user/getUserInfoList''), Administrator, v1_GetUserInfoList),
      ((''POST'', ''/user/ableUsers''), Administrator, v1_AbleUsers),
      ((''POST'', ''/user/disableUsers''), Administrator, v1_DisableUsers),
      ((''POST'', ''/user/deleteUsers''), Administrator, v1_DeleteUsers),
      ((''POST'', ''/user/setAdmin''), Administrator, v1_SetAdmin),
      ((''POST'', ''/group/getGroupInfoList''), Administrator, v1_GetGroupInfoList),
      ((''POST'', ''/group/deleteGroups''), Administrator, v1_DeleteGroups),
      ((''POST'', ''/group/setGroupsStatus''), Administrator, v1_SetGroupsStatus)]"

definition routes :: "((string \<times> string) \<times> access \<times> ('d, 'r) handler) list" where
  "routes = public_routes @ auth_routes @ admin_routes"

section \<open>The middlewares\<close>

definition refusal :: "int \<Rightarrow> string \<Rightarrow> http_reply" where
  "refusal status m = json_reply status [plain_body status (Msg m)]"

definition limited :: "('d, 'r) http_env \<Rightarrow> http_request \<Rightarrow> string \<Rightarrow> int \<Rightarrow> time \<Rightarrow> (('d, 'r) http_state, http_reply, unit) act" where
  "limited H q pfx limit window w =
     (let s = ch_stores (hs_chat w) in
      case RateLimit (e_redis (he_env H)) pfx limit window (hq_ip q) (he_now H) (hs_blocked w, st_redis s) of
        (goes_on, blocked, r) \<Rightarrow>
          Some (if goes_on then Inr () else Inl (refusal 429 ''too many requests''),
            w\<lparr>hs_blocked := blocked, hs_chat := (hs_chat w)\<lparr>ch_stores := s\<lparr>st_redis := r\<rparr>\<rparr>\<rparr>))"

text \<open>The uuid and the flag that the authentication puts into the context.\<close>

definition authenticated :: "('d, 'r) http_env \<Rightarrow> http_request \<Rightarrow> (('d, 'r) http_state, http_reply, uuid \<times> int) act" where
  "authenticated H q =
     attempt (in_stores (AuthMiddleware (he_env H) (he_crypto H) (he_secret H) (hq_auth q) (Query q ''token'')))
       (\<lambda>r. case r of Inl status \<Rightarrow> throw (refusal status ''not authenticated'') | Inr c \<Rightarrow> ret c)"

definition admitted :: "('d, 'r) http_env \<Rightarrow> http_request \<Rightarrow> access \<Rightarrow> (('d, 'r) http_state, http_reply, uuid) act" where
  "admitted H q a =
     (case a of
        Open \<Rightarrow> ret []
      | Limited pfx limit window \<Rightarrow> bnd (limited H q pfx limit window) (\<lambda>_. ret [])
      | Authenticated \<Rightarrow> bnd (authenticated H q) (\<lambda>(uuid, _). ret uuid)
      | Administrator \<Rightarrow>
          bnd (authenticated H q) (\<lambda>(uuid, isAdmin).
          (case AdminMiddleware (Some isAdmin) of
             Some status \<Rightarrow> throw (refusal status ''administrators only'') | None \<Rightarrow> ret uuid)))"

section \<open>A request\<close>

text \<open>The connections that the services asked to be closed (\<open>st_logouts\<close>) are closed at the end of the
  handler: nothing in between looks at them.\<close>

definition run_logouts :: "(('d, 'r) http_state, 'e, unit) act" where
  "run_logouts =
     bnd (gets (\<lambda>w. st_logouts (ch_stores (hs_chat w)))) (\<lambda>us.
     bnd (for_each us logout_of) (\<lambda>_.
     in_stores (modify (\<lambda>s. s\<lparr>st_logouts := []\<rparr>))))"

definition serve :: "('d, 'r) http_env \<Rightarrow> http_request \<Rightarrow> (('d, 'r) http_state, http_reply, http_reply) act" where
  "serve H q =
     (case map_of routes (hq_method q, hq_path q) of
        None \<Rightarrow> ret (json_reply 404 [])
      | Some (a, handler) \<Rightarrow>
          bnd (admitted H q a) (\<lambda>uuid.
          attempt (handler H q uuid) (\<lambda>r.
          bnd run_logouts (\<lambda>_.
          ret (case r of Inl rp \<Rightarrow> rp | Inr rp \<Rightarrow> rp)))))"

end
