(* ===== verification/Http_Memory.thy ===== *)
theory Http_Memory
  imports Http_Server Chat_Memory Auth_Safety
begin

text \<open>A process with its HTTP interface on the stores in memory, and requests to it, for the witnesses.\<close>

definition demo_admin_crypto :: "int \<Rightarrow> crypto_lib" where
  "demo_admin_crypto a = (demo_crypto ''U1'')\<lparr>cr_parse := \<lambda>s _ t. if s = ''T'' then Some ((demo_claims ''U1'' 7)\<lparr>jc_IsAdmin := a\<rparr>) else None\<rparr>"

definition demo_http :: "int \<Rightarrow> (mem_db, mem_redis) http_env" where
  "demo_http a = \<lparr>he_chat = demo_chat_env 5, he_crypto = demo_admin_crypto a, he_secret = ''secret'', he_salt = 0,
     he_smtp = (\<lambda>_ _. True), he_rfc3339 = (\<lambda>_. []), he_detect = (\<lambda>_. ''text/plain''), he_fault = None,
     he_avatarPath = ''avatars'', he_filePath = ''files'', he_refuse = None\<rparr>"

definition demo_state :: "(mem_db, mem_redis) stores \<Rightarrow> (mem_db, mem_redis) http_state" where
  "demo_state s = \<lparr>hs_chat = NewMessageProcessor s, hs_Login = [], hs_Logout = [], hs_blocked = 0, hs_disk = []\<rparr>"

definition demo_post :: "string \<Rightarrow> (string \<times> json) list \<Rightarrow> http_request" where
  "demo_post path ms = \<lparr>hq_method = ''POST'', hq_path = path, hq_query = [], hq_auth = ''Bearer T'', hq_ip = ''ip'',
     hq_body = json_print (JObj ms), hq_form = None\<rparr>"

definition demo_get :: "string \<Rightarrow> (string \<times> string) list \<Rightarrow> http_request" where
  "demo_get path query = \<lparr>hq_method = ''GET'', hq_path = path, hq_query = query, hq_auth = ''Bearer T'', hq_ip = ''ip'',
     hq_body = [], hq_form = None\<rparr>"

lemma bind_print:
  assumes "json_ok j"
  shows "bind_json fs (json_print j) z = unmarshal_struct fs j z"
  using parse_print(1) [of j "[]" "Suc (length (json_print j))"] assms
  by (simp add: bind_json_def num_rest_def)

lemma demo_requests [simp]:
  "hq_method (demo_post path ms) = ''POST''" "hq_path (demo_post path ms) = path"
  "hq_method (demo_get path qs) = ''GET''" "hq_path (demo_get path qs) = path"
  "Query (demo_get path qs) k = (case map_of qs k of None \<Rightarrow> [] | Some v \<Rightarrow> v)"
  by (simp_all add: demo_post_def demo_get_def Query_def)

lemma bind_demo: "json_ok (JObj ms) \<Longrightarrow> bind_json fs (hq_body (demo_post path ms)) z = unmarshal_struct fs (JObj ms) z"
  by (simp only: demo_post_def http_request.simps bind_print)

lemma demo_headers [simp]:
  "hq_auth (demo_post path ms) = ''Bearer T''" "hq_auth (demo_get path qs) = ''Bearer T''" "Query (demo_post path ms) k = []"
  by (simp_all add: demo_post_def demo_get_def Query_def)

lemma demo_claims_simps [simp]: "jc_Uuid (demo_claims u n) = u" by (simp add: demo_claims_def)

lemma demo_http_simps [simp]:
  "he_chat (demo_http a) = demo_chat_env 5" "ce_env (demo_chat_env t) = mem_env_reads t" "he_filePath (demo_http a) = ''files''"
  "he_refuse (demo_http a) = None"
  by (simp_all add: demo_http_def demo_chat_env_def)

lemma demo_state_simps [simp]: "ch_stores (hs_chat (demo_state s)) = s"
  by (simp add: demo_state_def NewMessageProcessor_def)

lemma demo_backend: "backend (he_env (demo_http a)) md_rows mem_str mem_set (\<lambda>_. 0)"
  using mem_backend [of False 5] by simp

lemma active_demo:
  assumes "\<And>x. RUser x \<in> set rs \<longleftrightarrow> x = demo_user 1 ''U1'' \<or> x = demo_user 2 ''U2''"
  shows "active_user rs ''U1''"
  unfolding active_user_def assms
proof (intro conjI allI impI)
  show "\<exists>x. (x = demo_user 1 ''U1'' \<or> x = demo_user 2 ''U2'') \<and> ui_uuid x = ''U1'' \<and> ui_deleted_at x = 0"
    by (rule exI [of _ "demo_user 1 ''U1''"]) (simp add: demo_user_def)
qed (erule disjE; simp add: demo_user_def)

lemmas serve_run_defs = serve_def admitted_def authenticated_def in_stores_def in_chat_def stored_def
  AuthMiddleware_def CheckUserActive_def Let_def demo_http_def demo_admin_crypto_def ParseToken_def
  bound_def run_logouts_def gets_def modify_def demo_state_def NewMessageProcessor_def demo_claims_def
  mem_get_def plain_def with_data_def json_back_def JsonBack_def

end
