(* ===== verification/Http_Safety.thy ===== *)
theory Http_Safety
  imports Http_Memory Group_Safety
begin

text \<open>
  What the HTTP interface guarantees, whatever a request contains: nothing behind the authentication
  happens without a token of a user who is not known to be locked out; what the services leave to the
  caller's honesty (who the owner is, whose conversation is read, whose file is sent) is decided by
  the token, not by the body.
\<close>

section \<open>Actions of a process\<close>

lemma wp_in_chat [wp_simps]:
  "wp (in_chat m) Q X w = wp m (\<lambda>a c. Q a (w\<lparr>hs_chat := c\<rparr>)) (\<lambda>e c. X e (w\<lparr>hs_chat := c\<rparr>)) (hs_chat w)"
  by (simp add: wp_def in_chat_def split: option.split sum.split prod.split)

definition put_stores :: "('d, 'r) stores \<Rightarrow> ('d, 'r) http_state \<Rightarrow> ('d, 'r) http_state" where
  "put_stores s w = w\<lparr>hs_chat := (hs_chat w)\<lparr>ch_stores := s\<rparr>\<rparr>"

abbreviation hs_stores :: "('d, 'r) http_state \<Rightarrow> ('d, 'r) stores" where
  "hs_stores w \<equiv> ch_stores (hs_chat w)"

abbreviation hs_db :: "('d, 'r) http_state \<Rightarrow> 'd" where
  "hs_db w \<equiv> st_db (hs_stores w)"

lemma put_stores_simps [simp]:
  "hs_stores (put_stores s w) = s" "put_stores s (put_stores s' w) = put_stores s w" "put_stores (hs_stores w) w = w"
  by (simp_all add: put_stores_def)

lemma wp_in_stores [wp_simps]:
  "wp (in_stores m) Q X w = wp m (\<lambda>a s. Q a (put_stores s w)) (\<lambda>e s. X e (put_stores s w)) (hs_stores w)"
  by (simp add: in_stores_def wp_simps put_stores_def)

lemma wpD: "wp m Q X w \<Longrightarrow> m w = Some (r, w') \<Longrightarrow> (case r of Inl e \<Rightarrow> X e w' | Inr a \<Rightarrow> Q a w')"
  by (auto simp: wp_def split: sum.splits)

lemma bnd_wpD:
  assumes "bnd m f w = Some (r, w')" and "wp m Q X w"
  shows "(\<exists>e. r = Inl e \<and> X e w') \<or> (\<exists>a v. Q a v \<and> f a v = Some (r, w'))"
  using assms(1) wpD [OF assms(2)] unfolding bnd_Some by fastforce

lemma attempt_wpD:
  assumes "attempt m f w = Some (r, w')" and "wp m Q X w"
  shows "(\<exists>e v. X e v \<and> f (Inl e) v = Some (r, w')) \<or> (\<exists>a v. Q a v \<and> f (Inr a) v = Some (r, w'))"
proof -
  from assms(1) obtain q v where q: "m w = Some (q, v)" "f q v = Some (r, w')" by (auto simp: attempt_Some)
  from wpD [OF assms(2) q(1)] q(2) show ?thesis by (cases q) auto
qed

section \<open>The door\<close>

definition presented_token :: "http_request \<Rightarrow> string option" where
  "presented_token q =
     (if hq_auth q \<noteq> [] then
        (case split_space (hq_auth q) of (s, Some t) \<Rightarrow> if s = ''Bearer'' then Some t else None | (_, None) \<Rightarrow> None)
      else Some (Query q ''token''))"

text \<open>What the token of a request says, when it is valid.\<close>

definition token_of :: "('d, 'r) http_env \<Rightarrow> http_request \<Rightarrow> JWTClaims option" where
  "token_of H q =
     (case presented_token q of None \<Rightarrow> None
      | Some t \<Rightarrow> if t = [] then None else ParseToken (he_crypto H) (he_secret H) t (he_now H))"

lemma http_demo_token [simp]:
  "token_of (demo_http a) (demo_post path ms) = Some ((demo_claims ''U1'' 7)\<lparr>jc_IsAdmin := a\<rparr>)"
  "token_of (demo_http a) (demo_get path qs) = Some ((demo_claims ''U1'' 7)\<lparr>jc_IsAdmin := a\<rparr>)"
  by (simp_all add: token_of_def presented_token_def demo_post_def demo_get_def demo_http_def demo_admin_crypto_def ParseToken_def)

text \<open>The user is normal, by the cache or by the database.\<close>

definition normal_user ::
  "(string option) \<Rightarrow> row list \<Rightarrow> uuid \<Rightarrow> bool" where
  "normal_user cached rs u \<longleftrightarrow>
     (\<exists>s. cached = Some s \<and> parse_int 64 s = Some user_NORMAL) \<or>
     (\<exists>x. RUser x \<in> set rs \<and> ui_uuid x = u \<and> ui_deleted_at x = 0 \<and> ui_status x = user_NORMAL)"

context backend
begin

definition let_in :: "JWTClaims \<Rightarrow> ('d, 'r) stores \<Rightarrow> bool" where
  "let_in c s \<longleftrightarrow> normal_user (str_at (st_redis s) (e_now E) (userStatusCachePrefix @ jc_Uuid c)) (rows (st_db s)) (jc_Uuid c)"

lemma CheckUserActive_let_in:
  "wp (CheckUserActive E (jc_Uuid c)) (\<lambda>(ok, code) s'. rows (st_db s') = rows (st_db s) \<and> st_logouts s' = st_logouts s \<and>
     (if ok then let_in c s else code \<in> {401, 500})) X s"
proof -
  let ?u = "jc_Uuid c"
  have lookup: "wp (attempt (First E users (\<lambda>u. ui_uuid u = ?u)) (\<lambda>r. case r of
              Inl e \<Rightarrow>
                if e = NotFound then bnd (logged (SetCache E (userStatusCachePrefix @ ?u) (itoa userStatusDeleted) userStatusCacheTTL)) (\<lambda>_. ret (False, 401))
                else ret (False, 500)
            | Inr user \<Rightarrow>
                bnd (logged (SetCache E (userStatusCachePrefix @ ?u) (itoa (ui_status user)) userStatusCacheTTL)) (\<lambda>_.
                if ui_status user \<noteq> user_NORMAL then ret (False, 401) else ret (True, 200))))
        (\<lambda>(ok, code) s'. rows (st_db s') = rows (st_db s) \<and> st_logouts s' = st_logouts s \<and>
          (if ok then let_in c s else code \<in> {401, 500})) X s"
    unfolding wp_attempt
    by (rule wp_First [OF users.table_axioms])
       (auto simp: same_def same_db_def let_in_def normal_user_def wp_simps SetCache_def split: if_splits intro!: wp_cache)
  show ?thesis
    unfolding CheckUserActive_def Let_def wp_attempt [of "on_redis _"]
  proof (rule wp_on_redis, goal_cases)
    case (1 v r)
    from GetKey_cases [OF 1] have s: "s\<lparr>st_redis := r\<rparr> = s"
        "v \<noteq> [] \<Longrightarrow> str_at (st_redis s) (e_now E) (userStatusCachePrefix @ ?u) = Some v"
      by (auto split: option.splits)
    show ?case
    proof (cases "if v \<noteq> [] then parse_int 64 v else None")
      case None
      then show ?thesis using lookup by (simp add: s(1))
    next
      case (Some n)
      then have "v \<noteq> []" "parse_int 64 v = Some n" by (auto split: if_splits)
      with s show ?thesis
        by (auto simp: wp_simps let_in_def normal_user_def)
    qed
  next
    case (2 e r)
    from GetKey_cases [OF 2] have "s\<lparr>st_redis := r\<rparr> = s" by simp
    then show ?case using lookup by simp
  qed
qed

lemma AuthMiddleware_presented:
  assumes "presented_token q = Some t"
  shows "AuthMiddleware E C k (hq_auth q) (Query q ''token'') =
      bnd (guard (t \<noteq> []) 401) (\<lambda>_. case ParseToken C k t (e_now E) of
        None \<Rightarrow> throw 401
      | Some claims \<Rightarrow> bnd (CheckUserActive E (jc_Uuid claims)) (\<lambda>(allowed, statusCode).
          if \<not> allowed then throw statusCode else ret (jc_Uuid claims, jc_IsAdmin claims)))"
  using assms unfolding AuthMiddleware_def presented_token_def
  by (cases "split_space (hq_auth q)") (auto split: if_splits option.splits)

lemma AuthMiddleware_door:
  "wp (AuthMiddleware E C k (hq_auth q) (Query q ''token''))
     (\<lambda>(u, a) s'. rows (st_db s') = rows (st_db s) \<and> st_logouts s' = st_logouts s \<and>
        (\<exists>t c. presented_token q = Some t \<and> t \<noteq> [] \<and> ParseToken C k t (e_now E) = Some c \<and> jc_Uuid c = u \<and> jc_IsAdmin c = a \<and> let_in c s))
     (\<lambda>code s'. rows (st_db s') = rows (st_db s) \<and> st_logouts s' = st_logouts s \<and> code \<in> {401, 500}) s"
proof (cases "presented_token q")
  case None
  then show ?thesis
    unfolding AuthMiddleware_def presented_token_def
    by (auto simp: wp_simps split: if_splits prod.splits option.splits)
next
  case (Some t)
  note eq = AuthMiddleware_presented [OF Some]
  show ?thesis
  proof (cases "t = [] \<or> ParseToken C k t (e_now E) = None")
    case False
    then obtain c where c: "t \<noteq> []" "ParseToken C k t (e_now E) = Some c" by blast
    show ?thesis
      unfolding eq
      by (simp add: c wp_bnd)
         (rule wp_mono [OF CheckUserActive_let_in [of c s]], use c Some in \<open>auto simp: wp_simps split: if_splits\<close>)
  qed (auto simp: eq wp_simps)
qed

text \<open>The row that a handler looks for before it goes on.\<close>

lemma First_live:
  assumes "table T"
  shows "wp (First E T P) (\<lambda>x s1. tb_row T x \<in> set (rows (st_db s)) \<and> live_row (tb_row T x) \<and> P x \<and> same s s1)
    (\<lambda>_. same s) s"
  by (rule wp_First [OF assms]) auto

lemma First_or_throw:
  assumes "bnd (or_throw (First E T P) e) f s = Some (r, s')" and "table T"
  shows "(r = Inl e \<and> rows (st_db s') = rows (st_db s)) \<or>
    (\<exists>x s1. tb_row T x \<in> set (rows (st_db s)) \<and> live_row (tb_row T x) \<and> P x \<and> same s s1 \<and> f x s1 = Some (r, s'))"
proof -
  have "wp (or_throw (First E T P) e) (\<lambda>x s1. tb_row T x \<in> set (rows (st_db s)) \<and> live_row (tb_row T x) \<and> P x \<and> same s s1)
      (\<lambda>e' s1. e' = e \<and> rows (st_db s1) = rows (st_db s)) s"
    unfolding wp_simps by (rule wp_mono [OF First_live [OF assms(2)]]) (auto simp: same_def)
  from bnd_wpD [OF assms(1) this] show ?thesis by auto
qed

lemma count_membership_wp:
  "wp (count_membership E g u) (\<lambda>n s1. same s s1 \<and> (n \<noteq> 0 \<longrightarrow> (\<exists>m. RMember m \<in> set (rows (st_db s)) \<and> gm_group_id m = g \<and>
     gm_user_id m = u \<and> gm_status m = 0 \<and> gm_deleted_at m = 0))) (\<lambda>_. same s) s"
  unfolding count_membership_def wp_simps
  by (rule wp_FindUnscoped [OF members.table_axioms]) (auto, metis list.set_sel(1))

end

text \<open>A request that is refused at the door has changed nothing but the cache.\<close>

definition at_the_door :: "('d \<Rightarrow> row list) \<Rightarrow> ('d, 'r) http_state \<Rightarrow> ('d, 'r) http_state \<Rightarrow> bool" where
  "at_the_door rows w w' \<longleftrightarrow>
     (\<exists>s. w' = put_stores s w \<and> rows (st_db s) = rows (hs_db w) \<and> st_logouts s = st_logouts (hs_stores w))"

definition door_refusal :: "http_reply \<Rightarrow> bool" where
  "door_refusal rp \<longleftrightarrow> (\<exists>status m. status \<in> {401, 403, 500} \<and> rp = refusal status m)"

text \<open>Who is admitted to a route behind the authentication.\<close>

definition admissible ::
  "('d, 'r) http_env \<Rightarrow> ('d \<Rightarrow> row list) \<Rightarrow> ('r \<Rightarrow> time \<Rightarrow> string \<Rightarrow> string option) \<Rightarrow>
   http_request \<Rightarrow> access \<Rightarrow> ('d, 'r) http_state \<Rightarrow> uuid \<Rightarrow> bool" where
  "admissible H rows str_at q a w u \<longleftrightarrow>
     (\<exists>c. token_of H q = Some c \<and> jc_Uuid c = u \<and> (a = Administrator \<longrightarrow> jc_IsAdmin c = 1) \<and>
       normal_user (str_at (st_redis (hs_stores w)) (he_now H) (userStatusCachePrefix @ u)) (rows (hs_db w)) u)"

lemma admitted_wp:
  assumes "backend (he_env H) rows str_at set_at pages" and "a \<in> {Authenticated, Administrator}"
  shows "wp (admitted H q a) (\<lambda>u w'. at_the_door rows w w' \<and> admissible H rows str_at q a w u)
    (\<lambda>rp w'. at_the_door rows w w' \<and> door_refusal rp) w"
proof -
  have auth: "wp (authenticated H q)
      (\<lambda>(u, adm) w'. at_the_door rows w w' \<and> admissible H rows str_at q Authenticated w u \<and>
        (\<exists>c. token_of H q = Some c \<and> jc_Uuid c = u \<and> jc_IsAdmin c = adm))
      (\<lambda>rp w'. at_the_door rows w w' \<and> door_refusal rp) w"
    unfolding authenticated_def wp_simps
    by (rule wp_mono [OF backend.AuthMiddleware_door [OF assms(1)]])
       (auto simp: wp_simps at_the_door_def admissible_def token_of_def door_refusal_def backend.let_in_def [OF assms(1)])
  show ?thesis
    using assms(2) unfolding admitted_def
    by (auto simp: wp_bnd AdminMiddleware_def intro!: wp_mono [OF auth])
       (auto simp: wp_simps admissible_def door_refusal_def)
qed

text \<open>C3. Nothing behind the authentication happens without a valid token. A request to one of the 45
  authenticated and administrator routes is either refused with 401, 403 or 500 before its handler
  runs, and then at most the cache has changed; or it presents a token that parses, of a user who is
  normal by the cache or by the database, and on the administrator routes the token is an
  administrator's.\<close>

theorem protected_routes:
  fixes H :: "('d, 'r) http_env" and h :: "('d, 'r) handler"
  assumes "backend (he_env H) rows str_at set_at pages"
    and "map_of routes (hq_method q, hq_path q) = Some (a, h)" and "a \<in> {Authenticated, Administrator}"
    and "serve H q w = Some (r, w')"
  shows "(\<exists>u. admissible H rows str_at q a w u) \<or>
    (\<exists>rp. r = Inl rp \<and> door_refusal rp \<and> at_the_door rows w w')"
proof -
  from assms(2,4) have "bnd (admitted H q a) (\<lambda>uuid. attempt (h H q uuid) (\<lambda>r.
      bnd run_logouts (\<lambda>_. ret (case r of Inl rp \<Rightarrow> rp | Inr rp \<Rightarrow> rp)))) w = Some (r, w')"
    by (simp add: serve_def)
  then obtain q' v where v: "admitted H q a w = Some (q', v)" and rest: "(\<exists>u. q' = Inr u) \<or> q' = Inl (projl r) \<and> isl r \<and> v = w'"
    by (auto simp: bnd_Some)
  from wpD [OF admitted_wp [OF assms(1,3)] v] rest show ?thesis
    by (auto split: sum.splits simp: isl_def)
qed

theorem protected_routes_witness:
  "\<exists>rp w'. serve (demo_http 1) ((demo_post ''/user/deleteUsers'' [])\<lparr>hq_auth := []\<rparr>) (demo_state demo) = Some (Inl rp, w') \<and>
     door_refusal rp \<and> md_rows (hs_db w') = demo_rows"
proof -
  let ?q = "(demo_post ''/user/deleteUsers'' [])\<lparr>hq_auth := []\<rparr>"
  have route: "map_of routes (hq_method ?q, hq_path ?q) = Some (Administrator, v1_DeleteUsers :: (mem_db, mem_redis) handler)"
    by (simp add: routes_def public_routes_def auth_routes_def admin_routes_def demo_post_def)
  have none: "token_of (demo_http 1) ?q = None"
    by (simp add: token_of_def presented_token_def Query_def demo_post_def)
  obtain r w' where r: "serve (demo_http 1) ?q (demo_state demo) = Some (r, w')"
    unfolding serve_def route
    by (simp add: admitted_def authenticated_def AuthMiddleware_def Query_def demo_post_def run_defs in_stores_def in_chat_def stored_def)
  from protected_routes [OF demo_backend route _ r] none show ?thesis
    using r by (auto simp: admissible_def at_the_door_def demo_def)
qed

text \<open>The token of an active user, whose status is cached truly or not at all, is let in.\<close>

definition status_known :: "string option \<Rightarrow> bool" where
  "status_known cached \<longleftrightarrow> cached \<in> {None, Some (itoa user_NORMAL)}"

lemma parse_normal: "parse_int 64 (itoa user_NORMAL) = Some user_NORMAL"
  by (simp add: parse_int_itoa)

lemma CheckUserActive_active:
  assumes b: "backend E rows str_at set_at pages" and "reads_ok E" and "active_user (rows (st_db s)) u"
    and "status_known (str_at (st_redis s) (e_now E) (userStatusCachePrefix @ u))"
  shows "wp (CheckUserActive E u) (\<lambda>r _. r = (True, 200)) (\<lambda>_ _. False) s"
proof -
  have users: "wp (First E users (\<lambda>x. ui_uuid x = u)) (\<lambda>x s1. ui_status x = user_NORMAL) (\<lambda>_ _. False) s"
    by (rule database.wp_First [OF backend.axioms(1) [OF b] users.table_axioms])
       (use assms(2,3) in \<open>auto simp: active_user_def\<close>)
  have remember: "wp (bnd (logged (SetCache E k v ttl)) (\<lambda>_. if ui_status x \<noteq> user_NORMAL then ret (False, 401) else ret (True, 200)))
      (\<lambda>r _. r = (True, 200)) (\<lambda>_ _. False) s1" if "ui_status x = user_NORMAL" for k v ttl x s1
    unfolding wp_simps SetCache_def by (rule backend.wp_cache [OF b]) (use that in \<open>simp_all add: wp_simps\<close>)
  show ?thesis
    unfolding CheckUserActive_def Let_def wp_attempt [of "on_redis _"]
  proof (rule backend.wp_on_redis [OF b], goal_cases)
    case (1 v r)
    have "s\<lparr>st_redis := r\<rparr> = s" "v = [] \<or> v = itoa user_NORMAL"
      using redis_strings.GetKey_cases [OF _ 1] b assms(4) by (auto simp: backend_def status_known_def split: option.splits)
    then show ?case
      by (auto simp: parse_normal userStatusDeleted_def wp_ret wp_attempt intro!: wp_mono [OF users] remember)
  next
    case (2 e r)
    have "s\<lparr>st_redis := r\<rparr> = s"
      using redis_strings.GetKey_cases [OF _ 2] b by (auto simp: backend_def)
    then show ?case by (auto simp: wp_attempt intro!: wp_mono [OF users] remember)
  qed
qed

lemma authenticated_active:
  assumes b: "backend (he_env H) rows str_at set_at pages" and "reads_ok (he_env H)" and c: "token_of H q = Some c"
    and "active_user (rows (hs_db w)) (jc_Uuid c)"
    and "status_known (str_at (st_redis (hs_stores w)) (he_now H) (userStatusCachePrefix @ jc_Uuid c))"
  shows "wp (authenticated H q) (\<lambda>(u, a) w'. u = jc_Uuid c \<and> a = jc_IsAdmin c \<and> at_the_door rows w w') (\<lambda>_ _. False) w"
proof -
  from c obtain t where t: "presented_token q = Some t" "t \<noteq> []" "ParseToken (he_crypto H) (he_secret H) t (he_now H) = Some c"
    by (auto simp: token_of_def split: option.splits if_splits)
  show ?thesis
    unfolding authenticated_def wp_simps backend.AuthMiddleware_presented [OF b t(1)]
    by (simp add: t wp_bnd)
       (rule wp_mono [OF wp_conj [OF CheckUserActive_active [OF b assms(2,4,5)]
           backend.CheckUserActive_let_in [OF b, where X = "\<lambda>_ _. False"]]],
        use assms(4) in \<open>auto simp: wp_simps at_the_door_def\<close>)
qed

lemma run_logouts_wp: "wp run_logouts (\<lambda>_ w'. hs_db w' = hs_db w \<and> hs_disk w' = hs_disk w) X w"
proof -
  have logout: "wp (logout_of u) (\<lambda>_ w'. hs_db w' = hs_db v \<and> hs_disk w' = hs_disk v) X v" for u v
    unfolding logout_of_def ClientLogout_def Close_def
    by (auto simp: wp_simps at_client_def split: option.split)
  have "wp (for_each us logout_of) (\<lambda>_ w'. hs_db w' = hs_db w \<and> hs_disk w' = hs_disk w) X w" for us
    by (rule wp_for_each [where I = "\<lambda>w'. hs_db w' = hs_db w \<and> hs_disk w' = hs_disk w"]) (rule wp_mono [OF logout], auto)
  note loop = this
  show ?thesis
    unfolding run_logouts_def wp_bnd wp_gets
    by (rule wp_mono [OF loop]) (auto simp: wp_simps put_stores_def)
qed

lemma wp_serve:
  fixes H :: "('d, 'r) http_env" and h :: "('d, 'r) handler"
  assumes "backend (he_env H) rows str_at set_at pages" and "reads_ok (he_env H)" and "token_of H q = Some c"
    and "active_user (rows (hs_db w)) (jc_Uuid c)"
    and "status_known (str_at (st_redis (hs_stores w)) (he_now H) (userStatusCachePrefix @ jc_Uuid c))"
    and route: "map_of routes (hq_method q, hq_path q) = Some (Authenticated, h)"
    and "\<And>w1. at_the_door rows w w1 \<Longrightarrow> wp (h H q (jc_Uuid c)) (\<lambda>rp w2. Q rp (hs_db w2) (hs_disk w2)) (\<lambda>rp w2. Q rp (hs_db w2) (hs_disk w2)) w1"
  shows "wp (serve H q) (\<lambda>rp w'. Q rp (hs_db w') (hs_disk w')) (\<lambda>_ _. False) w"
proof -
  have logouts: "wp run_logouts (\<lambda>_ w'. Q rp (hs_db w') (hs_disk w')) (\<lambda>_ _. False) v"
    if "Q rp (hs_db v) (hs_disk v)" for rp v
    by (rule wp_mono [OF run_logouts_wp [where X = "\<lambda>_ _. False"]]) (use that in auto)
  show ?thesis
    unfolding serve_def route option.case prod.case admitted_def access.case wp_bnd wp_attempt
    by (rule wp_mono [OF authenticated_active [OF assms(1-5)]])
       (auto simp: wp_ret intro!: wp_mono [OF assms(7)] logouts)
qed

section \<open>Groups\<close>

definition plain_reply_of :: "answer + answer \<Rightarrow> http_reply" where
  "plain_reply_of a = json_back (\<lambda>_. None) (case (case a of Inl x \<Rightarrow> x | Inr x \<Rightarrow> x) of (message, c) \<Rightarrow> (message, (), c))"

lemma plain_Some:
  assumes "plain m w = Some (r, w')"
  shows "\<exists>a s. m (hs_stores w) = Some (a, s) \<and> w' = put_stores s w \<and> r = Inr (plain_reply_of a)"
  using assms unfolding plain_def plain_reply_of_def attempt_Some in_stores_def in_chat_def stored_def put_stores_def ret_def
  by fastforce

lemma plain_reply_200:
  "rp_bodies (plain_reply_of a) = [b] \<Longrightarrow> bd_code b = 200 \<Longrightarrow> snd (case a of Inl x \<Rightarrow> x | Inr x \<Rightarrow> x) = 0"
  by (auto simp: plain_reply_of_def json_back_def JsonBack_def json_reply_def split: sum.splits if_splits prod.splits)

text \<open>A request to a protected route that ran its handler.\<close>

lemma served:
  fixes H :: "('d, 'r) http_env" and h :: "('d, 'r) handler"
  assumes "backend (he_env H) rows str_at set_at pages"
    and "map_of routes (hq_method q, hq_path q) = Some (a, h)" and "a \<in> {Authenticated, Administrator}"
    and "serve H q w = Some (r, w')"
  obtains (refused) rp where "r = Inl rp" "door_refusal rp" "at_the_door rows w w'"
  | (handled) u w1 hr w2 where "admissible H rows str_at q a w u" "at_the_door rows w w1" "h H q u w1 = Some (hr, w2)"
      "hs_db w' = hs_db w2" "r = Inr (case hr of Inl rp \<Rightarrow> rp | Inr rp \<Rightarrow> rp)" "hs_disk w' = hs_disk w2"
      "run_logouts w2 = Some (Inr () :: http_reply + unit, w')"
proof -
  from assms(2,4) have "bnd (admitted H q a) (\<lambda>uuid. attempt (h H q uuid) (\<lambda>r.
      bnd run_logouts (\<lambda>_. ret (case r of Inl rp \<Rightarrow> rp | Inr rp \<Rightarrow> rp)))) w = Some (r, w')"
    by (simp add: serve_def)
  then consider rp where "admitted H q a w = Some (Inl rp, w')" "r = Inl rp"
    | u w1 where "admitted H q a w = Some (Inr u, w1)"
        "attempt (h H q u) (\<lambda>r. bnd run_logouts (\<lambda>_. ret (case r of Inl rp \<Rightarrow> rp | Inr rp \<Rightarrow> rp))) w1 = Some (r, w')"
    by (auto simp: bnd_Some)
  then show thesis
  proof cases
    case 1
    with wpD [OF admitted_wp [OF assms(1,3)] 1(1)] refused show thesis by simp
  next
    case 2
    from 2(2) obtain hr w2 where h: "h H q u w1 = Some (hr, w2)"
        and l: "bnd run_logouts (\<lambda>_. ret (case hr of Inl rp \<Rightarrow> rp | Inr rp \<Rightarrow> rp)) w2 = Some (r, w')"
      by (auto simp: attempt_Some)
    then obtain r1 :: "http_reply + unit" where r1: "run_logouts w2 = Some (r1, w')"
      by (auto simp: bnd_Some ret_def)
    with wpD [OF run_logouts_wp [where X = "\<lambda>_ _. False"] this] l
    have "run_logouts w2 = Some (Inr () :: http_reply + unit, w')" "hs_db w' = hs_db w2" "hs_disk w' = hs_disk w2" "r = Inr (case hr of Inl rp \<Rightarrow> rp | Inr rp \<Rightarrow> rp)"
      by (auto simp: bnd_Some ret_def split: sum.splits)
    with wpD [OF admitted_wp [OF assms(1,3)] 2(1)] h handled show thesis by auto
  qed
qed

text \<open>The group that a request to one of the three routes names.\<close>

definition group_edit :: "http_request \<Rightarrow> uuid option" where
  "group_edit q =
     (if hq_method q \<noteq> ''POST'' then None
      else if hq_path q = ''/group/dismissGroup'' then Some (dg_GroupId (fst (bind_json dismiss_fields (hq_body q) zero_dismiss)))
      else if hq_path q = ''/group/updateGroupInfo'' then Some (ug_Uuid (fst (bind_json update_group_fields (hq_body q) zero_update_group)))
      else if hq_path q = ''/group/removeGroupMembers'' then Some (rg_GroupId (fst (bind_json remove_fields (hq_body q) zero_remove)))
      else None)"

definition owns :: "row list \<Rightarrow> uuid \<Rightarrow> uuid \<Rightarrow> bool" where
  "owns rs u g \<longleftrightarrow> (\<exists>x. RGroup x \<in> set rs \<and> gi_deleted_at x = 0 \<and> gi_uuid x = g \<and> gi_owner_id x = u)"

context backend
begin

lemma owner_guard:
  assumes "bnd (or_throw (First E groups (\<lambda>g. gi_uuid g = gid)) e) (\<lambda>grp. bnd (guard (gi_owner_id grp = u) e') (f grp)) s = Some (r, s')"
  shows "rows (st_db s') = rows (st_db s) \<or> owns (rows (st_db s)) u gid"
  using First_or_throw [OF assms groups.table_axioms]
  by (auto simp: bnd_Some guard_def ret_def throw_def same_def owns_def split: if_splits)

lemma group_edits_guarded:
  "DismissGroup E u gid s = Some (r, s') \<Longrightarrow> rows (st_db s') = rows (st_db s) \<or> owns (rows (st_db s)) u gid"
  "UpdateGroupInfo E ureq s = Some (r, s') \<Longrightarrow> rows (st_db s') = rows (st_db s) \<or> owns (rows (st_db s)) (ug_OwnerId ureq) (ug_Uuid ureq)"
  "RemoveGroupMembers E rreq s = Some (r, s') \<Longrightarrow> rows (st_db s') = rows (st_db s) \<or> owns (rows (st_db s)) (rg_OwnerId rreq) (rg_GroupId rreq)"
  unfolding DismissGroup_def UpdateGroupInfo_def RemoveGroupMembers_def by (erule owner_guard)+

end

lemma group_edit_routes:
  "map_of routes (''POST'', ''/group/dismissGroup'') = Some (Authenticated, v1_DismissGroup)"
  "map_of routes (''POST'', ''/group/updateGroupInfo'') = Some (Authenticated, v1_UpdateGroupInfo)"
  "map_of routes (''POST'', ''/group/removeGroupMembers'') = Some (Authenticated, v1_RemoveGroupMembers)"
  by (simp_all add: routes_def public_routes_def auth_routes_def)

lemma bound_plain:
  "bound fs z q (\<lambda>req. plain (m req)) w = Some (r, w') \<Longrightarrow>
   w' = w \<or> (\<exists>a s. m (fst (bind_json fs (hq_body q) z)) (hs_stores w) = Some (a, s) \<and> w' = put_stores s w)"
  by (auto simp: bound_def throw_def dest: plain_Some split: prod.splits if_splits)

text \<open>C8. A group is edited by its owner alone, whatever the body of the request says: when a request to
  dissolve, change or thin out a group has changed a row of the database, the token it presented is
  that of the user who owned the live group the request names. The owner the body claims plays no part.\<close>

theorem groups_edited_by_owner:
  fixes H :: "('d, 'r) http_env"
  assumes "backend (he_env H) rows str_at set_at pages"
    and "group_edit q = Some gid" and "serve H q w = Some (r, w')" and "rows (hs_db w') \<noteq> rows (hs_db w)"
  shows "\<exists>c. token_of H q = Some c \<and> owns (rows (hs_db w)) (jc_Uuid c) gid"
proof -
  note guarded = backend.group_edits_guarded [OF assms(1)]
  have ok: "owns (rows (hs_db w)) u gid"
    if "map_of routes (hq_method q, hq_path q) = Some (Authenticated, h)" and "h H q u w1 = Some (hr, w2)"
      and "at_the_door rows w w1" and "hs_db w' = hs_db w2" for h u w1 w2 hr
    using assms(2,4) that unfolding group_edit_def
    by (auto simp: group_edit_routes at_the_door_def v1_DismissGroup_def v1_UpdateGroupInfo_def
        v1_RemoveGroupMembers_def dest!: bound_plain guarded split: if_splits)
  obtain h :: "('d, 'r) handler" where h: "map_of routes (hq_method q, hq_path q) = Some (Authenticated, h)"
    using assms(2) by (auto simp: group_edit_def group_edit_routes split: if_splits)
  show ?thesis
  proof (rule served [OF assms(1) h insertI1 assms(3)], goal_cases)
    case (1 rp)
    with assms(4) show ?case by (auto simp: at_the_door_def)
  next
    case (2 u w1 hr w2)
    with ok [OF h 2(3,2,4)] show ?case by (auto simp: admissible_def)
  qed
qed

lemma bind_kick:
  "bind_json remove_fields (hq_body (demo_post path [(''group_id'', JStr ''G1''), (''uuid_list'', JArr [JStr ''U2''])])) zero_remove =
    (\<lparr>rg_GroupId = ''G1'', rg_OwnerId = [], rg_UuidList = [''U2'']\<rparr>, False)"
  by (subst bind_demo) (simp_all add: remove_fields_def find_field_def)

theorem groups_edited_by_owner_witness:
  "\<exists>r w'. serve (demo_http 0) (demo_post ''/group/removeGroupMembers'' [(''group_id'', JStr ''G1''), (''uuid_list'', JArr [JStr ''U2''])])
      (demo_state demo) = Some (r, w') \<and> md_rows (hs_db w') \<noteq> demo_rows \<and> owns demo_rows ''U1'' ''G1''"
proof -
  let ?q = "demo_post ''/group/removeGroupMembers'' [(''group_id'', JStr ''G1''), (''uuid_list'', JArr [JStr ''U2''])]"
  have "\<exists>w'. serve (demo_http 0) ?q (demo_state demo) = Some (Inr (json_reply 200 [plain_body 200 (Msg ''removed'')]), w') \<and>
      md_rows (hs_db w') \<noteq> md_rows (hs_db (demo_state demo))"
    by (simp add: bind_kick group_edit_routes v1_RemoveGroupMembers_def serve_run_defs run_defs demo_defs group_run_defs)
  then obtain r w' where r: "serve (demo_http 0) ?q (demo_state demo) = Some (r, w')" "md_rows (hs_db w') \<noteq> md_rows (hs_db (demo_state demo))"
    by blast
  have g: "group_edit ?q = Some ''G1''" by (simp add: group_edit_def bind_kick)
  from groups_edited_by_owner [OF demo_backend g r] r show ?thesis by (simp add: demo_def)
qed

section \<open>Histories\<close>

abbreviation reply_of :: "http_reply + http_reply \<Rightarrow> http_reply" where
  "reply_of r \<equiv> (case r of Inl rp \<Rightarrow> rp | Inr rp \<Rightarrow> rp)"

definition shows_data :: "http_reply \<Rightarrow> bool" where
  "shows_data rp \<longleftrightarrow> (\<exists>b \<in> set (rp_bodies rp). bd_data b \<noteq> None)"

lemma no_data [simp]: "\<not> shows_data (json_reply st [plain_body c m])" "\<not> shows_data bind_failed" "\<not> shows_data (json_reply st [])"
  "\<not> shows_data (refusal st m')"
  by (simp_all add: shows_data_def json_reply_def bind_failed_def refusal_def)

text \<open>The conversation or the group whose messages a request asks for, and who belongs to it: two users with
  a contact in good order in either direction, or the active members of the group.\<close>

definition friends :: "row list \<Rightarrow> uuid \<Rightarrow> uuid \<Rightarrow> bool" where
  "friends rs u v \<longleftrightarrow> (\<exists>x. RContact x \<in> set rs \<and> uc_deleted_at x = None \<and> uc_contact_type x = 0 \<and> uc_status x = 0 \<and>
     ((uc_user_id x = u \<and> uc_contact_id x = v) \<or> (uc_user_id x = v \<and> uc_contact_id x = u)))"

definition active_member :: "row list \<Rightarrow> uuid \<Rightarrow> uuid \<Rightarrow> bool" where
  "active_member rs g u \<longleftrightarrow> (\<exists>m. RMember m \<in> set rs \<and> gm_group_id m = g \<and> gm_user_id m = u \<and> gm_status m = 0 \<and> gm_deleted_at m = 0)"

definition may_read :: "http_request \<Rightarrow> row list \<Rightarrow> uuid \<Rightarrow> bool" where
  "may_read q rs u \<longleftrightarrow>
     (if hq_path q = ''/message/getMessageList'' then
        (let v = ml_UserTwoId (fst (bind_json message_list_fields (hq_body q) zero_message_list)) in u \<noteq> v \<and> friends rs u v)
      else active_member rs (gh_GroupId (fst (bind_json group_message_list_fields (hq_body q) zero_group_message_list))) u)"

lemma history_routes:
  "map_of routes (''POST'', ''/message/getMessageList'') = Some (Authenticated, v1_GetMessageList)"
  "map_of routes (''POST'', ''/message/getGroupMessageList'') = Some (Authenticated, v1_GetGroupMessageList)"
  by (simp_all add: routes_def public_routes_def auth_routes_def)

lemma GetMessageList_guarded:
  assumes "backend (he_env H) rows str_at set_at pages"
    and "v1_GetMessageList H q u w = Some (r, w')" and "shows_data (reply_of r)"
  shows "u \<noteq> ml_UserTwoId (fst (bind_json message_list_fields (hq_body q) zero_message_list)) \<and>
    friends (rows (hs_db w)) u (ml_UserTwoId (fst (bind_json message_list_fields (hq_body q) zero_message_list)))"
proof -
  obtain req bad where b: "bind_json message_list_fields (hq_body q) zero_message_list = (req, bad)" by fastforce
  let ?v = "ml_UserTwoId req"
  let ?P = "\<lambda>c. ((uc_user_id c = u \<and> uc_contact_id c = ?v) \<or> (uc_user_id c = ?v \<and> uc_contact_id c = u)) \<and>
     uc_contact_type c = 0 \<and> uc_status c = 0"
  let ?no = "json_reply 200 [plain_body 403 (Msg ''not allowed'')]"
  have look: "wp (or_throw (in_stores (First (he_env H) contacts ?P)) ?no)
      (\<lambda>_ _. friends (rows (hs_db w)) u ?v) (\<lambda>e _. e = ?no) w"
    unfolding wp_simps
    by (rule wp_mono [OF backend.First_live [OF assms(1) contacts.table_axioms]]) (auto simp: friends_def)
  from assms(2,3) obtain f where "bnd (or_throw (in_stores (First (he_env H) contacts ?P)) ?no) f w = Some (r, w')" "u \<noteq> ?v"
    by (auto simp: v1_GetMessageList_def bound_def b Let_def throw_def bnd_Some [of "guard _ _"] guard_def ret_def split: if_splits)
  from bnd_wpD [OF this(1) look] this(2) assms(3) show ?thesis by (auto simp: b)
qed

lemma GetGroupMessageList_guarded:
  assumes "backend (he_env H) rows str_at set_at pages"
    and "v1_GetGroupMessageList H q u w = Some (r, w')" and "shows_data (reply_of r)"
  shows "active_member (rows (hs_db w)) (gh_GroupId (fst (bind_json group_message_list_fields (hq_body q) zero_group_message_list))) u"
proof -
  obtain req bad where b: "bind_json group_message_list_fields (hq_body q) zero_group_message_list = (req, bad)" by fastforce
  let ?no = "json_reply 200 [plain_body 403 (Msg ''not allowed'')]"
  have look: "wp (or_throw (in_stores (count_membership (he_env H) (gh_GroupId req) u)) ?no)
      (\<lambda>n _. n \<noteq> 0 \<longrightarrow> active_member (rows (hs_db w)) (gh_GroupId req) u) (\<lambda>e _. e = ?no) w"
    unfolding wp_simps
    by (rule wp_mono [OF backend.count_membership_wp [OF assms(1)]]) (auto simp: active_member_def)
  from assms(2,3) obtain f where "bnd (or_throw (in_stores (count_membership (he_env H) (gh_GroupId req) u)) ?no)
      (\<lambda>n. bnd (guard (n \<noteq> 0) ?no) f) w = Some (r, w')"
    by (auto simp: v1_GetGroupMessageList_def bound_def b Let_def throw_def split: if_splits)
  from bnd_wpD [OF this look] assms(3) show ?thesis
    by (auto simp: b bnd_Some guard_def throw_def ret_def split: if_splits)
qed

text \<open>C7. Histories are for those they belong to: a reply to a request for messages carries data only when
  the token's user and the other one are two users with a live contact in good order, in one direction
  at least, or the token's user is an active member of the group, at the time of the request. A user
  named in the body, a blocked or deleted contact, or a membership that has ended opens nothing.\<close>

theorem history_for_parties:
  fixes H :: "('d, 'r) http_env"
  assumes "backend (he_env H) rows str_at set_at pages" and "hq_method q = ''POST''"
    and "hq_path q \<in> {''/message/getMessageList'', ''/message/getGroupMessageList''}"
    and "serve H q w = Some (r, w')" and "shows_data (reply_of r)"
  shows "\<exists>c. token_of H q = Some c \<and> may_read q (rows (hs_db w)) (jc_Uuid c)"
proof -
  have ok: "may_read q (rows (hs_db w)) u"
    if "map_of routes (hq_method q, hq_path q) = Some (Authenticated, h)" and "h H q u w1 = Some (hr, w2)"
      and "at_the_door rows w w1" and "shows_data (reply_of hr)" for h u w1 w2 hr
    using assms(2,3) that(1,2,3)
    by (auto simp: history_routes may_read_def at_the_door_def Let_def
        dest!: GetMessageList_guarded [OF assms(1) _ that(4)] GetGroupMessageList_guarded [OF assms(1) _ that(4)])
  obtain h :: "('d, 'r) handler" where h: "map_of routes (hq_method q, hq_path q) = Some (Authenticated, h)"
    using assms(2,3) by (auto simp: history_routes)
  show ?thesis
  proof (rule served [OF assms(1) h insertI1 assms(4)], goal_cases)
    case (1 rp)
    with assms(5) show ?case by (auto simp: door_refusal_def)
  next
    case (2 u w1 hr w2)
    with ok [OF h 2(3,2)] assms(5) show ?case by (auto simp: admissible_def)
  qed
qed

lemma bind_history:
  "bind_json message_list_fields (hq_body (demo_post path [(''user_two_id'', JStr ''U2'')])) zero_message_list =
    (zero_message_list\<lparr>ml_UserTwoId := ''U2''\<rparr>, False)"
  by (subst bind_demo) (simp_all add: message_list_fields_def find_field_def)

theorem history_for_parties_witness:
  "\<exists>r w'. serve (demo_http 0) (demo_post ''/message/getMessageList'' [(''user_two_id'', JStr ''U2'')]) (demo_state demo) = Some (r, w') \<and>
     shows_data (reply_of r) \<and> friends demo_rows ''U1'' ''U2''"
proof -
  let ?q = "demo_post ''/message/getMessageList'' [(''user_two_id'', JStr ''U2'')]"
  have "\<exists>w'. serve (demo_http 0) ?q (demo_state demo) =
      Some (Inr (json_reply 200 [\<lparr>bd_code = 200, bd_message = Msg ''loaded'', bd_data = Some (PMessages [])\<rparr>]), w')"
    by (simp add: bind_history history_routes v1_GetMessageList_def serve_run_defs run_defs demo_defs GetMessageList_def
        first_page_cache_def normalizePageLimit_def newest_def message_list_key_def userStatusCachePrefix_def)
  then obtain r w' where r: "serve (demo_http 0) ?q (demo_state demo) = Some (r, w')" "shows_data (reply_of r)"
    by (force simp: shows_data_def json_reply_def)
  from history_for_parties [OF demo_backend _ _ r] r show ?thesis
    by (auto simp: may_read_def bind_history demo_def)
qed

end
