(* ===== verification/File_Safety.thy ===== *)
theory File_Safety
  imports Http_Safety
begin

text \<open>
  Uploaded files: who gets one, that an upload can be fetched again under the name in its answer, and how the
  check of who may is passed by a message of one's own.
\<close>

section \<open>File names\<close>

lemma sublist_single: "sublist [c] s \<longleftrightarrow> c \<in> set s"
  by (auto simp: sublist_def in_set_conv_decomp)

lemma filepath_base_id:
  assumes "s \<noteq> []" and "CHR ''/'' \<notin> set s"
  shows "filepath_base s = s"
proof -
  have d: "dropWhile (\<lambda>c. c = CHR ''/'') (rev s) = rev s"
    using assms by (cases "rev s") (auto simp: dropWhile_eq_self_iff)
  have t: "takeWhile (\<lambda>c. c \<noteq> CHR ''/'') (rev s) = rev s"
    using assms(2) by (auto simp: takeWhile_eq_all_conv)
  show ?thesis
    unfolding filepath_base_def Let_def d rev_rev_ident t using assms(1) by simp
qed

lemma no_dot: "CHR ''.'' \<notin> set s \<Longrightarrow> \<not> sublist ''..'' s"
  by (auto simp: sublist_def)

definition legal_name :: "string \<Rightarrow> bool" where
  "legal_name s \<longleftrightarrow> s \<noteq> [] \<and> \<not> sublist ''..'' s \<and> CHR ''/'' \<notin> set s \<and> CHR 0x5C \<notin> set s"

section \<open>Who gets a file\<close>

definition entitled :: "row list \<Rightarrow> uuid \<Rightarrow> string \<Rightarrow> bool" where
  "entitled rs u name \<longleftrightarrow>
     (\<exists>f. RFile f \<in> set rs \<and> fm_deleted_at f = None \<and> fm_server_name f = name \<and>
       (fm_uploader_uuid f = u \<or>
        (\<exists>m. RMessage m \<in> set rs \<and> ms_deleted_at m = None \<and> mentions name m \<and>
          (ms_send_id m = u \<or> ms_receive_id m = u \<or>
           (starts_with (CHR ''G'') (ms_receive_id m) \<and> active_member rs (ms_receive_id m) u)))))"

lemma serveFile_Some:
  "serveFile H name w = Some (r, w') \<Longrightarrow> w' = w \<and> (\<exists>rp. r = Inr rp \<and> (\<forall>p. rp_file rp = Some p \<longrightarrow> p = he_filePath H @ ''/'' @ name))"
  by (auto simp: serveFile_def bnd_Some gets_def ret_def json_reply_def Let_def split: if_splits)

lemma no_file [simp]: "rp_file (json_reply st bs) = None"
  by (simp add: json_reply_def)

lemma First_in_stores:
  assumes "backend (he_env H) rows str_at set_at pages" and "table T"
  shows "wp (in_stores (First (he_env H) T P)) (\<lambda>x w'. tb_row T x \<in> set (rows (hs_db w)) \<and> live_row (tb_row T x) \<and> P x \<and>
      rows (hs_db w') = rows (hs_db w)) (\<lambda>e w'. rows (hs_db w') = rows (hs_db w)) w"
  unfolding wp_simps by (rule wp_mono [OF backend.First_live [OF assms]]) (auto simp: database.same_def [OF backend.axioms(1) [OF assms(1)]])

lemma no_permission_file [simp]: "rp_file no_permission = None"
  by (simp add: no_permission_def)

text \<open>A message that entitles the user.\<close>

definition entitling :: "row list \<Rightarrow> uuid \<Rightarrow> string \<Rightarrow> Message \<Rightarrow> bool" where
  "entitling rs u name m \<longleftrightarrow> RMessage m \<in> set rs \<and> ms_deleted_at m = None \<and> mentions name m \<and>
     (ms_send_id m = u \<or> ms_receive_id m = u \<or> (starts_with (CHR ''G'') (ms_receive_id m) \<and> active_member rs (ms_receive_id m) u))"

lemma send_to_member_entitled:
  assumes b: "backend (he_env H) rows str_at set_at pages"
    and run: "send_to_member H n u w = Some (r, w')" and sent: "rp_file (reply_of r) = Some p"
  shows "p = he_filePath H @ ''/'' @ n \<and> (\<exists>m. entitling (rows (hs_db w)) u n m)"
proof -
  let ?no = "no_permission" and ?E = "he_env H"
  have "wp (or_throw (in_stores (First ?E messages (\<lambda>m. mentions n m \<and> starts_with (CHR ''G'') (ms_receive_id m)))) ?no)
      (\<lambda>m w1. RMessage m \<in> set (rows (hs_db w)) \<and> ms_deleted_at m = None \<and> mentions n m \<and> starts_with (CHR ''G'') (ms_receive_id m) \<and>
         rows (hs_db w1) = rows (hs_db w)) (\<lambda>e _. e = ?no) w"
    unfolding wp_or_throw by (rule wp_mono [OF First_in_stores [OF b messages.table_axioms]]) auto
  from bnd_wpD [OF run [unfolded send_to_member_def] this] sent
  obtain m w1 where m: "RMessage m \<in> set (rows (hs_db w))" "ms_deleted_at m = None" "mentions n m"
        "starts_with (CHR ''G'') (ms_receive_id m)" "rows (hs_db w1) = rows (hs_db w)"
      and cnt: "attempt (in_stores (count_membership ?E (ms_receive_id m) u)) (\<lambda>c.
          if (case c of Inr n \<Rightarrow> 0 < n | Inl _ \<Rightarrow> False) then serveFile H n else throw ?no) w1 = Some (r, w')"
    by auto
  have "wp (in_stores (count_membership ?E (ms_receive_id m) u))
      (\<lambda>n _. n \<noteq> 0 \<longrightarrow> active_member (rows (hs_db w)) (ms_receive_id m) u) (\<lambda>_ _. True) w1"
    unfolding wp_simps
    by (rule wp_mono [OF backend.count_membership_wp [OF b]]) (auto simp: active_member_def m(5))
  from attempt_wpD [OF cnt this] sent m show ?thesis
    by (auto simp: throw_def entitling_def dest!: serveFile_Some split: if_splits)
qed

lemma send_to_party_entitled:
  assumes b: "backend (he_env H) rows str_at set_at pages"
    and run: "send_to_party H n u w = Some (r, w')" and sent: "rp_file (reply_of r) = Some p"
  shows "p = he_filePath H @ ''/'' @ n \<and> (\<exists>m. entitling (rows (hs_db w)) u n m)"
proof -
  have "wp (in_stores (First (he_env H) messages (\<lambda>m. mentions n m \<and> (ms_send_id m = u \<or> ms_receive_id m = u))))
      (\<lambda>m w1. entitling (rows (hs_db w)) u n m) (\<lambda>_ w1. rows (hs_db w1) = rows (hs_db w)) w"
    by (rule wp_mono [OF First_in_stores [OF b messages.table_axioms]]) (auto simp: entitling_def)
  from attempt_wpD [OF run [unfolded send_to_party_def] this] sent show ?thesis
    using send_to_member_entitled [OF b, of n u _ r w' p] by (fastforce dest: serveFile_Some)
qed

lemma DownloadFile_entitled:
  assumes b: "backend (he_env H) rows str_at set_at pages"
    and run: "v1_DownloadFile H q u w = Some (r, w')" and sent: "rp_file (reply_of r) = Some p"
  shows "legal_name (Query q ''name'') \<and> p = he_filePath H @ ''/'' @ Query q ''name'' \<and> entitled (rows (hs_db w)) u (Query q ''name'')"
proof -
  let ?n = "Query q ''name''" and ?E = "he_env H"
  have legal: "legal_name ?n"
    using run sent unfolding v1_DownloadFile_def legal_name_def Let_def sublist_single
    by (auto simp: bnd_Some [of "guard _ _"] guard_def throw_def ret_def split: if_splits)
  then have ok: "?n \<noteq> []" "\<not> sublist ''..'' ?n" "CHR ''/'' \<notin> set ?n" "CHR 0x5C \<notin> set ?n" by (simp_all add: legal_name_def)
  let ?gone = "json_reply 200 [plain_body (-1) (Msg ''no such file'')]"
  from run have "bnd (or_throw (in_stores (First ?E files (\<lambda>f. fm_server_name f = ?n))) ?gone)
      (\<lambda>f. if fm_uploader_uuid f = u then serveFile H ?n else send_to_party H ?n u) w = Some (r, w')"
    unfolding v1_DownloadFile_def Let_def filepath_base_id [OF ok(1,3)] by (simp add: ok sublist_single)
  moreover have "wp (or_throw (in_stores (First ?E files (\<lambda>f. fm_server_name f = ?n))) ?gone)
      (\<lambda>f w1. RFile f \<in> set (rows (hs_db w)) \<and> fm_deleted_at f = None \<and> fm_server_name f = ?n \<and> rows (hs_db w1) = rows (hs_db w))
      (\<lambda>e _. e = ?gone) w"
    unfolding wp_or_throw by (rule wp_mono [OF First_in_stores [OF b files.table_axioms]]) auto
  ultimately obtain f w1 where f: "RFile f \<in> set (rows (hs_db w))" "fm_deleted_at f = None" "fm_server_name f = ?n"
      and w1: "rows (hs_db w1) = rows (hs_db w)"
      and after: "(if fm_uploader_uuid f = u then serveFile H ?n else send_to_party H ?n u) w1 = Some (r, w')"
    using sent by (fastforce dest: bnd_wpD)
  have "p = he_filePath H @ ''/'' @ ?n \<and> (fm_uploader_uuid f = u \<or> (\<exists>m. entitling (rows (hs_db w)) u ?n m))"
    using after sent send_to_party_entitled [OF b, of ?n u w1 r w' p] unfolding w1
    by (auto dest: serveFile_Some split: if_splits)
  with legal f show ?thesis unfolding entitled_def entitling_def by blast
qed

lemma download_route: "map_of routes (''GET'', ''/file/download'') = Some (Authenticated, v1_DownloadFile)"
  by (simp add: routes_def public_routes_def auth_routes_def)

text \<open>C17. A file is sent only to someone entitled to it, and only from its directory: when a reply to a download
  carries a file, its name has no separator and no \<open>..\<close>, the path is the one of that name in the
  configured directory, and the token's user uploaded the file, or sent or received a live message whose
  url mentions the name, or is an active member of a group that such a message was sent to.\<close>

theorem file_only_to_entitled:
  fixes H :: "('d, 'r) http_env"
  assumes "backend (he_env H) rows str_at set_at pages" and "hq_method q = ''GET''" and "hq_path q = ''/file/download''"
    and "serve H q w = Some (r, w')" and "rp_file (reply_of r) = Some p"
  shows "\<exists>c. token_of H q = Some c \<and> legal_name (Query q ''name'') \<and> p = he_filePath H @ ''/'' @ Query q ''name'' \<and>
    entitled (rows (hs_db w)) (jc_Uuid c) (Query q ''name'')"
proof -
  have h: "map_of routes (hq_method q, hq_path q) = Some (Authenticated, v1_DownloadFile :: ('d, 'r) handler)"
    by (simp add: assms(2,3) download_route)
  show ?thesis
  proof (rule served [OF assms(1) h insertI1 assms(4)], goal_cases)
    case (1 rp)
    with assms(5) show ?case by (auto simp: door_refusal_def refusal_def)
  next
    case (2 u w1 hr w2)
    with assms(5) have "rp_file (reply_of hr) = Some p" by simp
    from DownloadFile_entitled [OF assms(1) 2(3) this] 2(1,2) show ?case
      by (auto simp: admissible_def at_the_door_def)
  qed
qed

text \<open>A process with a stored file of U2 and a message of U1 that mentions it.\<close>

definition demo_file :: FileMetadata where
  "demo_file = \<lparr>fm_id = 8, fm_uuid = ''F1'', fm_uploader_uuid = ''U2'', fm_server_name = ''f'', fm_original_name = [],
     fm_file_type = [], fm_file_size = 1, fm_is_avatar = 0, fm_created_at = 1, fm_deleted_at = None\<rparr>"

definition demo_mention :: Message where
  "demo_mention = (demo_text ''M1'')\<lparr>ms_id := 9, ms_url := ''x=f''\<rparr>"

definition demo_files :: "(mem_db, mem_redis) http_state" where
  "demo_files = (demo_state (demo\<lparr>st_db := \<lparr>md_rows = demo_rows @ [RFile demo_file, RMessage demo_mention], md_next = 10, md_faults = []\<rparr>\<rparr>))
     \<lparr>hs_disk := [''files/f'']\<rparr>"

lemma mentions_demo: "mentions ''f'' demo_mention"
  by (simp add: mentions_def demo_mention_def upt_rec)

lemma demo_mention_simps [simp]: "ms_deleted_at demo_mention = None" "ms_send_id demo_mention = ''U1''" "ms_id demo_mention = 9"
  by (simp_all add: demo_mention_def demo_text_def)

lemma legal_f: "legal_name ''f''"
  by (simp add: legal_name_def no_dot)

lemma demo_download:
  "\<exists>w'. serve (demo_http 0) (demo_get ''/file/download'' [(''name'', ''f'')]) demo_files =
     Some (Inr ((json_reply 200 [])\<lparr>rp_file := Some ''files/f''\<rparr>), w')"
  using mentions_demo
  by (simp add: no_dot download_route v1_DownloadFile_def filepath_base_id sublist_single send_to_party_def serve_run_defs run_defs demo_defs
      demo_files_def demo_file_def serveFile_def json_reply_def userStatusCachePrefix_def)

theorem file_only_to_entitled_witness:
  "\<exists>r w'. serve (demo_http 0) (demo_get ''/file/download'' [(''name'', ''f'')]) demo_files = Some (r, w') \<and>
     rp_file (reply_of r) = Some ''files/f'' \<and> entitled (md_rows (hs_db demo_files)) ''U1'' ''f''"
proof -
  from demo_download obtain r w' where r: "serve (demo_http 0) (demo_get ''/file/download'' [(''name'', ''f'')]) demo_files = Some (r, w')"
      "rp_file (reply_of r) = Some ''files/f''" by force
  from file_only_to_entitled [OF demo_backend _ _ r] r show ?thesis by auto
qed

section \<open>Fetching a file\<close>

lemma wp_serveFile:
  assumes "he_filePath H @ CHR ''/'' # n \<in> set (hs_disk w)"
  shows "wp (serveFile H n) (\<lambda>rp _. rp_file rp = Some (he_filePath H @ CHR ''/'' # n)) X w"
  using assms by (simp add: serveFile_def wp_simps Let_def)

lemma at_the_door_rows: "at_the_door rows w w1 \<Longrightarrow> rows (hs_db w1) = rows (hs_db w) \<and> hs_disk w1 = hs_disk w"
  by (auto simp: at_the_door_def put_stores_def)

lemma put_stores_disk [simp]: "hs_disk (put_stores s w) = hs_disk w"
  by (simp add: put_stores_def)

text \<open>A stored file goes to its uploader and to whoever sent or received a message that mentions it.\<close>

lemma DownloadFile_sends:
  assumes b: "backend (he_env H) rows str_at set_at pages" and ok: "reads_ok (he_env H)"
    and legal: "legal_name (Query q ''name'')" and disk: "he_filePath H @ ''/'' @ Query q ''name'' \<in> set (hs_disk w)"
    and f: "RFile f \<in> set (rows (hs_db w))" "fm_deleted_at f = None" "fm_server_name f = Query q ''name''"
    and who: "(\<forall>f. RFile f \<in> set (rows (hs_db w)) \<longrightarrow> fm_deleted_at f = None \<longrightarrow> fm_server_name f = Query q ''name'' \<longrightarrow> fm_uploader_uuid f = u) \<or>
      (\<exists>m. RMessage m \<in> set (rows (hs_db w)) \<and> ms_deleted_at m = None \<and> mentions (Query q ''name'') m \<and> (ms_send_id m = u \<or> ms_receive_id m = u))"
  shows "wp (v1_DownloadFile H q u) (\<lambda>rp _. rp_file rp = Some (he_filePath H @ ''/'' @ Query q ''name'')) (\<lambda>_ _. False) w"
proof -
  let ?n = "Query q ''name''" and ?E = "he_env H"
  note n = legal [unfolded legal_name_def]
  note same = database.same_def [OF backend.axioms(1) [OF b]]
  have party: "wp (send_to_party H ?n u) (\<lambda>rp _. rp_file rp = Some (he_filePath H @ ''/'' @ ?n)) (\<lambda>_ _. False) w1"
    if w1: "rows (hs_db w1) = rows (hs_db w)" "hs_disk w1 = hs_disk w" and m: "RMessage m \<in> set (rows (hs_db w))" "ms_deleted_at m = None"
      "mentions ?n m" "ms_send_id m = u \<or> ms_receive_id m = u" for w1 m
    unfolding send_to_party_def wp_attempt wp_in_stores
    by (rule database.wp_First [OF backend.axioms(1) [OF b] messages.table_axioms])
       (use w1 m disk ok in \<open>auto intro!: wp_serveFile\<close>)
  show ?thesis
    unfolding v1_DownloadFile_def Let_def filepath_base_id [OF conjunct1 [OF n] conjunct1 [OF conjunct2 [OF conjunct2 [OF n]]]]
      wp_bnd wp_guard wp_or_throw wp_in_stores
  proof (simp add: n sublist_single, rule database.wp_First [OF backend.axioms(1) [OF b] files.table_axioms], goal_cases)
    case (1 g s)
    show ?case
    proof (cases "fm_uploader_uuid g = u")
      case True
      then show ?thesis using disk by (auto intro!: wp_serveFile)
    next
      case False
      with who 1 obtain m where "RMessage m \<in> set (rows (hs_db w))" "ms_deleted_at m = None"
          "mentions ?n m" "ms_send_id m = u \<or> ms_receive_id m = u" by auto
      then have "wp (send_to_party H ?n u) (\<lambda>rp _. rp_file rp = Some (he_filePath H @ ''/'' @ ?n)) (\<lambda>_ _. False) (put_stores s w)"
        by (intro party) (use 1 in \<open>auto simp: same\<close>)
      with False show ?thesis by simp
    qed
  next
    case (2 s)
    with f show ?case by auto
  next
    case (3 s)
    with ok show ?case by simp
  qed
qed

text \<open>C18. The check of who may fetch a file is passed by one's own message. Any active user for whom there is a
  live message that he sent, to whomever, and whose url mentions the name of a stored file is sent that
  file, whoever uploaded it and whomever the uploader sent it to; the url of a message is what its
  sender's client wrote into it.\<close>

theorem own_message_opens_file:
  fixes H :: "('d, 'r) http_env"
  assumes "backend (he_env H) rows str_at set_at pages" and "reads_ok (he_env H)"
    and "hq_method q = ''GET''" and "hq_path q = ''/file/download''" and "token_of H q = Some c"
    and "active_user (rows (hs_db w)) (jc_Uuid c)"
    and "status_known (str_at (st_redis (hs_stores w)) (he_now H) (userStatusCachePrefix @ jc_Uuid c))"
    and "legal_name (Query q ''name'')" and "he_filePath H @ ''/'' @ Query q ''name'' \<in> set (hs_disk w)"
    and "RFile f \<in> set (rows (hs_db w))" and "fm_deleted_at f = None" and "fm_server_name f = Query q ''name''"
    and "RMessage m \<in> set (rows (hs_db w))" and "ms_deleted_at m = None" and "mentions (Query q ''name'') m"
    and "ms_send_id m = jc_Uuid c"
  shows "\<exists>rp w'. serve H q w = Some (Inr rp, w') \<and> rp_file rp = Some (he_filePath H @ ''/'' @ Query q ''name'')"
proof -
  have h: "map_of routes (hq_method q, hq_path q) = Some (Authenticated, v1_DownloadFile :: ('d, 'r) handler)"
    by (simp add: assms(3,4) download_route)
  have "wp (serve H q) (\<lambda>rp w'. rp_file rp = Some (he_filePath H @ ''/'' @ Query q ''name'')) (\<lambda>_ _. False) w"
    by (rule wp_serve [OF assms(1,2,5,6,7) h], rule wp_mono [OF DownloadFile_sends [OF assms(1,2,8), of _ f]])
       (use assms in \<open>auto dest!: at_the_door_rows\<close>)
  then show ?thesis by (auto elim: wpE)
qed

theorem own_message_opens_file_witness:
  "\<exists>rp w'. serve (demo_http 0) (demo_get ''/file/download'' [(''name'', ''f'')]) demo_files = Some (Inr rp, w') \<and>
     rp_file rp = Some ''files/f'' \<and> fm_uploader_uuid demo_file = ''U2''"
proof -
  have rows: "md_rows (hs_db demo_files) = demo_rows @ [RFile demo_file, RMessage demo_mention]"
    by (simp add: demo_files_def demo_state_def NewMessageProcessor_def)
  have act: "active_user (md_rows (hs_db demo_files)) ''U1''"
    unfolding rows by (rule active_demo) (simp add: demo_rows_def)
  have un: "status_known (mem_str (st_redis (hs_stores demo_files)) 5 (userStatusCachePrefix @ ''U1''))"
    by (simp add: status_known_def demo_files_def demo_state_def NewMessageProcessor_def demo_def mem_str_def mem_get_def mem_empty_def)
  have "\<exists>rp w'. serve (demo_http 0) (demo_get ''/file/download'' [(''name'', ''f'')]) demo_files = Some (Inr rp, w') \<and>
      rp_file rp = Some (he_filePath (demo_http 0) @ ''/'' @ Query (demo_get ''/file/download'' [(''name'', ''f'')]) ''name'')"
    by (rule own_message_opens_file [OF demo_backend _ _ _ http_demo_token(2), where f = demo_file and m = demo_mention])
       (use act un legal_f mentions_demo in \<open>simp_all add: reads_ok_mem rows\<close>, simp_all add: demo_files_def demo_file_def)
  then show ?thesis by (simp add: demo_file_def)
qed

section \<open>Uploads\<close>

lemma to_lower_keeps: "c \<in> set (to_lower s) \<Longrightarrow> c = CHR ''/'' \<or> c = CHR ''.'' \<Longrightarrow> c \<in> set s"
proof -
  have "to_lower_char x = c \<Longrightarrow> c = CHR ''/'' \<or> c = CHR ''.'' \<Longrightarrow> x = c" for x
  proof (cases "65 \<le> (of_char x :: nat) \<and> (of_char x :: nat) \<le> 90")
    case True
    assume "to_lower_char x = c" and c: "c = CHR ''/'' \<or> c = CHR ''.''"
    with True have "c = char_of (of_char x + 32 :: nat)" by (auto simp: to_lower_char_def Let_def)
    then have "(of_char c :: nat) = of_char (char_of (of_char x + 32 :: nat) :: char)" by (rule arg_cong)
    also have "\<dots> = of_char x + 32" using True by (simp only: of_char_of) simp
    finally show ?thesis using True c by auto
  qed (simp add: to_lower_char_def Let_def)
  then show "c \<in> set (to_lower s) \<Longrightarrow> c = CHR ''/'' \<or> c = CHR ''.'' \<Longrightarrow> c \<in> set s"
    unfolding to_lower_def by fastforce
qed

lemma path_ext_shape: "path_ext s = [] \<or> (\<exists>e. path_ext s = CHR ''.'' # e \<and> CHR ''.'' \<notin> set e \<and> CHR ''/'' \<notin> set e)"
proof -
  let ?b = "rev (takeWhile (\<lambda>c. c \<noteq> CHR ''/'') (rev s))"
  have "CHR ''/'' \<notin> set (takeWhile (\<lambda>c. c \<noteq> CHR ''.'') (rev ?b))"
    by (auto dest!: set_takeWhileD)
  moreover have "CHR ''.'' \<notin> set (takeWhile (\<lambda>c. c \<noteq> CHR ''.'') (rev ?b))"
    by (auto dest!: set_takeWhileD)
  ultimately show ?thesis unfolding path_ext_def Let_def by auto
qed

lemma itoa_chars: "c \<in> set (itoa i) \<Longrightarrow> is_digit c \<or> c = CHR ''-''"
  using nat_digits_all by (auto simp: itoa_def list_all_iff split: if_splits)

lemma one_dot: "CHR ''.'' \<notin> set a \<Longrightarrow> CHR ''.'' \<notin> set b \<Longrightarrow> \<not> sublist ''..'' (a @ CHR ''.'' # b)"
proof
  assume "CHR ''.'' \<notin> set a" "CHR ''.'' \<notin> set b" "sublist ''..'' (a @ CHR ''.'' # b)"
  then obtain x y where "a @ CHR ''.'' # b = x @ ''..'' @ y" by (auto simp: sublist_def)
  then have "count_list (a @ CHR ''.'' # b) (CHR ''.'') = count_list (x @ ''..'' @ y) (CHR ''.'')" by simp
  with \<open>CHR ''.'' \<notin> set a\<close> \<open>CHR ''.'' \<notin> set b\<close> show False by simp
qed

text \<open>The names given to uploads have no separator and one dot at most.\<close>

lemma upload_name:
  assumes "CHR 0x5C \<notin> set (''file_'' @ itoa t @ to_lower (path_ext s))"
  shows "legal_name (''file_'' @ itoa t @ to_lower (path_ext s))"
proof -
  have t: "CHR ''.'' \<notin> set (''file_'' @ itoa t)" "CHR ''/'' \<notin> set (''file_'' @ itoa t)"
    by (auto dest!: itoa_chars simp: is_digit_def)
  from path_ext_shape [of s] show ?thesis
  proof
    assume "path_ext s = []"
    with t assms no_dot [OF t(1)] show ?thesis
      by (simp add: legal_name_def to_lower_def)
  next
    assume "\<exists>e. path_ext s = CHR ''.'' # e \<and> CHR ''.'' \<notin> set e \<and> CHR ''/'' \<notin> set e"
    then obtain e where e: "path_ext s = CHR ''.'' # e" "CHR ''.'' \<notin> set e" "CHR ''/'' \<notin> set e" by blast
    have low: "to_lower (path_ext s) = CHR ''.'' # to_lower e" by (simp add: e(1) to_lower_def to_lower_char_def)
    have "CHR ''.'' \<notin> set (to_lower e)" "CHR ''/'' \<notin> set (to_lower e)" using e(2,3) to_lower_keeps by blast+
    with one_dot [OF t(1), of "to_lower e"] t(2) assms show ?thesis by (simp add: legal_name_def low)
  qed
qed

lemma UploadFile_wp:
  assumes "backend E rows str_at set_at pages"
  shows "wp (UploadFile E tz rnd detect path u fault form disk)
    (\<lambda>((m, up, c), disk') s'. case up of None \<Rightarrow> True | Some up \<Rightarrow>
       path @ ''/'' @ ur_Name up \<in> set disk' \<and> (\<exists>fn. ur_Name up = ''file_'' @ itoa (e_now E) @ to_lower (path_ext fn)) \<and>
       (\<exists>f. rows (st_db s') = rows (st_db s) @ [RFile f] \<and> fm_deleted_at f = None \<and> fm_server_name f = ur_Name up \<and> fm_uploader_uuid f = u))
    X s"
proof -
  note db = backend.axioms(1) [OF assms]
  have stored: "wp (store_upload E fault (file_meta fid u n detect f 0 (e_now E)) (path @ CHR ''/'' # n) url disk)
      (\<lambda>((m, up, c), disk') s'. case up of None \<Rightarrow> True | Some up \<Rightarrow> path @ CHR ''/'' # ur_Name up \<in> set disk' \<and> ur_Name up = n \<and>
         (\<exists>f. rows (st_db s') = rows (st_db s) @ [RFile f] \<and> fm_deleted_at f = None \<and> fm_server_name f = n \<and> fm_uploader_uuid f = u)) X s"
    for fid n f url
    unfolding store_upload_def
    by (auto simp: wp_simps split: option.split disk_fault.split
        intro!: database.wp_Create [OF db files.table_axioms] simp: database.added_def [OF db] file_meta_def)
  show ?thesis
    unfolding UploadFile_def Let_def
    by (auto simp: wp_simps split: option.split list.split intro!: wp_mono [OF stored])
qed

lemma upload_route: "map_of routes (''POST'', ''/message/uploadFile'') = Some (Authenticated, v1_UploadFile)"
  by (simp add: routes_def public_routes_def auth_routes_def)

text \<open>What a successful upload leaves behind: a record of the file that names its uploader, and the file.\<close>

definition stored_upload :: "('d, 'r) http_env \<Rightarrow> ('d \<Rightarrow> row list) \<Rightarrow> uuid \<Rightarrow> string \<Rightarrow> ('d, 'r) http_state \<Rightarrow> 'd \<Rightarrow> string list \<Rightarrow> bool" where
  "stored_upload H rows u n w d disk \<longleftrightarrow>
     he_filePath H @ ''/'' @ n \<in> set disk \<and> (\<exists>fn. n = ''file_'' @ itoa (he_now H) @ to_lower (path_ext fn)) \<and>
     (\<exists>f. rows d = rows (hs_db w) @ [RFile f] \<and> fm_deleted_at f = None \<and> fm_server_name f = n \<and> fm_uploader_uuid f = u)"

lemma UploadFile_stored:
  assumes "backend (he_env H) rows str_at set_at pages"
  shows "wp (v1_UploadFile H q u) (\<lambda>rp w'. \<forall>up b. rp_bodies rp = [b] \<longrightarrow> bd_data b = Some (PUpload up) \<longrightarrow>
      stored_upload H rows u (ur_Name up) w (hs_db w') (hs_disk w')) (\<lambda>_ _. False) w"
  unfolding v1_UploadFile_def uploaded_def wp_bnd wp_gets wp_in_stores
  by (rule wp_mono [OF UploadFile_wp [OF assms, where X = "\<lambda>_ _. False"]])
     (auto simp: wp_simps json_back_def JsonBack_def json_reply_def stored_upload_def put_stores_def split: if_splits option.splits)

text \<open>C30. An upload can be fetched: when a request to upload a file is answered with a name, its uploader, as
  long as he is active, gets the file by a download under that name. The name must be new, which it is
  unless two uploads fall on one nanosecond, and the extension without a backslash: the upload accepts
  one, the download refuses the name.\<close>

theorem upload_can_be_fetched:
  fixes H :: "('d, 'r) http_env"
  assumes "backend (he_env H) rows str_at set_at pages" and "hq_method q = ''POST''" and "hq_path q = ''/message/uploadFile''"
    and "serve H q w = Some (r, w1)" and "rp_bodies (reply_of r) = [b]" and "bd_data b = Some (PUpload up)"
    and "\<forall>f. RFile f \<in> set (rows (hs_db w)) \<longrightarrow> fm_server_name f \<noteq> ur_Name up" and "CHR 0x5C \<notin> set (ur_Name up)"
    and "backend (he_env H') rows str_at set_at pages" and "reads_ok (he_env H')" and "he_filePath H' = he_filePath H"
    and "hq_method q' = ''GET''" and "hq_path q' = ''/file/download''" and "Query q' ''name'' = ur_Name up"
    and "token_of H q = Some c" and "token_of H' q' = Some c'" and "jc_Uuid c' = jc_Uuid c"
    and "active_user (rows (hs_db w1)) (jc_Uuid c)"
    and "status_known (str_at (st_redis (hs_stores w1)) (he_now H') (userStatusCachePrefix @ jc_Uuid c))"
  shows "\<exists>rp w2. serve H' q' w1 = Some (Inr rp, w2) \<and> rp_file rp = Some (he_filePath H @ ''/'' @ ur_Name up)"
proof -
  have h: "map_of routes (hq_method q, hq_path q) = Some (Authenticated, v1_UploadFile :: ('d, 'r) handler)"
    by (simp add: assms(2,3) upload_route)
  have h': "map_of routes (hq_method q', hq_path q') = Some (Authenticated, v1_DownloadFile :: ('d, 'r) handler)"
    by (simp add: assms(12,13) download_route)
  have up: "stored_upload H rows (jc_Uuid c) (ur_Name up) w (hs_db w1) (hs_disk w1)"
  proof (rule served [OF assms(1) h insertI1 assms(4)], goal_cases)
    case (1 rp)
    with assms(5,6) show ?case by (auto simp: door_refusal_def refusal_def json_reply_def)
  next
    case (2 u v hr v2)
    from wpD [OF UploadFile_stored [OF assms(1)] 2(3)] 2 assms(5,6,15) show ?case
      by (auto simp: admissible_def stored_upload_def at_the_door_rows split: sum.splits)
  qed
  then obtain f where f: "rows (hs_db w1) = rows (hs_db w) @ [RFile f]" "fm_deleted_at f = None" "fm_server_name f = ur_Name up"
      "fm_uploader_uuid f = jc_Uuid c" and disk: "he_filePath H @ ''/'' @ ur_Name up \<in> set (hs_disk w1)"
      and n: "legal_name (ur_Name up)"
    using upload_name assms(8) unfolding stored_upload_def by metis
  have "wp (serve H' q') (\<lambda>rp w'. rp_file rp = Some (he_filePath H' @ ''/'' @ Query q' ''name'')) (\<lambda>_ _. False) w1"
    by (rule wp_serve [OF assms(9,10,16) _ _ h'], (use assms(17,18,19) in simp_all),
        rule wp_mono [OF DownloadFile_sends [OF assms(9,10), of _ _ f]])
       (use assms(7,11,14) f n disk in \<open>auto dest!: at_the_door_rows\<close>)
  then show ?thesis using assms(11,14) by (auto elim: wpE)
qed

text \<open>U1 uploads a text file and fetches it.\<close>

definition demo_upload :: http_request where
  "demo_upload = (demo_post ''/message/uploadFile'' [])\<lparr>hq_form :=
     Some [Some \<lparr>up_Filename = ''a.txt'', up_Size = 1, up_ContentType = ''text/plain'', up_Head = ''x''\<rparr>]\<rparr>"

lemma demo_upload_simps [simp]: "hq_method demo_upload = ''POST''" "hq_path demo_upload = ''/message/uploadFile''"
  "token_of (demo_http a) demo_upload = Some ((demo_claims ''U1'' 7)\<lparr>jc_IsAdmin := a\<rparr>)" "hq_auth demo_upload = ''Bearer T''"
  "hq_form demo_upload = Some [Some \<lparr>up_Filename = ''a.txt'', up_Size = 1, up_ContentType = ''text/plain'', up_Head = ''x''\<rparr>]"
  by (simp_all add: demo_upload_def demo_post_def token_of_def presented_token_def demo_http_def demo_admin_crypto_def ParseToken_def)

lemma demo_upload_ext: "path_ext ''a.txt'' = ''.txt''" "to_lower ''.txt'' = ''.txt''"
  by (simp_all add: path_ext_def to_lower_def to_lower_char_def)

lemma demo_upload_run:
  "\<exists>w1 f. serve (demo_http 0) demo_upload (demo_state demo) =
     Some (Inr (json_reply 200 [\<lparr>bd_code = 200, bd_message = Msg ''uploaded'',
       bd_data = Some (PUpload \<lparr>ur_Name = ''file_'' @ itoa 5 @ ''.txt'', ur_URL = ''/file/download?name=file_'' @ itoa 5 @ ''.txt''\<rparr>)\<rparr>]), w1) \<and>
     md_rows (hs_db w1) = demo_rows @ [RFile f] \<and> status_known (mem_str (st_redis (hs_stores w1)) 5 (userStatusCachePrefix @ ''U1''))"
  by (simp add: upload_route v1_UploadFile_def uploaded_def UploadFile_def check_file_def maxFileSize_def allowedFileTypes_def blocked_exts_def
      demo_upload_ext store_upload_def file_meta_def serve_run_defs run_defs demo_defs Query_def userStatusCachePrefix_def put_def status_known_def mem_str_def)

theorem upload_can_be_fetched_witness:
  "\<exists>r w1 rp w2. serve (demo_http 0) demo_upload (demo_state demo) = Some (r, w1) \<and>
     serve (demo_http 0) (demo_get ''/file/download'' [(''name'', ''file_'' @ itoa 5 @ ''.txt'')]) w1 = Some (Inr rp, w2) \<and>
     rp_file rp = Some (''files/file_'' @ itoa 5 @ ''.txt'')"
proof -
  let ?n = "''file_'' @ itoa 5 @ ''.txt''"
  let ?up = "\<lparr>ur_Name = ?n, ur_URL = ''/file/download?name='' @ ?n\<rparr>"
  let ?b = "\<lparr>bd_code = 200, bd_message = Msg ''uploaded'', bd_data = Some (PUpload ?up)\<rparr>"
  let ?q = "demo_get ''/file/download'' [(''name'', ?n)]"
  obtain w1 f where run: "serve (demo_http 0) demo_upload (demo_state demo) = Some (Inr (json_reply 200 [?b]), w1)"
      and rows: "md_rows (hs_db w1) = demo_rows @ [RFile f]"
      and known: "status_known (mem_str (st_redis (hs_stores w1)) 5 (userStatusCachePrefix @ ''U1''))"
    using demo_upload_run by auto
  have act: "active_user (md_rows (hs_db w1)) ''U1''"
    unfolding rows by (rule active_demo) (simp add: demo_rows_def)
  have bs: "CHR 0x5C \<notin> set ?n" by (auto dest!: itoa_chars simp: is_digit_def)
  have "\<exists>rp w2. serve (demo_http 0) ?q w1 = Some (Inr rp, w2) \<and> rp_file rp = Some (he_filePath (demo_http 0) @ ''/'' @ ur_Name ?up)"
    by (rule upload_can_be_fetched [OF demo_backend _ _ run, where b = ?b and
        c = "(demo_claims ''U1'' 7)\<lparr>jc_IsAdmin := 0\<rparr>" and c' = "(demo_claims ''U1'' 7)\<lparr>jc_IsAdmin := 0\<rparr>"])
       (use act known bs in \<open>simp_all add: reads_ok_mem json_reply_def demo_backend [simplified] demo_def demo_rows_def\<close>)
  with run show ?thesis by (simp; blast)
qed

end
