(* ===== verification/Connection_Safety.thy ===== *)
theory Connection_Safety
  imports Http_Safety Account_Safety
begin

text \<open>
  Connections and the HTTP interface: a connection belongs to the user of the token it was opened with, and
  is closed when an administrator disables the user.
\<close>

section \<open>Closing\<close>

definition asked_to_close :: "nat \<Rightarrow> ('d, 'r) http_state \<Rightarrow> bool" where
  "asked_to_close p w \<longleftrightarrow> cl_done (ch_heap (hs_chat w) ! p) \<and> p \<in> set (hs_Logout w)"

lemma nth_update: "j < length xs \<Longrightarrow> xs[i := y] ! j = (if i = j then y else xs ! j)"
  by (cases "i = j") auto

lemma logout_of_wp:
  "wp (logout_of u) (\<lambda>_ w'. ch_Clients (hs_chat w') = ch_Clients (hs_chat w) \<and>
     length (ch_heap (hs_chat w')) = length (ch_heap (hs_chat w)) \<and>
     (\<forall>p. p < length (ch_heap (hs_chat w)) \<longrightarrow> asked_to_close p w \<or> client_of (hs_chat w) u = Some p \<longrightarrow> asked_to_close p w')) X w"
  unfolding logout_of_def ClientLogout_def Close_def
  by (auto simp: wp_simps at_client_def asked_to_close_def nth_update split: option.split)

lemma run_logouts_close:
  "wp run_logouts (\<lambda>_ w'. \<forall>u p. u \<in> set (st_logouts (hs_stores w)) \<longrightarrow> client_of (hs_chat w) u = Some p \<longrightarrow>
     p < length (ch_heap (hs_chat w)) \<longrightarrow> asked_to_close p w') X w"
proof -
  let ?I = "\<lambda>us w'. ch_Clients (hs_chat w') = ch_Clients (hs_chat w) \<and>
     length (ch_heap (hs_chat w')) = length (ch_heap (hs_chat w)) \<and>
     (\<forall>u p. u \<in> set us \<longrightarrow> client_of (hs_chat w) u = Some p \<longrightarrow> p < length (ch_heap (hs_chat w)) \<longrightarrow> asked_to_close p w')"
  have loop: "wp (for_each us logout_of) (\<lambda>_. ?I us) X w" for us
    by (rule wp_for_each_upto [where I = ?I], rule wp_mono [OF logout_of_wp]) (auto simp: client_of_def)
  show ?thesis
    unfolding run_logouts_def wp_bnd wp_gets
    by (rule wp_mono [OF loop]) (auto simp: wp_simps put_stores_def asked_to_close_def)
qed

lemma disable_route: "map_of routes (''POST'', ''/user/disableUsers'') = Some (Administrator, v1_DisableUsers)"
  by (simp add: routes_def public_routes_def auth_routes_def admin_routes_def)

text \<open>C20. Disabling a user ends the connection: when a request to disable users is answered with code 200, it was
  an administrator's, and the connected client of every listed live user has been closed and waits in the
  channel \<open>Logout\<close>, in the same request.\<close>

theorem disable_closes_connection:
  fixes H :: "('d, 'r) http_env"
  assumes "backend (he_env H) rows str_at set_at pages" and "deletes_ok (he_env H)"
    and "unique_rows (rows (hs_db w))" and "ids_ok (rows (hs_db w))"
    and "hq_method q = ''POST''" and "hq_path q = ''/user/disableUsers''"
    and "serve H q w = Some (r, w')" and "rp_bodies (reply_of r) = [b]" and "bd_code b = 200"
    and "RUser u \<in> set (rows (hs_db w))" and "ui_deleted_at u = 0"
    and "ui_uuid u \<in> set (ab_UuidList (fst (bind_json able_users_fields (hq_body q) zero_able_users)))"
    and "client_of (hs_chat w) (ui_uuid u) = Some p" and "p < length (ch_heap (hs_chat w))"
  shows "(\<exists>c. token_of H q = Some c \<and> jc_IsAdmin c = 1) \<and> asked_to_close p w'"
proof -
  have h: "map_of routes (hq_method q, hq_path q) = Some (Administrator, v1_DisableUsers :: ('d, 'r) handler)"
    by (simp add: assms(5,6) disable_route)
  have a: "Administrator \<in> {Authenticated, Administrator}" by simp
  show ?thesis
  proof (rule served [OF assms(1) h a assms(7)], goal_cases)
    case (1 rp)
    with assms(8,9) show ?case by (auto simp: door_refusal_def refusal_def json_reply_def)
  next
    case (2 v w1 hr w2)
    let ?us = "ab_UuidList (fst (bind_json able_users_fields (hq_body q) zero_able_users))"
    from 2(2) obtain s where s: "w1 = put_stores s w" "rows (st_db s) = rows (hs_db w)" by (auto simp: at_the_door_def)
    have ok: "backend.rows_ok rows s" using assms(3,4) s by (simp add: backend.rows_ok_def [OF assms(1)])
    have "rp_bodies (reply_of hr) = [b]" using 2(5) assms(8) by simp
    with 2(3) assms(9) have "plain (DisableUsers (he_env H) ?us) w1 = Some (hr, w2)"
      by (auto simp: v1_DisableUsers_def bound_def throw_def bind_failed_def json_reply_def split: prod.splits if_splits)
    from plain_Some [OF this] obtain a s' where run: "DisableUsers (he_env H) ?us s = Some (a, s')" "w2 = put_stores s' w"
        and hr: "hr = Inr (plain_reply_of a)"
      by (auto simp: s)
    from wpD [OF backend.DisableUsers_wp [OF assms(1,2) ok, of ?us] run(1)] plain_reply_200 [of a b] hr \<open>rp_bodies (reply_of hr) = [b]\<close> assms(9)
    have "backend.locked_out (he_env H) rows str_at u s'"
      using assms(10-12) s(2) by (auto split: sum.splits)
    then have "ui_uuid u \<in> set (st_logouts (hs_stores w2))" by (simp add: run backend.locked_out_def [OF assms(1)])
    with wpD [OF run_logouts_close [where X = "\<lambda>_ _. False"] 2(7)] assms(13,14)
    have "asked_to_close p w'" by (auto simp: run put_stores_def client_of_def)
    with 2(1) show ?case by (auto simp: admissible_def)
  qed
qed

definition new_client :: "uuid \<Rightarrow> Client" where
  "new_client u = \<lparr>cl_Uuid = u, cl_SendBack = make_chan clientDeliveryQueueSize, cl_done = False, cl_written = []\<rparr>"

text \<open>U2 is connected.\<close>

definition demo_online :: "(mem_db, mem_redis) http_state" where
  "demo_online = (demo_state demo)\<lparr>hs_chat := (NewMessageProcessor demo)\<lparr>ch_heap := [new_client ''U2''], ch_Clients := [(''U2'', 0)]\<rparr>\<rparr>"

lemma bind_disable:
  "bind_json able_users_fields (hq_body (demo_post path [(''uuid_list'', JArr [JStr ''U2''])])) zero_able_users =
    (\<lparr>ab_UuidList = [''U2''], ab_IsAdmin = 0\<rparr>, False)"
  by (subst bind_demo) (simp_all add: able_users_fields_def find_field_def)

lemma demo_unique: "unique_rows (md_rows (hs_db demo_online))" "ids_ok (md_rows (hs_db demo_online))"
  by (simp_all add: demo_online_def NewMessageProcessor_def demo_defs unique_rows_def conflict_def ids_ok_def)

theorem disable_closes_connection_witness:
  "\<exists>r w'. serve (demo_http 1) (demo_post ''/user/disableUsers'' [(''uuid_list'', JArr [JStr ''U2''])]) demo_online = Some (r, w') \<and> asked_to_close 0 w'"
proof -
  let ?q = "demo_post ''/user/disableUsers'' [(''uuid_list'', JArr [JStr ''U2''])]"
  have "\<exists>w'. serve (demo_http 1) ?q demo_online = Some (Inr (json_reply 200 [plain_body 200 (Msg ''disabled'')]), w')"
    by (simp add: disable_route v1_DisableUsers_def bind_disable DisableUsers_def disable_user_def ask_logout_def InvalidateUserStatusCache_def delete_each_def
        logout_of_def ClientLogout_def Close_def client_of_def demo_online_def serve_run_defs run_defs demo_defs AdminMiddleware_def userStatusCachePrefix_def session_with_def)
  then obtain r w' where r: "serve (demo_http 1) ?q demo_online = Some (r, w')" "rp_bodies (reply_of r) = [plain_body 200 (Msg ''disabled'')]"
    by (force simp: json_reply_def)
  have "asked_to_close 0 w'"
    by (rule disable_closes_connection [OF demo_backend _ demo_unique _ _ r, where u = "demo_user 2 ''U2''", THEN conjunct2])
       (simp_all add: deletes_ok_mem bind_disable, simp_all add: demo_online_def demo_defs NewMessageProcessor_def client_of_def)
  with r show ?thesis by blast
qed

section \<open>Opening\<close>

lemma ws_route: "map_of routes (''GET'', ''/wss'') = Some (Open, v1_WsLogin)"
  by (simp add: routes_def public_routes_def)

text \<open>The chat process and its channels before a request to \<open>/wss\<close> and after it.\<close>

definition opened :: "http_request \<Rightarrow> ('d, 'r) http_env \<Rightarrow> ('d \<Rightarrow> row list) \<Rightarrow> ('r \<Rightarrow> time \<Rightarrow> string \<Rightarrow> string option) \<Rightarrow>
    ('d, 'r) http_state \<Rightarrow> ('d, 'r) http_state \<Rightarrow> bool" where
  "opened q H rows str_at w w' \<longleftrightarrow>
     (\<exists>c. ws_token q \<noteq> [] \<and> ParseToken (he_crypto H) (he_secret H) (ws_token q) (he_now H) = Some c \<and>
       normal_user (str_at (st_redis (hs_stores w)) (he_now H) (userStatusCachePrefix @ jc_Uuid c)) (rows (hs_db w)) (jc_Uuid c) \<and>
       ch_heap (hs_chat w') = ch_heap (hs_chat w) @ [new_client (jc_Uuid c)] \<and>
       hs_Login w' = hs_Login w @ [length (ch_heap (hs_chat w))])"

definition not_opened :: "('d, 'r) http_state \<Rightarrow> ('d, 'r) http_state \<Rightarrow> bool" where
  "not_opened w w' \<longleftrightarrow> ch_heap (hs_chat w') = ch_heap (hs_chat w) \<and> hs_Login w' = hs_Login w"

lemma WsLogin_wp:
  assumes "backend (he_env H) rows str_at set_at pages"
  shows "wp (v1_WsLogin H q x)
    (\<lambda>rp w'. st_logouts (hs_stores w') = st_logouts (hs_stores w) \<and>
       (if rp_status rp = 101 \<and> he_refuse H = None then opened q H rows str_at w w' else not_opened w w'))
    (\<lambda>rp w'. st_logouts (hs_stores w') = st_logouts (hs_stores w) \<and> rp_status rp = 200 \<and> not_opened w w') w"
proof (cases "ParseToken (he_crypto H) (he_secret H) (ws_token q) (he_now H)")
  case None
  then show ?thesis
    by (auto simp: v1_WsLogin_def Let_def wp_simps not_opened_def json_reply_def)
next
  case (Some c)
  have "wp (in_stores (CheckUserActive (he_env H) (jc_Uuid c)))
      (\<lambda>(ok, _) w1. (\<exists>s. w1 = put_stores s w \<and> st_logouts s = st_logouts (hs_stores w)) \<and>
        (ok \<longrightarrow> normal_user (str_at (st_redis (hs_stores w)) (he_now H) (userStatusCachePrefix @ jc_Uuid c)) (rows (hs_db w)) (jc_Uuid c)))
      (\<lambda>_ _. False) w"
    unfolding wp_simps
    by (rule wp_mono [OF backend.CheckUserActive_let_in [OF assms, where X = "\<lambda>_ _. False"]])
       (auto simp: backend.let_in_def [OF assms])
  note check = wp_mono [OF this]
  show ?thesis
    unfolding v1_WsLogin_def Let_def wp_bnd Some option.case
    by (auto simp: wp_guard not_opened_def json_reply_def intro!: check)
       (auto simp: wp_simps NewClientInit_def not_opened_def json_reply_def opened_def Some new_client_def put_stores_def split: option.split)
qed

text \<open>C19. A connection belongs to the user of its token: a request to \<open>/wss\<close> either opens nothing, or it presents
  a valid token of a user who is normal by the cache or by the database, and the one new client, which
  waits in the channel \<open>Login\<close>, carries the uuid of the token. What else the request says of its user,
  the parameter \<open>client_id\<close> of old clients, plays no part.\<close>

theorem connection_of_token:
  fixes H :: "('d, 'r) http_env"
  assumes "backend (he_env H) rows str_at set_at pages" and "hq_method q = ''GET''" and "hq_path q = ''/wss''"
    and "st_logouts (hs_stores w) = []" and "serve H q w = Some (r, w')"
  shows "if rp_status (reply_of r) = 101 \<and> he_refuse H = None then opened q H rows str_at w w' else not_opened w w'"
proof -
  have "serve H q = attempt (v1_WsLogin H q []) (\<lambda>r. bnd run_logouts (\<lambda>_. ret (reply_of r)))"
    by (simp add: serve_def assms(2,3) ws_route admitted_def)
  with assms(5) obtain hr v where v: "v1_WsLogin H q [] w = Some (hr, v)"
      and l: "bnd run_logouts (\<lambda>_. ret (reply_of hr)) v = Some (r, w')"
    by (auto simp: attempt_Some)
  from wpD [OF WsLogin_wp [OF assms(1)] v] assms(4)
  have "st_logouts (hs_stores v) = []"
      and q: "if rp_status (reply_of hr) = 101 \<and> he_refuse H = None then opened q H rows str_at w v else not_opened w v"
    by (auto split: sum.splits)
  then have "run_logouts v = Some (Inr () :: http_reply + unit, put_stores ((hs_stores v)\<lparr>st_logouts := []\<rparr>) v)"
    by (simp add: run_logouts_def bnd_def gets_def ret_def in_stores_def in_chat_def stored_def modify_def put_stores_def)
  with l have "w' = put_stores ((hs_stores v)\<lparr>st_logouts := []\<rparr>) v" "r = Inr (reply_of hr)"
    by (auto simp: bnd_def ret_def)
  with q show ?thesis by (auto simp: opened_def not_opened_def put_stores_def)
qed

theorem connection_of_token_witness:
  "\<exists>r w'. serve (demo_http 0) (demo_get ''/wss'' [(''token'', ''T''), (''client_id'', ''U2'')]) (demo_state demo) = Some (r, w') \<and>
     ch_heap (hs_chat w') = [new_client ''U1''] \<and> hs_Login w' = [0]"
proof -
  let ?q = "demo_get ''/wss'' [(''token'', ''T''), (''client_id'', ''U2'')]"
  have "\<exists>w'. serve (demo_http 0) ?q (demo_state demo) = Some (Inr (json_reply 101 []), w')"
    by (simp add: ws_route v1_WsLogin_def ws_token_def NewClientInit_def serve_run_defs run_defs demo_defs)
  then obtain r w' where r: "serve (demo_http 0) ?q (demo_state demo) = Some (r, w')" "rp_status (reply_of r) = 101"
    by (force simp: json_reply_def)
  have "opened ?q (demo_http 0) md_rows mem_str (demo_state demo) w'"
    using connection_of_token [OF demo_backend _ _ _ r(1)] r(2) by (simp add: demo_def)
  with r show ?thesis
    by (auto simp: opened_def ws_token_def demo_http_def demo_admin_crypto_def ParseToken_def demo_state_def NewMessageProcessor_def)
qed

end
