(* ===== verification/Config.thy ===== *)
theory Config
  imports Hybrid_Router
begin

text \<open>
  \<open>internal/config\<close>: the configuration, read from a TOML file, overridden by environment variables and
  completed by defaults. The decoder of the TOML library, the files that exist and the environment are
  arguments.
\<close>

section \<open>The configuration\<close>

record MainConfig =
  mc_AppName :: string
  mc_Host :: string
  mc_Port :: int

record MysqlConfig =
  my_Host :: string
  my_Port :: int
  my_User :: string
  my_Password :: string
  my_DatabaseName :: string
  my_MaxOpenConns :: int
  my_MaxIdleConns :: int
  my_ConnMaxLifetimeSeconds :: int

record RedisConfig =
  rd_Host :: string
  rd_Port :: int
  rd_Password :: string
  rd_Db :: int

record EmailConfig =
  em_Host :: string
  em_Port :: int
  em_Username :: string
  em_Password :: string
  em_From :: string

record KafkaConfig =
  ka_MessageMode :: string
  ka_HostPort :: string
  ka_LoginTopic :: string
  ka_LogoutTopic :: string
  ka_ChatTopic :: string
  ka_GroupID :: string
  ka_AllowAutoTopicCreation :: bool
  ka_Partition :: int
  ka_Timeout :: time
  ka_DLQTopic :: string
  ka_MaxProcessRetries :: int

record StaticSrcConfig =
  ss_StaticAvatarPath :: string
  ss_StaticFilePath :: string

record ClusterConfig =
  cl_Enabled :: bool
  cl_InstanceID :: string
  cl_PresenceTTLSeconds :: int
  cl_HeartbeatSeconds :: int
  cl_StreamMaxLen :: int
  cl_SessionAffinity :: bool

record Config =
  co_Main :: MainConfig
  co_Mysql :: MysqlConfig
  co_Redis :: RedisConfig
  co_Email :: EmailConfig
  co_LogPath :: string
  co_Kafka :: KafkaConfig
  co_StaticSrc :: StaticSrcConfig
  co_Cluster :: ClusterConfig

definition zero_config :: Config where
  "zero_config =
     \<lparr>co_Main = \<lparr>mc_AppName = [], mc_Host = [], mc_Port = 0\<rparr>,
      co_Mysql = \<lparr>my_Host = [], my_Port = 0, my_User = [], my_Password = [], my_DatabaseName = [], my_MaxOpenConns = 0,
        my_MaxIdleConns = 0, my_ConnMaxLifetimeSeconds = 0\<rparr>,
      co_Redis = \<lparr>rd_Host = [], rd_Port = 0, rd_Password = [], rd_Db = 0\<rparr>,
      co_Email = \<lparr>em_Host = [], em_Port = 0, em_Username = [], em_Password = [], em_From = []\<rparr>,
      co_LogPath = [],
      co_Kafka = \<lparr>ka_MessageMode = [], ka_HostPort = [], ka_LoginTopic = [], ka_LogoutTopic = [], ka_ChatTopic = [],
        ka_GroupID = [], ka_AllowAutoTopicCreation = False, ka_Partition = 0, ka_Timeout = 0, ka_DLQTopic = [],
        ka_MaxProcessRetries = 0\<rparr>,
      co_StaticSrc = \<lparr>ss_StaticAvatarPath = [], ss_StaticFilePath = []\<rparr>,
      co_Cluster = \<lparr>cl_Enabled = False, cl_InstanceID = [], cl_PresenceTTLSeconds = 0, cl_HeartbeatSeconds = 0,
        cl_StreamMaxLen = 0, cl_SessionAffinity = False\<rparr>\<rparr>"

section \<open>Loading\<close>

text \<open>\<open>fl_exists\<close>: \<open>os.Stat\<close> finds the file; \<open>fl_decode\<close>: \<open>toml.DecodeFile\<close> into a configuration, \<open>None\<close> for
  an error, which ends the process; \<open>fl_getenv\<close>: \<open>os.Getenv\<close>, empty for an unset variable.\<close>

record config_source =
  fl_exists :: "string \<Rightarrow> bool"
  fl_decode :: "string \<Rightarrow> Config \<Rightarrow> Config option"
  fl_getenv :: "string \<Rightarrow> string"

definition config_candidates :: "string list" where
  "config_candidates =
     [''./configs/config.toml'', ''../configs/config.toml'', ''../../configs/config.toml'', ''../../../configs/config.toml'',
      ''../../../../configs/config.toml'', ''../../../../../configs/config.toml'']"

definition config_path :: "config_source \<Rightarrow> string" where
  "config_path S =
     (if fl_getenv S ''KAMA_CONFIG_PATH'' \<noteq> [] then fl_getenv S ''KAMA_CONFIG_PATH''
      else case List.find (fl_exists S) config_candidates of Some c \<Rightarrow> c | None \<Rightarrow> ''./configs/config.toml'')"

text \<open>\<open>strconv.ParseBool\<close>\<close>

definition parse_bool :: "string \<Rightarrow> bool option" where
  "parse_bool s =
     (if s \<in> {''1'', ''t'', ''T'', ''true'', ''TRUE'', ''True''} then Some True
      else if s \<in> {''0'', ''f'', ''F'', ''false'', ''FALSE'', ''False''} then Some False
      else None)"

text \<open>A variable that is set to a value that parses overrides the field; another value is ignored.\<close>

definition override :: "config_source \<Rightarrow> string \<Rightarrow> (string \<Rightarrow> 'a option) \<Rightarrow> ('a \<Rightarrow> 'c \<Rightarrow> 'c) \<Rightarrow> 'c \<Rightarrow> 'c" where
  "override S name parse upd c =
     (let v = fl_getenv S name in if v = [] then c else case parse v of None \<Rightarrow> c | Some x \<Rightarrow> upd x c)"

abbreviation over_str where "over_str S name upd \<equiv> override S name Some upd"
abbreviation over_int where "over_int S name upd \<equiv> override S name (parse_int 64) upd"
abbreviation over_bool where "over_bool S name upd \<equiv> override S name parse_bool upd"

definition mysql_env :: "config_source \<Rightarrow> MysqlConfig \<Rightarrow> MysqlConfig" where
  "mysql_env S =
     over_str S ''KAMA_MYSQL_DB'' (\<lambda>v c. c\<lparr>my_DatabaseName := v\<rparr>) \<circ>
     over_str S ''KAMA_MYSQL_PASSWORD'' (\<lambda>v c. c\<lparr>my_Password := v\<rparr>) \<circ>
     over_str S ''KAMA_MYSQL_USER'' (\<lambda>v c. c\<lparr>my_User := v\<rparr>) \<circ>
     over_int S ''KAMA_MYSQL_PORT'' (\<lambda>v c. c\<lparr>my_Port := v\<rparr>) \<circ>
     over_str S ''KAMA_MYSQL_HOST'' (\<lambda>v c. c\<lparr>my_Host := v\<rparr>)"

definition redis_env :: "config_source \<Rightarrow> RedisConfig \<Rightarrow> RedisConfig" where
  "redis_env S =
     over_str S ''KAMA_REDIS_PASSWORD'' (\<lambda>v c. c\<lparr>rd_Password := v\<rparr>) \<circ>
     over_int S ''KAMA_REDIS_PORT'' (\<lambda>v c. c\<lparr>rd_Port := v\<rparr>) \<circ>
     over_str S ''KAMA_REDIS_HOST'' (\<lambda>v c. c\<lparr>rd_Host := v\<rparr>)"

definition kafka_env :: "config_source \<Rightarrow> KafkaConfig \<Rightarrow> KafkaConfig" where
  "kafka_env S =
     over_int S ''KAMA_KAFKA_MAX_PROCESS_RETRIES'' (\<lambda>v c. c\<lparr>ka_MaxProcessRetries := v\<rparr>) \<circ>
     over_str S ''KAMA_KAFKA_DLQ_TOPIC'' (\<lambda>v c. c\<lparr>ka_DLQTopic := v\<rparr>) \<circ>
     over_str S ''KAMA_KAFKA_MESSAGE_MODE'' (\<lambda>v c. c\<lparr>ka_MessageMode := v\<rparr>) \<circ>
     over_str S ''KAMA_KAFKA_GROUP_ID'' (\<lambda>v c. c\<lparr>ka_GroupID := v\<rparr>) \<circ>
     over_str S ''KAMA_KAFKA_CHAT_TOPIC'' (\<lambda>v c. c\<lparr>ka_ChatTopic := v\<rparr>) \<circ>
     over_str S ''KAMA_KAFKA_BROKER'' (\<lambda>v c. c\<lparr>ka_HostPort := v\<rparr>)"

definition kafka_defaults :: "KafkaConfig \<Rightarrow> KafkaConfig" where
  "kafka_defaults c =
     (let c1 = (if ka_DLQTopic c = [] then c\<lparr>ka_DLQTopic := ''chat_message_dlq''\<rparr> else c)
      in if ka_MaxProcessRetries c1 \<le> 0 then c1\<lparr>ka_MaxProcessRetries := 5\<rparr> else c1)"

definition main_env :: "config_source \<Rightarrow> MainConfig \<Rightarrow> MainConfig" where
  "main_env S = over_str S ''KAMA_MAIN_HOST'' (\<lambda>v c. c\<lparr>mc_Host := v\<rparr>)"

definition cluster_env :: "config_source \<Rightarrow> ClusterConfig \<Rightarrow> ClusterConfig" where
  "cluster_env S =
     over_bool S ''KAMA_SESSION_AFFINITY'' (\<lambda>v c. c\<lparr>cl_SessionAffinity := v\<rparr>) \<circ>
     over_str S ''KAMA_INSTANCE_ID'' (\<lambda>v c. c\<lparr>cl_InstanceID := v\<rparr>) \<circ>
     over_bool S ''KAMA_CLUSTER_ENABLED'' (\<lambda>v c. c\<lparr>cl_Enabled := v\<rparr>)"

definition cluster_defaults :: "ClusterConfig \<Rightarrow> ClusterConfig" where
  "cluster_defaults c =
     (let c1 = (if cl_PresenceTTLSeconds c \<le> 0 then c\<lparr>cl_PresenceTTLSeconds := 60\<rparr> else c);
          c2 = (if cl_HeartbeatSeconds c1 \<le> 0 then c1\<lparr>cl_HeartbeatSeconds := 20\<rparr> else c1)
      in if cl_StreamMaxLen c2 \<le> 0 then c2\<lparr>cl_StreamMaxLen := 10000\<rparr> else c2)"

text \<open>\<open>LoadConfig\<close> into the configuration that is there.\<close>

definition LoadConfig :: "config_source \<Rightarrow> Config option \<Rightarrow> Config option" where
  "LoadConfig S config =
     (let config = (case config of None \<Rightarrow> zero_config | Some c \<Rightarrow> c) in
      case fl_decode S (config_path S) config of
        None \<Rightarrow> None
      | Some c \<Rightarrow> Some (c\<lparr>
          co_Mysql := mysql_env S (co_Mysql c), co_Redis := redis_env S (co_Redis c),
          co_Kafka := kafka_defaults (kafka_env S (co_Kafka c)), co_Main := main_env S (co_Main c),
          co_Cluster := cluster_defaults (cluster_env S (co_Cluster c))\<rparr>))"

text \<open>\<open>GetConfig\<close>: loaded at the first use.\<close>

definition GetConfig :: "config_source \<Rightarrow> Config option \<Rightarrow> Config option" where
  "GetConfig S config = (case config of None \<Rightarrow> LoadConfig S (Some zero_config) | Some c \<Rightarrow> Some c)"

end
