(* ===== verification/Startup.thy ===== *)
theory Startup
  imports Config Chat_Servers Auth Chat_Memory
begin

text \<open>
  \<open>cmd/kama_chat_server/main.go\<close>: what starts with the process, in which order it is closed, and which of the
  three chat servers the connections use (the choices by \<open>messageMode\<close> in \<open>client.go\<close>). With the settings of
  \<open>kafka_service.go\<close>. The main loop of the channel server after its \<open>Close\<close> is a step relation.
\<close>

section \<open>Kafka's settings\<close>

text \<open>\<open>time.Duration(n) * time.Second\<close>, in 64 bits\<close>

definition seconds :: "int \<Rightarrow> time" where
  "seconds n = sint (word_of_int (n * second) :: 64 word)"

record kafka_writer =
  kw_Addr :: string
  kw_Topic :: string
  kw_WriteTimeout :: time
  kw_AllowAutoTopicCreation :: bool

record kafka_reader =
  kr_Broker :: string
  kr_Topic :: string
  kr_CommitInterval :: time
  kr_GroupID :: string

record kafka_service =
  ks_ChatWriter :: kafka_writer
  ks_ChatReader :: kafka_reader
  ks_ChatDLQWriter :: "kafka_writer option"

definition KafkaInit :: "KafkaConfig \<Rightarrow> kafka_service" where
  "KafkaInit c =
     (let groupID = (if ka_GroupID c = [] then ''chat'' else ka_GroupID c);
          writer = (\<lambda>topic. \<lparr>kw_Addr = ka_HostPort c, kw_Topic = topic, kw_WriteTimeout = seconds (ka_Timeout c),
            kw_AllowAutoTopicCreation = ka_AllowAutoTopicCreation c\<rparr>)
      in \<lparr>ks_ChatWriter = writer (ka_ChatTopic c),
          ks_ChatReader = \<lparr>kr_Broker = ka_HostPort c, kr_Topic = ka_ChatTopic c, kr_CommitInterval = 0, kr_GroupID = groupID\<rparr>,
          ks_ChatDLQWriter = (if ka_DLQTopic c \<noteq> [] then Some (writer (ka_DLQTopic c)) else None)\<rparr>)"

text \<open>The topics that \<open>CreateTopic\<close> asks a broker for, when it can be reached, with their numbers of partitions.\<close>

definition CreateTopic :: "KafkaConfig \<Rightarrow> (string \<times> int) list" where
  "CreateTopic c =
     (if ka_ChatTopic c = [] then []
      else (ka_ChatTopic c, if ka_Partition c < 1 then 3 else ka_Partition c) #
           (if ka_DLQTopic c \<noteq> [] \<and> ka_DLQTopic c \<noteq> ka_ChatTopic c then [(ka_DLQTopic c, 1)] else []))"

text \<open>\<open>KafkaClose\<close> closes the writer, the reader and, when there is one, the writer of the dead letters, whatever errors
  the others give: the topics in this order.\<close>

definition KafkaClose :: "kafka_service \<Rightarrow> string list" where
  "KafkaClose k =
     [kw_Topic (ks_ChatWriter k), kr_Topic (ks_ChatReader k)] @
     (case ks_ChatDLQWriter k of None \<Rightarrow> [] | Some w \<Rightarrow> [kw_Topic w])"

text \<open>What the consumer of the hybrid router reads of the configuration.\<close>

definition router_config :: "KafkaConfig \<Rightarrow> kafka_config" where
  "router_config c = \<lparr>kc_DLQTopic = ka_DLQTopic c, kc_MaxProcessRetries = ka_MaxProcessRetries c\<rparr>"

section \<open>The database's connection\<close>

text \<open>\<open>InitDB\<close> of \<open>dao/gorm.go\<close>: the data source and the limits that are set on the pool. The arguments say whether the
  driver opens the source, has a pool, and migrates the tables.\<close>

record db_pool =
  dp_dsn :: string
  dp_MaxOpenConns :: "int option"
  dp_MaxIdleConns :: "int option"
  dp_ConnMaxLifetime :: "time option"

definition InitDB :: "(string \<Rightarrow> bool) \<Rightarrow> bool \<Rightarrow> bool \<Rightarrow> MysqlConfig \<Rightarrow> db_pool option" where
  "InitDB opens hasPool migrates c =
     (let dsn = my_User c @ '':'' @ my_Password c @ ''@tcp('' @ my_Host c @ '':'' @ itoa (my_Port c) @ '')/'' @ my_DatabaseName c @
            ''?charset=utf8mb4&parseTime=True&loc=Local'';
          positive = (\<lambda>n. if 0 < n then Some n else None)
      in if \<not> opens dsn \<or> \<not> hasPool then None
         else
           let pool = \<lparr>dp_dsn = dsn, dp_MaxOpenConns = positive (my_MaxOpenConns c), dp_MaxIdleConns = positive (my_MaxIdleConns c),
             dp_ConnMaxLifetime = map_option seconds (positive (my_ConnMaxLifetimeSeconds c))\<rparr>
           in if migrates then Some pool else None)"

section \<open>The chat servers\<close>

datatype chat_server = ChannelServer | KafkaServer | HybridServer

text \<open>The server that \<open>main\<close> starts, and the one that \<open>NewClientInit\<close>, \<open>ClientLogout\<close> and \<open>Read\<close> use.\<close>

definition started_server :: "string \<Rightarrow> chat_server" where
  "started_server mode =
     (if mode = ''channel'' then ChannelServer
      else if mode = ''kafka'' then KafkaServer
      else if mode = ''hybrid'' then HybridServer
      else ChannelServer)"

definition client_server :: "string \<Rightarrow> chat_server" where
  "client_server mode =
     (if mode = ''channel'' then ChannelServer
      else if mode = ''hybrid'' then HybridServer
      else KafkaServer)"

text \<open>\<open>KafkaService\<close> after the start: \<open>main\<close> initialises it in Kafka mode, \<open>HybridRouter.Start\<close> in hybrid mode.\<close>

definition kafka_ready :: "KafkaConfig \<Rightarrow> kafka_service option" where
  "kafka_ready c = (if ka_MessageMode c \<in> {''kafka'', ''hybrid''} then Some (KafkaInit c) else None)"

section \<open>Starting\<close>

record cluster_start =
  cs_instanceID :: string
  cs_presence :: presence_service
  cs_bus :: InstanceBus
  cs_heartbeat :: time
  cs_affinity :: bool

datatype refusal_to_start = NoSecret | WeakSecret | NoDatabase

record startup =
  su_secret :: string
  su_cluster :: "cluster_start option"
  su_server :: chat_server
  su_kafka :: "kafka_service option"
  su_address :: string

definition cluster_of :: "string \<Rightarrow> Config \<Rightarrow> cluster_start option" where
  "cluster_of hostname conf =
     (let c = co_Cluster conf in
      if \<not> cl_Enabled c \<or> ka_MessageMode (co_Kafka conf) \<noteq> ''hybrid'' then None
      else
        let instanceID = (if cl_InstanceID c = [] then hostname @ '':'' @ itoa (mc_Port (co_Main conf)) else cl_InstanceID c)
        in Some \<lparr>cs_instanceID = instanceID,
             cs_presence = presence_New instanceID (seconds (cl_PresenceTTLSeconds c)),
             cs_bus = NewInstanceBus instanceID (cl_StreamMaxLen c),
             cs_heartbeat = seconds (cl_HeartbeatSeconds c), cs_affinity = cl_SessionAffinity c\<rparr>)"

text \<open>\<open>main\<close> up to the wait for a signal; \<open>dbReady\<close>: \<open>InitDB\<close> has succeeded.\<close>

definition main_start :: "string \<Rightarrow> bool \<Rightarrow> string \<Rightarrow> Config \<Rightarrow> refusal_to_start + startup" where
  "main_start jwtSecret dbReady hostname conf =
     (if jwtSecret = [] then Inl NoSecret
      else case SetSecret jwtSecret of
        None \<Rightarrow> Inl WeakSecret
      | Some secret \<Rightarrow>
          if \<not> dbReady then Inl NoDatabase
          else Inr \<lparr>su_secret = secret, su_cluster = cluster_of hostname conf,
            su_server = started_server (ka_MessageMode (co_Kafka conf)), su_kafka = kafka_ready (co_Kafka conf),
            su_address = mc_Host (co_Main conf) @ '':'' @ itoa (mc_Port (co_Main conf))\<rparr>)"

section \<open>Stopping\<close>

datatype stop_action = CloseKafkaService | CloseServer chat_server | ShutdownBatch

definition main_stop :: "string \<Rightarrow> stop_action list" where
  "main_stop mode =
     (if mode = ''kafka'' then [CloseKafkaService, CloseServer KafkaServer]
      else if mode = ''hybrid'' then [CloseServer HybridServer]
      else [CloseServer ChannelServer]) @ [ShutdownBatch]"

text \<open>The process in channel mode from the signal on: what \<open>main\<close> has still to do, the channels of the clients (of
  pointers, which are nil where they are \<open>None\<close>), whether \<open>Close\<close> has closed the three channels, and how the process has
  ended. A panic that nobody recovers ends it, and so does the end of \<open>main\<close>, whatever the other goroutines do. Requests
  that come after the signal are left out, and with them the mutex of the clients, which nobody else holds then.\<close>

datatype process_end = Crashed | Returned

record ('d, 'r) process =
  pr_server :: "('d, 'r) server"
  pr_Login :: "nat option chan"
  pr_Logout :: "nat option chan"
  pr_closed :: bool
  pr_actions :: "stop_action list"
  pr_end :: "process_end option"

definition crashed :: "('d, 'r) process \<Rightarrow> ('d, 'r) process" where
  "crashed P = P\<lparr>pr_end := Some Crashed\<rparr>"

text \<open>A receive from a channel hands out what is queued first; after that it blocks (\<open>None\<close>), or gives the zero value at
  once when the channel is closed.\<close>

definition receive :: "bool \<Rightarrow> 'a \<Rightarrow> 'a chan \<Rightarrow> ('a \<times> 'a chan) option" where
  "receive closed zero c =
     (case try_recv c of
        Some r \<Rightarrow> Some r
      | None \<Rightarrow> if closed then Some (zero, c) else None)"

text \<open>One round of the \<open>select\<close> of \<open>Start\<close>, by the branch that is taken. The branches of the clients read \<open>client.Uuid\<close> first,
  which panics when the pointer is nil.\<close>

datatype loop_branch = LoginBranch | LogoutBranch | TransmitBranch

definition with_pointer :: "nat option \<Rightarrow> (nat \<Rightarrow> server_branch) \<Rightarrow> ('d, 'r) chat_env \<Rightarrow> ('d, 'r) process \<Rightarrow> ('d, 'r) process option" where
  "with_pointer client branch C P =
     (case client of
        None \<Rightarrow> Some (crashed P)
      | Some p \<Rightarrow> map_option (\<lambda>s. P\<lparr>pr_server := s\<rparr>) (server_round C (branch p) (pr_server P)))"

definition loop_round :: "('d, 'r) chat_env \<Rightarrow> loop_branch \<Rightarrow> ('d, 'r) process \<Rightarrow> ('d, 'r) process option" where
  "loop_round C b P =
     (if pr_end P \<noteq> None then None
      else case b of
        LoginBranch \<Rightarrow>
          (case receive (pr_closed P) None (pr_Login P) of
             None \<Rightarrow> None
           | Some (client, q) \<Rightarrow> with_pointer client ServerLogin C (P\<lparr>pr_Login := q\<rparr>))
      | LogoutBranch \<Rightarrow>
          (case receive (pr_closed P) None (pr_Logout P) of
             None \<Rightarrow> None
           | Some (client, q) \<Rightarrow> with_pointer client ServerLogout C (P\<lparr>pr_Logout := q\<rparr>))
      | TransmitBranch \<Rightarrow>
          (case receive (pr_closed P) [] (sv_Transmit (pr_server P)) of
             None \<Rightarrow> None
           | Some (data, q) \<Rightarrow>
               (case handled C data ((pr_server P)\<lparr>sv_Transmit := q\<rparr>) of
                  None \<Rightarrow> None
                | Some s \<Rightarrow>
                    let P' = P\<lparr>pr_server := s\<rparr>
                    in Some (if sv_running s then P' else crashed P'))))"

text \<open>What \<open>main\<close> does next. The closing of the other servers, and of Kafka, is no step of a process in this mode.\<close>

definition on_chat_of :: "('d, 'r, unit, unit) chat_act \<Rightarrow> ('d, 'r) process \<Rightarrow> ('d, 'r) process option" where
  "on_chat_of m P = map_option (\<lambda>(_, w). P\<lparr>pr_server := (pr_server P)\<lparr>sv_chat := w\<rparr>\<rparr>) (m (sv_chat (pr_server P)))"

definition main_round :: "('d, 'r) chat_env \<Rightarrow> ('d, 'r) process \<Rightarrow> ('d, 'r) process option" where
  "main_round C P =
     (if pr_end P \<noteq> None then None
      else case pr_actions P of
        [] \<Rightarrow> Some (P\<lparr>pr_end := Some Returned\<rparr>)
      | a # as \<Rightarrow>
          let P' = P\<lparr>pr_actions := as\<rparr>
          in (case a of
                CloseServer ChannelServer \<Rightarrow> Some (if pr_closed P then crashed P else P'\<lparr>pr_closed := True\<rparr>)
              | ShutdownBatch \<Rightarrow> on_chat_of (Shutdown C) P'
              | _ \<Rightarrow> None))"

text \<open>The writer's ticker, until \<open>Shutdown\<close> stops it.\<close>

definition ticker_round :: "('d, 'r) chat_env \<Rightarrow> ('d, 'r) process \<Rightarrow> ('d, 'r) process option" where
  "ticker_round C P =
     (let b = ch_batch (sv_chat (pr_server P))
      in if pr_end P \<noteq> None \<or> \<not> bw_started b \<or> bw_closed b then None else on_chat_of (flush C) P)"

inductive loop_step :: "('d, 'r) chat_env \<Rightarrow> ('d, 'r) process \<Rightarrow> ('d, 'r) process \<Rightarrow> bool" for C where
  "loop_round C b P = Some P' \<Longrightarrow> loop_step C P P'"

inductive stop_step :: "('d, 'r) chat_env \<Rightarrow> ('d, 'r) process \<Rightarrow> ('d, 'r) process \<Rightarrow> bool" for C where
  by_loop: "loop_step C P P' \<Longrightarrow> stop_step C P P'"
| by_main: "main_round C P = Some P' \<Longrightarrow> stop_step C P P'"
| by_ticker: "ticker_round C P = Some P' \<Longrightarrow> stop_step C P P'"

inductive_simps loop_step_iff: "loop_step C P P'"

end
