(* ===== verification/Startup_Safety.thy ===== *)
theory Startup_Safety
  imports Startup
begin

text \<open>
  What the start of the process establishes for the parts that rely on it, which message modes fit together,
  and what its end leaves unsaved.
\<close>

section \<open>The loaded configuration\<close>

lemma kafka_defaults_ready: "ka_DLQTopic (kafka_defaults c) \<noteq> [] \<and> 0 < ka_MaxProcessRetries (kafka_defaults c)"
  by (simp add: kafka_defaults_def Let_def)

lemma cluster_defaults_ready:
  "0 < cl_PresenceTTLSeconds (cluster_defaults c) \<and> 0 < cl_HeartbeatSeconds (cluster_defaults c) \<and> 0 < cl_StreamMaxLen (cluster_defaults c)"
  by (simp add: cluster_defaults_def Let_def)

lemma seconds_positive: "0 < n \<Longrightarrow> n \<le> 9223372036 \<Longrightarrow> seconds n = n * second"
  unfolding seconds_def int_word_sint by simp

lemma LoadConfig_Some:
  assumes "LoadConfig S c0 = Some c"
  obtains d :: Config where "co_Kafka c = kafka_defaults (kafka_env S (co_Kafka d))" "co_Cluster c = cluster_defaults (cluster_env S (co_Cluster d))"
    "co_Mysql c = mysql_env S (co_Mysql d)"
proof -
  obtain d :: Config where "fl_decode S (config_path S) (case c0 of None \<Rightarrow> zero_config | Some c \<Rightarrow> c) = Some d"
    using assms by (auto simp: LoadConfig_def Let_def split: option.splits)
  with assms show ?thesis by (auto simp: LoadConfig_def Let_def intro: that [of d])
qed

text \<open>A configuration that was loaded is ready for the parts that use it, whatever the file and the
  environment say: the dead letters of the consumer have a topic, so that its writer exists whenever
  Kafka is initialised, a batch is tried a positive number of times, and a process that starts with a
  cluster trims its stream to a positive length and registers its users with a lifetime above zero, at
  an interval above zero as long as it fits a duration of 64 bits (292 years). The comment of \<open>DLQTopic\<close> says that an empty topic disables the dead letters; no configuration does.\<close>

theorem config_ready:
  assumes "LoadConfig S c0 = Some conf"
  shows "ks_ChatDLQWriter (KafkaInit (co_Kafka conf)) \<noteq> None \<and>
    0 < ka_MaxProcessRetries (co_Kafka conf) \<and>
    maxProcessAttempts (router_config (co_Kafka conf)) = ka_MaxProcessRetries (co_Kafka conf) \<and>
    (\<forall>su c. main_start secret dbReady hostname conf = Inr su \<longrightarrow> su_cluster su = Some c \<longrightarrow>
       0 < ps_ttl (cs_presence c) \<and>
       (cl_HeartbeatSeconds (co_Cluster conf) \<le> 9223372036 \<longrightarrow> 0 < cs_heartbeat c) \<and> 0 < ib_maxLen (cs_bus c) \<and>
       ps_instanceID (cs_presence c) = cs_instanceID c \<and> ib_instanceID (cs_bus c) = cs_instanceID c \<and> su_server su = HybridServer)"
proof -
  obtain d :: Config where d: "co_Kafka conf = kafka_defaults (kafka_env S (co_Kafka d))" "co_Cluster conf = cluster_defaults (cluster_env S (co_Cluster d))"
    by (rule LoadConfig_Some [OF assms])
  have k: "ka_DLQTopic (co_Kafka conf) \<noteq> []" "0 < ka_MaxProcessRetries (co_Kafka conf)"
    unfolding d(1) using kafka_defaults_ready by blast+
  have c: "0 < cl_PresenceTTLSeconds (co_Cluster conf)" "0 < cl_HeartbeatSeconds (co_Cluster conf)" "0 < cl_StreamMaxLen (co_Cluster conf)"
    unfolding d(2) using cluster_defaults_ready by blast+
  have kafka: "ks_ChatDLQWriter (KafkaInit (co_Kafka conf)) \<noteq> None"
    using k(1) by (simp add: KafkaInit_def Let_def)
  have tries: "maxProcessAttempts (router_config (co_Kafka conf)) = ka_MaxProcessRetries (co_Kafka conf)"
    using k(2) by (simp add: maxProcessAttempts_def router_config_def)
  have cluster: "0 < ps_ttl (cs_presence x) \<and>
       (cl_HeartbeatSeconds (co_Cluster conf) \<le> 9223372036 \<longrightarrow> 0 < cs_heartbeat x) \<and> 0 < ib_maxLen (cs_bus x) \<and>
       ps_instanceID (cs_presence x) = cs_instanceID x \<and> ib_instanceID (cs_bus x) = cs_instanceID x \<and>
       ka_MessageMode (co_Kafka conf) = ''hybrid''" if "cluster_of hostname conf = Some x" for x
    using that c by (auto simp: cluster_of_def Let_def NewInstanceBus_def presence_New_def seconds_positive split: if_splits)
  show ?thesis
    using kafka k(2) tries cluster
    by (auto simp: main_start_def started_server_def split: if_splits option.splits)
qed

definition demo_source :: config_source where
  "demo_source = \<lparr>fl_exists = (\<lambda>_. False), fl_decode = (\<lambda>_ c. Some c),
     fl_getenv = (\<lambda>v. if v = ''KAMA_KAFKA_MESSAGE_MODE'' then ''hybrid'' else if v = ''KAMA_CLUSTER_ENABLED'' then ''true''
       else if v = ''KAMA_INSTANCE_ID'' then ''a'' else [])\<rparr>"

lemma demo_getenv: "fl_getenv demo_source v = (if v = ''KAMA_KAFKA_MESSAGE_MODE'' then ''hybrid'' else if v = ''KAMA_CLUSTER_ENABLED'' then ''true''
       else if v = ''KAMA_INSTANCE_ID'' then ''a'' else [])"
  by (simp add: demo_source_def)

lemma demo_decode: "fl_decode demo_source p c = Some c"
  by (simp add: demo_source_def)

theorem config_ready_witness:
  "\<exists>conf su c. LoadConfig demo_source None = Some conf \<and>
     main_start (replicate 32 (CHR ''k'')) True ''host'' conf = Inr su \<and> su_cluster su = Some c \<and> 0 < ps_ttl (cs_presence c)"
proof -
  have "\<exists>conf. LoadConfig demo_source None = Some conf \<and> cl_Enabled (co_Cluster conf) \<and> ka_MessageMode (co_Kafka conf) = ''hybrid''"
    by (simp add: LoadConfig_def demo_decode zero_config_def kafka_env_def kafka_defaults_def cluster_env_def cluster_defaults_def override_def
        demo_getenv parse_bool_def Let_def)
  then obtain conf where conf: "LoadConfig demo_source None = Some conf" "cl_Enabled (co_Cluster conf)" "ka_MessageMode (co_Kafka conf) = ''hybrid''"
    by blast
  then obtain su c where "main_start (replicate 32 (CHR ''k'')) True ''host'' conf = Inr su" "su_cluster su = Some c"
    by (auto simp: main_start_def SetSecret_def cluster_of_def Let_def)
  with config_ready [OF conf(1)] conf(1) show ?thesis by blast
qed

section \<open>The modes\<close>

text \<open>The three modes of the documentation fit together, and no other does. In the modes \<open>channel\<close>, \<open>kafka\<close>
  and \<open>hybrid\<close> the server that is started is the one the connections use, it is closed at the end, after
  which the writer is flushed, and Kafka is initialised where it is used. In every other mode, the empty
  one of a configuration without the key included, the channel server is started while connections are
  put into the channels of the Kafka server, which nobody receives from, and Kafka is not initialised.\<close>

theorem modes_agree:
  "(if ka_MessageMode c \<in> {''channel'', ''kafka'', ''hybrid''} then
      client_server (ka_MessageMode c) = started_server (ka_MessageMode c) \<and>
      (started_server (ka_MessageMode c) \<noteq> ChannelServer \<longrightarrow> kafka_ready c \<noteq> None)
    else started_server (ka_MessageMode c) = ChannelServer \<and> client_server (ka_MessageMode c) = KafkaServer \<and> kafka_ready c = None) \<and>
   CloseServer (started_server (ka_MessageMode c)) \<in> set (butlast (main_stop (ka_MessageMode c))) \<and>
   last (main_stop (ka_MessageMode c)) = ShutdownBatch"
  by (auto simp: started_server_def client_server_def kafka_ready_def main_stop_def)

section \<open>The end of the channel server\<close>

lemma empty_message_panics:
  assumes "handled C [] s = Some s'"
  shows "\<not> sv_running s'"
proof -
  have d: "decode_request [] = (zero_request, True)"
    by (simp add: decode_request_def json_unmarshal_def json_parse_def skip_ws_def)
  have m: "ms_receive_id (server_text_message C zero_request) = []"
    by (simp add: server_text_message_def server_message_def new_message_def zero_request_def)
  have h: "server_handle C [] = server_text C zero_request"
    by (simp add: server_handle_def d) (simp add: zero_request_def)
  from assms show ?thesis
    by (auto simp: handled_def h server_text_def m Let_def bnd_def throw_def split: option.splits sum.splits server_panic.splits)
qed

lemma receive_cases:
  assumes "receive closed zero c = Some (x, q)"
  obtains "ch_items c = x # ch_items q" | "closed" "ch_items c = []" "x = zero" "q = c"
  using assms by (auto simp: receive_def try_recv_def split: list.splits if_splits)

lemma receive_closed: "receive True zero c \<noteq> None"
  by (simp add: receive_def split: option.split)

text \<open>What a client's branch leaves alone: the writer, the database, the messages that wait.\<close>

definition keeps_pending :: "('d, 'r) server \<Rightarrow> ('d, 'r) server \<Rightarrow> bool" where
  "keeps_pending s s' \<longleftrightarrow> ch_batch (sv_chat s') = ch_batch (sv_chat s) \<and>
     st_db (ch_stores (sv_chat s')) = st_db (ch_stores (sv_chat s)) \<and> sv_Transmit s' = sv_Transmit s \<and> sv_running s' = sv_running s"

lemma EnqueueDelivery_pending:
  "\<exists>r v. EnqueueDelivery C p mb w = Some (r, v) \<and> ch_batch v = ch_batch w \<and> ch_stores v = ch_stores w"
  by (simp add: EnqueueDelivery_def bnd_def gets_def count_def modify_def throw_def at_client_def split: option.split)

lemma client_round:
  assumes "sv_running s" and "b = ServerLogin p \<or> b = ServerLogout p"
  shows "\<exists>s'. server_round C b s = Some s' \<and> keeps_pending s s'"
proof -
  note run = EnqueueDelivery_pending [of C p]
  have login: "\<exists>v. login_client C g None p w = Some (Inr () :: unit + unit, v) \<and> ch_batch v = ch_batch w \<and> ch_stores v = ch_stores w" for g w
    using run [of "\<lparr>mb_Message = g, mb_Uuid = []\<rparr>" "w\<lparr>ch_Clients := AList.update (cl_Uuid (ch_heap w ! p)) p (ch_Clients w)\<rparr>"]
    by (auto simp: login_client_def logged_def attempt_def bnd_def gets_def modify_def ret_def)
  have logout: "\<exists>v. logout_client C None p w = Some (Inr () :: unit + unit, v) \<and> ch_batch v = ch_batch w \<and> ch_stores v = ch_stores w" for w
    using run [of "\<lparr>mb_Message = logged_out, mb_Uuid = []\<rparr>" "w\<lparr>ch_Clients := AList.delete (cl_Uuid (ch_heap w ! p)) (ch_Clients w)\<rparr>"]
    by (auto simp: logout_client_def logged_def attempt_def bnd_def gets_def modify_def ret_def)
  show ?thesis
    using assms login [of server_welcome "sv_chat s"] logout [of "sv_chat s"]
    by (auto simp: server_round_def with_client_def keeps_pending_def)
qed

lemma with_pointer_runs:
  assumes "sv_running (pr_server P)" and "branch = ServerLogin \<or> branch = ServerLogout"
  obtains P' where "with_pointer client branch C P = Some P'" "keeps_pending (pr_server P) (pr_server P')"
    "pr_Login P' = pr_Login P" "pr_Logout P' = pr_Logout P" "pr_closed P' = pr_closed P" "pr_actions P' = pr_actions P"
    "pr_end P' = (if client = None then Some Crashed else pr_end P)"
proof (cases client)
  case None
  then show ?thesis by (intro that [of "crashed P"]) (simp_all add: with_pointer_def crashed_def keeps_pending_def)
next
  case (Some p)
  obtain s where "server_round C (branch p) (pr_server P) = Some s" "keeps_pending (pr_server P) s"
    using client_round [OF assms(1)] assms(2) by blast
  with Some show ?thesis by (intro that [of "P\<lparr>pr_server := s\<rparr>"]) (simp_all add: with_pointer_def)
qed

lemma with_pointer_step:
  assumes "with_pointer client branch C P = Some P'" and "sv_running (pr_server P)" and "branch = ServerLogin \<or> branch = ServerLogout"
  shows "keeps_pending (pr_server P) (pr_server P') \<and> pr_Login P' = pr_Login P \<and> pr_Logout P' = pr_Logout P \<and>
    pr_closed P' = pr_closed P \<and> pr_end P' = (if client = None then Some Crashed else pr_end P)"
proof -
  obtain P1 where "with_pointer client branch C P = Some P1" "keeps_pending (pr_server P) (pr_server P1)" "pr_Login P1 = pr_Login P"
    "pr_Logout P1 = pr_Logout P" "pr_closed P1 = pr_closed P" "pr_end P1 = (if client = None then Some Crashed else pr_end P)"
    by (rule with_pointer_runs [OF assms(2,3), of client C])
  with assms(1) show ?thesis by simp
qed

text \<open>What waits in the three channels.\<close>

definition queued :: "('d, 'r) process \<Rightarrow> nat" where
  "queued P = length (ch_items (pr_Login P)) + length (ch_items (pr_Logout P)) + length (ch_items (sv_Transmit (pr_server P)))"

abbreviation going :: "('d, 'r) process \<Rightarrow> bool" where
  "going P \<equiv> pr_end P = None \<longrightarrow> sv_running (pr_server P)"

lemma handled_Transmit: "handled C data s = Some s' \<Longrightarrow> sv_Transmit s' = sv_Transmit s"
  by (auto simp: handled_def split: option.splits sum.splits server_panic.splits)

lemma handled_running: "handled C data s = Some s' \<Longrightarrow> sv_running s' \<Longrightarrow> sv_running s"
  by (auto simp: handled_def split: option.splits sum.splits server_panic.splits)

text \<open>After the close every round of the main loop takes something out of a channel, or ends the process.\<close>

lemma loop_step_closed:
  assumes "loop_step C P P'" and "pr_closed P" and "going P"
  shows "pr_end P = None \<and> pr_closed P' \<and> going P' \<and> (pr_end P' \<noteq> None \<or> queued P = Suc (queued P'))"
proof -
  obtain b where b: "loop_round C b P = Some P'" using assms(1) by (auto simp: loop_step_iff)
  then have live: "pr_end P = None" by (simp add: loop_round_def split: if_splits)
  with assms(3) have run: "sv_running (pr_server P)" by simp
  show ?thesis
  proof (cases b)
    case LoginBranch
    with b live obtain client q where r: "receive True None (pr_Login P) = Some (client, q)"
      "with_pointer client ServerLogin C (P\<lparr>pr_Login := q\<rparr>) = Some P'"
      using assms(2) by (auto simp: loop_round_def split: option.splits)
    have run': "sv_running (pr_server (P\<lparr>pr_Login := q\<rparr>))" using run by simp
    have P': "keeps_pending (pr_server P) (pr_server P')" "pr_Login P' = pr_Login (P\<lparr>pr_Login := q\<rparr>)"
      "pr_Logout P' = pr_Logout (P\<lparr>pr_Login := q\<rparr>)" "pr_closed P'" "pr_end P' = (if client = None then Some Crashed else None)"
      using with_pointer_step [OF r(2) run'] live assms(2) by simp_all
    from r(1) show ?thesis
    proof (cases rule: receive_cases)
      case 1
      with P' live run show ?thesis by (auto simp: queued_def keeps_pending_def)
    next
      case 2
      with P' live show ?thesis by simp
    qed
  next
    case LogoutBranch
    with b live obtain client q where r: "receive True None (pr_Logout P) = Some (client, q)"
      "with_pointer client ServerLogout C (P\<lparr>pr_Logout := q\<rparr>) = Some P'"
      using assms(2) by (auto simp: loop_round_def split: option.splits)
    have run': "sv_running (pr_server (P\<lparr>pr_Logout := q\<rparr>))" using run by simp
    have P': "keeps_pending (pr_server P) (pr_server P')" "pr_Login P' = pr_Login (P\<lparr>pr_Logout := q\<rparr>)"
      "pr_Logout P' = pr_Logout (P\<lparr>pr_Logout := q\<rparr>)" "pr_closed P'" "pr_end P' = (if client = None then Some Crashed else None)"
      using with_pointer_step [OF r(2) run'] live assms(2) by simp_all
    from r(1) show ?thesis
    proof (cases rule: receive_cases)
      case 1
      with P' live run show ?thesis by (auto simp: queued_def keeps_pending_def)
    next
      case 2
      with P' live show ?thesis by simp
    qed
  next
    case TransmitBranch
    with b live obtain data q s where r: "receive True [] (sv_Transmit (pr_server P)) = Some (data, q)"
      "handled C data ((pr_server P)\<lparr>sv_Transmit := q\<rparr>) = Some s"
      "P' = (if sv_running s then P\<lparr>pr_server := s\<rparr> else crashed (P\<lparr>pr_server := s\<rparr>))"
      using assms(2) by (auto simp: loop_round_def Let_def split: option.splits)
    from r(1) show ?thesis
    proof (cases rule: receive_cases)
      case 1
      with r(3) handled_Transmit [OF r(2)] live assms(2) show ?thesis by (auto simp: queued_def crashed_def)
    next
      case 2
      with empty_message_panics r(2) have "\<not> sv_running s" by blast
      with r(3) live assms(2) show ?thesis by (simp add: crashed_def)
    qed
  qed
qed

text \<open>A closed \<open>Login\<close> is always ready.\<close>

lemma login_round:
  assumes "pr_end P = None" and "sv_running (pr_server P)" and "pr_closed P"
  obtains P' where "loop_round C LoginBranch P = Some P'" "keeps_pending (pr_server P) (pr_server P')" "pr_closed P'" "pr_actions P' = pr_actions P"
    "pr_end P' = Some Crashed \<or> pr_end P' = None \<and> length (ch_items (pr_Login P)) = Suc (length (ch_items (pr_Login P')))"
proof -
  obtain client q where r: "receive True None (pr_Login P) = Some (client, q)" using receive_closed [of None "pr_Login P"] by auto
  have run: "sv_running (pr_server (P\<lparr>pr_Login := q\<rparr>))" using assms(2) by simp
  obtain P' where P': "with_pointer client ServerLogin C (P\<lparr>pr_Login := q\<rparr>) = Some P'" "keeps_pending (pr_server P) (pr_server P')"
    "pr_Login P' = q" "pr_closed P'" "pr_actions P' = pr_actions P" "pr_end P' = (if client = None then Some Crashed else pr_end P)"
    by (rule with_pointer_runs [OF run, of ServerLogin client C]) (use assms(3) in auto)
  have "loop_round C LoginBranch P = Some P'" using assms r P'(1) by (simp add: loop_round_def)
  moreover have "pr_end P' = Some Crashed \<or> pr_end P' = None \<and> length (ch_items (pr_Login P)) = Suc (length (ch_items (pr_Login P')))"
    using r P'(3,6) assms(1) by (auto elim: receive_cases)
  ultimately show ?thesis using P' that by blast
qed

lemma logins_end_process:
  assumes "pr_end P = None" and "sv_running (pr_server P)" and "pr_closed P"
  shows "\<exists>P'. (loop_step C)\<^sup>*\<^sup>* P P' \<and> pr_end P' = Some Crashed \<and> pr_actions P' = pr_actions P \<and> keeps_pending (pr_server P) (pr_server P')"
  using assms
proof (induction "length (ch_items (pr_Login P))" arbitrary: P rule: less_induct)
  case less
  obtain P1 where P1: "loop_round C LoginBranch P = Some P1" "keeps_pending (pr_server P) (pr_server P1)" "pr_closed P1" "pr_actions P1 = pr_actions P"
    "pr_end P1 = Some Crashed \<or> pr_end P1 = None \<and> length (ch_items (pr_Login P)) = Suc (length (ch_items (pr_Login P1)))"
    by (rule login_round [OF less.prems])
  have step: "loop_step C P P1" using P1(1) by (auto simp: loop_step_iff)
  show ?case
  proof (cases "pr_end P1 = Some Crashed")
    case True
    with P1 step show ?thesis by blast
  next
    case False
    then have "\<exists>P'. (loop_step C)\<^sup>*\<^sup>* P1 P' \<and> pr_end P' = Some Crashed \<and> pr_actions P' = pr_actions P1 \<and> keeps_pending (pr_server P1) (pr_server P')"
      using P1 less.prems(2) by (intro less.hyps) (auto simp: keeps_pending_def)
    then obtain P' where "(loop_step C)\<^sup>*\<^sup>* P1 P'" "pr_end P' = Some Crashed" "pr_actions P' = pr_actions P1" "keeps_pending (pr_server P1) (pr_server P')"
      by blast
    with step P1(2,4) show ?thesis by (intro exI [of _ P']) (auto simp: keeps_pending_def intro: converse_rtranclp_into_rtranclp)
  qed
qed

lemma stop_step_going:
  assumes "stop_step C P P'" and "going P"
  shows "going P'"
  using assms
proof cases
  case by_loop
  then obtain b where b: "loop_round C b P = Some P'" by (auto simp: loop_step_iff)
  then have live: "pr_end P = None" by (simp add: loop_round_def split: if_splits)
  with assms(2) have run: "sv_running (pr_server P)" by simp
  have "going P'" if "with_pointer client branch C Q = Some P'" "sv_running (pr_server Q)" "branch = ServerLogin \<or> branch = ServerLogout" for client branch Q
    using with_pointer_step [OF that] that(2) by (simp add: keeps_pending_def)
  with b live run show ?thesis
    by (cases b) (auto simp: loop_round_def crashed_def Let_def split: option.splits if_splits)
next
  case by_main
  with assms(2) show ?thesis
    by (auto simp: main_round_def on_chat_of_def crashed_def Let_def split: if_splits list.splits stop_action.splits chat_server.splits)
next
  case by_ticker
  with assms(2) show ?thesis by (auto simp: ticker_round_def on_chat_of_def Let_def split: if_splits)
qed

lemma steps_going: "(stop_step C)\<^sup>*\<^sup>* P P' \<Longrightarrow> going P \<Longrightarrow> going P'"
  by (induction rule: rtranclp_induct) (auto dest: stop_step_going)

lemma loop_steps: "(loop_step C)\<^sup>*\<^sup>* P P' \<Longrightarrow> (stop_step C)\<^sup>*\<^sup>* P P'"
  by (induction rule: rtranclp_induct) (blast intro: rtranclp.rtrancl_into_rtrancl by_loop)+

lemma loop_rounds_closed:
  assumes "(loop_step C ^^ k) P P'" and "pr_closed P" and "going P"
  shows "pr_closed P' \<and> going P' \<and> (if pr_end P' = None then queued P = queued P' + k else k \<le> Suc (queued P))"
  using assms
proof (induction k arbitrary: P')
  case (Suc k)
  then obtain Q where Q: "(loop_step C ^^ k) P Q" "loop_step C Q P'" by auto
  note Suc.IH [OF Q(1) Suc.prems(2,3)]
  then have IH: "pr_closed Q" "going Q" "if pr_end Q = None then queued P = queued Q + k else k \<le> Suc (queued P)" by simp_all
  have step: "pr_end Q = None" "pr_closed P'" "going P'" "pr_end P' \<noteq> None \<or> queued Q = Suc (queued P')"
    using loop_step_closed [OF Q(2) IH(1,2)] by simp_all
  with IH(3) have "if pr_end P' = None then queued P = queued P' + Suc k else Suc k \<le> Suc (queued P)" by (cases "pr_end P'") simp_all
  with step(2,3) show ?case by blast
qed simp

text \<open>C39. \<open>main\<close> closes the channel server before it flushes the writer, and the close takes the process down. From the
  signal on, in every mode in which the channel server runs, whatever waits in the channels and in the writer's
  buffer, there is a run in which the main loop takes the clients that wait for their login, then the nil of
  the closed channel, and the process ends with a panic while \<open>Shutdown\<close> is still to be called: the
  buffer is as it was and the database untouched. And however \<open>main\<close>, the main loop and the ticker are interleaved,
  after the close the main loop has at most one round more than there are clients and messages in the three channels,
  and can always take the next one until the process ends. Both are said of a process that gets no request after the
  signal (one that is sent to a closed channel panics in its own goroutine, for a login with the mutex held).\<close>

theorem close_ends_process:
  assumes "pr_actions P = main_stop mode" and "mode \<noteq> ''kafka''" and "mode \<noteq> ''hybrid''"
    and "pr_end P = None" and "\<not> pr_closed P" and "sv_running (pr_server P)"
  shows "(\<exists>P'. (stop_step C)\<^sup>*\<^sup>* P P' \<and> pr_end P' = Some Crashed \<and> pr_actions P' = [ShutdownBatch] \<and>
      ch_batch (sv_chat (pr_server P')) = ch_batch (sv_chat (pr_server P)) \<and>
      st_db (ch_stores (sv_chat (pr_server P'))) = st_db (ch_stores (sv_chat (pr_server P)))) \<and>
    (\<forall>P1 k P2. (stop_step C)\<^sup>*\<^sup>* P P1 \<longrightarrow> pr_closed P1 \<longrightarrow> (loop_step C ^^ k) P1 P2 \<longrightarrow>
      k \<le> queued P1 + 1 \<and> (pr_end P2 = None \<longrightarrow> (\<exists>P3. loop_step C P2 P3)))"
proof (intro conjI)
  let ?P = "P\<lparr>pr_actions := [ShutdownBatch], pr_closed := True\<rparr>"
  have "main_round C P = Some ?P" using assms(1-5) by (simp add: main_round_def main_stop_def)
  then have close: "stop_step C P ?P" by (rule by_main)
  obtain P' where P': "(loop_step C)\<^sup>*\<^sup>* ?P P'" "pr_end P' = Some Crashed" "pr_actions P' = [ShutdownBatch]" "keeps_pending (pr_server P) (pr_server P')"
    using logins_end_process [of ?P C] assms(4,6) by fastforce
  have "(stop_step C)\<^sup>*\<^sup>* ?P P'" using P'(1) by (rule loop_steps)
  with close have "(stop_step C)\<^sup>*\<^sup>* P P'" by (rule converse_rtranclp_into_rtranclp)
  with P' show "\<exists>P'. (stop_step C)\<^sup>*\<^sup>* P P' \<and> pr_end P' = Some Crashed \<and> pr_actions P' = [ShutdownBatch] \<and>
      ch_batch (sv_chat (pr_server P')) = ch_batch (sv_chat (pr_server P)) \<and>
      st_db (ch_stores (sv_chat (pr_server P'))) = st_db (ch_stores (sv_chat (pr_server P)))"
    by (auto simp: keeps_pending_def)
next
  have "k \<le> queued P1 + 1 \<and> (pr_end P2 = None \<longrightarrow> (\<exists>P3. loop_step C P2 P3))"
    if run: "(stop_step C)\<^sup>*\<^sup>* P P1" and closed: "pr_closed P1" and rounds: "(loop_step C ^^ k) P1 P2" for P1 k P2
  proof -
    have "going P1" using steps_going [OF run] assms(6) by simp
    note after = loop_rounds_closed [OF rounds closed this]
    have "\<exists>P3. loop_step C P2 P3" if live: "pr_end P2 = None"
    proof -
      obtain P3 where "loop_round C LoginBranch P2 = Some P3" by (rule login_round [of P2 C]) (use live after in auto)
      then show ?thesis by (auto simp: loop_step_iff)
    qed
    with after show ?thesis by (auto split: if_splits)
  qed
  then show "\<forall>P1 k P2. (stop_step C)\<^sup>*\<^sup>* P P1 \<longrightarrow> pr_closed P1 \<longrightarrow> (loop_step C ^^ k) P1 P2 \<longrightarrow>
      k \<le> queued P1 + 1 \<and> (pr_end P2 = None \<longrightarrow> (\<exists>P3. loop_step C P2 P3))" by blast
qed

text \<open>A message that was accepted for storing, and is lost, while a client waits for its login.\<close>

definition demo_pending :: "(mem_db, mem_redis) process" where
  "demo_pending =
     \<lparr>pr_server = (new_server demo)\<lparr>sv_chat := (sv_chat (new_server demo))\<lparr>ch_batch := new_batch\<lparr>bw_started := True, bw_buffer := [(demo_text ''M1'', 0)]\<rparr>\<rparr>\<rparr>,
      pr_Login = (make_chan 4096)\<lparr>ch_items := [Some 0]\<rparr>, pr_Logout = make_chan 4096, pr_closed = False,
      pr_actions = main_stop ''channel'', pr_end = None\<rparr>"

theorem close_ends_process_witness:
  "\<exists>P'. (stop_step (demo_chat_env 9))\<^sup>*\<^sup>* demo_pending P' \<and> pr_end P' = Some Crashed \<and> pr_actions P' = [ShutdownBatch] \<and>
     bw_buffer (ch_batch (sv_chat (pr_server P'))) = [(demo_text ''M1'', 0)] \<and> md_rows (st_db (ch_stores (sv_chat (pr_server P')))) = demo_rows"
proof -
  have P: "pr_actions demo_pending = main_stop ''channel''" "pr_end demo_pending = None" "\<not> pr_closed demo_pending" "sv_running (pr_server demo_pending)"
    by (simp_all add: demo_pending_def new_server_def)
  from close_ends_process [OF P(1) _ _ P(2-4), of "demo_chat_env 9"] obtain P' where
    "(stop_step (demo_chat_env 9))\<^sup>*\<^sup>* demo_pending P'" "pr_end P' = Some Crashed" "pr_actions P' = [ShutdownBatch]"
    "ch_batch (sv_chat (pr_server P')) = ch_batch (sv_chat (pr_server demo_pending))"
    "st_db (ch_stores (sv_chat (pr_server P'))) = st_db (ch_stores (sv_chat (pr_server demo_pending)))" by auto
  then show ?thesis by (intro exI [of _ P']) (simp add: demo_pending_def new_server_def NewMessageProcessor_def demo_def)
qed

end
