(* ===== verification/Metrics_Export.thy ===== *)
theory Metrics_Export
  imports Http_Server Hybrid_Router
begin

text \<open>
  \<open>internal/metrics\<close>: the collector that Prometheus scrapes. Numbers are kept as integers; the conversion to
  \<open>float64\<close> is exact up to 2^53. The collectors of the Go runtime and of the process are the library's.
\<close>

record batchStats =
  bs_enqueued :: int
  bs_flushed :: int
  bs_flushes :: int
  bs_errors :: int

text \<open>\<open>prometheus.BuildFQName(namespace, "", name)\<close>\<close>

definition fq_name :: "string \<Rightarrow> string" where
  "fq_name name = ''kamachat_'' @ name"

text \<open>\<open>ChatMetrics\<close> in the hybrid mode: the two counters of the session router are in its state.\<close>

definition chat_metrics :: "('d, 'r, 'k) hybrid \<Rightarrow> MessageMetrics" where
  "chat_metrics h = (ch_metrics (hr_chat h))
     \<lparr>sessionQueueTimeouts := sessionQueueTimeouts (sr_metrics (hr_SessionRouter h)),
      processFailures := processFailures (sr_metrics (hr_SessionRouter h))\<rparr>"

text \<open>The counters of \<open>newChatCollector\<close>: a snapshot, the writer's numbers, the requests that were stopped.\<close>

definition collector_counters :: "(string \<times> (MessageMetrics \<Rightarrow> batchStats \<Rightarrow> u64 \<Rightarrow> int)) list" where
  "collector_counters =
     [(''channel_routed_total'', \<lambda>s b r. uint (channelRouted s)),
      (''kafka_routed_total'', \<lambda>s b r. uint (kafkaRouted s)),
      (''delivery_queue_timeouts_total'', \<lambda>s b r. uint (deliveryQueueTimeouts s)),
      (''delivery_client_closed_total'', \<lambda>s b r. uint (deliveryClientClosed s)),
      (''delivery_status_queue_drops_total'', \<lambda>s b r. uint (deliveryStatusQueueDrops s)),
      (''session_queue_timeouts_total'', \<lambda>s b r. uint (sessionQueueTimeouts s)),
      (''process_failures_total'', \<lambda>s b r. uint (processFailures s)),
      (''kafka_commit_failures_total'', \<lambda>s b r. uint (kafkaCommitFailures s)),
      (''kafka_dlq_total'', \<lambda>s b r. uint (kafkaDLQTotal s)),
      (''cache_queue_drops_total'', \<lambda>s b r. uint (cacheQueueDrops s)),
      (''batch_flush_errors_total'', \<lambda>s b r. uint (batchFlushErrors s)),
      (''fanout_queue_drops_total'', \<lambda>s b r. uint (fanoutQueueDrops s)),
      (''cross_node_publish_total'', \<lambda>s b r. uint (crossNodePublish s)),
      (''cross_node_publish_failures_total'', \<lambda>s b r. uint (crossNodePublishFailures s)),
      (''cross_node_received_total'', \<lambda>s b r. uint (crossNodeReceived s)),
      (''cross_node_dedup_dropped_total'', \<lambda>s b r. uint (crossNodeDedupDropped s)),
      (''cross_node_lookup_failures_total'', \<lambda>s b r. uint (crossNodeLookupFailures s)),
      (''session_forwarded_total'', \<lambda>s b r. uint (sessionForwarded s)),
      (''session_forward_failures_total'', \<lambda>s b r. uint (sessionForwardFailures s)),
      (''session_forward_received_total'', \<lambda>s b r. uint (sessionForwardReceived s)),
      (''batch_enqueued_total'', \<lambda>s b r. bs_enqueued b),
      (''batch_flushed_total'', \<lambda>s b r. bs_flushed b),
      (''batch_flushes_total'', \<lambda>s b r. bs_flushes b),
      (''batch_write_errors_total'', \<lambda>s b r. bs_errors b),
      (''http_ratelimit_blocked_total'', \<lambda>s b r. uint r)]"

definition collector_gauges :: "(string \<times> (('d, 'r, 'k) hybrid \<Rightarrow> int)) list" where
  "collector_gauges =
     [(''channel_depth'', \<lambda>h. int (length (ch_items (hr_Transmit h)))),
      (''channel_capacity'', \<lambda>h. int (ch_cap (hr_Transmit h))),
      (''active_sessions'', \<lambda>h. int (ActiveSessions (hr_SessionRouter h))),
      (''online_clients'', \<lambda>h. int (OnlineClients h))]"

text \<open>\<open>Describe\<close> and \<open>Collect\<close>. The first component says whether the metric is a counter.\<close>

definition Describe :: "('d, 'r, 'k) hybrid \<Rightarrow> string list" where
  "Describe h = map (fq_name \<circ> fst) collector_counters @
     map (fq_name \<circ> fst) (collector_gauges :: (string \<times> (('d, 'r, 'k) hybrid \<Rightarrow> int)) list)"

definition Collect :: "u64 \<Rightarrow> ('d, 'r, 'k) hybrid \<Rightarrow> (bool \<times> string \<times> int) list" where
  "Collect blocked h =
     (let s = chat_metrics h;
          b = ch_batch (hr_chat h);
          bs = \<lparr>bs_enqueued = bw_totalEnqueued b, bs_flushed = bw_totalFlushed b, bs_flushes = bw_totalFlushes b,
            bs_errors = bw_totalErrors b\<rparr>
      in map (\<lambda>(n, get). (True, fq_name n, get s bs blocked)) collector_counters @
         map (\<lambda>(n, get). (False, fq_name n, get h)) collector_gauges)"

text \<open>No name is used twice, which the registration would not accept; the names that are described are those
  that are collected; and every number that \<open>/metrics\<close> answers is exported, under the name with the prefix
  and, but for \<open>kafka_dlq_total\<close>, with the suffix of a counter.\<close>

theorem metrics_exported:
  "distinct (Describe h) \<and> map (fst \<circ> snd) (Collect blocked h) = Describe h \<and>
   (\<forall>(n, v) \<in> set (metrics_report (chat_metrics h) blocked).
      (True, fq_name (if n = ''kafka_dlq_total'' then n else if n = ''ratelimit_blocked'' then ''http_ratelimit_blocked_total'' else n @ ''_total''),
        uint v) \<in> set (Collect blocked h))"
  by (simp add: Describe_def Collect_def collector_counters_def collector_gauges_def metrics_report_def fq_name_def Let_def)

end
