(* ===== verification/Migration.thy ===== *)
theory Migration
  imports Instance_Bus Database
begin

text \<open>
  \<open>cmd/migrate_group_member/main.go\<close>: the members that the old table \<open>group_info\<close> keeps as a JSON array in a column
  become rows of \<open>group_member\<close>. The statements on \<open>user_info\<close> and \<open>group_member\<close> are those of \<open>Database\<close>; what
  the first three statements find (the old columns, the new table, the old groups) are arguments.
\<close>

section \<open>The connection\<close>

definition getEnv :: "(string \<Rightarrow> string) \<Rightarrow> string \<Rightarrow> string \<Rightarrow> string" where
  "getEnv environ key defaultVal = (if environ key \<noteq> [] then environ key else defaultVal)"

definition getDSN :: "(string \<Rightarrow> string) \<Rightarrow> string" where
  "getDSN environ =
     (if environ ''KAMA_MYSQL_DSN'' \<noteq> [] then environ ''KAMA_MYSQL_DSN''
      else
        let host = getEnv environ ''KAMA_MYSQL_HOST'' ''127.0.0.1'';
            port = getEnv environ ''KAMA_MYSQL_PORT'' ''3307'';
            user = getEnv environ ''KAMA_MYSQL_USER'' ''root'';
            password = getEnv environ ''KAMA_MYSQL_PASSWORD'' ''root'';
            dbName = getEnv environ ''KAMA_MYSQL_DATABASE'' ''kama_chat_server''
        in user @ '':'' @ password @ ''@tcp('' @ host @ '':'' @ port @ '')/'' @ dbName @ ''?charset=utf8mb4&parseTime=True&loc=Local'')"

section \<open>One group\<close>

record groupInfoRow =
  gr_Uuid :: uuid
  gr_OwnerId :: uuid
  gr_Members :: bytes
  gr_MemberCnt :: "int option"
  gr_CreatedAt :: time

text \<open>\<open>None\<close>: the JSON is not an array of strings.\<close>

definition listed_members :: "groupInfoRow \<Rightarrow> uuid list option" where
  "listed_members g =
     (if gr_Members g = [] then Some []
      else case json_parse (gr_Members g) of
        None \<Rightarrow> None
      | Some j \<Rightarrow> (case set_strings (\<lambda>v _. v) j [] of (ms, True) \<Rightarrow> None | (ms, False) \<Rightarrow> Some ms))"

fun dedupe :: "uuid set \<Rightarrow> uuid list \<Rightarrow> uuid list" where
  "dedupe seen [] = []"
| "dedupe seen (m # ms) = (if m = [] \<or> m \<in> seen then dedupe seen ms else m # dedupe (insert m seen) ms)"

text \<open>The rows are read without a model, so that the users who are deleted count, too. A failed count
  leaves the number at 0.\<close>

definition userCount :: "('d, 'r) env \<Rightarrow> uuid \<Rightarrow> ('d, 'r, unit, nat) svc" where
  "userCount E m = attempt (FindUnscoped E users (\<lambda>u. ui_uuid u = m))
     (\<lambda>r. ret (case r of Inl _ \<Rightarrow> 0 | Inr us \<Rightarrow> length us))"

definition memberCount :: "('d, 'r) env \<Rightarrow> (GroupMember \<Rightarrow> bool) \<Rightarrow> ('d, 'r, unit, nat) svc" where
  "memberCount E P = attempt (Count E members P) (\<lambda>r. ret (case r of Inl _ \<Rightarrow> 0 | Inr n \<Rightarrow> n))"

definition migrated_row :: "time \<Rightarrow> groupInfoRow \<Rightarrow> uuid \<Rightarrow> int \<Rightarrow> GroupMember" where
  "migrated_row now g m role =
     \<lparr>gm_id = 0, gm_group_id = gr_Uuid g, gm_user_id = m, gm_role = role, gm_status = 0, gm_mute_until = None,
      gm_joined_at = gr_CreatedAt g, gm_created_at = now, gm_updated_at = now, gm_deleted_at = 0\<rparr>"

text \<open>Writing one member: how many were written, and the anomalies.\<close>

definition migrate_member :: "('d, 'r) env \<Rightarrow> groupInfoRow \<Rightarrow> uuid \<Rightarrow> ('d, 'r, unit, nat \<times> nat) svc" where
  "migrate_member E g m =
     (let role = (if m = gr_OwnerId g then 1 else 0);
          mine = (\<lambda>x. gm_group_id x = gr_Uuid g \<and> gm_user_id x = m)
      in bnd (memberCount E mine) (\<lambda>existing.
         if 0 < existing then
           attempt (Updates E members mine (\<lambda>x. x\<lparr>gm_role := role, gm_updated_at := e_now E\<rparr>))
             (\<lambda>r. ret (1, case r of Inl _ \<Rightarrow> 1 | Inr _ \<Rightarrow> 0))
         else
           attempt (Create E members (migrated_row (e_now E) g m role))
             (\<lambda>r. ret (case r of Inl _ \<Rightarrow> (0, 1) | Inr _ \<Rightarrow> (1, 0)))))"

text \<open>Members written, members skipped, anomalies.\<close>

definition migrate_group :: "('d, 'r) env \<Rightarrow> groupInfoRow \<Rightarrow> ('d, 'r, unit, nat \<times> nat \<times> nat) svc" where
  "migrate_group E g =
     (case listed_members g of
        None \<Rightarrow> ret (0, 0, 1)
      | Some ms \<Rightarrow>
          (let listed = dedupe {} ms;
               ownerMissing = gr_OwnerId g \<notin> set listed;
               deduped = (if ownerMissing then listed @ [gr_OwnerId g] else listed)
           in bnd (map_each deduped (userCount E)) (\<lambda>counts.
              let validMembers = map fst (filter (\<lambda>(_, n). n \<noteq> 0) (zip deduped counts));
                  skipped = length (filter (\<lambda>n. n = 0) counts) in
              bnd (map_each validMembers (migrate_member E g)) (\<lambda>written.
              bnd (memberCount E (\<lambda>x. gm_group_id x = gr_Uuid g)) (\<lambda>cnt.
              let wrongCnt = (case gr_MemberCnt g of None \<Rightarrow> False | Some k \<Rightarrow> k \<noteq> int cnt) in
              ret (sum_list (map fst written), skipped,
                of_bool ownerMissing + skipped + sum_list (map snd written) + of_bool wrongCnt))))))"

section \<open>The program\<close>

text \<open>The exit status. \<open>legacyColumnCount\<close> and \<open>activeGroups\<close> are \<open>None\<close>, and \<open>created\<close> is false, when the statement fails.\<close>

definition migrate_main ::
  "('d, 'r) env \<Rightarrow> nat option \<Rightarrow> bool \<Rightarrow> groupInfoRow list option \<Rightarrow> ('d, 'r, unit, int) svc" where
  "migrate_main E legacyColumnCount created activeGroups =
     (case legacyColumnCount of
        None \<Rightarrow> ret 1
      | Some n \<Rightarrow>
          if n = 0 then ret 0
          else if \<not> created then ret 1
          else case activeGroups of
            None \<Rightarrow> ret 1
          | Some gs \<Rightarrow>
              bnd (map_each gs (migrate_group E)) (\<lambda>rs.
              let anomalies = sum_list (map (\<lambda>(_, _, a). a) rs)
              in ret (if 0 < anomalies then 1 else 0)))"

end
