(* ===== verification/Migration_Safety.thy ===== *)
theory Migration_Safety
  imports Migration Database_Memory
begin

text \<open>
  The migration with status 0 has written every listed member, whatever has happened to the members since.
\<close>

section \<open>Loops with results\<close>

lemma wp_map_each_upto:
  assumes "\<And>ys x zs as v. xs = ys @ x # zs \<Longrightarrow> I ys as v \<Longrightarrow> wp (f x) (\<lambda>a. I (ys @ [x]) (as @ [a])) E v"
    and "I [] [] w" and "\<And>as v. I xs as v \<Longrightarrow> Q as v"
  shows "wp (map_each xs f) Q E w"
proof -
  have "I ys as v \<Longrightarrow> xs = ys @ zs \<Longrightarrow> (\<And>bs v. I xs (as @ bs) v \<Longrightarrow> R bs v) \<Longrightarrow> wp (map_each zs f) R E v" for ys zs as v R
  proof (induction zs arbitrary: ys as v R)
    case Nil
    from Nil(3) [of "[]"] Nil(1,2) show ?case by (simp add: wp_simps)
  next
    case (Cons z zs)
    have "wp (f z) (\<lambda>a. I (ys @ [z]) (as @ [a])) E v" using assms(1) Cons.prems by blast
    then have "wp (f z) (\<lambda>a. wp (map_each zs f) (\<lambda>bs. R (a # bs)) E) E v"
    proof (rule wp_mono)
      fix a v'
      assume "I (ys @ [z]) (as @ [a]) v'"
      then show "wp (map_each zs f) (\<lambda>bs. R (a # bs)) E v'"
        by (rule Cons.IH) (use Cons.prems in \<open>simp_all add: append_eq_Cons_conv\<close>)
    qed
    then show ?case by (simp add: wp_simps)
  qed
  from this [of "[]" "[]" w xs Q] assms(2,3) show ?thesis by simp
qed

section \<open>One group\<close>

lemma set_dedupe: "set (dedupe seen ms) = {m \<in> set ms. m \<noteq> [] \<and> m \<notin> seen}"
  by (induction seen ms rule: dedupe.induct) auto

lemma distinct_fst_zip: "distinct us \<Longrightarrow> distinct (map fst (filter P (zip us ns)))"
  by (intro distinct_map_filter) (simp add: map_fst_zip_take)

text \<open>The live rows of a group, and of one of its members.\<close>

definition group_row :: "uuid \<Rightarrow> row \<Rightarrow> bool" where
  "group_row g = scoped members (\<lambda>x. gm_group_id x = g)"

definition membership_row :: "uuid \<Rightarrow> uuid \<Rightarrow> row \<Rightarrow> bool" where
  "membership_row g u = scoped members (\<lambda>x. gm_group_id x = g \<and> gm_user_id x = u)"

lemma row_iffs:
  "group_row g r \<longleftrightarrow> (\<exists>x. r = RMember x \<and> gm_deleted_at x = 0 \<and> gm_group_id x = g)"
  "membership_row g u r \<longleftrightarrow> (\<exists>x. r = RMember x \<and> gm_deleted_at x = 0 \<and> gm_group_id x = g \<and> gm_user_id x = u)"
  by (auto simp: group_row_def membership_row_def scoped_def members_def split: row.splits)

definition settled :: "groupInfoRow \<Rightarrow> row list \<Rightarrow> uuid \<Rightarrow> bool" where
  "settled g rs u \<longleftrightarrow> (\<exists>x. RMember x \<in> set rs \<and> membership_row (gr_Uuid g) u (RMember x) \<and> gm_role x = (if u = gr_OwnerId g then 1 else 0))"

definition known_user :: "row list \<Rightarrow> uuid \<Rightarrow> bool" where
  "known_user rs u \<longleftrightarrow> (\<exists>x. RUser x \<in> set rs \<and> ui_uuid x = u)"

definition migrated :: "('d, 'r) env \<Rightarrow> groupInfoRow \<Rightarrow> row list \<Rightarrow> bool" where
  "migrated E g rs \<longleftrightarrow> (\<exists>ms. listed_members g = Some ms \<and> gr_OwnerId g \<in> set ms \<and>
     (\<forall>u \<in> set ms. u \<noteq> [] \<longrightarrow> known_user rs u \<and> settled g rs u) \<and>
     (reads_ok E \<longrightarrow> (\<forall>k. gr_MemberCnt g = Some k \<longrightarrow> k = int (length (filter (group_row (gr_Uuid g)) rs)))))"

context database
begin

lemma wp_memberCount:
  assumes "\<And>n w'. same w w' \<Longrightarrow> n = length (filter (scoped members P) (rows (st_db w))) \<or> n = 0 \<and> \<not> reads_ok E \<Longrightarrow> Q n w'"
  shows "wp (memberCount E P) Q X w"
  unfolding memberCount_def wp_simps
  by (rule wp_Count [OF members.table_axioms]) (auto intro!: assms)

lemma wp_userCount:
  assumes "\<And>n w'. same w w' \<Longrightarrow> (n \<noteq> 0 \<longrightarrow> known_user (rows (st_db w)) u) \<Longrightarrow> Q n w'"
  shows "wp (userCount E u) Q X w"
  unfolding userCount_def wp_simps
proof (rule wp_FindUnscoped [OF users.table_axioms])
  fix xs w'
  assume w': "same w w'" and xs: "\<And>x. x \<in> set xs \<longleftrightarrow> tb_row users x \<in> set (rows (st_db w)) \<and> ui_uuid x = u"
  show "Q (case Inr xs of Inl _ \<Rightarrow> 0 | Inr us \<Rightarrow> length us) w'"
    by (rule assms [OF w']) (use xs [of "hd xs"] in \<open>auto simp: known_user_def intro: exI [of _ "hd xs"]\<close>)
qed (auto intro!: assms)

lemma frame_rows_iff: "same w w1 \<Longrightarrow> frame P w1 w' \<longleftrightarrow> frame P w w'"
  by (simp add: frame_def same_def)

lemma wp_migrate_member:
  assumes "\<And>n a w'. frame (membership_row (gr_Uuid g) u) w w' \<Longrightarrow> (unique_rows (rows (st_db w)) \<Longrightarrow> unique_rows (rows (st_db w'))) \<Longrightarrow>
      (a = 0 \<Longrightarrow> settled g (rows (st_db w')) u) \<Longrightarrow> Q (n, a) w'"
  shows "wp (migrate_member E g u) Q X w"
  unfolding migrate_member_def Let_def wp_bnd
proof (rule wp_memberCount)
  fix n w1
  let ?role = "if u = gr_OwnerId g then 1 else 0 :: int"
  let ?mine = "\<lambda>x. gm_group_id x = gr_Uuid g \<and> gm_user_id x = u"
  let ?upd = "\<lambda>x. x\<lparr>gm_role := ?role, gm_updated_at := e_now E\<rparr>"
  assume w1: "same w w1" and n: "n = length (filter (scoped members ?mine) (rows (st_db w))) \<or> n = 0 \<and> \<not> reads_ok E"
  note rows1 = same_rows [OF w1]
  have fault: "Q (k, 1) w'" if "same w1 w'" for k w'
    by (rule assms) (use w1 that in \<open>simp_all add: frame_def same_def\<close>)
  show "wp (if 0 < n then attempt (Updates E members ?mine ?upd) (\<lambda>r. ret (1, case r of Inl _ \<Rightarrow> 1 | Inr _ \<Rightarrow> 0))
         else attempt (Create E members (migrated_row (e_now E) g u ?role))
             (\<lambda>r. ret (case r of Inl _ \<Rightarrow> (0, 1) | Inr _ \<Rightarrow> (1, 0)))) Q X w1"
  proof (cases "0 < n")
    case True
    with n obtain r where "r \<in> set (rows (st_db w))" "scoped members ?mine r" by (auto simp: filter_empty_conv)
    then obtain x where x: "RMember x \<in> set (rows (st_db w1))" "membership_row (gr_Uuid g) u (RMember x)" "scoped members ?mine (RMember x)"
      by (auto simp: rows1 row_iffs members.scoped_iff)
    have "wp (Updates E members ?mine ?upd) (\<lambda>_. Q (1, 0)) (\<lambda>_. Q (1, 1)) w1"
    proof (rule wp_Updates)
      fix w'
      assume ch: "changed (scoped members ?mine) (on_row members ?upd) w1 w'"
      have "frame (membership_row (gr_Uuid g) u) w1 w'"
        by (rule frame_table [OF ch members.table_axioms]) (auto simp: row_iffs members.scoped_iff)
      moreover have "RMember (?upd x) \<in> set (rows (st_db w'))"
        using changed_image [OF members.table_axioms ch, of x] x(1,3) by simp
      then have "settled g (rows (st_db w')) u"
        unfolding settled_def by (rule exI [where x = "?upd x", OF conjI]) (use x(2) in \<open>simp add: row_iffs\<close>)
      moreover have "unique_rows (rows (st_db w)) \<Longrightarrow> unique_rows (rows (st_db w'))" using ch unfolding changed_def rows1 by blast
      ultimately show "Q (1, 0) w'" using w1 by (intro assms) (simp_all add: frame_rows_iff)
    qed (rule fault)
    with True show ?thesis by (simp add: wp_simps)
  next
    case False
    have "wp (Create E members (migrated_row (e_now E) g u ?role)) (\<lambda>_. Q (1, 0)) (\<lambda>_. Q (0, 1)) w1"
    proof (rule wp_Create [OF members.table_axioms])
      fix y i w'
      assume y: "tb_row members y = set_row_id i (tb_row members (migrated_row (e_now E) g u ?role))"
        and ad: "added (tb_row members y) w1 w'"
      then have row: "membership_row (gr_Uuid g) u (RMember y)" "gm_role y = ?role"
        by (simp_all add: row_iffs migrated_row_def)
      then have "frame (membership_row (gr_Uuid g) u) w1 w'" using ad by (intro frame_added) simp_all
      moreover have "settled g (rows (st_db w')) u" using row ad by (auto simp: settled_def added_rows [OF ad])
      moreover have "unique_rows (rows (st_db w)) \<Longrightarrow> unique_rows (rows (st_db w'))" using ad unfolding added_def rows1 by blast
      ultimately show "Q (1, 0) w'" using w1 by (intro assms) (simp_all add: frame_rows_iff)
    qed (rule fault)
    with False show ?thesis by (simp add: wp_simps)
  qed
qed

lemma member_in_group: "membership_row g u r \<Longrightarrow> group_row g r"
  by (auto simp: row_iffs)

lemma settled_frame: "frame P w w' \<Longrightarrow> (\<And>r. membership_row (gr_Uuid g) u r \<Longrightarrow> \<not> P r) \<Longrightarrow> settled g (rows (st_db w)) u \<Longrightarrow> settled g (rows (st_db w')) u"
  unfolding settled_def using frame_rows by blast

lemma wp_members:
  assumes "\<And>as w'. frame (group_row (gr_Uuid g)) w w' \<Longrightarrow> (unique_rows (rows (st_db w)) \<Longrightarrow> unique_rows (rows (st_db w'))) \<Longrightarrow>
      (sum_list (map snd as) = 0 \<Longrightarrow> \<forall>u \<in> set us. settled g (rows (st_db w')) u) \<Longrightarrow> Q as w'"
    and "distinct us"
  shows "wp (map_each us (migrate_member E g)) Q X w"
proof (rule wp_map_each_upto [where I = "\<lambda>ys (as :: (nat \<times> nat) list) w'. frame (group_row (gr_Uuid g)) w w' \<and>
    (unique_rows (rows (st_db w)) \<longrightarrow> unique_rows (rows (st_db w'))) \<and>
    (sum_list (map snd as) = 0 \<longrightarrow> (\<forall>u \<in> set ys. settled g (rows (st_db w')) u))"])
  fix ys x zs v and as :: "(nat \<times> nat) list"
  assume us: "us = ys @ x # zs" and I: "frame (group_row (gr_Uuid g)) w v \<and>
    (unique_rows (rows (st_db w)) \<longrightarrow> unique_rows (rows (st_db v))) \<and>
    (sum_list (map snd as) = 0 \<longrightarrow> (\<forall>u \<in> set ys. settled g (rows (st_db v)) u))"
  show "wp (migrate_member E g x) (\<lambda>a w'. frame (group_row (gr_Uuid g)) w w' \<and>
    (unique_rows (rows (st_db w)) \<longrightarrow> unique_rows (rows (st_db w'))) \<and>
    (sum_list (map snd (as @ [a])) = 0 \<longrightarrow> (\<forall>u \<in> set (ys @ [x]). settled g (rows (st_db w')) u))) X v"
  proof (rule wp_migrate_member, intro conjI impI)
    fix n a :: nat and w'
    assume f: "frame (membership_row (gr_Uuid g) x) v w'" and u: "unique_rows (rows (st_db v)) \<Longrightarrow> unique_rows (rows (st_db w'))"
      and s: "a = 0 \<Longrightarrow> settled g (rows (st_db w')) x"
    show "frame (group_row (gr_Uuid g)) w w'" using I frame_trans [OF _ frame_mono [OF f, of "group_row (gr_Uuid g)"]] member_in_group by blast
    show "unique_rows (rows (st_db w'))" if "unique_rows (rows (st_db w))" using I u that by blast
    assume z: "sum_list (map snd (as @ [(n, a)])) = 0"
    have "settled g (rows (st_db w')) y" if "y \<in> set ys" for y
      using settled_frame [OF f, of g y] that us assms(2) I z by (auto simp: row_iffs)
    with s z show "\<forall>u \<in> set (ys @ [x]). settled g (rows (st_db w')) u" by simp
  qed
qed (use assms(1) in auto)

lemma distinct_dedupe: "distinct (dedupe seen ms)"
  by (induction seen ms rule: dedupe.induct) (auto simp: set_dedupe)

lemma known_frame: "frame (group_row g) w w' \<Longrightarrow> known_user (rows (st_db w')) u = known_user (rows (st_db w)) u"
  unfolding known_user_def using frame_rows [of "group_row g" w w'] by (auto simp: row_iffs)

lemma wp_counts:
  assumes "\<And>ns w'. same w w' \<Longrightarrow> length ns = length us \<Longrightarrow>
      (\<forall>(u, n) \<in> set (zip us ns). n \<noteq> 0 \<longrightarrow> known_user (rows (st_db w)) u) \<Longrightarrow> Q ns w'"
  shows "wp (map_each us (userCount E)) Q X w"
  by (rule wp_map_each_upto [where I = "\<lambda>ys ns w'. same w w' \<and> length ns = length ys \<and>
      (\<forall>(u, n) \<in> set (zip ys ns). n \<noteq> 0 \<longrightarrow> known_user (rows (st_db w)) u)"])
     (auto intro!: assms wp_userCount intro: same_trans dest: same_rows)

lemma wp_migrate_group:
  assumes "\<And>n s a w'. frame (group_row (gr_Uuid g)) w w' \<Longrightarrow> (unique_rows (rows (st_db w)) \<Longrightarrow> unique_rows (rows (st_db w'))) \<Longrightarrow>
      (a = 0 \<Longrightarrow> migrated E g (rows (st_db w'))) \<Longrightarrow> Q (n, s, a) w'"
  shows "wp (migrate_group E g) Q X w"
proof (cases "listed_members g")
  case None
  then show ?thesis by (simp add: migrate_group_def wp_simps assms)
next
  case (Some ms)
  let ?listed = "dedupe {} ms"
  let ?all = "if gr_OwnerId g \<notin> set ?listed then ?listed @ [gr_OwnerId g] else ?listed"
  show ?thesis
    unfolding migrate_group_def Some Let_def option.case wp_bnd
  proof (rule wp_counts, rule wp_members, rule wp_memberCount, unfold wp_ret, rule assms)
    fix ns w1 w2 n w3 and as :: "(nat \<times> nat) list"
    let ?valid = "map fst (filter (\<lambda>(_, n). n \<noteq> 0) (zip ?all ns))"
    assume w1: "same w w1" and len: "length ns = length ?all"
      and known: "\<forall>(u, n) \<in> set (zip ?all ns). n \<noteq> 0 \<longrightarrow> known_user (rows (st_db w)) u"
      and f: "frame (group_row (gr_Uuid g)) w1 w2" and u: "unique_rows (rows (st_db w1)) \<Longrightarrow> unique_rows (rows (st_db w2))"
      and s: "sum_list (map snd as) = 0 \<Longrightarrow> \<forall>u \<in> set ?valid. settled g (rows (st_db w2)) u"
      and w3: "same w2 w3" and n: "n = length (filter (scoped members (\<lambda>x. gm_group_id x = gr_Uuid g)) (rows (st_db w2))) \<or> n = 0 \<and> \<not> reads_ok E"
    show frame: "frame (group_row (gr_Uuid g)) w w3" using w1 f w3 frame_same frame_trans by blast
    show "unique_rows (rows (st_db w3))" if "unique_rows (rows (st_db w))" using that u same_rows [OF w1] same_rows [OF w3] by simp
    assume "of_bool (gr_OwnerId g \<notin> set ?listed) + length (filter (\<lambda>n. n = 0) ns) + sum_list (map snd as) +
        of_bool (case gr_MemberCnt g of None \<Rightarrow> False | Some k \<Rightarrow> k \<noteq> int n) = (0::nat)"
    then have z: "gr_OwnerId g \<in> set ?listed" "\<forall>n \<in> set ns. n \<noteq> 0" "sum_list (map snd as) = 0"
        "\<And>k. gr_MemberCnt g = Some k \<Longrightarrow> k = int n"
      by (auto simp: filter_empty_conv)
    have "filter (\<lambda>(_, n). n \<noteq> 0) (zip ?all ns) = zip ?all ns" using z(2) by (auto simp: filter_id_conv dest: set_zip_rightD)
    then have valid: "set ?valid = set ?listed" using len z(1) by simp
    have "known_user (rows (st_db w3)) v \<and> settled g (rows (st_db w3)) v" if v: "v \<in> set ms" "v \<noteq> []" for v
    proof -
      have "v \<in> set ?all" using v by (simp add: set_dedupe)
      then obtain k where "(v, k) \<in> set (zip ?all ns)" using len by (metis in_set_impl_in_set_zip1)
      with known z(2) have "known_user (rows (st_db w3)) v" unfolding known_frame [OF frame] by (auto dest: set_zip_rightD)
      moreover have "v \<in> set ?valid" unfolding valid using v by (simp add: set_dedupe)
      ultimately show ?thesis unfolding same_rows [OF w3] using s z(3) by blast
    qed
    moreover have "gr_OwnerId g \<in> set ms" using z(1) by (simp add: set_dedupe)
    moreover have "k = int (length (filter (group_row (gr_Uuid g)) (rows (st_db w3))))" if "reads_ok E" "gr_MemberCnt g = Some k" for k
      using n that z(4) same_rows [OF w3] by (simp add: group_row_def)
    ultimately show "migrated E g (rows (st_db w3))" unfolding migrated_def using Some by blast
  qed (rule distinct_fst_zip, simp add: distinct_dedupe set_dedupe)
qed

lemma migrated_frame:
  assumes f: "frame (group_row h) w w'" and "h \<noteq> gr_Uuid g" and m: "migrated E g (rows (st_db w))"
  shows "migrated E g (rows (st_db w'))"
proof -
  have "filter (group_row (gr_Uuid g)) rs = filter (group_row (gr_Uuid g)) (filter (\<lambda>r. \<not> group_row h r) rs)" for rs
    using assms(2) by (induction rs) (auto simp: row_iffs)
  then have "filter (group_row (gr_Uuid g)) (rows (st_db w')) = filter (group_row (gr_Uuid g)) (rows (st_db w))"
    using f unfolding frame_def by metis
  moreover have "settled g (rows (st_db w)) u \<Longrightarrow> settled g (rows (st_db w')) u" for u
    by (rule settled_frame [OF f]) (use assms(2) in \<open>auto simp: row_iffs\<close>)
  ultimately show ?thesis using m known_frame [OF f] unfolding migrated_def by metis
qed

lemma wp_migrate_main:
  assumes gs: "distinct (map gr_Uuid gs)" and n: "0 < n"
    and Q: "\<And>w'. frame (\<lambda>r. \<exists>g \<in> set gs. group_row (gr_Uuid g) r) w w' \<Longrightarrow> (unique_rows (rows (st_db w)) \<Longrightarrow> unique_rows (rows (st_db w'))) \<Longrightarrow>
      \<forall>g \<in> set gs. migrated E g (rows (st_db w')) \<Longrightarrow> Q 0 w'"
    and Q1: "\<And>w'. frame (\<lambda>r. \<exists>g \<in> set gs. group_row (gr_Uuid g) r) w w' \<Longrightarrow> (unique_rows (rows (st_db w)) \<Longrightarrow> unique_rows (rows (st_db w'))) \<Longrightarrow> Q 1 w'"
  shows "wp (migrate_main E (Some n) True (Some gs)) Q X w"
proof -
  let ?F = "\<lambda>r. \<exists>g \<in> set gs. group_row (gr_Uuid g) r"
  let ?sum = "\<lambda>as :: (nat \<times> nat \<times> nat) list. sum_list (map (\<lambda>(_, _, a). a) as)"
  have "wp (map_each gs (migrate_group E)) (\<lambda>as w'. frame ?F w w' \<and> (unique_rows (rows (st_db w)) \<longrightarrow> unique_rows (rows (st_db w'))) \<and>
      (?sum as = 0 \<longrightarrow> (\<forall>g \<in> set gs. migrated E g (rows (st_db w'))))) X w"
  proof (rule wp_map_each_upto [where I = "\<lambda>ys as w'. frame ?F w w' \<and> (unique_rows (rows (st_db w)) \<longrightarrow> unique_rows (rows (st_db w'))) \<and>
      (?sum as = 0 \<longrightarrow> (\<forall>g \<in> set ys. migrated E g (rows (st_db w'))))"])
    fix ys g zs as v
    assume split: "gs = ys @ g # zs" and I: "frame ?F w v \<and> (unique_rows (rows (st_db w)) \<longrightarrow> unique_rows (rows (st_db v))) \<and>
      (?sum as = 0 \<longrightarrow> (\<forall>g \<in> set ys. migrated E g (rows (st_db v))))"
    show "wp (migrate_group E g) (\<lambda>a w'. frame ?F w w' \<and> (unique_rows (rows (st_db w)) \<longrightarrow> unique_rows (rows (st_db w'))) \<and>
      (?sum (as @ [a]) = 0 \<longrightarrow> (\<forall>g \<in> set (ys @ [g]). migrated E g (rows (st_db w'))))) X v"
    proof (rule wp_migrate_group, intro conjI impI)
      fix k s a :: nat and w'
      assume f: "frame (group_row (gr_Uuid g)) v w'" and u: "unique_rows (rows (st_db v)) \<Longrightarrow> unique_rows (rows (st_db w'))"
        and m: "a = 0 \<Longrightarrow> migrated E g (rows (st_db w'))"
      have "frame ?F v w'" by (rule frame_mono [OF f]) (use split in auto)
      with I show "frame ?F w w'" using frame_trans by blast
      show "unique_rows (rows (st_db w'))" if "unique_rows (rows (st_db w))" using I u that by blast
      assume z: "?sum (as @ [(k, s, a)]) = 0"
      have "migrated E h (rows (st_db w'))" if "h \<in> set ys" for h
        by (rule migrated_frame [OF f]) (use that split gs I z in auto)
      with m z show "\<forall>g \<in> set (ys @ [g]). migrated E g (rows (st_db w'))" by simp
    qed
  qed auto
  then have "wp (map_each gs (migrate_group E)) (\<lambda>as. Q (if 0 < ?sum as then 1 else 0)) X w"
    by (rule wp_mono) (use Q Q1 in auto)
  then show ?thesis using n by (simp add: migrate_main_def Let_def wp_simps)
qed

end

section \<open>The migration\<close>

text \<open>C34. The migration ends. It touches live memberships of the old groups only, and leaves no user with two of
  them in a group. When its status is 0, every old list was JSON and held the owner; every user it names is
  in the table of users and has exactly one live row in the group, as the owner or as an ordinary member,
  and the old counters are right. That holds whatever rows the members had before: someone who was removed
  or has left since is a member again after a second run, and an administrator is one no more, which is not
  the repeatability that the comment promises.\<close>

theorem migration_restores_members:
  assumes "database E rows" and "unique_rows (rows (st_db w))" and "distinct (map gr_Uuid gs)" and "0 < n"
  shows "\<exists>status w'. migrate_main E (Some n) True (Some gs) w = Some (Inr status, w') \<and>
    database.frame rows (\<lambda>r. \<exists>g \<in> set gs. group_row (gr_Uuid g) r) w w' \<and> unique_rows (rows (st_db w')) \<and>
    (status = 0 \<longrightarrow> (\<forall>g \<in> set gs. \<exists>ms. listed_members g = Some ms \<and> gr_OwnerId g \<in> set ms \<and>
      (\<forall>u \<in> set ms. u \<noteq> [] \<longrightarrow> known_user (rows (st_db w')) u \<and>
        (\<exists>x. {r \<in> set (rows (st_db w')). membership_row (gr_Uuid g) u r} = {RMember x} \<and>
          gm_role x = (if u = gr_OwnerId g then 1 else 0))) \<and>
      (reads_ok E \<longrightarrow> (\<forall>k. gr_MemberCnt g = Some k \<longrightarrow> k = int (length (filter (group_row (gr_Uuid g)) (rows (st_db w'))))))))"
proof -
  have one: "\<exists>x. {r \<in> set rs. membership_row (gr_Uuid g) u r} = {RMember x} \<and> gm_role x = (if u = gr_OwnerId g then 1 else 0)"
    if "settled g rs u" "unique_rows rs" for g rs u
  proof -
    from that(1) obtain x where x: "RMember x \<in> set rs" "membership_row (gr_Uuid g) u (RMember x)"
        "gm_role x = (if u = gr_OwnerId g then 1 else 0)" unfolding settled_def by blast
    have "r = RMember x" if r: "r \<in> set rs" "membership_row (gr_Uuid g) u r" for r
      using unique_rowsD [OF \<open>unique_rows rs\<close> r(1) x(1)] r(2) x(2) by (fastforce simp: row_iffs conflict_def)
    with x show ?thesis by blast
  qed
  have "wp (migrate_main E (Some n) True (Some gs)) (\<lambda>status w'. database.frame rows (\<lambda>r. \<exists>g \<in> set gs. group_row (gr_Uuid g) r) w w' \<and>
      unique_rows (rows (st_db w')) \<and> (status = 0 \<longrightarrow> (\<forall>g \<in> set gs. migrated E g (rows (st_db w'))))) (\<lambda>_ _. False) w"
    by (rule database.wp_migrate_main [OF assms(1,3,4)]) (use assms(2) in auto)
  then obtain status w' where run: "migrate_main E (Some n) True (Some gs) w = Some (Inr status, w')"
    and f: "database.frame rows (\<lambda>r. \<exists>g \<in> set gs. group_row (gr_Uuid g) r) w w'" and u: "unique_rows (rows (st_db w'))"
    and m: "status = 0 \<Longrightarrow> \<forall>g \<in> set gs. migrated E g (rows (st_db w'))"
    by (auto elim!: wpE)
  show ?thesis
    by (rule exI, rule exI, intro conjI, rule run, rule f, rule u) (use m one [OF _ u] in \<open>fastforce simp: migrated_def\<close>)
qed

text \<open>The old row of the group \<open>G1\<close>, from which \<open>U2\<close> has gone meanwhile.\<close>

definition demo_old_group :: groupInfoRow where
  "demo_old_group = \<lparr>gr_Uuid = ''G1'', gr_OwnerId = ''U1'', gr_Members = ''[\"U1\",\"U2\",\"U1\"]'', gr_MemberCnt = Some 2, gr_CreatedAt = 1\<rparr>"

definition demo_left :: "(mem_db, mem_redis) stores" where
  "demo_left = demo\<lparr>st_db := (st_db demo)\<lparr>md_rows :=
     [RUser (demo_user 1 ''U1''), RUser (demo_user 2 ''U2''), RGroup demo_group, RMember (demo_member 4 ''U1'' 1),
      RMember ((demo_member 5 ''U2'' 0)\<lparr>gm_status := 2, gm_deleted_at := 4\<rparr>)]\<rparr>\<rparr>"

lemma demo_listed: "listed_members demo_old_group = Some [''U1'', ''U2'', ''U1'']"
  by code_simp

lemma demo_old_fields:
  "gr_Uuid demo_old_group = ''G1''" "gr_OwnerId demo_old_group = ''U1''" "gr_MemberCnt demo_old_group = Some 2" "gr_CreatedAt demo_old_group = 1"
  by (simp_all add: demo_old_group_def)

lemma unique_rows_left: "unique_rows (md_rows (st_db demo_left))"
  by (simp add: demo_left_def unique_rows_def conflict_def demo_user_def demo_group_def demo_member_def)

lemma demo_migrates: "\<exists>w'. migrate_main (mem_env_reads 9) (Some 2) True (Some [demo_old_group]) demo_left = Some (Inr 0, w')"
  by (simp add: migrate_main_def migrate_group_def demo_listed demo_old_fields migrate_member_def memberCount_def userCount_def
      migrated_row_def demo_left_def demo_defs run_defs)

theorem migration_restores_members_witness:
  "\<exists>w'. migrate_main (mem_env_reads 9) (Some 2) True (Some [demo_old_group]) demo_left = Some (Inr 0, w') \<and>
     filter (membership_row ''G1'' ''U2'') (md_rows (st_db demo_left)) = [] \<and>
     (\<exists>r \<in> set (md_rows (st_db w')). membership_row ''G1'' ''U2'' r)"
proof -
  from demo_migrates obtain w' where run: "migrate_main (mem_env_reads 9) (Some 2) True (Some [demo_old_group]) demo_left = Some (Inr 0, w')"
    by blast
  have *: "distinct (map gr_Uuid [demo_old_group])" "(0::nat) < 2" by simp_all
  have "\<exists>x. {r \<in> set (md_rows (st_db w')). membership_row ''G1'' ''U2'' r} = {RMember x}"
    using migration_restores_members [OF mem_rows.database_axioms unique_rows_left *, of False 9] run
    by (auto simp: demo_listed demo_old_fields)
  moreover have "filter (membership_row ''G1'' ''U2'') (md_rows (st_db demo_left)) = []"
    by (simp add: demo_left_def row_iffs demo_user_def demo_group_def demo_member_def)
  ultimately show ?thesis using run by blast
qed

end
