(* ===== verification/Aes.thy ===== *)
theory Aes
  imports Json
begin

text \<open>
  \<open>service/aes\<close>: AES in CFB mode, which no other part of the program calls. The block cipher is the standard
  library's, an argument; the mode of operation is written out.
\<close>

definition xor_char :: "char \<Rightarrow> char \<Rightarrow> char" where
  "xor_char a b = char_of (xor (of_char a) (of_char b :: nat))"

definition xor_bytes :: "string \<Rightarrow> string \<Rightarrow> string" where
  "xor_bytes xs ys = map (\<lambda>(a, b). xor_char a b) (zip xs ys)"

text \<open>\<open>cipher.NewCFBEncrypter\<close> with \<open>XORKeyStream\<close>: each block is combined with the encryption of the one before.\<close>

function cfb_encrypt :: "(string \<Rightarrow> string) \<Rightarrow> string \<Rightarrow> string \<Rightarrow> string" where
  "cfb_encrypt block prev data =
     (if data = [] then []
      else let c = xor_bytes (take 16 data) (block prev) in c @ cfb_encrypt block c (drop 16 data))"
  by pat_completeness auto
termination by (relation "measure (\<lambda>(_, _, d). length d)") auto

declare cfb_encrypt.simps [simp del]

text \<open>\<open>aes.NewCipher\<close> knows keys of 16, 24 and 32 bytes. The vector is cut or filled with zeros to a block.\<close>

definition encryptAES :: "(string \<Rightarrow> string \<Rightarrow> string) \<Rightarrow> string \<Rightarrow> string \<Rightarrow> string \<Rightarrow> string option" where
  "encryptAES aes data key iv =
     (if length key \<notin> {16, 24, 32} then None
      else
        let ivCopy = take 16 iv @ replicate (16 - length iv) (char_of (0 :: nat))
        in Some (b64_encode (ivCopy @ cfb_encrypt (aes key) ivCopy data)))"

section \<open>The result can be decrypted\<close>

text \<open>Decryption of CFB: the reference.\<close>

function cfb_decrypt :: "(string \<Rightarrow> string) \<Rightarrow> string \<Rightarrow> string \<Rightarrow> string" where
  "cfb_decrypt block prev c =
     (if c = [] then []
      else xor_bytes (take 16 c) (block prev) @ cfb_decrypt block (take 16 c) (drop 16 c))"
  by pat_completeness auto
termination by (relation "measure (\<lambda>(_, _, d). length d)") auto

declare cfb_decrypt.simps [simp del]

lemma of_xor_char: "of_char (xor_char a b) = xor (of_char a) (of_char b :: nat)"
proof -
  have c: "take_bit 8 (of_char x :: nat) = of_char x" for x by (simp add: take_bit_eq_mod)
  have "of_char (xor_char a b) = take_bit 8 (xor (of_char a) (of_char b :: nat))"
    by (simp add: xor_char_def take_bit_eq_mod)
  then show ?thesis by (simp only: take_bit_xor c)
qed

lemma xor_char_twice: "xor_char (xor_char a b) b = a"
  unfolding xor_char_def [of "xor_char a b"] of_xor_char by (simp add: xor.assoc)

lemma length_xor_bytes [simp]: "length (xor_bytes xs ys) = min (length xs) (length ys)"
  by (simp add: xor_bytes_def)

lemma xor_bytes_twice: "length xs \<le> length ks \<Longrightarrow> xor_bytes (xor_bytes xs ks) ks = xs"
  by (induction xs ks rule: list_induct2') (auto simp: xor_bytes_def xor_char_twice)

lemma cfb_roundtrip:
  assumes "\<And>b. length (block b) = 16"
  shows "cfb_decrypt block prev (cfb_encrypt block prev data) = data"
  using assms
proof (induction block prev data rule: cfb_encrypt.induct)
  case (1 block prev data)
  show ?case
  proof (cases "data = []")
    case False
    let ?c = "xor_bytes (take 16 data) (block prev)"
    have enc: "cfb_encrypt block prev data = ?c @ cfb_encrypt block ?c (drop 16 data)"
      by (subst cfb_encrypt.simps) (simp add: False Let_def)
    have c: "length ?c = min 16 (length data)" using 1(2) by (simp add: min.commute)
    then have "0 < length ?c" using False by (metis length_greater_0_conv min_less_iff_conj zero_less_numeral)
    then have ne: "?c \<noteq> []" by fastforce
    have split: "take 16 (?c @ cfb_encrypt block ?c (drop 16 data)) = ?c \<and>
        drop 16 (?c @ cfb_encrypt block ?c (drop 16 data)) = cfb_encrypt block ?c (drop 16 data)"
    proof (cases "length data < 16")
      case True
      then have "cfb_encrypt block ?c (drop 16 data) = []" by (simp add: cfb_encrypt.simps)
      with True c show ?thesis by simp
    qed (use c in simp)
    have "cfb_decrypt block prev (?c @ cfb_encrypt block ?c (drop 16 data)) =
        xor_bytes ?c (block prev) @ cfb_decrypt block ?c (cfb_encrypt block ?c (drop 16 data))"
      unfolding cfb_decrypt.simps [of block prev "_ @ _"] conjunct1 [OF split] conjunct2 [OF split] using ne by simp
    also have "\<dots> = take 16 data @ drop 16 data"
      using 1 False by (simp add: xor_bytes_twice)
    finally show ?thesis by (simp add: enc)
  qed (simp add: cfb_encrypt.simps cfb_decrypt.simps)
qed

text \<open>For a key of a known length the result is the vector, as a block, and what a decryption under the key turns
  into the data.\<close>

theorem aes_roundtrip:
  assumes "\<And>b. length (aes key b) = 16" and "encryptAES aes data key iv = Some out"
  shows "\<exists>v c. b64_decode out = Some (v @ c) \<and> length v = 16 \<and> (16 \<le> length iv \<longrightarrow> v = take 16 iv) \<and> cfb_decrypt (aes key) v c = data"
proof -
  let ?v = "take 16 iv @ replicate (16 - length iv) (char_of (0 :: nat))"
  have "b64_decode out = Some (?v @ cfb_encrypt (aes key) ?v data)"
    using assms(2) by (auto simp: encryptAES_def Let_def b64_roundtrip split: if_splits)
  moreover have "cfb_decrypt (aes key) ?v (cfb_encrypt (aes key) ?v data) = data"
    by (rule cfb_roundtrip) (rule assms(1))
  ultimately show ?thesis by (intro exI [of _ ?v] exI) auto
qed

end
