(* ===== verification/Smtp.thy ===== *)
theory Smtp
  imports Config Auth
begin

text \<open>
  \<open>sendSMTP\<close> of \<open>service/email\<close>: the mail with a code, and the commands that send it. What the network and the mail server
  make of a command is an argument; \<open>MAIL\<close> and \<open>RCPT\<close> with a line break are refused by the client of \<open>net/smtp\<close>.
\<close>

definition utf8 :: "nat list \<Rightarrow> string" where
  "utf8 cs = concat (map utf8_encode cs)"

abbreviation crlf :: string where "crlf \<equiv> [CHR 0x0D, CHR 0x0A]"

definition mail_subject :: string where
  "mail_subject = utf8 [0x90AE, 0x7BB1, 0x9A8C, 0x8BC1, 0x7801]"

definition mail_body :: "string \<Rightarrow> string" where
  "mail_body code =
     utf8 [0x60A8, 0x7684, 0x9A8C, 0x8BC1, 0x7801, 0x662F, 0xFF1A] @ code @ [CHR 0x0A, CHR 0x0A] @
     utf8 [0x9A8C, 0x8BC1, 0x7801, 0x6709, 0x6548, 0x671F, 0x4E3A, 0x35, 0x5206, 0x949F, 0xFF0C, 0x8BF7, 0x52FF, 0x6CC4,
       0x9732, 0x7ED9, 0x4ED6, 0x4EBA, 0x3002]"

definition mail_text :: "EmailConfig \<Rightarrow> string \<Rightarrow> string \<Rightarrow> string" where
  "mail_text cfg to code =
     ''From: '' @ em_From cfg @ crlf @ ''To: '' @ to @ crlf @ ''Subject: '' @ mail_subject @ crlf @
     ''MIME-Version: 1.0'' @ crlf @ ''Content-Type: text/plain; charset=UTF-8'' @ crlf @ crlf @ mail_body code"

datatype smtp_command =
  SmtpDial string string | SmtpHello string | SmtpAuth string string string | SmtpMail string | SmtpRcpt string |
  SmtpData | SmtpWrite string | SmtpClose | SmtpSendMail string string string string string string

text \<open>A line of the protocol: \<open>validateLine\<close> of \<open>net/smtp\<close>\<close>

definition smtp_line :: "string \<Rightarrow> bool" where
  "smtp_line s \<longleftrightarrow> CHR 0x0A \<notin> set s \<and> CHR 0x0D \<notin> set s"

definition accepted :: "(smtp_command \<Rightarrow> bool) \<Rightarrow> smtp_command \<Rightarrow> bool" where
  "accepted net c \<longleftrightarrow>
     (case c of
        SmtpMail from_ \<Rightarrow> smtp_line from_
      | SmtpRcpt to \<Rightarrow> smtp_line to
      | SmtpSendMail _ _ _ from_ to _ \<Rightarrow> smtp_line from_ \<and> smtp_line to
      | _ \<Rightarrow> True) \<and> net c"

text \<open>The commands up to the first error, and whether there was none.\<close>

fun run_smtp :: "(smtp_command \<Rightarrow> bool) \<Rightarrow> smtp_command list \<Rightarrow> smtp_command list \<times> bool" where
  "run_smtp net [] = ([], True)"
| "run_smtp net (c # cs) =
     (if accepted net c then (case run_smtp net cs of (run, ok) \<Rightarrow> (c # run, ok)) else ([], False))"

definition sendSMTP :: "EmailConfig \<Rightarrow> (smtp_command \<Rightarrow> bool) \<Rightarrow> string \<Rightarrow> string \<Rightarrow> smtp_command list \<times> bool" where
  "sendSMTP cfg net to code =
     (if em_Host cfg = [] \<or> em_Username cfg = [] then ([], False)
      else
        let msg = mail_text cfg to code;
            addr = em_Host cfg @ '':'' @ itoa (em_Port cfg)
        in run_smtp net
          (if em_Port cfg = 465 then
             [SmtpDial addr (em_Host cfg), SmtpHello (em_Host cfg), SmtpAuth (em_Username cfg) (em_Password cfg) (em_Host cfg),
              SmtpMail (em_From cfg), SmtpRcpt to, SmtpData, SmtpWrite msg, SmtpClose]
           else [SmtpSendMail addr (em_Username cfg) (em_Password cfg) (em_From cfg) to msg]))"

section \<open>What is sent\<close>

definition mail_headers :: "EmailConfig \<Rightarrow> string \<Rightarrow> string list" where
  "mail_headers cfg to =
     [''From: '' @ em_From cfg, ''To: '' @ to, ''Subject: '' @ mail_subject, ''MIME-Version: 1.0'', ''Content-Type: text/plain; charset=UTF-8'']"

lemma is_char_of: "c = char_of n \<longleftrightarrow> of_char c = n mod (256 :: nat)"
  by (metis of_char_eq_iff of_char_of)

lemma mail_subject_line: "smtp_line mail_subject"
  by (simp add: smtp_line_def mail_subject_def utf8_def utf8_encode_def is_char_of)

text \<open>A mail that was sent is to the one receiver and has the five headers, none of which the receiver's address can add to.\<close>

theorem mail_sent:
  assumes "sendSMTP cfg net to code = (run, True)"
  shows "mail_text cfg to code = concat (map (\<lambda>h. h @ crlf) (mail_headers cfg to)) @ crlf @ mail_body code \<and>
    (\<forall>h \<in> set (mail_headers cfg to). smtp_line h) \<and>
    (if em_Port cfg = 465 then [c \<leftarrow> run. \<exists>t. c = SmtpRcpt t] = [SmtpRcpt to] \<and> [c \<leftarrow> run. \<exists>t. c = SmtpWrite t] = [SmtpWrite (mail_text cfg to code)]
     else run = [SmtpSendMail (em_Host cfg @ '':'' @ itoa (em_Port cfg)) (em_Username cfg) (em_Password cfg) (em_From cfg) to (mail_text cfg to code)])"
proof -
  have "smtp_line (em_From cfg) \<and> smtp_line to"
    using assms by (auto simp: sendSMTP_def Let_def accepted_def split: if_splits)
  then have "\<forall>h \<in> set (mail_headers cfg to). smtp_line h"
    using mail_subject_line by (auto simp: mail_headers_def smtp_line_def)
  moreover have "mail_text cfg to code = concat (map (\<lambda>h. h @ crlf) (mail_headers cfg to)) @ crlf @ mail_body code"
    by (simp add: mail_text_def mail_headers_def)
  moreover have "if em_Port cfg = 465 then [c \<leftarrow> run. \<exists>t. c = SmtpRcpt t] = [SmtpRcpt to] \<and> [c \<leftarrow> run. \<exists>t. c = SmtpWrite t] = [SmtpWrite (mail_text cfg to code)]
     else run = [SmtpSendMail (em_Host cfg @ '':'' @ itoa (em_Port cfg)) (em_Username cfg) (em_Password cfg) (em_From cfg) to (mail_text cfg to code)]"
    using assms by (auto simp: sendSMTP_def Let_def split: if_splits)
  ultimately show ?thesis by blast
qed

text \<open>An answer of \<open>SendEmailCode\<close> that the code was sent means that the mail was.\<close>

theorem code_sent_by_mail:
  assumes "answer (SendEmailCode E r (\<lambda>to code. snd (sendSMTP cfg net to code)) email) w = Some ((m, 0), w')"
  shows "\<exists>run. sendSMTP cfg net (normalizeEmail email) (email_code r) = (run, True)"
proof -
  have "snd (sendSMTP cfg net (normalizeEmail email) (email_code r))"
    using assms by (auto simp: SendEmailCode_def Let_def answer_def bnd_def or_throw_def attempt_def guard_def throw_def ret_def logged_def
        split: option.splits sum.splits if_splits)
  then show ?thesis by (cases "sendSMTP cfg net (normalizeEmail email) (email_code r)") auto
qed

end
