(* ===== verification/Consumer_Restart.thy ===== *)
theory Consumer_Restart
  imports Hybrid_Router
begin

text \<open>
  The delays of \<open>consumeKafkaMessages\<close> in \<open>chat/hybrid_router.go\<close>: after reads that fail, and after panics, from which
  the outer loop recovers. \<open>Hybrid_Router\<close> has the rounds between them.
\<close>

abbreviation baseDelay :: time where "baseDelay \<equiv> 100 * millisecond"
abbreviation maxDelay :: time where "maxDelay \<equiv> 30 * second"
abbreviation maxRetryCount :: nat where "maxRetryCount \<equiv> 10"

text \<open>A read that fails after \<open>retryCount\<close> others: what is slept, and the counter. A read that succeeds sets it to 0.\<close>

definition failed_read :: "nat \<Rightarrow> time list \<times> nat" where
  "failed_read retryCount =
     (let n = retryCount + 1;
          delay = min (baseDelay * 2 ^ n) maxDelay
      in if maxRetryCount \<le> n then ([delay, maxDelay], 0) else ([delay], n))"

fun failed_reads :: "nat \<Rightarrow> nat \<Rightarrow> time list \<times> nat" where
  "failed_reads c 0 = ([], c)"
| "failed_reads c (Suc k) =
     (case failed_read c of (ds, c') \<Rightarrow> (case failed_reads c' k of (es, c'') \<Rightarrow> (ds @ es, c'')))"

text \<open>A life of the consumer: it sets the delay to a second when it begins. With a panic it sleeps the delay and
  doubles it; \<open>None\<close>: it was told to quit.\<close>

definition consumer_life :: "bool \<Rightarrow> time \<Rightarrow> (time \<times> time) option" where
  "consumer_life panics restartDelay =
     (let restartDelay = second in
      if panics then Some (restartDelay, min (restartDelay * 2) maxDelay) else None)"

text \<open>What is slept between the lives, until one is told to quit.\<close>

fun consumer_lives :: "time \<Rightarrow> bool list \<Rightarrow> time list" where
  "consumer_lives d [] = []"
| "consumer_lives d (p # ps) = (case consumer_life p d of None \<Rightarrow> [] | Some (slept, d') \<Rightarrow> slept # consumer_lives d' ps)"

text \<open>The counter stays below its maximum, no delay is above 30 seconds, and none is below 200 milliseconds.\<close>

theorem read_delays_bounded:
  assumes "c < maxRetryCount"
  shows "snd (failed_reads c k) < maxRetryCount \<and> (\<forall>d \<in> set (fst (failed_reads c k)). 200 * millisecond \<le> d \<and> d \<le> maxDelay)"
  using assms
proof (induction k arbitrary: c)
  case (Suc k)
  have p: "(2 :: int) \<le> 2 ^ (c + 1)" by simp
  have "snd (failed_read c) < maxRetryCount \<and> (\<forall>d \<in> set (fst (failed_read c)). 200 * millisecond \<le> d \<and> d \<le> maxDelay)"
    using p by (simp add: failed_read_def Let_def)
  with Suc.IH [of "snd (failed_read c)"] show ?case by (auto split: prod.splits)
qed simp

text \<open>However often the consumer panics, it is started again after one second: the delay is doubled, and then reset by
  the next life before it is used. The comment promises an exponential backoff up to 30 seconds.\<close>

theorem restart_never_backs_off: "consumer_lives d ps = replicate (length (takeWhile id ps)) second"
  by (induction ps arbitrary: d) (auto simp: consumer_life_def)

end
