(* ===== verification/Spec2Isabelle.thy ===== *)
theory Spec2Isabelle
  imports Session_System Backpressure Session_Ring Contact_Safety Session_Safety Message_Safety Account_Safety
    Client_Safety Bus_Safety Login_Lock Hybrid_Safety Kafka_Safety Server_Safety
    File_Safety Connection_Safety Startup_Safety Metrics_Export Migration_Safety Aes Smtp Consumer_Restart
begin

text \<open>
  A verification library for the MygoChat server, a chat server in Go: users with accounts,
  contacts and groups; sessions between them; messages over WebSocket connections, kept in MySQL with Redis
  as a cache, routed through a channel of the process or through Kafka, and delivered to users of this and
  of other instances. Paths below are under \<open>src/internal\<close> unless they begin with \<open>pkg\<close>, \<open>api\<close> or \<open>cmd\<close>.

  The parts of the program and the way of a message. A frame arrives at \<open>Client.Read\<close>, which asks
  \<open>IsBlocked\<close> and hands it to the server of the mode the process runs in: \<open>Server\<close> (channel), \<open>KafkaServer\<close> or
  \<open>HybridRouter\<close>. The hybrid router may forward the frame to the home of its session (\<open>SessionRing\<close>, over the
  \<open>InstanceBus\<close>); at home it numbers the message in its session, wraps it into an envelope and puts it
  into its channel or, when \<open>BackpressureDetector\<close> says so, into Kafka. From both, envelopes come to the
  queues of \<open>SessionRouter\<close>, which calls \<open>MessageProcessor\<close> in the order of the numbers. The processor
  gives the row to \<open>MessageBatchWriter\<close>, the frames to \<open>Distributor\<close> and \<open>FanoutExecutor\<close>, and a task to the
  cache worker. \<open>Client.Write\<close> writes the frames out and reports each to the worker that sets the status of
  the row. The HTTP interface goes through the routes and middlewares of \<open>https_server\<close> to the handlers of \<open>api/v1\<close>, which
  call the services under \<open>service/gorm\<close> on the same database and cache; a handshake at \<open>/wss\<close> makes a client.

  Foundations.
  \<^item> \<open>Prelude\<close>: channels, contexts, small lemmas. \<open>Go_Strings\<close>, \<open>Json\<close>, \<open>Hashes\<close>: what the source uses of Go's
    \<open>strings\<close>, \<open>strconv\<close>, \<open>time\<close>, \<open>encoding/json\<close>, \<open>encoding/base64\<close>, \<open>hash/crc32\<close>, \<open>hash/fnv\<close> and \<open>crypto/sha256\<close>.
    \<open>Wire\<close> and \<open>Codecs\<close>: the records of \<open>dto\<close> with their JSON and round trips.
  \<^item> \<open>Effects\<close>: sequential code with early returns on a shared state (\<open>act\<close>), with \<open>wp\<close> rules; \<open>None\<close> is a call
    that does not return. \<open>Redis_Store\<close> and \<open>Database\<close>: the statements the code issues on Redis and through GORM,
    as records of operations on unknown states, with their contracts as locales (\<open>redis_strings\<close>, \<open>redis_sets\<close>,
    \<open>redis_scan\<close>, \<open>redis_counters\<close>, \<open>table\<close>, \<open>database\<close>, \<open>backend\<close>); \<open>Redis_Memory\<close> and \<open>Database_Memory\<close> are stores in memory with schedules of faults that interpret them
    and serve the witnesses. \<open>Redis_Iteration\<close>: the iteration over the keys of a pattern and what a deletion by a pattern leaves. \<open>Models\<close>: the tables of \<open>model\<close>. \<open>Service_Base\<close>: what all services share.

  The routing.
  \<^item> \<open>Session_Router\<close> (\<open>service/chat/session_router.go\<close>), \<open>Session_Order\<close>, \<open>Session_System\<close>: queues, the worker with its
    reorder buffer, enqueueing and waiting, cleanup, close; then all of them as a transition system.
    The messages of a session are processed in order, once; answers are earned and given once; the
    cleanup loses a session's number.
  \<^item> \<open>Backpressure\<close> (\<open>backpressure_detector.go\<close>), \<open>Session_Ring\<close> (\<open>session_ring.go\<close>), \<open>Metrics\<close> (\<open>metrics.go\<close>).
  \<^item> \<open>Hybrid_Router\<close> (\<open>hybrid_router.go\<close> and the dead letters of \<open>service/kafka/kafka_service.go\<close>): the state \<open>hybrid\<close> contains the
    session router, which contains the process. \<open>Hybrid_Safety\<close>: the order from the numbering to the processor,
    end to end; what a refused message and a restart do. \<open>Kafka_Safety\<close>: the consumer against the contract
    \<open>kafka_group\<close> of a consumer group, whose offsets are kept for each partition of the topic. \<open>Consumer_Restart\<close>: its delays after errors and panics.

  The process.
  \<^item> \<open>Chat_State\<close>: the state of package \<open>chat\<close>. A \<open>*Client\<close> is an index into \<open>ch_heap\<close>, so that an old and a new
    connection of a user are told apart. \<open>Chat_Memory\<close>: a process in memory.
  \<^item> \<open>Client_Delivery\<close> (\<open>client.go\<close>, \<open>service/presence\<close>), \<open>Client_Safety\<close>: well-formedness of every reachable state, the status
    worker, the late disconnect. \<open>Login_Lock\<close>: the mutex that the calls of a server share with its main loop.
  \<^item> \<open>Message_Batch\<close> (\<open>message_batch.go\<close>), \<open>Batch_Safety\<close>: the interleavings of enqueues, the steps of a flush, and a
    shutdown.
  \<^item> \<open>Instance_Bus\<close> (\<open>service/transport\<close>), \<open>Bus_Safety\<close>: what one instance publishes reaches the handler of the other, over
    the streams of the contract \<open>redis_streams\<close>. \<open>Distribution\<close> (\<open>distributor.go\<close>, \<open>fanout_executor.go\<close>), \<open>Distribution_Safety\<close>: each
    delivery from another instance once, the order within a group.
  \<^item> \<open>Message_Processor\<close> (\<open>message_processor.go\<close>), \<open>Processor_Safety\<close>: a confirmed message is saved, a text reaches both
    sides, a refused message blocks its session.
  \<^item> \<open>Chat_Servers\<close> (\<open>server.go\<close>, \<open>kafka_server.go\<close>), \<open>Server_Safety\<close>. The handling of a message in
    \<open>kafka_server.go\<close> has the text of that in \<open>server.go\<close>; both are \<open>server_handle\<close>. It agrees with the processor on texts
    between users, and a malformed message ends it.

  The services.
  \<^item> \<open>Random_Ids\<close> (\<open>pkg/util/random\<close>), \<open>Auth\<close> (\<open>pkg/auth\<close>, \<open>https_server/middleware\<close>, \<open>service/email\<close> with \<open>Smtp\<close>), \<open>Auth_Safety\<close>: tokens,
    passwords, the rate limit, codes by e-mail.
  \<^item> \<open>User_Service\<close>, \<open>Contact_Service\<close> (with \<open>contact_black.go\<close>), \<open>Group_Member\<close> (with \<open>group_member_query.go\<close>), \<open>Group_Service\<close>,
    \<open>Session_Service\<close>, \<open>Message_Service\<close> (\<open>service/gorm\<close>), and for each a theory \<open>_Safety\<close> (\<open>Account_Safety\<close> for the users).

  The HTTP interface.
  \<^item> \<open>Http_Requests\<close> (\<open>dto/request\<close>), \<open>Controllers\<close> (\<open>api/v1\<close>): one \<open>v1_\<close> definition for each handler, on the state \<open>http_state\<close>
    of the process: the chat with its database and cache, the clients that wait in the channels \<open>Login\<close> and \<open>Logout\<close>,
    the counter of the rate limit, the files on the disk. \<open>Http_Server\<close> (\<open>https_server\<close>): \<open>routes\<close>, \<open>admitted\<close> (the middlewares
    of a route) and \<open>serve\<close>, a whole request. \<open>Http_Memory\<close>: requests that the witnesses send.
  \<^item> \<open>Http_Safety\<close>: nothing behind the authentication happens without a valid token; groups are edited by their owner;
    histories go to their parties. \<open>File_Safety\<close>: who is sent a file. \<open>Connection_Safety\<close>: whose connection is opened and
    when it is closed. The laws of the services are used through the locale \<open>backend\<close>, not unfolded again.
  \<^item> \<open>Metrics_Export\<close> (\<open>metrics\<close>): the numbers that Prometheus scrapes.

  Start and end, and a tool.
  \<^item> \<open>Config\<close> (\<open>config\<close>), \<open>Startup\<close> (\<open>cmd/kama_chat_server\<close>, the settings in \<open>service/kafka\<close>), \<open>Startup_Safety\<close>: what a loaded
    configuration guarantees to the parts that use it, which message modes fit together, and what \<open>Close\<close> loses:
    \<open>stop_step\<close> interleaves \<open>main\<close> after the signal with the main loop and the ticker of the writer.
  \<^item> \<open>Migration\<close> (\<open>cmd/migrate_group_member\<close>), \<open>Migration_Safety\<close>: the old lists of members become rows.
    \<open>Aes\<close> (\<open>service/aes\<close>, which nobody calls): what is encrypted can be decrypted.

  How concurrency is modelled. A critical section, and a channel operation with the code to the next one, is
  one step. Where the order of steps of several goroutines matters there is an inductive relation
  (\<open>sr_step\<close>, \<open>batch_step\<close>, \<open>delivery_step\<close>, \<open>fan_step\<close>, \<open>work_step\<close>, \<open>hybrid_step\<close>, \<open>stop_step\<close>) and a property holds on every reachable
  state. Where a sequential operation waits, what the others do meanwhile is an argument
  (\<open>ce_sched\<close>, \<open>sched\<close>), and a property says what it needs of it. A choice of the runtime (which branch
  of a \<open>select\<close>, the order of a map) is an argument, too.

  Bounds and fuel. Sequence numbers are 64-bit words that wrap; the properties of the numbering ask for
  fewer than 2^64 messages of a session in the life of a process. Hashes are 32-bit words. \<open>flush_attempts\<close>
  makes at most \<open>maxFlushRetries\<close> rounds, as the code does. The retries of the status worker have no bound in
  the code; \<open>flush_statuses\<close> has fuel, and \<open>statuses_settle\<close> shows that one more than the number of failed tries is
  enough. \<open>bus_Run\<close> and \<open>Flush_loop\<close>, loops that another goroutine ends, have a number of rounds as an
  argument. Times are integers in nanoseconds.

  What is not modelled. Logging, TLS and cross-origin headers, the public avatars and pprof are calls of libraries,
  as are the connections to Redis, MySQL and Kafka, the TOML decoder,
  and the WebSocket handshake, deadlines and pings; what the code learns from them is an argument.
  The load generator and the integration test are programs for tests. The texts of answers
  are paraphrased, those of logs, and sleeping between retries, are left out. Invalid UTF-8 in a string that is marshalled is
  replaced in the messages of the bus; elsewhere it is kept as it is, where Go replaces it.

  Idealisations that the contracts make. Strings are compared by their bytes, and \<open>LIKE\<close> matches by bytes; the server of the repository's
  \<open>docker-compose.yml\<close> has the collation \<open>utf8mb4_unicode_ci\<close>, which ignores case. A statement or a transaction that answers an error has
  changed nothing (a commit whose answer is lost may have succeeded). The number of rows an update answers may count those it
  found or those it changed. The rows that are read are those of one moment. The cursor of SCAN comes back to 0 after a number of calls that depends on the cursor only. In the contract of the
  consumer group the instance keeps its partitions: nobody else commits, and no rebalance takes place, between the fetch of a batch and its commit.
\<close>

end
